(* ===== verification/Prelude.thy ===== *)
theory Prelude
  imports Main "HOL-Library.Word" "HOL-Library.AList" "HOL-Library.Sublist"
begin

text \<open>
  The shared vocabulary of the development: Python exceptions as values, a state-and-exception
  program type with its weakest-precondition calculus, decimal printing and string joining,
  insertion-ordered dictionaries and order-preserving de-duplication. Every component theory
  imports this one.
\<close>

unbundle bit_operations_syntax

named_theorems wp_intro \<open>introduction rules of the weakest-precondition calculus\<close>
named_theorems py_simps \<open>unfolding equations of the Python primitives\<close>


section \<open>Exceptions and results\<close>

text \<open>The Python exceptions the modelled code can raise; a raise is a value of the left summand.\<close>

datatype py_exc =
    IndexError
  | KeyError string
  | ValueError
  | AssertionError
  | ZeroDivisionError
  | OSError string
  | TypeError
  | RecursionError
  | AttributeError

type_synonym 'a result = "py_exc + 'a"

text \<open>Sequencing of a computation that may raise.\<close>

fun rbind :: "'e + 'a \<Rightarrow> ('a \<Rightarrow> 'e + 'b) \<Rightarrow> 'e + 'b" where
  "rbind (Inl e) f = Inl e"
| "rbind (Inr x) f = f x"

lemma rbind_Inr_iff: "rbind m f = Inr y \<longleftrightarrow> (\<exists>x. m = Inr x \<and> f x = Inr y)"
  by (cases m) auto

lemma rbind_cong [fundef_cong]:
  "m = m' \<Longrightarrow> (\<And>x. m' = Inr x \<Longrightarrow> f x = g x) \<Longrightarrow> rbind m f = rbind m' g"
  by (cases m') auto


section \<open>Programs: state and exceptions\<close>

text \<open>
  A method that mutates \<open>self\<close> and may raise is a function from the state to either the exception
  or the returned value with the new state. No modelled method catches an exception that a
  method of the same object raised, so the state at the raise need not be kept.
\<close>

type_synonym ('s, 'a) prog = "'s \<Rightarrow> py_exc + ('a \<times> 's)"

definition ret :: "'a \<Rightarrow> ('s, 'a) prog" where
  "ret x s = Inr (x, s)"

definition raise :: "py_exc \<Rightarrow> ('s, 'a) prog" where
  "raise e s = Inl e"

definition bind :: "('s, 'a) prog \<Rightarrow> ('a \<Rightarrow> ('s, 'b) prog) \<Rightarrow> ('s, 'b) prog" where
  "bind m f s = (case m s of Inl e \<Rightarrow> Inl e | Inr (x, s') \<Rightarrow> f x s')"

definition gets :: "('s \<Rightarrow> 'a) \<Rightarrow> ('s, 'a) prog" where
  "gets f s = Inr (f s, s)"

definition modify :: "('s \<Rightarrow> 's) \<Rightarrow> ('s, unit) prog" where
  "modify f s = Inr ((), f s)"

definition lift_result :: "'a result \<Rightarrow> ('s, 'a) prog" where
  "lift_result r s = (case r of Inl e \<Rightarrow> Inl e | Inr x \<Rightarrow> Inr (x, s))"

lemmas prog_defs [py_simps] = ret_def raise_def bind_def gets_def modify_def lift_result_def

text \<open>\<open>for _ in range(n): xs.append(step())\<close> and \<open>[f(x) for x in xs]\<close>.\<close>

primrec repeat_m :: "nat \<Rightarrow> ('s, 'a) prog \<Rightarrow> ('s, 'a list) prog" where
  "repeat_m 0 m = ret []"
| "repeat_m (Suc n) m = bind m (\<lambda>x. bind (repeat_m n m) (\<lambda>xs. ret (x # xs)))"

primrec map_m :: "('x \<Rightarrow> ('s, 'a) prog) \<Rightarrow> 'x list \<Rightarrow> ('s, 'a list) prog" where
  "map_m f [] = ret []"
| "map_m f (x # xs) = bind (f x) (\<lambda>y. bind (map_m f xs) (\<lambda>ys. ret (y # ys)))"


section \<open>Weakest preconditions\<close>

text \<open>
  \<open>wp m Q s\<close>: from \<open>s\<close> the program \<open>m\<close> raises nothing and ends in a value and a state that
  satisfy \<open>Q\<close>. A \<open>wp\<close> fact is total: it says that the program returns.
\<close>

definition wp :: "('s, 'a) prog \<Rightarrow> ('a \<Rightarrow> 's \<Rightarrow> bool) \<Rightarrow> 's \<Rightarrow> bool" where
  "wp m Q s \<longleftrightarrow> (case m s of Inl e \<Rightarrow> False | Inr (x, s') \<Rightarrow> Q x s')"

lemma wp_iff: "wp m Q s \<longleftrightarrow> (\<exists>x s'. m s = Inr (x, s') \<and> Q x s')"
  by (auto simp: wp_def split: sum.splits prod.splits)

lemma wp_ret [simp]: "wp (ret x) Q s = Q x s"
  by (simp add: wp_def ret_def)

lemma wp_raise [simp]: "wp (raise e) Q s = False"
  by (simp add: wp_def raise_def)

lemma wp_bind [simp]: "wp (bind m f) Q s = wp m (\<lambda>x s'. wp (f x) Q s') s"
  by (auto simp: wp_def bind_def split: sum.splits prod.splits)

lemma wp_gets [simp]: "wp (gets f) Q s = Q (f s) s"
  by (simp add: wp_def gets_def)

lemma wp_modify [simp]: "wp (modify f) Q s = Q () (f s)"
  by (simp add: wp_def modify_def)

lemma wp_lift_result [simp]: "wp (lift_result r) Q s = (\<exists>x. r = Inr x \<and> Q x s)"
  by (cases r) (auto simp: wp_def lift_result_def)

lemma wp_if [simp]: "wp (if b then m else n) Q s = (if b then wp m Q s else wp n Q s)"
  by simp

lemma wp_mono: "wp m Q s \<Longrightarrow> (\<And>x s'. Q x s' \<Longrightarrow> R x s') \<Longrightarrow> wp m R s"
  by (auto simp: wp_iff)

lemma wp_conj: "wp m Q s \<Longrightarrow> wp m R s \<Longrightarrow> wp m (\<lambda>x s'. Q x s' \<and> R x s') s"
  by (auto simp: wp_iff)

text \<open>The same rules in introduction form, so that \<open>intro wp_intro\<close> walks through a program.\<close>

lemma wp_bindI [wp_intro]: "wp m (\<lambda>x s'. wp (f x) Q s') s \<Longrightarrow> wp (bind m f) Q s"
  by simp

lemma wp_retI [wp_intro]: "Q x s \<Longrightarrow> wp (ret x) Q s"
  by simp

lemma wp_getsI [wp_intro]: "Q (f s) s \<Longrightarrow> wp (gets f) Q s"
  by simp

lemma wp_modifyI [wp_intro]: "Q () (f s) \<Longrightarrow> wp (modify f) Q s"
  by simp

lemma wp_liftI: "r = Inr x \<Longrightarrow> Q x s \<Longrightarrow> wp (lift_result r) Q s"
  by simp

lemma wp_ifI [wp_intro]:
  "(b \<Longrightarrow> wp m Q s) \<Longrightarrow> (\<not> b \<Longrightarrow> wp n Q s) \<Longrightarrow> wp (if b then m else n) Q s"
  by simp

lemma wp_prodI [wp_intro]:
  "(\<And>a b. p = (a, b) \<Longrightarrow> wp (f a b) Q s) \<Longrightarrow> wp (case p of (a, b) \<Rightarrow> f a b) Q s"
  by (cases p) simp

lemma wp_pairI: "wp (f a b) Q s \<Longrightarrow> wp (case (a, b) of (x, y) \<Rightarrow> f x y) Q s"
  by simp

lemma wp_if_true: "b \<Longrightarrow> wp m Q s \<Longrightarrow> wp (if b then m else n) Q s"
  by simp

text \<open>
  The contract of one iteration of a generating loop: the step keeps an invariant and its output
  is related to the states before and after; the relation composes. Every loop that runs such a
  step a number of times then keeps the invariant and relates the whole output.
\<close>

locale loop_step =
  fixes step :: "('s, 'a) prog"
    and inv :: "'s \<Rightarrow> bool"
    and rel :: "'s \<Rightarrow> 'a list \<Rightarrow> 's \<Rightarrow> bool"
  assumes rel_nil: "inv s \<Longrightarrow> rel s [] s"
    and step_ok: "inv s \<Longrightarrow> wp step (\<lambda>x s'. inv s' \<and> rel s [x] s') s"
    and rel_cons: "rel s [x] s' \<Longrightarrow> rel s' xs s'' \<Longrightarrow> rel s (x # xs) s''"
begin

lemma repeat_ok: "inv s \<Longrightarrow> wp (repeat_m n step) (\<lambda>xs s'. inv s' \<and> rel s xs s') s"
proof (induction n arbitrary: s)
  case 0
  then show ?case by (simp add: rel_nil)
next
  case (Suc n)
  have "wp (repeat_m n step) (\<lambda>xs s''. inv s'' \<and> rel s (x # xs) s'') s'"
    if "inv s'" and "rel s [x] s'" for x s'
    by (rule wp_mono [OF Suc.IH [OF that(1)]]) (use that(2) in \<open>auto intro: rel_cons\<close>)
  then show ?case
    by (auto intro: wp_mono [OF step_ok [OF Suc.prems]])
qed

lemma repeat_returns: "inv s \<Longrightarrow> \<exists>xs s'. repeat_m n step s = Inr (xs, s') \<and> inv s'"
  using repeat_ok [of s n] by (auto simp: wp_iff)

end

lemma repeat_m_length:
  "repeat_m n m s = Inr (xs, s') \<Longrightarrow> length xs = n"
  by (induction n arbitrary: s xs s') (auto simp: py_simps split: sum.splits prod.splits)


section \<open>Strings\<close>

abbreviation nl :: string where
  "nl \<equiv> [CHR 0x0A]"

abbreviation dquote :: string where
  "dquote \<equiv> [CHR 0x22]"

text \<open>The em dash of the generated headers, as the UTF-8 bytes the file holds.\<close>

abbreviation em_dash :: string where
  "em_dash \<equiv> [CHR 0xE2, CHR 0x80, CHR 0x94]"

definition digit_char :: "nat \<Rightarrow> char" where
  "digit_char d = char_of (48 + d)"

text \<open>\<open>str(n)\<close> and the \<open>%d\<close> conversion, on naturals and on integers.\<close>

fun str_nat :: "nat \<Rightarrow> string" where
  "str_nat n = (if n < 10 then [digit_char n] else str_nat (n div 10) @ [digit_char (n mod 10)])"

declare str_nat.simps [simp del]

definition str_int :: "int \<Rightarrow> string" where
  "str_int i = (if i < 0 then ''-'' @ str_nat (nat (- i)) else str_nat (nat i))"

text \<open>\<open>sep.join(xs)\<close>, \<open>"    " * ind\<close>, prefix and substring tests.\<close>

fun join :: "string \<Rightarrow> string list \<Rightarrow> string" where
  "join sep [] = ''''"
| "join sep [x] = x"
| "join sep (x # y # xs) = x @ sep @ join sep (y # xs)"

definition pad :: "nat \<Rightarrow> string" where
  "pad ind = concat (replicate ind ''    '')"

definition startswith :: "string \<Rightarrow> string \<Rightarrow> bool" where
  "startswith s p = (take (length p) s = p)"

lemma startswith_iff: "startswith s p \<longleftrightarrow> (\<exists>r. s = p @ r)"
  unfolding startswith_def by (metis append_eq_conv_conj)

fun contains :: "string \<Rightarrow> string \<Rightarrow> bool" where
  "contains s p = (startswith s p \<or> (case s of [] \<Rightarrow> False | _ # s' \<Rightarrow> contains s' p))"

declare contains.simps [simp del]

lemma contains_iff: "contains s p \<longleftrightarrow> (\<exists>u v. s = u @ p @ v)"
proof (induction s)
  case Nil
  then show ?case by (subst contains.simps) (simp add: startswith_iff)
next
  case (Cons c s)
  have "(\<exists>u v. c # s = u @ p @ v) \<longleftrightarrow> (\<exists>v. c # s = p @ v) \<or> (\<exists>u v. s = u @ p @ v)"
    by (metis append_Cons append_Nil neq_Nil_conv list.inject)
  with Cons show ?case by (subst contains.simps) (simp add: startswith_iff)
qed

definition is_digit :: "char \<Rightarrow> bool" where
  "is_digit c \<longleftrightarrow> 48 \<le> (of_char c :: nat) \<and> (of_char c :: nat) \<le> 57"

fun val_digits :: "nat \<Rightarrow> string \<Rightarrow> nat" where
  "val_digits acc [] = acc"
| "val_digits acc (c # cs) = val_digits (10 * acc + (of_char c - 48)) cs"

lemma of_char_digit_char [simp]: "d < 10 \<Longrightarrow> (of_char (digit_char d) :: nat) = 48 + d"
  by (simp add: digit_char_def)

lemma val_digits_append: "val_digits acc (xs @ ys) = val_digits (val_digits acc xs) ys"
  by (induction xs arbitrary: acc) auto

text \<open>Decimal printing is invertible, so distinct numbers print differently.\<close>

lemma val_digits_str_nat: "val_digits 0 (str_nat n) = n"
proof (induction n rule: str_nat.induct)
  case (1 n)
  then show ?case by (subst str_nat.simps) (auto simp: val_digits_append)
qed

lemma str_nat_inject [simp]: "str_nat m = str_nat n \<longleftrightarrow> m = n"
  by (metis val_digits_str_nat)

lemma str_nat_digits: "c \<in> set (str_nat n) \<Longrightarrow> is_digit c"
proof (induction n rule: str_nat.induct)
  case (1 n)
  then show ?case by (subst (asm) str_nat.simps) (auto simp: is_digit_def split: if_splits)
qed

lemma str_nat_nonempty [simp]: "str_nat n \<noteq> []"
  by (subst str_nat.simps) simp


section \<open>Dictionaries and order-preserving de-duplication\<close>

text \<open>
  A Python dictionary iterates in insertion order and keeps a key's position when its value is
  replaced: an association list updated by \<^const>\<open>AList.update\<close> and read by \<^const>\<open>map_of\<close>.
\<close>

type_synonym ('k, 'v) dict = "('k \<times> 'v) list"

abbreviation dict_set :: "('k, 'v) dict \<Rightarrow> 'k \<Rightarrow> 'v \<Rightarrow> ('k, 'v) dict" where
  "dict_set d k v \<equiv> AList.update k v d"

abbreviation dict_values :: "('k, 'v) dict \<Rightarrow> 'v list" where
  "dict_values d \<equiv> map snd d"

lemma dict_set_fresh: "k \<notin> fst ` set d \<Longrightarrow> dict_set d k v = d @ [(k, v)]"
  by (induction d) auto

text \<open>\<open>list(dict.fromkeys(xs))\<close>: the first occurrence of each element, in order.\<close>

fun dedup_from :: "'a list \<Rightarrow> 'a list \<Rightarrow> 'a list" where
  "dedup_from seen [] = []"
| "dedup_from seen (x # xs) =
     (if x \<in> set seen then dedup_from seen xs else x # dedup_from (x # seen) xs)"

definition dedup :: "'a list \<Rightarrow> 'a list" where
  "dedup xs = dedup_from [] xs"

lemma set_dedup_from: "set (dedup_from seen xs) = set xs - set seen"
  by (induction seen xs rule: dedup_from.induct) auto

lemma distinct_dedup_from: "distinct (dedup_from seen xs)"
  by (induction seen xs rule: dedup_from.induct) (auto simp: set_dedup_from)

lemma dedup_from_subseq: "subseq (dedup_from seen xs) xs"
  by (induction seen xs rule: dedup_from.induct) auto

lemma dedup_from_snoc:
  "dedup_from seen (xs @ [y]) = dedup_from seen xs @ (if y \<in> set seen \<union> set xs then [] else [y])"
  by (induction seen xs rule: dedup_from.induct) auto

lemma dedup_snoc: "dedup (xs @ [y]) = (if y \<in> set xs then dedup xs else dedup xs @ [y])"
  by (simp add: dedup_def dedup_from_snoc)

lemma dedup_nil [simp]: "dedup [] = []"
  by (simp add: dedup_def)

lemma dedup_eq_nil [simp]: "dedup xs = [] \<longleftrightarrow> xs = []"
  by (cases xs) (auto simp: dedup_def)

lemma set_dedup [simp]: "set (dedup xs) = set xs"
  by (simp add: dedup_def set_dedup_from)

lemma distinct_dedup [simp]: "distinct (dedup xs)"
  by (simp add: dedup_def distinct_dedup_from)


section \<open>Bit operations on bounded integers\<close>

text \<open>\<open>_mask(w)\<close> of the fuzzers: \<open>(1 << w) - 1\<close>; masking is reduction modulo \<open>2 ^ w\<close>.\<close>

definition mask_int :: "nat \<Rightarrow> int" where
  "mask_int w = push_bit w 1 - 1"

lemma mask_int_eq: "mask_int w = 2 ^ w - 1"
  by (simp add: mask_int_def push_bit_eq_mult)

lemma and_mask_int: "x AND mask_int w = x mod 2 ^ w"
  by (simp add: mask_int_eq flip: mask_eq_exp_minus_1 take_bit_eq_mask take_bit_eq_mod)

text \<open>A value of a \<open>w\<close>-bit unsigned type.\<close>

definition in_range :: "nat \<Rightarrow> int \<Rightarrow> bool" where
  "in_range w v \<longleftrightarrow> 0 \<le> v \<and> v < 2 ^ w"

lemma in_range_iff_take_bit: "in_range w v \<longleftrightarrow> take_bit w v = v"
  by (metis in_range_def take_bit_int_eq_self take_bit_int_less_exp take_bit_nonnegative)

lemma in_range_mask [simp]: "in_range w (x AND mask_int w)"
  by (simp add: and_mask_int in_range_def)

lemma in_range_AND: "in_range w x \<Longrightarrow> in_range w y \<Longrightarrow> in_range w (x AND y)"
  by (simp add: in_range_iff_take_bit)

lemma in_range_OR: "in_range w x \<Longrightarrow> in_range w y \<Longrightarrow> in_range w (x OR y)"
  by (simp add: in_range_iff_take_bit)

lemma in_range_XOR: "in_range w x \<Longrightarrow> in_range w y \<Longrightarrow> in_range w (x XOR y)"
  by (simp add: in_range_iff_take_bit)

lemma in_range_drop_bit: "in_range w x \<Longrightarrow> in_range w (drop_bit k x)"
proof -
  assume x: "in_range w x"
  have "x div 2 ^ k \<le> x div 1"
    using x by (intro zdiv_mono2) (auto simp: in_range_def)
  with x show ?thesis
    by (auto simp: in_range_def drop_bit_eq_div pos_imp_zdiv_nonneg_iff)
qed

lemma in_range_mono: "in_range w x \<Longrightarrow> w \<le> w' \<Longrightarrow> in_range w' x"
  unfolding in_range_def by (meson one_le_numeral order_less_le_trans power_increasing)

lemma in_range_minus_one: "in_range w (2 ^ w - 1)"
  by (simp add: in_range_def)

lemma in_range_0 [simp]: "in_range w 0"
  by (simp add: in_range_def)

lemmas in_range_bitops = in_range_AND in_range_OR in_range_XOR in_range_drop_bit

end
