(* ===== verification/Py_Random.thy ===== *)
theory Py_Random
  imports Prelude
begin

text \<open>
  The part of Python's \<open>random.Random\<close> that the generators call: \<open>random\<close>, \<open>randrange\<close>,
  \<open>randint\<close>, \<open>choice\<close> and \<open>sample\<close>. The Mersenne Twister behind them is replaced by a tape of
  draws: a seeded run makes finitely many draws and so reads one finite tape, and a theorem about
  every tape holds for every seed. A read past the end of the tape yields 0.
\<close>

section \<open>The tape and the draws\<close>

record rng_state =
  tape :: "nat list"

definition next_draw :: "('z rng_state_scheme, nat) prog" where
  "next_draw s = (case tape s of [] \<Rightarrow> Inr (0, s) | x # xs \<Rightarrow> Inr (x, s\<lparr>tape := xs\<rparr>))"

text \<open>\<open>_randbelow(n)\<close>: a number below \<open>n\<close>. Every value below \<open>n\<close> is the value of some tape.\<close>

definition randbelow :: "nat \<Rightarrow> ('z rng_state_scheme, nat) prog" where
  "randbelow n = bind next_draw (\<lambda>x. ret (x mod n))"

text \<open>
  \<open>random()\<close> is \<open>k / 2 ^ 53\<close> for a \<open>k\<close> below \<open>2 ^ 53\<close>. Values are scaled by \<open>2 ^ 60\<close>, so that every
  float literal the generators compare it with is an exact integer (\<open>flt_\<close> constants below) and
  the comparison is an integer comparison.
\<close>

definition py_random :: "('z rng_state_scheme, nat) prog" where
  "py_random = bind (randbelow (2 ^ 53)) (\<lambda>k. ret (k * 2 ^ 7))"

definition randrange :: "nat \<Rightarrow> nat \<Rightarrow> ('z rng_state_scheme, nat) prog" where
  "randrange lo hi =
     (if hi \<le> lo then raise ValueError
      else bind (randbelow (hi - lo)) (\<lambda>k. ret (lo + k)))"

definition randint :: "int \<Rightarrow> int \<Rightarrow> ('z rng_state_scheme, int) prog" where
  "randint lo hi =
     (if hi + 1 \<le> lo then raise ValueError
      else bind (randbelow (nat (hi + 1 - lo))) (\<lambda>k. ret (lo + int k)))"

definition choice :: "'a list \<Rightarrow> ('z rng_state_scheme, 'a) prog" where
  "choice xs =
     (if xs = [] then raise IndexError
      else bind (randbelow (length xs)) (\<lambda>i. ret (xs ! i)))"

text \<open>
  \<open>sample(pool, k)\<close> on the small populations the generators use: the library copies the population
  into a list, takes \<open>pool[j]\<close> for a \<open>j\<close> below the number of items left, and moves the last of those
  items into the hole. On larger populations it draws positions and rejects those already taken; the
  rejected draws are not on the tape, so there too each result is any item not taken before.
\<close>

fun sample_pool :: "nat \<Rightarrow> nat \<Rightarrow> 'a list \<Rightarrow> ('z rng_state_scheme, 'a list) prog" where
  "sample_pool 0 m pool = ret []"
| "sample_pool (Suc k) m pool =
     bind (randbelow m) (\<lambda>j.
     bind (sample_pool k (m - 1) (pool[j := pool ! (m - 1)])) (\<lambda>xs. ret (pool ! j # xs)))"

definition sample :: "'a list \<Rightarrow> nat \<Rightarrow> ('z rng_state_scheme, 'a list) prog" where
  "sample pool k =
     (if length pool < k then raise ValueError else sample_pool k (length pool) pool)"


text \<open>\<open>self.rng.random() < p\<close>, alone and behind a short-circuit \<open>c and \<dots>\<close>.\<close>

definition flip :: "nat \<Rightarrow> ('z rng_state_scheme, bool) prog" where
  "flip p = bind py_random (\<lambda>r. ret (r < p))"

definition flip_if :: "bool \<Rightarrow> nat \<Rightarrow> ('z rng_state_scheme, bool) prog" where
  "flip_if c p = (if c then flip p else ret False)"


section \<open>Float literals, scaled by \<open>2 ^ 60\<close>\<close>

text \<open>\<open>flt_0_4\<close> is the double nearest to 0.4, times \<open>2 ^ 60\<close>; the others alike.\<close>

definition flt_0_18 :: nat where
  "flt_0_18 = 207525870829232448"

definition flt_0_2 :: nat where
  "flt_0_2 = 230584300921369408"

definition flt_0_25 :: nat where
  "flt_0_25 = 288230376151711744"

definition flt_0_3 :: nat where
  "flt_0_3 = 345876451382054080"

definition flt_0_35 :: nat where
  "flt_0_35 = 403522526612396416"

definition flt_0_4 :: nat where
  "flt_0_4 = 461168601842738816"

definition flt_0_42 :: nat where
  "flt_0_42 = 484227031934875712"

definition flt_0_45 :: nat where
  "flt_0_45 = 518814677073081152"

definition flt_0_5 :: nat where
  "flt_0_5 = 576460752303423488"

definition flt_0_55 :: nat where
  "flt_0_55 = 634106827533765888"

definition flt_0_6 :: nat where
  "flt_0_6 = 691752902764108160"

definition flt_0_62 :: nat where
  "flt_0_62 = 714811332856245120"

definition flt_0_65 :: nat where
  "flt_0_65 = 749398977994450560"

definition flt_0_7 :: nat where
  "flt_0_7 = 807045053224792832"

definition flt_0_75 :: nat where
  "flt_0_75 = 864691128455135232"

definition flt_0_76 :: nat where
  "flt_0_76 = 876220343501203712"

definition flt_0_8 :: nat where
  "flt_0_8 = 922337203685477632"

definition flt_0_84 :: nat where
  "flt_0_84 = 968454063869751424"

definition flt_0_88 :: nat where
  "flt_0_88 = 1014570924054025344"

definition flt_0_9 :: nat where
  "flt_0_9 = 1037629354146162304"

definition flt_0_93 :: nat where
  "flt_0_93 = 1072216999284367744"

lemmas flt_defs =
  flt_0_18_def flt_0_2_def flt_0_25_def flt_0_3_def flt_0_35_def
  flt_0_4_def flt_0_42_def flt_0_45_def flt_0_5_def flt_0_55_def
  flt_0_6_def flt_0_62_def flt_0_65_def flt_0_7_def flt_0_75_def
  flt_0_76_def flt_0_8_def flt_0_84_def flt_0_88_def flt_0_9_def
  flt_0_93_def


section \<open>Weakest preconditions of the draws\<close>

lemma wp_next_draw [wp_intro]:
  "(\<And>x t. Q x (s\<lparr>tape := t\<rparr>)) \<Longrightarrow> wp next_draw Q s"
proof (cases "tape s")
  case Nil
  assume "\<And>x t. Q x (s\<lparr>tape := t\<rparr>)"
  from this [of 0 "tape s"] have "Q 0 s" by (simp del: select_convs)
  with Nil show ?thesis by (simp add: wp_def next_draw_def)
qed (simp add: wp_def next_draw_def)

lemma wp_randbelow [wp_intro]:
  "0 < n \<Longrightarrow> (\<And>k t. k < n \<Longrightarrow> Q k (s\<lparr>tape := t\<rparr>)) \<Longrightarrow> wp (randbelow n) Q s"
  by (auto simp: randbelow_def intro!: wp_next_draw)

lemma wp_py_random [wp_intro]:
  "(\<And>r t. Q r (s\<lparr>tape := t\<rparr>)) \<Longrightarrow> wp py_random Q s"
  by (auto simp: py_random_def intro!: wp_randbelow)

lemma wp_randrange [wp_intro]:
  "lo < hi \<Longrightarrow> (\<And>k t. lo \<le> k \<Longrightarrow> k < hi \<Longrightarrow> Q k (s\<lparr>tape := t\<rparr>)) \<Longrightarrow> wp (randrange lo hi) Q s"
  by (auto simp: randrange_def intro!: wp_randbelow)

lemma wp_randint [wp_intro]:
  "lo \<le> hi \<Longrightarrow> (\<And>v t. lo \<le> v \<Longrightarrow> v \<le> hi \<Longrightarrow> Q v (s\<lparr>tape := t\<rparr>)) \<Longrightarrow> wp (randint lo hi) Q s"
  by (auto simp: randint_def intro!: wp_randbelow)

lemma wp_choice [wp_intro]:
  "xs \<noteq> [] \<Longrightarrow> (\<And>x t. x \<in> set xs \<Longrightarrow> Q x (s\<lparr>tape := t\<rparr>)) \<Longrightarrow> wp (choice xs) Q s"
  by (auto simp: choice_def intro!: wp_randbelow)

lemma wp_flip [wp_intro]: "(\<And>b t. Q b (s\<lparr>tape := t\<rparr>)) \<Longrightarrow> wp (flip p) Q s"
  by (auto simp: flip_def intro!: wp_intro)

lemma wp_flip_if [wp_intro]:
  assumes "\<And>b t. (b \<Longrightarrow> c) \<Longrightarrow> Q b (s\<lparr>tape := t\<rparr>)"
  shows "wp (flip_if c p) Q s"
proof -
  have "s\<lparr>tape := tape s\<rparr> = s" by simp
  with assms [of False "tape s"] have "Q False s" by simp
  with assms show ?thesis by (auto simp: flip_if_def intro!: wp_flip)
qed

text \<open>One step of sampling removes the chosen item from the items left.\<close>

lemma sample_step:
  assumes "distinct (take m pool)" and "m \<le> length pool" and "j < m"
  defines "pool' \<equiv> pool[j := pool ! (m - 1)]"
  shows "distinct (take (m - 1) pool')"
    and "set (take (m - 1) pool') = set (take m pool) - {pool ! j}"
proof -
  define n where "n = m - 1"
  have m: "m = Suc n" "n < length pool" using assms by (auto simp: n_def)
  have tk: "take m pool = take n pool @ [pool ! n]"
    using m by (simp add: take_Suc_conv_app_nth)
  have d: "distinct (take n pool)" "pool ! n \<notin> set (take n pool)"
    using assms(1) unfolding tk by auto
  have eq: "take (m - 1) pool' = (take n pool)[j := pool ! n]"
    using m by (simp add: pool'_def take_update_swap)
  have *: "distinct ((take n pool)[j := pool ! n]) \<and>
      set ((take n pool)[j := pool ! n]) = insert (pool ! n) (set (take n pool)) - {pool ! j}"
  proof (cases "j < n")
    case True
    then have j: "j < length (take n pool)" "take n pool ! j = pool ! j" using m by auto
    have "set ((take n pool)[j := pool ! n]) = insert (pool ! n) (set (take n pool) - {pool ! j})"
      using set_update_distinct [OF d(1) j(1)] j(2) by simp
    moreover have "pool ! j \<noteq> pool ! n" using d(2) j by (metis nth_mem)
    moreover have "distinct ((take n pool)[j := pool ! n])"
      using d by (intro distinct_list_update) auto
    ultimately show ?thesis by blast
  next
    case False
    then have "j = n" using assms(3) m by simp
    then show ?thesis using d m by (auto simp: list_update_beyond)
  qed
  show "distinct (take (m - 1) pool')" using * eq by simp
  show "set (take (m - 1) pool') = set (take m pool) - {pool ! j}" using * eq tk by auto
qed

lemma wp_sample_pool:
  "distinct (take m pool) \<Longrightarrow> m \<le> length pool \<Longrightarrow> k \<le> m \<Longrightarrow>
   (\<And>xs t. length xs = k \<Longrightarrow> distinct xs \<Longrightarrow> set xs \<subseteq> set (take m pool) \<Longrightarrow> Q xs (s\<lparr>tape := t\<rparr>)) \<Longrightarrow>
   wp (sample_pool k m pool) Q s"
proof (induction k m pool arbitrary: s Q rule: sample_pool.induct)
  case (1 m pool)
  from "1.prems"(4) [of "[]" "tape s"] show ?case by simp
next
  case (2 k m pool)
  have "wp (sample_pool k (m - 1) (pool[j := pool ! (m - 1)])) (\<lambda>xs s'. Q (pool ! j # xs) s')
      (s\<lparr>tape := t\<rparr>)" if j: "j < m" for j t
  proof -
    note st = sample_step [OF "2.prems"(1,2) j]
    have pj: "pool ! j \<in> set (take m pool)"
      using j "2.prems"(2) by (auto simp: in_set_conv_nth intro!: exI [of _ j])
    show ?thesis
      by (rule "2.IH") (use st pj "2.prems" in \<open>auto intro!: "2.prems"(4)\<close>)
  qed
  then show ?case using "2.prems"(3) by (auto intro!: wp_randbelow)
qed

lemma wp_sample [wp_intro]:
  "distinct pool \<Longrightarrow> k \<le> length pool \<Longrightarrow>
   (\<And>xs t. length xs = k \<Longrightarrow> distinct xs \<Longrightarrow> set xs \<subseteq> set pool \<Longrightarrow> Q xs (s\<lparr>tape := t\<rparr>)) \<Longrightarrow>
   wp (sample pool k) Q s"
  by (auto simp: sample_def intro!: wp_sample_pool)

text \<open>Lawful draws from the tape: the contract of a bounded random source and what clients derive.\<close>

locale random_source =
  fixes below :: "nat \<Rightarrow> ('s, nat) prog"
    and same :: "'s \<Rightarrow> 's \<Rightarrow> bool"
  assumes below_ok: "0 < n \<Longrightarrow> wp (below n) (\<lambda>k s'. k < n \<and> same s s') s"
    and same_trans: "same s s' \<Longrightarrow> same s' s'' \<Longrightarrow> same s s''"
begin

text \<open>Choosing an index never leaves the list, and several draws leave the frame alone.\<close>

lemma index_ok: "xs \<noteq> [] \<Longrightarrow> wp (bind (below (length xs)) (\<lambda>i. ret (xs ! i))) (\<lambda>x s'. x \<in> set xs \<and> same s s') s"
  using below_ok [of "length xs" s] by (auto elim!: wp_mono)

lemma two_draws:
  "0 < m \<Longrightarrow> 0 < n \<Longrightarrow>
   wp (bind (below m) (\<lambda>a. bind (below n) (\<lambda>b. ret (a, b)))) (\<lambda>(a, b) s'. a < m \<and> b < n \<and> same s s') s"
  by (auto intro!: wp_mono [OF below_ok [of m]] wp_mono [OF below_ok [of n]] intro: same_trans)

end

text \<open>The states of a generator that differ only in how much of the tape is left.\<close>

definition same_frame :: "'z rng_state_scheme \<Rightarrow> 'z rng_state_scheme \<Rightarrow> bool" where
  "same_frame s s' \<longleftrightarrow> (\<exists>t. s' = s\<lparr>tape := t\<rparr>)"

lemma same_frame_refl [simp]: "same_frame s s"
  by (simp add: same_frame_def exI [of _ "tape s"])

lemma same_frame_tape [simp]: "same_frame s (s\<lparr>tape := t\<rparr>)"
  by (auto simp: same_frame_def)

interpretation tape_source: random_source randbelow same_frame
  by unfold_locales (auto simp: same_frame_def intro!: wp_randbelow)

lemma choice_in_frame: "xs \<noteq> [] \<Longrightarrow> wp (choice xs) (\<lambda>x s'. x \<in> set xs \<and> same_frame s s') s"
  using tape_source.index_ok [of xs s] by (simp add: choice_def)

end
