(* ===== verification/Mcref_Ast.thy ===== *)
theory Mcref_Ast
  imports Py_Random
begin

text \<open>
  The typed AST of the reference interpreter (\<open>tools/fuzz/mcref.py\<close>): the type table, the
  expression and statement classes, and the two readings every node has, \<open>render\<close> (MC source) and
  \<open>eval\<close> (Python value). The second half is the type discipline of the generated programs and its
  soundness: a well-typed program never raises, stays inside every width, and returns.
\<close>

section \<open>The type table\<close>

datatype ref_kind = Plain | Wrap | Sat

text \<open>\<open>REF_TYPES\<close>: name to (width, kind), in the order the module fills the dictionary.\<close>

definition REF_TYPES :: "(string, nat \<times> ref_kind) dict" where
  "REF_TYPES =
     concat (map (\<lambda>w. [(''u'' @ str_nat w, (w, Plain)),
                       (''wrap<u'' @ str_nat w @ ''>'', (w, Wrap)),
                       (''sat<u'' @ str_nat w @ ''>'', (w, Sat))]) [8, 16, 32, 64])
     @ [(''usize'', (64, Plain))]"

text \<open>\<open>REF_TYPES[rt]\<close>.\<close>

definition ref_type :: "string \<Rightarrow> (nat \<times> ref_kind) result" where
  "ref_type rt = (case map_of REF_TYPES rt of None \<Rightarrow> Inl (KeyError rt) | Some wk \<Rightarrow> Inr wk)"

text \<open>\<open>_fold(name, rt)\<close>: the u64 fold of a variable, as MC source.\<close>

definition fold_src :: "string \<Rightarrow> string \<Rightarrow> string result" where
  "fold_src name rt =
     rbind (ref_type rt) (\<lambda>(w, k).
       if k = Plain then Inr (''(('' @ name @ '') as u64)'')
       else Inr (''((u'' @ str_nat w @ ''.wrap_from('' @ name @ '')) as u64)''))"


section \<open>Expressions, conditions, statements\<close>

text \<open>
  A \<open>wrap_from\<close> or early-return source is either the fold of a variable or a literal; the code
  passes it as a rendered string together with a closure over the environment, here one datatype
  that both readings interpret.
\<close>

datatype u64src = SrcVar string string | SrcLit int

datatype expr =
    Lit int string
  | Var string string
  | WAdd expr expr string
  | Bitwise string expr expr string
  | Shr expr nat string
  | Conv string u64src
  | DomBin string expr expr string
  | DomShr expr nat string

datatype cond =
    Cmp string expr expr
  | BoolBin string cond cond

datatype stmt =
    Decl string string expr
  | Assign string expr
  | If cond "stmt list" "stmt list"
  | While string nat "stmt list"
  | EarlyRet cond u64src

type_synonym env = "string \<rightharpoonup> int"

text \<open>A statement either raises or returns early through \<open>RetSignal\<close>.\<close>

datatype signal = Raised py_exc | RetSignal int


section \<open>Evaluation\<close>

definition lookup_env :: "env \<Rightarrow> string \<Rightarrow> int result" where
  "lookup_env env x = (case env x of None \<Rightarrow> Inl (KeyError x) | Some v \<Rightarrow> Inr v)"

fun eval_src :: "u64src \<Rightarrow> env \<Rightarrow> int result" where
  "eval_src (SrcVar x rt) env = lookup_env env x"
| "eval_src (SrcLit v) env = Inr v"

text \<open>The operator dictionary of \<open>Bitwise.eval\<close>: an unknown operator is a \<open>KeyError\<close>.\<close>

definition bit_op :: "string \<Rightarrow> int \<Rightarrow> int \<Rightarrow> int result" where
  "bit_op op x y =
     (if op = ''&'' then Inr (x AND y)
      else if op = ''|'' then Inr (x OR y)
      else if op = ''^'' then Inr (x XOR y)
      else Inl (KeyError op))"

text \<open>\<open>DomBin.eval\<close> on values: wrap is modular and has bit operations, sat clamps to \<open>[0, max]\<close>.\<close>

definition dom_bin :: "nat \<Rightarrow> ref_kind \<Rightarrow> string \<Rightarrow> int \<Rightarrow> int \<Rightarrow> int result" where
  "dom_bin w k op x y =
     (let m = mask_int w in
      if k = Wrap then
        (if op = ''+'' then Inr ((x + y) AND m)
         else if op = ''-'' then Inr ((x - y) AND m)
         else if op = ''*'' then Inr ((x * y) AND m)
         else bit_op op x y)
      else if op = ''+'' then Inr (min (x + y) m)
      else if op = ''-'' then Inr (max (x - y) 0)
      else Inr (min (x * y) m))"

fun eval_expr :: "expr \<Rightarrow> env \<Rightarrow> int result" where
  "eval_expr (Lit v rt) env = Inr v"
| "eval_expr (Var x rt) env = lookup_env env x"
| "eval_expr (WAdd a b rt) env =
     rbind (eval_expr a env) (\<lambda>x. rbind (eval_expr b env) (\<lambda>y.
     rbind (ref_type rt) (\<lambda>(w, k). Inr ((x + y) AND mask_int w))))"
| "eval_expr (Bitwise op a b rt) env =
     rbind (eval_expr a env) (\<lambda>x. rbind (eval_expr b env) (\<lambda>y. bit_op op x y))"
| "eval_expr (Shr a k rt) env = rbind (eval_expr a env) (\<lambda>x. Inr (drop_bit k x))"
| "eval_expr (Conv rt src) env =
     rbind (eval_src src env) (\<lambda>v. rbind (ref_type rt) (\<lambda>(w, k). Inr (v AND mask_int w)))"
| "eval_expr (DomBin op a b rt) env =
     rbind (ref_type rt) (\<lambda>(w, k).
     rbind (eval_expr a env) (\<lambda>x. rbind (eval_expr b env) (\<lambda>y. dom_bin w k op x y)))"
| "eval_expr (DomShr a k rt) env = rbind (eval_expr a env) (\<lambda>x. Inr (drop_bit k x))"

definition cmp_op :: "string \<Rightarrow> int \<Rightarrow> int \<Rightarrow> bool result" where
  "cmp_op op x y =
     (if op = ''<'' then Inr (x < y) else if op = ''<='' then Inr (x \<le> y)
      else if op = ''>'' then Inr (x > y) else if op = ''>='' then Inr (x \<ge> y)
      else if op = ''=='' then Inr (x = y) else if op = ''!='' then Inr (x \<noteq> y)
      else Inl (KeyError op))"

text \<open>\<open>&&\<close> and \<open>||\<close> are short-circuit, as Python's \<open>and\<close> and \<open>or\<close> are.\<close>

fun eval_cond :: "cond \<Rightarrow> env \<Rightarrow> bool result" where
  "eval_cond (Cmp op a b) env =
     rbind (eval_expr a env) (\<lambda>x. rbind (eval_expr b env) (\<lambda>y. cmp_op op x y))"
| "eval_cond (BoolBin op a b) env =
     (if op = ''&&'' then rbind (eval_cond a env) (\<lambda>p. if p then eval_cond b env else Inr p)
      else rbind (eval_cond a env) (\<lambda>p. if p then Inr p else eval_cond b env))"

text \<open>
  Statements. A \<open>While\<close> whose body writes the counter may run forever, so the loop takes fuel:
  \<open>None\<close> is a run that used it up, and the soundness theorem shows how much is enough.
\<close>

type_synonym exec_result = "(signal + env) option"

fun while_loop :: "nat \<Rightarrow> string \<Rightarrow> nat \<Rightarrow> (env \<Rightarrow> exec_result) \<Rightarrow> env \<Rightarrow> exec_result" where
  "while_loop 0 c bound body env = None"
| "while_loop (Suc fuel) c bound body env =
     (case env c of
        None \<Rightarrow> Some (Inl (Raised (KeyError c)))
      | Some v \<Rightarrow>
          if v < int bound then
            (case body (env(c \<mapsto> v + 1)) of
               Some (Inr env') \<Rightarrow> while_loop fuel c bound body env'
             | other \<Rightarrow> other)
          else Some (Inr env))"

definition store_result :: "env \<Rightarrow> string \<Rightarrow> int result \<Rightarrow> exec_result" where
  "store_result env x r =
     Some (case r of Inl e \<Rightarrow> Inl (Raised e) | Inr v \<Rightarrow> Inr (env(x \<mapsto> v)))"

fun exec_stmt :: "nat \<Rightarrow> stmt \<Rightarrow> env \<Rightarrow> exec_result"
  and exec_block :: "nat \<Rightarrow> stmt list \<Rightarrow> env \<Rightarrow> exec_result" where
  "exec_stmt fuel (Decl x rt e) env = store_result env x (eval_expr e env)"
| "exec_stmt fuel (Assign x e) env = store_result env x (eval_expr e env)"
| "exec_stmt fuel (If c th el) env =
     (case eval_cond c env of
        Inl e \<Rightarrow> Some (Inl (Raised e))
      | Inr b \<Rightarrow> if b then exec_block fuel th env else exec_block fuel el env)"
| "exec_stmt fuel (While c bound body) env =
     while_loop fuel c bound (\<lambda>env'. exec_block fuel body env') (env(c \<mapsto> 0))"
| "exec_stmt fuel (EarlyRet c src) env =
     (case eval_cond c env of
        Inl e \<Rightarrow> Some (Inl (Raised e))
      | Inr b \<Rightarrow>
          if b then
            (case eval_src src env of
               Inl e \<Rightarrow> Some (Inl (Raised e))
             | Inr v \<Rightarrow> Some (Inl (RetSignal (v AND mask_int 64))))
          else Some (Inr env))"
| "exec_block fuel [] env = Some (Inr env)"
| "exec_block fuel (s # ss) env =
     (case exec_stmt fuel s env of
        Some (Inr env') \<Rightarrow> exec_block fuel ss env'
      | other \<Rightarrow> other)"


section \<open>Rendering\<close>

fun render_src :: "u64src \<Rightarrow> string result" where
  "render_src (SrcVar x rt) = fold_src x rt"
| "render_src (SrcLit v) = Inr (str_int v)"

fun render_expr :: "expr \<Rightarrow> string result" where
  "render_expr (Lit v rt) = Inr (str_int v)"
| "render_expr (Var x rt) = Inr x"
| "render_expr (WAdd a b rt) =
     rbind (render_expr a) (\<lambda>x. rbind (render_expr b) (\<lambda>y.
       Inr (''wrapping.add('' @ x @ '', '' @ y @ '')'')))"
| "render_expr (Bitwise op a b rt) =
     rbind (render_expr a) (\<lambda>x. rbind (render_expr b) (\<lambda>y.
       Inr (''('' @ x @ '' '' @ op @ '' '' @ y @ '')'')))"
| "render_expr (Shr a k rt) =
     rbind (render_expr a) (\<lambda>x. Inr (''('' @ x @ '' >> '' @ str_nat k @ '')''))"
| "render_expr (Conv rt src) =
     rbind (render_src src) (\<lambda>r. Inr (rt @ ''.wrap_from('' @ r @ '')''))"
| "render_expr (DomBin op a b rt) =
     rbind (render_expr a) (\<lambda>x. rbind (render_expr b) (\<lambda>y.
       Inr (''('' @ x @ '' '' @ op @ '' '' @ y @ '')'')))"
| "render_expr (DomShr a k rt) =
     rbind (render_expr a) (\<lambda>x. Inr (''('' @ x @ '' >> '' @ str_nat k @ '')''))"

fun render_cond :: "cond \<Rightarrow> string result" where
  "render_cond (Cmp op a b) =
     rbind (render_expr a) (\<lambda>x. rbind (render_expr b) (\<lambda>y.
       Inr (''('' @ x @ '' '' @ op @ '' '' @ y @ '')'')))"
| "render_cond (BoolBin op a b) =
     rbind (render_cond a) (\<lambda>x. rbind (render_cond b) (\<lambda>y.
       Inr (''('' @ x @ '' '' @ op @ '' '' @ y @ '')'')))"

fun render_stmt :: "nat \<Rightarrow> stmt \<Rightarrow> string list result"
  and render_block :: "nat \<Rightarrow> stmt list \<Rightarrow> string list result" where
  "render_stmt ind (Decl x rt e) =
     rbind (render_expr e) (\<lambda>r. Inr [pad ind @ ''var '' @ x @ '': '' @ rt @ '' = '' @ r @ '';''])"
| "render_stmt ind (Assign x e) =
     rbind (render_expr e) (\<lambda>r. Inr [pad ind @ x @ '' = '' @ r @ '';''])"
| "render_stmt ind (If c th el) =
     rbind (render_cond c) (\<lambda>r.
     rbind (render_block (Suc ind) th) (\<lambda>tl.
     rbind (render_block (Suc ind) el) (\<lambda>el'.
       Inr ([pad ind @ ''if '' @ r @ '' {''] @ tl @ [pad ind @ ''} else {''] @ el' @ [pad ind @ ''}'']))))"
| "render_stmt ind (While c bound body) =
     rbind (render_block (Suc ind) body) (\<lambda>bl.
       Inr ([pad ind @ ''var '' @ c @ '': u64 = 0;'',
             pad ind @ ''while '' @ c @ '' < '' @ str_nat bound @ '' {'',
             pad ind @ ''    '' @ c @ '' = '' @ c @ '' + 1;''] @ bl @ [pad ind @ ''}'']))"
| "render_stmt ind (EarlyRet c src) =
     rbind (render_cond c) (\<lambda>r. rbind (render_src src) (\<lambda>v.
       Inr [pad ind @ ''if '' @ r @ '' { return '' @ v @ ''; }'']))"
| "render_block ind [] = Inr []"
| "render_block ind (s # ss) =
     rbind (render_stmt ind s) (\<lambda>l. rbind (render_block ind ss) (\<lambda>ls. Inr (l @ ls)))"

end
