(* ===== verification/Mcref_Layout.thy ===== *)
theory Mcref_Layout
  imports Prelude
begin

text \<open>
  The layout ground truth of the reference interpreter: \<open>_align_up\<close>, \<open>OffsetStruct\<close> (an mmio struct
  with pinned field offsets) and \<open>OverlayUnion\<close> (byte-aliasing storage, little-endian), with the
  values their observers fold into the digest.
\<close>

section \<open>Definitions\<close>

definition align_up :: "nat \<Rightarrow> nat \<Rightarrow> nat result" where
  "align_up x a = (if a = 0 then Inl ZeroDivisionError else Inr ((x + a - 1) div a * a))"

text \<open>A field: name, width in bits, offset in bytes, access mode.\<close>

type_synonym off_field = "string \<times> nat \<times> nat \<times> string"

record offset_struct =
  os_name :: string
  os_fields :: "off_field list"

definition os_sizeof :: "offset_struct \<Rightarrow> nat result" where
  "os_sizeof s =
     (case os_fields s of
        [] \<Rightarrow> Inl IndexError
      | fs \<Rightarrow>
          (let (_, lastw, lastoff, _) = last fs;
               align = Max (set (map (\<lambda>(_, w, _, _). w div 8) fs))
           in align_up (lastoff + lastw div 8) align))"

fun find_offset :: "off_field list \<Rightarrow> string \<Rightarrow> nat result" where
  "find_offset [] fname = Inl (KeyError fname)"
| "find_offset ((f, w, off, m) # fs) fname = (if f = fname then Inr off else find_offset fs fname)"

definition os_field_offset :: "offset_struct \<Rightarrow> string \<Rightarrow> nat result" where
  "os_field_offset s fname = find_offset (os_fields s) fname"

definition os_decl :: "offset_struct \<Rightarrow> string" where
  "os_decl s =
     ''extern mmio struct '' @ os_name s @ '' {'' @ nl @
     join nl (map (\<lambda>(f, w, off, m).
       ''    '' @ f @ '': Reg<u'' @ str_nat w @ '', '' @ m @ ''> @offset('' @ str_nat off @ ''),'') (os_fields s))
     @ nl @ ''}''"

text \<open>The observer of a struct: its size xored with every field offset, field \<open>k\<close> shifted by \<open>4(k+1)\<close>.\<close>

definition offset_fold_expr :: "offset_struct \<Rightarrow> string" where
  "offset_fold_expr s =
     join '' ^ ''
       ((''(sizeof('' @ os_name s @ '') as u64)'') #
        map (\<lambda>(k, (f, _, _, _)).
          ''((field_offset('' @ os_name s @ '', .'' @ f @ '') as u64) << '' @ str_nat ((k + 1) * 4) @ '')'')
          (enumerate 0 (os_fields s)))"

fun offset_fold_loop :: "offset_struct \<Rightarrow> nat \<Rightarrow> off_field list \<Rightarrow> int \<Rightarrow> int result" where
  "offset_fold_loop s k [] v = Inr v"
| "offset_fold_loop s k ((f, _, _, _) # fs) v =
     rbind (os_field_offset s f) (\<lambda>off.
       offset_fold_loop s (Suc k) fs (v XOR push_bit ((k + 1) * 4) (int off)))"

definition offset_fold_val :: "offset_struct \<Rightarrow> int result" where
  "offset_fold_val s =
     rbind (os_sizeof s) (\<lambda>sz.
     rbind (offset_fold_loop s 0 (os_fields s) (int sz AND mask_int 64)) (\<lambda>v.
       Inr (v AND mask_int 64)))"

record overlay_union =
  ov_name :: string
  ov_width :: nat

definition ov_nbytes :: "overlay_union \<Rightarrow> nat" where
  "ov_nbytes o' = ov_width o' div 8"

definition ov_nhalves :: "overlay_union \<Rightarrow> nat" where
  "ov_nhalves o' = ov_width o' div 16"

definition ov_decl :: "overlay_union \<Rightarrow> string" where
  "ov_decl o' =
     ''overlay union '' @ ov_name o' @ '' {'' @ nl @
     ''    u: u'' @ str_nat (ov_width o') @ '','' @ nl @
     ''    bytes: ['' @ str_nat (ov_nbytes o') @ '']u8,'' @ nl @
     ''    halves: ['' @ str_nat (ov_nhalves o') @ '']u16,'' @ nl @ ''}''"

text \<open>The little-endian reinterpretations of the stored scalar.\<close>

definition byte_view :: "nat \<Rightarrow> int \<Rightarrow> int list" where
  "byte_view nbytes u = map (\<lambda>k. drop_bit (8 * k) u AND 0xff) [0..<nbytes]"

definition half_view :: "nat \<Rightarrow> int \<Rightarrow> int list" where
  "half_view nhalves u = map (\<lambda>k. drop_bit (16 * k) u AND 0xffff) [0..<nhalves]"

fun xor_lanes :: "nat \<Rightarrow> nat \<Rightarrow> nat \<Rightarrow> int list \<Rightarrow> int \<Rightarrow> int" where
  "xor_lanes period lane k [] acc = acc"
| "xor_lanes period lane k (b # bs) acc =
     xor_lanes period lane (Suc k) bs (acc XOR push_bit ((k mod period) * lane) b)"

text \<open>The value the overlay observer folds, computed as \<open>gen_overlays\<close> computes \<open>exp\<close>.\<close>

definition overlay_fold :: "overlay_union \<Rightarrow> int \<Rightarrow> int \<Rightarrow> int" where
  "overlay_fold o' uval hval =
     (let e0 = uval AND mask_int 64;
          e1 = xor_lanes 8 8 0 (byte_view (ov_nbytes o') uval) e0;
          e2 = xor_lanes 4 16 0 (half_view (ov_nhalves o') uval) e1;
          e3 = e2 XOR push_bit 3 hval;
          e4 = e3 XOR push_bit 4 (int (ov_nbytes o'))
      in e4 AND mask_int 64)"


section \<open>Alignment\<close>

lemma align_up_ok:
  assumes "0 < a"
  obtains y where "align_up x a = Inr y" and "x \<le> y" and "y < x + a" and "a dvd y"
proof
  show "align_up x a = Inr ((x + a - 1) div a * a)" using assms by (simp add: align_up_def)
  have "(x + a - 1) div a * a + (x + a - 1) mod a = x + a - 1" by simp
  moreover have "(x + a - 1) mod a < a" using assms by simp
  ultimately show "x \<le> (x + a - 1) div a * a" and "(x + a - 1) div a * a < x + a"
    using assms by linarith+
qed simp

text \<open>\<open>_align_up\<close> is the least multiple of the alignment that is not below its argument.\<close>

lemma align_up_least:
  assumes "0 < a" and "align_up x a = Inr y" and "a dvd z" and "x \<le> z"
  shows "y \<le> z"
proof -
  from align_up_ok [OF assms(1), of x] obtain y' where
    "align_up x a = Inr y'" "x \<le> y'" "y' < x + a" "a dvd y'" by blast
  with assms(2) have y: "y < x + a" "a dvd y" by auto
  show ?thesis
  proof (rule ccontr)
    assume "\<not> y \<le> z"
    then have "z < y" by simp
    with y(2) assms(3) have "a dvd (y - z)" and "0 < y - z" by auto
    then have "a \<le> y - z" by (simp add: dvd_imp_le)
    with y(1) assms(4) \<open>z < y\<close> show False by linarith
  qed
qed


section \<open>Well-placed fields\<close>

text \<open>
  The fields of a generated struct: register widths, natural alignment, and each field at or after
  the end of the one before it.
\<close>

fun placed :: "nat \<Rightarrow> off_field list \<Rightarrow> bool" where
  "placed off [] \<longleftrightarrow> True"
| "placed off ((f, w, cur, m) # fs) \<longleftrightarrow>
     w \<in> {8, 16, 32} \<and> (w div 8) dvd cur \<and> off \<le> cur \<and> placed (cur + w div 8) fs"

lemma placed_ge: "placed off fs \<Longrightarrow> (f, w, cur, m) \<in> set fs \<Longrightarrow> off \<le> cur"
  by (induction off fs rule: placed.induct) fastforce+

lemma placed_field:
  "placed off fs \<Longrightarrow> (f, w, cur, m) \<in> set fs \<Longrightarrow> w \<in> {8, 16, 32} \<and> (w div 8) dvd cur"
  by (induction off fs rule: placed.induct) fastforce+

lemma placed_end:
  "placed off fs \<Longrightarrow> (f, w, cur, m) \<in> set fs \<Longrightarrow> last fs = (lf, lw, lo, lm) \<Longrightarrow>
   cur + w div 8 \<le> lo + lw div 8"
proof (induction off fs rule: placed.induct)
  case (2 off g v c n fs)
  show ?case
  proof (cases "(f, w, cur, m) \<in> set fs")
    case True
    then have "last (((g, v, c, n)) # fs) = last fs" by auto
    with True 2 show ?thesis by auto
  next
    case False
    with "2.prems"(2) have eq: "w = v" "cur = c" by auto
    show ?thesis
    proof (cases "fs = []")
      case True
      with 2 eq show ?thesis by simp
    next
      case ne: False
      with "2.prems"(3) have "(lf, lw, lo, lm) \<in> set fs" by (metis last_ConsR last_in_set)
      with placed_ge [of "c + v div 8" fs] "2.prems"(1) eq show ?thesis by fastforce
    qed
  qed
qed simp

text \<open>
  The size of a well-placed struct: it is defined, it is the least multiple of the largest field
  alignment that covers the last field, and it therefore covers every field.
\<close>

lemma Max_widths:
  assumes "placed off fs" and "fs \<noteq> []"
  defines "A \<equiv> Max (set (map (\<lambda>(_, w, _, _). w div 8) fs))"
  shows "A \<in> {1, 2, 4}" and "(f, w, cur, m) \<in> set fs \<Longrightarrow> (w div 8) dvd A"
proof -
  let ?S = "set (map (\<lambda>(_, w, _, _). w div 8) fs)"
  have sub: "?S \<subseteq> {1, 2, 4}" using placed_field [OF assms(1)] by fastforce
  have ne: "?S \<noteq> {}" using assms(2) by simp
  have "A \<in> ?S" unfolding A_def using ne by (intro Max_in) auto
  with sub show A: "A \<in> {1, 2, 4}" by blast
  assume "(f, w, cur, m) \<in> set fs"
  then have "w div 8 \<in> ?S" by force
  with sub have "w div 8 \<in> {1, 2, 4}" and "w div 8 \<le> A" unfolding A_def by auto
  with A show "(w div 8) dvd A" by auto
qed

lemma os_sizeof_ok:
  assumes "placed off (os_fields s)" and "os_fields s \<noteq> []"
  obtains sz where "os_sizeof s = Inr sz"
    and "\<And>f w cur m. (f, w, cur, m) \<in> set (os_fields s) \<Longrightarrow> cur + w div 8 \<le> sz \<and> (w div 8) dvd sz"
proof -
  let ?fs = "os_fields s"
  let ?A = "Max (set (map (\<lambda>(_, w, _, _). w div 8) ?fs))"
  obtain lf lw lo lm where l: "last ?fs = (lf, lw, lo, lm)" by (cases "last ?fs")
  have "0 < ?A" using Max_widths(1) [OF assms] by auto
  then obtain y where y: "align_up (lo + lw div 8) ?A = Inr y" "lo + lw div 8 \<le> y" "?A dvd y"
    by (rule align_up_ok)
  have "os_sizeof s = Inr y"
    using y(1) l assms(2) by (cases ?fs) (auto simp: os_sizeof_def)
  moreover have "cur + w div 8 \<le> y \<and> (w div 8) dvd y" if "(f, w, cur, m) \<in> set ?fs" for f w cur m
    using placed_end [OF assms(1) that l] y Max_widths(2) [OF assms that] by (auto intro: dvd_trans)
  ultimately show ?thesis using that by blast
qed


text \<open>Field lookup, and the fold of a struct whose field names are distinct.\<close>

lemma find_offset_ok:
  "distinct (map fst fs) \<Longrightarrow> (f, w, off, m) \<in> set fs \<Longrightarrow> find_offset fs f = Inr off"
  by (induction fs f rule: find_offset.induct) force+

lemma offset_fold_loop_ok:
  "\<forall>(f, w, off, m) \<in> set fs. os_field_offset s f = Inr off \<Longrightarrow>
   \<exists>v. offset_fold_loop s k fs acc = Inr v"
  by (induction s k fs acc rule: offset_fold_loop.induct) auto

lemma offset_fold_val_ok:
  assumes "placed off (os_fields s)" and "os_fields s \<noteq> []" and "distinct (map fst (os_fields s))"
  obtains v where "offset_fold_val s = Inr v" and "in_range 64 v"
proof -
  obtain sz where "os_sizeof s = Inr sz" by (rule os_sizeof_ok [OF assms(1,2)])
  moreover have "\<forall>(f, w, off, m) \<in> set (os_fields s). os_field_offset s f = Inr off"
    unfolding os_field_offset_def by (auto intro: find_offset_ok [OF assms(3)])
  then obtain v where "offset_fold_loop s 0 (os_fields s) (int sz AND mask_int 64) = Inr v"
    using offset_fold_loop_ok by blast
  ultimately show ?thesis using that by (simp add: offset_fold_val_def)
qed


section \<open>Overlay reinterpretation\<close>

lemma xor_lanes_append:
  "xor_lanes p l k (xs @ ys) acc = xor_lanes p l (k + length xs) ys (xor_lanes p l k xs acc)"
  by (induction p l k xs acc rule: xor_lanes.induct) auto

lemma take_bit_add_lane:
  fixes u :: int
  shows "take_bit (m + l) u = take_bit m u XOR push_bit m (take_bit l (drop_bit m u))"
  by (rule bit_eqI) (auto simp: bit_simps)

text \<open>The lanes of a value, each put back in its place, recompose the value.\<close>

lemma xor_lanes_recompose:
  "n \<le> p \<Longrightarrow>
   xor_lanes p l 0 (map (\<lambda>k. take_bit l (drop_bit (l * k) u)) [0..<n]) acc = acc XOR take_bit (l * n) u"
proof (induction n)
  case (Suc n)
  then have "n mod p = n" by simp
  with Suc show ?case
    by (simp add: xor_lanes_append xor.assoc mult.commute [of n l] flip: take_bit_add_lane)
       (simp add: add.commute)
qed simp

lemma byte_view_lanes: "byte_view n u = map (\<lambda>k. take_bit 8 (drop_bit (8 * k) u)) [0..<n]"
  by (simp add: byte_view_def take_bit_eq_mask mask_eq_exp_minus_1)

lemma half_view_lanes: "half_view n u = map (\<lambda>k. take_bit 16 (drop_bit (16 * k) u)) [0..<n]"
  by (simp add: half_view_def take_bit_eq_mask mask_eq_exp_minus_1)

text \<open>
  The two reinterpretations read the same storage, so their lane folds cancel: what is left of the
  observer's value is the scalar, the second store and the size.
\<close>

lemma overlay_fold_closed:
  assumes "ov_width o' \<in> {32, 64}" and "in_range 32 u" and "in_range 16 h"
  shows "overlay_fold o' u h = u XOR push_bit 3 h XOR push_bit 4 (int (ov_nbytes o'))"
    and "in_range 64 (overlay_fold o' u h)"
proof -
  let ?w = "ov_width o'"
  have u: "take_bit ?w u = u" "take_bit 64 u = u"
    using assms(1) in_range_mono [OF assms(2)] by (auto simp: in_range_iff_take_bit)
  have n: "ov_nbytes o' \<le> 8" "8 * ov_nbytes o' = ?w" "ov_nhalves o' \<le> 4" "16 * ov_nhalves o' = ?w"
    using assms(1) by (auto simp: ov_nbytes_def ov_nhalves_def)
  have h: "in_range 64 (push_bit 3 h)" "in_range 64 (push_bit 4 (int (ov_nbytes o')))"
    using assms(3) n(1) by (auto simp: in_range_def push_bit_eq_mult)
  have all: "in_range 64 (u XOR push_bit 3 h XOR push_bit 4 (int (ov_nbytes o')))"
    by (intro in_range_XOR h in_range_mono [OF assms(2)]) simp
  have fold: "overlay_fold o' u h =
      take_bit 64 (u XOR push_bit 3 h XOR push_bit 4 (int (ov_nbytes o')))"
    unfolding overlay_fold_def Let_def byte_view_lanes half_view_lanes and_mask_int take_bit_eq_mod [symmetric]
    using xor_lanes_recompose [OF n(1), of 8 u] xor_lanes_recompose [OF n(3), of 16 u] u n
    by (simp add: xor.assoc)
  with all show "overlay_fold o' u h = u XOR push_bit 3 h XOR push_bit 4 (int (ov_nbytes o'))"
    by (simp add: in_range_iff_take_bit)
  with all show "in_range 64 (overlay_fold o' u h)" by simp
qed

end
