(* ===== verification/Mcref_Gen.thy ===== *)
theory Mcref_Gen
  imports Mcref_Ast Mcref_Layout
begin

text \<open>
  The program generator of \<open>tools/fuzz/mcref.py\<close> (class \<open>RefGen\<close>): every method that draws from the
  random source or changes the generator's fields, in the order the class has them, and the two
  readings of the finished program, \<open>source\<close> and \<open>evaluate\<close>.
\<close>

section \<open>State\<close>

text \<open>The fields of \<open>RefGen\<close>; the random source is the tape of \<^typ>\<open>rng_state\<close>.\<close>

record refgen = rng_state +
  scope :: "(string, string) dict"
  order :: "string list"
  gn :: nat
  pre_decls :: "string list"
  extra_body :: "string list"
  extra_terms :: "(string \<times> int) list"
  g_stmts :: "stmt list"

definition new_refgen :: "nat list \<Rightarrow> refgen" where
  "new_refgen t = \<lparr>tape = t, scope = [], order = [], gn = 0, pre_decls = [], extra_body = [],
     extra_terms = [], g_stmts = []\<rparr>"

type_synonym 'a rgen = "(refgen, 'a) prog"

definition add_pre_decls :: "string list \<Rightarrow> unit rgen" where
  "add_pre_decls ds = modify (\<lambda>s. s\<lparr>pre_decls := pre_decls s @ ds\<rparr>)"

definition add_extra_body :: "string list \<Rightarrow> unit rgen" where
  "add_extra_body ls = modify (\<lambda>s. s\<lparr>extra_body := extra_body s @ ls\<rparr>)"

definition add_extra_term :: "string \<Rightarrow> int \<Rightarrow> unit rgen" where
  "add_extra_term x v = modify (\<lambda>s. s\<lparr>extra_terms := extra_terms s @ [(x, v)]\<rparr>)"

text \<open>\<open>self.n\<close> read and incremented.\<close>

definition next_n :: "nat rgen" where
  "next_n = bind (gets gn) (\<lambda>k. bind (modify (\<lambda>s. s\<lparr>gn := Suc k\<rparr>)) (\<lambda>_. ret k))"


section \<open>Literals, leaves and expressions\<close>

definition lit_val :: "nat \<Rightarrow> int rgen" where
  "lit_val w =
     (let m = mask_int w;
          corners = [0, 1, 2, m, m - 1, drop_bit 1 m, drop_bit 1 m + 1]
      in bind (flip flt_0_4) (\<lambda>b. if b then choice corners else randint 0 m))"

definition vars_in :: "(string, string) dict \<Rightarrow> string \<Rightarrow> string list" where
  "vars_in sc rt = map fst (filter (\<lambda>(n, t). t = rt) sc)"

definition vars_of :: "string \<Rightarrow> string list rgen" where
  "vars_of rt = gets (\<lambda>s. vars_in (scope s) rt)"

definition leaf :: "string \<Rightarrow> expr rgen" where
  "leaf rt =
     bind (vars_of rt) (\<lambda>live.
     bind (flip_if (live \<noteq> []) flt_0_6) (\<lambda>b.
       if b then bind (choice live) (\<lambda>x. ret (Var x rt))
       else bind (lift_result (ref_type rt)) (\<lambda>(w, k).
            bind (lit_val w) (\<lambda>v. ret (Lit v rt)))))"

definition u64_source :: "u64src rgen" where
  "u64_source =
     bind (gets (\<lambda>s. map fst (scope s))) (\<lambda>ints.
     bind (flip_if (ints \<noteq> []) flt_0_7) (\<lambda>b.
       if b then
         bind (choice ints) (\<lambda>name.
         bind (gets scope) (\<lambda>sc.
           case map_of sc name of
             None \<Rightarrow> raise (KeyError name)
           | Some rt \<Rightarrow> ret (SrcVar name rt)))
       else bind (randint 0 (mask_int 64)) (\<lambda>v. ret (SrcLit v))))"

definition gen_plain_expr :: "nat \<Rightarrow> string \<Rightarrow> expr rgen" where
  "gen_plain_expr w rt =
     bind (choice [''leaf'', ''wadd'', ''bitwise'', ''shr'', ''conv'']) (\<lambda>c.
       if c = ''leaf'' then leaf rt
       else if c = ''wadd'' then
         bind (vars_of rt) (\<lambda>live.
           if live = [] then leaf rt
           else bind (choice live) (\<lambda>x. bind (leaf rt) (\<lambda>b. ret (WAdd (Var x rt) b rt))))
       else if c = ''bitwise'' then
         bind (choice [''&'', ''|'', ''^'']) (\<lambda>op.
         bind (leaf rt) (\<lambda>a. bind (leaf rt) (\<lambda>b. ret (Bitwise op a b rt))))
       else if c = ''shr'' then
         bind (leaf rt) (\<lambda>a. bind (randrange 0 w) (\<lambda>n. ret (Shr a n rt)))
       else bind u64_source (\<lambda>src. ret (Conv rt src)))"

definition gen_domain_expr :: "nat \<Rightarrow> ref_kind \<Rightarrow> string \<Rightarrow> expr rgen" where
  "gen_domain_expr w k rt =
     bind (vars_of rt) (\<lambda>live.
     bind (flip_if (length live \<ge> 1) flt_0_6) (\<lambda>b.
       if b then
         bind (choice (if k = Wrap then [''+'', ''-'', ''*'', ''&'', ''|'', ''^'']
                       else [''+'', ''-'', ''*''])) (\<lambda>op.
         bind (choice live) (\<lambda>x. bind (choice live) (\<lambda>y.
           ret (DomBin op (Var x rt) (Var y rt) rt))))
       else
         bind (flip_if (k = Wrap \<and> live \<noteq> []) flt_0_3) (\<lambda>b'.
           if b' then bind (choice live) (\<lambda>x. bind (randrange 0 w) (\<lambda>n. ret (DomShr (Var x rt) n rt)))
           else leaf rt)))"

definition gen_expr :: "string \<Rightarrow> expr rgen" where
  "gen_expr rt =
     bind (lift_result (ref_type rt)) (\<lambda>(w, k).
       if k = Plain then gen_plain_expr w rt else gen_domain_expr w k rt)"


section \<open>Conditions and blocks\<close>

text \<open>
  The two candidate lists of \<open>gen_cond\<close>: the distinct types in scope that are plain and have a live
  variable, and the domain types with at least two. Both read the kind from the type table.
\<close>

fun filter_r :: "('a \<Rightarrow> bool result) \<Rightarrow> 'a list \<Rightarrow> 'a list result" where
  "filter_r p [] = Inr []"
| "filter_r p (x # xs) =
     rbind (p x) (\<lambda>b. rbind (filter_r p xs) (\<lambda>ys. Inr (if b then x # ys else ys)))"

definition plain_cand :: "(string, string) dict \<Rightarrow> string list result" where
  "plain_cand sc =
     filter_r (\<lambda>t. rbind (ref_type t) (\<lambda>(w, k). Inr (k = Plain \<and> vars_in sc t \<noteq> [])))
       (dedup (dict_values sc))"

definition dom_cand :: "(string, string) dict \<Rightarrow> string list result" where
  "dom_cand sc =
     filter_r (\<lambda>t. rbind (ref_type t) (\<lambda>(w, k). Inr (k \<noteq> Plain \<and> length (vars_in sc t) \<ge> 2)))
       (dedup (dict_values sc))"

definition gen_cmp :: "cond rgen" where
  "gen_cmp =
     bind (gets scope) (\<lambda>sc.
     bind (lift_result (plain_cand sc)) (\<lambda>plain.
     bind (lift_result (dom_cand sc)) (\<lambda>dom.
     bind (if dom = [] then ret False
           else if plain = [] then ret True
           else flip flt_0_4) (\<lambda>use_dom.
       if use_dom then
         bind (choice dom) (\<lambda>rt.
         bind (choice (vars_in sc rt)) (\<lambda>x.
         bind (choice (vars_in sc rt)) (\<lambda>y.
         bind (lift_result (ref_type rt)) (\<lambda>(w, k).
         bind (choice (if k = Wrap then [''=='', ''!='']
                       else [''<'', ''<='', ''>'', ''>='', ''=='', ''!=''])) (\<lambda>op.
           ret (Cmp op (Var x rt) (Var y rt)))))))
       else if plain = [] then ret (Cmp ''=='' (Lit 1 ''u8'') (Lit 1 ''u8''))
       else
         bind (choice plain) (\<lambda>rt.
         bind (choice (vars_in sc rt)) (\<lambda>x.
         bind (flip_if (length (vars_in sc rt) > 1) flt_0_5) (\<lambda>b.
         bind (if b then bind (choice (vars_in sc rt)) (\<lambda>y. ret (Var y rt))
               else bind (lift_result (ref_type rt)) (\<lambda>(w, k).
                    bind (lit_val w) (\<lambda>v. ret (Lit v rt)))) (\<lambda>other.
         bind (choice [''<'', ''<='', ''>'', ''>='', ''=='', ''!='']) (\<lambda>op.
           ret (Cmp op (Var x rt) other))))))))))"

function gen_cond :: "nat \<Rightarrow> cond rgen" where
  "gen_cond d =
     (if d < 2 then
        bind (flip flt_0_25) (\<lambda>b.
          if b then
            bind (choice [''&&'', ''||'']) (\<lambda>op.
            bind (gen_cond (Suc d)) (\<lambda>x. bind (gen_cond (Suc d)) (\<lambda>y. ret (BoolBin op x y))))
          else gen_cmp)
      else gen_cmp)"
  by pat_completeness auto
termination
  by (relation "measure (\<lambda>d. 2 - d)") auto

declare gen_cond.simps [simp del]

definition new_name :: "string \<Rightarrow> string rgen" where
  "new_name pre = bind next_n (\<lambda>k. ret (pre @ str_nat k))"

text \<open>An assignment to a live variable: the statement every statement generator shares.\<close>

definition gen_assign :: "stmt rgen" where
  "gen_assign =
     bind (gets scope) (\<lambda>sc.
     bind (choice (dict_values sc)) (\<lambda>rt.
     bind (choice (vars_in sc rt)) (\<lambda>name.
     bind (gen_expr rt) (\<lambda>e. ret (Assign name e)))))"

definition gen_early_ret :: "stmt rgen" where
  "gen_early_ret =
     bind u64_source (\<lambda>src. bind (gen_cond 0) (\<lambda>c. ret (EarlyRet c src)))"

text \<open>
  Inside a nested block: assignments, nested ifs to depth 3, early returns. Python evaluates the
  arguments of \<open>If(\<dots>)\<close> in order: the condition, then the two blocks.
\<close>

function gen_block :: "nat \<Rightarrow> stmt list rgen" where
  "gen_block depth =
     bind (randrange 1 3) (\<lambda>k.
     repeat_m k
       (bind py_random (\<lambda>r.
        bind (gets scope) (\<lambda>sc.
          if r < flt_0_55 \<and> sc \<noteq> [] then gen_assign
          else if r < flt_0_75 \<and> depth < 3 then
            bind (gen_cond 0) (\<lambda>c.
            bind (gen_block (Suc depth)) (\<lambda>th.
            bind (gen_block (Suc depth)) (\<lambda>el. ret (If c th el))))
          else gen_early_ret))))"
  by pat_completeness auto
termination
  by (relation "measure (\<lambda>d. 3 - d)") auto

declare gen_block.simps [simp del]


section \<open>Building the core program\<close>

definition declare_var :: "string \<Rightarrow> string \<Rightarrow> unit rgen" where
  "declare_var name rt =
     modify (\<lambda>s. s\<lparr>scope := dict_set (scope s) name rt, order := order s @ [name]\<rparr>)"

definition gen_decl :: "string \<Rightarrow> stmt rgen" where
  "gen_decl rt =
     bind (new_name ''v'') (\<lambda>name.
     bind (gen_expr rt) (\<lambda>e.
     bind (declare_var name rt) (\<lambda>_. ret (Decl name rt e))))"

definition gen_while :: "stmt rgen" where
  "gen_while =
     bind (new_name ''j'') (\<lambda>counter.
     bind (randrange 1 5) (\<lambda>bound.
     bind (gen_block 1) (\<lambda>body.
     bind (declare_var counter ''u64'') (\<lambda>_. ret (While counter bound body)))))"

definition gen_top_stmt :: "stmt rgen" where
  "gen_top_stmt =
     bind py_random (\<lambda>r.
     bind (gets scope) (\<lambda>sc.
       if r < flt_0_4 \<and> sc \<noteq> [] then gen_assign
       else if r < flt_0_65 then
         bind (gen_cond 0) (\<lambda>c.
         bind (gen_block 1) (\<lambda>th. bind (gen_block 1) (\<lambda>el. ret (If c th el))))
       else if r < flt_0_8 then gen_while
       else gen_early_ret))"

definition build_core :: "stmt list rgen" where
  "build_core =
     bind (sample (map fst REF_TYPES) (min 6 (length REF_TYPES))) (\<lambda>rts.
     bind (map_m gen_decl rts) (\<lambda>decls.
     bind (randrange 5 11) (\<lambda>k.
     bind (repeat_m k gen_top_stmt) (\<lambda>ss. ret (decls @ ss)))))"


section \<open>Layout and switch-family constructs\<close>

text \<open>The inner loop of \<open>gen_offset_structs\<close>: place field \<open>j\<close> at or after the running offset.\<close>

definition round_offset :: "nat \<Rightarrow> nat \<Rightarrow> nat" where
  "round_offset cur sz = (if cur mod sz \<noteq> 0 then cur + (sz - cur mod sz) else cur)"

fun off_fields :: "nat \<Rightarrow> nat \<Rightarrow> nat \<Rightarrow> off_field list rgen" where
  "off_fields 0 j off = ret []"
| "off_fields (Suc n) j off =
     bind (choice [8, 16, 32]) (\<lambda>w.
     bind (choice [''.read'', ''.write'', ''.read_write'']) (\<lambda>mode.
     bind (if j = 0 then ret 0
           else bind (flip flt_0_5) (\<lambda>tight.
             if tight then ret off
             else bind (choice [w div 8, 8, 16, 64, 0x100]) (\<lambda>g. ret (off + g)))) (\<lambda>cur.
     bind (off_fields n (Suc j) (round_offset cur (w div 8) + w div 8)) (\<lambda>fs.
       ret ((''of'' @ str_nat j, w, round_offset cur (w div 8), mode) # fs)))))"

text \<open>One struct: the declaration, its observer function, and the two folded terms.\<close>

definition gen_offset_struct :: "unit rgen" where
  "gen_offset_struct =
     bind next_n (\<lambda>k.
     bind (randrange 2 5) (\<lambda>nf.
     bind (off_fields nf 0 0) (\<lambda>fields.
     bind (ret \<lparr>os_name = ''OFF'' @ str_nat k, os_fields = fields\<rparr>) (\<lambda>st.
     bind (add_pre_decls
       [os_decl st,
        ''fn offobs_'' @ os_name st @ ''() -> u64 {'' @ nl @ ''    return '' @ offset_fold_expr st @ '';'' @ nl @ ''}'']) (\<lambda>_.
     bind (ret (''off_'' @ os_name st)) (\<lambda>tn.
     bind (add_extra_body [''    var '' @ tn @ '': u64 = offobs_'' @ os_name st @ ''();'']) (\<lambda>_.
     bind (lift_result (offset_fold_val st)) (\<lambda>v.
     bind (add_extra_term tn v) (\<lambda>_.
     bind (ret (last fields)) (\<lambda>(lastf, lastw, lo, m).
     bind (ret (''offid_'' @ os_name st)) (\<lambda>idn.
     bind (add_extra_body
       [''    var '' @ idn @ '': u64 = 0;'',
        ''    if ((field_offset('' @ os_name st @ '', .'' @ lastf @ '') as u64) + '' @ str_nat (lastw div 8) @
        '') <= (sizeof('' @ os_name st @ '') as u64) { '' @ idn @ '' = 1; }'']) (\<lambda>_.
     bind (lift_result (os_field_offset st lastf)) (\<lambda>off.
     bind (lift_result (os_sizeof st)) (\<lambda>sz.
       if off + lastw div 8 \<le> sz then add_extra_term idn 1
       else raise AssertionError))))))))))))))"

definition gen_offset_structs :: "unit rgen" where
  "gen_offset_structs =
     bind (randrange 1 3) (\<lambda>k. bind (repeat_m k gen_offset_struct) (\<lambda>_. ret ()))"

text \<open>The source lines that observe one overlay union, in the order they are appended.\<close>

definition overlay_lines :: "overlay_union \<Rightarrow> string \<Rightarrow> string \<Rightarrow> int \<Rightarrow> nat \<Rightarrow> int \<Rightarrow> string list" where
  "overlay_lines o' vn acc uval hidx hval =
     [''    var '' @ vn @ '': '' @ ov_name o' @ '' = uninit;'',
      ''    '' @ vn @ ''.u = '' @ str_int uval @ '';'',
      ''    var '' @ acc @ '': u64 = ('' @ vn @ ''.u as u64);'']
     @ map (\<lambda>k. ''    '' @ acc @ '' = ('' @ acc @ '' ^ (('' @ vn @ ''.bytes['' @ str_nat k @
          ''] as u64) << '' @ str_nat ((k mod 8) * 8) @ ''));'') [0..<ov_nbytes o']
     @ map (\<lambda>k. ''    '' @ acc @ '' = ('' @ acc @ '' ^ (('' @ vn @ ''.halves['' @ str_nat k @
          ''] as u64) << '' @ str_nat ((k mod 4) * 16) @ ''));'') [0..<ov_nhalves o']
     @ [''    '' @ vn @ ''.halves['' @ str_nat hidx @ ''] = '' @ str_int hval @ '';'',
        ''    '' @ acc @ '' = ('' @ acc @ '' ^ (('' @ vn @ ''.halves['' @ str_nat hidx @ ''] as u64) << 3));'',
        ''    '' @ acc @ '' = ('' @ acc @ '' ^ ((sizeof('' @ ov_name o' @ '') as u64) << 4));'']"

definition gen_overlay :: "unit rgen" where
  "gen_overlay =
     bind next_n (\<lambda>k.
     bind (choice [32, 64]) (\<lambda>w.
     bind (ret \<lparr>ov_name = ''OV'' @ str_nat k, ov_width = w\<rparr>) (\<lambda>o'.
     bind (add_pre_decls [ov_decl o']) (\<lambda>_.
     bind (randrange 1 (2 ^ min w 32)) (\<lambda>uval.
     bind (ret (''ovv_'' @ ov_name o', ''ovo_'' @ ov_name o')) (\<lambda>(vn, acc).
     bind (randrange 0 (ov_nhalves o')) (\<lambda>hidx.
     bind (randrange 1 (2 ^ 16)) (\<lambda>hval.
     bind (add_extra_body (overlay_lines o' vn acc (int uval) hidx (int hval))) (\<lambda>_.
       add_extra_term acc (overlay_fold o' (int uval) (int hval)))))))))))"

definition gen_overlays :: "unit rgen" where
  "gen_overlays = bind (randrange 1 3) (\<lambda>k. bind (repeat_m k gen_overlay) (\<lambda>_. ret ()))"

text \<open>The expected value of a scalar switch: the last matching case, 7 for the wildcard.\<close>

definition scalar_switch_val :: "nat list \<Rightarrow> nat \<Rightarrow> int" where
  "scalar_switch_val cases subj =
     foldl (\<lambda>exp (k, c). if subj = c then int ((k + 1) * 11) else exp) 7 (enumerate 0 cases)"

definition gen_scalar_switch :: "unit rgen" where
  "gen_scalar_switch =
     bind (sample [0..<8] 3) (\<lambda>picked.
     bind (ret (sort picked)) (\<lambda>cases.
     bind (choice (cases @ [99])) (\<lambda>subj.
     bind next_n (\<lambda>k1. bind (ret (''scsw'' @ str_nat k1)) (\<lambda>vn.
     bind (add_extra_body [''    var '' @ vn @ '': u32 = '' @ str_nat subj @ '';'']) (\<lambda>_.
     bind next_n (\<lambda>k2. bind (ret (''scswr'' @ str_nat k2)) (\<lambda>out.
     bind (add_extra_body
       ([''    var '' @ out @ '': u64 = 0;'', ''    switch '' @ vn @ '' {'']
        @ map (\<lambda>(k, c). ''        '' @ str_nat c @ '' => { '' @ out @ '' = '' @ str_nat ((k + 1) * 11) @ ''; }'')
            (enumerate 0 cases)
        @ [''        _ => { '' @ out @ '' = 7; }'', ''    }''])) (\<lambda>_.
       add_extra_term out (scalar_switch_val cases subj))))))))))"

definition enum_arms :: "string list \<Rightarrow> nat \<Rightarrow> string" where
  "enum_arms variants c =
     join '', '' (map (\<lambda>(k, v). ''.'' @ v @ '' => '' @ str_nat ((k + 1) * c)) (enumerate 0 variants))"

definition gen_enum_switch :: "unit rgen" where
  "gen_enum_switch =
     bind next_n (\<lambda>k0. bind (ret (''RE'' @ str_nat k0)) (\<lambda>ename.
     bind (randrange 2 5) (\<lambda>nv.
     bind (ret (map (\<lambda>k. ''V'' @ str_nat k) [0..<nv])) (\<lambda>variants.
     bind (add_pre_decls
       [''enum '' @ ename @ '' {'' @ nl @ join nl (map (\<lambda>v. ''    '' @ v @ '','') variants) @ nl @ ''}'',
        ''fn eswf_'' @ ename @ ''(e: '' @ ename @ '') -> u64 {'' @ nl @ ''    return switch e { '' @
        enum_arms variants 13 @ '' };'' @ nl @ ''}'']) (\<lambda>_.
     bind (randrange 0 (length variants)) (\<lambda>pick.
     bind next_n (\<lambda>k1. bind (ret (''esv'' @ str_nat k1)) (\<lambda>ev.
     bind (add_extra_body [''    var '' @ ev @ '': '' @ ename @ '' = .'' @ variants ! pick @ '';'']) (\<lambda>_.
     bind next_n (\<lambda>k2. bind (ret (''esr'' @ str_nat k2)) (\<lambda>rv.
     bind (add_extra_body [''    var '' @ rv @ '': u64 = eswf_'' @ ename @ ''('' @ ev @ '');'']) (\<lambda>_.
     bind (add_extra_term rv (int ((pick + 1) * 13))) (\<lambda>_.
     bind next_n (\<lambda>k3. bind (ret (''esi'' @ str_nat k3)) (\<lambda>iv.
     bind (add_extra_body
       [''    var '' @ iv @ '': u64 = switch '' @ ev @ '' { '' @ enum_arms variants 17 @ '' };'']) (\<lambda>_.
       add_extra_term iv (int ((pick + 1) * 17))))))))))))))))))"

definition gen_result_switch :: "unit rgen" where
  "gen_result_switch =
     bind next_n (\<lambda>k0. bind (ret (''rfn'' @ str_nat k0)) (\<lambda>fname.
     bind (flip flt_0_5) (\<lambda>is_ok.
     bind (randrange 0 (2 ^ 20)) (\<lambda>okv.
     bind (randrange 0 (2 ^ 20)) (\<lambda>errv.
     bind (add_pre_decls
       [''fn '' @ fname @ ''() -> Result<u32, u32> {'' @ nl @
        (if is_ok then ''    return ok('' @ str_nat okv @ '');'' else ''    return err('' @ str_nat errv @ '');'') @
        nl @ ''}'']) (\<lambda>_.
     bind next_n (\<lambda>k1. bind (ret (''rsw'' @ str_nat k1)) (\<lambda>out.
     bind (add_extra_body
       [''    var '' @ out @ '': u64 = 0;'',
        ''    switch '' @ fname @ ''() {'',
        ''        ok(v) => { '' @ out @ '' = (v as u64); }'',
        ''        err(e) => { '' @ out @ '' = ((e as u64) ^ 1000); }'',
        ''    }'']) (\<lambda>_.
       add_extra_term out (if is_ok then int okv else int errv XOR 1000))))))))))"

definition gen_union_switch :: "unit rgen" where
  "gen_union_switch =
     bind next_n (\<lambda>k0. bind (ret (''RU'' @ str_nat k0)) (\<lambda>uname.
     bind (randrange 2 4) (\<lambda>ncases.
     bind (gets gn) (\<lambda>n.
     bind (map_m (\<lambda>j. bind (choice [8, 16, 32, 64]) (\<lambda>w.
       ret (''uc'' @ str_nat n @ ''_'' @ str_nat j, w))) [0..<ncases]) (\<lambda>cases.
     bind (flip flt_0_5) (\<lambda>e.
     bind (ret (if e then Some (''ue'' @ str_nat n) else None)) (\<lambda>empty.
     bind (add_pre_decls
       [''union '' @ uname @ '' {'' @ nl @
        join nl (map (\<lambda>(cn, w). ''    '' @ cn @ '': u'' @ str_nat w @ '','') cases
                 @ (case empty of None \<Rightarrow> [] | Some en \<Rightarrow> [''    '' @ en @ '',''])) @ nl @ ''}'',
        ''fn ufold_'' @ uname @ ''(s: '' @ uname @ '') -> u64 {'' @ nl @ ''    switch s {'' @ nl @
        join nl (map (\<lambda>(cn, w). ''        '' @ cn @ ''(b) => { return (b as u64); }'') cases
                 @ (case empty of None \<Rightarrow> [] | Some en \<Rightarrow> [''        .'' @ en @ '' => { return 7; }''])) @
        nl @ ''    }'' @ nl @ ''}'']) (\<lambda>_.
     bind (choice (map (\<lambda>(cn, w). (cn, Some w)) cases
             @ (case empty of None \<Rightarrow> [] | Some en \<Rightarrow> [(en, None)]))) (\<lambda>(cn, w).
     bind (case w of
             None \<Rightarrow> ret (cn @ ''()'', 7)
           | Some w' \<Rightarrow> bind (randrange 0 (2 ^ min w' 32)) (\<lambda>pv. ret (cn @ ''('' @ str_nat pv @ '')'', int pv))) (\<lambda>(ctor, exp).
     bind next_n (\<lambda>k1. bind (ret (''uv'' @ str_nat k1)) (\<lambda>uv.
     bind (add_extra_body [''    var '' @ uv @ '': '' @ uname @ '' = '' @ ctor @ '';'']) (\<lambda>_.
     bind next_n (\<lambda>k2. bind (ret (''ufv'' @ str_nat k2)) (\<lambda>fv.
     bind (add_extra_body [''    var '' @ fv @ '': u64 = ufold_'' @ uname @ ''('' @ uv @ '');'']) (\<lambda>_.
       add_extra_term fv exp))))))))))))))))"

definition gen_constructs :: "unit rgen" where
  "gen_constructs =
     bind gen_offset_structs (\<lambda>_.
     bind gen_overlays (\<lambda>_.
     bind gen_scalar_switch (\<lambda>_.
     bind gen_enum_switch (\<lambda>_.
     bind gen_result_switch (\<lambda>_. gen_union_switch)))))"

definition build :: "unit rgen" where
  "build =
     bind build_core (\<lambda>ss.
     bind (modify (\<lambda>s. s\<lparr>g_stmts := ss\<rparr>)) (\<lambda>_. gen_constructs))"

text \<open>\<open>RefGen(seed).build()\<close>.\<close>

definition RefGen_build :: "nat list \<Rightarrow> refgen result" where
  "RefGen_build t = rbind (build (new_refgen t)) (\<lambda>(_, s). Inr s)"


section \<open>The two readings of the finished program\<close>

definition extra_value :: "refgen \<Rightarrow> int" where
  "extra_value g =
     foldl (\<lambda>acc (_, val). acc XOR (val AND mask_int 64)) 0 (extra_terms g) AND mask_int 64"

text \<open>\<open>"(%s ^ %s)"\<close> folded over the terms, \<open>"0"\<close> when there are none.\<close>

fun xor_terms :: "string list \<Rightarrow> string" where
  "xor_terms [] = ''0''"
| "xor_terms (t # ts) = foldl (\<lambda>acc u. ''('' @ acc @ '' ^ '' @ u @ '')'') t ts"

fun fold_terms :: "(string, string) dict \<Rightarrow> string list \<Rightarrow> string list result" where
  "fold_terms sc [] = Inr []"
| "fold_terms sc (x # xs) =
     (case map_of sc x of
        None \<Rightarrow> Inl (KeyError x)
      | Some rt \<Rightarrow> rbind (fold_src x rt) (\<lambda>t. rbind (fold_terms sc xs) (\<lambda>ts. Inr (t # ts))))"

definition source :: "refgen \<Rightarrow> string result" where
  "source g =
     rbind (render_block 1 (g_stmts g)) (\<lambda>core.
     rbind (fold_terms (scope g) (order g)) (\<lambda>terms.
       Inr (join nl
         ([''// Generated by tools/fuzz/mcref.py '' @ em_dash @ '' reference-interpreter oracle (G1).'']
          @ pre_decls g
          @ [''fn ref_core() -> u64 {''] @ core
          @ [''    return '' @ xor_terms terms @ '';'', ''}'', ''fn ref_extra() -> u64 {'']
          @ extra_body g
          @ [''    return '' @ xor_terms (map fst (extra_terms g)) @ '';'', ''}'',
             ''export fn harness() -> u64 {'', ''    return (ref_core() ^ ref_extra());'', ''}''])
         @ nl)))"

text \<open>The fold of the surviving variables, \<open>core ^= env[n] & _mask(64)\<close>.\<close>

fun fold_env :: "env \<Rightarrow> string list \<Rightarrow> int \<Rightarrow> int result" where
  "fold_env env [] acc = Inr acc"
| "fold_env env (x # xs) acc =
     rbind (lookup_env env x) (\<lambda>v. fold_env env xs (acc XOR (v AND mask_int 64)))"

definition evaluate :: "nat \<Rightarrow> refgen \<Rightarrow> (int result) option" where
  "evaluate fuel g =
     (case exec_block fuel (g_stmts g) Map.empty of
        None \<Rightarrow> None
      | Some (Inl (Raised e)) \<Rightarrow> Some (Inl e)
      | Some (Inl (RetSignal v)) \<Rightarrow>
          Some (Inr (((v AND mask_int 64) XOR extra_value g) AND mask_int 64))
      | Some (Inr env) \<Rightarrow>
          Some (rbind (fold_env env (order g) 0) (\<lambda>core.
            Inr ((core XOR extra_value g) AND mask_int 64))))"

end
