(* ===== verification/Mcref_Typing.thy ===== *)
theory Mcref_Typing
  imports Mcref_Ast
begin

text \<open>
  The type discipline of the reference interpreter's programs. \<open>wt_expr\<close> says which operators a
  type admits (the comments on the AST classes: "plain uint only", "shift by a constant < width",
  "operands share the domain type"); \<open>wt_block\<close> and \<open>wt_top\<close> say where variables may be declared.
  Soundness: a well-typed program raises nothing, keeps every variable inside its width, and stops.
\<close>

section \<open>Facts about the type table\<close>

lemma REF_TYPES_eq:
  "REF_TYPES =
    [(''u8'', (8, Plain)), (''wrap<u8>'', (8, Wrap)), (''sat<u8>'', (8, Sat)),
     (''u16'', (16, Plain)), (''wrap<u16>'', (16, Wrap)), (''sat<u16>'', (16, Sat)),
     (''u32'', (32, Plain)), (''wrap<u32>'', (32, Wrap)), (''sat<u32>'', (32, Sat)),
     (''u64'', (64, Plain)), (''wrap<u64>'', (64, Wrap)), (''sat<u64>'', (64, Sat)),
     (''usize'', (64, Plain))]"
  by code_simp

abbreviation ty_info :: "string \<Rightarrow> (nat \<times> ref_kind) option" where
  "ty_info rt \<equiv> map_of REF_TYPES rt"

lemma ty_info_width:
  assumes "ty_info rt = Some (w, k)"
  shows "0 < w" and "w \<le> 64" and "w \<in> {8, 16, 32, 64}"
  using assms unfolding REF_TYPES_eq by (auto split: if_splits)

lemma ref_type_Inr: "ty_info rt = Some wk \<Longrightarrow> ref_type rt = Inr wk"
  by (simp add: ref_type_def)

lemma ty_info_u64: "ty_info ''u64'' = Some (64, Plain)"
  by (simp add: REF_TYPES_eq)

lemma distinct_REF_TYPES: "distinct (map fst REF_TYPES)"
  by (simp add: REF_TYPES_eq)


section \<open>Well-typed expressions\<close>

type_synonym tenv = "string \<rightharpoonup> string"

fun wt_src :: "tenv \<Rightarrow> u64src \<Rightarrow> bool" where
  "wt_src \<Gamma> (SrcVar x rt) \<longleftrightarrow> \<Gamma> x = Some rt \<and> ty_info rt \<noteq> None"
| "wt_src \<Gamma> (SrcLit v) \<longleftrightarrow> in_range 64 v"

fun wt_expr :: "tenv \<Rightarrow> expr \<Rightarrow> string \<Rightarrow> bool" where
  "wt_expr \<Gamma> (Lit v t) rt \<longleftrightarrow> t = rt \<and> (\<exists>w k. ty_info rt = Some (w, k) \<and> in_range w v)"
| "wt_expr \<Gamma> (Var x t) rt \<longleftrightarrow> t = rt \<and> \<Gamma> x = Some rt \<and> ty_info rt \<noteq> None"
| "wt_expr \<Gamma> (WAdd a b t) rt \<longleftrightarrow>
     t = rt \<and> (\<exists>w. ty_info rt = Some (w, Plain)) \<and> wt_expr \<Gamma> a rt \<and> wt_expr \<Gamma> b rt"
| "wt_expr \<Gamma> (Bitwise op a b t) rt \<longleftrightarrow>
     t = rt \<and> op \<in> {''&'', ''|'', ''^''} \<and> (\<exists>w. ty_info rt = Some (w, Plain)) \<and>
     wt_expr \<Gamma> a rt \<and> wt_expr \<Gamma> b rt"
| "wt_expr \<Gamma> (Shr a n t) rt \<longleftrightarrow>
     t = rt \<and> (\<exists>w. ty_info rt = Some (w, Plain) \<and> n < w) \<and> wt_expr \<Gamma> a rt"
| "wt_expr \<Gamma> (Conv t src) rt \<longleftrightarrow>
     t = rt \<and> (\<exists>w. ty_info rt = Some (w, Plain)) \<and> wt_src \<Gamma> src"
| "wt_expr \<Gamma> (DomBin op a b t) rt \<longleftrightarrow>
     t = rt \<and>
     ((\<exists>w. ty_info rt = Some (w, Wrap)) \<and> op \<in> {''+'', ''-'', ''*'', ''&'', ''|'', ''^''} \<or>
      (\<exists>w. ty_info rt = Some (w, Sat)) \<and> op \<in> {''+'', ''-'', ''*''}) \<and>
     wt_expr \<Gamma> a rt \<and> wt_expr \<Gamma> b rt"
| "wt_expr \<Gamma> (DomShr a n t) rt \<longleftrightarrow>
     t = rt \<and> (\<exists>w. ty_info rt = Some (w, Wrap) \<and> n < w) \<and> wt_expr \<Gamma> a rt"

text \<open>A comparison has operands of one type; a wrap domain supports equality only.\<close>

fun wt_cond :: "tenv \<Rightarrow> cond \<Rightarrow> bool" where
  "wt_cond \<Gamma> (Cmp op a b) \<longleftrightarrow>
     (\<exists>rt w k. ty_info rt = Some (w, k) \<and> wt_expr \<Gamma> a rt \<and> wt_expr \<Gamma> b rt \<and>
        op \<in> (if k = Wrap then {''=='', ''!=''} else {''<'', ''<='', ''>'', ''>='', ''=='', ''!=''}))"
| "wt_cond \<Gamma> (BoolBin op a b) \<longleftrightarrow> op \<in> {''&&'', ''||''} \<and> wt_cond \<Gamma> a \<and> wt_cond \<Gamma> b"

text \<open>Statements of a nested block declare nothing; declarations and loops stand at top level.\<close>

fun wt_block_stmt :: "tenv \<Rightarrow> stmt \<Rightarrow> bool" where
  "wt_block_stmt \<Gamma> (Assign x e) \<longleftrightarrow> (\<exists>rt. \<Gamma> x = Some rt \<and> wt_expr \<Gamma> e rt)"
| "wt_block_stmt \<Gamma> (If c th el) \<longleftrightarrow>
     wt_cond \<Gamma> c \<and> list_all (wt_block_stmt \<Gamma>) th \<and> list_all (wt_block_stmt \<Gamma>) el"
| "wt_block_stmt \<Gamma> (EarlyRet c src) \<longleftrightarrow> wt_cond \<Gamma> c \<and> wt_src \<Gamma> src"
| "wt_block_stmt \<Gamma> _ \<longleftrightarrow> False"

abbreviation wt_block :: "tenv \<Rightarrow> stmt list \<Rightarrow> bool" where
  "wt_block \<Gamma> ss \<equiv> list_all (wt_block_stmt \<Gamma>) ss"

text \<open>\<open>wt_top B\<close>: a top-level sequence whose loops run at most \<open>B\<close> times, with the scope it leaves.\<close>

fun wt_top :: "nat \<Rightarrow> tenv \<Rightarrow> stmt list \<Rightarrow> tenv \<Rightarrow> bool" where
  "wt_top B \<Gamma> [] \<Gamma>' \<longleftrightarrow> \<Gamma> = \<Gamma>'"
| "wt_top B \<Gamma> (Decl x rt e # ss) \<Gamma>' \<longleftrightarrow>
     \<Gamma> x = None \<and> wt_expr \<Gamma> e rt \<and> wt_top B (\<Gamma>(x \<mapsto> rt)) ss \<Gamma>'"
| "wt_top B \<Gamma> (While c bound body # ss) \<Gamma>' \<longleftrightarrow>
     \<Gamma> c = None \<and> bound \<le> B \<and> wt_block \<Gamma> body \<and> wt_top B (\<Gamma>(c \<mapsto> ''u64'')) ss \<Gamma>'"
| "wt_top B \<Gamma> (s # ss) \<Gamma>' \<longleftrightarrow> wt_block_stmt \<Gamma> s \<and> wt_top B \<Gamma> ss \<Gamma>'"

lemma wt_expr_ty: "wt_expr \<Gamma> e rt \<Longrightarrow> ty_info rt \<noteq> None"
  by (cases e) auto

lemma wt_top_append:
  "wt_top B \<Gamma> (ss @ ts) \<Gamma>'' \<longleftrightarrow> (\<exists>\<Gamma>'. wt_top B \<Gamma> ss \<Gamma>' \<and> wt_top B \<Gamma>' ts \<Gamma>'')"
proof (induction ss arbitrary: \<Gamma>)
  case (Cons s ss)
  then show ?case by (cases s) (auto simp del: fun_upd_apply)
qed simp


section \<open>Conforming environments\<close>

text \<open>Every variable in scope has a value inside the width of its type.\<close>

definition conforms :: "tenv \<Rightarrow> env \<Rightarrow> bool" where
  "conforms \<Gamma> env \<longleftrightarrow>
     (\<forall>x rt. \<Gamma> x = Some rt \<longrightarrow>
        (\<exists>w k v. ty_info rt = Some (w, k) \<and> env x = Some v \<and> in_range w v))"

lemma conforms_lookup:
  assumes "conforms \<Gamma> env" and "\<Gamma> x = Some rt" and "ty_info rt = Some (w, k)"
  shows "\<exists>v. lookup_env env x = Inr v \<and> in_range w v"
  using assms by (fastforce simp: conforms_def lookup_env_def)

lemma conforms_upd:
  "conforms \<Gamma> env \<Longrightarrow> \<Gamma> x = Some rt \<Longrightarrow> ty_info rt = Some (w, k) \<Longrightarrow> in_range w v \<Longrightarrow>
   conforms \<Gamma> (env(x \<mapsto> v))"
  by (auto simp: conforms_def)

lemma conforms_decl:
  "conforms \<Gamma> env \<Longrightarrow> ty_info rt = Some (w, k) \<Longrightarrow> in_range w v \<Longrightarrow>
   conforms (\<Gamma>(x \<mapsto> rt)) (env(x \<mapsto> v))"
  by (auto simp: conforms_def)

lemma conforms_outside: "conforms \<Gamma> env \<Longrightarrow> \<Gamma> x = None \<Longrightarrow> conforms \<Gamma> (env(x \<mapsto> v))"
  by (auto simp: conforms_def)

lemma conforms_empty: "conforms Map.empty env"
  by (simp add: conforms_def)


section \<open>Soundness of expression and condition evaluation\<close>

lemma eval_src_ok:
  assumes "wt_src \<Gamma> src" and "conforms \<Gamma> env"
  shows "\<exists>v. eval_src src env = Inr v \<and> in_range 64 v"
proof (cases src)
  case (SrcVar x rt)
  with assms obtain w k where ty: "ty_info rt = Some (w, k)" and x: "\<Gamma> x = Some rt" by auto
  from conforms_lookup [OF assms(2) x ty] obtain v where
    "lookup_env env x = Inr v" and "in_range w v" by blast
  with SrcVar ty_info_width(2) [OF ty] show ?thesis by (auto intro: in_range_mono)
qed (use assms in auto)

lemma dom_bin_wrap_ok:
  assumes "op \<in> {''+'', ''-'', ''*'', ''&'', ''|'', ''^''}" and "in_range w x" and "in_range w y"
  shows "\<exists>v. dom_bin w Wrap op x y = Inr v \<and> in_range w v"
  using assms by (auto simp: dom_bin_def bit_op_def intro: in_range_bitops)

lemma dom_bin_sat_ok:
  assumes "in_range w x" and "in_range w y"
  shows "\<exists>v. dom_bin w Sat op x y = Inr v \<and> in_range w v"
  using assms by (auto simp: dom_bin_def in_range_def mask_int_eq Let_def min_def)

text \<open>Type soundness of expressions: a value of the expression's width, no exception.\<close>

lemma eval_expr_ok:
  assumes "conforms \<Gamma> env"
  shows "wt_expr \<Gamma> e rt \<Longrightarrow> ty_info rt = Some (w, k) \<Longrightarrow>
    \<exists>v. eval_expr e env = Inr v \<and> in_range w v"
proof (induction e arbitrary: w k)
  case (Var x t)
  then show ?case using conforms_lookup [OF assms] by auto
next
  case (WAdd a b t)
  then show ?case by (fastforce simp: ref_type_Inr)
next
  case (Bitwise op a b t)
  then obtain x y where "eval_expr a env = Inr x" "in_range w x" "eval_expr b env = Inr y" "in_range w y"
    by fastforce
  with Bitwise.prems show ?case by (auto simp: bit_op_def intro: in_range_bitops)
next
  case (Shr a n t)
  then show ?case by (fastforce intro: in_range_drop_bit)
next
  case (Conv t src)
  then obtain v where "eval_src src env = Inr v" using eval_src_ok [OF _ assms] by fastforce
  with Conv.prems show ?case by (auto simp: ref_type_Inr)
next
  case (DomBin op a b t)
  then obtain x y where xy: "eval_expr a env = Inr x" "in_range w x" "eval_expr b env = Inr y" "in_range w y"
    by fastforce
  from DomBin.prems consider "k = Wrap" "op \<in> {''+'', ''-'', ''*'', ''&'', ''|'', ''^''}" | "k = Sat"
    by (auto simp del: insert_iff)
  then have "\<exists>v. dom_bin w k op x y = Inr v \<and> in_range w v"
    using xy(2,4) by cases (blast intro: dom_bin_wrap_ok dom_bin_sat_ok)+
  with DomBin.prems xy show ?case by (auto simp: ref_type_Inr simp del: insert_iff)
next
  case (DomShr a n t)
  then show ?case by (fastforce intro: in_range_drop_bit)
qed auto

lemma eval_cond_ok:
  "conforms \<Gamma> env \<Longrightarrow> wt_cond \<Gamma> c \<Longrightarrow> \<exists>b. eval_cond c env = Inr b"
proof (induction c)
  case (Cmp op a b)
  then obtain rt w k where ty: "ty_info rt = Some (w, k)" and "wt_expr \<Gamma> a rt" "wt_expr \<Gamma> b rt"
    and op: "op \<in> {''<'', ''<='', ''>'', ''>='', ''=='', ''!=''}"
    by (auto split: if_splits)
  with eval_expr_ok [OF Cmp.prems(1) _ ty] obtain x y where
    "eval_expr a env = Inr x" "eval_expr b env = Inr y" by meson
  with op show ?case by (auto simp: cmp_op_def)
next
  case (BoolBin op a b)
  then obtain p q where "eval_cond a env = Inr p" "eval_cond b env = Inr q" by auto
  then show ?case by (cases p) auto
qed


section \<open>Soundness of statements\<close>

text \<open>
  The verdict on one run of a block: it ends normally in a conforming environment that changes
  nothing outside the scope, or it returns a 64-bit value. It neither raises nor runs out of fuel.
\<close>

definition sound_run :: "tenv \<Rightarrow> env \<Rightarrow> exec_result \<Rightarrow> bool" where
  "sound_run \<Gamma> env r \<longleftrightarrow>
     (\<exists>env'. r = Some (Inr env') \<and> conforms \<Gamma> env' \<and> (\<forall>x. \<Gamma> x = None \<longrightarrow> env' x = env x)) \<or>
     (\<exists>v. r = Some (Inl (RetSignal v)) \<and> in_range 64 v)"

lemma sound_runE:
  assumes "sound_run \<Gamma> env r"
  obtains env' where "r = Some (Inr env')" "conforms \<Gamma> env'" "\<forall>x. \<Gamma> x = None \<longrightarrow> env' x = env x"
  | v where "r = Some (Inl (RetSignal v))" "in_range 64 v"
  using assms by (auto simp: sound_run_def)

lemma sound_run_trans:
  assumes "sound_run \<Gamma> env (Some (Inr env'))" and "sound_run \<Gamma> env' r"
  shows "sound_run \<Gamma> env r"
  using assms by (auto simp: sound_run_def)

lemma sound_assign:
  assumes "conforms \<Gamma> env" and "\<Gamma> x = Some rt" and "wt_expr \<Gamma> e rt"
  shows "sound_run \<Gamma> env (exec_stmt fuel (Assign x e) env)"
proof -
  from wt_expr_ty [OF assms(3)] obtain w k where ty: "ty_info rt = Some (w, k)" by auto
  from eval_expr_ok [OF assms(1,3) ty] obtain v where "eval_expr e env = Inr v" "in_range w v" by blast
  with conforms_upd [OF assms(1,2) ty] assms(2) show ?thesis
    by (auto simp: store_result_def sound_run_def)
qed

lemma sound_early_ret:
  assumes "conforms \<Gamma> env" and "wt_cond \<Gamma> c" and "wt_src \<Gamma> src"
  shows "sound_run \<Gamma> env (exec_stmt fuel (EarlyRet c src) env)"
proof -
  from eval_cond_ok [OF assms(1,2)] obtain b where "eval_cond c env = Inr b" by blast
  moreover from eval_src_ok [OF assms(3,1)] obtain v where "eval_src src env = Inr v" by blast
  ultimately show ?thesis using assms(1) by (auto simp: sound_run_def)
qed

lemma sound_blocks:
  "conforms \<Gamma> env \<Longrightarrow> wt_block_stmt \<Gamma> s \<Longrightarrow> sound_run \<Gamma> env (exec_stmt fuel s env)"
  "conforms \<Gamma> env \<Longrightarrow> wt_block \<Gamma> ss \<Longrightarrow> sound_run \<Gamma> env (exec_block fuel ss env)"
proof (induction fuel s env and fuel ss env rule: exec_stmt_exec_block.induct)
  case (2 fuel x e env)
  then obtain rt where "\<Gamma> x = Some rt" "wt_expr \<Gamma> e rt" by auto
  with 2 show ?case by (intro sound_assign)
next
  case (3 fuel c th el env)
  then obtain b where "eval_cond c env = Inr b" using eval_cond_ok by fastforce
  with 3 show ?case by (cases b) auto
next
  case (5 fuel c src env)
  then show ?case by (intro sound_early_ret) auto
next
  case (6 fuel env)
  then show ?case by (auto simp: sound_run_def)
next
  case (7 fuel s ss env)
  then have s: "sound_run \<Gamma> env (exec_stmt fuel s env)" by auto
  then show ?case
  proof (cases rule: sound_runE)
    case (1 env')
    then have "sound_run \<Gamma> env' (exec_block fuel ss env')"
      using "7.IH"(2) [of "Inr env'" env'] "7.prems" by auto
    with s 1 show ?thesis by (auto intro: sound_run_trans)
  next
    case (2 v)
    then show ?thesis by (auto simp: sound_run_def)
  qed
qed auto

text \<open>
  The bounded loop. The counter is outside the scope of the body, so the body leaves it alone and
  the loop runs once for each value below the bound: \<open>bound - v + 1\<close> units of fuel are enough.
\<close>

lemma while_loop_ok:
  assumes body: "\<And>env. conforms \<Gamma> env \<Longrightarrow> sound_run \<Gamma> env (body env)"
    and c: "\<Gamma> c = None"
  shows "conforms \<Gamma> env \<Longrightarrow> env c = Some v \<Longrightarrow> 0 \<le> v \<Longrightarrow> v \<le> int bound \<Longrightarrow> nat (int bound - v) < fuel \<Longrightarrow>
    (\<exists>env'. while_loop fuel c bound body env = Some (Inr env') \<and> conforms \<Gamma> env' \<and>
       env' c = Some (int bound) \<and> (\<forall>x. x \<noteq> c \<longrightarrow> \<Gamma> x = None \<longrightarrow> env' x = env x)) \<or>
    (\<exists>r. while_loop fuel c bound body env = Some (Inl (RetSignal r)) \<and> in_range 64 r)"
proof (induction fuel arbitrary: env v)
  case (Suc fuel)
  show ?case
  proof (cases "v < int bound")
    case True
    let ?env = "env(c \<mapsto> v + 1)"
    from Suc.prems c have conf: "conforms \<Gamma> ?env" by (auto intro: conforms_outside)
    from body [OF conf] show ?thesis
    proof (cases rule: sound_runE)
      case (1 env1)
      then have "env1 c = Some (v + 1)" using c by simp
      with Suc.IH [OF 1(2) this] Suc.prems True 1 show ?thesis by auto
    next
      case (2 r)
      with Suc.prems True show ?thesis by simp
    qed
  next
    case False
    with Suc.prems show ?thesis by auto
  qed
qed simp

lemma in_range_bound: "in_range 64 (int bound)" if "bound < 2 ^ 64"
  using that by (auto simp: in_range_def)

text \<open>Top-level programs: every variable of the final scope has a value of its width.\<close>

definition sound_top :: "tenv \<Rightarrow> exec_result \<Rightarrow> bool" where
  "sound_top \<Gamma> r \<longleftrightarrow>
     (\<exists>env. r = Some (Inr env) \<and> conforms \<Gamma> env) \<or>
     (\<exists>v. r = Some (Inl (RetSignal v)) \<and> in_range 64 v)"

lemma sound_top_ret [simp]: "sound_top \<Gamma> (Some (Inl (RetSignal v))) \<longleftrightarrow> in_range 64 v"
  by (simp add: sound_top_def)

lemma sound_topE:
  assumes "sound_top \<Gamma> r"
  obtains env where "r = Some (Inr env)" "conforms \<Gamma> env"
  | v where "r = Some (Inl (RetSignal v))" "in_range 64 v"
  using assms by (auto simp: sound_top_def)

lemma sound_decl:
  assumes "conforms \<Gamma> env" and "wt_expr \<Gamma> e rt"
  shows "\<exists>env'. exec_stmt fuel (Decl x rt e) env = Some (Inr env') \<and> conforms (\<Gamma>(x \<mapsto> rt)) env'"
proof -
  from wt_expr_ty [OF assms(2)] obtain w k where ty: "ty_info rt = Some (w, k)" by auto
  from eval_expr_ok [OF assms(1,2) ty] obtain v where "eval_expr e env = Inr v" "in_range w v" by blast
  with conforms_decl [OF assms(1) ty] show ?thesis by (auto simp: store_result_def)
qed

lemma sound_while:
  assumes "conforms \<Gamma> env" and "\<Gamma> c = None" and "wt_block \<Gamma> body" and "bound < fuel" and "bound < 2 ^ 64"
  shows "sound_top (\<Gamma>(c \<mapsto> ''u64'')) (exec_stmt fuel (While c bound body) env)"
proof -
  have "sound_run \<Gamma> e (exec_block fuel body e)" if "conforms \<Gamma> e" for e
    using sound_blocks(2) [OF that assms(3)] .
  from while_loop_ok [OF this assms(2), of "env(c \<mapsto> 0)" 0 bound fuel]
  show ?thesis
    using assms conforms_outside [OF assms(1,2)] in_range_bound [OF assms(5)]
      conforms_decl [OF _ ty_info_u64, of \<Gamma> _ "int bound" c]
    by (auto simp: sound_top_def) (metis fun_upd_triv)
qed

lemma exec_top_sound:
  "wt_top B \<Gamma> ss \<Gamma>' \<Longrightarrow> conforms \<Gamma> env \<Longrightarrow> B < fuel \<Longrightarrow> B < 2 ^ 64 \<Longrightarrow>
   sound_top \<Gamma>' (exec_block fuel ss env)"
proof (induction ss arbitrary: \<Gamma> env)
  case Nil
  then show ?case by (auto simp: sound_top_def)
next
  case (Cons s ss)
  have block: ?case if "wt_block_stmt \<Gamma> s" and "wt_top B \<Gamma> ss \<Gamma>'"
    using sound_blocks(1) [OF Cons.prems(2) that(1), of fuel]
    by (cases rule: sound_runE) (auto simp: Cons.IH [OF that(2) _ Cons.prems(3,4)])
  show ?case
  proof (cases s)
    case (Decl x rt e)
    with Cons.prems(1) have "wt_expr \<Gamma> e rt" and ss: "wt_top B (\<Gamma>(x \<mapsto> rt)) ss \<Gamma>'" by auto
    from sound_decl [OF Cons.prems(2) this(1), of fuel x] Cons.IH [OF ss _ Cons.prems(3,4)]
    show ?thesis unfolding Decl by (auto simp del: exec_stmt.simps fun_upd_apply)
  next
    case (While c bound body)
    with Cons.prems have ss: "wt_top B (\<Gamma>(c \<mapsto> ''u64'')) ss \<Gamma>'"
      and "sound_top (\<Gamma>(c \<mapsto> ''u64'')) (exec_stmt fuel s env)"
      by (auto intro!: sound_while simp del: exec_stmt.simps)
    from this(2) show ?thesis
      by (cases rule: sound_topE) (auto simp: Cons.IH [OF ss _ Cons.prems(3,4)] simp del: fun_upd_apply)
  qed (use Cons.prems block in auto)
qed

end
