(* ===== verification/Mcref_Gen_Sound.thy ===== *)
theory Mcref_Gen_Sound
  imports Mcref_Gen Mcref_Typing
begin

text \<open>
  The generator only builds well-typed programs. The invariant of its state (every name in scope is
  fresh, typed and ordered) is kept by every method; each method's output is well-typed in the scope
  it was generated in; so, by the soundness of the type discipline, whatever the draws are, the
  built program renders, evaluates without an exception, and yields a 64-bit digest.
\<close>

section \<open>The generator invariant\<close>

definition name_ok :: "nat \<Rightarrow> string \<Rightarrow> bool" where
  "name_ok n x \<longleftrightarrow> (\<exists>k<n. x = ''v'' @ str_nat k \<or> x = ''j'' @ str_nat k)"

text \<open>While the core is being built no construct term has been folded yet.\<close>

definition gen_inv :: "refgen \<Rightarrow> bool" where
  "gen_inv s \<longleftrightarrow>
     extra_terms s = [] \<and> distinct (map fst (scope s)) \<and> order s = map fst (scope s) \<and>
     (\<forall>(x, t) \<in> set (scope s). ty_info t \<noteq> None \<and> name_ok (gn s) x)"

abbreviation tenv_of :: "refgen \<Rightarrow> tenv" where
  "tenv_of s \<equiv> map_of (scope s)"

lemma gen_inv_tape [simp]: "gen_inv (s\<lparr>tape := t\<rparr>) = gen_inv s"
  by (simp add: gen_inv_def)

lemma gen_inv_gn: "gen_inv s \<Longrightarrow> gn s \<le> n \<Longrightarrow> gen_inv (s\<lparr>gn := n\<rparr>)"
  by (fastforce simp: gen_inv_def name_ok_def)

lemma name_ok_fresh: "name_ok n x \<Longrightarrow> x \<noteq> ''v'' @ str_nat n \<and> x \<noteq> ''j'' @ str_nat n"
  by (auto simp: name_ok_def)

lemma name_ok_mono: "name_ok n x \<Longrightarrow> n \<le> m \<Longrightarrow> name_ok m x"
  by (auto simp: name_ok_def)

text \<open>A variable listed under a type is in scope with that type, and the type is known.\<close>

lemma vars_in_typed:
  assumes "gen_inv s" and "x \<in> set (vars_in (scope s) rt)"
  shows "tenv_of s x = Some rt" and "ty_info rt \<noteq> None"
  using assms by (auto simp: gen_inv_def vars_in_def)

lemma scope_typed:
  assumes "gen_inv s" and "tenv_of s x = Some rt"
  shows "ty_info rt \<noteq> None"
  using assms by (auto simp: gen_inv_def dest!: map_of_SomeD)

lemma vars_in_nonempty: "rt \<in> set (dict_values sc) \<Longrightarrow> vars_in sc rt \<noteq> []"
  by (force simp: vars_in_def filter_empty_conv)


section \<open>Literals, leaves and expressions\<close>

lemma wp_lit_val [wp_intro]:
  assumes w: "w \<in> {8, 16, 32, 64}" and Q: "\<And>v t. in_range w v \<Longrightarrow> Q v (s\<lparr>tape := t\<rparr>)"
  shows "wp (lit_val w) Q s"
proof -
  let ?m = "mask_int w"
  have corners: "in_range w v" if "v \<in> set [0, 1, 2, ?m, ?m - 1, drop_bit 1 ?m, drop_bit 1 ?m + 1]" for v
    using w that by (auto simp: in_range_def mask_int_eq drop_bit_eq_div)
  have range: "in_range w v" if "0 \<le> v" "v \<le> ?m" for v
    using that by (auto simp: in_range_def mask_int_eq)
  have m: "0 \<le> ?m" by (simp add: mask_int_eq)
  show ?thesis
    unfolding lit_val_def Let_def
    by (intro wp_intro) (simp_all add: Q m corners range del: list.set)
qed

lemma wp_ref_type [wp_intro]:
  assumes "ty_info rt \<noteq> None" and "\<And>w k. ty_info rt = Some (w, k) \<Longrightarrow> Q (w, k) s"
  shows "wp (lift_result (ref_type rt)) Q s"
  using assms by (auto simp: ref_type_def)

lemma wp_leaf [wp_intro]:
  assumes inv: "gen_inv s" and ty: "ty_info rt = Some (w, k)"
    and Q: "\<And>e t. wt_expr (tenv_of s) e rt \<Longrightarrow> Q e (s\<lparr>tape := t\<rparr>)"
  shows "wp (leaf rt) Q s"
  unfolding leaf_def vars_of_def
  by (intro wp_intro)
     (use ty_info_width(3) [OF ty] ty vars_in_typed [OF inv] in \<open>auto simp del: insert_iff intro!: Q\<close>)

lemma wp_u64_source [wp_intro]:
  assumes inv: "gen_inv s" and Q: "\<And>e t. wt_src (tenv_of s) e \<Longrightarrow> Q e (s\<lparr>tape := t\<rparr>)"
  shows "wp u64_source Q s"
  unfolding u64_source_def
  using scope_typed [OF inv]
  by (auto simp: in_range_def mask_int_eq map_of_eq_None_iff image_iff split: option.splits intro!: wp_intro Q)

lemma wp_gen_plain_expr:
  assumes inv: "gen_inv s" and ty: "ty_info rt = Some (w, Plain)"
    and Q: "\<And>e t. wt_expr (tenv_of s) e rt \<Longrightarrow> Q e (s\<lparr>tape := t\<rparr>)"
  shows "wp (gen_plain_expr w rt) Q s"
  unfolding gen_plain_expr_def vars_of_def
  by (intro wp_leaf [OF _ ty] wp_intro)
     (use ty_info_width(1) [OF ty] ty vars_in_typed(1) [OF inv] inv in \<open>simp_all add: Q\<close>)

lemma wp_gen_domain_expr:
  assumes inv: "gen_inv s" and ty: "ty_info rt = Some (w, k)" "k \<noteq> Plain"
    and Q: "\<And>e t. wt_expr (tenv_of s) e rt \<Longrightarrow> Q e (s\<lparr>tape := t\<rparr>)"
  shows "wp (gen_domain_expr w k rt) Q s"
proof -
  have k: "k = Wrap \<or> k = Sat" using ty(2) by (cases k) auto
  show ?thesis
    unfolding gen_domain_expr_def vars_of_def
    by (intro wp_leaf [OF _ ty(1)] wp_intro)
       (use ty_info_width(1) [OF ty(1)] ty(1) k vars_in_typed(1) [OF inv] inv in
         \<open>auto intro!: Q split: if_splits\<close>)
qed

lemma wp_gen_expr [wp_intro]:
  assumes inv: "gen_inv s" and ty: "ty_info rt = Some (w, k)"
    and Q: "\<And>e t. wt_expr (tenv_of s) e rt \<Longrightarrow> Q e (s\<lparr>tape := t\<rparr>)"
  shows "wp (gen_expr rt) Q s"
  unfolding gen_expr_def
  by (intro wp_intro) (use ty in \<open>auto simp: ref_type_def intro!: wp_gen_plain_expr wp_gen_domain_expr inv Q\<close>)


section \<open>Conditions\<close>

lemma filter_r_ok:
  "(\<And>x. x \<in> set xs \<Longrightarrow> p x = Inr (q x)) \<Longrightarrow> filter_r p xs = Inr (filter q xs)"
  by (induction xs) auto

lemma plain_cand_ok:
  assumes "gen_inv s"
  obtains ts where "plain_cand (scope s) = Inr ts"
    and "\<And>t. t \<in> set ts \<Longrightarrow> vars_in (scope s) t \<noteq> [] \<and> (\<exists>w. ty_info t = Some (w, Plain))"
proof
  let ?q = "\<lambda>t. snd (the (ty_info t)) = Plain \<and> vars_in (scope s) t \<noteq> []"
  have ty: "ty_info t \<noteq> None" if "t \<in> set (dict_values (scope s))" for t
    using assms that by (auto simp: gen_inv_def)
  show "plain_cand (scope s) = Inr (filter ?q (dedup (dict_values (scope s))))"
    unfolding plain_cand_def by (rule filter_r_ok) (use ty in \<open>force simp: ref_type_def\<close>)
  show "vars_in (scope s) t \<noteq> [] \<and> (\<exists>w. ty_info t = Some (w, Plain))"
    if "t \<in> set (filter ?q (dedup (dict_values (scope s))))" for t
    using that ty by fastforce
qed

lemma dom_cand_ok:
  assumes "gen_inv s"
  obtains ts where "dom_cand (scope s) = Inr ts"
    and "\<And>t. t \<in> set ts \<Longrightarrow> vars_in (scope s) t \<noteq> [] \<and> (\<exists>w k. ty_info t = Some (w, k) \<and> k \<noteq> Plain)"
proof
  let ?q = "\<lambda>t. snd (the (ty_info t)) \<noteq> Plain \<and> length (vars_in (scope s) t) \<ge> 2"
  have ty: "ty_info t \<noteq> None" if "t \<in> set (dict_values (scope s))" for t
    using assms that by (auto simp: gen_inv_def)
  show "dom_cand (scope s) = Inr (filter ?q (dedup (dict_values (scope s))))"
    unfolding dom_cand_def by (rule filter_r_ok) (use ty in \<open>force simp: ref_type_def\<close>)
  show "vars_in (scope s) t \<noteq> [] \<and> (\<exists>w k. ty_info t = Some (w, k) \<and> k \<noteq> Plain)"
    if "t \<in> set (filter ?q (dedup (dict_values (scope s))))" for t
    using that ty by fastforce
qed

text \<open>The branches of one comparison: over a domain type, over a plain type, and the fallback.\<close>

lemma wt_cmp:
  assumes "ty_info rt = Some (w, k)" and "wt_expr \<Gamma> a rt" and "wt_expr \<Gamma> b rt"
    and "op \<in> set (if k = Wrap then [''=='', ''!='']
                    else [''<'', ''<='', ''>'', ''>='', ''=='', ''!=''])"
  shows "wt_cond \<Gamma> (Cmp op a b)"
  using assms by (auto split: if_splits)

lemma wt_fallback: "wt_cond \<Gamma> (Cmp ''=='' (Lit 1 ''u8'') (Lit 1 ''u8''))"
  by (rule wt_cmp [of "''u8''" 8 Plain]) (auto simp: REF_TYPES_eq in_range_def)

lemma wp_gen_cmp [wp_intro]:
  assumes inv: "gen_inv s" and Q: "\<And>c t. wt_cond (tenv_of s) c \<Longrightarrow> Q c (s\<lparr>tape := t\<rparr>)"
  shows "wp gen_cmp Q s"
proof -
  obtain ps where ps: "plain_cand (scope s) = Inr ps"
    "\<And>t. t \<in> set ps \<Longrightarrow> vars_in (scope s) t \<noteq> [] \<and> (\<exists>w. ty_info t = Some (w, Plain))"
    using plain_cand_ok [OF inv] by blast
  obtain ds where ds: "dom_cand (scope s) = Inr ds"
    "\<And>t. t \<in> set ds \<Longrightarrow> vars_in (scope s) t \<noteq> [] \<and> (\<exists>w k. ty_info t = Some (w, k) \<and> k \<noteq> Plain)"
    using dom_cand_ok [OF inv] by blast
  note vt = vars_in_typed [OF inv]
  have Q0: "Q c s" if "wt_cond (tenv_of s) c" for c
    using Q [OF that, of "tape s"] by simp
  have ty: "w \<in> {8, 16, 32, 64}" if "ty_info rt = Some (w, k)" for rt w k
    using ty_info_width(3) [OF that] .
  show ?thesis
    unfolding gen_cmp_def
    by (intro wp_liftI [OF ps(1)] wp_liftI [OF ds(1)] wp_intro)
       (auto dest!: ps(2) ds(2) simp: vt split: if_splits simp del: wt_cond.simps insert_iff list.set
         intro!: Q Q0 wt_fallback ty intro: wt_cmp)
qed

lemma wp_gen_cond [wp_intro]:
  "gen_inv s \<Longrightarrow> (\<And>c t. wt_cond (tenv_of s) c \<Longrightarrow> Q c (s\<lparr>tape := t\<rparr>)) \<Longrightarrow> wp (gen_cond d) Q s"
proof (induction d arbitrary: s Q rule: gen_cond.induct)
  case (1 d)
  have sub: "wp (gen_cond (Suc d)) Q s"
    if "d < 2" "gen_inv s" "\<And>c t. wt_cond (tenv_of s) c \<Longrightarrow> Q c (s\<lparr>tape := t\<rparr>)" for Q s
    by (rule "1.IH"(1)) (use that in auto)
  show ?case
    by (subst gen_cond.simps, intro wp_intro sub) (use "1.prems" in auto)
qed


section \<open>Blocks\<close>

lemma wp_gen_assign [wp_intro]:
  assumes inv: "gen_inv s" and "scope s \<noteq> []"
    and Q: "\<And>c t. wt_block_stmt (tenv_of s) c \<Longrightarrow> Q c (s\<lparr>tape := t\<rparr>)"
  shows "wp gen_assign Q s"
proof -
  have ty: "\<exists>w k. ty_info rt = Some (w, k)" if "x \<in> set (vars_in (scope s) rt)" for rt x
    using vars_in_typed(2) [OF inv that] by auto
  have "wp (gen_expr rt) (\<lambda>e. Q (Assign x e)) (s\<lparr>tape := t\<rparr>)"
    if x: "x \<in> set (vars_in (scope s) rt)" for rt x t
  proof -
    from ty [OF x] obtain w k where "ty_info rt = Some (w, k)" by blast
    then show ?thesis using vars_in_typed(1) [OF inv x] inv by (auto intro!: wp_gen_expr Q)
  qed
  then show ?thesis
    unfolding gen_assign_def
    by (intro wp_bindI wp_getsI wp_choice) (use assms(2) vars_in_nonempty in auto)
qed

lemma wp_gen_early_ret [wp_intro]:
  assumes "gen_inv s" and "\<And>c t. wt_block_stmt (tenv_of s) c \<Longrightarrow> Q c (s\<lparr>tape := t\<rparr>)"
  shows "wp gen_early_ret Q s"
  unfolding gen_early_ret_def by (intro wp_intro) (use assms in auto)

text \<open>One statement of a nested block, the step that \<open>gen_block\<close> repeats.\<close>

definition block_stmt :: "nat \<Rightarrow> stmt rgen" where
  "block_stmt depth =
     bind py_random (\<lambda>r.
     bind (gets scope) (\<lambda>sc.
       if r < flt_0_55 \<and> sc \<noteq> [] then gen_assign
       else if r < flt_0_75 \<and> depth < 3 then
         bind (gen_cond 0) (\<lambda>c.
         bind (gen_block (Suc depth)) (\<lambda>th.
         bind (gen_block (Suc depth)) (\<lambda>el. ret (If c th el))))
       else gen_early_ret))"

lemma gen_block_eq: "gen_block depth = bind (randrange 1 3) (\<lambda>k. repeat_m k (block_stmt depth))"
  by (simp add: gen_block.simps [of depth] block_stmt_def)

definition block_rel :: "refgen \<Rightarrow> stmt list \<Rightarrow> refgen \<Rightarrow> bool" where
  "block_rel s ss s' \<longleftrightarrow> same_frame s s' \<and> wt_block (tenv_of s) ss"

lemma block_rel_cons: "block_rel s [x] s' \<Longrightarrow> block_rel s' xs s'' \<Longrightarrow> block_rel s (x # xs) s''"
  by (auto simp: block_rel_def same_frame_def)

lemma block_rel_gen_block:
  assumes "loop_step (block_stmt d) gen_inv block_rel" and "gen_inv s"
    and Q: "\<And>ss t. wt_block (tenv_of s) ss \<Longrightarrow> Q ss (s\<lparr>tape := t\<rparr>)"
  shows "wp (gen_block d) Q s"
  unfolding gen_block_eq
  by (intro wp_bindI wp_randrange)
     (auto simp: block_rel_def same_frame_def assms(2)
       intro!: Q wp_mono [OF loop_step.repeat_ok [OF assms(1)]])

lemma block_stmt_loop: "loop_step (block_stmt d) gen_inv block_rel"
proof (induction "3 - d" arbitrary: d rule: less_induct)
  case less
  show ?case
  proof
    fix s :: refgen assume inv: "gen_inv s"
    note block = block_rel_gen_block [OF less]
    show "wp (block_stmt d) (\<lambda>x s'. gen_inv s' \<and> block_rel s [x] s') s"
      unfolding block_stmt_def
      by (intro wp_intro block) (use inv in \<open>auto simp: block_rel_def same_frame_def\<close>)
  next
    fix s x s' xs s''
    assume "block_rel s [x] s'" and "block_rel s' xs s''"
    then show "block_rel s (x # xs) s''" by (rule block_rel_cons)
  qed (simp add: block_rel_def)
qed

interpretation block_loop: loop_step "block_stmt d" gen_inv block_rel for d
  by (rule block_stmt_loop)

lemmas wp_gen_block [wp_intro] = block_rel_gen_block [OF block_stmt_loop]


section \<open>Declarations, loops and the whole core\<close>

text \<open>Growth of the scope: nothing declared is lost or retyped, and the layout fields are untouched.\<close>

lemma wp_next_n [wp_intro]: "Q (gn s) (s\<lparr>gn := Suc (gn s)\<rparr>) \<Longrightarrow> wp next_n Q s"
  by (simp add: next_n_def)

lemma wp_new_name [wp_intro]: "Q (pre @ str_nat (gn s)) (s\<lparr>gn := Suc (gn s)\<rparr>) \<Longrightarrow> wp (new_name pre) Q s"
  by (simp add: new_name_def next_n_def)

lemma fresh_name:
  assumes "gen_inv s" and "c = ''v'' \<or> c = ''j''"
  shows "c @ str_nat (gn s) \<notin> fst ` set (scope s)" and "tenv_of s (c @ str_nat (gn s)) = None"
proof -
  show *: "c @ str_nat (gn s) \<notin> fst ` set (scope s)"
    using assms by (auto simp: gen_inv_def dest!: name_ok_fresh bspec)
  then show "tenv_of s (c @ str_nat (gn s)) = None" by (simp add: map_of_eq_None_iff)
qed

lemma gen_inv_declare:
  fixes t :: "nat list"
  assumes inv: "gen_inv s" and "c = ''v'' \<or> c = ''j''" and "ty_info rt \<noteq> None" and "x = c @ str_nat (gn s)"
  defines "s' \<equiv> s\<lparr>gn := Suc (gn s), tape := t, scope := dict_set (scope s) x rt, order := order s @ [x]\<rparr>"
  shows "gen_inv s'" and "tenv_of s' = (tenv_of s)(x \<mapsto> rt)"
proof -
  have "name_ok (Suc (gn s)) x" using assms(2,4) by (auto simp: name_ok_def)
  then show "gen_inv s'"
    using inv fresh_name [OF inv assms(2)] assms(3,4) unfolding s'_def
    by (auto simp: gen_inv_def dict_set_fresh intro: name_ok_mono)
  show "tenv_of s' = (tenv_of s)(x \<mapsto> rt)" by (rule ext) (simp add: s'_def update_conv)
qed

definition top_rel :: "refgen \<Rightarrow> stmt list \<Rightarrow> refgen \<Rightarrow> bool" where
  "top_rel s ss s' \<longleftrightarrow> wt_top 4 (tenv_of s) ss (tenv_of s')"

lemma wp_gen_decl:
  assumes inv: "gen_inv s" and ty: "ty_info rt \<noteq> None"
  shows "wp (gen_decl rt) (\<lambda>x s'. gen_inv s' \<and> top_rel s [x] s') s"
proof -
  let ?s = "s\<lparr>gn := Suc (gn s)\<rparr>"
  from ty obtain w k where wk: "ty_info rt = Some (w, k)" by auto
  have inv': "gen_inv ?s" using inv by (rule gen_inv_gn) simp
  show ?thesis
    unfolding gen_decl_def declare_var_def
    apply (intro wp_bindI wp_new_name wp_gen_expr [OF inv' wk] wp_modifyI wp_retI)
    using gen_inv_declare [OF inv disjI1 [OF refl] ty refl] fresh_name(2) [OF inv disjI1 [OF refl]]
    by (auto simp: top_rel_def)
qed

lemma wp_gen_while:
  assumes inv: "gen_inv s"
  shows "wp gen_while (\<lambda>x s'. gen_inv s' \<and> top_rel s [x] s') s"
proof -
  let ?s = "s\<lparr>gn := Suc (gn s)\<rparr>"
  have inv': "gen_inv ?s" using inv by (rule gen_inv_gn) simp
  have ty: "ty_info ''u64'' \<noteq> None" by (simp add: ty_info_u64)
  show ?thesis
    unfolding gen_while_def declare_var_def
    apply (intro wp_bindI wp_new_name wp_randrange wp_gen_block wp_modifyI wp_retI)
    using inv' gen_inv_declare [OF inv disjI2 [OF refl] ty refl] fresh_name(2) [OF inv disjI2 [OF refl]]
    by (auto simp: top_rel_def)
qed

lemma wp_gen_top_stmt:
  assumes inv: "gen_inv s"
  shows "wp gen_top_stmt (\<lambda>x s'. gen_inv s' \<and> top_rel s [x] s') s"
proof -
  have block: "top_rel s [x] (s\<lparr>tape := t\<rparr>)" if "wt_block_stmt (tenv_of s) x" for x t
    using that by (cases x) (auto simp: top_rel_def)
  have whl: "wp gen_while (\<lambda>x s'. gen_inv s' \<and> top_rel s [x] s') (s\<lparr>tape := t\<rparr>)" for t
    using wp_gen_while [of "s\<lparr>tape := t\<rparr>"] inv by (simp add: top_rel_def)
  show ?thesis
    unfolding gen_top_stmt_def
    by (intro wp_intro whl) (use inv in \<open>auto intro!: block\<close>)
qed

lemma top_rel_cons: "top_rel s [x] s' \<Longrightarrow> top_rel s' xs s'' \<Longrightarrow> top_rel s (x # xs) s''"
  using wt_top_append [of 4 "tenv_of s" "[x]" xs] by (auto simp: top_rel_def)

interpretation top_loop: loop_step gen_top_stmt gen_inv top_rel
proof
  fix s x s' xs s''
  assume "top_rel s [x] s'" and "top_rel s' xs s''"
  then show "top_rel s (x # xs) s''" by (rule top_rel_cons)
qed (auto simp: top_rel_def intro: wp_gen_top_stmt [unfolded top_rel_def])

lemma wp_decls:
  "gen_inv s \<Longrightarrow> (\<And>rt. rt \<in> set rts \<Longrightarrow> ty_info rt \<noteq> None) \<Longrightarrow>
   wp (map_m gen_decl rts) (\<lambda>xs s'. gen_inv s' \<and> top_rel s xs s') s"
proof (induction rts arbitrary: s)
  case Nil
  then show ?case by (simp add: top_rel_def)
next
  case (Cons rt rts)
  have "wp (map_m gen_decl rts) (\<lambda>xs s''. gen_inv s'' \<and> top_rel s (x # xs) s'') s'"
    if "gen_inv s'" "top_rel s [x] s'" for x s'
    by (rule wp_mono [OF Cons.IH [OF that(1)]]) (use Cons.prems that(2) in \<open>auto intro: top_rel_cons\<close>)
  then show ?case using Cons.prems by (auto intro: wp_mono [OF wp_gen_decl])
qed

lemma wp_build_core:
  assumes inv: "gen_inv s"
  shows "wp build_core (\<lambda>ss s'. gen_inv s' \<and> top_rel s ss s') s"
proof -
  have types: "ty_info rt \<noteq> None" if "rt \<in> set (map fst REF_TYPES)" for rt
    using that by (simp add: map_of_eq_None_iff)
  have "wp (repeat_m k gen_top_stmt) (\<lambda>ss s'. gen_inv s' \<and> top_rel s (ds @ ss) s') s'"
    if "gen_inv s'" "top_rel s ds s'" for k ds s'
    by (rule wp_mono [OF top_loop.repeat_ok [OF that(1)]])
       (use that(2) in \<open>auto simp: top_rel_def wt_top_append\<close>)
  then have rest: "wp (randrange 5 11) (\<lambda>k. wp (repeat_m k gen_top_stmt)
      (\<lambda>ss s'. gen_inv s' \<and> top_rel s (ds @ ss) s')) s'"
    if "gen_inv s'" "top_rel s ds s'" for ds s'
    using that by (intro wp_randrange) (auto simp: top_rel_def)
  show ?thesis
    unfolding build_core_def wp_bind wp_ret
  proof (rule wp_sample)
    fix rts :: "string list" and t
    assume "set rts \<subseteq> set (map fst REF_TYPES)"
    then have "wp (map_m gen_decl rts) (\<lambda>xs s'. gen_inv s' \<and> top_rel (s\<lparr>tape := t\<rparr>) xs s') (s\<lparr>tape := t\<rparr>)"
      using types inv by (intro wp_decls) (auto dest!: subsetD)
    then show "wp (map_m gen_decl rts) (\<lambda>ds. wp (randrange 5 11) (\<lambda>k. wp (repeat_m k gen_top_stmt)
      (\<lambda>ss s'. gen_inv s' \<and> top_rel s (ds @ ss) s'))) (s\<lparr>tape := t\<rparr>)"
      by (rule wp_mono) (use rest in \<open>auto simp: top_rel_def\<close>)
  qed (auto simp: distinct_REF_TYPES)
qed


section \<open>The layout and switch constructs\<close>

text \<open>
  A construct adds declarations, body lines and folded terms; it touches neither the scope nor the
  statements of the core, and the values it folds are 64-bit.
\<close>

definition core_kept :: "refgen \<Rightarrow> refgen \<Rightarrow> bool" where
  "core_kept s s' \<longleftrightarrow>
     scope s' = scope s \<and> order s' = order s \<and> g_stmts s' = g_stmts s \<and>
     (\<forall>(x, v) \<in> set (extra_terms s'). in_range 64 v)"

lemma core_kept_tape [simp]: "core_kept s (s'\<lparr>tape := t\<rparr>) = core_kept s s'"
  by (simp add: core_kept_def)

lemma core_kept_from_tape [simp]: "core_kept (s\<lparr>tape := t\<rparr>) s' = core_kept s s'"
  by (simp add: core_kept_def)

lemma core_kept_trans: "core_kept s s' \<Longrightarrow> core_kept s' s'' \<Longrightarrow> core_kept s s''"
  by (simp add: core_kept_def)

lemma core_kept_self: "core_kept s s' \<Longrightarrow> core_kept s' s'"
  by (simp add: core_kept_def)

text \<open>Rules that forget what was added and keep only that the core is untouched.\<close>

lemma kept_add_pre_decls:
  "core_kept base s \<Longrightarrow> (\<And>s'. core_kept base s' \<Longrightarrow> Q () s') \<Longrightarrow> wp (add_pre_decls ds) Q s"
  by (simp add: add_pre_decls_def core_kept_def)

lemma kept_add_extra_body:
  "core_kept base s \<Longrightarrow> (\<And>s'. core_kept base s' \<Longrightarrow> Q () s') \<Longrightarrow> wp (add_extra_body ds) Q s"
  by (simp add: add_extra_body_def core_kept_def)

lemma kept_add_extra_term:
  "core_kept base s \<Longrightarrow> in_range 64 v \<Longrightarrow> (\<And>s'. core_kept base s' \<Longrightarrow> Q () s') \<Longrightarrow> wp (add_extra_term x v) Q s"
  by (auto simp: add_extra_term_def core_kept_def)

lemma kept_next_n: "core_kept base s \<Longrightarrow> (\<And>k s'. core_kept base s' \<Longrightarrow> Q k s') \<Longrightarrow> wp next_n Q s"
  by (simp add: next_n_def core_kept_def)

lemma kept_gn: "(\<And>k. Q k s) \<Longrightarrow> wp (gets gn) Q s"
  by simp

lemmas kept_adds = kept_add_pre_decls kept_add_extra_body kept_add_extra_term kept_next_n

lemmas walk_rules = wp_bindI wp_retI kept_gn wp_randrange wp_choice wp_flip wp_pairI

lemma round_offset_ok:
  assumes "0 < sz"
  shows "cur \<le> round_offset cur sz" and "sz dvd round_offset cur sz"
proof -
  show "cur \<le> round_offset cur sz" by (simp add: round_offset_def)
  have "cur + (sz - cur mod sz) = cur div sz * sz + sz"
    using div_mult_mod_eq [of cur sz] mod_less_divisor [OF assms, of cur] by linarith
  then show "sz dvd round_offset cur sz" by (auto simp: round_offset_def mod_eq_0_iff_dvd)
qed

definition numbered :: "nat \<Rightarrow> off_field list \<Rightarrow> bool" where
  "numbered j fs \<longleftrightarrow> map fst fs = map (\<lambda>k. ''of'' @ str_nat k) [j..<j + length fs]"

lemma wp_off_fields:
  "(\<And>fs t. placed off fs \<Longrightarrow> numbered j fs \<Longrightarrow> length fs = n \<Longrightarrow> Q fs (s\<lparr>tape := t\<rparr>)) \<Longrightarrow> (j = 0 \<Longrightarrow> off = 0) \<Longrightarrow>
   wp (off_fields n j off) Q s"
proof (induction n arbitrary: j off Q s)
  case 0
  from "0.prems"(1) [of "[]" "tape s"] show ?case by (simp add: numbered_def)
next
  case (Suc n)
  have step: "wp (off_fields n (Suc j) (round_offset cur (w div 8) + w div 8))
      (\<lambda>fs. wp (ret ((''of'' @ str_nat j, w, round_offset cur (w div 8), mode) # fs)) Q) s'"
    if "w \<in> set [8, 16, 32]" "off \<le> cur" "same_frame s s'" for w cur mode s'
  proof (rule Suc.IH)
    fix fs t'
    assume fs: "placed (round_offset cur (w div 8) + w div 8) fs" "numbered (Suc j) fs" "length fs = n"
    have "0 < w div 8" using that(1) by auto
    from round_offset_ok [OF this, of cur] fs that(1,2)
    have "placed off ((''of'' @ str_nat j, w, round_offset cur (w div 8), mode) # fs)"
      by simp
    moreover have "numbered j ((''of'' @ str_nat j, w, round_offset cur (w div 8), mode) # fs)"
      using fs(2,3) by (simp add: numbered_def upt_conv_Cons)
    ultimately show "wp (ret ((''of'' @ str_nat j, w, round_offset cur (w div 8), mode) # fs)) Q (s'\<lparr>tape := t'\<rparr>)"
      using Suc.prems(1) fs(3) that(3) by (auto simp: same_frame_def)
  qed simp
  show ?case
    unfolding off_fields.simps
    by (intro wp_bindI wp_retI wp_choice wp_ifI wp_flip step)
       (use Suc.prems(2) in \<open>simp_all del: list.set\<close>)
qed

lemma numbered_distinct: "numbered j fs \<Longrightarrow> distinct (map fst fs)"
  by (simp add: numbered_def distinct_map inj_on_def)

lemma last_field_ok:
  fixes n :: string
  assumes "placed 0 fs" and "numbered 0 fs" and "fs \<noteq> []" and "last fs = (f, w, lo, m)"
  defines "st \<equiv> \<lparr>os_name = n, os_fields = fs\<rparr>"
  obtains v sz where "offset_fold_val st = Inr v" and "in_range 64 v" and "os_sizeof st = Inr sz"
    and "os_field_offset st f = Inr lo" and "lo + w div 8 \<le> sz"
proof -
  have d: "distinct (map fst fs)" using assms(2) by (rule numbered_distinct)
  have l: "(f, w, lo, m) \<in> set fs" using assms(3,4) last_in_set by fastforce
  obtain v where v: "offset_fold_val st = Inr v" "in_range 64 v"
    using offset_fold_val_ok [of 0 st] assms d by (auto simp: st_def)
  obtain sz where "os_sizeof st = Inr sz" "lo + w div 8 \<le> sz"
    using os_sizeof_ok [of 0 st] assms l unfolding st_def by (metis offset_struct.select_convs(2))
  moreover have "os_field_offset st f = Inr lo"
    unfolding os_field_offset_def st_def by (simp add: find_offset_ok [OF d l])
  ultimately show ?thesis using that v by blast
qed

lemma kept_gen_offset_struct:
  assumes "core_kept s0 s"
  shows "wp gen_offset_struct (\<lambda>_. core_kept s0) s"
  unfolding gen_offset_struct_def
proof (intro wp_bindI kept_next_n [OF assms] wp_randrange wp_off_fields, goal_cases)
  case (2 k s1 nf t fs t')
  then have fs: "fs \<noteq> []" and s1: "core_kept s0 (s1\<lparr>tape := t, tape := t'\<rparr>)" by auto
  obtain f w lo m where l: "last fs = (f, w, lo, m)" by (cases "last fs")
  from last_field_ok [OF 2(4,5) fs l, of "''OFF'' @ str_nat k"] obtain v sz where
    v: "offset_fold_val \<lparr>os_name = ''OFF'' @ str_nat k, os_fields = fs\<rparr> = Inr v" "in_range 64 v"
    and sz: "os_sizeof \<lparr>os_name = ''OFF'' @ str_nat k, os_fields = fs\<rparr> = Inr sz"
    and lo: "os_field_offset \<lparr>os_name = ''OFF'' @ str_nat k, os_fields = fs\<rparr> f = Inr lo"
    and le: "lo + w div 8 \<le> sz" by blast
  note lifts = wp_liftI [OF v(1)] wp_liftI [OF sz] wp_liftI [OF lo]
  have one: "in_range 64 1" by (simp add: in_range_def)
  show ?case
    unfolding l
    by (intro lifts wp_if_true [OF le] kept_adds [where base = s0] walk_rules, rule s1) (assumption | rule v(2) one)+
qed simp_all

lemma in_range_int: "k < 2 ^ w \<Longrightarrow> in_range w (int k)"
  by (auto simp: in_range_def)

lemma overlay_value_ok:
  assumes "w \<in> set [32, 64]" and "u < 2 ^ min w 32" and "h < 2 ^ 16"
  shows "in_range 64 (overlay_fold \<lparr>ov_name = n, ov_width = w\<rparr> (int u) (int h))"
proof -
  have "min w 32 = 32" using assms(1) by auto
  then show ?thesis using assms by (intro overlay_fold_closed(2) in_range_int) auto
qed

lemma kept_gen_overlay:
  assumes "core_kept s0 s"
  shows "wp gen_overlay (\<lambda>_. core_kept s0) s"
  unfolding gen_overlay_def
proof (intro kept_adds [where base = s0] walk_rules, rule assms, goal_cases)
  case (3 k s' x t s'a)
  then show ?case by (auto simp: min_def)
next
  case (4 k s' x t s'a ka ta)
  then show ?case by (auto simp: ov_nhalves_def)
qed (simp_all add: overlay_value_ok del: list.set)

text \<open>A scalar switch selects the arm of the matching case; the cases are distinct, so one arm matches.\<close>

lemma scalar_switch_fold:
  "subj \<notin> set cs \<Longrightarrow>
   foldl (\<lambda>exp (k, c). if subj = c then int ((k + 1) * 11) else exp) v (enumerate n cs) = v"
  by (induction cs arbitrary: n v) auto

lemma scalar_switch_from:
  "distinct cs \<Longrightarrow> i < length cs \<Longrightarrow>
   foldl (\<lambda>exp (k, c). if cs ! i = c then int ((k + 1) * 11) else exp) v (enumerate n cs) = int ((n + i + 1) * 11)"
proof (induction cs arbitrary: n v i)
  case (Cons c cs)
  then show ?case by (cases i) (auto simp: scalar_switch_fold)
qed simp

lemma scalar_switch_val_range:
  assumes "length cs \<le> 1000"
  shows "in_range 64 (scalar_switch_val cs subj)"
proof -
  let ?f = "\<lambda>exp (k, c). if subj = c then int ((k + 1) * 11) else exp"
  have "in_range 64 (foldl ?f v (enumerate n cs))" if "in_range 64 v" "n + length cs \<le> 1000" for v n
    using that
  proof (induction cs arbitrary: n v)
    case (Cons c cs)
    have "in_range 64 (?f v (n, c))" using Cons.prems by (auto simp: in_range_def)
    with Cons show ?case by simp
  qed simp
  from this [of 7 0] show ?thesis using assms by (simp add: scalar_switch_val_def in_range_def)
qed

lemma kept_gen_scalar_switch:
  assumes "core_kept s0 s"
  shows "wp gen_scalar_switch (\<lambda>_. core_kept s0) s"
  unfolding gen_scalar_switch_def
  by (intro kept_adds [where base = s0] walk_rules wp_sample)
     (simp_all add: assms scalar_switch_val_range)

lemma in_range_small: "k < 100 \<Longrightarrow> c < 100 \<Longrightarrow> in_range 64 (int ((k + 1) * c))"
proof -
  assume "k < 100" "c < 100"
  then have "(k + 1) * c \<le> 100 * 100" by (intro mult_le_mono) auto
  then show ?thesis by (intro in_range_int) simp
qed

lemma kept_gen_enum_switch:
  assumes "core_kept s0 s"
  shows "wp gen_enum_switch (\<lambda>_. core_kept s0) s"
  unfolding gen_enum_switch_def
  by (intro kept_adds [where base = s0] walk_rules in_range_small) (simp_all add: assms)

lemma kept_gen_result_switch:
  assumes "core_kept s0 s"
  shows "wp gen_result_switch (\<lambda>_. core_kept s0) s"
proof -
  have v: "in_range 64 (if b then int k else int k' XOR 1000)" if "k < 2 ^ 20" "k' < 2 ^ 20" for b k k'
  proof -
    have "in_range 64 (int k)" "in_range 64 (int k')" "in_range 64 1000"
      using that by (auto simp: in_range_def)
    then show ?thesis by (simp add: in_range_XOR)
  qed
  show ?thesis
    unfolding gen_result_switch_def
    by (intro kept_adds [where base = s0] walk_rules v) (simp_all add: assms)
qed

lemma wp_map_m:
  assumes "\<And>x s. I s \<Longrightarrow> x \<in> set xs \<Longrightarrow> wp (f x) (\<lambda>y s'. I s' \<and> P y) s"
  shows "I s \<Longrightarrow> wp (map_m f xs) (\<lambda>ys s'. I s' \<and> length ys = length xs \<and> list_all P ys) s"
  using assms
proof (induction xs arbitrary: s)
  case (Cons x xs)
  have "wp (map_m f xs) (\<lambda>ys s''. I s'' \<and> length (y # ys) = length (x # xs) \<and> list_all P (y # ys)) s'"
    if "I s'" "P y" for y s'
    by (rule wp_mono [OF Cons.IH [OF that(1)]]) (use Cons.prems that(2) in auto)
  then show ?case by (auto intro!: wp_mono [OF Cons.prems(2) [OF Cons.prems(1)]])
qed simp

lemma kept_gen_union_switch:
  assumes "core_kept s0 s"
  shows "wp gen_union_switch (\<lambda>_. core_kept s0) s"
proof -
  have arms: "wp (map_m (\<lambda>j. bind (choice [8, 16, 32, 64]) (\<lambda>w. ret (f j, w :: nat))) js) Q s'"
    if "core_kept s0 s'"
      "\<And>cs s''. core_kept s0 s'' \<Longrightarrow> length cs = length js \<Longrightarrow> Q cs s''"
    for f :: "nat \<Rightarrow> string" and js Q s'
    by (rule wp_mono [OF wp_map_m [where I = "core_kept s0" and P = "\<lambda>_. True"]])
       (use that in \<open>auto intro!: wp_choice\<close>)
  have word: "in_range 64 (int k)" if "k < 2 ^ min a 32" for a k :: nat
    by (rule in_range_mono [OF in_range_int [OF that]]) simp
  have seven: "in_range 64 7" by (simp add: in_range_def)
  have payload: "wp (case w of None \<Rightarrow> ret (f 0, 7)
       | Some w' \<Rightarrow> bind (randrange 0 (2 ^ min w' 32)) (\<lambda>pv. ret (g pv, int pv))) Q s'"
    if "core_kept s0 s'" "\<And>c v s''. core_kept s0 s'' \<Longrightarrow> in_range 64 v \<Longrightarrow> Q (c, v) s''"
    for w :: "nat option" and f g :: "nat \<Rightarrow> string" and Q s'
    using that seven word by (cases w) (auto intro!: wp_randrange)
  show ?thesis
    unfolding gen_union_switch_def
    by (intro kept_adds [where base = s0] walk_rules arms payload wp_prodI) (simp_all add: assms, auto)
qed

text \<open>
  The two constructs that are repeated: the contract of a repeated step, with the states related by
  having the same core.
\<close>

definition kept_rel :: "refgen \<Rightarrow> unit list \<Rightarrow> refgen \<Rightarrow> bool" where
  "kept_rel s us s' \<longleftrightarrow> core_kept s s'"

interpretation offset_loop: loop_step gen_offset_struct "\<lambda>s. core_kept s s" kept_rel
  by unfold_locales
     (auto simp: kept_rel_def intro: core_kept_trans core_kept_self wp_mono [OF kept_gen_offset_struct])

interpretation overlay_loop: loop_step gen_overlay "\<lambda>s. core_kept s s" kept_rel
  by unfold_locales
     (auto simp: kept_rel_def intro: core_kept_trans core_kept_self wp_mono [OF kept_gen_overlay])

lemma kept_repeat:
  assumes "loop_step m (\<lambda>s. core_kept s s) kept_rel" and "core_kept s0 s"
    and Q: "\<And>s'. core_kept s0 s' \<Longrightarrow> Q () s'"
  shows "wp (bind (randrange 1 3) (\<lambda>k. bind (repeat_m k m) (\<lambda>_. ret ()))) Q s"
  by (intro wp_bindI wp_randrange)
     (use assms(2) in \<open>auto simp: kept_rel_def intro!: Q wp_mono [OF loop_step.repeat_ok [OF assms(1)]]
        intro: core_kept_trans core_kept_self\<close>)

lemma wp_gen_constructs:
  assumes "core_kept s s"
  shows "wp gen_constructs (\<lambda>_. core_kept s) s"
  unfolding gen_constructs_def gen_offset_structs_def gen_overlays_def
  by (rule wp_bindI, rule kept_repeat [OF offset_loop.loop_step_axioms assms],
      rule wp_bindI, rule kept_repeat [OF overlay_loop.loop_step_axioms], assumption)
     (auto intro!: kept_gen_union_switch wp_mono [OF kept_gen_result_switch]
       wp_mono [OF kept_gen_enum_switch] wp_mono [OF kept_gen_scalar_switch])


section \<open>Every built program evaluates\<close>

text \<open>
  What a finished generator promises: a well-typed core whose loops run at most four times, the
  fold order listing exactly the declared variables, known types, and 64-bit construct terms.
\<close>

definition built_ok :: "refgen \<Rightarrow> bool" where
  "built_ok g \<longleftrightarrow>
     wt_top 4 Map.empty (g_stmts g) (tenv_of g) \<and>
     order g = map fst (scope g) \<and> distinct (order g) \<and>
     (\<forall>(x, rt) \<in> set (scope g). ty_info rt \<noteq> None) \<and>
     (\<forall>(x, v) \<in> set (extra_terms g). in_range 64 v)"

lemma build_ok: "\<exists>g. RefGen_build t = Inr g \<and> built_ok g"
proof -
  let ?s = "new_refgen t"
  have new: "gen_inv ?s" "tenv_of ?s = Map.empty" by (auto simp: gen_inv_def new_refgen_def)
  have ok: "built_ok g" if "gen_inv s" "top_rel ?s ss s" "core_kept (s\<lparr>g_stmts := ss\<rparr>) g" for ss s g
    using that new by (auto simp: built_ok_def gen_inv_def top_rel_def core_kept_def)
  have self: "core_kept (s\<lparr>g_stmts := ss\<rparr>) (s\<lparr>g_stmts := ss\<rparr>)" if "gen_inv s" for ss s
    using that by (simp add: gen_inv_def core_kept_def)
  have "wp build (\<lambda>_. built_ok) ?s"
    unfolding build_def
    by (intro wp_bindI wp_mono [OF wp_build_core [OF new(1)]] wp_modifyI wp_mono [OF wp_gen_constructs [OF self]])
       (auto intro: ok)
  then show ?thesis by (auto simp: wp_iff RefGen_build_def)
qed

lemma fold_env_ok:
  "conforms \<Gamma> env \<Longrightarrow> (\<And>x. x \<in> set xs \<Longrightarrow> \<Gamma> x \<noteq> None) \<Longrightarrow> in_range 64 acc \<Longrightarrow>
   \<exists>v. fold_env env xs acc = Inr v \<and> in_range 64 v"
proof (induction xs arbitrary: acc)
  case (Cons x xs)
  then obtain rt where "\<Gamma> x = Some rt" by fastforce
  with Cons.prems(1) obtain v where "lookup_env env x = Inr v"
    by (fastforce simp: conforms_def lookup_env_def)
  with Cons show ?case by (simp add: in_range_XOR)
qed simp

lemma evaluate_ok:
  assumes "built_ok g" and "4 < fuel"
  shows "\<exists>v. evaluate fuel g = Some (Inr v) \<and> in_range 64 v"
proof -
  have dom: "tenv_of g x \<noteq> None" if "x \<in> set (order g)" for x
    using assms(1) that by (auto simp: built_ok_def map_of_eq_None_iff)
  have "sound_top (tenv_of g) (exec_block fuel (g_stmts g) Map.empty)"
    using assms by (intro exec_top_sound [where B = 4]) (auto simp: built_ok_def conforms_empty)
  then show ?thesis
  proof (cases rule: sound_topE)
    case (1 env)
    with fold_env_ok [OF 1(2) dom, of "order g" 0] show ?thesis by (auto simp: evaluate_def)
  qed (auto simp: evaluate_def)
qed

lemma render_src_ok: "wt_src \<Gamma> src \<Longrightarrow> \<exists>r. render_src src = Inr r"
  by (cases src) (auto simp: fold_src_def ref_type_def)

lemma render_expr_ok: "wt_expr \<Gamma> e rt \<Longrightarrow> \<exists>r. render_expr e = Inr r"
  by (induction e arbitrary: rt) (fastforce dest: render_src_ok)+

lemma render_cond_ok: "wt_cond \<Gamma> c \<Longrightarrow> \<exists>r. render_cond c = Inr r"
  by (induction c) (fastforce dest: render_expr_ok)+

lemma render_block_ok:
  "wt_block_stmt \<Gamma> s \<Longrightarrow> \<exists>ls. render_stmt ind s = Inr ls"
  "wt_block \<Gamma> ss \<Longrightarrow> \<exists>ls. render_block ind ss = Inr ls"
  by (induction ind s and ind ss rule: render_stmt_render_block.induct)
     (fastforce dest: render_expr_ok render_cond_ok render_src_ok)+

lemma render_head_ok:
  assumes "wt_top B \<Gamma> (s # ss) \<Gamma>'"
  shows "\<exists>ls. render_stmt ind s = Inr ls" and "\<exists>\<Gamma>1. wt_top B \<Gamma>1 ss \<Gamma>'"
proof -
  show "\<exists>ls. render_stmt ind s = Inr ls"
  proof (cases s)
    case (Decl x rt e)
    with assms show ?thesis using render_expr_ok [of \<Gamma> e rt] by auto
  next
    case (While c bound body)
    with assms show ?thesis using render_block_ok(2) [of \<Gamma> body "Suc ind"] by auto
  qed (use assms render_block_ok(1) [of \<Gamma> s ind] in auto)
  show "\<exists>\<Gamma>1. wt_top B \<Gamma>1 ss \<Gamma>'"
    using assms by (cases s) (auto simp del: fun_upd_apply)
qed

lemma render_top_ok: "wt_top B \<Gamma> ss \<Gamma>' \<Longrightarrow> \<exists>ls. render_block ind ss = Inr ls"
proof (induction ss arbitrary: \<Gamma>)
  case (Cons s ss)
  from render_head_ok(1) [OF Cons.prems] obtain l where "render_stmt ind s = Inr l" by blast
  moreover from render_head_ok(2) [OF Cons.prems] Cons.IH
  obtain ls where "render_block ind ss = Inr ls" by blast
  ultimately show ?case by simp
qed simp

lemma fold_terms_ok:
  "(\<And>x. x \<in> set xs \<Longrightarrow> \<exists>rt. map_of sc x = Some rt \<and> ty_info rt \<noteq> None) \<Longrightarrow>
   \<exists>ts. fold_terms sc xs = Inr ts \<and> length ts = length xs"
  by (induction xs) (fastforce simp: fold_src_def ref_type_def)+

lemma source_ok:
  assumes "built_ok g"
  shows "\<exists>src. source g = Inr src"
proof -
  from assms obtain core where "render_block 1 (g_stmts g) = Inr core"
    unfolding built_ok_def using render_top_ok by blast
  moreover have "\<exists>rt. tenv_of g x = Some rt \<and> ty_info rt \<noteq> None" if "x \<in> set (order g)" for x
    using assms that by (fastforce simp: built_ok_def)
  from fold_terms_ok [OF this] obtain ts where "fold_terms (scope g) (order g) = Inr ts" by blast
  ultimately show ?thesis by (simp add: source_def)
qed

end
