(* ===== verification/Mcref_Word.thy ===== *)
theory Mcref_Word
  imports Mcref_Typing
begin

text \<open>
  The interpreter computes on unbounded Python integers and masks. Here its operators are related
  to machine words: on the integers that words denote, the wrap domain is word arithmetic, the
  saturating domain is word arithmetic with the overflow tests a compiler emits, and the plain
  operators are the word operators of the same width.
\<close>

section \<open>Word-level reference operators\<close>

definition sat_add :: "'a::len word \<Rightarrow> 'a word \<Rightarrow> 'a word" where
  "sat_add x y = (if x + y < x then - 1 else x + y)"

definition sat_sub :: "'a::len word \<Rightarrow> 'a word \<Rightarrow> 'a word" where
  "sat_sub x y = (if x < y then 0 else x - y)"

text \<open>Multiplication overflows when the quotient of the wrapped product does not give back a factor.\<close>

definition sat_mul :: "'a::len word \<Rightarrow> 'a word \<Rightarrow> 'a word" where
  "sat_mul x y = (if x \<noteq> 0 \<and> (x * y) div x \<noteq> y then - 1 else x * y)"

lemma uint_max: "uint (- 1 :: 'a::len word) = 2 ^ LENGTH('a) - 1"
  by (simp add: unsigned_minus_1_eq_mask mask_eq_exp_minus_1)

lemma uint_sat_add:
  "uint (sat_add x y) = min (uint x + uint y) (2 ^ LENGTH('a) - 1)" for x y :: "'a::len word"
  using uint_lt2p [of x] uint_lt2p [of y]
  by (auto simp: sat_add_def uint_max word_less_alt uint_plus_if' min_def split: if_splits)

lemma uint_sat_sub: "uint (sat_sub x y) = max (uint x - uint y) 0" for x y :: "'a::len word"
  by (auto simp: sat_sub_def word_less_alt uint_sub_if' max_def)

text \<open>Dividing a wrapped product by a factor gives the other factor exactly when nothing was lost.\<close>

lemma mult_mod_div:
  fixes a b N :: int
  assumes "0 < a" and "a < N" and "0 \<le> b"
  shows "(a * b) mod N div a = b \<longleftrightarrow> a * b < N"
proof
  assume "a * b < N"
  then show "(a * b) mod N div a = b" using assms by simp
next
  assume eq: "(a * b) mod N div a = b"
  show "a * b < N"
  proof (rule ccontr)
    assume "\<not> a * b < N"
    then have "1 \<le> a * b div N" using assms by (simp add: pos_imp_zdiv_pos_iff int_one_le_iff_zero_less)
    then have "N * 1 \<le> N * (a * b div N)" using assms by (intro mult_left_mono) auto
    then have "(a * b) mod N \<le> a * b - N" using mult_div_mod_eq [of N "a * b"] by linarith
    then have "(a * b) mod N < a * b - a" using assms(2) by linarith
    moreover have "a * b - a = a * (b - 1)" by (simp add: algebra_simps)
    moreover have "a * b \<le> (a * b) mod N"
      using mult_div_mod_eq [of a "(a * b) mod N"] pos_mod_sign [OF assms(1), of "(a * b) mod N"]
      unfolding eq by linarith
    ultimately show False using assms(1) by linarith
  qed
qed

lemma uint_sat_mul:
  "uint (sat_mul x y) = min (uint x * uint y) (2 ^ LENGTH('a) - 1)" for x y :: "'a::len word"
proof (cases "x = 0")
  case False
  then have x: "0 < uint x" "uint x < 2 ^ LENGTH('a)"
    by (auto simp: word_neq_0_conv word_less_alt)
  have "(x * y) div x = y \<longleftrightarrow> (uint x * uint y) mod 2 ^ LENGTH('a) div uint x = uint y"
    by (simp add: word_uint_eq_iff uint_div uint_word_ariths)
  also have "\<dots> \<longleftrightarrow> uint x * uint y < 2 ^ LENGTH('a)"
    using mult_mod_div [OF x] by simp
  finally show ?thesis
    using False by (auto simp: sat_mul_def uint_max uint_word_ariths(3) min_def)
qed (simp add: sat_mul_def)


section \<open>The interpreter's operators are the word operators\<close>

definition word_op :: "ref_kind \<Rightarrow> string \<Rightarrow> 'a::len word \<Rightarrow> 'a word \<Rightarrow> 'a word option" where
  "word_op k op x y =
     (if k = Wrap then
        map_of [(''+'', x + y), (''-'', x - y), (''*'', x * y), (''&'', x AND y), (''|'', x OR y), (''^'', x XOR y)] op
      else map_of [(''+'', sat_add x y), (''-'', sat_sub x y), (''*'', sat_mul x y)] op)"

lemma bit_op_word:
  "bit_op ''&'' (uint x) (uint y) = Inr (uint (x AND y))"
  "bit_op ''|'' (uint x) (uint y) = Inr (uint (x OR y))"
  "bit_op ''^'' (uint x) (uint y) = Inr (uint (x XOR y))"
  by (auto simp: bit_op_def uint_and uint_or uint_xor)

lemma dom_bin_word_op:
  fixes x y :: "'a::len word"
  assumes "word_op k op x y = Some z"
  shows "dom_bin LENGTH('a) k op (uint x) (uint y) = Inr (uint z)"
  using assms
  by (auto simp: word_op_def dom_bin_def and_mask_int uint_word_ariths(1-3) uint_sat_add
      uint_sat_sub uint_sat_mul bit_op_word
      mask_int_eq [THEN arg_cong, of "min z" for z] split: if_splits)

end
