(* ===== verification/Mcref_Props.thy ===== *)
theory Mcref_Props
  imports Mcref_Gen_Sound Mcref_Word
begin

text \<open>
  The properties of the reference interpreter \<open>tools/fuzz/mcref.py\<close>: no seed makes the generator, the
  renderer or the evaluator fail, well-typed programs stay inside their widths, the domains compute
  machine arithmetic, and the layout and switch constructs have the values their declarations promise.
\<close>

section \<open>Fuel\<close>

text \<open>More fuel never changes a run that has an outcome.\<close>

lemma while_loop_mono:
  assumes body: "\<And>env r. body env = Some r \<Longrightarrow> body' env = Some r"
  shows "while_loop n c bound body env = Some r \<Longrightarrow> n \<le> m \<Longrightarrow> while_loop m c bound body' env = Some r"
proof (induction n arbitrary: env m)
  case (Suc n)
  then obtain m' where m: "m = Suc m'" "n \<le> m'" by (cases m) auto
  show ?case
  proof (cases "env c")
    case None
    with Suc.prems m show ?thesis by simp
  next
    case (Some v)
    show ?thesis
    proof (cases "v < int bound")
      case True
      with Suc.prems(1) Some obtain q where q: "body (env(c \<mapsto> v + 1)) = Some q" by (auto split: option.splits)
      with Suc Some True m body [OF q] show ?thesis by (cases q) auto
    qed (use Suc.prems Some m in auto)
  qed
qed simp

lemma exec_fuel_mono:
  "exec_stmt n s env = Some r \<Longrightarrow> n \<le> m \<Longrightarrow> exec_stmt m s env = Some r"
  "exec_block n ss env = Some r \<Longrightarrow> n \<le> m \<Longrightarrow> exec_block m ss env = Some r"
proof (induction n s env and n ss env arbitrary: r and r rule: exec_stmt_exec_block.induct)
  case (4 fuel c bound body env)
  then show ?case
    using while_loop_mono [of "exec_block fuel body" "exec_block m body" fuel c bound "env(c \<mapsto> 0)" r m] by simp
next
  case (7 fuel s ss env)
  from "7.prems"(1) obtain q where q: "exec_stmt fuel s env = Some q" by (auto split: option.splits)
  with 7 show ?case by (cases q) auto
qed (auto split: sum.splits if_splits)

lemma evaluate_mono:
  assumes "evaluate n g = Some r" "n \<le> m"
  shows "evaluate m g = Some r"
proof -
  from assms(1) obtain q where q: "exec_block n (g_stmts g) Map.empty = Some q"
    by (auto simp: evaluate_def split: option.splits)
  with exec_fuel_mono(2) [OF q assms(2)] assms(1) show ?thesis by (simp add: evaluate_def)
qed

section \<open>Properties\<close>

text \<open>
  C1. The reference oracle's program never fails on the Python side: whatever the random source yields,
  \<open>RefGen(seed).build()\<close> returns (so the layout assertion and every dictionary access succeed),
  \<open>source()\<close> renders, and \<open>evaluate()\<close> returns a value of 64 bits; its loops need no more than five
  rounds of fuel, and more fuel gives the same value.
\<close>

theorem reference_program_total:
  "\<exists>g src v. RefGen_build t = Inr g \<and> source g = Inr src \<and> 0 \<le> v \<and> v < 2 ^ 64 \<and>
     (\<forall>extra. evaluate (5 + extra) g = Some (Inr v))"
proof -
  obtain g where g: "RefGen_build t = Inr g" "built_ok g" using build_ok by blast
  obtain src where "source g = Inr src" using source_ok [OF g(2)] by blast
  moreover obtain v where v: "evaluate 5 g = Some (Inr v)" "in_range 64 v"
    using evaluate_ok [OF g(2), of 5] by auto
  moreover have "evaluate (5 + extra) g = Some (Inr v)" for extra by (rule evaluate_mono [OF v(1)]) simp
  ultimately show ?thesis using g(1) unfolding in_range_def by blast
qed

text \<open>
  C2. Type soundness of the interpreter: a well-typed top-level program, run from an environment that
  conforms to its scope with fuel above its largest loop bound, raises no Python exception and does not run
  out of fuel: it ends in an environment that conforms to the final scope, or returns early with a value
  of 64 bits.
\<close>

theorem well_typed_program_sound:
  assumes "wt_top B \<Gamma> ss \<Gamma>'" and "conforms \<Gamma> env" and "B < fuel" and "B < 2 ^ 64"
  shows "(\<exists>env'. exec_block fuel ss env = Some (Inr env') \<and> conforms \<Gamma>' env') \<or>
    (\<exists>v. exec_block fuel ss env = Some (Inl (RetSignal v)) \<and> 0 \<le> v \<and> v < 2 ^ 64)"
  using exec_top_sound [OF assms] unfolding sound_top_def in_range_def by blast

definition demo_program :: "stmt list" where
  "demo_program = [Decl ''v0'' ''sat<u8>'' (Lit 200 ''sat<u8>''),
     While ''j1'' 3 [Assign ''v0'' (DomBin ''*'' (Var ''v0'' ''sat<u8>'') (Var ''v0'' ''sat<u8>'') ''sat<u8>'')],
     EarlyRet (Cmp ''=='' (Var ''j1'' ''u64'') (Lit 9 ''u64'')) (SrcVar ''v0'' ''sat<u8>'')]"

theorem well_typed_program_sound_witness:
  "(\<exists>env'. exec_block 4 demo_program Map.empty = Some (Inr env') \<and>
      conforms [''v0'' \<mapsto> ''sat<u8>'', ''j1'' \<mapsto> ''u64''] env') \<or>
   (\<exists>v. exec_block 4 demo_program Map.empty = Some (Inl (RetSignal v)) \<and> 0 \<le> v \<and> v < 2 ^ 64)"
proof -
  have "wt_top 3 Map.empty demo_program [''v0'' \<mapsto> ''sat<u8>'', ''j1'' \<mapsto> ''u64'']"
    by (auto simp: demo_program_def REF_TYPES_eq in_range_def fun_upd_twist)
  from well_typed_program_sound [OF this conforms_empty, of 4] show ?thesis by simp
qed

text \<open>
  C7. The interpreter's domain arithmetic is machine arithmetic: on the integers that two words of a width
  denote, the wrap domain computes the wrapping word operation and the saturating domain computes the
  word operation clamped by the overflow test, for every operator the generator emits.
\<close>

theorem domain_arithmetic_refines_words:
  fixes x y :: "'a::len word"
  assumes "word_op k op x y = Some z"
  shows "dom_bin LENGTH('a) k op (uint x) (uint y) = Inr (uint z)"
  by (rule dom_bin_word_op [OF assms])

theorem domain_arithmetic_refines_words_witness:
  "dom_bin LENGTH(8) Sat ''*'' (uint (200 :: 8 word)) (uint (3 :: 8 word)) = Inr 255 \<and>
   dom_bin LENGTH(8) Wrap ''*'' (uint (200 :: 8 word)) (uint (3 :: 8 word)) = Inr 88"
proof
  have "word_op Sat ''*'' (200 :: 8 word) 3 = Some 255" by code_simp
  from domain_arithmetic_refines_words [OF this]
  show "dom_bin LENGTH(8) Sat ''*'' (uint (200 :: 8 word)) (uint (3 :: 8 word)) = Inr 255" by simp
  have "word_op Wrap ''*'' (200 :: 8 word) 3 = Some 88" by code_simp
  from domain_arithmetic_refines_words [OF this]
  show "dom_bin LENGTH(8) Wrap ''*'' (uint (200 :: 8 word)) (uint (3 :: 8 word)) = Inr 88" by simp
qed

text \<open>
  The overlay model: the byte view and the half-word view of a scalar read the same storage, so their
  lane folds cancel and the expected value is the scalar, the rewritten half and the size.
\<close>

theorem overlay_views_cancel:
  assumes "ov_width ov \<in> {32, 64}" and "0 \<le> u" and "u < 2 ^ 32" and "0 \<le> h" and "h < 2 ^ 16"
  shows "overlay_fold ov u h = u XOR push_bit 3 h XOR push_bit 4 (int (ov_nbytes ov))"
  using overlay_fold_closed(1) [of ov u h] assms by (simp add: in_range_def)

theorem overlay_views_cancel_witness:
  "overlay_fold \<lparr>ov_name = ''OV0'', ov_width = 32\<rparr> 305419896 7 = 305419896 XOR 56 XOR 64"
  using overlay_views_cancel [of "\<lparr>ov_name = ''OV0'', ov_width = 32\<rparr>" 305419896 7] by (simp add: ov_nbytes_def)

text \<open>
  Layout of an offset struct: for fields placed in order at their natural alignment, \<open>sizeof\<close> is defined,
  covers every field, is a multiple of every field's size, and is the least multiple of the largest
  alignment that covers the last field.
\<close>

theorem offset_struct_size_tight:
  assumes "placed off (os_fields s)" and "os_fields s \<noteq> []" and "last (os_fields s) = (lf, lw, lo, lm)"
  shows "\<exists>sz. os_sizeof s = Inr sz \<and>
    (\<forall>f w cur m. (f, w, cur, m) \<in> set (os_fields s) \<longrightarrow> cur + w div 8 \<le> sz \<and> (w div 8) dvd sz) \<and>
    (\<forall>z. Max (set (map (\<lambda>(_, w, _, _). w div 8) (os_fields s))) dvd z \<and> lo + lw div 8 \<le> z \<longrightarrow> sz \<le> z)"
proof -
  let ?A = "Max (set (map (\<lambda>(_, w, _, _). w div 8) (os_fields s)))"
  obtain sz where sz: "os_sizeof s = Inr sz"
    "\<And>f w cur m. (f, w, cur, m) \<in> set (os_fields s) \<Longrightarrow> cur + w div 8 \<le> sz \<and> (w div 8) dvd sz"
    by (rule os_sizeof_ok [OF assms(1,2)]) blast
  have "0 < ?A" using Max_widths(1) [OF assms(1,2)] by auto
  moreover have "align_up (lo + lw div 8) ?A = Inr sz"
    using sz(1) assms(2,3) by (cases "os_fields s") (auto simp: os_sizeof_def)
  ultimately show ?thesis using sz align_up_least by blast
qed

theorem offset_struct_size_tight_witness:
  "\<exists>sz. os_sizeof \<lparr>os_name = ''OFF0'', os_fields = [(''of0'', 32, 0, ''.read''), (''of1'', 8, 4, ''.write'')]\<rparr> = Inr sz \<and>
     5 \<le> sz \<and> 4 dvd sz \<and> sz \<le> 8"
proof -
  let ?s = "\<lparr>os_name = ''OFF0'', os_fields = [(''of0'', 32, 0, ''.read''), (''of1'', 8, 4, ''.write'')]\<rparr>"
  from offset_struct_size_tight [of 0 ?s "''of1''" 8 4 "''.write''"] obtain sz where
    "os_sizeof ?s = Inr sz" "\<forall>f w cur m. (f, w, cur, m) \<in> set (os_fields ?s) \<longrightarrow> cur + w div 8 \<le> sz \<and> (w div 8) dvd sz"
    "\<forall>z. Max (set (map (\<lambda>(_, w, _, _). w div 8) (os_fields ?s))) dvd z \<and> 4 + 8 div 8 \<le> z \<longrightarrow> sz \<le> z"
    by auto
  then show ?thesis by (intro exI [of _ sz]) (auto simp: dest: spec [of _ 8])
qed

text \<open>
  The scalar switch: the generator's expected value, computed by a loop that keeps the last match, is the
  value of the emitted \<open>switch\<close>, which takes the first matching arm, because the sampled cases are
  distinct; a subject that matches no case takes the wildcard's 7.
\<close>

theorem scalar_switch_first_match:
  assumes "distinct cases"
  shows "scalar_switch_val cases subj =
    (case find (\<lambda>(k, c). c = subj) (enumerate 0 cases) of Some (k, c) \<Rightarrow> int ((k + 1) * 11) | None \<Rightarrow> 7)"
proof (cases "subj \<in> set cases")
  case False
  then have "find (\<lambda>(k, c). c = subj) (enumerate 0 cases) = None"
    by (auto simp: find_None_iff in_set_enumerate_eq)
  with False show ?thesis by (simp add: scalar_switch_val_def scalar_switch_fold)
next
  case True
  then obtain i where i: "i < length cases" "cases ! i = subj" by (auto simp: in_set_conv_nth)
  have "find (\<lambda>(k, c). c = subj) (enumerate 0 cases) = Some (i, subj)"
    unfolding find_Some_iff using i assms by (auto simp: nth_enumerate_eq nth_eq_iff_index_eq intro!: exI [of _ i])
  with scalar_switch_from [OF assms i(1), of 7 0] i show ?thesis by (simp add: scalar_switch_val_def)
qed

theorem scalar_switch_first_match_witness:
  "scalar_switch_val [1, 4, 6] 4 = 22 \<and> scalar_switch_val [1, 4, 6] 99 = 7"
  using scalar_switch_first_match [of "[1, 4, 6]" 4] scalar_switch_first_match [of "[1, 4, 6]" 99] by simp

end
