(* ===== verification/Mcgen.thy ===== *)
theory Mcgen
  imports Py_Random
begin

text \<open>
  The generator of trap-free differential programs, \<open>tools/toolchain/mcgen.py\<close>. The methods of
  \<open>Gen\<close> build a syntax tree that is rendered at the end; the text is the one the code appends line
  by line. \<open>self.depth\<close> is raised for the extent of \<open>block\<close> only and is an argument here.
\<close>

section \<open>Programs\<close>

datatype wexp =
    WVar nat
  | WTick
  | WLit nat
  | WUn string wexp
  | WShift string wexp nat
  | WGet wexp
  | WBin string wexp wexp

text \<open>
  \<open>SIf k c e th el\<close> is \<open>if dig(e) % k == c {th} else {el}\<close>; \<open>SSwitch k e arms dflt\<close> switches on
  \<open>dig(e) % k\<close>; \<open>SLoop i n t\<close> adds a tick to \<open>vt\<close> \<open>n\<close> times under the counter \<open>i\<close>.
\<close>

datatype wstmt =
    SDecl nat wexp
  | SMut nat wexp
  | SSet wexp wexp
  | SIf nat nat wexp "wstmt list" "wstmt list"
  | SSwitch nat wexp "wstmt list list" "wstmt list"
  | SLoop nat nat nat

definition mcgen_PRELUDE :: string where
  "mcgen_PRELUDE =
    concat (map (\<lambda>l. l @ nl)
     [''// Generated by tools/toolchain/mcgen.py '' @ em_dash @ '' do not edit; regenerate from the seed.'',
      ''type W = wrap<u64>;'',
      ''global g_seq: W;'',
      ''fn w(x: u64) -> W { return W.from(x); }'',
      ''fn tick() -> W { g_seq = g_seq + w(1); return g_seq; }'',
      ''fn add(a: W, b: W) -> W { return a + b; }'',
      ''fn sub(a: W, b: W) -> W { return a - b; } // modular: never traps'',
      ''fn mul(a: W, b: W) -> W { return a * b; }'',
      ''fn band(a: W, b: W) -> W { return a & b; }'',
      ''fn bor(a: W, b: W) -> W { return a | b; }'',
      ''fn bxor(a: W, b: W) -> W { return a ^ b; }'',
      ''fn shl(a: W, n: u64) -> W { return a << (n % 64); } // wrap shift is modular/truncating'',
      ''fn shr(a: W, n: u64) -> W { return a >> (n % 64); }'',
      ''// narrow to a smaller width (modular, never traps) then widen back '' @ em_dash @ '' exercises the scalar'',
      ''// conversion lowering (the eval-order-sensitive path).'',
      ''fn nu8(x: W) -> W { return W.from(u8.wrap_from(x as u64) as u64); }'',
      ''fn nu16(x: W) -> W { return W.from(u16.wrap_from(x as u64) as u64); }'',
      ''fn nu32(x: W) -> W { return W.from(u32.wrap_from(x as u64) as u64); }'',
      ''fn dig(x: W) -> u64 { return x as u64; }'',
      ''global g_arr: [16]u64;'',
      ''// bounds-checked global-array read/write at a side-effecting index (exercises index lowering).'',
      ''fn aget(e: W) -> W { return W.from(g_arr[(dig(e) % 16) as usize]); }'',
      ''fn aset(e: W, v: W) -> void { g_arr[(dig(e) % 16) as usize] = dig(v); }''])"


section \<open>Rendering\<close>

fun render_w :: "wexp \<Rightarrow> string" where
  "render_w (WVar k) = ''v'' @ str_nat k"
| "render_w WTick = ''tick()''"
| "render_w (WLit n) = ''w('' @ str_nat n @ '')''"
| "render_w (WUn op a) = op @ ''('' @ render_w a @ '')''"
| "render_w (WShift op a n) = op @ ''('' @ render_w a @ '', '' @ str_nat n @ '')''"
| "render_w (WGet a) = ''aget('' @ render_w a @ '')''"
| "render_w (WBin op a b) = op @ ''('' @ render_w a @ '', '' @ render_w b @ '')''"

definition u64_mod :: "wexp \<Rightarrow> nat \<Rightarrow> string" where
  "u64_mod e k = ''dig('' @ render_w e @ '') % '' @ str_nat k"

function (sequential) render_s :: "nat \<Rightarrow> wstmt \<Rightarrow> string list" where
  "render_s ind (SDecl k e) = [pad ind @ ''var v'' @ str_nat k @ '': W = '' @ render_w e @ '';'']"
| "render_s ind (SMut t e) = [pad ind @ ''v'' @ str_nat t @ '' = '' @ render_w e @ '';'']"
| "render_s ind (SSet a b) = [pad ind @ ''aset('' @ render_w a @ '', '' @ render_w b @ '');'']"
| "render_s ind (SIf k c e th el) =
     [pad ind @ ''if '' @ u64_mod e k @ '' == '' @ str_nat c @ '' {'']
     @ concat (map (render_s (ind + 1)) th) @ [pad ind @ ''} else {'']
     @ concat (map (render_s (ind + 1)) el) @ [pad ind @ ''}'']"
| "render_s ind (SSwitch k e arms dflt) =
     [pad ind @ ''switch ('' @ u64_mod e k @ '') {'']
     @ concat (map (\<lambda>(arm, b). [pad ind @ ''    '' @ str_nat arm @ '' => {'']
         @ concat (map (render_s (ind + 2)) b) @ [pad ind @ ''    }'']) (enumerate 0 arms))
     @ [pad ind @ ''    _ => {''] @ concat (map (render_s (ind + 2)) dflt)
     @ [pad ind @ ''    }'', pad ind @ ''}'']"
| "render_s ind (SLoop i n t) =
     [pad ind @ ''var i'' @ str_nat i @ '': u64 = 0;'',
      pad ind @ ''while i'' @ str_nat i @ '' < '' @ str_nat n @ '' {'',
      pad ind @ ''    v'' @ str_nat t @ '' = add(v'' @ str_nat t @ '', tick());'',
      pad ind @ ''    i'' @ str_nat i @ '' = i'' @ str_nat i @ '' + 1;'',
      pad ind @ ''}'']"
  by pat_completeness auto
termination
  by (relation "measure (\<lambda>(ind, s). size s)")
     (auto simp: less_Suc_eq_le in_set_enumerate_eq trans_le_add1 trans_le_add2 size_list_estimation'
       dest!: nth_mem intro: size_list_estimation')


section \<open>Generation\<close>

record mcgen = rng_state +
  nvars :: nat
  nloops :: nat
  budget :: int

type_synonym 'a mgen = "(mcgen, 'a) prog"

definition BINOPS :: "string list" where
  "BINOPS = [''add'', ''sub'', ''mul'', ''band'', ''bor'', ''bxor'']"

definition UNOPS :: "string list" where
  "UNOPS = [''nu8'', ''nu16'', ''nu32'']"

definition wexpr_leaf :: "wexp mgen" where
  "wexpr_leaf =
     bind py_random (\<lambda>c.
     bind (gets nvars) (\<lambda>n.
       if c < flt_0_45 \<and> n > 0 then bind (randrange 0 n) (\<lambda>k. ret (WVar k))
       else if c < flt_0_75 then ret WTick
       else bind (randrange 0 1000) (\<lambda>k. ret (WLit k))))"

text \<open>The threshold \<open>0.35 + 0.2 * d\<close> for \<open>d = 0, 1, 2\<close>, as doubles.\<close>

definition leaf_bias :: "nat \<Rightarrow> nat" where
  "leaf_bias d = (if d = 0 then flt_0_35 else if d = 1 then flt_0_55 else flt_0_75)"

function wexpr :: "nat \<Rightarrow> wexp mgen" where
  "wexpr d =
     (if d \<ge> 3 then wexpr_leaf
      else bind (flip (leaf_bias d)) (\<lambda>b.
        if b then wexpr_leaf
        else bind py_random (\<lambda>r.
          if r < flt_0_18 then
            bind (choice UNOPS) (\<lambda>op. bind (wexpr (Suc d)) (\<lambda>a. ret (WUn op a)))
          else if r < flt_0_3 then
            bind (choice [''shl'', ''shr'']) (\<lambda>op. bind (wexpr (Suc d)) (\<lambda>a.
            bind (randrange 0 64) (\<lambda>n. ret (WShift op a n))))
          else if r < flt_0_42 then bind (wexpr (Suc d)) (\<lambda>a. ret (WGet a))
          else
            bind (choice BINOPS) (\<lambda>op. bind (wexpr (Suc d)) (\<lambda>a.
            bind (wexpr (Suc d)) (\<lambda>b. ret (WBin op a b)))))))"
  by pat_completeness auto
termination
  by (relation "measure (\<lambda>d. 3 - d)") auto

declare wexpr.simps [simp del]

text \<open>
  \<open>stmt\<close> appends at most one statement, none when the budget is used up. \<open>block\<close> is written out in
  its two callers' argument order: the blocks are generated after the condition.
\<close>

function stmt :: "nat \<Rightarrow> wstmt list mgen" and block :: "nat \<Rightarrow> wstmt list mgen" where
  "stmt depth =
     bind (gets budget) (\<lambda>bud.
       if bud \<le> 0 then ret []
       else
         bind (modify (\<lambda>s. s\<lparr>budget := budget s - 1\<rparr>)) (\<lambda>_.
         bind py_random (\<lambda>r.
           if depth = 0 \<and> r < flt_0_4 then
             bind (gets nvars) (\<lambda>k.
             bind (wexpr 0) (\<lambda>e.
             bind (modify (\<lambda>s. s\<lparr>nvars := nvars s + 1\<rparr>)) (\<lambda>_. ret [SDecl k e])))
           else if r < flt_0_55 then
             bind (gets nvars) (\<lambda>n.
             bind (randrange 0 n) (\<lambda>t.
             bind (wexpr 0) (\<lambda>e.
               ret [SMut t (if render_w e = ''v'' @ str_nat t then WBin ''add'' e WTick else e)])))
           else if r < flt_0_62 then
             bind (wexpr 0) (\<lambda>a. bind (wexpr 0) (\<lambda>b. ret [SSet a b]))
           else if r < flt_0_76 \<and> depth < 3 then
             bind (choice [2, 3, 4]) (\<lambda>k.
             bind (randrange 0 k) (\<lambda>c.
             bind (wexpr 0) (\<lambda>e.
             bind (block (Suc depth)) (\<lambda>th.
             bind (block (Suc depth)) (\<lambda>el. ret [SIf k c e th el])))))
           else if r < flt_0_9 \<and> depth < 3 then
             bind (choice [2, 3]) (\<lambda>k.
             bind (wexpr 0) (\<lambda>e.
             bind (repeat_m (k - 1) (block (Suc depth))) (\<lambda>arms.
             bind (block (Suc depth)) (\<lambda>dflt. ret [SSwitch k e arms dflt]))))
           else
             bind (randrange 1 6) (\<lambda>n.
             bind (gets nloops) (\<lambda>i.
             bind (modify (\<lambda>s. s\<lparr>nloops := nloops s + 1\<rparr>)) (\<lambda>_.
             bind (gets nvars) (\<lambda>nv.
             bind (randrange 0 nv) (\<lambda>t. ret [SLoop i n t]))))))))"
| "block depth =
     bind (randrange 1 4) (\<lambda>n.
     bind (repeat_m n (stmt depth)) (\<lambda>ss. ret (concat ss)))"
  by pat_completeness auto
termination
  by (relation "measure (\<lambda>x. case x of Inl d \<Rightarrow> 2 * (3 - d) | Inr d \<Rightarrow> 2 * (3 - d) + 1)") auto

declare stmt.simps [simp del] block.simps [simp del]

definition gen_body :: "wstmt list mgen" where
  "gen_body =
     bind (modify (\<lambda>s. s\<lparr>nvars := 1\<rparr>)) (\<lambda>_.
     bind (randrange 4 10) (\<lambda>n.
     bind (repeat_m n (stmt 0)) (\<lambda>ss. ret (SDecl 0 WTick # concat ss))))"

definition new_mcgen :: "nat list \<Rightarrow> mcgen" where
  "new_mcgen t = \<lparr>tape = t, nvars = 0, nloops = 0, budget = 40\<rparr>"

text \<open>The digest expression: \<open>acc = "add(%s, v%d)"\<close> over the locals.\<close>

definition digest_exp :: "nat \<Rightarrow> wexp" where
  "digest_exp n = foldl (\<lambda>acc k. WBin ''add'' acc (WVar k)) (WVar 0) [1..<n]"

definition mcgen_program :: "nat list \<Rightarrow> string result" where
  "mcgen_program t =
     rbind (gen_body (new_mcgen t)) (\<lambda>(ss, s).
       Inr (mcgen_PRELUDE @ nl @ ''export fn harness() -> u64 {'' @ nl @
         join nl (concat (map (render_s 1) ss) @ [''    return dig('' @ render_w (digest_exp (nvars s)) @ '');'']) @
         nl @ ''}'' @ nl))"

end
