(* ===== verification/Mcgen_Sound.thy ===== *)
theory Mcgen_Sound
  imports Mcgen
begin

text \<open>
  The promise of \<open>mcgen.py\<close>: every generated program is well scoped, cannot trap, and returns. The
  meaning of the generated language is read off the prelude: \<open>W\<close> is a 64-bit modular word, \<open>tick\<close>
  bumps a global, \<open>aget\<close>/\<open>aset\<close> index a 16-element global array modulo 16; a trap (an unknown name, an
  index out of range, a zero modulus, an overflowing counter) is \<open>None\<close>.
\<close>

section \<open>Meaning of the generated programs\<close>

record mst =
  g_seq :: "64 word"
  g_arr :: "64 word list"
  locals :: "nat \<rightharpoonup> 64 word"

definition un_op :: "string \<Rightarrow> (64 word \<Rightarrow> 64 word) option" where
  "un_op op = map_of [(''nu8'', take_bit 8), (''nu16'', take_bit 16), (''nu32'', take_bit 32)] op"

definition shift_op :: "string \<Rightarrow> (nat \<Rightarrow> 64 word \<Rightarrow> 64 word) option" where
  "shift_op op = map_of [(''shl'', \<lambda>n. push_bit (n mod 64)), (''shr'', \<lambda>n. drop_bit (n mod 64))] op"

definition bin_op :: "string \<Rightarrow> (64 word \<Rightarrow> 64 word \<Rightarrow> 64 word) option" where
  "bin_op op =
     map_of [(''add'', (+)), (''sub'', (-)), (''mul'', (*)), (''band'', (AND)), (''bor'', (OR)), (''bxor'', (XOR))] op"

fun eval_w :: "wexp \<Rightarrow> mst \<Rightarrow> (64 word \<times> mst) option" where
  "eval_w (WVar k) s = (case locals s k of None \<Rightarrow> None | Some v \<Rightarrow> Some (v, s))"
| "eval_w WTick s = Some (g_seq s + 1, s\<lparr>g_seq := g_seq s + 1\<rparr>)"
| "eval_w (WLit n) s = Some (of_nat n, s)"
| "eval_w (WUn op a) s =
     (case eval_w a s of None \<Rightarrow> None
      | Some (v, s1) \<Rightarrow> (case un_op op of None \<Rightarrow> None | Some f \<Rightarrow> Some (f v, s1)))"
| "eval_w (WShift op a n) s =
     (case eval_w a s of None \<Rightarrow> None
      | Some (v, s1) \<Rightarrow> (case shift_op op of None \<Rightarrow> None | Some f \<Rightarrow> Some (f n v, s1)))"
| "eval_w (WGet a) s =
     (case eval_w a s of None \<Rightarrow> None
      | Some (v, s1) \<Rightarrow>
          if unat v mod 16 < length (g_arr s1) then Some (g_arr s1 ! (unat v mod 16), s1) else None)"
| "eval_w (WBin op a b) s =
     (case eval_w a s of None \<Rightarrow> None
      | Some (v, s1) \<Rightarrow>
          (case eval_w b s1 of None \<Rightarrow> None
           | Some (u, s2) \<Rightarrow> (case bin_op op of None \<Rightarrow> None | Some f \<Rightarrow> Some (f v u, s2))))"

text \<open>The counting loop: the counter is a checked \<open>u64\<close>, so an overflowing increment traps.\<close>

fun tick_loop :: "nat \<Rightarrow> 64 word \<Rightarrow> nat \<Rightarrow> nat \<Rightarrow> mst \<Rightarrow> mst option" where
  "tick_loop 0 i n t s = None"
| "tick_loop (Suc fuel) i n t s =
     (if i < of_nat n then
        (case eval_w (WBin ''add'' (WVar t) WTick) s of
           None \<Rightarrow> None
         | Some (v, s1) \<Rightarrow>
             if i = - 1 then None else tick_loop fuel (i + 1) n t (s1\<lparr>locals := (locals s1)(t \<mapsto> v)\<rparr>))
      else Some s)"

definition mod_value :: "nat \<Rightarrow> wexp \<Rightarrow> mst \<Rightarrow> (nat \<times> mst) option" where
  "mod_value k e s =
     (case eval_w e s of None \<Rightarrow> None | Some (v, s1) \<Rightarrow> if k = 0 then None else Some (unat v mod k, s1))"

function (sequential) exec_s :: "nat \<Rightarrow> wstmt \<Rightarrow> mst \<Rightarrow> mst option"
  and exec_ss :: "nat \<Rightarrow> wstmt list \<Rightarrow> mst \<Rightarrow> mst option"
  and exec_arm :: "nat \<Rightarrow> nat \<Rightarrow> wstmt list list \<Rightarrow> wstmt list \<Rightarrow> mst \<Rightarrow> mst option" where
  "exec_s fuel (SDecl k e) s =
     (case eval_w e s of None \<Rightarrow> None | Some (v, s1) \<Rightarrow> Some (s1\<lparr>locals := (locals s1)(k \<mapsto> v)\<rparr>))"
| "exec_s fuel (SMut t e) s =
     (case locals s t of None \<Rightarrow> None
      | Some _ \<Rightarrow>
          (case eval_w e s of None \<Rightarrow> None | Some (v, s1) \<Rightarrow> Some (s1\<lparr>locals := (locals s1)(t \<mapsto> v)\<rparr>)))"
| "exec_s fuel (SSet a b) s =
     (case eval_w a s of None \<Rightarrow> None
      | Some (i, s1) \<Rightarrow>
          (case eval_w b s1 of None \<Rightarrow> None
           | Some (v, s2) \<Rightarrow>
               if unat i mod 16 < length (g_arr s2) then Some (s2\<lparr>g_arr := (g_arr s2)[unat i mod 16 := v]\<rparr>)
               else None))"
| "exec_s fuel (SIf k c e th el) s =
     (case mod_value k e s of None \<Rightarrow> None
      | Some (m, s1) \<Rightarrow> if m = c then exec_ss fuel th s1 else exec_ss fuel el s1)"
| "exec_s fuel (SSwitch k e arms dflt) s =
     (case mod_value k e s of None \<Rightarrow> None | Some (m, s1) \<Rightarrow> exec_arm fuel m arms dflt s1)"
| "exec_s fuel (SLoop i n t) s = tick_loop fuel 0 n t s"
| "exec_ss fuel [] s = Some s"
| "exec_ss fuel (x # xs) s = (case exec_s fuel x s of None \<Rightarrow> None | Some s1 \<Rightarrow> exec_ss fuel xs s1)"
| "exec_arm fuel m [] dflt s = exec_ss fuel dflt s"
| "exec_arm fuel 0 (a # as) dflt s = exec_ss fuel a s"
| "exec_arm fuel (Suc m) (a # as) dflt s = exec_arm fuel m as dflt s"
  by pat_completeness auto
termination
  by (relation "measure (\<lambda>x. case x of
        Inl (_, st, _) \<Rightarrow> 2 * size st
      | Inr (Inl (_, ss, _)) \<Rightarrow> 2 * size_list size ss
      | Inr (Inr (_, _, arms, dflt, _)) \<Rightarrow> 2 * (size_list (size_list size) arms + size_list size dflt) + 1)") auto

definition init_mst :: mst where
  "init_mst = \<lparr>g_seq = 0, g_arr = replicate 16 0, locals = Map.empty\<rparr>"

text \<open>The value \<open>harness()\<close> returns: the digest of the locals after the body.\<close>

definition run_harness :: "nat \<Rightarrow> wstmt list \<Rightarrow> nat \<Rightarrow> 64 word option" where
  "run_harness fuel ss n =
     (case exec_ss fuel ss init_mst of None \<Rightarrow> None
      | Some s \<Rightarrow> map_option fst (eval_w (digest_exp n) s))"


section \<open>Scoping\<close>

fun wf_w :: "nat \<Rightarrow> wexp \<Rightarrow> bool" where
  "wf_w n (WVar k) \<longleftrightarrow> k < n"
| "wf_w n WTick \<longleftrightarrow> True"
| "wf_w n (WLit k) \<longleftrightarrow> True"
| "wf_w n (WUn op a) \<longleftrightarrow> op \<in> set UNOPS \<and> wf_w n a"
| "wf_w n (WShift op a k) \<longleftrightarrow> op \<in> {''shl'', ''shr''} \<and> k < 64 \<and> wf_w n a"
| "wf_w n (WGet a) \<longleftrightarrow> wf_w n a"
| "wf_w n (WBin op a b) \<longleftrightarrow> op \<in> set BINOPS \<and> wf_w n a \<and> wf_w n b"

text \<open>A nested statement declares nothing; a loop runs at most five times.\<close>

fun wf_s :: "nat \<Rightarrow> wstmt \<Rightarrow> bool" where
  "wf_s n (SDecl k e) \<longleftrightarrow> False"
| "wf_s n (SMut t e) \<longleftrightarrow> t < n \<and> wf_w n e"
| "wf_s n (SSet a b) \<longleftrightarrow> wf_w n a \<and> wf_w n b"
| "wf_s n (SIf k c e th el) \<longleftrightarrow> 2 \<le> k \<and> c < k \<and> wf_w n e \<and> list_all (wf_s n) th \<and> list_all (wf_s n) el"
| "wf_s n (SSwitch k e arms dflt) \<longleftrightarrow>
     2 \<le> k \<and> length arms = k - 1 \<and> wf_w n e \<and> list_all (list_all (wf_s n)) arms \<and> list_all (wf_s n) dflt"
| "wf_s n (SLoop i m t) \<longleftrightarrow> m \<le> 5 \<and> t < n"

fun wf_top :: "nat \<Rightarrow> wstmt list \<Rightarrow> nat \<Rightarrow> bool" where
  "wf_top n [] n' \<longleftrightarrow> n = n'"
| "wf_top n (SDecl k e # ss) n' \<longleftrightarrow> k = n \<and> wf_w n e \<and> wf_top (Suc n) ss n'"
| "wf_top n (s # ss) n' \<longleftrightarrow> wf_s n s \<and> wf_top n ss n'"

lemma wf_top_append: "wf_top n (ss @ ts) n'' \<longleftrightarrow> (\<exists>n'. wf_top n ss n' \<and> wf_top n' ts n'')"
proof (induction ss arbitrary: n)
  case (Cons s ss)
  then show ?case by (cases s) auto
qed simp

lemma wf_s_top: "list_all (wf_s n) ss \<Longrightarrow> wf_top n ss n"
proof (induction ss)
  case (Cons s ss)
  then show ?case by (cases s) auto
qed simp


section \<open>Well-scoped programs do not trap\<close>

definition mst_ok :: "nat \<Rightarrow> mst \<Rightarrow> bool" where
  "mst_ok n s \<longleftrightarrow> length (g_arr s) = 16 \<and> (\<forall>k < n. locals s k \<noteq> None)"

lemma eval_w_ok:
  "wf_w n e \<Longrightarrow> mst_ok n s \<Longrightarrow>
   \<exists>v s'. eval_w e s = Some (v, s') \<and> mst_ok n s' \<and> locals s' = locals s"
proof (induction e arbitrary: s)
  case (WVar k)
  then obtain v where "locals s k = Some v" by (auto simp: mst_ok_def)
  with WVar show ?case by auto
next
  case (WUn op a)
  then obtain v s' where "eval_w a s = Some (v, s')" "mst_ok n s'" "locals s' = locals s" using WUn by (metis wf_w.simps(4))
  with WUn.prems show ?case by (auto simp: un_op_def UNOPS_def)
next
  case (WShift op a k)
  then obtain v s' where "eval_w a s = Some (v, s')" "mst_ok n s'" "locals s' = locals s" using WShift by (metis wf_w.simps(5))
  with WShift.prems show ?case by (auto simp: shift_op_def)
next
  case (WGet a)
  then obtain v s' where "eval_w a s = Some (v, s')" "mst_ok n s'" "locals s' = locals s" using WGet by (metis wf_w.simps(6))
  then show ?case by (auto simp: mst_ok_def)
next
  case (WBin op a b)
  then obtain v s1 where 1: "eval_w a s = Some (v, s1)" "mst_ok n s1" "locals s1 = locals s" using WBin by (metis wf_w.simps(7))
  from WBin 1(2) obtain u s2 where "eval_w b s1 = Some (u, s2)" "mst_ok n s2" "locals s2 = locals s1"
    by (metis wf_w.simps(7))
  with WBin.prems 1 show ?case by (auto simp: bin_op_def BINOPS_def)
qed (auto simp: mst_ok_def)

lemma mst_ok_update: "mst_ok n s \<Longrightarrow> mst_ok n (s\<lparr>locals := (locals s)(k \<mapsto> v)\<rparr>)"
  by (auto simp: mst_ok_def)

lemma tick_loop_ok:
  "t < n \<Longrightarrow> mst_ok n s \<Longrightarrow> i \<le> m \<Longrightarrow> m \<le> 5 \<Longrightarrow> m - i < fuel \<Longrightarrow>
   \<exists>s'. tick_loop fuel (of_nat i) m t s = Some s' \<and> mst_ok n s'"
proof (induction fuel arbitrary: i s)
  case (Suc fuel)
  have small: "(of_nat i :: 64 word) < of_nat m \<longleftrightarrow> i < m"
    using Suc.prems by (intro word_of_nat_less_iff [THEN iffD2, THEN iffI] iffI)
       (auto simp: word_of_nat_less_iff take_bit_nat_eq_self)
  show ?case
  proof (cases "i < m")
    case True
    have "wf_w n (WBin ''add'' (WVar t) WTick)" using Suc.prems by (simp add: BINOPS_def)
    from eval_w_ok [OF this Suc.prems(2)] obtain v s1 where
      s1: "eval_w (WBin ''add'' (WVar t) WTick) s = Some (v, s1)" "mst_ok n s1" by blast
    have "(of_nat i :: 64 word) \<noteq> - 1" using small True by auto
    moreover have "\<exists>s'. tick_loop fuel (of_nat (Suc i)) m t (s1\<lparr>locals := (locals s1)(t \<mapsto> v)\<rparr>) = Some s' \<and> mst_ok n s'"
      using Suc.prems True s1(2) by (intro Suc.IH mst_ok_update) auto
    ultimately show ?thesis using True small s1(1) by (simp add: add.commute del: eval_w.simps)
  next
    case False
    with small Suc.prems show ?thesis by simp
  qed
qed simp

lemma mod_value_ok:
  assumes "wf_w n e" and "mst_ok n s" and "2 \<le> k"
  shows "\<exists>m s'. mod_value k e s = Some (m, s') \<and> m < k \<and> mst_ok n s'"
  using eval_w_ok [OF assms(1,2)] assms(3) by (auto simp: mod_value_def)

text \<open>Nested statements keep the state well formed and end, given six units of fuel per loop.\<close>

lemma exec_nested_ok:
  "wf_s n x \<Longrightarrow> mst_ok n s \<Longrightarrow> 5 < fuel \<Longrightarrow> \<exists>s'. exec_s fuel x s = Some s' \<and> mst_ok n s'"
  "list_all (wf_s n) xs \<Longrightarrow> mst_ok n s \<Longrightarrow> 5 < fuel \<Longrightarrow> \<exists>s'. exec_ss fuel xs s = Some s' \<and> mst_ok n s'"
  "list_all (list_all (wf_s n)) arms \<Longrightarrow> list_all (wf_s n) dflt \<Longrightarrow> mst_ok n s \<Longrightarrow> 5 < fuel \<Longrightarrow>
     \<exists>s'. exec_arm fuel m arms dflt s = Some s' \<and> mst_ok n s'"
proof (induction fuel x s and fuel xs s and fuel m arms dflt s rule: exec_s_exec_ss_exec_arm.induct)
  case (2 fuel t e s)
  then obtain u where "locals s t = Some u" by (auto simp: mst_ok_def)
  moreover obtain v s1 where "eval_w e s = Some (v, s1)" "mst_ok n s1"
    using 2 eval_w_ok [of n e s] by auto
  ultimately show ?case by (auto intro: mst_ok_update)
next
  case (3 fuel a b s)
  then obtain i s1 where 1: "eval_w a s = Some (i, s1)" "mst_ok n s1" using eval_w_ok [of n a s] by auto
  with 3 obtain v s2 where "eval_w b s1 = Some (v, s2)" "mst_ok n s2" using eval_w_ok [of n b s1] by auto
  with 1 show ?case by (auto simp: mst_ok_def)
next
  case (4 fuel k c e th el s)
  then obtain m s1 where "mod_value k e s = Some (m, s1)" "mst_ok n s1"
    using mod_value_ok [of n e s k] by auto
  with 4 show ?case by (cases "m = c") auto
next
  case (5 fuel k e arms dflt s)
  then obtain m s1 where "mod_value k e s = Some (m, s1)" "mst_ok n s1"
    using mod_value_ok [of n e s k] by auto
  with 5 show ?case by auto
next
  case (6 fuel i m t s)
  then show ?case using tick_loop_ok [of t n s 0 m fuel] by auto
next
  case (8 fuel x xs s)
  then obtain s1 where "exec_s fuel x s = Some s1" "mst_ok n s1" by auto
  with 8 show ?case by auto
qed auto

lemma exec_top_ok:
  "wf_top n ss n' \<Longrightarrow> mst_ok n s \<Longrightarrow> 5 < fuel \<Longrightarrow> \<exists>s'. exec_ss fuel ss s = Some s' \<and> mst_ok n' s'"
proof (induction ss arbitrary: n s)
  case (Cons x ss)
  have nested: ?case if "wf_s n x" "wf_top n ss n'"
    using exec_nested_ok(1) [OF that(1) Cons.prems(2,3)] Cons.IH [OF that(2) _ Cons.prems(3)] by auto
  show ?case
  proof (cases x)
    case (SDecl k e)
    with Cons.prems have e: "k = n" "wf_w n e" "wf_top (Suc n) ss n'" by auto
    from eval_w_ok [OF e(2) Cons.prems(2)] obtain v s1 where s1: "eval_w e s = Some (v, s1)" "mst_ok n s1" by blast
    then have "mst_ok (Suc n) (s1\<lparr>locals := (locals s1)(n \<mapsto> v)\<rparr>)" by (auto simp: mst_ok_def less_Suc_eq)
    from Cons.IH [OF e(3) this Cons.prems(3)] show ?thesis using SDecl e(1) s1(1) by simp
  qed (use Cons.prems nested in auto)
qed simp

lemma digest_wf: "0 < n \<Longrightarrow> wf_w n (digest_exp n)"
proof -
  assume n: "0 < n"
  have "wf_w n (foldl (\<lambda>acc k. WBin ''add'' acc (WVar k)) e ks)" if "wf_w n e" "\<forall>k \<in> set ks. k < n" for e ks
    using that by (induction ks arbitrary: e) (auto simp: BINOPS_def)
  from this [of "WVar 0" "[1..<n]"] n show ?thesis by (simp add: digest_exp_def)
qed


section \<open>The generator only builds well-scoped programs\<close>

lemma wp_wexpr_leaf [wp_intro]:
  assumes "\<And>e t. wf_w (nvars s) e \<Longrightarrow> Q e (s\<lparr>tape := t\<rparr>)"
  shows "wp wexpr_leaf Q s"
  unfolding wexpr_leaf_def by (intro wp_intro) (auto intro!: assms)

lemma wp_wexpr [wp_intro]:
  "(\<And>e t. wf_w (nvars s) e \<Longrightarrow> Q e (s\<lparr>tape := t\<rparr>)) \<Longrightarrow> wp (wexpr d) Q s"
proof (induction "3 - d" arbitrary: d s Q rule: less_induct)
  case less
  have sub: "wp (wexpr (Suc d)) Q s"
    if "\<not> 3 \<le> d" "\<And>e t. wf_w (nvars s) e \<Longrightarrow> Q e (s\<lparr>tape := t\<rparr>)" for Q s
    by (rule less.hyps) (use that in auto)
  show ?case
    by (subst wexpr.simps, intro wp_intro sub)
       (use less.prems in \<open>simp_all add: UNOPS_def BINOPS_def\<close>)
qed

definition nested_rel :: "mcgen \<Rightarrow> wstmt list list \<Rightarrow> mcgen \<Rightarrow> bool" where
  "nested_rel s xs s' \<longleftrightarrow> nvars s' = nvars s \<and> list_all (list_all (wf_s (nvars s))) xs"

lemma nested_rel_block:
  assumes "loop_step (stmt d) (\<lambda>s. 0 < nvars s) nested_rel" and "0 < nvars s"
    and Q: "\<And>ss s'. nvars s' = nvars s \<Longrightarrow> list_all (wf_s (nvars s)) ss \<Longrightarrow> Q ss s'"
  shows "wp (block d) Q s"
proof -
  have cat: "list_all (wf_s n) (concat xs)" if "list_all (list_all (wf_s n)) xs" for n xs
    using that by (induction xs) auto
  show ?thesis
    by (subst block.simps, intro wp_bindI wp_randrange)
       (auto simp: nested_rel_def assms(2) intro!: Q cat wp_mono [OF loop_step.repeat_ok [OF assms(1)]])
qed

lemma nested_rel_arms:
  assumes "\<And>s Q. 0 < nvars s \<Longrightarrow> (\<And>ss s'. nvars s' = nvars s \<Longrightarrow> list_all (wf_s (nvars s)) ss \<Longrightarrow> Q ss s') \<Longrightarrow> wp m Q s"
  shows "0 < nvars s \<Longrightarrow>
    (\<And>xs s'. nvars s' = nvars s \<Longrightarrow> length xs = k \<Longrightarrow> list_all (list_all (wf_s (nvars s))) xs \<Longrightarrow> Q xs s') \<Longrightarrow>
    wp (repeat_m k m) Q s"
proof (induction k arbitrary: s Q)
  case (Suc k)
  show ?case
    unfolding repeat_m.simps
    by (intro wp_bindI assms Suc.prems(1) Suc.IH wp_retI Suc.prems(2)) (use Suc.prems(1) in auto)
qed simp

lemma stmt_loop: "0 < d \<Longrightarrow> loop_step (stmt d) (\<lambda>s. 0 < nvars s) nested_rel"
proof (induction "3 - d" arbitrary: d rule: less_induct)
  case less
  show ?case
  proof
    fix s :: mcgen assume inv: "0 < nvars s"
    have block: "wp (block (Suc d)) Q s"
      if "d < 3" "0 < nvars s" "\<And>ss s'. nvars s' = nvars s \<Longrightarrow> list_all (wf_s (nvars s)) ss \<Longrightarrow> Q ss s'" for Q s
      by (rule nested_rel_block [OF less.hyps]) (use that in auto)
    have arms: "wp (repeat_m k (block (Suc d))) Q s"
      if "d < 3" "0 < nvars s"
        "\<And>xs s'. nvars s' = nvars s \<Longrightarrow> length xs = k \<Longrightarrow> list_all (list_all (wf_s (nvars s))) xs \<Longrightarrow> Q xs s'" for Q s k
      by (rule nested_rel_arms) (use that in \<open>auto intro: block\<close>)
    show "wp (stmt d) (\<lambda>x s'. 0 < nvars s' \<and> nested_rel s [x] s') s"
      by (subst stmt.simps, intro wp_intro block arms)
         (use inv less.prems in \<open>auto simp: nested_rel_def BINOPS_def\<close>)
  qed (auto simp: nested_rel_def)
qed

interpretation nested_loop: loop_step "stmt (Suc d)" "\<lambda>s. 0 < nvars s" nested_rel for d
  by (rule stmt_loop) simp

lemmas wp_block = nested_rel_block [OF nested_loop.loop_step_axioms]

definition body_rel :: "mcgen \<Rightarrow> wstmt list list \<Rightarrow> mcgen \<Rightarrow> bool" where
  "body_rel s xs s' \<longleftrightarrow> wf_top (nvars s) (concat xs) (nvars s')"

lemma wp_stmt_top:
  assumes inv: "0 < nvars s"
  shows "wp (stmt 0) (\<lambda>x s'. 0 < nvars s' \<and> body_rel s [x] s') s"
proof -
  have arms: "wp (repeat_m k (block (Suc 0))) Q s"
    if "0 < nvars s"
      "\<And>xs s'. nvars s' = nvars s \<Longrightarrow> length xs = k \<Longrightarrow> list_all (list_all (wf_s (nvars s))) xs \<Longrightarrow> Q xs s'" for Q s k
    by (rule nested_rel_arms) (use that in \<open>auto intro: wp_block\<close>)
  show ?thesis
    by (subst stmt.simps, intro wp_intro wp_block arms) (use inv in \<open>auto simp: body_rel_def BINOPS_def\<close>)
qed

interpretation body_loop: loop_step "stmt 0" "\<lambda>s. 0 < nvars s" body_rel
proof
  fix s :: mcgen assume "0 < nvars s"
  then show "wp (stmt 0) (\<lambda>x s'. 0 < nvars s' \<and> body_rel s [x] s') s" by (rule wp_stmt_top)
qed (auto simp: body_rel_def wf_top_append)

lemma gen_body_ok:
  "\<exists>ss s. gen_body (new_mcgen t) = Inr (ss, s) \<and> wf_top 0 ss (nvars s) \<and> 0 < nvars s"
proof -
  let ?s = "(new_mcgen t)\<lparr>nvars := 1\<rparr>"
  have rep: "wp (repeat_m n (stmt 0)) (\<lambda>xs s'. wf_top 0 (SDecl 0 WTick # concat xs) (nvars s') \<and> 0 < nvars s') s"
    if "nvars s = 1" for n s
    by (rule wp_mono [OF body_loop.repeat_ok]) (use that in \<open>auto simp: body_rel_def\<close>)
  have "wp gen_body (\<lambda>ss s'. wf_top 0 ss (nvars s') \<and> 0 < nvars s') (new_mcgen t)"
    unfolding gen_body_def by (intro wp_bindI wp_modifyI wp_randrange) (auto intro!: wp_mono [OF rep])
  then show ?thesis by (auto simp: wp_iff)
qed


section \<open>Properties\<close>

text \<open>
  C25. whatever the draws are, \<open>mcgen\<close> prints a program (no exception while generating), and the
  program it prints is trap-free and ends: running the generated body yields a digest.
\<close>

theorem mcgen_programs_trap_free:
  "\<exists>ss s digest. gen_body (new_mcgen t) = Inr (ss, s) \<and>
     mcgen_program t = Inr (mcgen_PRELUDE @ nl @ ''export fn harness() -> u64 {'' @ nl @
       join nl (concat (map (render_s 1) ss) @ [''    return dig('' @ render_w (digest_exp (nvars s)) @ '');'']) @
       nl @ ''}'' @ nl) \<and>
     run_harness 6 ss (nvars s) = Some digest"
proof -
  obtain ss s where g: "gen_body (new_mcgen t) = Inr (ss, s)" "wf_top 0 ss (nvars s)" "0 < nvars s"
    using gen_body_ok by blast
  have "mst_ok 0 init_mst" by (simp add: mst_ok_def init_mst_def)
  from exec_top_ok [OF g(2) this, of 6] obtain m where m: "exec_ss 6 ss init_mst = Some m" "mst_ok (nvars s) m"
    by auto
  from eval_w_ok [OF digest_wf [OF g(3)] m(2)] obtain v where "map_option fst (eval_w (digest_exp (nvars s)) m) = Some v"
    by auto
  with g(1) m(1) show ?thesis by (auto simp: mcgen_program_def run_harness_def)
qed

end
