(* ===== verification/Mcgen_Move.thy ===== *)
theory Mcgen_Move
  imports Py_Random "HOL-Library.AList"
begin

text \<open>
  The generator of move-resource programs, \<open>tools/toolchain/mcgen_move.py\<close>. The methods of \<open>Gen\<close>
  append statements; here each appended statement is a value of \<open>mstmt\<close>, the printed line is its
  rendering, and the second half of the theory runs the very same statement lists: variables own
  resource identities, \<open>relabel\<close> moves an identity from one variable to another, \<open>defer\<close> pushes a
  release of one variable, and every return runs the releases pushed so far. Nothing makes these
  runs succeed by construction: a list that defers nothing, defers the wrong variable, or reads a
  moved variable leaks or traps. The theorem shows that the generated ones do neither.
\<close>

section \<open>Programs\<close>

text \<open>What \<open>u64()\<close> prints: the flag, a number, or the flag modulo a constant.\<close>

datatype fexp = FFlag | FNum nat | FMod nat

text \<open>The resource variables \<open>a0\<close>, \<open>a1\<close>, and so on, and \<open>r0\<close>, \<open>r1\<close> and so on.\<close>

datatype rvar = AVar nat | RVar nat

text \<open>
  The statements: \<open>let v = make_res()\<close>, \<open>let v = relabel(w)\<close>, \<open>defer free_res(v)\<close>,
  \<open>let qn = fallible(e)?\<close>, \<open>if (flag % k) == c { \<dots> }\<close>, \<open>return ok(e)\<close>, \<open>return err(.Bad)\<close>.
\<close>

datatype mstmt =
    SMake rvar
  | SRelabel rvar rvar
  | SDefer rvar
  | SQ nat fexp
  | SIf nat nat "mstmt list"
  | SOk fexp
  | SErr

definition move_PRELUDE :: string where
  "move_PRELUDE =
    concat (map (\<lambda>l. l @ nl)
     [''// Generated by tools/toolchain/mcgen_move.py '' @ em_dash @ '' do not edit; regenerate from the seed.'',
      ''move struct TestRes { id: u64 }'',
      ''global live_count: u64;'',
      ''global next_id: u64;'',
      ''fn make_res() -> TestRes {'',
      ''    live_count = live_count + 1;'',
      ''    next_id = next_id + 1;'',
      ''    return .{ .id = next_id };'',
      ''}'',
      ''fn free_res(r: TestRes) -> void {'',
      ''    live_count = live_count - 1; // checked: a double release underflows and traps'',
      ''    unsafe { forget_unchecked(r); }'',
      ''}'',
      ''fn relabel(r: TestRes) -> TestRes { return r; } // pure move transfer (live_count unchanged)'',
      ''fn live() -> u64 { return live_count; }'',
      ''enum Fault { Bad, Other }'',
      ''// A fallible step: its `?` in an inner function early-returns the error, so the deferred frees'',
      ''// already in scope must still fire on that error edge.'',
      ''fn fallible(flag: u64) -> Result<u64, Fault> {'',
      ''    if (flag % 4) == 0 { return err(.Bad); }'',
      ''    if (flag % 4) == 1 { return err(.Other); }'',
      ''    return ok(flag);'',
      ''}''])"


section \<open>Rendering\<close>

fun render_f :: "fexp \<Rightarrow> string" where
  "render_f FFlag = ''flag''"
| "render_f (FNum n) = str_nat n"
| "render_f (FMod k) = ''(flag % '' @ str_nat k @ '')''"

fun render_var :: "rvar \<Rightarrow> string" where
  "render_var (AVar j) = ''a'' @ str_nat j"
| "render_var (RVar j) = ''r'' @ str_nat j"

fun render_line :: "nat \<Rightarrow> mstmt \<Rightarrow> string list" where
  "render_line ind (SMake v) = [pad ind @ ''let '' @ render_var v @ '': TestRes = make_res();'']"
| "render_line ind (SRelabel v w) =
     [pad ind @ ''let '' @ render_var v @ '': TestRes = relabel('' @ render_var w @ '');'']"
| "render_line ind (SDefer v) = [pad ind @ ''defer free_res('' @ render_var v @ '');'']"
| "render_line ind (SQ n e) =
     [pad ind @ ''let q'' @ str_nat n @ '': u64 = fallible('' @ render_f e @ '')?;'']"
| "render_line ind (SIf k c b) =
     [pad ind @ ''if (flag % '' @ str_nat k @ '') == '' @ str_nat c @ '' {'']
     @ concat (map (render_line (ind + 1)) b) @ [pad ind @ ''}'']"
| "render_line ind (SOk e) = [pad ind @ ''return ok('' @ render_f e @ '');'']"
| "render_line ind SErr = [pad ind @ ''return err(.Bad);'']"

definition render_inner :: "nat \<Rightarrow> mstmt list \<Rightarrow> string" where
  "render_inner idx f =
     join nl ([''fn inner_'' @ str_nat idx @ ''(flag: u64) -> Result<u64, Fault> {'']
       @ concat (map (render_line 1) f) @ [''}''])"

definition render_harness :: "nat list \<Rightarrow> string" where
  "render_harness offs =
     join nl ([''export fn harness() -> u64 {'', ''    var bad: u64 = 0;'', ''    var i: u64 = 0;'',
               ''    while i < 8 {'']
       @ concat (map (\<lambda>(i, o').
           [''        switch inner_'' @ str_nat i @ ''(i + '' @ str_nat o' @ '') {'',
            ''            ok(v) => {}'', ''            err(f) => {}'', ''        }'',
            ''        if live() != 0 { bad = bad + 1; }'']) (enumerate 0 offs))
       @ [''        i = i + 1;'', ''    }'', ''    return bad;'', ''}''])"


section \<open>Generation\<close>

record mvgen = rng_state +
  qcount :: nat

type_synonym 'a vgen = "(mvgen, 'a) prog"

definition gen_u64 :: "fexp vgen" where
  "gen_u64 =
     bind py_random (\<lambda>r.
       if r < flt_0_4 then ret FFlag
       else if r < flt_0_7 then bind (randrange 0 100) (\<lambda>n. ret (FNum n))
       else bind (choice [2, 3, 4]) (\<lambda>k. ret (FMod k)))"

text \<open>\<open>control_tail\<close>: the statements it appends to \<open>out\<close>, nested ones inside their \<open>if\<close>.\<close>

function control_tail :: "nat \<Rightarrow> mstmt list vgen" where
  "control_tail depth =
     bind (flip flt_0_5) (\<lambda>f.
     bind (if f then
             bind (modify (\<lambda>s. s\<lparr>qcount := qcount s + 1\<rparr>)) (\<lambda>_.
             bind (gets qcount) (\<lambda>n. bind gen_u64 (\<lambda>e. ret [SQ n e])))
           else ret []) (\<lambda>q.
     bind (if depth < 2 then
             bind (flip flt_0_6) (\<lambda>b.
               if b then
                 bind (choice [2, 3]) (\<lambda>k.
                 bind (randrange 0 k) (\<lambda>c.
                 bind py_random (\<lambda>r.
                 bind (if r < flt_0_4 then bind gen_u64 (\<lambda>e. ret [SOk e])
                       else if r < flt_0_6 then ret [SErr]
                       else control_tail (Suc depth)) (\<lambda>body.
                   ret [SIf k c body]))))
               else ret [])
           else ret []) (\<lambda>br.
     bind gen_u64 (\<lambda>e. ret (q @ br @ [SOk e])))))"
  by pat_completeness auto
termination
  by (relation "measure (\<lambda>d. 2 - d)") auto

declare control_tail.simps [simp del]

text \<open>One round of the loop of \<open>inner\<close>: the lines for resource \<open>j\<close>.\<close>

definition res_stmts :: "nat \<Rightarrow> bool \<Rightarrow> mstmt list" where
  "res_stmts j relabelled =
     (if relabelled then [SMake (AVar j), SRelabel (RVar j) (AVar j), SDefer (RVar j)]
      else [SMake (RVar j), SDefer (RVar j)])"

definition gen_res :: "nat \<Rightarrow> mstmt list vgen" where
  "gen_res j = bind (flip flt_0_5) (\<lambda>b. ret (res_stmts j b))"

definition gen_inner :: "mstmt list vgen" where
  "gen_inner =
     bind (modify (\<lambda>s. s\<lparr>qcount := 0\<rparr>)) (\<lambda>_.
     bind (randrange 1 4) (\<lambda>nres.
     bind (map_m gen_res [0..<nres]) (\<lambda>rs.
     bind (control_tail 0) (\<lambda>t. ret (concat rs @ t)))))"

text \<open>The functions and, per function, the offset its calls add to the loop counter.\<close>

definition move_gen :: "(mstmt list list \<times> nat list) vgen" where
  "move_gen =
     bind (randrange 2 5) (\<lambda>n.
     bind (repeat_m n gen_inner) (\<lambda>fs.
     bind (repeat_m n (randrange 0 5)) (\<lambda>offs. ret (fs, offs))))"

definition render_program :: "mstmt list list \<Rightarrow> nat list \<Rightarrow> string" where
  "render_program fs offs =
     join (nl @ nl)
       ([move_PRELUDE] @ map (\<lambda>(i, f). render_inner i f) (enumerate 0 fs) @ [render_harness offs]) @ nl"

definition move_program :: "nat list \<Rightarrow> string result" where
  "move_program t =
     rbind (move_gen \<lparr>tape = t, qcount = 0\<rparr>) (\<lambda>((fs, offs), _). Inr (render_program fs offs))"


section \<open>Running the generated functions\<close>

datatype outcome = Ok nat | Err

text \<open>
  The globals of the prelude and, for the statements of the theorems, the identities released so far
  in order. All additions are checked 64-bit additions and a release of a count of zero underflows
  the checked subtraction; a trap is \<open>None\<close>.
\<close>

record heap =
  live_count :: nat
  next_id :: nat
  released :: "nat list"

definition add64 :: "nat \<Rightarrow> nat \<Rightarrow> nat option" where
  "add64 a b = (if a + b < 2 ^ 64 then Some (a + b) else None)"

definition make_res :: "heap \<Rightarrow> (nat \<times> heap) option" where
  "make_res h =
     Option.bind (add64 (live_count h) 1) (\<lambda>c.
     Option.bind (add64 (next_id h) 1) (\<lambda>n. Some (n, h\<lparr>live_count := c, next_id := n\<rparr>)))"

definition free_res :: "nat \<Rightarrow> heap \<Rightarrow> heap option" where
  "free_res r h =
     (if live_count h = 0 then None
      else Some (h\<lparr>live_count := live_count h - 1, released := released h @ [r]\<rparr>))"

definition fallible :: "nat \<Rightarrow> outcome" where
  "fallible flag = (if flag mod 4 = 0 then Err else if flag mod 4 = 1 then Err else Ok flag)"

fun eval_f :: "nat \<Rightarrow> fexp \<Rightarrow> nat option" where
  "eval_f flag FFlag = Some flag"
| "eval_f flag (FNum n) = Some n"
| "eval_f flag (FMod k) = (if k = 0 then None else Some (flag mod k))"

text \<open>
  A call's frame: the identity each variable owns at the moment (a moved or released variable owns
  none) and the stack of deferred releases, the latest first.
\<close>

record frame =
  mem :: heap
  owned :: "(rvar \<times> nat) list"
  cleanups :: "rvar list"

definition own :: "rvar \<Rightarrow> nat \<Rightarrow> frame \<Rightarrow> frame option" where
  "own v r fr = (if v \<in> fst ` set (owned fr) then None else Some (fr\<lparr>owned := (v, r) # owned fr\<rparr>))"

text \<open>The use of a resource variable as an argument moves it: it owns nothing afterwards.\<close>

definition consume :: "rvar \<Rightarrow> frame \<Rightarrow> (nat \<times> frame) option" where
  "consume v fr = map_option (\<lambda>r. (r, fr\<lparr>owned := AList.delete v (owned fr)\<rparr>)) (map_of (owned fr) v)"

fun run_cleanups :: "rvar list \<Rightarrow> frame \<Rightarrow> frame option" where
  "run_cleanups [] fr = Some fr"
| "run_cleanups (v # vs) fr =
     Option.bind (consume v fr) (\<lambda>(r, fr').
     Option.bind (free_res r (mem fr')) (\<lambda>h. run_cleanups vs (fr'\<lparr>mem := h\<rparr>)))"

datatype flow = Next | Return outcome

text \<open>
  A block that ends without a return runs the releases deferred in it; one that returns leaves them
  on top of the stack of the block around it, and the function's exit runs them all.
\<close>

fun run_stmt :: "nat \<Rightarrow> mstmt \<Rightarrow> frame \<Rightarrow> (flow \<times> frame) option"
  and run_block :: "nat \<Rightarrow> mstmt list \<Rightarrow> frame \<Rightarrow> (flow \<times> frame) option" where
  "run_stmt flag (SMake v) fr =
     Option.bind (make_res (mem fr)) (\<lambda>(r, h). map_option (Pair Next) (own v r (fr\<lparr>mem := h\<rparr>)))"
| "run_stmt flag (SRelabel v w) fr =
     Option.bind (consume w fr) (\<lambda>(r, fr'). map_option (Pair Next) (own v r fr'))"
| "run_stmt flag (SDefer v) fr = Some (Next, fr\<lparr>cleanups := v # cleanups fr\<rparr>)"
| "run_stmt flag (SQ n e) fr =
     map_option (\<lambda>x. (case fallible x of Err \<Rightarrow> Return Err | Ok _ \<Rightarrow> Next, fr)) (eval_f flag e)"
| "run_stmt flag (SIf k c b) fr =
     (if k = 0 then None
      else if flag mod k = c then
        (case run_block flag b (fr\<lparr>cleanups := []\<rparr>) of
          None \<Rightarrow> None
        | Some (Next, fr') \<Rightarrow>
            map_option (\<lambda>fr''. (Next, fr''\<lparr>cleanups := cleanups fr\<rparr>)) (run_cleanups (cleanups fr') fr')
        | Some (Return r, fr') \<Rightarrow> Some (Return r, fr'\<lparr>cleanups := cleanups fr' @ cleanups fr\<rparr>))
      else Some (Next, fr))"
| "run_stmt flag (SOk e) fr = map_option (\<lambda>x. (Return (Ok x), fr)) (eval_f flag e)"
| "run_stmt flag SErr fr = Some (Return Err, fr)"
| "run_block flag [] fr = Some (Next, fr)"
| "run_block flag (s # ss) fr =
     (case run_stmt flag s fr of
       None \<Rightarrow> None
     | Some (Next, fr') \<Rightarrow> run_block flag ss fr'
     | Some (Return r, fr') \<Rightarrow> Some (Return r, fr'))"

text \<open>A call: the body must return, and the return runs the stack of deferred releases.\<close>

definition call_inner :: "mstmt list \<Rightarrow> nat \<Rightarrow> heap \<Rightarrow> (outcome \<times> heap) option" where
  "call_inner body flag h =
     (case run_block flag body \<lparr>mem = h, owned = [], cleanups = []\<rparr> of
       Some (Return r, fr) \<Rightarrow> map_option (\<lambda>fr'. (r, mem fr')) (run_cleanups (cleanups fr) fr)
     | _ \<Rightarrow> None)"

text \<open>One iteration of the loop of \<open>harness\<close> and the loop, with its counter of leaks \<open>bad\<close>.\<close>

fun run_calls :: "(mstmt list \<times> nat) list \<Rightarrow> nat \<Rightarrow> nat \<times> heap \<Rightarrow> (nat \<times> heap) option" where
  "run_calls [] i st = Some st"
| "run_calls ((f, k) # cs) i (bad, h) =
     Option.bind (add64 i k) (\<lambda>flag.
     Option.bind (call_inner f flag h) (\<lambda>(_, h').
     Option.bind (if live_count h' \<noteq> 0 then add64 bad 1 else Some bad) (\<lambda>bad'.
       run_calls cs i (bad', h'))))"

function harness_loop :: "(mstmt list \<times> nat) list \<Rightarrow> nat \<Rightarrow> nat \<times> heap \<Rightarrow> (nat \<times> heap) option" where
  "harness_loop cs i st =
     (if i < 8 then Option.bind (run_calls cs i st) (harness_loop cs (i + 1)) else Some st)"
  by pat_completeness auto
termination
  by (relation "measure (\<lambda>(cs, i, st). 8 - i)") auto

declare harness_loop.simps [simp del]

definition run_move_harness :: "mstmt list list \<Rightarrow> nat list \<Rightarrow> (nat \<times> heap) option" where
  "run_move_harness fs offs =
     harness_loop (zip fs offs) 0 (0, \<lparr>live_count = 0, next_id = 0, released = []\<rparr>)"

text \<open>The number of resources a function makes.\<close>

definition allocs :: "mstmt list \<Rightarrow> nat" where
  "allocs f = length (filter (\<lambda>s. case s of SMake _ \<Rightarrow> True | _ \<Rightarrow> False) f)"


section \<open>What goes wrong in wrong functions\<close>

text \<open>
  The faults the fuzzer is after show in these runs: a function without its \<open>defer\<close> leaves the count
  raised, one that defers the variable it has moved from, or the same release twice, traps.
\<close>

lemma missing_defer_leaks:
  assumes "live_count h + 1 < 2 ^ 64" and "next_id h + 1 < 2 ^ 64"
  shows "call_inner [SMake v, SOk FFlag] flag h =
     Some (Ok flag, h\<lparr>live_count := live_count h + 1, next_id := next_id h + 1\<rparr>)"
  using assms by (simp add: call_inner_def make_res_def add64_def own_def)

lemma deferred_moved_variable_traps:
  "v \<noteq> w \<Longrightarrow> call_inner [SMake v, SRelabel w v, SDefer v, SErr] flag h = None"
  by (cases "make_res h") (auto simp: call_inner_def own_def consume_def)

lemma double_defer_traps: "call_inner [SMake v, SDefer v, SDefer v, SErr] flag h = None"
  by (cases "make_res h") (auto simp: call_inner_def own_def consume_def free_res_def)


section \<open>What the functions do to the heap\<close>

text \<open>A control tail returns on every path, tests no division by zero and touches no resource.\<close>

fun fexp_ok :: "fexp \<Rightarrow> bool" where
  "fexp_ok (FMod k) \<longleftrightarrow> 2 \<le> k"
| "fexp_ok _ \<longleftrightarrow> True"

fun ctl_ok :: "mstmt list \<Rightarrow> bool" where
  "ctl_ok (SOk e # ss) \<longleftrightarrow> fexp_ok e \<and> ss = []"
| "ctl_ok (SErr # ss) \<longleftrightarrow> ss = []"
| "ctl_ok (SQ n e # ss) \<longleftrightarrow> fexp_ok e \<and> ctl_ok ss"
| "ctl_ok (SIf k c b # ss) \<longleftrightarrow> 2 \<le> k \<and> ctl_ok b \<and> ctl_ok ss"
| "ctl_ok _ \<longleftrightarrow> False"

lemma eval_f_ok: "fexp_ok e \<Longrightarrow> \<exists>x. eval_f flag e = Some x"
  by (cases e) auto

lemma exec_ctl: "ctl_ok ss \<Longrightarrow> \<exists>r. run_block flag ss fr = Some (Return r, fr)"
proof (induction ss arbitrary: fr rule: ctl_ok.induct)
  case (1 e ss)
  then show ?case using eval_f_ok [of e flag] by auto
next
  case (3 n e ss)
  then have "fexp_ok e" by simp
  then obtain x where "eval_f flag e = Some x" using eval_f_ok [of e flag] by blast
  with 3 show ?case by (cases "fallible x") auto
next
  case (4 k c b ss)
  then obtain r where b: "run_block flag b (fr\<lparr>cleanups := []\<rparr>) = Some (Return r, fr\<lparr>cleanups := []\<rparr>)"
    by auto
  show ?case using 4 b by (cases "flag mod k = c") auto
qed auto

lemma ctl_allocs: "ctl_ok ss \<Longrightarrow> allocs ss = 0"
  by (induction ss rule: ctl_ok.induct) (auto simp: allocs_def)

lemma exec_append:
  "run_block flag xs fr = Some (Next, fr') \<Longrightarrow> run_block flag (xs @ ys) fr = run_block flag ys fr'"
  by (induction xs arbitrary: fr) (auto split: option.splits flow.splits)

text \<open>
  The frame after the lines of \<open>k\<close> resources, in a call that starts with no live resource: variable
  \<open>rj\<close> owns the \<open>j\<close>-th identity made in this call, and its release is the \<open>j\<close>-th pushed.
\<close>

definition frame_at :: "nat \<Rightarrow> nat list \<Rightarrow> nat \<Rightarrow> frame" where
  "frame_at n rel k =
     \<lparr>mem = \<lparr>live_count = k, next_id = n + k, released = rel\<rparr>,
      owned = rev (map (\<lambda>j. (RVar j, n + j + 1)) [0..<k]), cleanups = rev (map RVar [0..<k])\<rparr>"

lemma AVar_free: "AList.delete (AVar i) (rev (map (\<lambda>j. (RVar j, f j)) [0..<k])) = rev (map (\<lambda>j. (RVar j, f j)) [0..<k])"
  by (auto simp: AList.delete_eq filter_id_conv)

lemma exec_res:
  "n + k + 1 < 2 ^ 64 \<Longrightarrow>
   run_block flag (res_stmts k b) (frame_at n rel k) = Some (Next, frame_at n rel (Suc k))"
  by (cases b)
     (auto simp: res_stmts_def frame_at_def make_res_def add64_def own_def consume_def AVar_free)

fun res_blocks :: "nat \<Rightarrow> mstmt list list \<Rightarrow> bool" where
  "res_blocks k [] \<longleftrightarrow> True"
| "res_blocks k (r # rs) \<longleftrightarrow> (\<exists>b. r = res_stmts k b) \<and> res_blocks (Suc k) rs"

lemma res_blocks_allocs: "res_blocks k rs \<Longrightarrow> allocs (concat rs) = length rs"
  by (induction rs arbitrary: k) (auto simp: allocs_def res_stmts_def)

lemma exec_resources:
  "res_blocks k rs \<Longrightarrow> n + k + length rs < 2 ^ 64 \<Longrightarrow>
   run_block flag (concat rs) (frame_at n rel k) = Some (Next, frame_at n rel (k + length rs))"
proof (induction rs arbitrary: k)
  case (Cons r rs)
  then obtain b where r: "r = res_stmts k b" by auto
  have "run_block flag r (frame_at n rel k) = Some (Next, frame_at n rel (Suc k))"
    unfolding r by (rule exec_res) (use Cons.prems(2) in simp)
  from exec_append [OF this] Cons show ?case by simp
qed simp

lemma run_cleanups_all:
  "distinct (map fst ow) \<Longrightarrow> length ow \<le> c \<Longrightarrow>
   run_cleanups (map fst ow) \<lparr>mem = \<lparr>live_count = c, next_id = n, released = rel\<rparr>, owned = ow, cleanups = cl\<rparr>
     = Some \<lparr>mem = \<lparr>live_count = c - length ow, next_id = n, released = rel @ map snd ow\<rparr>, owned = [], cleanups = cl\<rparr>"
proof (induction ow arbitrary: c rel)
  case (Cons p ow)
  obtain v r where p: "p = (v, r)" by (cases p)
  have del: "AList.delete v ow = ow" using Cons.prems(1) p by (force simp: AList.delete_eq filter_id_conv)
  obtain d where c: "c = Suc d" using Cons.prems(2) by (cases c) auto
  show ?case using Cons.IH [of d "rel @ [r]"] Cons.prems by (simp add: p c consume_def del free_res_def)
qed simp

text \<open>A call releases the resources it made, each once, the latest first.\<close>

definition inner_ok :: "mstmt list \<Rightarrow> bool" where
  "inner_ok f \<longleftrightarrow>
     (\<exists>rs t. f = concat rs @ t \<and> res_blocks 0 rs \<and> ctl_ok t \<and> 1 \<le> length rs \<and> length rs \<le> 3)"

lemma inner_okI:
  "res_blocks 0 rs \<Longrightarrow> ctl_ok t \<Longrightarrow> 1 \<le> length rs \<Longrightarrow> length rs < 4 \<Longrightarrow> inner_ok (concat rs @ t)"
  unfolding inner_ok_def by (intro exI [of _ rs] exI [of _ t]) auto

lemma inner_ok_allocs: "inner_ok f \<Longrightarrow> 1 \<le> allocs f \<and> allocs f \<le> 3"
proof -
  assume "inner_ok f"
  then obtain rs t where "f = concat rs @ t" "res_blocks 0 rs" "ctl_ok t" "1 \<le> length rs" "length rs \<le> 3"
    unfolding inner_ok_def by blast
  with res_blocks_allocs [of 0 rs] ctl_allocs [of t] show ?thesis by (simp add: allocs_def)
qed

lemma call_inner_lifo:
  assumes "inner_ok f" and "n + allocs f < 2 ^ 64"
  shows "\<exists>r. call_inner f flag \<lparr>live_count = 0, next_id = n, released = rel\<rparr> =
     Some (r, \<lparr>live_count = 0, next_id = n + allocs f, released = rel @ rev [n + 1..<n + allocs f + 1]\<rparr>)"
proof -
  obtain rs t where f: "f = concat rs @ t" and rs: "res_blocks 0 rs" and t: "ctl_ok t"
    using assms(1) unfolding inner_ok_def by blast
  have k: "allocs f = length rs" using res_blocks_allocs [OF rs] ctl_allocs [OF t] by (simp add: f allocs_def)
  let ?k = "length rs"
  let ?ow = "rev (map (\<lambda>j. (RVar j, n + j + 1)) [0..<?k])"
  have "run_block flag (concat rs) (frame_at n rel 0) = Some (Next, frame_at n rel ?k)"
    using exec_resources [OF rs, of n flag rel] assms(2) k by simp
  from exec_append [OF this, of t] exec_ctl [OF t, of flag "frame_at n rel ?k"]
  obtain r where "run_block flag f (frame_at n rel 0) = Some (Return r, frame_at n rel ?k)" by (auto simp: f)
  moreover have "map fst ?ow = cleanups (frame_at n rel ?k)" by (simp add: frame_at_def rev_map)
  moreover have "map snd ?ow = rev [n + 1..<n + ?k + 1]"
  proof -
    have "map (\<lambda>j. n + j + 1) [0..<?k] = [n + 1..<n + ?k + 1]"
      by (rule nth_equalityI) (auto simp del: upt_Suc)
    moreover have "map snd ?ow = rev (map (\<lambda>j. n + j + 1) [0..<?k])" by (simp add: rev_map o_def)
    ultimately show ?thesis by (simp only:)
  qed
  moreover have "distinct (map fst ?ow)" by (simp add: rev_map o_def distinct_map inj_on_def)
  ultimately show ?thesis
    using run_cleanups_all [of ?ow ?k "n + ?k" rel "cleanups (frame_at n rel ?k)"] k
    by (auto simp: call_inner_def frame_at_def simp del: upt_Suc)
qed


section \<open>The harness\<close>

text \<open>Between calls nothing is live and every identity made so far has been released exactly once.\<close>

definition heap_ok :: "heap \<Rightarrow> bool" where
  "heap_ok h \<longleftrightarrow> live_count h = 0 \<and> distinct (released h) \<and> set (released h) = {1..next_id h}"

lemma call_inner_ok:
  assumes "inner_ok f" "heap_ok h" "next_id h + allocs f < 2 ^ 64"
  shows "\<exists>r h'. call_inner f flag h = Some (r, h') \<and> heap_ok h' \<and> next_id h' = next_id h + allocs f"
proof -
  obtain n rel where h: "h = \<lparr>live_count = 0, next_id = n, released = rel\<rparr>"
    using assms(2) by (cases h) (simp add: heap_ok_def)
  from call_inner_lifo [OF assms(1), of n flag rel] assms(2,3) show ?thesis
    by (auto simp: h heap_ok_def simp del: upt_Suc)
qed

abbreviation total_allocs :: "(mstmt list \<times> nat) list \<Rightarrow> nat" where
  "total_allocs cs \<equiv> sum_list (map (\<lambda>(f, _). allocs f) cs)"

lemma run_calls_ok:
  "\<forall>(f, k) \<in> set cs. inner_ok f \<and> k < 5 \<Longrightarrow> i < 8 \<Longrightarrow> heap_ok h \<Longrightarrow>
   next_id h + total_allocs cs < 2 ^ 64 \<Longrightarrow>
   \<exists>h'. run_calls cs i (bad, h) = Some (bad, h') \<and> heap_ok h' \<and> next_id h' = next_id h + total_allocs cs"
proof (induction cs arbitrary: h)
  case (Cons c cs)
  obtain f k where c: "c = (f, k)" by (cases c)
  with Cons.prems have f: "inner_ok f" and flag: "add64 i k = Some (i + k)"
    by (auto simp: add64_def)
  obtain r h1 where h1: "call_inner f (i + k) h = Some (r, h1)" "heap_ok h1" "next_id h1 = next_id h + allocs f"
    using call_inner_ok [OF f Cons.prems(3), of "i + k"] Cons.prems(4) by (auto simp: c)
  with Cons.IH [of h1] Cons.prems show ?case by (auto simp: c flag heap_ok_def)
qed simp

lemma harness_loop_ok:
  assumes "\<forall>(f, k) \<in> set cs. inner_ok f \<and> k < 5"
  shows "heap_ok h \<Longrightarrow> i \<le> 8 \<Longrightarrow> next_id h + (8 - i) * total_allocs cs < 2 ^ 64 \<Longrightarrow>
   \<exists>h'. harness_loop cs i (bad, h) = Some (bad, h') \<and> heap_ok h' \<and>
     next_id h' = next_id h + (8 - i) * total_allocs cs"
proof (induction "8 - i" arbitrary: i h)
  case 0
  then show ?case by (simp add: harness_loop.simps)
next
  case (Suc m)
  then have i: "i < 8" and m: "8 - i = Suc m" "8 - (i + 1) = m" by auto
  obtain h1 where h1: "run_calls cs i (bad, h) = Some (bad, h1)" "heap_ok h1"
      "next_id h1 = next_id h + total_allocs cs"
    using run_calls_ok [OF assms i Suc.prems(1), of bad] Suc.prems(3) by (auto simp: m)
  obtain h2 where "harness_loop cs (i + 1) (bad, h1) = Some (bad, h2)" "heap_ok h2"
      "next_id h2 = next_id h1 + m * total_allocs cs"
    using Suc.hyps(1) [of "i + 1" h1] Suc.prems(3) h1 i m by (auto simp: algebra_simps)
  with h1 i show ?case by (subst harness_loop.simps) (simp add: m)
qed


section \<open>Generation never raises\<close>

lemma wp_gen_u64_ok [wp_intro]: "(\<And>e s'. fexp_ok e \<Longrightarrow> Q e s') \<Longrightarrow> wp gen_u64 Q s"
  unfolding gen_u64_def by (intro wp_intro) auto

lemma wp_control_tail: "(\<And>t s'. ctl_ok t \<Longrightarrow> Q t s') \<Longrightarrow> wp (control_tail d) Q s"
proof (induction "2 - d" arbitrary: d s Q rule: less_induct)
  case less
  have sub: "wp (control_tail (Suc d)) Q s" if "d < 2" "\<And>t s'. ctl_ok t \<Longrightarrow> Q t s'" for Q s
    by (rule less.hyps) (use that in auto)
  show ?case
    by (subst control_tail.simps, intro wp_bindI wp_retI wp_getsI wp_modifyI wp_ifI wp_flip wp_choice
          wp_randrange wp_py_random wp_gen_u64_ok sub)
       (use less.prems in auto)
qed

lemma wp_resources:
  "(\<And>rs s'. res_blocks k rs \<Longrightarrow> length rs = m \<Longrightarrow> Q rs s') \<Longrightarrow> wp (map_m gen_res [k..<k + m]) Q s"
proof (induction m arbitrary: k s Q)
  case (Suc m)
  have k: "[k..<k + Suc m] = k # [Suc k..<Suc k + m]" by (subst upt_conv_Cons) auto
  have ih: "wp (map_m gen_res [Suc k..<Suc k + m]) (\<lambda>rs. Q (res_stmts k b # rs)) s'" for b s'
    by (rule Suc.IH, rule Suc.prems) auto
  have "wp (gen_res k) (\<lambda>r s'. wp (map_m gen_res [Suc k..<Suc k + m]) (\<lambda>rs. Q (r # rs)) s') s"
    unfolding gen_res_def [of k] by (intro wp_bindI wp_flip wp_retI ih)
  then show ?case by (simp only: k map_m.simps wp_bind wp_ret)
qed simp

definition inners_rel :: "mvgen \<Rightarrow> mstmt list list \<Rightarrow> mvgen \<Rightarrow> bool" where
  "inners_rel s fs s' \<longleftrightarrow> list_all inner_ok fs"

interpretation inner_loop: loop_step gen_inner "\<lambda>_. True" inners_rel
proof
  fix s :: mvgen
  have res: "wp (map_m gen_res [0..<m]) Q s'" if "\<And>rs s'. res_blocks 0 rs \<Longrightarrow> length rs = m \<Longrightarrow> Q rs s'" for m Q s'
    using wp_resources [of 0 m Q s'] that by simp
  show "wp gen_inner (\<lambda>x s'. True \<and> inners_rel s [x] s') s"
    unfolding gen_inner_def
    by (intro wp_bindI wp_modifyI wp_randrange res wp_control_tail wp_retI)
       (use inner_okI in \<open>auto simp: inners_rel_def\<close>)
qed (auto simp: inners_rel_def)

definition offsets_rel :: "mvgen \<Rightarrow> nat list \<Rightarrow> mvgen \<Rightarrow> bool" where
  "offsets_rel s os s' \<longleftrightarrow> list_all (\<lambda>k. k < 5) os"

interpretation offset_draws: loop_step "randrange 0 5" "\<lambda>_. True" offsets_rel
  by unfold_locales (auto simp: offsets_rel_def intro!: wp_randrange)

lemma move_gen_ok:
  "\<exists>fs offs s'. move_gen s = Inr ((fs, offs), s') \<and> length fs = length offs \<and> 2 \<le> length fs \<and>
     length fs \<le> 4 \<and> list_all inner_ok fs \<and> list_all (\<lambda>k. k < 5) offs"
proof -
  have fns: "wp (repeat_m n gen_inner) (\<lambda>fs s'. length fs = n \<and> list_all inner_ok fs) s" for n s
    using inner_loop.repeat_ok [where n = n and s = s] repeat_m_length [of n gen_inner s]
    by (auto simp: wp_iff inners_rel_def)
  have offs: "wp (repeat_m n (randrange 0 5)) (\<lambda>os s'. length os = n \<and> list_all (\<lambda>k. k < 5) os) s" for n and s :: mvgen
    using offset_draws.repeat_ok [where n = n and s = s] repeat_m_length [of n "randrange 0 5" s]
    by (auto simp: wp_iff offsets_rel_def)
  have "wp move_gen (\<lambda>(fs, offs) s'. length fs = length offs \<and> 2 \<le> length fs \<and> length fs \<le> 4 \<and>
     list_all inner_ok fs \<and> list_all (\<lambda>k. k < 5) offs) s"
    unfolding move_gen_def
    by (intro wp_bindI wp_randrange wp_mono [OF fns] wp_mono [OF offs] wp_retI) auto
  then show ?thesis by (auto simp: wp_iff)
qed

lemma sum_allocs_le: "list_all inner_ok fs \<Longrightarrow> sum_list (map allocs fs) \<le> 3 * length fs"
  by (induction fs) (auto dest: inner_ok_allocs)

lemma zip_allocs: "length fs = length offs \<Longrightarrow> total_allocs (zip fs offs) = sum_list (map allocs fs)"
  by (induction fs offs rule: list_induct2) auto

lemma run_move_harness_ok:
  assumes "length fs = length offs" "length fs \<le> 4" "list_all inner_ok fs" "list_all (\<lambda>k. k < 5) offs"
  shows "\<exists>h. run_move_harness fs offs = Some (0, h) \<and> heap_ok h \<and> next_id h = 8 * sum_list (map allocs fs)"
proof -
  have "\<forall>(f, k) \<in> set (zip fs offs). inner_ok f \<and> k < 5"
    using assms(3,4) by (auto simp: list_all_iff dest: set_zip_leftD set_zip_rightD)
  from harness_loop_ok [OF this, of "\<lparr>live_count = 0, next_id = 0, released = []\<rparr>" 0 0]
    sum_allocs_le [OF assms(3)] assms(2) zip_allocs [OF assms(1)]
  show ?thesis by (auto simp: run_move_harness_def heap_ok_def)
qed

section \<open>Properties\<close>

text \<open>
  C26. Whatever the draws are, the move-resource generator prints a program, and running its
  \<open>harness()\<close> with every variable owning the identity it was given, moves at \<open>relabel\<close>, and the
  deferred releases run at each of the function's exits (the early returns, the error edges of \<open>?\<close>
  and the final return) never traps and returns 0: the functions make at least one resource each,
  the eight rounds make eight times as many as the functions do, and the identities released are all
  the identities made, each released exactly once.
\<close>

theorem move_programs_leak_free:
  "\<exists>fs offs s h. move_gen \<lparr>tape = t, qcount = 0\<rparr> = Inr ((fs, offs), s) \<and> fs \<noteq> [] \<and>
     length fs = length offs \<and> 0 \<notin> allocs ` set fs \<and> move_program t = Inr (render_program fs offs) \<and>
     run_move_harness fs offs = Some (0, h) \<and> live_count h = 0 \<and>
     next_id h = 8 * sum_list (map allocs fs) \<and>
     distinct (released h) \<and> set (released h) = {1..next_id h}"
proof -
  obtain fs offs s where g: "move_gen \<lparr>tape = t, qcount = 0\<rparr> = Inr ((fs, offs), s)"
    "length fs = length offs" "2 \<le> length fs" "length fs \<le> 4" "list_all inner_ok fs"
    "list_all (\<lambda>k. k < 5) offs" using move_gen_ok [of "\<lparr>tape = t, qcount = 0\<rparr>"] by blast
  have "0 \<notin> allocs ` set fs" using g(5) by (force simp: list_all_iff dest: inner_ok_allocs)
  with g run_move_harness_ok [OF g(2,4,5,6)] show ?thesis by (auto simp: move_program_def heap_ok_def)
qed

end
