(* ===== verification/Py_Strings.thy ===== *)
theory Py_Strings
  imports Prelude
begin

text \<open>
  The string methods of Python that the tools use: \<open>split\<close> on a separator character, \<open>strip\<close>,
  \<open>fnmatch\<close> and the right-anchored \<open>PurePosixPath.match\<close>. Strings are lists of characters; white
  space is the ASCII white space of \<open>str.isspace\<close>.
\<close>

section \<open>Splitting and joining\<close>

fun split_on :: "char \<Rightarrow> string \<Rightarrow> string list" where
  "split_on c [] = [[]]"
| "split_on c (x # xs) =
     (if x = c then [] # split_on c xs
      else (case split_on c xs of [] \<Rightarrow> [[x]] | y # ys \<Rightarrow> (x # y) # ys))"

lemma split_on_nonempty [simp]: "split_on c s \<noteq> []"
  by (induction s) (auto split: list.splits)

lemma split_on_ConsE: obtains y ys where "split_on c s = y # ys"
  using split_on_nonempty [of c s] by (cases "split_on c s") auto

lemma join_split_on [simp]: "join [c] (split_on c s) = s"
proof (induction s)
  case (Cons x xs)
  obtain y ys where y: "split_on c xs = y # ys" by (rule split_on_ConsE)
  with Cons show ?case by (cases ys) auto
qed simp

lemma split_on_parts: "p \<in> set (split_on c s) \<Longrightarrow> c \<notin> set p"
proof (induction s arbitrary: p)
  case (Cons x xs)
  obtain y ys where y: "split_on c xs = y # ys" by (rule split_on_ConsE)
  with Cons show ?case by (auto split: if_splits)
qed simp

lemma split_on_no_sep [simp]: "c \<notin> set s \<Longrightarrow> split_on c s = [s]"
  by (induction s) auto

lemma split_on_append_sep: "c \<notin> set x \<Longrightarrow> split_on c (x @ c # s) = x # split_on c s"
  by (induction x) auto

lemma split_on_join:
  "xs \<noteq> [] \<Longrightarrow> (\<And>x. x \<in> set xs \<Longrightarrow> c \<notin> set x) \<Longrightarrow> split_on c (join [c] xs) = xs"
  by (induction "[c]" xs rule: join.induct) (auto simp: split_on_append_sep)


section \<open>White space\<close>

definition is_space :: "char \<Rightarrow> bool" where
  "is_space c \<longleftrightarrow>
     (let n = (of_char c :: nat) in n = 32 \<or> (9 \<le> n \<and> n \<le> 13) \<or> (28 \<le> n \<and> n \<le> 31))"

definition lstrip :: "string \<Rightarrow> string" where
  "lstrip s = dropWhile is_space s"

definition rstrip :: "string \<Rightarrow> string" where
  "rstrip s = rev (dropWhile is_space (rev s))"

definition strip :: "string \<Rightarrow> string" where
  "strip s = rstrip (lstrip s)"

lemma lstrip_append: "list_all is_space ws \<Longrightarrow> lstrip (ws @ s) = lstrip s"
  by (induction ws) (auto simp: lstrip_def)

lemma rstrip_append: "list_all is_space ws \<Longrightarrow> rstrip (s @ ws) = rstrip s"
  using lstrip_append [of "rev ws" "rev s"] by (simp add: rstrip_def lstrip_def list_all_iff)

lemma lstrip_decomp: obtains ws where "s = ws @ lstrip s" and "list_all is_space ws"
  by (metis lstrip_def list_all_iff set_takeWhileD takeWhile_dropWhile_id)

lemma rstrip_decomp: obtains ws where "s = rstrip s @ ws" and "list_all is_space ws"
  using lstrip_decomp [of "rev s"]
  by (metis list_all_rev lstrip_def rev_append rev_rev_ident rstrip_def)

text \<open>A text that neither starts nor ends with white space is what \<open>strip\<close> leaves alone.\<close>

definition trimmed :: "string \<Rightarrow> bool" where
  "trimmed s \<longleftrightarrow> s = [] \<or> (\<not> is_space (hd s) \<and> \<not> is_space (last s))"

lemma strip_padded:
  assumes "trimmed s" and "list_all is_space a" and "list_all is_space b"
  shows "strip (a @ s @ b) = s"
proof (cases "s = []")
  case True
  have "lstrip (a @ b) = []" using assms by (auto simp: lstrip_def dropWhile_eq_Nil_conv list_all_iff)
  with True show ?thesis by (simp add: strip_def rstrip_def)
next
  case False
  then have "lstrip (s @ b) = s @ b" using assms(1) by (cases s) (auto simp: lstrip_def trimmed_def)
  moreover have "rstrip s = s"
    using False assms(1) by (cases "rev s") (auto simp: rstrip_def trimmed_def)
  ultimately show ?thesis by (simp add: strip_def lstrip_append [OF assms(2)] rstrip_append [OF assms(3)])
qed

lemma trimmed_strip: "trimmed (strip s)"
proof -
  let ?l = "lstrip s"
  have hd: "\<not> is_space (hd ?l)" if "?l \<noteq> []"
    using that unfolding lstrip_def by (rule hd_dropWhile)
  have last: "\<not> is_space (last (rstrip x))" if "rstrip x \<noteq> []" for x
    using that unfolding rstrip_def by (metis hd_dropWhile last_rev rev.simps(1) rev_rev_ident)
  obtain ws where ws: "?l = rstrip ?l @ ws" by (rule rstrip_decomp)
  show ?thesis
  proof (cases "rstrip ?l = []")
    case False
    then have "hd (rstrip ?l) = hd ?l" and "?l \<noteq> []" using ws by (metis hd_append2, auto)
    with False hd last show ?thesis by (simp add: trimmed_def strip_def)
  qed (simp add: trimmed_def strip_def)
qed


text \<open>\<open>str.splitlines\<close>: no line for an empty tail, and a carriage return with its line feed is one break.\<close>

definition is_line_break :: "char \<Rightarrow> bool" where
  "is_line_break c \<longleftrightarrow> (of_char c :: nat) \<in> {10, 11, 12, 13, 28, 29, 30}"

fun splitlines_acc :: "string \<Rightarrow> string \<Rightarrow> string list" where
  "splitlines_acc acc [] = (if acc = [] then [] else [rev acc])"
| "splitlines_acc acc [c] = (if is_line_break c then [rev acc] else [rev (c # acc)])"
| "splitlines_acc acc (c # d # cs) =
     (if c = CHR 0x0D \<and> d = CHR 0x0A then rev acc # splitlines_acc [] cs
      else if is_line_break c then rev acc # splitlines_acc [] (d # cs)
      else splitlines_acc (c # acc) (d # cs))"

definition splitlines :: "string \<Rightarrow> string list" where
  "splitlines s = splitlines_acc [] s"


section \<open>Word characters, numbers, representations\<close>

text \<open>\<open>[A-Za-z_]\<close> and \<open>\w\<close>, on ASCII.\<close>

definition ident_start :: "char \<Rightarrow> bool" where
  "ident_start c \<longleftrightarrow>
     (let n = (of_char c :: nat) in (65 \<le> n \<and> n \<le> 90) \<or> (97 \<le> n \<and> n \<le> 122) \<or> n = 95)"

definition is_word :: "char \<Rightarrow> bool" where
  "is_word c \<longleftrightarrow> ident_start c \<or> is_digit c"

definition lower_char :: "char \<Rightarrow> char" where
  "lower_char c = (let n = (of_char c :: nat) in if 65 \<le> n \<and> n \<le> 90 then char_of (n + 32) else c)"

definition lower :: "string \<Rightarrow> string" where
  "lower s = map lower_char s"

text \<open>
  \<open>int(s)\<close>: white space around, an optional sign, digits with single underscores between them.
  \<open>None\<close> is a \<open>ValueError\<close>.
\<close>

fun int_digits :: "nat \<Rightarrow> bool \<Rightarrow> string \<Rightarrow> nat option" where
  "int_digits acc last_digit [] = (if last_digit then Some acc else None)"
| "int_digits acc last_digit (c # cs) =
     (if is_digit c then int_digits (10 * acc + (of_char c - 48)) True cs
      else if c = CHR ''_'' \<and> last_digit then int_digits acc False cs
      else None)"

definition py_int :: "string \<Rightarrow> int option" where
  "py_int s =
     (case strip s of
        [] \<Rightarrow> None
      | c # cs \<Rightarrow>
          if c = CHR ''-'' then map_option (\<lambda>n. - int n) (int_digits 0 False cs)
          else if c = CHR ''+'' then map_option int (int_digits 0 False cs)
          else map_option int (int_digits 0 False (c # cs)))"

text \<open>\<open>repr\<close> of a string and of bytes.\<close>

definition hex_up :: "nat \<Rightarrow> char" where
  "hex_up d = (if d < 10 then char_of (48 + d) else char_of (55 + d))"

definition hex_low :: "nat \<Rightarrow> char" where
  "hex_low d = (if d < 10 then char_of (48 + d) else char_of (87 + d))"

definition repr_char :: "char \<Rightarrow> char \<Rightarrow> string" where
  "repr_char q c =
     (let n = (of_char c :: nat) in
      if c = q \<or> c = CHR 0x5C then [CHR 0x5C, c]
      else if n = 9 then [CHR 0x5C, CHR ''t''] else if n = 10 then [CHR 0x5C, CHR ''n'']
      else if n = 13 then [CHR 0x5C, CHR ''r'']
      else if n < 32 \<or> 127 \<le> n then [CHR 0x5C, CHR ''x'', hex_low (n div 16), hex_low (n mod 16)]
      else [c])"

definition repr_str :: "string \<Rightarrow> string" where
  "repr_str s =
     (let q = (if CHR 0x27 \<in> set s \<and> CHR 0x22 \<notin> set s then CHR 0x22 else CHR 0x27) in
      [q] @ concat (map (repr_char q) s) @ [q])"

definition repr_bytes :: "string \<Rightarrow> string" where
  "repr_bytes s = ''b'' @ repr_str s"


section \<open>Glob patterns\<close>

text \<open>
  \<open>fnmatch.fnmatchcase\<close> for patterns of literals, \<open>?\<close> and \<open>*\<close>; no pattern of the tools has a
  character class. The star also matches \<open>/\<close>.
\<close>

function (sequential) fnmatchcase :: "string \<Rightarrow> string \<Rightarrow> bool" where
  "fnmatchcase s [] \<longleftrightarrow> s = []"
| "fnmatchcase s (p # ps) \<longleftrightarrow>
     (if p = CHR ''*'' then
        fnmatchcase s ps \<or> (case s of [] \<Rightarrow> False | _ # s' \<Rightarrow> fnmatchcase s' (p # ps))
      else (case s of [] \<Rightarrow> False | c # s' \<Rightarrow> (p = CHR ''?'' \<or> p = c) \<and> fnmatchcase s' ps))"
  by pat_completeness auto
termination
  by (relation "measure (\<lambda>(s, ps). length s + length ps)") auto

declare fnmatchcase.simps(2) [simp del]

definition literal :: "string \<Rightarrow> bool" where
  "literal p \<longleftrightarrow> CHR ''*'' \<notin> set p \<and> CHR ''?'' \<notin> set p"

lemma fnmatch_star: "fnmatchcase s (CHR ''*'' # ps) \<longleftrightarrow> (\<exists>a b. s = a @ b \<and> fnmatchcase b ps)"
proof (induction s)
  case Nil
  then show ?case by (simp add: fnmatchcase.simps)
next
  case (Cons c s)
  have "fnmatchcase (c # s) (CHR ''*'' # ps) \<longleftrightarrow> fnmatchcase (c # s) ps \<or> fnmatchcase s (CHR ''*'' # ps)"
    by (simp add: fnmatchcase.simps)
  with Cons show ?case by (auto simp: Cons_eq_append_conv)
qed

lemma fnmatch_literal_append:
  "literal l \<Longrightarrow> fnmatchcase s (l @ ps) \<longleftrightarrow> (\<exists>b. s = l @ b \<and> fnmatchcase b ps)"
proof (induction l arbitrary: s)
  case (Cons p l)
  then show ?case by (cases s) (auto simp: fnmatchcase.simps literal_def)
qed simp

lemma fnmatch_literal: "literal p \<Longrightarrow> fnmatchcase s p \<longleftrightarrow> s = p"
  using fnmatch_literal_append [of p s "[]"] by simp

text \<open>The shape of most patterns, \<open>prefix*suffix\<close>.\<close>

lemma fnmatch_prefix_suffix:
  assumes "literal l" and "literal r"
  shows "fnmatchcase s (l @ CHR ''*'' # r) \<longleftrightarrow> (\<exists>m. s = l @ m @ r)"
  using assms by (auto simp: fnmatch_literal_append fnmatch_star fnmatch_literal)


section \<open>Path patterns\<close>

text \<open>
  \<open>PurePosixPath(path).match(pattern)\<close> for a relative pattern: both are cut at the slashes, empty
  and \<open>.\<close> components are dropped, and the components of the pattern are matched against the last
  components of the path one by one. A component \<open>**\<close> is an ordinary glob and so matches exactly
  one component. The root of an absolute path is a component of its own.
\<close>

definition path_parts :: "string \<Rightarrow> string list" where
  "path_parts p =
     (if startswith p ''//'' \<and> \<not> startswith p ''///'' then [''//'']
      else if startswith p ''/'' then [''/''] else [])
     @ filter (\<lambda>c. c \<noteq> [] \<and> c \<noteq> ''.'') (split_on CHR ''/'' p)"

definition path_match :: "string \<Rightarrow> string \<Rightarrow> bool result" where
  "path_match path pattern =
     (let pat = path_parts pattern; parts = path_parts path in
      if pat = [] then Inl ValueError
      else if length parts < length pat then Inr False
      else Inr (list_all2 fnmatchcase (drop (length parts - length pat) parts) pat))"


section \<open>Character classes for evaluation\<close>

text \<open>Code equations by membership, which the kernel evaluates faster than comparisons of character codes.\<close>

definition upper_letters :: string where
  "upper_letters = ''ABCDEFGHIJKLMNOPQRSTUVWXYZ''"

definition lower_letters :: string where
  "lower_letters = ''abcdefghijklmnopqrstuvwxyz''"

lemma of_char_between:
  "b < 256 \<Longrightarrow> a \<le> (of_char c :: nat) \<and> (of_char c :: nat) \<le> b \<longleftrightarrow> c \<in> set (map char_of [a..<Suc b])"
  by (auto simp: image_iff Bex_def intro!: exI [of _ "of_char c :: nat"])

lemma of_char_one: "(of_char c :: nat) = n \<longleftrightarrow> n < 256 \<and> c = char_of n"
  by auto

lemma char_ranges:
  "map char_of [48..<Suc 57] = ''0123456789''"
  "map char_of [65..<Suc 90] = upper_letters"
  "map char_of [97..<Suc 122] = lower_letters"
  "map char_of [9..<Suc 13] = [CHR 0x09, CHR 0x0A, CHR 0x0B, CHR 0x0C, CHR 0x0D]"
  "map char_of [28..<Suc 31] = [CHR 0x1C, CHR 0x1D, CHR 0x1E, CHR 0x1F]"
  "char_of (32 :: nat) = CHR '' ''" "char_of (95 :: nat) = CHR ''_''"
  by code_simp+

lemmas between_ranges =
  of_char_between [of 57 48, unfolded char_ranges] of_char_between [of 90 65, unfolded char_ranges]
  of_char_between [of 122 97, unfolded char_ranges] of_char_between [of 13 9, unfolded char_ranges]
  of_char_between [of 31 28, unfolded char_ranges]

lemma is_digit_code [code]: "is_digit c \<longleftrightarrow> c \<in> set ''0123456789''"
  unfolding is_digit_def by (simp add: between_ranges)

lemma is_space_code [code]:
  "is_space c \<longleftrightarrow> c \<in> set [CHR '' '', CHR 0x09, CHR 0x0A, CHR 0x0B, CHR 0x0C, CHR 0x0D,
     CHR 0x1C, CHR 0x1D, CHR 0x1E, CHR 0x1F]"
  unfolding is_space_def Let_def by (simp add: between_ranges of_char_one char_ranges)

lemma ident_start_code [code]:
  "ident_start c \<longleftrightarrow> c \<in> set upper_letters \<or> c \<in> set lower_letters \<or> c = CHR ''_''"
  unfolding ident_start_def Let_def by (simp add: between_ranges of_char_one char_ranges)

lemma lower_table:
  "\<forall>c \<in> set upper_letters. char_of ((of_char c :: nat) + 32) = the (map_of (zip upper_letters lower_letters) c)"
  by code_simp

lemma lower_char_code [code]:
  "lower_char c = (case map_of (zip upper_letters lower_letters) c of Some d \<Rightarrow> d | None \<Rightarrow> c)"
proof (cases "c \<in> set upper_letters")
  case True
  have "dom (map_of (zip upper_letters lower_letters)) = set upper_letters"
    by (subst dom_map_of_zip) (simp_all add: upper_letters_def lower_letters_def)
  then obtain d where "map_of (zip upper_letters lower_letters) c = Some d" using True by (metis domD)
  then show ?thesis using True lower_table by (simp add: lower_char_def Let_def between_ranges)
next
  case False
  then have "map_of (zip upper_letters lower_letters) c = None"
    by (simp add: map_of_zip_is_None upper_letters_def lower_letters_def)
  then show ?thesis using False by (simp add: lower_char_def Let_def between_ranges)
qed

end
