(* ===== verification/Py_Sha256.thy ===== *)
theory Py_Sha256
  imports Prelude
begin

text \<open>
  \<open>hashlib.sha256(data).hexdigest()\<close>: SHA-256 (FIPS 180-4) on 32-bit words, and the hexadecimal
  rendering of the digest. Bytes are characters.
\<close>

definition sha_K :: "32 word list" where
  "sha_K =
    [1116352408, 1899447441, 3049323471, 3921009573, 961987163, 1508970993, 2453635748, 2870763221,
     3624381080, 310598401, 607225278, 1426881987, 1925078388, 2162078206, 2614888103, 3248222580,
     3835390401, 4022224774, 264347078, 604807628, 770255983, 1249150122, 1555081692, 1996064986,
     2554220882, 2821834349, 2952996808, 3210313671, 3336571891, 3584528711, 113926993, 338241895,
     666307205, 773529912, 1294757372, 1396182291, 1695183700, 1986661051, 2177026350, 2456956037,
     2730485921, 2820302411, 3259730800, 3345764771, 3516065817, 3600352804, 4094571909, 275423344,
     430227734, 506948616, 659060556, 883997877, 958139571, 1322822218, 1537002063, 1747873779,
     1955562222, 2024104815, 2227730452, 2361852424, 2428436474, 2756734187, 3204031479, 3329325298]"

definition sha_init :: "32 word list" where
  "sha_init =
    [1779033703, 3144134277, 1013904242, 2773480762, 1359893119, 2600822924, 528734635, 1541459225]"

text \<open>A message is followed by the byte 0x80, zeros, and its bit length in eight bytes.\<close>

definition byte_at :: "nat \<Rightarrow> int \<Rightarrow> char" where
  "byte_at k n = char_of (n div 256 ^ k mod 256)"

definition sha_pad :: "string \<Rightarrow> string" where
  "sha_pad m =
     (let n = length m in
      m @ [CHR 0x80] @ replicate ((119 - n mod 64) mod 64) (char_of (0 :: nat)) @
      map (\<lambda>k. byte_at k (8 * int n)) [7, 6, 5, 4, 3, 2, 1, 0])"

fun sha_words :: "string \<Rightarrow> 32 word list" where
  "sha_words (a # b # c # d # bs) =
     word_of_int (((of_char a * 256 + of_char b) * 256 + of_char c) * 256 + of_char d) # sha_words bs"
| "sha_words _ = []"

text \<open>The message schedule, newest word first: \<open>sha_extend n ws\<close> adds \<open>n\<close> words to the first sixteen.\<close>

fun sha_extend :: "nat \<Rightarrow> 32 word list \<Rightarrow> 32 word list" where
  "sha_extend 0 ws = ws"
| "sha_extend (Suc n) ws =
     (let w2 = ws ! 1; w7 = ws ! 6; w15 = ws ! 14; w16 = ws ! 15;
          s0 = word_rotr 7 w15 XOR word_rotr 18 w15 XOR drop_bit 3 w15;
          s1 = word_rotr 17 w2 XOR word_rotr 19 w2 XOR drop_bit 10 w2
      in sha_extend n ((w16 + s0 + w7 + s1) # ws))"

fun sha_round :: "32 word list \<Rightarrow> 32 word \<times> 32 word \<Rightarrow> 32 word list" where
  "sha_round [a, b, c, d, e, f, g, h] (k, w) =
     (let t1 = h + (word_rotr 6 e XOR word_rotr 11 e XOR word_rotr 25 e)
                 + ((e AND f) XOR (NOT e AND g)) + k + w;
          t2 = (word_rotr 2 a XOR word_rotr 13 a XOR word_rotr 22 a)
                 + ((a AND b) XOR (a AND c) XOR (b AND c))
      in [t1 + t2, a, b, c, d + t1, e, f, g])"
| "sha_round st _ = st"

definition sha_block :: "32 word list \<Rightarrow> 32 word list \<Rightarrow> 32 word list" where
  "sha_block h ws =
     map2 (+) h (foldl sha_round h (zip sha_K (rev (sha_extend 48 (rev ws)))))"

function sha_blocks :: "32 word list \<Rightarrow> 32 word list \<Rightarrow> 32 word list" where
  "sha_blocks h ws = (if ws = [] then h else sha_blocks (sha_block h (take 16 ws)) (drop 16 ws))"
  by pat_completeness auto
termination
  by (relation "measure (\<lambda>(h, ws). length ws)") auto

declare sha_blocks.simps [simp del]

definition hex_char :: "int \<Rightarrow> char" where
  "hex_char d = (if d < 10 then char_of (48 + nat d) else char_of (87 + nat d))"

fun hex_digits :: "nat \<Rightarrow> int \<Rightarrow> string" where
  "hex_digits 0 n = []"
| "hex_digits (Suc k) n = hex_digits k (n div 16) @ [hex_char (n mod 16)]"

definition sha256_bytes :: "string \<Rightarrow> string" where
  "sha256_bytes m = concat (map (\<lambda>w. hex_digits 8 (uint w)) (sha_blocks sha_init (sha_words (sha_pad m))))"


section \<open>A digest is sixty-four lower-case hexadecimal digits\<close>

definition is_hex :: "char \<Rightarrow> bool" where
  "is_hex c \<longleftrightarrow> (let n = (of_char c :: nat) in (48 \<le> n \<and> n \<le> 57) \<or> (97 \<le> n \<and> n \<le> 102))"

definition hex64 :: "string \<Rightarrow> bool" where
  "hex64 s \<longleftrightarrow> length s = 64 \<and> list_all is_hex s"

lemma is_hex_char: "0 \<le> d \<Longrightarrow> d < 16 \<Longrightarrow> is_hex (hex_char d)"
  by (auto simp: is_hex_def hex_char_def Let_def)

lemma hex_digits_ok: "length (hex_digits k n) = k" "list_all is_hex (hex_digits k n)"
  by (induction k arbitrary: n) (auto simp: is_hex_char)

lemma length_sha_round: "length (sha_round st kw) = length st"
  by (induction st kw rule: sha_round.induct) (auto simp: Let_def)

lemma length_sha_foldl: "length (foldl sha_round st kws) = length st"
  by (induction kws arbitrary: st) (auto simp: length_sha_round)

lemma length_sha_blocks: "length (sha_blocks h ws) = length h"
proof (induction h ws rule: sha_blocks.induct)
  case (1 h ws)
  then show ?case by (subst sha_blocks.simps) (simp add: sha_block_def length_sha_foldl)
qed

lemma hex64_concat: "length ws = 8 \<Longrightarrow> hex64 (concat (map (\<lambda>w. hex_digits 8 (f w)) ws))"
proof -
  have "length (concat (map (\<lambda>w. hex_digits 8 (f w)) ws)) = 8 * length ws" for ws
    by (induction ws) (auto simp: hex_digits_ok)
  moreover have "list_all is_hex (concat (map (\<lambda>w. hex_digits 8 (f w)) ws))" for ws
    by (induction ws) (auto simp: hex_digits_ok)
  ultimately show "length ws = 8 \<Longrightarrow> ?thesis" by (simp add: hex64_def)
qed

lemma hex64_sha256 [simp]: "hex64 (sha256_bytes m)"
  unfolding sha256_bytes_def by (rule hex64_concat) (simp add: length_sha_blocks sha_init_def)

text \<open>The padded message fills whole blocks.\<close>

lemma sha_pad_blocks: "64 dvd length (sha_pad m)"
proof -
  let ?n = "length m"
  have r: "?n mod 64 < 64" by simp
  have "(?n mod 64 + 9 + (119 - ?n mod 64) mod 64) mod 64 = 0"
  proof (cases "?n mod 64 \<le> 55")
    case True
    then have "(119 - ?n mod 64) mod 64 = 55 - ?n mod 64" by (simp add: le_mod_geq)
    with True show ?thesis by simp
  next
    case False
    then have "(119 - ?n mod 64) mod 64 = 119 - ?n mod 64" by simp
    with r False show ?thesis by simp
  qed
  then have "(?n + (9 + (119 - ?n mod 64) mod 64)) mod 64 = 0" by (metis add.assoc mod_add_left_eq)
  moreover have "length (sha_pad m) = ?n + (9 + (119 - ?n mod 64) mod 64)"
    by (simp add: sha_pad_def Let_def)
  ultimately show ?thesis by (simp only: mod_eq_0_iff_dvd)
qed

text \<open>The published digest of the empty message.\<close>

lemma sha256_empty:
  "sha256_bytes [] = ''e3b0c44298fc1c149afbf4c8996fb92427ae41e4649b934ca495991b7852b855''"
  by code_simp

end
