(* ===== verification/Mcmap_Verify.thy ===== *)
theory Mcmap_Verify
  imports Py_Strings Py_Sha256
begin

text \<open>
  The consumer of source maps and metadata sidecars, \<open>tools/toolchain/mcmap-verify.py\<close>: the bundle
  parser, the header requirements and \<open>verify\<close> with every rejection as a value. Files are a
  function from paths to their bytes; bytes are characters.
\<close>

section \<open>Errors\<close>

text \<open>One constructor for each \<open>raise VerifyError(\<dots>)\<close>, with the values its message shows.\<close>

datatype verify_error =
    CannotRead string
  | EmptyBundle
  | WrongMagic string string
  | NonAsciiHeader
  | MissingPayload
  | MissingHeader string
  | NotDigest string
  | HeaderMismatch string string string
  | NoInput
  | MapArtifactHeader
  | PayloadDigest string string
  | ArtifactDigest string string
  | MapArtifactDigest string string
  | SourceDigest string string


section \<open>Parsing a bundle\<close>

text \<open>
  \<open>bytes.splitlines(keepends=True)\<close>: a line ends with a line feed, a carriage return, or both; the
  pieces are the whole input.
\<close>

fun byte_lines_acc :: "string \<Rightarrow> string \<Rightarrow> string list" where
  "byte_lines_acc acc [] = (if acc = [] then [] else [rev acc])"
| "byte_lines_acc acc (c # cs) =
     (if c = CHR 0x0A then rev (c # acc) # byte_lines_acc [] cs
      else if c = CHR 0x0D then
        (case cs of
           [] \<Rightarrow> [rev (c # acc)]
         | d # ds \<Rightarrow>
             if d = CHR 0x0A then rev (d # c # acc) # byte_lines_acc [] ds
             else rev (c # acc) # byte_lines_acc [] cs)
      else byte_lines_acc (c # acc) cs)"

definition byte_lines :: "string \<Rightarrow> string list" where
  "byte_lines s = byte_lines_acc [] s"

definition is_eol :: "char \<Rightarrow> bool" where
  "is_eol c \<longleftrightarrow> c = CHR 0x0D \<or> c = CHR 0x0A"

definition rstrip_eol :: "string \<Rightarrow> string" where
  "rstrip_eol s = rev (dropWhile is_eol (rev s))"

definition is_ascii :: "string \<Rightarrow> bool" where
  "is_ascii s \<longleftrightarrow> list_all (\<lambda>c. (of_char c :: nat) < 128) s"

text \<open>\<open>body.split(b"=", 1)\<close> when an equals sign occurs.\<close>

definition split_eq :: "string \<Rightarrow> string \<times> string" where
  "split_eq body = (takeWhile (\<lambda>c. c \<noteq> CHR ''='') body, tl (dropWhile (\<lambda>c. c \<noteq> CHR ''='') body))"

text \<open>The header loop: it stops at the payload marker and returns the lines from there on.\<close>

fun header_loop ::
  "(string, string) dict \<Rightarrow> string list \<Rightarrow> verify_error + ((string, string) dict \<times> string list option)" where
  "header_loop hs [] = Inr (hs, None)"
| "header_loop hs (line # rest) =
     (if startswith line ''# columns:'' then Inr (hs, Some (line # rest))
      else if \<not> startswith line ''# '' then header_loop hs rest
      else
        (let body = rstrip_eol (drop 2 line) in
         if CHR ''='' \<notin> set body then header_loop hs rest
         else
           (let (key, val) = split_eq body in
            if is_ascii key \<and> is_ascii val then header_loop (dict_set hs key val) rest
            else Inl NonAsciiHeader)))"

definition parse_bundle :: "string \<Rightarrow> bool \<Rightarrow> string \<Rightarrow> verify_error + ((string, string) dict \<times> string)" where
  "parse_bundle data require_payload expected_magic =
     (case byte_lines data of
        [] \<Rightarrow> Inl EmptyBundle
      | first # rest \<Rightarrow>
          (let first_line = rstrip_eol first in
           if first_line \<noteq> expected_magic then
             Inl (WrongMagic expected_magic (if is_ascii first_line then first_line else ''<non-ascii>''))
           else
             rbind (header_loop [] (first # rest)) (\<lambda>(headers, payload_lines).
               case payload_lines of
                 None \<Rightarrow> if require_payload then Inl MissingPayload else Inr (headers, [])
               | Some ls \<Rightarrow> Inr (headers, concat ls))))"


section \<open>Requirements on headers\<close>

definition require_header :: "(string, string) dict \<Rightarrow> string \<Rightarrow> verify_error + string" where
  "require_header headers name =
     (case map_of headers name of None \<Rightarrow> Inl (MissingHeader name) | Some v \<Rightarrow> Inr v)"

text \<open>\<open>HEX64_RE.fullmatch(value)\<close> is \<^const>\<open>hex64\<close>.\<close>

definition require_sha256_header :: "(string, string) dict \<Rightarrow> string \<Rightarrow> verify_error + string" where
  "require_sha256_header headers name =
     rbind (require_header headers name) (\<lambda>v. if hex64 v then Inr v else Inl (NotDigest name))"

definition require_header_value :: "(string, string) dict \<Rightarrow> string \<Rightarrow> string \<Rightarrow> verify_error + unit" where
  "require_header_value headers name expected =
     rbind (require_header headers name) (\<lambda>actual.
       if actual \<noteq> expected then Inl (HeaderMismatch name actual expected) else Inr ())"


section \<open>Verification\<close>

record verify_args =
  va_map :: "string option"
  va_metadata :: "string option"
  va_artifact :: "string option"
  va_source :: "string option"
  va_source_map_artifact :: "string option"
  va_artifact_kind :: "string option"
  va_backend :: "string option"

type_synonym file_bytes = "string \<Rightarrow> string option"

definition read_file :: "file_bytes \<Rightarrow> string \<Rightarrow> verify_error + string" where
  "read_file fs path = (case fs path of None \<Rightarrow> Inl (CannotRead path) | Some d \<Rightarrow> Inr d)"

definition ensure :: "bool \<Rightarrow> verify_error \<Rightarrow> verify_error + unit" where
  "ensure b e = (if b then Inr () else Inl e)"

definition when_some :: "'a option \<Rightarrow> ('a \<Rightarrow> verify_error + unit) \<Rightarrow> verify_error + unit" where
  "when_some x f = (case x of None \<Rightarrow> Inr () | Some y \<Rightarrow> f y)"

fun require_all_sha256 :: "(string, string) dict \<Rightarrow> string list \<Rightarrow> verify_error + unit" where
  "require_all_sha256 headers [] = Inr ()"
| "require_all_sha256 headers (n # ns) =
     rbind (require_sha256_header headers n) (\<lambda>_. require_all_sha256 headers ns)"

definition source_map_headers :: "string list" where
  "source_map_headers =
     [''source_map_generated_artifact_sha256'', ''source_map_payload_sha256'', ''mir_facts_sha256'']"

text \<open>The branch for \<open>--map\<close>: kind, backend, the two artifact digests, the payload digest, the facts digest.\<close>

definition verify_map :: "(string, string) dict \<Rightarrow> string \<Rightarrow> string \<Rightarrow> verify_error + unit" where
  "verify_map headers payload artifact_digest =
     rbind (require_header_value headers ''artifact_kind'' ''c-source-map'') (\<lambda>_.
     rbind (require_header_value headers ''backend'' ''c'') (\<lambda>_.
     rbind (require_sha256_header headers ''source_map_generated_artifact_sha256'') (\<lambda>map_digest.
     rbind (ensure (map_digest = artifact_digest) MapArtifactHeader) (\<lambda>_.
     rbind (require_sha256_header headers ''source_map_payload_sha256'') (\<lambda>expected.
     rbind (ensure (sha256_bytes payload = expected) (PayloadDigest expected (sha256_bytes payload))) (\<lambda>_.
     rbind (require_sha256_header headers ''mir_facts_sha256'') (\<lambda>_. Inr ())))))))"

text \<open>The branch for \<open>--metadata\<close>: source-map digests come all together or not at all.\<close>

definition verify_metadata :: "(string, string) dict \<Rightarrow> verify_error + unit" where
  "verify_metadata headers =
     (if filter (\<lambda>n. map_of headers n \<noteq> None) source_map_headers \<noteq> []
      then require_all_sha256 headers source_map_headers else Inr ())"

definition verify_paired ::
  "file_bytes \<Rightarrow> string \<Rightarrow> (string \<Rightarrow> string \<Rightarrow> verify_error) \<Rightarrow> string \<Rightarrow> verify_error + unit" where
  "verify_paired fs expected err path =
     rbind (read_file fs path) (\<lambda>d. ensure (sha256_bytes d = expected) (err expected (sha256_bytes d)))"

definition verify :: "file_bytes \<Rightarrow> verify_args \<Rightarrow> verify_error + unit" where
  "verify fs a =
     (case (if va_map a \<noteq> None then va_map a else va_metadata a) of
        None \<Rightarrow> Inl NoInput
      | Some input_path \<Rightarrow>
          rbind (read_file fs input_path) (\<lambda>map_data.
          rbind (parse_bundle map_data (va_map a \<noteq> None)
            (if va_map a \<noteq> None then ''# mcmap v1'' else ''# mcmeta v1'')) (\<lambda>(headers, payload).
          rbind (require_sha256_header headers ''generated_artifact_sha256'') (\<lambda>artifact_digest.
          rbind (if va_map a \<noteq> None then verify_map headers payload artifact_digest
                 else verify_metadata headers) (\<lambda>_.
          rbind (when_some (va_artifact_kind a) (require_header_value headers ''artifact_kind'')) (\<lambda>_.
          rbind (when_some (va_backend a) (require_header_value headers ''backend'')) (\<lambda>_.
          rbind (when_some (va_artifact a)
            (verify_paired fs artifact_digest ArtifactDigest)) (\<lambda>_.
          rbind (when_some (va_source_map_artifact a) (\<lambda>p.
            rbind (require_sha256_header headers ''source_map_generated_artifact_sha256'') (\<lambda>d.
              verify_paired fs d MapArtifactDigest p))) (\<lambda>_.
          when_some (va_source a) (\<lambda>p.
            rbind (require_sha256_header headers ''source_sha256'') (\<lambda>d.
              verify_paired fs d SourceDigest p)))))))))))"

text \<open>\<open>main\<close>: the exit code.\<close>

definition verify_main :: "file_bytes \<Rightarrow> verify_args \<Rightarrow> int" where
  "verify_main fs a = (case verify fs a of Inl _ \<Rightarrow> 1 | Inr _ \<Rightarrow> 0)"

section \<open>The lines of a bundle\<close>

lemma concat_byte_lines_acc: "concat (byte_lines_acc acc s) = rev acc @ s"
proof (induction acc s rule: byte_lines_acc.induct)
  case (2 acc c cs)
  then show ?case by (cases cs) auto
qed simp

lemma concat_byte_lines [simp]: "concat (byte_lines s) = s"
  by (simp add: byte_lines_def concat_byte_lines_acc)

lemma header_loop_suffix: "header_loop hs ls = Inr (hs', Some ps) \<Longrightarrow> suffix ps ls"
  by (induction hs ls rule: header_loop.induct)
     (auto simp: Let_def suffix_Cons split: if_splits prod.splits)

text \<open>The payload is a tail of the file: nothing that follows the marker escapes the digest.\<close>

lemma parse_bundle_suffix:
  assumes "parse_bundle data r m = Inr (headers, payload)"
  shows "suffix payload data"
proof -
  obtain l ls where lines: "byte_lines data = l # ls"
    using assms by (cases "byte_lines data") (auto simp: parse_bundle_def)
  with assms obtain pl where hl: "header_loop [] (l # ls) = Inr (headers, pl)"
    and pl: "payload = (case pl of None \<Rightarrow> [] | Some ps \<Rightarrow> concat ps)"
    by (auto simp: parse_bundle_def Let_def rbind_Inr_iff simp del: header_loop.simps split: if_splits option.splits)
  have data: "data = concat (l # ls)" using lines concat_byte_lines [of data] by simp
  show ?thesis
  proof (cases pl)
    case (Some ps)
    with hl have "suffix ps (l # ls)" using header_loop_suffix by blast
    then obtain pre where "l # ls = pre @ ps" by (auto simp: suffix_def)
    then show ?thesis unfolding data pl Some suffix_def by (metis concat_append option.case(2))
  qed (simp add: pl)
qed

lemma parse_with_suffix:
  "parse_bundle data r m = Inr (hs, payload) \<and> suffix payload data \<and> Q \<longleftrightarrow>
   parse_bundle data r m = Inr (hs, payload) \<and> Q"
  using parse_bundle_suffix by blast

text \<open>A line without line ends in front of a line feed is one piece.\<close>

lemma byte_lines_line:
  assumes "list_all (\<lambda>c. \<not> is_eol c) l"
  shows "byte_lines (l @ nl @ rest) = (l @ nl) # byte_lines rest"
proof -
  have "byte_lines_acc acc (l @ nl @ rest) = (rev acc @ l @ nl) # byte_lines_acc [] rest" for acc
    using assms by (induction l arbitrary: acc) (auto simp: is_eol_def)
  then show ?thesis by (simp add: byte_lines_def)
qed

lemma rstrip_eol_line: "list_all (\<lambda>c. \<not> is_eol c) l \<Longrightarrow> rstrip_eol (l @ nl) = l"
  by (cases "rev l") (auto simp: rstrip_eol_def is_eol_def)


section \<open>Canonical bundles\<close>

text \<open>
  A bundle in the documented shape: the magic line, one \<open># key=value\<close> line per header, and the
  payload from its marker on.
\<close>

definition header_line :: "string \<times> string \<Rightarrow> string" where
  "header_line kv = ''# '' @ fst kv @ ''='' @ snd kv @ nl"

definition canonical_bundle :: "string \<Rightarrow> (string \<times> string) list \<Rightarrow> string \<Rightarrow> string" where
  "canonical_bundle magic hs payload = magic @ nl @ concat (map header_line hs) @ payload"

definition plain_text :: "string \<Rightarrow> bool" where
  "plain_text s \<longleftrightarrow> is_ascii s \<and> list_all (\<lambda>c. \<not> is_eol c) s"

definition header_ok :: "string \<times> string \<Rightarrow> bool" where
  "header_ok kv \<longleftrightarrow>
     plain_text (fst kv) \<and> plain_text (snd kv) \<and> CHR ''='' \<notin> set (fst kv) \<and> \<not> startswith (fst kv) ''columns:''"

definition payload_ok :: "string \<Rightarrow> bool" where
  "payload_ok p \<longleftrightarrow> startswith p ''# columns:''"

lemma takeWhile_key: "CHR ''='' \<notin> set k \<Longrightarrow> split_eq (k @ CHR ''='' # v) = (k, v)"
  by (induction k) (auto simp: split_eq_def)

lemma startswith_cons2: "startswith (a # b # s) (a # b # p) \<longleftrightarrow> startswith s p"
  by (simp add: startswith_def)

lemma key_not_marker:
  assumes "CHR ''='' \<notin> set k" and "\<not> startswith k ''columns:''"
  shows "\<not> startswith (k @ CHR ''='' # v) ''columns:''"
proof
  assume s: "startswith (k @ CHR ''='' # v) ''columns:''"
  show False
  proof (cases "8 \<le> length k")
    case True
    with s assms(2) show False by (simp add: startswith_def)
  next
    case False
    then have "CHR ''='' \<in> set (take 8 (k @ CHR ''='' # v))" by (cases "8 - length k") auto
    moreover have "length ''columns:'' = 8" by simp
    then have "take 8 (k @ CHR ''='' # v) = ''columns:''" using s by (simp only: startswith_def)
    ultimately have "CHR ''='' \<in> set ''columns:''" by metis
    then show False by simp
  qed
qed

lemma header_loop_line:
  assumes "header_ok kv" and "fst kv \<notin> fst ` set hs"
  shows "header_loop hs (header_line kv # rest) = header_loop (hs @ [kv]) rest"
proof -
  obtain k v where kv: "kv = (k, v)" by (cases kv)
  have ok: "is_ascii k" "is_ascii v" "CHR ''='' \<notin> set k" "\<not> startswith k ''columns:''"
    "list_all (\<lambda>c. \<not> is_eol c) (k @ CHR ''='' # v)"
    using assms(1) kv by (auto simp: header_ok_def plain_text_def is_eol_def)
  have line: "header_line kv = CHR ''#'' # CHR '' '' # (k @ CHR ''='' # v) @ nl"
    by (simp add: header_line_def kv)
  have "\<not> startswith (header_line kv) ''# columns:''"
    using key_not_marker [OF ok(3,4), of "v @ nl"] by (simp add: line startswith_cons2)
  moreover have "startswith (header_line kv) ''# ''" by (simp add: line startswith_def)
  moreover have "rstrip_eol (drop 2 (header_line kv)) = k @ CHR ''='' # v"
    using rstrip_eol_line [OF ok(5)] by (simp add: line)
  ultimately show ?thesis
    using ok assms(2) kv by (simp add: takeWhile_key dict_set_fresh Let_def)
qed

lemma header_loop_lines:
  "list_all header_ok kvs \<Longrightarrow> distinct (map fst (hs @ kvs)) \<Longrightarrow>
   header_loop hs (map header_line kvs @ rest) = header_loop (hs @ kvs) rest"
proof (induction kvs arbitrary: hs)
  case (Cons kv kvs)
  then have "header_loop hs (header_line kv # map header_line kvs @ rest) =
      header_loop (hs @ [kv]) (map header_line kvs @ rest)"
    by (intro header_loop_line) auto
  with Cons show ?case by (simp del: header_loop.simps)
qed simp

lemma header_line_eol: "header_ok kv \<Longrightarrow> \<exists>l. header_line kv = l @ nl \<and> list_all (\<lambda>c. \<not> is_eol c) l"
  by (rule exI [of _ "''# '' @ fst kv @ ''='' @ snd kv"])
     (auto simp: header_line_def header_ok_def plain_text_def is_eol_def)

lemma byte_lines_headers:
  "list_all header_ok kvs \<Longrightarrow>
   byte_lines (concat (map header_line kvs) @ p) = map header_line kvs @ byte_lines p"
proof (induction kvs)
  case (Cons kv kvs)
  then obtain l where "header_line kv = l @ nl" "list_all (\<lambda>c. \<not> is_eol c) l"
    using header_line_eol [of kv] by auto
  with Cons byte_lines_line [of l "concat (map header_line kvs) @ p"] show ?case by simp
qed simp

lemma byte_lines_payload:
  assumes "payload_ok p"
  obtains l ls where "byte_lines p = l # ls" and "startswith l ''# columns:''"
proof -
  have acc: "\<exists>l ls. byte_lines_acc acc s = (rev acc @ l) # ls" if "acc \<noteq> [] \<or> s \<noteq> []" for acc s
    using that
  proof (induction acc s rule: byte_lines_acc.induct)
    case (2 acc c cs)
    show ?case
    proof (cases "is_eol c")
      case True
      then show ?thesis by (cases cs) (auto simp: is_eol_def)
    next
      case False
      with "2.IH"(4) show ?thesis by (auto simp: is_eol_def)
    qed
  qed auto
  obtain t where p: "p = ''# columns:'' @ t"
    using assms by (metis append_take_drop_id payload_ok_def startswith_def)
  have "byte_lines p = byte_lines_acc (rev ''# columns:'') t"
    by (simp add: p byte_lines_def)
  with acc [of "rev ''# columns:''" t] that show ?thesis by (auto simp: startswith_def)
qed

lemma parse_bundle_canonical:
  assumes "magic = ''# mcmap v1'' \<or> magic = ''# mcmeta v1''"
    and "list_all header_ok hs" and "distinct (map fst hs)" and "payload_ok payload"
  shows "parse_bundle (canonical_bundle magic hs payload) r magic = Inr (hs, payload)"
proof -
  have magic: "list_all (\<lambda>c. \<not> is_eol c) magic" using assms(1) by (auto simp: is_eol_def)
  obtain l ls where pl: "byte_lines payload = l # ls" "startswith l ''# columns:''"
    using byte_lines_payload [OF assms(4)] .
  have lines: "byte_lines (canonical_bundle magic hs payload) = (magic @ nl) # map header_line hs @ l # ls"
    unfolding canonical_bundle_def using byte_lines_line [OF magic] byte_lines_headers [OF assms(2)] pl(1) by simp
  have skip: "header_loop [] ((magic @ nl) # rest) = header_loop [] rest" for rest
    using assms(1) rstrip_eol_line [of "drop 2 magic"] by (auto simp: startswith_def Let_def is_eol_def)
  have "header_loop [] ((magic @ nl) # map header_line hs @ l # ls) = Inr (hs, Some (l # ls))"
    unfolding skip using header_loop_lines [OF assms(2), of "[]" "l # ls"] assms(3) pl(2) by simp
  moreover have "concat (l # ls) = payload" using concat_byte_lines [of payload] pl(1) by simp
  ultimately show ?thesis
    by (simp add: parse_bundle_def lines rstrip_eol_line [OF magic] del: header_loop.simps)
qed

section \<open>What an accepted bundle satisfies\<close>

lemma require_header_Inr: "require_header hs n = Inr v \<longleftrightarrow> map_of hs n = Some v"
  by (simp add: require_header_def split: option.splits)

lemma require_sha256_Inr: "require_sha256_header hs n = Inr v \<longleftrightarrow> map_of hs n = Some v \<and> hex64 v"
  by (auto simp: require_sha256_header_def rbind_Inr_iff require_header_Inr)

lemma require_value_Inr: "require_header_value hs n e = Inr u \<longleftrightarrow> map_of hs n = Some e"
  by (auto simp: require_header_value_def rbind_Inr_iff require_header_Inr split: if_splits)

lemma ensure_Inr: "ensure b e = Inr u \<longleftrightarrow> b"
  by (simp add: ensure_def)

lemma when_some_Inr: "when_some x f = Inr u \<longleftrightarrow> (\<forall>y. x = Some y \<longrightarrow> f y = Inr ())"
  by (cases x) (auto simp: when_some_def)

lemma paired_Inr: "verify_paired fs e err p = Inr u \<longleftrightarrow> (\<exists>d. fs p = Some d \<and> sha256_bytes d = e)"
  by (auto simp: verify_paired_def rbind_Inr_iff read_file_def ensure_Inr split: option.splits)

lemma require_all_Inr:
  "require_all_sha256 hs ns = Inr u \<longleftrightarrow> (\<forall>n \<in> set ns. \<exists>v. map_of hs n = Some v \<and> hex64 v)"
  by (induction ns) (auto simp: rbind_Inr_iff require_sha256_Inr)

lemmas accept_rules = rbind_Inr_iff require_header_Inr require_sha256_Inr require_value_Inr
  ensure_Inr when_some_Inr paired_Inr require_all_Inr

text \<open>The optional checks against paired files, as one predicate.\<close>

definition pairs_ok :: "file_bytes \<Rightarrow> verify_args \<Rightarrow> (string, string) dict \<Rightarrow> bool" where
  "pairs_ok fs a hs \<longleftrightarrow>
     (\<forall>k. va_artifact_kind a = Some k \<longrightarrow> map_of hs ''artifact_kind'' = Some k) \<and>
     (\<forall>k. va_backend a = Some k \<longrightarrow> map_of hs ''backend'' = Some k) \<and>
     (\<forall>p. va_artifact a = Some p \<longrightarrow>
        (\<exists>d. fs p = Some d \<and> map_of hs ''generated_artifact_sha256'' = Some (sha256_bytes d))) \<and>
     (\<forall>p. va_source_map_artifact a = Some p \<longrightarrow>
        (\<exists>d. fs p = Some d \<and> map_of hs ''source_map_generated_artifact_sha256'' = Some (sha256_bytes d))) \<and>
     (\<forall>p. va_source a = Some p \<longrightarrow>
        (\<exists>d. fs p = Some d \<and> map_of hs ''source_sha256'' = Some (sha256_bytes d)))"

lemma verify_map_accepts:
  assumes "va_map a = Some path"
  shows "verify fs a = Inr () \<longleftrightarrow>
    (\<exists>data hs payload ad facts. fs path = Some data \<and>
       parse_bundle data True ''# mcmap v1'' = Inr (hs, payload) \<and>
       map_of hs ''generated_artifact_sha256'' = Some ad \<and> hex64 ad \<and>
       map_of hs ''artifact_kind'' = Some ''c-source-map'' \<and> map_of hs ''backend'' = Some ''c'' \<and>
       map_of hs ''source_map_generated_artifact_sha256'' = Some ad \<and>
       map_of hs ''source_map_payload_sha256'' = Some (sha256_bytes payload) \<and>
       map_of hs ''mir_facts_sha256'' = Some facts \<and> hex64 facts \<and> pairs_ok fs a hs)"
proof -
  have read: "read_file fs path = Inr d \<longleftrightarrow> fs path = Some d" for d
    by (simp add: read_file_def split: option.splits)
  have m: "verify_map hs payload ad = Inr u \<longleftrightarrow>
      map_of hs ''artifact_kind'' = Some ''c-source-map'' \<and> map_of hs ''backend'' = Some ''c'' \<and>
      map_of hs ''source_map_generated_artifact_sha256'' = Some ad \<and> hex64 ad \<and>
      map_of hs ''source_map_payload_sha256'' = Some (sha256_bytes payload) \<and>
      (\<exists>facts. map_of hs ''mir_facts_sha256'' = Some facts \<and> hex64 facts)" for hs payload ad u
    by (auto simp: verify_map_def accept_rules)
  have "verify fs a = Inr () \<longleftrightarrow>
      (\<exists>data hs payload ad. fs path = Some data \<and>
         parse_bundle data True ''# mcmap v1'' = Inr (hs, payload) \<and>
         map_of hs ''generated_artifact_sha256'' = Some ad \<and> hex64 ad \<and>
         verify_map hs payload ad = Inr () \<and> pairs_ok fs a hs)"
    by (auto simp: verify_def assms accept_rules read pairs_ok_def)
  then show ?thesis unfolding m by blast
qed

text \<open>A header that holds a well-formed digest.\<close>

definition has_digest :: "(string, string) dict \<Rightarrow> string \<Rightarrow> bool" where
  "has_digest hs n \<longleftrightarrow> (case map_of hs n of None \<Rightarrow> False | Some v \<Rightarrow> hex64 v)"

lemma verify_metadata_Inr:
  "verify_metadata hs = Inr () \<longleftrightarrow>
     has_digest hs ` set source_map_headers = {True} \<or> map_of hs ` set source_map_headers = {None}"
proof -
  have "require_all_sha256 hs ns = Inr () \<longleftrightarrow> (\<forall>n \<in> set ns. has_digest hs n)" for ns
    by (auto simp: require_all_Inr has_digest_def split: option.splits)
  then have v: "verify_metadata hs = Inr () \<longleftrightarrow>
      ((\<exists>n \<in> set source_map_headers. map_of hs n \<noteq> None) \<longrightarrow> (\<forall>n \<in> set source_map_headers. has_digest hs n))"
    by (auto simp: verify_metadata_def filter_empty_conv)
  have const: "f ` S = {c} \<longleftrightarrow> (\<forall>n \<in> S. f n = c)" if "S \<noteq> {}" for f :: "string \<Rightarrow> 'c" and S c
    using that by auto
  have ne: "set source_map_headers \<noteq> {}" by (simp add: source_map_headers_def)
  have "has_digest hs n \<Longrightarrow> map_of hs n \<noteq> None" for n by (auto simp: has_digest_def split: option.splits)
  then show ?thesis unfolding const [OF ne] v by auto
qed

lemma verify_metadata_accepts:
  assumes "va_map a = None"
  shows "verify fs a = Inr () \<longleftrightarrow>
    (\<exists>path data hs payload ad. va_metadata a = Some path \<and> fs path = Some data \<and>
       parse_bundle data False ''# mcmeta v1'' = Inr (hs, payload) \<and>
       map_of hs ''generated_artifact_sha256'' = Some ad \<and> hex64 ad \<and>
       (has_digest hs ` set source_map_headers = {True} \<or>
        map_of hs ` set source_map_headers = {None}) \<and> pairs_ok fs a hs)"
proof (cases "va_metadata a")
  case None
  then show ?thesis by (simp add: verify_def assms)
next
  case (Some path)
  have read: "read_file fs path = Inr d \<longleftrightarrow> fs path = Some d" for d
    by (simp add: read_file_def split: option.splits)
  show ?thesis
    unfolding verify_metadata_Inr [symmetric]
    by (auto simp: verify_def assms Some accept_rules read pairs_ok_def)
qed

lemma hex64_plain: "hex64 s \<Longrightarrow> plain_text s"
  by (auto simp: hex64_def plain_text_def is_ascii_def list_all_iff is_hex_def is_eol_def Let_def)

text \<open>A concrete accepted map: an artifact, a payload and the headers that belong to them.\<close>

definition demo_artifact :: string where
  "demo_artifact = ''int x;''"

definition demo_payload :: string where
  "demo_payload = ''# columns:''"

definition demo_tampered :: string where
  "demo_tampered = ''# columns:x''"

definition demo_headers :: "string \<Rightarrow> (string \<times> string) list" where
  "demo_headers payload =
     [(''artifact_kind'', ''c-source-map''), (''backend'', ''c''),
      (''generated_artifact_sha256'', sha256_bytes demo_artifact),
      (''source_map_generated_artifact_sha256'', sha256_bytes demo_artifact),
      (''source_map_payload_sha256'', sha256_bytes payload),
      (''mir_facts_sha256'', sha256_bytes [])]"

definition demo_args :: verify_args where
  "demo_args = \<lparr>va_map = Some ''m'', va_metadata = None, va_artifact = Some ''a'', va_source = None,
     va_source_map_artifact = None, va_artifact_kind = None, va_backend = None\<rparr>"

definition demo_files :: file_bytes where
  "demo_files = [''m'' \<mapsto> canonical_bundle ''# mcmap v1'' (demo_headers demo_payload) demo_payload,
     ''a'' \<mapsto> demo_artifact]"

lemma demo_headers_ok: "list_all header_ok (demo_headers p)" "distinct (map fst (demo_headers p))"
  using hex64_plain [OF hex64_sha256]
  by (auto simp: demo_headers_def header_ok_def plain_text_def is_ascii_def is_eol_def startswith_def)

lemma demo_parse:
  "payload_ok p \<Longrightarrow>
   parse_bundle (canonical_bundle ''# mcmap v1'' (demo_headers q) p) r ''# mcmap v1'' = Inr (demo_headers q, p)"
  by (rule parse_bundle_canonical) (simp_all only: demo_headers_ok simp_thms)

lemma demo_lookup:
  "map_of (demo_headers p) ''artifact_kind'' = Some ''c-source-map''"
  "map_of (demo_headers p) ''backend'' = Some ''c''"
  "map_of (demo_headers p) ''generated_artifact_sha256'' = Some (sha256_bytes demo_artifact)"
  "map_of (demo_headers p) ''source_map_generated_artifact_sha256'' = Some (sha256_bytes demo_artifact)"
  "map_of (demo_headers p) ''source_map_payload_sha256'' = Some (sha256_bytes p)"
  "map_of (demo_headers p) ''mir_facts_sha256'' = Some (sha256_bytes [])"
  by (simp_all add: demo_headers_def)

lemma demo_payloads_ok: "payload_ok demo_payload" "payload_ok demo_tampered"
  by (simp_all add: payload_ok_def demo_payload_def demo_tampered_def startswith_def)

lemma demo_digests_differ: "sha256_bytes demo_tampered \<noteq> sha256_bytes demo_payload"
  by code_simp

lemma demo_accepted: "verify demo_files demo_args = Inr ()"
proof -
  have m: "va_map demo_args = Some ''m''" by (simp add: demo_args_def)
  have fs: "demo_files ''m'' = Some (canonical_bundle ''# mcmap v1'' (demo_headers demo_payload) demo_payload)"
    "demo_files ''a'' = Some demo_artifact"
    by (simp_all add: demo_files_def)
  have "pairs_ok demo_files demo_args (demo_headers demo_payload)"
    unfolding pairs_ok_def by (simp add: demo_args_def fs demo_lookup)
  then show ?thesis
    unfolding verify_map_accepts [OF m]
    using fs(1) demo_parse [OF demo_payloads_ok(1)] demo_lookup hex64_sha256 by blast
qed


text \<open>Two sidecars: one with the artifact digest alone, one with only one of the source-map digests.\<close>

definition demo_meta_headers :: "(string \<times> string) list" where
  "demo_meta_headers = [(''generated_artifact_sha256'', sha256_bytes demo_artifact)]"

definition demo_partial_headers :: "(string \<times> string) list" where
  "demo_partial_headers =
     [(''generated_artifact_sha256'', sha256_bytes demo_artifact), (''mir_facts_sha256'', sha256_bytes [])]"

definition demo_sidecars :: file_bytes where
  "demo_sidecars =
     [''plain'' \<mapsto> canonical_bundle ''# mcmeta v1'' demo_meta_headers demo_payload,
      ''partial'' \<mapsto> canonical_bundle ''# mcmeta v1'' demo_partial_headers demo_payload]"

definition demo_metadata :: "string \<Rightarrow> verify_args" where
  "demo_metadata p = \<lparr>va_map = None, va_metadata = Some p, va_artifact = None, va_source = None,
     va_source_map_artifact = None, va_artifact_kind = None, va_backend = None\<rparr>"

lemma demo_plain_parse:
  "parse_bundle (canonical_bundle ''# mcmeta v1'' demo_meta_headers demo_payload) r ''# mcmeta v1'' =
     Inr ([(''generated_artifact_sha256'', sha256_bytes demo_artifact)], demo_payload)"
  unfolding demo_meta_headers_def
  using hex64_plain [OF hex64_sha256]
  by (intro parse_bundle_canonical demo_payloads_ok)
     (auto simp: header_ok_def plain_text_def is_ascii_def is_eol_def startswith_def)

lemma demo_partial_parse:
  "parse_bundle (canonical_bundle ''# mcmeta v1'' demo_partial_headers demo_payload) r ''# mcmeta v1'' =
     Inr ([(''generated_artifact_sha256'', sha256_bytes demo_artifact), (''mir_facts_sha256'', sha256_bytes [])],
       demo_payload)"
  unfolding demo_partial_headers_def
  using hex64_plain [OF hex64_sha256]
  by (intro parse_bundle_canonical demo_payloads_ok)
     (auto simp: header_ok_def plain_text_def is_ascii_def is_eol_def startswith_def)


section \<open>Properties\<close>

text \<open>
  C22. \<open>verify\<close> accepts exactly these inputs, in both modes. With \<open>--map\<close>: the map parses, every
  required header is present and well formed, its payload digest is the digest of everything from the
  payload marker to the end of the file, its two artifact digests agree, and every paired file given
  has the digest the header names. With \<open>--metadata\<close> alone: the sidecar parses under its own magic,
  with or without a payload, it names a well-formed artifact digest, the three source-map digests are
  all absent or all present and well formed, and the same pairing checks hold. With neither option
  nothing is accepted.
\<close>

theorem verify_accepts_iff:
  "verify fs a = Inr () \<longleftrightarrow>
    (case va_map a of
       Some path \<Rightarrow>
         (\<exists>data hs payload ad facts. fs path = Some data \<and>
            parse_bundle data True ''# mcmap v1'' = Inr (hs, payload) \<and> suffix payload data \<and>
            map_of hs ''generated_artifact_sha256'' = Some ad \<and> hex64 ad \<and>
            map_of hs ''artifact_kind'' = Some ''c-source-map'' \<and> map_of hs ''backend'' = Some ''c'' \<and>
            map_of hs ''source_map_generated_artifact_sha256'' = Some ad \<and>
            map_of hs ''source_map_payload_sha256'' = Some (sha256_bytes payload) \<and>
            map_of hs ''mir_facts_sha256'' = Some facts \<and> hex64 facts \<and> pairs_ok fs a hs)
     | None \<Rightarrow>
         (\<exists>path data hs payload ad. va_metadata a = Some path \<and> fs path = Some data \<and>
            parse_bundle data False ''# mcmeta v1'' = Inr (hs, payload) \<and> suffix payload data \<and>
            map_of hs ''generated_artifact_sha256'' = Some ad \<and> hex64 ad \<and>
            (has_digest hs ` set source_map_headers = {True} \<or>
             map_of hs ` set source_map_headers = {None}) \<and> pairs_ok fs a hs))"
proof (cases "va_map a")
  case None
  then show ?thesis
    unfolding verify_metadata_accepts [OF None] by (simp add: None parse_with_suffix)
next
  case (Some path)
  then show ?thesis
    unfolding verify_map_accepts [OF Some] by (simp add: Some parse_with_suffix)
qed

theorem verify_accepts_iff_witness:
  "(\<exists>hs payload. parse_bundle (the (demo_files ''m'')) True ''# mcmap v1'' = Inr (hs, payload) \<and>
      map_of hs ''source_map_payload_sha256'' = Some (sha256_bytes payload)) \<and>
   verify demo_sidecars (demo_metadata ''plain'') = Inr () \<and>
   verify demo_sidecars (demo_metadata ''partial'') \<noteq> Inr ()"
proof (intro conjI)
  have "va_map demo_args = Some ''m''" by (simp add: demo_args_def)
  with verify_accepts_iff [of demo_files demo_args] demo_accepted
  show "\<exists>hs payload. parse_bundle (the (demo_files ''m'')) True ''# mcmap v1'' = Inr (hs, payload) \<and>
      map_of hs ''source_map_payload_sha256'' = Some (sha256_bytes payload)" by force
next
  show "verify demo_sidecars (demo_metadata ''plain'') = Inr ()"
    unfolding verify_accepts_iff
    using demo_plain_parse hex64_sha256 [of demo_artifact]
      parse_bundle_suffix [OF demo_plain_parse [of False]]
    by (auto simp: demo_metadata_def demo_sidecars_def source_map_headers_def pairs_ok_def)
next
  show "verify demo_sidecars (demo_metadata ''partial'') \<noteq> Inr ()"
    unfolding verify_accepts_iff using demo_partial_parse [of False]
    by (auto simp: demo_metadata_def demo_sidecars_def source_map_headers_def has_digest_def)
qed

text \<open>
  C24. parsing recovers the headers and the payload of a bundle in the documented shape, whatever
  the payload contains after its marker.
\<close>

theorem parse_bundle_roundtrip:
  assumes "magic = ''# mcmap v1'' \<or> magic = ''# mcmeta v1''"
    and "list_all header_ok hs" and "distinct (map fst hs)" and "payload_ok payload"
  shows "parse_bundle (canonical_bundle magic hs payload) r magic = Inr (hs, payload)"
  using assms by (rule parse_bundle_canonical)

theorem parse_bundle_roundtrip_witness:
  "parse_bundle (canonical_bundle ''# mcmeta v1'' [(''backend'', ''c'')] ''# columns: x'') False ''# mcmeta v1'' =
     Inr ([(''backend'', ''c'')], ''# columns: x'')"
  by (rule parse_bundle_roundtrip)
     (simp_all add: header_ok_def plain_text_def is_ascii_def is_eol_def startswith_def payload_ok_def)

text \<open>
  C23. substituting the payload of an accepted map is detected: unless the two payloads have the same
  SHA-256 digest, verification of the substituted map fails with the payload-digest error.
\<close>

theorem substituted_payload_rejected:
  assumes "va_map a = Some path" and "fs path = Some (canonical_bundle ''# mcmap v1'' hs payload)"
    and "list_all header_ok hs" and "distinct (map fst hs)" and "payload_ok payload" and "payload_ok payload'"
    and "verify fs a = Inr ()" and "sha256_bytes payload' \<noteq> sha256_bytes payload"
  shows "verify (fs(path \<mapsto> canonical_bundle ''# mcmap v1'' hs payload')) a =
    Inl (PayloadDigest (sha256_bytes payload) (sha256_bytes payload'))"
proof -
  have p: "parse_bundle (canonical_bundle ''# mcmap v1'' hs q) r ''# mcmap v1'' = Inr (hs, q)"
    if "payload_ok q" for q r
    using assms(3,4) that by (intro parse_bundle_canonical) auto
  from assms(7) obtain ad where hs: "map_of hs ''generated_artifact_sha256'' = Some ad" "hex64 ad"
    "map_of hs ''artifact_kind'' = Some ''c-source-map''" "map_of hs ''backend'' = Some ''c''"
    "map_of hs ''source_map_generated_artifact_sha256'' = Some ad"
    "map_of hs ''source_map_payload_sha256'' = Some (sha256_bytes payload)"
    unfolding verify_map_accepts [OF assms(1)] using assms(2) p [OF assms(5)] by auto
  then show ?thesis
    using assms(1,8) p [OF assms(6)]
    by (simp add: verify_def verify_map_def read_file_def require_sha256_header_def require_header_def
        require_header_value_def ensure_def)
qed

theorem substituted_payload_rejected_witness:
  "verify (demo_files(''m'' \<mapsto> canonical_bundle ''# mcmap v1'' (demo_headers demo_payload) demo_tampered)) demo_args =
     Inl (PayloadDigest (sha256_bytes demo_payload) (sha256_bytes demo_tampered))"
  by (intro substituted_payload_rejected demo_headers_ok demo_accepted demo_payloads_ok demo_digests_differ)
     (simp_all add: demo_args_def demo_files_def)

end
