(* ===== verification/Spec_Sweep.thy ===== *)
theory Spec_Sweep
  imports Py_Strings
begin

text \<open>
  The shared parsing of the spec-corpus sweeps, \<open>tools/toolchain/spec_sweep_lib.py\<close>: the comment-
  and string-aware chunker, the declared and referenced names of a chunk, and the fixpoint that
  drops rejected declarations together with what depends on them. Regular expressions are their
  left-to-right matchers; word characters are ASCII.
\<close>

section \<open>Chunking\<close>

text \<open>\<open>src[i:j]\<close> for a line comment from \<open>i\<close>: up to and including the line feed, and the rest.\<close>

fun take_line :: "string \<Rightarrow> string \<times> string" where
  "take_line [] = ([], [])"
| "take_line (c # cs) = (if c = CHR 0x0A then ([c], cs) else (let (a, b) = take_line cs in (c # a, b)))"

text \<open>Up to and including the closing \<open>*/\<close>, or everything.\<close>

fun take_block :: "string \<Rightarrow> string \<times> string" where
  "take_block [] = ([], [])"
| "take_block [c] = ([c], [])"
| "take_block (c # d # cs) =
     (if c = CHR ''*'' \<and> d = CHR ''/'' then ([c, d], cs)
      else (let (a, b) = take_block (d # cs) in (c # a, b)))"

text \<open>The body of a string or character literal up to and including its closing quote.\<close>

fun take_quoted :: "char \<Rightarrow> string \<Rightarrow> string \<times> string" where
  "take_quoted q [] = ([], [])"
| "take_quoted q (d # cs) =
     (if d = CHR 0x5C then
        (case cs of
           [] \<Rightarrow> if d = q then ([d], []) else (let (a, b) = take_quoted q cs in (d # a, b))
         | e # es \<Rightarrow> (let (a, b) = take_quoted q es in (d # e # a, b)))
      else if d = q then ([d], cs)
      else (let (a, b) = take_quoted q cs in (d # a, b)))"

lemma take_line_append: "take_line s = (a, b) \<Longrightarrow> a @ b = s"
  by (induction s arbitrary: a b) (auto split: if_splits prod.splits)

lemma take_block_append: "take_block s = (a, b) \<Longrightarrow> a @ b = s"
  by (induction s arbitrary: a b rule: take_block.induct) (auto split: if_splits prod.splits)

lemma take_quoted_append: "take_quoted q s = (a, b) \<Longrightarrow> a @ b = s"
proof (induction q s arbitrary: a b rule: take_quoted.induct)
  case (2 q d cs)
  then show ?case by (cases cs) (auto split: if_splits prod.splits)
qed simp

lemma rest_lengths:
  "take_line s = (a, b) \<Longrightarrow> length b \<le> length s"
  "take_block s = (a, b) \<Longrightarrow> length b \<le> length s"
  "take_quoted q s = (a, b) \<Longrightarrow> length b \<le> length s"
  using take_line_append take_block_append take_quoted_append by fastforce+

text \<open>
  The main loop: \<open>chunk_loop depth buf src\<close> is the list of chunks from the state (\<open>buf\<close>, \<open>depth\<close>) on
  the rest of the source. Depth is an integer: an unmatched closing brace makes it negative.
\<close>

function (sequential) chunk_loop :: "int \<Rightarrow> string \<Rightarrow> string \<Rightarrow> string list" where
  "chunk_loop depth buf [] = (if strip buf \<noteq> [] then [buf] else [])"
| "chunk_loop depth buf (c # cs) =
     (if c = CHR ''/'' \<and> startswith cs ''/'' then
        (let (a, b) = take_line (c # cs) in chunk_loop depth (buf @ a) b)
      else if c = CHR ''/'' \<and> startswith cs ''*'' then
        (let (a, b) = take_block (tl cs) in chunk_loop depth (buf @ c # hd cs # a) b)
      else if c = CHR 0x22 \<or> c = CHR 0x27 then
        (let (a, b) = take_quoted c cs in chunk_loop depth (buf @ c # a) b)
      else if c = CHR ''{'' then chunk_loop (depth + 1) (buf @ [c]) cs
      else if c = CHR ''}'' then
        (if depth - 1 = 0 then (buf @ [c]) # chunk_loop (depth - 1) [] cs
         else chunk_loop (depth - 1) (buf @ [c]) cs)
      else if c = CHR '';'' \<and> depth = 0 then (buf @ [c]) # chunk_loop depth [] cs
      else chunk_loop depth (buf @ [c]) cs)"
  by pat_completeness auto
termination
proof (relation "measure (\<lambda>(depth, buf, src). length src)", goal_cases)
  case (2 depth buf c cs x a b)
  then show ?case by (cases cs) (auto simp: startswith_def dest!: rest_lengths(1) split: prod.splits)
next
  case (3 depth buf c cs x a b)
  then show ?case using rest_lengths(2) [of "tl cs" a b] by (cases cs) (auto simp: startswith_def)
next
  case (4 depth buf c cs x a b)
  then show ?case using rest_lengths(3) [of c cs a b] by auto
qed auto

declare chunk_loop.simps(2) [simp del]

definition split_top_level :: "string \<Rightarrow> string list" where
  "split_top_level src = chunk_loop 0 [] src"

definition is_rejected_chunk :: "string \<Rightarrow> bool" where
  "is_rejected_chunk chunk \<longleftrightarrow>
     contains chunk ''EXPECT_ERROR'' \<or> contains chunk ''SWEEP_SKIP_DEPENDS_ON_REJECTED_DECL''"


section \<open>Names\<close>

text \<open>\<open>_without_comments\<close>: a line comment leaves its line feed, a block comment leaves nothing.\<close>

function (sequential) without_comments :: "string \<Rightarrow> string" where
  "without_comments [] = []"
| "without_comments (c # cs) =
     (if c = CHR ''/'' \<and> startswith cs ''/'' then without_comments (dropWhile (\<lambda>d. d \<noteq> CHR 0x0A) cs)
      else if c = CHR ''/'' \<and> startswith cs ''*'' then without_comments (snd (take_block (tl cs)))
      else c # without_comments cs)"
  by pat_completeness auto
termination
proof (relation "measure length", goal_cases)
  case (2 c cs)
  then show ?case by (simp add: length_dropWhile_le le_imp_less_Suc)
next
  case (3 c cs)
  then show ?case
    using rest_lengths(2) [of "tl cs" "fst (take_block (tl cs))" "snd (take_block (tl cs))"]
    by (cases cs) (auto simp: startswith_def)
qed auto

declare without_comments.simps(2) [simp del]

text \<open>A word followed by at least one white-space character, one of a list of words: what is left.\<close>

fun after_word :: "string list \<Rightarrow> string \<Rightarrow> string option" where
  "after_word [] s = None"
| "after_word (w # ws) s =
     (if startswith s w \<and> (case drop (length w) s of [] \<Rightarrow> False | c # _ \<Rightarrow> is_space c)
      then Some (lstrip (drop (length w) s)) else after_word ws s)"

lemma after_word_shorter: "after_word ws s = Some r \<Longrightarrow> length r < length s"
proof (induction ws)
  case (Cons w ws)
  have *: "length (lstrip t) \<le> length t" for t
    by (simp add: lstrip_def length_dropWhile_le)
  show ?case
  proof (cases "startswith s w \<and> (case drop (length w) s of [] \<Rightarrow> False | c # _ \<Rightarrow> is_space c)")
    case True
    then obtain c t where t: "drop (length w) s = c # t" "is_space c" by (auto split: list.splits)
    with True Cons.prems have "r = lstrip t" by (auto simp: lstrip_def)
    moreover have "length (drop (length w) s) \<le> length s" by simp
    ultimately show ?thesis using * [of t] t(1) by simp
  next
    case False
    then have "after_word (w # ws) s = after_word ws s" by (simp only: after_word.simps if_False)
    with Cons show ?thesis by simp
  qed
qed simp

text \<open>\<open>(?:m\s+)*\<close> over a list of modifiers.\<close>

function skip_modifiers :: "string list \<Rightarrow> string \<Rightarrow> string" where
  "skip_modifiers ms s = (case after_word ms s of None \<Rightarrow> s | Some r \<Rightarrow> skip_modifiers ms r)"
  by pat_completeness auto
termination
  by (relation "measure (\<lambda>(ms, s). length s)") (auto dest: after_word_shorter)

declare skip_modifiers.simps [simp del]

definition DECL_MODIFIERS :: "string list" where
  "DECL_MODIFIERS = [''pub'', ''export'', ''extern'', ''comptime'', ''region'', ''view'', ''const'']"

definition DECL_KEYWORDS :: "string list" where
  "DECL_KEYWORDS = [''fn'', ''struct'', ''enum'', ''union'', ''trait'', ''global'', ''type'', ''module'']"

text \<open>\<open>[A-Za-z_]\w*\<close> at the head of the text: the identifier and the rest.\<close>

definition ident_at :: "string \<Rightarrow> (string \<times> string) option" where
  "ident_at s =
     (case s of [] \<Rightarrow> None
      | c # _ \<Rightarrow> if ident_start c then Some (takeWhile is_word s, dropWhile is_word s) else None)"

text \<open>One match of \<open>_DECLARES\<close> and of \<open>_DECLARES_VALUE\<close> at a line start: the name and the rest.\<close>

definition declares_at :: "string \<Rightarrow> (string \<times> string) option" where
  "declares_at s =
     (case after_word DECL_KEYWORDS (skip_modifiers DECL_MODIFIERS (lstrip s)) of
        None \<Rightarrow> None | Some r \<Rightarrow> ident_at r)"

definition declares_value_at :: "string \<Rightarrow> (string \<times> string) option" where
  "declares_value_at s =
     (case after_word [''const'', ''global''] (skip_modifiers [''pub'', ''export''] (lstrip s)) of
        None \<Rightarrow> None
      | Some r \<Rightarrow>
          (case ident_at r of
             None \<Rightarrow> None
           | Some (name, t) \<Rightarrow>
               if startswith (lstrip t) '':'' then Some (name, tl (lstrip t)) else None))"

text \<open>
  \<open>findall\<close> of a pattern anchored at line starts: \<open>bol\<close> says whether the position is one. After a
  match the search goes on behind it, where no line starts.
\<close>

function (sequential) find_lines :: "(string \<Rightarrow> (string \<times> string) option) \<Rightarrow> bool \<Rightarrow> string \<Rightarrow> string list" where
  "find_lines m bol [] = []"
| "find_lines m bol (c # cs) =
     (case (if bol then m (c # cs) else None) of
        Some (name, r) \<Rightarrow>
          if length r < length (c # cs) then name # find_lines m False r
          else name # find_lines m (c = CHR 0x0A) cs
      | None \<Rightarrow> find_lines m (c = CHR 0x0A) cs)"
  by pat_completeness auto
termination
  by (relation "measure (\<lambda>(m, bol, s). length s)") (auto split: if_splits)

declare find_lines.simps(2) [simp del]

definition declared_names :: "string \<Rightarrow> string set" where
  "declared_names chunk =
     (let code = without_comments chunk in
      set (find_lines declares_at True code) \<union> set (find_lines declares_value_at True code))"

text \<open>\<open>_IDENT.findall\<close>.\<close>

function (sequential) find_idents :: "string \<Rightarrow> string list" where
  "find_idents [] = []"
| "find_idents (c # cs) =
     (if ident_start c then takeWhile is_word (c # cs) # find_idents (dropWhile is_word cs)
      else find_idents cs)"
  by pat_completeness auto
termination
  by (relation "measure length") (auto simp: length_dropWhile_le le_imp_less_Suc)

definition referenced_names :: "string \<Rightarrow> string set" where
  "referenced_names chunk = set (find_idents (without_comments chunk)) - declared_names chunk"

section \<open>Dropping what depends on rejected declarations\<close>

definition available_names :: "string list \<Rightarrow> bool list \<Rightarrow> string set" where
  "available_names chunks keep = \<Union> (set (map (\<lambda>(ch, k). if k then declared_names ch else {}) (zip chunks keep)))"

definition missing_names :: "string list \<Rightarrow> bool list \<Rightarrow> string set" where
  "missing_names chunks keep =
     \<Union> (set (map (\<lambda>(ch, k). if k then {} else declared_names ch - available_names chunks keep) (zip chunks keep)))"

definition drop_users :: "string list \<Rightarrow> bool list \<Rightarrow> string set \<Rightarrow> bool list" where
  "drop_users chunks keep missing =
     map (\<lambda>(ch, k). k \<and> referenced_names ch \<inter> missing = {}) (zip chunks keep)"

text \<open>The loop of \<open>_keep_flags\<close>; each round drops a chunk or ends it.\<close>

lemma drop_users_shrinks:
  assumes "drop_users chunks keep missing \<noteq> keep"
  shows "length (filter id (drop_users chunks keep missing)) + length (drop_users chunks keep missing)
    < length (filter id keep) + length keep"
proof -
  have le: "length (filter id (drop_users chunks keep missing)) \<le> length (filter id keep)" for chunks keep
  proof (induction chunks keep rule: list_induct2')
    case (4 ch chs k ks)
    then show ?case by (auto simp: drop_users_def)
  qed (auto simp: drop_users_def)
  show ?thesis using assms
  proof (induction chunks keep rule: list_induct2')
    case (4 ch chs k ks)
    then show ?case using le [of chs ks] by (auto simp: drop_users_def comp_def id_def)
  qed (auto simp: drop_users_def)
qed

function keep_loop :: "string list \<Rightarrow> bool list \<Rightarrow> bool list" where
  "keep_loop chunks keep =
     (let missing = missing_names chunks keep in
      if missing = {} then keep
      else
        (let keep' = drop_users chunks keep missing in
         if keep' = keep then keep else keep_loop chunks keep'))"
  by pat_completeness auto
termination
  by (relation "measure (\<lambda>(chunks, keep). length (filter id keep) + length keep)")
     (auto dest: drop_users_shrinks)

declare keep_loop.simps [simp del]

definition keep_flags :: "string list \<Rightarrow> bool list" where
  "keep_flags chunks = keep_loop chunks (map (\<lambda>ch. \<not> is_rejected_chunk ch) chunks)"

definition strip_expect_error :: "string \<Rightarrow> string" where
  "strip_expect_error src =
     (let chunks = split_top_level src in
      concat (map (\<lambda>(ch, k). if k then ch else []) (zip chunks (keep_flags chunks))))"


section \<open>Prototypes\<close>

text \<open>\<open>re.search(r"(?m)^\s*fn\s+\w+\s*\(", chunk)\<close>.\<close>

definition proto_at :: "string \<Rightarrow> bool" where
  "proto_at s =
     (case after_word [''fn''] (lstrip s) of
        None \<Rightarrow> False
      | Some r \<Rightarrow> takeWhile is_word r \<noteq> [] \<and> startswith (lstrip (dropWhile is_word r)) ''('')"

fun search_proto :: "bool \<Rightarrow> string \<Rightarrow> bool" where
  "search_proto bol [] = False"
| "search_proto bol (c # cs) \<longleftrightarrow> (bol \<and> proto_at (c # cs)) \<or> search_proto (c = CHR 0x0A) cs"

text \<open>\<open>re.sub(r"(?m)^(\s*)fn\s+", r"\1extern fn ", chunk, count=1)\<close>.\<close>

fun sub_extern :: "bool \<Rightarrow> string \<Rightarrow> string" where
  "sub_extern bol [] = []"
| "sub_extern bol (c # cs) =
     (case (if bol then after_word [''fn''] (lstrip (c # cs)) else None) of
        Some r \<Rightarrow> takeWhile is_space (c # cs) @ ''extern fn '' @ r
      | None \<Rightarrow> c # sub_extern (c = CHR 0x0A) cs)"

definition normalize_valid_chunk :: "string \<Rightarrow> string" where
  "normalize_valid_chunk chunk =
     (if is_rejected_chunk chunk then []
      else if strip chunk \<noteq> [] \<and> last (strip chunk) = CHR '';'' \<and> search_proto True chunk
      then sub_extern True chunk
      else chunk)"

definition valid_program :: "string \<Rightarrow> string" where
  "valid_program src =
     (let chunks = split_top_level src in
      concat (map (\<lambda>(ch, k). if k then normalize_valid_chunk ch else []) (zip chunks (keep_flags chunks))))"

section \<open>Chunking loses nothing\<close>

text \<open>One round of the loop moves a non-empty piece of the source into the buffer, and may close a chunk.\<close>

lemma chunk_loop_step:
  obtains a b d where "a @ b = c # cs" and "a \<noteq> []"
    and "chunk_loop depth buf (c # cs) = chunk_loop d (buf @ a) b \<or>
         chunk_loop depth buf (c # cs) = (buf @ a) # chunk_loop d [] b"
proof -
  note step = chunk_loop.simps(2) [of depth buf c cs]
  consider (line) "c = CHR ''/''" "startswith cs ''/''"
    | (block) "c = CHR ''/''" "\<not> startswith cs ''/''" "startswith cs ''*''"
    | (quoted) "c = CHR 0x22 \<or> c = CHR 0x27"
    | (plain) "\<not> (c = CHR ''/'' \<and> startswith cs ''/'')" "\<not> (c = CHR ''/'' \<and> startswith cs ''*'')"
        "\<not> (c = CHR 0x22 \<or> c = CHR 0x27)"
    by blast
  then show ?thesis
  proof cases
    case line
    obtain a b where ab: "take_line (c # cs) = (a, b)" by (cases "take_line (c # cs)")
    have "a \<noteq> []" using ab line by (auto split: prod.splits)
    moreover have "chunk_loop depth buf (c # cs) = chunk_loop depth (buf @ a) b"
      using line ab unfolding step by (simp del: take_line.simps)
    ultimately show ?thesis using take_line_append [OF ab] that by blast
  next
    case block
    obtain a b where ab: "take_block (tl cs) = (a, b)" by (cases "take_block (tl cs)")
    have "(c # hd cs # a) @ b = c # cs"
      using take_block_append [OF ab] block by (cases cs) (auto simp: startswith_def)
    moreover have "chunk_loop depth buf (c # cs) = chunk_loop depth (buf @ c # hd cs # a) b"
      using block ab unfolding step by simp
    ultimately show ?thesis using that by blast
  next
    case quoted
    obtain a b where ab: "take_quoted c cs = (a, b)" by (cases "take_quoted c cs")
    have "chunk_loop depth buf (c # cs) = chunk_loop depth (buf @ c # a) b"
      using quoted ab unfolding step by auto
    then show ?thesis using that [of "c # a" b] take_quoted_append [OF ab] by auto
  next
    case plain
    then have "chunk_loop depth buf (c # cs) \<in>
        {chunk_loop (depth + 1) (buf @ [c]) cs, (buf @ [c]) # chunk_loop (depth - 1) [] cs,
         chunk_loop (depth - 1) (buf @ [c]) cs, (buf @ [c]) # chunk_loop depth [] cs,
         chunk_loop depth (buf @ [c]) cs}"
      unfolding step by (simp only: if_False simp_thms) (simp split: if_split)
    then show ?thesis using that [of "[c]" cs] by auto
  qed
qed

text \<open>The chunks are the source, cut; only a white-space tail is left out.\<close>

lemma chunk_loop_concat:
  "\<exists>ws. buf @ src = concat (chunk_loop depth buf src) @ ws \<and> list_all is_space ws"
proof (induction "length src" arbitrary: depth buf src rule: less_induct)
  case less
  show ?case
  proof (cases src)
    case Nil
    have "list_all is_space buf" if "strip buf = []"
    proof -
      obtain a where a: "buf = a @ lstrip buf" "list_all is_space a" by (rule lstrip_decomp)
      obtain b where b: "lstrip buf = rstrip (lstrip buf) @ b" "list_all is_space b" by (rule rstrip_decomp)
      have "buf = a @ b" using a(1) b(1) that by (simp add: strip_def)
      with a(2) b(2) show ?thesis by simp
    qed
    with Nil show ?thesis by simp
  next
    case (Cons c cs)
    obtain a b d where ab: "a @ b = c # cs" "a \<noteq> []"
      and step: "chunk_loop depth buf (c # cs) = chunk_loop d (buf @ a) b \<or>
         chunk_loop depth buf (c # cs) = (buf @ a) # chunk_loop d [] b"
      by (rule chunk_loop_step)
    have "length (c # cs) = length a + length b" using ab(1) by (metis length_append)
    with ab(2) Cons have "length b < length src" by simp
    note IH = less [OF this, of "buf @ a" d] less [OF this, of "[]" d]
    have "buf @ src = (buf @ a) @ b" using ab(1) Cons by simp
    moreover from step have "(\<exists>ws. (buf @ a) @ b = concat (chunk_loop depth buf (c # cs)) @ ws \<and> list_all is_space ws)"
    proof (elim disjE)
      assume "chunk_loop depth buf (c # cs) = chunk_loop d (buf @ a) b"
      with IH(1) show ?thesis by simp
    next
      assume eq: "chunk_loop depth buf (c # cs) = (buf @ a) # chunk_loop d [] b"
      from IH(2) obtain ws where "b = concat (chunk_loop d [] b) @ ws" "list_all is_space ws" by auto
      then have "(buf @ a) @ b = concat (chunk_loop depth buf (c # cs)) @ ws" unfolding eq by simp
      with \<open>list_all is_space ws\<close> show ?thesis by blast
    qed
    ultimately show ?thesis using Cons by simp
  qed
qed


section \<open>The pruning fixpoint\<close>

text \<open>
  A choice of chunks is closed when no chosen chunk refers to a name that only chunks outside the
  choice declare. Choosing less makes more names missing, so there is a largest closed choice among
  the chunks that are not rejected, and the loop computes it.
\<close>

definition closed_choice :: "string list \<Rightarrow> bool list \<Rightarrow> bool" where
  "closed_choice chunks keep \<longleftrightarrow>
     (\<forall>i < length chunks. keep ! i \<longrightarrow> referenced_names (chunks ! i) \<inter> missing_names chunks keep = {})"

definition below :: "bool list \<Rightarrow> bool list \<Rightarrow> bool" where
  "below ks ls \<longleftrightarrow> length ks = length ls \<and> (\<forall>i < length ks. ks ! i \<longrightarrow> ls ! i)"

lemma below_trans: "below a b \<Longrightarrow> below b c \<Longrightarrow> below a c"
  by (simp add: below_def)

lemma zip_image:
  "length ks = length cs \<Longrightarrow> set (zip cs ks) = (\<lambda>i. (cs ! i, ks ! i)) ` {..<length cs}"
  by (auto simp: set_zip)

lemma available_iff:
  "length keep = length chunks \<Longrightarrow>
   x \<in> available_names chunks keep \<longleftrightarrow> (\<exists>i < length chunks. keep ! i \<and> x \<in> declared_names (chunks ! i))"
  by (auto simp: available_names_def zip_image split: if_splits)

lemma missing_iff:
  "length keep = length chunks \<Longrightarrow>
   x \<in> missing_names chunks keep \<longleftrightarrow>
     (\<exists>i < length chunks. \<not> keep ! i \<and> x \<in> declared_names (chunks ! i)) \<and> x \<notin> available_names chunks keep"
  by (auto simp: missing_names_def zip_image split: if_splits)

lemma missing_antimono:
  assumes "below ks ls" and "length ls = length chunks"
  shows "missing_names chunks ls \<subseteq> missing_names chunks ks"
proof -
  have "length ks = length chunks" using assms by (simp add: below_def)
  then show ?thesis
    using assms by (fastforce simp: missing_iff available_iff below_def)
qed

lemma drop_users_nth:
  "length keep = length chunks \<Longrightarrow> i < length chunks \<Longrightarrow>
   drop_users chunks keep m ! i \<longleftrightarrow> keep ! i \<and> referenced_names (chunks ! i) \<inter> m = {}"
  by (simp add: drop_users_def)

lemma length_drop_users: "length keep = length chunks \<Longrightarrow> length (drop_users chunks keep m) = length chunks"
  by (simp add: drop_users_def)

lemma keep_loop_spec:
  "length keep = length chunks \<Longrightarrow>
   below (keep_loop chunks keep) keep \<and> closed_choice chunks (keep_loop chunks keep) \<and>
   (\<forall>ks. below ks keep \<longrightarrow> closed_choice chunks ks \<longrightarrow> below ks (keep_loop chunks keep))"
proof (induction chunks keep rule: keep_loop.induct)
  case (1 chunks keep)
  let ?m = "missing_names chunks keep"
  let ?k = "drop_users chunks keep ?m"
  have len: "length ?k = length chunks" using 1 by (simp add: length_drop_users)
  have sub: "below ?k keep" using 1 by (simp add: below_def len drop_users_nth)
  show ?case
  proof (cases "?m = {} \<or> ?k = keep")
    case True
    then have loop: "keep_loop chunks keep = keep" by (subst keep_loop.simps) (auto simp: Let_def)
    moreover have "closed_choice chunks keep"
    proof (cases "?m = {}")
      case False
      with True have "?k = keep" by simp
      with 1 show ?thesis by (metis closed_choice_def drop_users_nth)
    qed (simp add: closed_choice_def)
    ultimately show ?thesis by (simp add: below_def)
  next
    case False
    then have loop: "keep_loop chunks keep = keep_loop chunks ?k"
      by (subst keep_loop.simps) (simp add: Let_def)
    note IH = "1.IH" [OF refl _ refl _ len]
    have "below ks ?k" if "below ks keep" "closed_choice chunks ks" for ks
      unfolding below_def
    proof (intro conjI allI impI)
      have l: "length ks = length chunks" using that(1) 1 by (simp add: below_def)
      then show "length ks = length ?k" by (simp add: len)
      fix i assume i: "i < length ks" "ks ! i"
      have "?m \<subseteq> missing_names chunks ks" using missing_antimono [OF that(1)] 1 by simp
      with that i l have "referenced_names (chunks ! i) \<inter> ?m = {}" "keep ! i"
        by (auto simp: closed_choice_def below_def)
      with 1 i l show "?k ! i" by (simp add: drop_users_nth)
    qed
    with IH False sub show ?thesis unfolding loop by (auto intro: below_trans)
  qed
qed

lemma keep_flags_spec:
  "below (keep_flags chunks) (map (\<lambda>ch. \<not> is_rejected_chunk ch) chunks)"
  "closed_choice chunks (keep_flags chunks)"
  "below ks (map (\<lambda>ch. \<not> is_rejected_chunk ch) chunks) \<Longrightarrow> closed_choice chunks ks \<Longrightarrow> below ks (keep_flags chunks)"
  using keep_loop_spec [of "map (\<lambda>ch. \<not> is_rejected_chunk ch) chunks" chunks]
  by (auto simp: keep_flags_def)

section \<open>Properties\<close>

definition kept_chunks :: "string \<Rightarrow> string list" where
  "kept_chunks src = map fst (filter snd (zip (split_top_level src) (keep_flags (split_top_level src))))"

lemma strip_kept: "strip_expect_error src = concat (kept_chunks src)"
proof -
  have "concat (map (\<lambda>(ch, k). if k then ch else []) xs) = concat (map fst (filter snd xs))" for xs
    by (induction xs) auto
  then show ?thesis by (simp add: strip_expect_error_def kept_chunks_def Let_def)
qed

lemma length_keep_flags: "length (keep_flags chunks) = length chunks"
  using keep_flags_spec(1) [of chunks] by (simp add: below_def)

lemma kept_iff:
  "ch \<in> set (kept_chunks src) \<longleftrightarrow>
     (\<exists>i < length (split_top_level src). keep_flags (split_top_level src) ! i \<and> ch = split_top_level src ! i)"
  using length_keep_flags [of "split_top_level src"]
  by (auto simp: kept_chunks_def zip_image image_iff)

lemma subseq_filter_zip: "subseq (map fst (filter snd (zip xs ks))) xs"
proof (induction xs arbitrary: ks)
  case (Cons x xs)
  then show ?case by (cases ks) auto
qed simp

text \<open>
  chunking is lossless: the chunks concatenated give the source back, up to white space behind
  the last chunk. Comments, strings and unbalanced braces included.
\<close>

theorem split_top_level_lossless:
  "\<exists>ws. src = concat (split_top_level src) @ ws \<and> list_all is_space ws"
  using chunk_loop_concat [of "[]" src 0] by (simp add: split_top_level_def)

text \<open>
  C27. the pruning loop ends with the largest choice of non-rejected chunks in which no chunk refers
  to a name that only dropped chunks declare.
\<close>

theorem keep_flags_largest_closed:
  "below (keep_flags chunks) (map (\<lambda>ch. \<not> is_rejected_chunk ch) chunks) \<and>
   closed_choice chunks (keep_flags chunks) \<and>
   (\<forall>ks. below ks (map (\<lambda>ch. \<not> is_rejected_chunk ch) chunks) \<and> closed_choice chunks ks \<longrightarrow>
      below ks (keep_flags chunks))"
  using keep_flags_spec by blast

theorem keep_flags_largest_closed_witness:
  "below [True, False] (keep_flags [''fn a();'', ''// EXPECT_ERROR''])"
proof -
  let ?cs = "[''fn a();'', ''// EXPECT_ERROR'']"
  have "\<not> is_rejected_chunk ''fn a();''" and m: "missing_names ?cs [True, False] = {}"
    by code_simp+
  then have "below [True, False] (map (\<lambda>ch. \<not> is_rejected_chunk ch) ?cs)"
    by (auto simp: below_def less_Suc_eq)
  moreover have "closed_choice ?cs [True, False]"
    unfolding closed_choice_def m by simp
  ultimately show ?thesis using keep_flags_largest_closed [of ?cs] by blast
qed

text \<open>
  C28. the stripped program is a subsequence of the chunks, none of them marked as a negative case,
  and a name that a kept chunk refers to and a dropped chunk declares is declared by a kept chunk
  too: nothing is left dangling.
\<close>

theorem strip_expect_error_no_dangling:
  "\<exists>kept. strip_expect_error src = concat kept \<and> subseq kept (split_top_level src) \<and>
     (\<forall>ch \<in> set kept. \<not> is_rejected_chunk ch \<and>
        (\<forall>d \<in> set (split_top_level src) - set kept. \<forall>x \<in> referenced_names ch \<inter> declared_names d.
           \<exists>k \<in> set kept. x \<in> declared_names k))"
proof (rule exI [of _ "kept_chunks src"], intro conjI ballI)
  let ?cs = "split_top_level src"
  let ?ks = "keep_flags ?cs"
  note len = length_keep_flags [of ?cs]
  show "strip_expect_error src = concat (kept_chunks src)" by (rule strip_kept)
  show "subseq (kept_chunks src) ?cs" unfolding kept_chunks_def by (rule subseq_filter_zip)
  fix ch assume "ch \<in> set (kept_chunks src)"
  then obtain i where i: "i < length ?cs" "?ks ! i" "ch = ?cs ! i" by (auto simp: kept_iff)
  then show "\<not> is_rejected_chunk ch"
    using keep_flags_spec(1) [of ?cs] by (auto simp: below_def)
  fix d x assume d: "d \<in> set ?cs - set (kept_chunks src)" and x: "x \<in> referenced_names ch \<inter> declared_names d"
  obtain j where j: "j < length ?cs" "d = ?cs ! j" using d by (auto simp: in_set_conv_nth)
  with d have "\<not> ?ks ! j" by (auto simp: kept_iff)
  moreover have "x \<notin> missing_names ?cs ?ks"
    using keep_flags_spec(2) [of ?cs] i x by (auto simp: closed_choice_def)
  ultimately obtain k where "k < length ?cs" "?ks ! k" "x \<in> declared_names (?cs ! k)"
    using j x len by (auto simp: missing_iff available_iff)
  then show "\<exists>k \<in> set (kept_chunks src). x \<in> declared_names k"
    by (intro bexI [of _ "?cs ! k"]) (auto simp: kept_iff)
qed

theorem strip_expect_error_no_dangling_witness:
  "\<exists>kept. strip_expect_error ''// EXPECT_ERROR fn a() { } fn b();'' = concat kept \<and>
     (\<forall>ch \<in> set kept. \<not> is_rejected_chunk ch)"
  using strip_expect_error_no_dangling [of "''// EXPECT_ERROR fn a() { } fn b();''"] by blast

end
