(* ===== verification/Dev_Gates.thy ===== *)
theory Dev_Gates
  imports Py_Strings "HOL-Library.List_Lexorder" "HOL-Library.Char_ord"
begin

text \<open>
  The development-gate selector \<open>tools/dev-gates.py\<close>: the routing table, the per-path sources of
  gates (the spec fixture's own metadata, the host-test manifest, the table), the selection that
  merges them without repetition, and the runner. Git, the file system and the shell are
  parameters: a function from arguments, paths and commands to what they answer.
\<close>

section \<open>The routing table\<close>

record Rule =
  patterns :: "string list"
  gates :: "string list"
  reason :: string
  checks :: "string list"
  excludes :: "string list"

definition RULES_compiler :: "Rule list" where
  "RULES_compiler =
    [\<lparr>patterns = [''src/*.zig''],
       gates = [''test'', ''diagnostics-reference-test'', ''diagnostic-code-inventory-test''],
       reason = ''compiler implementation changes need unit/spec coverage plus generated diagnostic reference and code ownership checks'',
       checks = [], excludes = [''src/*_tests.zig'', ''src/diagnostic_explain.zig'']\<rparr>,
     \<lparr>patterns = [''src/diagnostic_explain.zig''],
       gates = [''mcc-cli-test'', ''diagnostics-reference-test'', ''diagnostic-code-inventory-test''],
       reason = ''diagnostic explain changes need installed CLI behavior plus generated diagnostic reference and code ownership checks'',
       checks = [], excludes = []\<rparr>,
     \<lparr>patterns = [''src/parser.zig'', ''src/lexer.zig'', ''src/loader.zig'', ''src/diagnostics.zig'',
                   ''src/main.zig''],
       gates = [''test'', ''diagnostics-test'', ''bad-diagnostics-test'', ''diagnostics-reference-test'',
                ''diagnostic-code-inventory-test''],
       reason = ''front-end and diagnostics changes need unit/spec coverage, transcript locks, generated diagnostic reference, and code ownership'',
       checks = [], excludes = []\<rparr>,
     \<lparr>patterns = [''src/sema*.zig'', ''src/generic_precheck.zig'', ''src/monomorphize.zig'',
                   ''src/sema_*.zig''],
       gates = [''test'', ''bad-diagnostics-test'', ''c-test'', ''diff-backend''],
       reason = ''semantic changes need spec diagnostics, C emission sweep, and backend parity'',
       checks = [], excludes = [''src/*_tests.zig'']\<rparr>,
     \<lparr>patterns = [''src/mir*.zig'', ''src/ir_inspection.zig'', ''src/hir_inspection.zig'', ''src/eval.zig'',
                   ''src/numeric.zig''],
       gates = [''test'', ''c-test'', ''llvm-test'', ''diff-backend'', ''fuzz-reference''],
       reason = ''middle-end and evaluator changes can affect the C backend and the LLVM differential oracle'',
       checks = [], excludes = [''src/*_tests.zig'']\<rparr>,
     \<lparr>patterns = [''src/lower_c*.zig''],
       gates = [''test'', ''c-test'', ''diff-backend'', ''lowering-coverage''],
       reason = ''C backend changes need C sweep, parity, and lowering coverage ratchet'',
       checks = [], excludes = [''src/*_tests.zig'']\<rparr>,
     \<lparr>patterns = [''src/lower_llvm*.zig''],
       gates = [''test'', ''llvm-test'', ''llvm-obj-test'', ''diff-backend'', ''lowering-coverage''],
       reason = ''LLVM oracle changes need textual/object LLVM gates, C-vs-LLVM parity, and the lowering coverage ratchet'',
       checks = [], excludes = [''src/*_tests.zig'']\<rparr>,
     \<lparr>patterns = [''src/async_lower.zig''],
       gates = [''test'', ''c-test'', ''diff-backend'', ''fuzz-async'', ''fuzz-corpus''],
       reason = ''async lowering rewrites source before sema; expected-output fixtures, backend parity, generated async fuzzing, and corpus replay cover its risk'',
       checks = [], excludes = []\<rparr>,
     \<lparr>patterns = [''src/*_tests.zig''],
       gates = [''test''],
       reason = ''unit test source changes are covered by the compiler unit/spec test step'',
       checks = [], excludes = []\<rparr>,
     \<lparr>patterns = [''tools/ci/pass-gates.py''],
       gates = [''ci-pass-gates-test''],
       reason = ''CI PASS assertion helper changes need the focused CI anti-vacuity contract gate'',
       checks = [], excludes = []\<rparr>,
     \<lparr>patterns = [''build.zig'', ''build/*.zig'', ''tools/m0-parallel.sh'', ''tools/fast-parallel.sh''],
       gates = [''fast''],
       reason = ''build graph changes need the broad host-only confidence gate, which includes unit/spec and tier anti-drift checks'',
       checks = [], excludes = []\<rparr>,
     \<lparr>patterns = [''tools/dev-gates.py'', ''tools/toolchain/dev-gates-test.py''],
       gates = [''dev-gates-test''],
       reason = ''development gate selector changes need focused routing contract coverage'',
       checks = [], excludes = []\<rparr>,
     \<lparr>patterns = [''tools/test/contract-lint.py''],
       gates = [''test-lint''],
       reason = ''fixture contract linter changes need the fixture-contract lint gate'',
       checks = [], excludes = []\<rparr>]"

definition RULES_harness :: "Rule list" where
  "RULES_harness =
    [\<lparr>patterns = [''tools/toolchain/bad-diagnostics-test.py''],
       gates = [''bad-diagnostics-test''],
       reason = ''bad diagnostic golden-check changes need the bad diagnostics gate'',
       checks = [], excludes = []\<rparr>,
     \<lparr>patterns = [''tools/toolchain/diff-backend.sh''],
       gates = [''diff-backend''],
       reason = ''backend parity harness changes need the differential backend gate'',
       checks = [], excludes = []\<rparr>,
     \<lparr>patterns = [''tools/toolchain/diagnostics-test.sh''],
       gates = [''diagnostics-test''],
       reason = ''diagnostics transcript harness changes need the diagnostics gate'',
       checks = [], excludes = []\<rparr>,
     \<lparr>patterns = [''tools/toolchain/mcc-cli-test.sh''],
       gates = [''mcc-cli-test''],
       reason = ''CLI behavior harness changes need the CLI gate'',
       checks = [], excludes = []\<rparr>,
     \<lparr>patterns = [''tools/toolchain/install-layout-test.sh''],
       gates = [''install-layout-test''],
       reason = ''install-layout harness changes need the install layout gate'',
       checks = [], excludes = []\<rparr>,
     \<lparr>patterns = [''tools/toolchain/path-remap-test.sh''],
       gates = [''path-remap-test''],
       reason = ''path remap harness changes need the reproducible path gate'',
       checks = [], excludes = []\<rparr>,
     \<lparr>patterns = [''tools/toolchain/fmt-test.sh''],
       gates = [''fmt-test''],
       reason = ''formatter harness changes need the formatter gate'',
       checks = [], excludes = []\<rparr>,
     \<lparr>patterns = [''tools/toolchain/mcc-symbols-test.sh''],
       gates = [''mcc-symbols-test''],
       reason = ''symbol index harness changes need the symbols gate'',
       checks = [], excludes = []\<rparr>,
     \<lparr>patterns = [''tools/toolchain/mcc-inspection-modules-test.sh''],
       gates = [''mcc-inspection-modules-test''],
       reason = ''inspection module-boundary harness changes need the inspection module gate'',
       checks = [], excludes = []\<rparr>,
     \<lparr>patterns = [''tools/toolchain/mcc-list-tests-modules-test.sh''],
       gates = [''mcc-list-tests-modules-test''],
       reason = ''list-tests module-boundary harness changes need the list-tests module gate'',
       checks = [], excludes = []\<rparr>,
     \<lparr>patterns = [''tools/toolchain/std-api-docs.py''],
       gates = [''std-api-docs-test''],
       reason = ''stdlib API docs checker changes need the std API docs gate'',
       checks = [], excludes = []\<rparr>,
     \<lparr>patterns = [''docs/gate-manifest.json'', ''tools/toolchain/gate-manifest-test.py''],
       gates = [''gate-manifest-test''],
       reason = ''gate manifest changes need the gate manifest contract'',
       checks = [], excludes = []\<rparr>,
     \<lparr>patterns = [''tools/toolchain/lowering-coverage.sh'',
                   ''tools/toolchain/lowering-coverage-baseline.tsv'', ''docs/lowering-coverage.md''],
       gates = [''lowering-coverage''],
       reason = ''lowering coverage ratchet changes need the lowering coverage gate'',
       checks = [], excludes = []\<rparr>,
     \<lparr>patterns = [''docs/backend-expected-failures.json'',
                   ''tools/toolchain/backend-expected-failures-test.py'',
                   ''tools/toolchain/backend_gap_lib.py'', ''tools/toolchain/check-generated-c.sh'',
                   ''tools/toolchain/spec-emit-sweep.py''],
       gates = [''backend-expected-failures-test'', ''c-test'', ''sweep''],
       reason = ''known-backend-gap manifest changes need the manifest contract and both harnesses that consult it'',
       checks = [], excludes = []\<rparr>,
     \<lparr>patterns = [''src/architecture_boundary_tests.zig'', ''src/backend.zig'', ''src/backend_cleanup.zig'',
                   ''src/lower_c*.zig'', ''src/lower_llvm*.zig'', ''src/lower_cov.zig'',
                   ''src/mir_body_plan*.zig'', ''src/mir_executable_*.zig''],
       gates = [''architecture-boundary-test''],
       reason = ''backend/MIR-body module changes need the structural syntax-front-end import check'',
       checks = [], excludes = []\<rparr>,
     \<lparr>patterns = [''tools/toolchain/compiler-coverage.sh'',
                   ''tools/toolchain/compiler-coverage-baseline.tsv''],
       gates = [''compiler-coverage''],
       reason = ''compiler coverage ratchet changes need the compiler coverage gate'',
       checks = [], excludes = []\<rparr>,
     \<lparr>patterns = [''tools/toolchain/lowering-cov-instrument.py''],
       gates = [''lowering-coverage'', ''compiler-coverage''],
       reason = ''shared coverage instrumentation changes need both coverage ratchets'',
       checks = [], excludes = []\<rparr>,
     \<lparr>patterns = [''tools/toolchain/mc-audit.sh''],
       gates = [''unsafe-audit'', ''capability-mint-audit''],
       reason = ''shared MC audit changes need every retained security audit mode'',
       checks = [(''bash tools/toolchain/mc-audit.sh --mode capability-mint --self-test 2>&1 | rg '' @ [CHR 0x27] @ ''^CAP-MINT '' @ [CHR 0x27] @ '''')], excludes = []\<rparr>,
     \<lparr>patterns = [''docs/unsafe-boundary.md''],
       gates = [''unsafe-audit''],
       reason = ''unsafe-boundary docs need the unsafe audit gate'',
       checks = [], excludes = []\<rparr>,
     \<lparr>patterns = [''docs/std-api.md''],
       gates = [''std-api-docs-test''],
       reason = ''generated stdlib API docs need the std API docs gate'',
       checks = [], excludes = []\<rparr>,
     \<lparr>patterns = [''tools/toolchain/abi-test.sh'', ''tests/toolchain/abi_layout.mc''],
       gates = [''abi-test''],
       reason = ''ABI layout harness changes need the ABI layout gate'',
       checks = [], excludes = []\<rparr>,
     \<lparr>patterns = [''tools/toolchain/asm-targets-test.sh'', ''tests/toolchain/asm_targets.mc''],
       gates = [''asm-targets-test''],
       reason = ''asm target harness changes need the asm target gate'',
       checks = [], excludes = []\<rparr>,
     \<lparr>patterns = [''.github/workflows/ci.yml'', ''Dockerfile'', ''docker-compose.yml'',
                   ''tools/preflight.sh''],
       gates = [''preflight'', ''ci-pass-gates-test''],
       reason = ''toolchain and CI changes need preflight plus CI gate anti-vacuity checks'',
       checks = [], excludes = []\<rparr>,
     \<lparr>patterns = [''.github/workflows/nightly-fuzz.yml''],
       gates = [],
       reason = ''nightly workflow and benchmark metadata changes do not affect compiler-core gates'',
       checks = [''git diff --check''], excludes = []\<rparr>,
     \<lparr>patterns = [''tools/toolchain/checks-elision-parity.sh''],
       gates = [''checks-elision-parity''],
       reason = ''checks=all/checks=elide-proven parity harness changes need the safe checks elision parity gate'',
       checks = [], excludes = []\<rparr>]"

definition RULES_sweeps :: "Rule list" where
  "RULES_sweeps =
    [\<lparr>patterns = [''CHANGELOG.md''],
       gates = [],
       reason = ''changelog prose changes do not affect compiler-core gates'',
       checks = [''git diff --check''], excludes = []\<rparr>,
     \<lparr>patterns = [''build.zig.zon'', ''.zigversion''],
       gates = [''preflight''],
       reason = ''toolchain version metadata changes need preflight'',
       checks = [], excludes = []\<rparr>,
     \<lparr>patterns = [''tools/toolchain/diagnostics-reference.py'',
                   ''tools/toolchain/diagnostic-code-inventory.py'', ''docs/diagnostics.md'',
                   ''docs/diagnostic-code-inventory.md''],
       gates = [''diagnostics-reference-test'', ''diagnostic-code-inventory-test'',
                ''bad-diagnostics-test'', ''mcc-cli-test''],
       reason = ''diagnostic inventory changes need generated reference, ownership checks, and the installed explain CLI smoke'',
       checks = [], excludes = []\<rparr>,
     \<lparr>patterns = [''tools/toolchain/spec-*-sweep.py'', ''tools/toolchain/llvm-opt-sweep.py''],
       gates = [''test-lint''],
       reason = ''spec sweep allowlist changes need fixture-contract lint so codegen fixtures cannot be hidden'',
       checks = [], excludes = []\<rparr>,
     \<lparr>patterns = [''tools/toolchain/spec-emit-sweep.py''],
       gates = [''sweep''],
       reason = ''spec C-emission sweep script changes need the spec C emit sweep'',
       checks = [], excludes = []\<rparr>,
     \<lparr>patterns = [''tools/toolchain/spec-llvm-sweep.py''],
       gates = [''llvm-sweep''],
       reason = ''spec LLVM IR sweep script changes need the spec LLVM sweep'',
       checks = [], excludes = []\<rparr>,
     \<lparr>patterns = [''tools/toolchain/spec-llvm-obj-sweep.py''],
       gates = [''llvm-spec-obj-sweep''],
       reason = ''spec LLVM object sweep script changes need the spec LLVM object sweep'',
       checks = [], excludes = []\<rparr>,
     \<lparr>patterns = [''tools/toolchain/llvm-opt-sweep.py''],
       gates = [''llvm-opt-sweep''],
       reason = ''LLVM optimizer sweep script changes need the optimizer/verifier sweep'',
       checks = [], excludes = []\<rparr>,
     \<lparr>patterns = [''tools/toolchain/spec_sweep_lib.py''],
       gates = [''test-lint'', ''sweep'', ''llvm-sweep'', ''llvm-spec-obj-sweep'', ''llvm-opt-sweep''],
       reason = ''shared spec sweep parsing changes need every spec-backed emit/object/optimizer sweep'',
       checks = [], excludes = []\<rparr>,
     \<lparr>patterns = [''tools/toolchain/llvm-c-emit-sweep.py''],
       gates = [''llvm-c-sweep''],
       reason = ''LLVM C-emission sweep script changes need the C-emission LLVM IR sweep'',
       checks = [], excludes = []\<rparr>,
     \<lparr>patterns = [''tools/toolchain/llvm-c-obj-sweep.py''],
       gates = [''llvm-c-obj-sweep''],
       reason = ''LLVM C-object sweep script changes need the C-emission object sweep'',
       checks = [], excludes = []\<rparr>,
     \<lparr>patterns = [''tools/arch/qemu-mmio-test.sh''],
       gates = [''qemu-test'', ''llvm-qemu-test''],
       reason = ''typed-MMIO QEMU wrapper changes need its C and LLVM QEMU gates'',
       checks = [], excludes = []\<rparr>,
     \<lparr>patterns = [''tools/qemu/kernel-boot-lib.sh''],
       gates = [''preflight''],
       reason = ''shared QEMU boot library changes need toolchain preflight'',
       checks = [], excludes = []\<rparr>,
     \<lparr>patterns = [''docs/**/*.md'', ''docs/*.md'', ''*.md''],
       gates = [],
       reason = ''generic documentation changes need whitespace/patch sanity, not compiler execution'',
       checks = [''git diff --check''], excludes = []\<rparr>]"

definition RULES_fixtures :: "Rule list" where
  "RULES_fixtures =
    [\<lparr>patterns = [''tests/spec/*.mc''],
       gates = [],
       reason = ''spec fixtures are routed from their SPEC phase metadata'',
       checks = [], excludes = []\<rparr>,
     \<lparr>patterns = [''tests/c_emit/bad/*.mc''],
       gates = [''bad-diagnostics-test'', ''c-test''],
       reason = ''bad C-emission fixtures need golden diagnostics and reject-sweep coverage'',
       checks = [], excludes = []\<rparr>,
     \<lparr>patterns = [''tests/c_emit/*.mc'', ''tools/lib/host-tests.tsv'', ''tools/lib/host-harness.sh''],
       gates = [''c-test'', ''diff-backend'', ''llvm-c-sweep''],
       reason = ''host C fixtures are cross-backend parity surface'',
       checks = [], excludes = []\<rparr>,
     \<lparr>patterns = [''tests/llvm/*.mc''],
       gates = [''llvm-test'', ''llvm-obj-test''],
       reason = ''LLVM backend fixtures need the textual and object LLVM fixture gates'',
       checks = [], excludes = []\<rparr>,
     \<lparr>patterns = [''tools/toolchain/llvm-test.sh''],
       gates = [''llvm-test''],
       reason = ''LLVM textual harness changes need the textual LLVM fixture gate'',
       checks = [], excludes = []\<rparr>,
     \<lparr>patterns = [''tools/toolchain/llvm-obj-test.sh''],
       gates = [''llvm-obj-test''],
       reason = ''LLVM object harness changes need the LLVM object fixture gate'',
       checks = [], excludes = []\<rparr>,
     \<lparr>patterns = [''tools/toolchain/llvm-debug-test.sh''],
       gates = [''llvm-debug-test''],
       reason = ''LLVM debug harness changes need the DWARF/source-line mapping gate'',
       checks = [], excludes = []\<rparr>,
     \<lparr>patterns = [''tools/toolchain/llvm-std-test.sh''],
       gates = [''llvm-std-test''],
       reason = ''LLVM std harness changes need the LLVM stdlib gate'',
       checks = [], excludes = []\<rparr>,
     \<lparr>patterns = [''tools/toolchain/llvm-toolchain-test.sh''],
       gates = [''llvm-toolchain-test''],
       reason = ''LLVM toolchain harness changes need the LLVM toolchain gate'',
       checks = [], excludes = []\<rparr>,
     \<lparr>patterns = [''tools/toolchain/llvm-runtime-test.sh''],
       gates = [''llvm-runtime-test''],
       reason = ''LLVM runtime harness changes need the LLVM runtime gate'',
       checks = [], excludes = []\<rparr>,
     \<lparr>patterns = [''tools/toolchain/llvm-demo-test.sh''],
       gates = [''llvm-demo-test''],
       reason = ''LLVM demo harness changes need the LLVM demo gate'',
       checks = [], excludes = []\<rparr>,
     \<lparr>patterns = [''tools/toolchain/llvm-*.sh''],
       gates = [''llvm-test'', ''llvm-obj-test'', ''llvm-sweep'', ''llvm-c-obj-sweep''],
       reason = ''unclassified LLVM harness changes keep the conservative textual, object, and sweep coverage'',
       checks = [], excludes = [''tools/toolchain/llvm-test.sh'', ''tools/toolchain/llvm-obj-test.sh'',
                   ''tools/toolchain/llvm-debug-test.sh'', ''tools/toolchain/llvm-std-test.sh'',
                   ''tools/toolchain/llvm-toolchain-test.sh'', ''tools/toolchain/llvm-runtime-test.sh'',
                   ''tools/toolchain/llvm-demo-test.sh'', ''tools/toolchain/llvm-c-*.py'']\<rparr>,
     \<lparr>patterns = [''tools/fuzz/mcfuzz.py''],
       gates = [''fuzz'', ''fuzz-async'', ''fuzz-sanitize'', ''fuzz-asan'', ''fuzz-trap'',
                ''fuzz-trapsite'', ''fuzz-robust'', ''fuzz-failclosed'', ''fuzz-determinism'',
                ''fuzz-pipeline'', ''fuzz-artifacts'', ''fuzz-roundtrip'', ''fuzz-metamorphic'',
                ''fuzz-optlevel'', ''fuzz-floatbits'', ''fuzz-reference'', ''fuzz-corpus''],
       reason = ''mcfuzz framework changes need the current mcfuzz oracle family and persisted corpus replay'',
       checks = [], excludes = []\<rparr>,
     \<lparr>patterns = [''tools/fuzz/mcref.py''],
       gates = [''fuzz-reference''],
       reason = ''reference interpreter changes need the independent reference oracle'',
       checks = [], excludes = []\<rparr>,
     \<lparr>patterns = [''tools/fuzz/corpus/*.mc''],
       gates = [''fuzz-corpus''],
       reason = ''persisted mcfuzz regression corpus changes need corpus replay'',
       checks = [], excludes = []\<rparr>,
     \<lparr>patterns = [''std/**/*'', ''tests/qemu/**/*'', ''tools/arch/*'', ''tools/proc/*'', ''tools/mem/*''],
       gates = [''fast''],
       reason = ''std/QEMU freestanding changes need host confidence'',
       checks = [], excludes = [''tools/arch/qemu-mmio-test.sh'']\<rparr>]"

definition RULES :: "Rule list" where
  "RULES = RULES_compiler @ RULES_harness @ RULES_sweeps @ RULES_fixtures"


section \<open>Changed files\<close>

text \<open>
  \<open>git args\<close> answers the exit code and the output. \<open>run_git\<close> turns a failure into \<open>SystemExit\<close>,
  here the left summand with the message.
\<close>

type_synonym git = "string list \<Rightarrow> int \<times> string"

definition run_git :: "git \<Rightarrow> string list \<Rightarrow> string + string list" where
  "run_git git args =
     (case git args of (rc, out) \<Rightarrow>
        if rc \<noteq> 0 then Inl (''git '' @ join '' '' args @ '' failed with exit '' @ str_int rc)
        else Inr (filter (\<lambda>l. l \<noteq> []) (map strip (splitlines out))))"

definition changed_files :: "git \<Rightarrow> string option \<Rightarrow> bool \<Rightarrow> bool \<Rightarrow> bool \<Rightarrow> string + string list" where
  "changed_files git base staged unstaged all_changes =
     (let run = \<lambda>c args. if c then run_git git args else Inr [] in
      rbind (case base of
               None \<Rightarrow> Inr []
             | Some b \<Rightarrow> run (b \<noteq> []) [''diff'', ''--name-only'', b @ ''...HEAD'']) (\<lambda>f1.
      rbind (run (staged \<or> all_changes) [''diff'', ''--cached'', ''--name-only'']) (\<lambda>f2.
      rbind (run (unstaged \<or> all_changes) [''diff'', ''--name-only'']) (\<lambda>f3.
      rbind (run (unstaged \<or> all_changes) [''ls-files'', ''--others'', ''--exclude-standard'']) (\<lambda>f4.
        Inr (sorted_list_of_set (set (f1 @ f2 @ f3 @ f4))))))))"


section \<open>Matching\<close>

definition matches :: "string \<Rightarrow> string \<Rightarrow> bool result" where
  "matches path pattern =
     (if CHR ''/'' \<in> set pattern then path_match path pattern else Inr (fnmatchcase path pattern))"

text \<open>\<open>any(matches(path, pattern) for pattern in patterns)\<close>, stopping at the first match.\<close>

fun any_matches :: "string \<Rightarrow> string list \<Rightarrow> bool result" where
  "any_matches path [] = Inr False"
| "any_matches path (p # ps) = rbind (matches path p) (\<lambda>b. if b then Inr True else any_matches path ps)"

definition rule_applies :: "string \<Rightarrow> Rule \<Rightarrow> bool result" where
  "rule_applies path r =
     rbind (any_matches path (patterns r)) (\<lambda>b.
       if b then rbind (any_matches path (excludes r)) (\<lambda>e. Inr (\<not> e)) else Inr False)"


section \<open>Gates from the host manifest and from spec metadata\<close>

text \<open>
  What iterating over a file opened with \<open>encoding="utf-8"\<close> does: it yields lines, and then the file
  ends, or the opening or a read raises \<open>OSError\<close>, or the decoder meets bytes that are not UTF-8 and
  raises \<open>UnicodeDecodeError\<close>, a \<open>ValueError\<close>, which the handlers for \<open>OSError\<close> do not catch. (The
  decoder works on blocks, so some lines before the bad bytes may have been yielded.)
\<close>

datatype reading_end = EndOfFile | ReadFails | NotUtf8

type_synonym text_file = "string list \<times> reading_end"

fun host_rows :: "string \<Rightarrow> string list \<Rightarrow> string list \<times> string list" where
  "host_rows path [] = ([], [])"
| "host_rows path (line # rest) =
     (let stripped = strip line in
      if stripped = [] \<or> startswith stripped ''#'' then host_rows path rest
      else (case split_on CHR 0x09 stripped of
          name # fixture # mode # _ \<Rightarrow>
            if fixture = path \<or> (mode = ''driver'' \<and> ''tools/lib/host-drivers/'' @ name @ ''.c'' = path)
            then ([name],
              [path @ '' is owned by tools/lib/host-tests.tsv row '' @ name @
               ''; run the exact host-harness gate instead of broad QEMU/freestanding confidence tiers''])
            else host_rows path rest
        | _ \<Rightarrow> host_rows path rest))"

definition host_manifest_gates :: "text_file \<Rightarrow> string \<Rightarrow> (string list \<times> string list) result" where
  "host_manifest_gates manifest path =
     (if \<not> (startswith path ''tests/qemu/'' \<or> startswith path ''tools/lib/host-drivers/'') then Inr ([], [])
      else
        (let (gs, rs) = host_rows path (fst manifest) in
         if gs = [] \<and> snd manifest = NotUtf8 then Inl ValueError else Inr (gs, rs)))"

definition spec_prefix :: string where
  "spec_prefix = ''// SPEC: phase=''"

definition phase_gates :: "string set \<Rightarrow> string list \<times> string list" where
  "phase_gates phases =
     (let c = ''lower-c'' \<in> phases; l = ''lower-ir'' \<in> phases \<or> ''llvm'' \<in> phases in
      ([''test''] @ (if c then [''sweep''] else []) @ (if l then [''llvm-sweep''] else []),
       [''spec fixture metadata and inline EXPECT contracts are checked by compiler unit/spec tests'']
       @ (if c then [''lower-c spec fixtures need the spec emit-C sweep, not the tests/c_emit c-test corpus''] else [])
       @ (if l then [''lower-ir/LLVM spec fixtures need the spec LLVM IR sweep''] else [])))"

fun spec_phases :: "string list \<Rightarrow> string set option" where
  "spec_phases [] = None"
| "spec_phases (line # rest) =
     (let stripped = strip line in
      if \<not> startswith stripped spec_prefix then spec_phases rest
      else Some (set (map strip (split_on CHR '','' (drop (length spec_prefix) stripped)))))"

text \<open>The loop reads at most 20 lines, so bytes behind them are never decoded on its account.\<close>

definition spec_fixture_gates :: "text_file \<Rightarrow> (string list \<times> string list) result" where
  "spec_fixture_gates source =
     (case spec_phases (take 20 (fst source)) of
        Some phases \<Rightarrow> Inr (phase_gates phases)
      | None \<Rightarrow>
          if length (fst source) < 20 \<and> snd source = NotUtf8 then Inl ValueError
          else Inr
            ([''test''],
             [''spec fixture metadata and inline EXPECT contracts are checked by compiler unit/spec tests'',
              ''missing or unreadable SPEC phase metadata defaults to the conservative unit/spec gate'']))"


section \<open>Selection\<close>

text \<open>The six local variables of \<open>select_gates\<close>.\<close>

record selection =
  sel_gates :: "string list"
  sel_checks :: "string list"
  sel_reasons :: "string list"
  seen_gates :: "string set"
  seen_checks :: "string set"
  seen_reasons :: "string set"

definition empty_selection :: selection where
  "empty_selection = \<lparr>sel_gates = [], sel_checks = [], sel_reasons = [],
     seen_gates = {}, seen_checks = {}, seen_reasons = {}\<rparr>"

definition add_gate :: "string \<Rightarrow> selection \<Rightarrow> selection" where
  "add_gate g st =
     (if g \<in> seen_gates st then st
      else st\<lparr>seen_gates := insert g (seen_gates st), sel_gates := sel_gates st @ [g]\<rparr>)"

definition add_check :: "string \<Rightarrow> selection \<Rightarrow> selection" where
  "add_check c st =
     (if c \<in> seen_checks st then st
      else st\<lparr>seen_checks := insert c (seen_checks st), sel_checks := sel_checks st @ [c]\<rparr>)"

definition add_reason :: "string \<Rightarrow> selection \<Rightarrow> selection" where
  "add_reason r st =
     (if r \<in> seen_reasons st then st
      else st\<lparr>seen_reasons := insert r (seen_reasons st), sel_reasons := sel_reasons st @ [r]\<rparr>)"

fun apply_rules :: "string \<Rightarrow> Rule list \<Rightarrow> selection \<Rightarrow> selection result" where
  "apply_rules path [] st = Inr st"
| "apply_rules path (r # rs) st =
     rbind (rule_applies path r) (\<lambda>b.
       apply_rules path rs
         (if b then add_reason (reason r) (fold add_check (checks r) (fold add_gate (gates r) st)) else st))"

text \<open>
  The body of the loop over the paths. \<open>host\<close> is the manifest file and \<open>files\<close> the repository's
  text files by path.
\<close>

definition select_path :: "text_file \<Rightarrow> (string \<Rightarrow> text_file) \<Rightarrow> string \<Rightarrow> selection \<Rightarrow> selection result" where
  "select_path host files path st =
     rbind (path_match path ''tests/spec/*.mc'') (\<lambda>spec.
       if spec then
         rbind (spec_fixture_gates (files path)) (\<lambda>(gs, rs).
           Inr (fold add_reason rs (fold add_gate gs st)))
       else
         rbind (host_manifest_gates host path) (\<lambda>(gs, rs).
           if gs \<noteq> [] then Inr (fold add_reason rs (fold add_gate gs st))
           else apply_rules path RULES st))"

fun select_paths :: "text_file \<Rightarrow> (string \<Rightarrow> text_file) \<Rightarrow> string list \<Rightarrow> selection \<Rightarrow> selection result" where
  "select_paths host files [] st = Inr st"
| "select_paths host files (p # ps) st =
     rbind (select_path host files p st) (\<lambda>st'. select_paths host files ps st')"

definition select_gates ::
  "text_file \<Rightarrow> (string \<Rightarrow> text_file) \<Rightarrow> string list \<Rightarrow> (string list \<times> string list \<times> string list) result" where
  "select_gates host files paths =
     rbind (select_paths host files paths empty_selection) (\<lambda>st.
       if paths \<noteq> [] \<and> sel_gates st = [] \<and> sel_checks st = [] then
         Inr ([''test''], sel_checks st, [''unmapped changes default to compiler unit/spec tests''])
       else Inr (sel_gates st, sel_checks st, sel_reasons st))"


section \<open>Running\<close>

definition focused_run_commands :: "string list \<Rightarrow> string list \<Rightarrow> string list" where
  "focused_run_commands gs cs =
     cs @ (if gs \<noteq> [] then [''zig build '' @ join '' '' gs @ '' --summary all''] else [])"

text \<open>
  \<open>shell before command\<close> is the exit code of \<open>command\<close> when the commands \<open>before\<close> have already run.
  The result is the exit code with the commands that were started, in order.
\<close>

fun run_loop :: "(string list \<Rightarrow> string \<Rightarrow> int) \<Rightarrow> string list \<Rightarrow> string list \<Rightarrow> int \<times> string list" where
  "run_loop shell before [] = (0, before)"
| "run_loop shell before (c # cs) =
     (let rc = shell before c in
      if rc \<noteq> 0 then (rc, before @ [c]) else run_loop shell (before @ [c]) cs)"

definition run_focused_commands :: "(string list \<Rightarrow> string \<Rightarrow> int) \<Rightarrow> string list \<Rightarrow> int \<times> string list" where
  "run_focused_commands shell commands =
     (if commands = [] then (0, []) else run_loop shell [] commands)"

record args =
  arg_base :: "string option"
  arg_staged :: bool
  arg_unstaged :: bool
  arg_all :: bool
  arg_run :: bool
  arg_paths :: "string list"

definition main_paths :: "git \<Rightarrow> args \<Rightarrow> string + string list" where
  "main_paths git a =
     (if arg_paths a \<noteq> [] then Inr (sorted_list_of_set (set (arg_paths a)))
      else changed_files git (arg_base a) (arg_staged a) (arg_unstaged a)
        (arg_all a \<or> \<not> ((arg_base a \<noteq> None \<and> arg_base a \<noteq> Some []) \<or> arg_staged a \<or> arg_unstaged a)))"

definition main_report :: "string list \<Rightarrow> string list \<Rightarrow> string list \<Rightarrow> string list \<Rightarrow> string list" where
  "main_report paths gs cs rs =
     [''Changed files:''] @ map (\<lambda>p. ''  '' @ p) paths
     @ [nl @ ''Focused checks:''] @ map (\<lambda>c. ''  '' @ c) cs
     @ (if gs \<noteq> [] then [''  zig build '' @ join '' '' gs] else [])
     @ (if rs \<noteq> [] then [nl @ ''Why:''] @ map (\<lambda>r. ''  - '' @ r) rs else [])
     @ (if gs \<noteq> [] then
          [nl @ ''Confidence gates:'',
           ''  zig build core-dev            # fast compiler-core development loop'',
           ''  zig build fast'',
           ''  tools/fast-parallel.sh <jobs>  # fast gates in parallel'',
           ''  tools/m0-parallel.sh <jobs>    # broad local milestone check when the slice is large'',
           nl @ ''Truth gate:'',
           ''  zig build m0                   # core compiler validation'',
           ''  zig build m0-full              # broad local validation sweep'']
        else [nl @ ''Confidence gates:'', ''  none for checks-only changes''])"

text \<open>
  \<open>main\<close>: the report it prints, its exit code and the commands it started. \<open>SystemExit\<close> with a
  message exits with code 1.
\<close>

definition main ::
  "git \<Rightarrow> text_file \<Rightarrow> (string \<Rightarrow> text_file) \<Rightarrow> (string list \<Rightarrow> string \<Rightarrow> int) \<Rightarrow> args \<Rightarrow>
   (string list \<times> int \<times> string list) result" where
  "main git host files shell a =
     (case main_paths git a of
        Inl msg \<Rightarrow> Inr ([msg], 1, [])
      | Inr paths \<Rightarrow>
          rbind (select_gates host files paths) (\<lambda>(gs, cs, rs).
            if paths = [] then Inr ([''No changed files found.''], 0, [])
            else
              (let (rc, started) =
                 if arg_run a then run_focused_commands shell (focused_run_commands gs cs) else (0, [])
               in Inr (main_report paths gs cs rs, rc, started))))"

end
