(* ===== verification/Dev_Gates_Props.thy ===== *)
theory Dev_Gates_Props
  imports Dev_Gates
begin

text \<open>
  What the gate selector promises: it raises only on a text file that is not UTF-8, and otherwise it
  is the order-preserving union of what each path asks for, it is never empty for a change, compiler sources always reach the unit tests, and
  the runner stops at the first failing command.
\<close>

section \<open>The table never raises\<close>

text \<open>A pattern that names at least one component, without character classes.\<close>

definition pattern_ok :: "string \<Rightarrow> bool" where
  "pattern_ok p \<longleftrightarrow> (CHR ''/'' \<in> set p \<longrightarrow> path_parts p \<noteq> []) \<and> CHR ''['' \<notin> set p \<and> \<not> startswith p ''/''"

definition rule_ok :: "Rule \<Rightarrow> bool" where
  "rule_ok r \<longleftrightarrow> list_all pattern_ok (patterns r) \<and> list_all pattern_ok (excludes r)"

lemma RULES_compiler_ok: "list_all rule_ok RULES_compiler"
  by code_simp

lemma RULES_harness_ok: "list_all rule_ok RULES_harness"
  by code_simp

lemma RULES_sweeps_ok: "list_all rule_ok RULES_sweeps"
  by code_simp

lemma RULES_fixtures_ok: "list_all rule_ok RULES_fixtures"
  by code_simp

lemma RULES_ok: "list_all rule_ok RULES"
  by (simp add: RULES_def RULES_compiler_ok RULES_harness_ok RULES_sweeps_ok RULES_fixtures_ok)

text \<open>Matching as a predicate.\<close>

definition glob_hit :: "string \<Rightarrow> string \<Rightarrow> bool" where
  "glob_hit path p \<longleftrightarrow>
     (if CHR ''/'' \<in> set p then
        (let pat = path_parts p; parts = path_parts path in
         length pat \<le> length parts \<and> list_all2 fnmatchcase (drop (length parts - length pat) parts) pat)
      else fnmatchcase path p)"

lemma matches_glob: "pattern_ok p \<Longrightarrow> matches path p = Inr (glob_hit path p)"
  by (auto simp: matches_def glob_hit_def path_match_def pattern_ok_def Let_def)

lemma any_matches_glob: "list_all pattern_ok ps \<Longrightarrow> any_matches path ps = Inr (list_ex (glob_hit path) ps)"
  by (induction ps) (auto simp: matches_glob)

definition rule_hit :: "string \<Rightarrow> Rule \<Rightarrow> bool" where
  "rule_hit path r \<longleftrightarrow> list_ex (glob_hit path) (patterns r) \<and> \<not> list_ex (glob_hit path) (excludes r)"

lemma rule_applies_hit: "rule_ok r \<Longrightarrow> rule_applies path r = Inr (rule_hit path r)"
  by (simp add: rule_applies_def rule_ok_def any_matches_glob rule_hit_def)


section \<open>Selection is an ordered union\<close>

text \<open>
  The state after some contributions: the lists hold their first occurrences, the sets hold all of
  them. The three adders act on one field each.
\<close>

definition represents :: "string list \<Rightarrow> string list \<Rightarrow> string list \<Rightarrow> selection \<Rightarrow> bool" where
  "represents gs cs rs st \<longleftrightarrow>
     sel_gates st = dedup gs \<and> seen_gates st = set gs \<and>
     sel_checks st = dedup cs \<and> seen_checks st = set cs \<and>
     sel_reasons st = dedup rs \<and> seen_reasons st = set rs"

lemma represents_empty: "represents [] [] [] empty_selection"
  by (simp add: represents_def empty_selection_def)

lemma represents_gates: "represents gs cs rs st \<Longrightarrow> represents (gs @ xs) cs rs (fold add_gate xs st)"
proof (induction xs arbitrary: gs st)
  case (Cons x xs)
  have "represents (gs @ [x]) cs rs (add_gate x st)"
    using Cons.prems by (auto simp: represents_def add_gate_def dedup_snoc)
  from Cons.IH [OF this] show ?case by simp
qed simp

lemma represents_checks: "represents gs cs rs st \<Longrightarrow> represents gs (cs @ xs) rs (fold add_check xs st)"
proof (induction xs arbitrary: cs st)
  case (Cons x xs)
  have "represents gs (cs @ [x]) rs (add_check x st)"
    using Cons.prems by (auto simp: represents_def add_check_def dedup_snoc)
  from Cons.IH [OF this] show ?case by simp
qed simp

lemma represents_reasons: "represents gs cs rs st \<Longrightarrow> represents gs cs (rs @ xs) (fold add_reason xs st)"
proof (induction xs arbitrary: rs st)
  case (Cons x xs)
  have "represents gs cs (rs @ [x]) (add_reason x st)"
    using Cons.prems by (auto simp: represents_def add_reason_def dedup_snoc)
  from Cons.IH [OF this] show ?case by simp
qed simp

text \<open>
  The paths whose text file stops the selection: the part of it that the lookup reads is not UTF-8 and
  nothing in front of the bad bytes has ended the lookup.
\<close>

definition undecodable :: "text_file \<Rightarrow> (string \<Rightarrow> text_file) \<Rightarrow> string \<Rightarrow> bool" where
  "undecodable host files path \<longleftrightarrow>
     (if glob_hit path ''tests/spec/*.mc'' then
        snd (files path) = NotUtf8 \<and> length (fst (files path)) < 20 \<and> spec_phases (fst (files path)) = None
      else
        (startswith path ''tests/qemu/'' \<or> startswith path ''tools/lib/host-drivers/'') \<and>
        snd host = NotUtf8 \<and> fst (host_rows path (fst host)) = [])"

text \<open>What one path asks for.\<close>

definition asks :: "text_file \<Rightarrow> (string \<Rightarrow> text_file) \<Rightarrow> string \<Rightarrow> string list \<times> string list \<times> string list" where
  "asks host files path =
     (if glob_hit path ''tests/spec/*.mc'' then
        (case spec_fixture_gates (files path) of Inl e \<Rightarrow> ([], [], []) | Inr (gs, rs) \<Rightarrow> (gs, [], rs))
      else
        (case host_manifest_gates host path of
           Inl e \<Rightarrow> ([], [], [])
         | Inr (gs, rs) \<Rightarrow>
             if gs \<noteq> [] then (gs, [], rs)
             else
               (let hits = filter (rule_hit path) RULES in
                (concat (map gates hits), concat (map checks hits), map reason hits))))"

lemma spec_gates_raise:
  "spec_fixture_gates f = Inl e \<longleftrightarrow>
     e = ValueError \<and> snd f = NotUtf8 \<and> length (fst f) < 20 \<and> spec_phases (fst f) = None"
  by (auto simp: spec_fixture_gates_def split: option.splits)

lemma host_gates_raise:
  "host_manifest_gates host path = Inl e \<longleftrightarrow>
     e = ValueError \<and> (startswith path ''tests/qemu/'' \<or> startswith path ''tools/lib/host-drivers/'') \<and>
     snd host = NotUtf8 \<and> fst (host_rows path (fst host)) = []"
  by (auto simp: host_manifest_gates_def split: prod.splits)

definition asks_all :: "text_file \<Rightarrow> (string \<Rightarrow> text_file) \<Rightarrow> string list \<Rightarrow> string list \<times> string list \<times> string list" where
  "asks_all host files paths =
     (concat (map (\<lambda>p. fst (asks host files p)) paths),
      concat (map (\<lambda>p. fst (snd (asks host files p))) paths),
      concat (map (\<lambda>p. snd (snd (asks host files p))) paths))"

lemma apply_rules_represents:
  "list_all rule_ok rules \<Longrightarrow> represents gs cs rs st \<Longrightarrow>
   \<exists>st'. apply_rules path rules st = Inr st' \<and>
     represents (gs @ concat (map gates (filter (rule_hit path) rules)))
       (cs @ concat (map checks (filter (rule_hit path) rules)))
       (rs @ map reason (filter (rule_hit path) rules)) st'"
proof (induction rules arbitrary: gs cs rs st)
  case (Cons r rules)
  show ?case
  proof (cases "rule_hit path r")
    case True
    have "represents (gs @ gates r) (cs @ checks r) (rs @ [reason r])
        (add_reason (reason r) (fold add_check (checks r) (fold add_gate (gates r) st)))"
      using represents_reasons [OF represents_checks [OF represents_gates [OF Cons.prems(2)]], where xs = "[reason r]"]
      by simp
    from Cons.IH [OF _ this] Cons.prems(1) True show ?thesis by (simp add: rule_applies_hit)
  next
    case False
    with Cons show ?thesis by (simp add: rule_applies_hit)
  qed
qed simp

lemma spec_pattern_ok: "pattern_ok ''tests/spec/*.mc''"
  by code_simp

lemma spec_match: "path_match path ''tests/spec/*.mc'' = Inr (glob_hit path ''tests/spec/*.mc'')"
  using matches_glob [OF spec_pattern_ok, of path] by (simp add: matches_def)

lemma select_path_raises: "undecodable host files path \<Longrightarrow> select_path host files path st = Inl ValueError"
proof (cases "glob_hit path ''tests/spec/*.mc''")
  case True
  assume "undecodable host files path"
  with True have "spec_fixture_gates (files path) = Inl ValueError" by (simp add: undecodable_def spec_gates_raise)
  then show ?thesis by (simp add: select_path_def spec_match True)
next
  case False
  assume "undecodable host files path"
  with False have "host_manifest_gates host path = Inl ValueError" by (simp add: undecodable_def host_gates_raise)
  then show ?thesis by (simp add: select_path_def spec_match False)
qed

lemma select_path_represents:
  assumes "represents gs cs rs st" and "\<not> undecodable host files path"
  shows "\<exists>st'. select_path host files path st = Inr st' \<and>
    represents (gs @ fst (asks host files path)) (cs @ fst (snd (asks host files path)))
      (rs @ snd (snd (asks host files path))) st'"
proof (cases "glob_hit path ''tests/spec/*.mc''")
  case True
  with assms(2) have "spec_fixture_gates (files path) \<noteq> Inl e" for e
    unfolding spec_gates_raise by (simp add: undecodable_def)
  then obtain gs1 rs1 where s: "spec_fixture_gates (files path) = Inr (gs1, rs1)"
    by (metis old.sum.exhaust surj_pair)
  show ?thesis using represents_reasons [OF represents_gates [OF assms(1)]]
    by (simp add: select_path_def spec_match True s asks_def)
next
  case False
  with assms(2) have "host_manifest_gates host path \<noteq> Inl e" for e
    unfolding host_gates_raise by (simp add: undecodable_def)
  then obtain gs1 rs1 where h: "host_manifest_gates host path = Inr (gs1, rs1)"
    by (metis old.sum.exhaust surj_pair)
  show ?thesis
    using represents_reasons [OF represents_gates [OF assms(1)]] apply_rules_represents [OF RULES_ok assms(1), of path]
    by (auto simp: select_path_def spec_match False h asks_def Let_def)
qed

lemma select_paths_represents:
  "represents gs cs rs st \<Longrightarrow> \<not> list_ex (undecodable host files) paths \<Longrightarrow>
   \<exists>st'. select_paths host files paths st = Inr st' \<and>
     represents (gs @ fst (asks_all host files paths)) (cs @ fst (snd (asks_all host files paths)))
       (rs @ snd (snd (asks_all host files paths))) st'"
proof (induction paths arbitrary: gs cs rs st)
  case (Cons p ps)
  from select_path_represents [OF Cons.prems(1), of host files p] Cons.prems(2) obtain st1 where
    "select_path host files p st = Inr st1"
    and "represents (gs @ fst (asks host files p)) (cs @ fst (snd (asks host files p)))
      (rs @ snd (snd (asks host files p))) st1" by auto
  with Cons.IH [OF this(2)] Cons.prems(2) show ?case by (auto simp: asks_all_def)
qed (simp add: asks_all_def)

lemma select_paths_raises:
  "represents gs cs rs st \<Longrightarrow> list_ex (undecodable host files) paths \<Longrightarrow>
   select_paths host files paths st = Inl ValueError"
proof (induction paths arbitrary: gs cs rs st)
  case (Cons p ps)
  show ?case
  proof (cases "undecodable host files p")
    case True
    then show ?thesis by (simp add: select_path_raises)
  next
    case False
    from select_path_represents [OF Cons.prems(1) this] Cons.IH Cons.prems(2) False show ?thesis by auto
  qed
qed simp

text \<open>The selection, in closed form.\<close>

lemma select_gates_closed:
  "select_gates host files paths =
     (if list_ex (undecodable host files) paths then Inl ValueError
      else Inr (case asks_all host files paths of (gs, cs, rs) \<Rightarrow>
        if paths \<noteq> [] \<and> gs = [] \<and> cs = []
        then ([''test''], [], [''unmapped changes default to compiler unit/spec tests''])
        else (dedup gs, dedup cs, dedup rs)))"
proof (cases "list_ex (undecodable host files) paths")
  case True
  then show ?thesis by (simp add: select_gates_def select_paths_raises [OF represents_empty])
next
  case False
  then show ?thesis
    using select_paths_represents [OF represents_empty False]
    by (auto simp: select_gates_def represents_def split: prod.splits)
qed


section \<open>Routing of compiler sources\<close>

lemma path_parts_two:
  assumes "CHR ''/'' \<notin> set a" "CHR ''/'' \<notin> set b" "a \<noteq> []" "a \<noteq> ''.''" "b \<noteq> []" "b \<noteq> ''.''"
  shows "path_parts (a @ CHR ''/'' # b) = [a, b]"
proof -
  have "\<not> startswith (a @ CHR ''/'' # b) ''/''"
    using assms by (cases a) (auto simp: startswith_def)
  moreover have "\<not> startswith (a @ CHR ''/'' # b) ''//''"
    using assms by (cases a) (auto simp: startswith_def)
  ultimately show ?thesis using assms by (simp add: path_parts_def split_on_append_sep)
qed

lemma glob_two:
  assumes "path_parts p = [pa, pb]" and "CHR ''/'' \<in> set p" and "path_parts path = [a, b]"
  shows "glob_hit path p \<longleftrightarrow> fnmatchcase a pa \<and> fnmatchcase b pb"
  using assms by (simp add: glob_hit_def)

lemma src_parts:
  "path_parts ''src/*.zig'' = [''src'', ''*.zig'']"
  "path_parts ''src/*_tests.zig'' = [''src'', ''*_tests.zig'']"
  "path_parts ''src/diagnostic_explain.zig'' = [''src'', ''diagnostic_explain.zig'']"
  "length (path_parts ''tests/spec/*.mc'') = 3"
  by code_simp+

lemma src_globs:
  assumes "CHR ''/'' \<notin> set n"
  defines "path \<equiv> ''src/'' @ n @ ''.zig''"
  shows "glob_hit path ''src/*.zig''"
    and "glob_hit path ''src/*_tests.zig'' \<longleftrightarrow> (\<exists>m. n = m @ ''_tests'')"
    and "glob_hit path ''src/diagnostic_explain.zig'' \<longleftrightarrow> n = ''diagnostic_explain''"
    and "\<not> glob_hit path ''tests/spec/*.mc''"
proof -
  have parts: "path_parts path = [''src'', n @ ''.zig'']"
    unfolding path_def using assms(1) path_parts_two [of "''src''" "n @ ''.zig''"] by simp
  have lit: "literal []" "literal ''.zig''" "literal ''_tests.zig''" "literal ''src''" "literal ''diagnostic_explain.zig''"
    by (simp_all add: literal_def)
  show "glob_hit path ''src/*.zig''"
    using fnmatch_prefix_suffix [OF lit(1,2), of "n @ ''.zig''"]
    by (simp add: glob_two [OF src_parts(1) _ parts] fnmatch_literal [OF lit(4)])
  have "n @ ''.zig'' = m @ ''_tests.zig'' \<longleftrightarrow> n = m @ ''_tests''" for m
    using append_same_eq [of n "''.zig''" "m @ ''_tests''"] by simp
  then show "glob_hit path ''src/*_tests.zig'' \<longleftrightarrow> (\<exists>m. n = m @ ''_tests'')"
    using fnmatch_prefix_suffix [OF lit(1,3), of "n @ ''.zig''"]
    by (simp add: glob_two [OF src_parts(2) _ parts] fnmatch_literal [OF lit(4)])
  show "glob_hit path ''src/diagnostic_explain.zig'' \<longleftrightarrow> n = ''diagnostic_explain''"
    using append_same_eq [of n "''.zig''" "''diagnostic_explain''"]
    by (simp add: glob_two [OF src_parts(3) _ parts] fnmatch_literal lit)
  show "\<not> glob_hit path ''tests/spec/*.mc''"
    by (simp add: glob_hit_def parts src_parts(4) Let_def)
qed

lemma compiler_rule_in: "\<exists>r \<in> set RULES. patterns r = [''src/*.zig''] \<and>
    excludes r = [''src/*_tests.zig'', ''src/diagnostic_explain.zig''] \<and> ''test'' \<in> set (gates r)"
  by (simp add: RULES_def RULES_compiler_def)

lemma src_not_host: "host_manifest_gates host (''src/'' @ n) = Inr ([], [])"
  by (simp add: host_manifest_gates_def startswith_def)


section \<open>The runner\<close>

lemma run_loop_spec:
  assumes "run_loop shell before cs = (rc, started)"
  shows "\<exists>done_cs rest. cs = done_cs @ rest \<and> started = before @ done_cs \<and>
    (rc = 0 \<longrightarrow> rest = [] \<and> (\<forall>i < length done_cs. shell (before @ take i done_cs) (done_cs ! i) = 0)) \<and>
    (rc \<noteq> 0 \<longrightarrow> done_cs \<noteq> [] \<and> shell (before @ butlast done_cs) (last done_cs) = rc \<and>
       (\<forall>i < length done_cs - 1. shell (before @ take i done_cs) (done_cs ! i) = 0))"
  using assms
proof (induction cs arbitrary: before)
  case (Cons c cs)
  show ?case
  proof (cases "shell before c = 0")
    case True
    with Cons.prems have "run_loop shell (before @ [c]) cs = (rc, started)" by simp
    from Cons.IH [OF this] obtain d r where
      d: "cs = d @ r" "started = (before @ [c]) @ d"
        "rc = 0 \<longrightarrow> r = [] \<and> (\<forall>i < length d. shell ((before @ [c]) @ take i d) (d ! i) = 0)"
        "rc \<noteq> 0 \<longrightarrow> d \<noteq> [] \<and> shell ((before @ [c]) @ butlast d) (last d) = rc \<and>
          (\<forall>i < length d - 1. shell ((before @ [c]) @ take i d) (d ! i) = 0)"
      by blast
    show ?thesis
      by (rule exI [of _ "c # d"], rule exI [of _ r]) (use d True in \<open>auto simp: nth_Cons take_Cons split: nat.splits\<close>)
  next
    case False
    with Cons.prems show ?thesis
      by (intro exI [of _ "[c]"] exI [of _ cs]) auto
  qed
qed auto

section \<open>Properties\<close>

text \<open>Evaluation of the selection for one path that the table decides.\<close>

definition table_hits :: "string \<Rightarrow> Rule list \<Rightarrow> string list \<times> string list \<times> string list" where
  "table_hits path rules =
     (let hits = filter (rule_hit path) rules in
      (concat (map gates hits), concat (map checks hits), map reason hits))"

definition merge3 :: "'a list \<times> 'b list \<times> 'c list \<Rightarrow> 'a list \<times> 'b list \<times> 'c list \<Rightarrow> 'a list \<times> 'b list \<times> 'c list" where
  "merge3 x y = (fst x @ fst y, fst (snd x) @ fst (snd y), snd (snd x) @ snd (snd y))"

lemma asks_table:
  "\<not> glob_hit path ''tests/spec/*.mc'' \<Longrightarrow> startswith path ''std/'' \<Longrightarrow>
   asks host files path = table_hits path RULES \<and> \<not> undecodable host files path"
proof -
  assume g: "\<not> glob_hit path ''tests/spec/*.mc''" and "startswith path ''std/''"
  then obtain n where "path = ''std/'' @ n" by (metis append_take_drop_id startswith_def)
  then have h: "\<not> startswith path ''tests/qemu/''" "\<not> startswith path ''tools/lib/host-drivers/''"
    by (simp_all add: startswith_def)
  then have "host_manifest_gates host path = Inr ([], [])" by (simp add: host_manifest_gates_def)
  with g h show ?thesis by (simp add: asks_def table_hits_def undecodable_def)
qed

text \<open>
  Patterns that match no file directly below \<open>std\<close> except by its extension: longer patterns, patterns
  for another directory, and plain names.
\<close>

definition skips_std :: "string \<Rightarrow> bool" where
  "skips_std p \<longleftrightarrow>
     (if CHR ''/'' \<in> set p then
        (case path_parts p of
           [a, b] \<Rightarrow> literal a \<and> a \<noteq> ''std''
         | _ \<Rightarrow> 3 \<le> length (path_parts p))
      else p = ''*.md'' \<or> literal p \<and> CHR ''/'' \<notin> set p)"

lemma RULES_skip_std:
  "list_all (\<lambda>r. list_all skips_std (patterns r)) RULES_compiler"
  "list_all (\<lambda>r. list_all skips_std (patterns r)) RULES_harness"
  "list_all (\<lambda>r. list_all skips_std (patterns r)) RULES_sweeps"
  "list_all (\<lambda>r. list_all skips_std (patterns r)) RULES_fixtures"
  by code_simp+

lemma std_glob:
  assumes "skips_std p" "CHR ''/'' \<notin> set n" "n \<noteq> []" "n \<noteq> ''.''" "\<not> (\<exists>m. n = m @ ''.md'')"
  shows "\<not> glob_hit (''std/'' @ n) p"
proof -
  define path where "path = ''std/'' @ n"
  have parts: "path_parts path = [''std'', n]"
    using path_parts_two [of "''std''" n] assms by (simp add: path_def)
  have "\<not> glob_hit path p"
  proof (cases "CHR ''/'' \<in> set p")
    case True
    show ?thesis
    proof (cases "3 \<le> length (path_parts p)")
      case True
      with \<open>CHR ''/'' \<in> set p\<close> show ?thesis by (simp add: glob_hit_def parts Let_def)
    next
      case False
      with True assms(1) obtain a b where "path_parts p = [a, b]" "literal a" "a \<noteq> ''std''"
        by (auto simp: skips_std_def split: list.splits)
      then show ?thesis using True by (simp add: glob_two [OF _ True parts] fnmatch_literal)
    qed
  next
    case False
    then consider "p = ''*.md''" | "literal p" using assms(1) by (auto simp: skips_std_def)
    then show ?thesis
    proof cases
      case 1
      have "\<not> fnmatchcase path ''*.md''"
      proof
        assume "fnmatchcase path ''*.md''"
        then have "fnmatchcase (''std/'' @ n) ''*.md''" by (simp only: path_def)
        then obtain m where "''std/'' @ n = m @ ''.md''"
          using fnmatch_prefix_suffix [of "[]" "''.md''" "''std/'' @ n"] by (auto simp: literal_def)
        then consider us where "''std/'' = m @ us" "us @ n = ''.md''" | us where "n = us @ ''.md''"
          unfolding append_eq_append_conv2 by blast
        then show False
        proof cases
          case (1 us)
          show False
          proof (cases "us = []")
            case True
            with 1 assms(5) show False by (metis append_Nil)
          next
            case False
            then have "last us = CHR ''/''" using arg_cong [OF 1(1), of last] by simp
            then have "CHR ''/'' \<in> set (us @ n)" using False last_in_set [OF False] by simp
            then show False unfolding 1(2) by simp
          qed
        next
          case (2 us)
          with assms(5) show False by blast
        qed
      qed
      then show ?thesis by (simp add: glob_hit_def 1)
    next
      case 2
      then show ?thesis using False by (auto simp: glob_hit_def fnmatch_literal path_def)
    qed
  qed
  then show ?thesis unfolding path_def .
qed

lemma std_no_hits:
  assumes "CHR ''/'' \<notin> set n" "n \<noteq> []" "n \<noteq> ''.''" "\<not> (\<exists>m. n = m @ ''.md'')"
  shows "asks host files (''std/'' @ n) = ([], [], [])" and "\<not> undecodable host files (''std/'' @ n)"
proof -
  have "list_all (\<lambda>r. list_all skips_std (patterns r)) RULES"
    by (simp add: RULES_def RULES_skip_std)
  then have "filter (rule_hit (''std/'' @ n)) RULES = []"
    using std_glob [OF _ assms] by (auto simp: filter_empty_conv rule_hit_def list_all_iff list_ex_iff)
  moreover have "skips_std ''tests/spec/*.mc''" by code_simp
  then have "\<not> glob_hit (''std/'' @ n) ''tests/spec/*.mc''" by (rule std_glob [OF _ assms])
  ultimately show "asks host files (''std/'' @ n) = ([], [], [])" and "\<not> undecodable host files (''std/'' @ n)"
    using asks_table [of "''std/'' @ n" host files] by (auto simp: table_hits_def startswith_def)
qed

lemma std_rule_in: "\<exists>r \<in> set RULES. ''std/**/*'' \<in> set (patterns r) \<and>
    excludes r = [''tools/arch/qemu-mmio-test.sh''] \<and> ''fast'' \<in> set (gates r)"
  by (simp add: RULES_def RULES_fixtures_def)

lemma path_parts_three:
  assumes "CHR ''/'' \<notin> set a" "CHR ''/'' \<notin> set b" "CHR ''/'' \<notin> set c"
    "a \<noteq> []" "a \<noteq> ''.''" "b \<noteq> []" "b \<noteq> ''.''" "c \<noteq> []" "c \<noteq> ''.''"
  shows "path_parts (a @ CHR ''/'' # b @ CHR ''/'' # c) = [a, b, c]"
proof -
  have "\<not> startswith (a @ CHR ''/'' # x) ''/''" "\<not> startswith (a @ CHR ''/'' # x) ''//''" for x
    using assms(1,4) by (cases a; auto simp: startswith_def)+
  then show ?thesis using assms by (simp add: path_parts_def split_on_append_sep)
qed

lemma three_parts:
  "path_parts ''std/**/*'' = [''std'', ''**'', ''*'']"
  "path_parts ''tools/arch/qemu-mmio-test.sh'' = [''tools'', ''arch'', ''qemu-mmio-test.sh'']"
  "path_parts ''tests/spec/*.mc'' = [''tests'', ''spec'', ''*.mc'']"
  by code_simp+

lemma std_below_hits:
  assumes "CHR ''/'' \<notin> set d" "CHR ''/'' \<notin> set n" "d \<noteq> []" "d \<noteq> ''.''" "n \<noteq> []" "n \<noteq> ''.''"
  defines "path \<equiv> ''std/'' @ d @ CHR ''/'' # n"
  shows "''fast'' \<in> set (fst (asks host files path))" and "\<not> undecodable host files path"
proof -
  have parts: "path_parts path = [''std'', d, n]"
    unfolding path_def using path_parts_three [of "''std''" d n] assms(1-6) by simp
  have lit: "literal ''std''" "literal ''tools''" "literal ''tests''" by (simp_all add: literal_def)
  have star: "fnmatchcase s ''*''" "fnmatchcase s ''**''" for s
  proof -
    have e: "fnmatchcase [] []" by (simp add: fnmatchcase.simps)
    have one: "fnmatchcase t ''*''" for t
      unfolding fnmatch_star by (rule exI [of _ t], rule exI [of _ "[]"]) (simp add: e)
    show "fnmatchcase s ''*''" by (rule one)
    show "fnmatchcase s ''**''"
      unfolding fnmatch_star [of s "''*''"] by (rule exI [of _ "[]"], rule exI [of _ s]) (simp add: one)
  qed
  obtain r where r: "r \<in> set RULES" "''std/**/*'' \<in> set (patterns r)"
      "excludes r = [''tools/arch/qemu-mmio-test.sh'']" "''fast'' \<in> set (gates r)"
    using std_rule_in by blast
  have "glob_hit path ''std/**/*''"
    by (simp add: glob_hit_def parts three_parts Let_def fnmatch_literal [OF lit(1)] star)
  moreover have "\<not> glob_hit path ''tools/arch/qemu-mmio-test.sh''"
    by (simp add: glob_hit_def parts three_parts Let_def fnmatch_literal [OF lit(2)])
  ultimately have "rule_hit path r" using r by (auto simp: rule_hit_def list_ex_iff)
  moreover have "\<not> glob_hit path ''tests/spec/*.mc''"
    by (simp add: glob_hit_def parts three_parts Let_def fnmatch_literal [OF lit(3)])
  moreover have "startswith path ''std/''" by (simp add: path_def startswith_def)
  ultimately show "''fast'' \<in> set (fst (asks host files path))" and "\<not> undecodable host files path"
    using asks_table [of path host files] r by (auto simp: table_hits_def Let_def)
qed

lemma asks_all_sets:
  "set (fst (asks_all host files paths)) = (\<Union>p \<in> set paths. set (fst (asks host files p)))"
  "set (fst (snd (asks_all host files paths))) = (\<Union>p \<in> set paths. set (fst (snd (asks host files p))))"
  by (auto simp: asks_all_def)

text \<open>
  C31. selection raises exactly when a file it has to read is not UTF-8 in the part it reads (the
  handlers catch \<open>OSError\<close> only), and then it is a \<open>ValueError\<close>. Otherwise it lists nothing twice,
  selects at least one gate or check for a non-empty change, and selects exactly what the individual
  paths ask for (each path's own spec metadata, host-manifest row or matching table rules); a
  non-empty change for which no path asks anything gets the one gate \<open>test\<close>.
\<close>

theorem select_gates_exact_union:
  "case select_gates host files paths of
     Inl e \<Rightarrow> e = ValueError \<and> list_ex (undecodable host files) paths
   | Inr (gs, cs, rs) \<Rightarrow>
       \<not> list_ex (undecodable host files) paths \<and> distinct gs \<and> distinct cs \<and> distinct rs \<and>
       (paths = [] \<or> gs @ cs \<noteq> []) \<and>
       set cs = (\<Union>p \<in> set paths. set (fst (snd (asks host files p)))) \<and>
       set gs =
         (if paths \<noteq> [] \<and> list_all (\<lambda>p. fst (asks host files p) = [] \<and> fst (snd (asks host files p)) = []) paths
          then {''test''} else (\<Union>p \<in> set paths. set (fst (asks host files p))))"
proof -
  let ?A = "asks_all host files paths"
  have none: "fst ?A = [] \<and> fst (snd ?A) = [] \<longleftrightarrow>
      list_all (\<lambda>p. fst (asks host files p) = [] \<and> fst (snd (asks host files p)) = []) paths"
    by (auto simp: asks_all_def list_all_iff)
  show ?thesis
    using asks_all_sets [of host files paths]
    by (cases ?A) (auto simp: select_gates_closed simp flip: none)
qed

text \<open>A fixture that is not UTF-8 stops the selection; one that cannot be opened does not.\<close>

theorem select_gates_exact_union_witness:
  "select_gates ([], ReadFails) (\<lambda>_. ([], NotUtf8)) [''tests/spec/a.mc''] = Inl ValueError \<and>
   (\<exists>gs cs rs. select_gates ([], ReadFails) (\<lambda>_. ([], ReadFails)) [''tests/spec/a.mc''] = Inr (gs, cs, rs) \<and>
      gs @ cs \<noteq> [])"
proof -
  have g: "glob_hit ''tests/spec/a.mc'' ''tests/spec/*.mc''" by code_simp
  have "list_ex (undecodable ([], ReadFails) (\<lambda>_. ([], NotUtf8))) [''tests/spec/a.mc'']"
    and "\<not> list_ex (undecodable ([], ReadFails) (\<lambda>_. ([], ReadFails))) [''tests/spec/a.mc'']"
    by (simp_all add: undecodable_def g)
  with select_gates_exact_union [of "([], ReadFails)" "\<lambda>_. ([], NotUtf8)" "[''tests/spec/a.mc'']"]
    select_gates_exact_union [of "([], ReadFails)" "\<lambda>_. ([], ReadFails)" "[''tests/spec/a.mc'']"]
  show ?thesis by (auto split: sum.splits)
qed

text \<open>
  a change to any compiler source \<open>src/<name>.zig\<close> other than unit-test sources and
  \<open>diagnostic_explain.zig\<close> selects the \<open>test\<close> gate, whatever else has changed with it.
\<close>

theorem compiler_source_selects_test:
  assumes "CHR ''/'' \<notin> set n" and "\<not> (\<exists>m. n = m @ ''_tests'')" and "n \<noteq> ''diagnostic_explain''"
    and "''src/'' @ n @ ''.zig'' \<in> set paths" and "\<not> list_ex (undecodable host files) paths"
  shows "\<exists>gs cs rs. select_gates host files paths = Inr (gs, cs, rs) \<and> ''test'' \<in> set gs"
proof -
  let ?p = "''src/'' @ n @ ''.zig''"
  obtain r where r: "r \<in> set RULES" "patterns r = [''src/*.zig'']"
    "excludes r = [''src/*_tests.zig'', ''src/diagnostic_explain.zig'']" "''test'' \<in> set (gates r)"
    using compiler_rule_in by blast
  have "rule_hit ?p r" using src_globs [OF assms(1)] assms(2,3) r(2,3) by (auto simp: rule_hit_def)
  then have "''test'' \<in> set (fst (asks host files ?p))"
    using r src_globs(4) [OF assms(1)] src_not_host [of host "n @ ''.zig''"]
    by (auto simp: asks_def Let_def simp del: append.simps)
  with assms(4) have "''test'' \<in> set (fst (asks_all host files paths))"
    by (auto simp: asks_all_sets)
  then show ?thesis using assms(5) by (cases "asks_all host files paths") (auto simp: select_gates_closed)
qed

theorem compiler_source_selects_test_witness:
  "\<exists>gs cs rs. select_gates ([], ReadFails) (\<lambda>_. ([], ReadFails)) [''docs/a.md'', ''src/lexer.zig''] = Inr (gs, cs, rs) \<and>
     ''test'' \<in> set gs"
  using compiler_source_selects_test
    [of "''lexer''" "[''docs/a.md'', ''src/lexer.zig'']" "([], ReadFails)" "\<lambda>_. ([], ReadFails)"]
  by (simp add: append_eq_Cons_conv Cons_eq_append_conv undecodable_def)

text \<open>
  adding files to a change never loses a gate, except the fallback \<open>test\<close> gate of a change
  that no rule maps.
\<close>

theorem select_gates_monotone:
  assumes "select_gates host files paths = Inr (gs, cs, rs)"
    and "rs \<noteq> [''unmapped changes default to compiler unit/spec tests'']"
    and "\<not> list_ex (undecodable host files) others"
  shows "\<exists>gs' cs' rs'. select_gates host files (paths @ others) = Inr (gs', cs', rs') \<and>
    set gs \<subseteq> set gs' \<and> set cs \<subseteq> set cs'"
  using assms
  by (auto simp: select_gates_closed asks_all_def split: if_splits)

theorem select_gates_monotone_witness:
  "\<exists>gs cs rs. select_gates ([], ReadFails) (\<lambda>_. ([], ReadFails)) ([''tests/spec/a.mc''] @ [''std/mem.mc'']) =
     Inr (gs, cs, rs) \<and> ''test'' \<in> set gs"
proof -
  let ?h = "([], ReadFails) :: text_file" and ?f = "(\<lambda>_. ([], ReadFails)) :: string \<Rightarrow> text_file"
  have g: "glob_hit ''tests/spec/a.mc'' ''tests/spec/*.mc''" by code_simp
  have "\<not> glob_hit ''std/mem.mc'' ''tests/spec/*.mc''" by code_simp
  then have n: "\<not> list_ex (undecodable ?h ?f) [''std/mem.mc'']" by (simp add: undecodable_def)
  have s: "select_gates ?h ?f [''tests/spec/a.mc''] =
      Inr ([''test''],
        [], [''spec fixture metadata and inline EXPECT contracts are checked by compiler unit/spec tests'',
            ''missing or unreadable SPEC phase metadata defaults to the conservative unit/spec gate''])"
    by (simp add: select_gates_closed asks_all_def asks_def undecodable_def g spec_fixture_gates_def dedup_def)
  from select_gates_monotone [OF s _ n] show ?thesis by auto
qed

text \<open>
  the runner starts the checks and then the one \<open>zig build\<close> command in order, stops at the first
  command that fails and returns its exit code; it returns 0 only when every command ran and exited 0.
\<close>

theorem run_focused_commands_stops_at_failure:
  assumes "run_focused_commands shell cmds = (rc, started)"
  shows "prefix started cmds \<and>
    (rc = 0 \<longrightarrow> started = cmds \<and> (\<forall>i < length cmds. shell (take i cmds) (cmds ! i) = 0)) \<and>
    (rc \<noteq> 0 \<longrightarrow> started \<noteq> [] \<and> shell (butlast started) (last started) = rc \<and>
       (\<forall>i < length started - 1. shell (take i started) (started ! i) = 0))"
proof (cases "cmds = []")
  case False
  with assms have "run_loop shell [] cmds = (rc, started)" by (simp add: run_focused_commands_def)
  from run_loop_spec [OF this] show ?thesis by (auto simp: prefix_def)
qed (use assms in \<open>simp add: run_focused_commands_def\<close>)

theorem run_focused_commands_stops_at_failure_witness:
  "prefix [''a'', ''b''] [''a'', ''b'', ''c''] \<and>
   (\<lambda>before c. if c = ''b'' then 2 else 0) (butlast [''a'', ''b'']) (last [''a'', ''b'']) = (2 :: int)"
  using run_focused_commands_stops_at_failure
    [of "\<lambda>before c. if c = ''b'' then 2 else 0" "[''a'', ''b'', ''c'']" 2 "[''a'', ''b'']"]
  by (simp add: run_focused_commands_def)

text \<open>
  C40. the pattern \<open>std/**/*\<close> of the table matches files exactly one directory below \<open>std\<close>: whatever
  the manifest and the files hold, a change to any file directly under \<open>std/\<close> that is not a \<open>.md\<close> file
  is not mapped by any rule and gets the fallback gate \<open>test\<close>, while a change to any file in a directory
  directly under \<open>std/\<close> selects the gate \<open>fast\<close> that the rule for \<open>std\<close> asks for.
\<close>

theorem std_top_level_unmapped:
  assumes "CHR ''/'' \<notin> set n" "n \<noteq> []" "n \<noteq> ''.''"
  shows "((\<forall>m. n \<noteq> m @ ''.md'') \<longrightarrow>
      select_gates host files [''std/'' @ n] =
        Inr ([''test''], [], [''unmapped changes default to compiler unit/spec tests''])) \<and>
    (CHR ''/'' \<notin> set d \<and> d \<noteq> [] \<and> d \<noteq> ''.'' \<longrightarrow>
      (\<exists>gs cs rs. select_gates host files [''std/'' @ d @ CHR ''/'' # n] = Inr (gs, cs, rs) \<and> ''fast'' \<in> set gs))"
proof (intro conjI impI)
  have one: "select_gates host files [q] = Inr ([''test''], [], [''unmapped changes default to compiler unit/spec tests''])"
    if "asks host files q = ([], [], [])" "\<not> undecodable host files q" for q
    using that by (simp add: select_gates_closed asks_all_def)
  assume "\<forall>m. n \<noteq> m @ ''.md''"
  then have "\<not> (\<exists>m. n = m @ ''.md'')" by blast
  from one [OF std_no_hits [OF assms this]]
  show "select_gates host files [''std/'' @ n] =
      Inr ([''test''], [], [''unmapped changes default to compiler unit/spec tests''])" .
next
  have one: "\<exists>gs cs rs. select_gates host files [q] = Inr (gs, cs, rs) \<and> ''fast'' \<in> set gs"
    if "''fast'' \<in> set (fst (asks host files q))" "\<not> undecodable host files q" for q
    using that by (cases "asks host files q") (auto simp: select_gates_closed asks_all_def)
  assume "CHR ''/'' \<notin> set d \<and> d \<noteq> [] \<and> d \<noteq> ''.''"
  then show "\<exists>gs cs rs. select_gates host files [''std/'' @ d @ CHR ''/'' # n] = Inr (gs, cs, rs) \<and> ''fast'' \<in> set gs"
    using one [OF std_below_hits [of d n host files]] assms by blast
qed

theorem std_top_level_unmapped_witness:
  "select_gates ([], EndOfFile) (\<lambda>_. ([], EndOfFile)) [''std/mem.mc''] =
     Inr ([''test''], [], [''unmapped changes default to compiler unit/spec tests''])"
proof -
  have "''mem.mc'' \<noteq> m @ ''.md''" for m
  proof
    assume "''mem.mc'' = m @ ''.md''"
    then have "last ''mem.mc'' = last (m @ ''.md'')" by simp
    then show False by simp
  qed
  with std_top_level_unmapped [of "''mem.mc''" "([], EndOfFile)" "\<lambda>_. ([], EndOfFile)"] show ?thesis by auto
qed

end
