(* ===== verification/Py_Os.thy ===== *)
theory Py_Os
  imports Py_Strings
begin

text \<open>
  What the tools use of the operating system: running a command (\<open>subprocess.run\<close>, with and without a
  deadline), reading and writing files, temporary directories, \<open>try\<close>/\<open>except OSError\<close> and \<open>finally\<close>. The
  commands themselves are not Python code: a \<open>host\<close> says, for every command and every state of the
  machine, how the command ends. A command that is run without a deadline is taken to end.

  A Python \<open>str\<close> is represented by its UTF-8 bytes, so encoding is the identity and decoding with
  \<open>errors="replace"\<close> puts the three bytes of U+FFFD for each malformed piece.
\<close>

section \<open>UTF-8\<close>

definition byte_in :: "nat \<Rightarrow> nat \<Rightarrow> string \<Rightarrow> nat \<Rightarrow> bool" where
  "byte_in lo hi s i \<longleftrightarrow> i < length s \<and> lo \<le> (of_char (s ! i) :: nat) \<and> (of_char (s ! i) :: nat) \<le> hi"

text \<open>
  The sequence at the head of a non-empty text: whether it is well formed, and its length; for a
  malformed one, the length of the part that could still have begun a sequence, at least one byte.
\<close>

definition utf8_step :: "string \<Rightarrow> bool \<times> nat" where
  "utf8_step s =
     (let b = (of_char (hd s) :: nat);
          cont = byte_in 128 191 s;
          second = (if b = 224 then byte_in 160 191 s 1 else if b = 237 then byte_in 128 159 s 1
            else if b = 240 then byte_in 144 191 s 1 else if b = 244 then byte_in 128 143 s 1 else cont 1)
      in if b < 128 then (True, 1)
         else if b < 194 \<or> 244 < b then (False, 1)
         else if b < 224 then (if second then (True, 2) else (False, 1))
         else if b < 240 then
           (if \<not> second then (False, 1) else if \<not> cont 2 then (False, 2) else (True, 3))
         else
           (if \<not> second then (False, 1) else if \<not> cont 2 then (False, 2)
            else if \<not> cont 3 then (False, 3) else (True, 4)))"

lemma utf8_step_pos: "utf8_step s = (ok, n) \<Longrightarrow> 0 < n"
  by (auto simp: utf8_step_def Let_def split: if_splits)

lemma utf8_step_drop: "s \<noteq> [] \<Longrightarrow> length (drop (snd (utf8_step s)) s) < length s"
  using utf8_step_pos [of s "fst (utf8_step s)" "snd (utf8_step s)"] by (cases s) auto

function decode_replace :: "string \<Rightarrow> string" where
  "decode_replace s =
     (if s = [] then []
      else (if fst (utf8_step s) then take (snd (utf8_step s)) s else [CHR 0xEF, CHR 0xBF, CHR 0xBD])
        @ decode_replace (drop (snd (utf8_step s)) s))"
  by pat_completeness auto
termination by (relation "measure length") (use utf8_step_drop in auto)

text \<open>\<open>s[:n]\<close> counts code points.\<close>

function take_points :: "nat \<Rightarrow> string \<Rightarrow> string" where
  "take_points n s =
     (if n = 0 \<or> s = [] then []
      else take (snd (utf8_step s)) s @ take_points (n - 1) (drop (snd (utf8_step s)) s))"
  by pat_completeness auto
termination by (relation "measure fst") auto

declare decode_replace.simps [simp del] take_points.simps [simp del]

definition valid_utf8 :: "string \<Rightarrow> bool" where
  "valid_utf8 s \<longleftrightarrow> decode_replace s = s"

definition ascii :: "string \<Rightarrow> bool" where
  "ascii s \<longleftrightarrow> list_all (\<lambda>c. (of_char c :: nat) < 128) s"

lemma decode_replace_ascii: "ascii s \<Longrightarrow> decode_replace s = s"
proof (induction s)
  case (Cons c s)
  then have "utf8_step (c # s) = (True, 1)" by (simp add: ascii_def utf8_step_def Let_def)
  with Cons show ?case by (subst decode_replace.simps) (simp add: ascii_def)
qed (simp add: decode_replace.simps)

lemma valid_utf8_ascii: "ascii s \<Longrightarrow> valid_utf8 s"
  by (simp add: valid_utf8_def decode_replace_ascii)

text \<open>Code equations on the bits of the characters, for the evaluation of witnesses.\<close>

lemma below_bits:
  "(of_char c :: nat) < 128 \<longleftrightarrow> \<not> digit7 c"
  "(of_char c :: nat) < 32 \<longleftrightarrow> \<not> digit7 c \<and> \<not> digit6 c \<and> \<not> digit5 c"
  by (cases c; simp add: of_char_def horner_sum_simps)+

lemma ascii_code [code]: "ascii s \<longleftrightarrow> list_all (\<lambda>c. \<not> digit7 c) s"
  by (simp add: ascii_def below_bits)

lemma valid_utf8_code [code]: "valid_utf8 s \<longleftrightarrow> (if ascii s then True else decode_replace s = s)"
  using valid_utf8_ascii [of s] by (simp add: valid_utf8_def)

text \<open>Reading in text mode turns \<open>\r\n\<close> and a lone \<open>\r\<close> into \<open>\n\<close>.\<close>

fun universal_newlines :: "string \<Rightarrow> string" where
  "universal_newlines [] = []"
| "universal_newlines [c] = [if c = CHR 0x0D then CHR 0x0A else c]"
| "universal_newlines (c # d # s) =
     (if c = CHR 0x0D then CHR 0x0A # (if d = CHR 0x0A then universal_newlines s else universal_newlines (d # s))
      else c # universal_newlines (d # s))"

lemma universal_newlines_id: "CHR 0x0D \<notin> set s \<Longrightarrow> universal_newlines s = s"
  by (induction s rule: universal_newlines.induct) auto

text \<open>\<open>bytes.strip()\<close> and \<open>os.path.join\<close> with a relative second part.\<close>

definition is_bspace :: "char \<Rightarrow> bool" where
  "is_bspace c \<longleftrightarrow> c \<in> {CHR 0x20, CHR 0x09, CHR 0x0A, CHR 0x0D, CHR 0x0B, CHR 0x0C}"

definition bstrip :: "string \<Rightarrow> string" where
  "bstrip s = rev (dropWhile is_bspace (rev (dropWhile is_bspace s)))"

definition path_join :: "string \<Rightarrow> string \<Rightarrow> string" where
  "path_join dir name = (if dir = [] \<or> last dir = CHR ''/'' then dir @ name else dir @ ''/'' @ name)"

lemma path_join_inject [simp]: "path_join dir a = path_join dir b \<longleftrightarrow> a = b"
  by (simp add: path_join_def)

section \<open>The machine\<close>

record world =
  w_files :: "string \<Rightarrow> string option"
  w_clock :: nat

text \<open>A finished command: exit status (negative: the signal that killed it), output, seconds taken.\<close>

record proc =
  returncode :: int
  stdout :: string
  stderr :: string
  elapsed :: nat

text \<open>
  \<open>h_run\<close> takes the command, its standard input and the variables set on top of the inherited
  environment, and gives the error that kept it from starting or the finished command with the files it
  leaves. \<open>h_denied\<close> says which writes the system refuses, \<open>h_mkdtemp\<close> names a fresh directory.
\<close>

record host =
  h_run :: "string list \<Rightarrow> string \<Rightarrow> (string \<times> string) list \<Rightarrow> world \<Rightarrow> string + (proc \<times> (string \<Rightarrow> string option))"
  h_denied :: "string \<Rightarrow> world \<Rightarrow> string option"
  h_mkdtemp :: "world \<Rightarrow> string + string"

type_synonym 'a io = "host \<Rightarrow> world \<Rightarrow> (py_exc + 'a) \<times> world"

definition io_ret :: "'a \<Rightarrow> 'a io" where
  "io_ret x h w = (Inr x, w)"

definition io_raise :: "py_exc \<Rightarrow> 'a io" where
  "io_raise e h w = (Inl e, w)"

definition io_bind :: "'a io \<Rightarrow> ('a \<Rightarrow> 'b io) \<Rightarrow> 'b io" where
  "io_bind m f h w = (case m h w of (Inl e, w') \<Rightarrow> (Inl e, w') | (Inr x, w') \<Rightarrow> f x h w')"

definition io_lift :: "'a result \<Rightarrow> 'a io" where
  "io_lift r h w = (r, w)"

definition run_proc :: "string list \<Rightarrow> string \<Rightarrow> (string \<times> string) list \<Rightarrow> proc io" where
  "run_proc argv inp vars h w =
     (case h_run h argv inp vars w of
        Inl e \<Rightarrow> (Inl (OSError e), w\<lparr>w_clock := Suc (w_clock w)\<rparr>)
      | Inr (p, fs) \<Rightarrow> (Inr p, w\<lparr>w_files := fs, w_clock := Suc (w_clock w)\<rparr>))"

text \<open>A command of its own, and one with a deadline: \<open>None\<close> is \<open>TimeoutExpired\<close>.\<close>

definition run_cmd :: "string list \<Rightarrow> proc io" where
  "run_cmd argv = run_proc argv [] []"

definition run_within :: "nat \<Rightarrow> string list \<Rightarrow> proc option io" where
  "run_within t argv = io_bind (run_cmd argv) (\<lambda>p. io_ret (if t < elapsed p then None else Some p))"

definition no_such_file :: "string \<Rightarrow> py_exc" where
  "no_such_file path = OSError (''[Errno 2] No such file or directory: '' @ repr_str path)"

definition read_bytes :: "string \<Rightarrow> string io" where
  "read_bytes path h w = (case w_files w path of None \<Rightarrow> (Inl (no_such_file path), w) | Some c \<Rightarrow> (Inr c, w))"

text \<open>Text mode raises \<open>UnicodeDecodeError\<close>, a \<open>ValueError\<close>, on malformed bytes.\<close>

definition read_text :: "string \<Rightarrow> string io" where
  "read_text path =
     io_bind (read_bytes path) (\<lambda>c. if valid_utf8 c then io_ret (universal_newlines c) else io_raise ValueError)"

definition write_file :: "string \<Rightarrow> string \<Rightarrow> unit io" where
  "write_file path c h w =
     (case h_denied h path w of
        Some e \<Rightarrow> (Inl (OSError e), w)
      | None \<Rightarrow> (Inr (), w\<lparr>w_files := (w_files w)(path \<mapsto> c)\<rparr>))"

definition mkdtemp :: "string io" where
  "mkdtemp h w = (case h_mkdtemp h w of Inl e \<Rightarrow> (Inl (OSError e), w) | Inr d \<Rightarrow> (Inr d, w))"

text \<open>A command whose output is decoded (\<open>text=True\<close>), and \<open>os.unlink\<close>.\<close>

definition run_text :: "string list \<Rightarrow> string \<Rightarrow> proc io" where
  "run_text argv inp =
     io_bind (run_proc argv inp []) (\<lambda>p.
       if valid_utf8 (stdout p) \<and> valid_utf8 (stderr p)
       then io_ret (p\<lparr>stdout := universal_newlines (stdout p), stderr := universal_newlines (stderr p)\<rparr>)
       else io_raise ValueError)"

definition unlink :: "string \<Rightarrow> unit io" where
  "unlink path h w =
     (case h_denied h path w of
        Some e \<Rightarrow> (Inl (OSError e), w)
      | None \<Rightarrow> if w_files w path = None then (Inl (no_such_file path), w)
          else (Inr (), w\<lparr>w_files := (w_files w)(path := None)\<rparr>))"

text \<open>\<open>[f(x) for x in xs]\<close>.\<close>

fun io_map :: "('a \<Rightarrow> 'b io) \<Rightarrow> 'a list \<Rightarrow> 'b list io" where
  "io_map f [] = io_ret []"
| "io_map f (x # xs) = io_bind (f x) (\<lambda>y. io_bind (io_map f xs) (\<lambda>ys. io_ret (y # ys)))"

text \<open>\<open>shutil.rmtree(d, ignore_errors=True)\<close>.\<close>

definition rmtree :: "string \<Rightarrow> unit io" where
  "rmtree d h w = (Inr (), w\<lparr>w_files := (\<lambda>p. if startswith p (d @ ''/'') then None else w_files w p)\<rparr>)"

definition try_os :: "'a io \<Rightarrow> (string \<Rightarrow> 'a io) \<Rightarrow> 'a io" where
  "try_os m k h w = (case m h w of (Inl (OSError e), w') \<Rightarrow> k e h w' | r \<Rightarrow> r)"

definition try_any :: "'a io \<Rightarrow> 'a io \<Rightarrow> 'a io" where
  "try_any m k h w = (case m h w of (Inl e, w') \<Rightarrow> k h w' | r \<Rightarrow> r)"

text \<open>\<open>finally\<close>: an exception of the cleanup replaces the outcome.\<close>

definition finally_do :: "'a io \<Rightarrow> 'b io \<Rightarrow> 'a io" where
  "finally_do m c h w = (let (r, w') = m h w in case c h w' of (Inl e, w'') \<Rightarrow> (Inl e, w'') | (Inr _, w'') \<Rightarrow> (r, w''))"

lemmas io_defs = io_ret_def io_raise_def io_bind_def io_lift_def run_cmd_def run_within_def read_bytes_def read_text_def
  write_file_def mkdtemp_def rmtree_def try_os_def try_any_def finally_do_def

section \<open>Which exceptions a program can raise\<close>

text \<open>\<open>os_safe m\<close>: on every host and from every state, nothing but \<open>OSError\<close> escapes.\<close>

definition os_safe :: "'a io \<Rightarrow> bool" where
  "os_safe m \<longleftrightarrow> (\<forall>h w e w'. m h w = (Inl e, w') \<longrightarrow> (\<exists>msg. e = OSError msg))"

lemma os_safeD: "os_safe m \<Longrightarrow> m h w = (Inl e, w') \<Longrightarrow> \<exists>msg. e = OSError msg"
  unfolding os_safe_def by blast

named_theorems os_safe_intro \<open>composition rules of \<^const>\<open>os_safe\<close>\<close>

lemma os_safe_ret [os_safe_intro]: "os_safe (io_ret x)"
  by (simp add: os_safe_def io_ret_def)

lemma os_safe_bind [os_safe_intro]: "os_safe m \<Longrightarrow> (\<And>x. os_safe (f x)) \<Longrightarrow> os_safe (io_bind m f)"
  by (fastforce simp: os_safe_def io_bind_def split: prod.splits sum.splits)

lemma os_safe_run [os_safe_intro]: "os_safe (run_proc argv inp vars)"
  by (auto simp: os_safe_def run_proc_def split: sum.splits prod.splits)

lemma os_safe_run_cmd [os_safe_intro]: "os_safe (run_cmd argv)"
  unfolding run_cmd_def by (rule os_safe_run)

lemma os_safe_run_within [os_safe_intro]: "os_safe (run_within t argv)"
  unfolding run_within_def by (intro os_safe_intro)

lemma os_safe_read_bytes [os_safe_intro]: "os_safe (read_bytes path)"
  by (auto simp: os_safe_def read_bytes_def no_such_file_def split: option.splits)

lemma os_safe_write_file [os_safe_intro]: "os_safe (write_file path c)"
  by (auto simp: os_safe_def write_file_def split: option.splits)

lemma os_safe_mkdtemp [os_safe_intro]: "os_safe mkdtemp"
  by (auto simp: os_safe_def mkdtemp_def split: sum.splits)

lemma os_safe_if [os_safe_intro]: "os_safe m \<Longrightarrow> os_safe n \<Longrightarrow> os_safe (if b then m else n)"
  by simp

lemma os_safe_option [os_safe_intro]:
  "os_safe n \<Longrightarrow> (\<And>x. os_safe (f x)) \<Longrightarrow> os_safe (case v of None \<Rightarrow> n | Some x \<Rightarrow> f x)"
  by (cases v) auto

lemma os_safe_sum [os_safe_intro]:
  "(\<And>x. os_safe (f x)) \<Longrightarrow> (\<And>y. os_safe (g y)) \<Longrightarrow> os_safe (case v of Inl x \<Rightarrow> f x | Inr y \<Rightarrow> g y)"
  by (cases v) auto

lemma os_safe_prod [os_safe_intro]: "(\<And>a b. os_safe (f a b)) \<Longrightarrow> os_safe (case p of (a, b) \<Rightarrow> f a b)"
  by (cases p) auto

lemma os_safe_let [os_safe_intro]: "(\<And>x. os_safe (f x)) \<Longrightarrow> os_safe (let x = v in f x)"
  by simp

lemma os_safe_finally [os_safe_intro]: "os_safe m \<Longrightarrow> os_safe c \<Longrightarrow> os_safe (finally_do m c)"
  by (fastforce simp: os_safe_def finally_do_def split: prod.splits sum.splits)

text \<open>A handler for \<open>OSError\<close> around such a program leaves only what the handler raises.\<close>

lemma try_os_returns:
  assumes "os_safe m" and "\<And>e h w. \<exists>x w'. k e h w = (Inr x, w')"
  shows "\<exists>x w'. try_os m k h w = (Inr x, w')"
proof -
  obtain r w1 where m: "m h w = (r, w1)" by fastforce
  show ?thesis
  proof (cases r)
    case (Inl e)
    then obtain msg where "e = OSError msg" using os_safeD [OF assms(1)] m by blast
    with m Inl assms(2) [of msg h w1] show ?thesis by (auto simp: try_os_def)
  qed (use m in \<open>auto simp: try_os_def\<close>)
qed

end
