(* ===== verification/Py_Regex.thy ===== *)
theory Py_Regex
  imports Py_Strings
begin

text \<open>
  The part of Python's \<open>re\<close> the fuzzer uses, as backtracking combinators. A matcher takes the character
  before the current position and the text from there on, and gives every way to match, the preferred
  one first: the matched text, the rest, and the captured groups in order. \<open>re.match\<close>, \<open>re.search\<close> and
  \<open>re.sub\<close> take the first.
\<close>

type_synonym matcher = "char option \<Rightarrow> string \<Rightarrow> (string \<times> string \<times> string list) list"

section \<open>Combinators\<close>

definition rx_lit :: "string \<Rightarrow> matcher" where
  "rx_lit l p s = (if startswith s l then [(l, drop (length l) s, [])] else [])"

definition rx_cls :: "(char \<Rightarrow> bool) \<Rightarrow> matcher" where
  "rx_cls P p s = (case s of [] \<Rightarrow> [] | c # r \<Rightarrow> if P c then [([c], r, [])] else [])"

text \<open>\<open>[...]*\<close> and \<open>[...]+\<close>, greedy: the longest run first, then every shorter one.\<close>

definition run_len :: "(char \<Rightarrow> bool) \<Rightarrow> string \<Rightarrow> nat" where
  "run_len P s = length (takeWhile P s)"

definition rx_star :: "(char \<Rightarrow> bool) \<Rightarrow> matcher" where
  "rx_star P p s = map (\<lambda>n. (take n s, drop n s, [])) (rev [0..<Suc (run_len P s)])"

definition rx_plus :: "(char \<Rightarrow> bool) \<Rightarrow> matcher" where
  "rx_plus P p s = map (\<lambda>n. (take n s, drop n s, [])) (rev [1..<Suc (run_len P s)])"

definition after :: "char option \<Rightarrow> string \<Rightarrow> char option" where
  "after p a = (if a = [] then p else Some (last a))"

definition rx_seq :: "matcher \<Rightarrow> matcher \<Rightarrow> matcher" where
  "rx_seq m n p s =
     concat (map (\<lambda>(a, r, g). map (\<lambda>(b, r', h). (a @ b, r', g @ h)) (n (after p a) r)) (m p s))"

definition rx_empty :: matcher where
  "rx_empty p s = [([], s, [])]"

definition rx_seqs :: "matcher list \<Rightarrow> matcher" where
  "rx_seqs ms = foldr rx_seq ms rx_empty"

definition rx_opt :: "matcher \<Rightarrow> matcher" where
  "rx_opt m p s = m p s @ [([], s, [])]"

definition rx_group :: "matcher \<Rightarrow> matcher" where
  "rx_group m p s = map (\<lambda>(a, r, g). (a, r, a # g)) (m p s)"

text \<open>\<open>(?:m)*\<close> on a matcher that consumes something each time round.\<close>

fun rx_many_n :: "nat \<Rightarrow> matcher \<Rightarrow> matcher" where
  "rx_many_n 0 m p s = [([], s, [])]"
| "rx_many_n (Suc n) m p s = rx_opt (rx_seq m (rx_many_n n m)) p s"

definition rx_many :: "matcher \<Rightarrow> matcher" where
  "rx_many m p s = rx_many_n (length s) m p s"

text \<open>\<open>\b\<close>, and \<open>$\<close> (the end, or just before a final newline).\<close>

definition rx_boundary :: matcher where
  "rx_boundary p s =
     (let l = (case p of None \<Rightarrow> False | Some c \<Rightarrow> is_word c);
          r = (case s of [] \<Rightarrow> False | c # _ \<Rightarrow> is_word c) in
      if l \<noteq> r then [([], s, [])] else [])"

definition rx_end :: matcher where
  "rx_end p s = (if s = [] \<or> s = nl then [([], s, [])] else [])"

text \<open>\<open>^\<close> without flags, and the lazy \<open>[...]*?\<close>: the shortest run first.\<close>

definition rx_begin :: matcher where
  "rx_begin p s = (if p = None then [([], s, [])] else [])"

definition rx_lazy :: "(char \<Rightarrow> bool) \<Rightarrow> matcher" where
  "rx_lazy P p s = map (\<lambda>n. (take n s, drop n s, [])) [0..<Suc (run_len P s)]"

text \<open>\<open>[...]+?\<close>, at least one character.\<close>

definition rx_lazy_plus :: "(char \<Rightarrow> bool) \<Rightarrow> matcher" where
  "rx_lazy_plus P p s = map (\<lambda>n. (take n s, drop n s, [])) [1..<Suc (run_len P s)]"

text \<open>\<open>m|n|...\<close>: the branches in order.\<close>

definition rx_alts :: "matcher list \<Rightarrow> matcher" where
  "rx_alts ms p s = concat (map (\<lambda>m. m p s) ms)"

section \<open>The functions of the module\<close>

definition re_match :: "matcher \<Rightarrow> string \<Rightarrow> (string \<times> string \<times> string list) option" where
  "re_match m s = (case m None s of [] \<Rightarrow> None | x # _ \<Rightarrow> Some x)"

fun re_search_from :: "matcher \<Rightarrow> char option \<Rightarrow> string \<Rightarrow> (string \<times> string list) option" where
  "re_search_from m p [] = (case m p [] of [] \<Rightarrow> None | (a, r, g) # _ \<Rightarrow> Some (a, g))"
| "re_search_from m p (c # s) =
     (case m p (c # s) of [] \<Rightarrow> re_search_from m (Some c) s | (a, r, g) # _ \<Rightarrow> Some (a, g))"

definition re_search :: "matcher \<Rightarrow> string \<Rightarrow> (string \<times> string list) option" where
  "re_search m s = re_search_from m None s"

text \<open>\<open>re.sub\<close> with a fixed replacement, for patterns that never match the empty string.\<close>

function (sequential) re_sub_from :: "matcher \<Rightarrow> string \<Rightarrow> char option \<Rightarrow> string \<Rightarrow> string" where
  "re_sub_from m repl p [] = []"
| "re_sub_from m repl p (c # s) =
     (case m p (c # s) of
        (a, r, g) # _ \<Rightarrow>
          if length r \<le> length s then repl @ re_sub_from m repl (after p a) r
          else c # re_sub_from m repl (Some c) s
      | [] \<Rightarrow> c # re_sub_from m repl (Some c) s)"
  by pat_completeness auto
termination by (relation "measure (\<lambda>(m, repl, p, s). length s)") auto

definition re_sub :: "matcher \<Rightarrow> string \<Rightarrow> string \<Rightarrow> string" where
  "re_sub m repl s = re_sub_from m repl None s"

text \<open>\<open>re.findall\<close> and \<open>re.finditer\<close>, for patterns that never match the empty string: every match and its groups.\<close>

function (sequential) re_findall_from :: "matcher \<Rightarrow> char option \<Rightarrow> string \<Rightarrow> (string \<times> string list) list" where
  "re_findall_from m p [] = []"
| "re_findall_from m p (c # s) =
     (case m p (c # s) of
        (a, r, g) # _ \<Rightarrow>
          if length r \<le> length s then (a, g) # re_findall_from m (after p a) r
          else re_findall_from m (Some c) s
      | [] \<Rightarrow> re_findall_from m (Some c) s)"
  by pat_completeness auto
termination by (relation "measure (\<lambda>(m, p, s). length s)") auto

definition re_findall :: "matcher \<Rightarrow> string \<Rightarrow> (string \<times> string list) list" where
  "re_findall m s = re_findall_from m None s"

section \<open>What each combinator matches\<close>

named_theorems rx_mem \<open>membership in the result list of a matcher\<close>

lemma mem_rx_lit [rx_mem]: "(a, r, g) \<in> set (rx_lit l p s) \<longleftrightarrow> a = l \<and> s = l @ r \<and> g = []"
  by (auto simp: rx_lit_def startswith_iff)

lemma mem_rx_cls [rx_mem]: "(a, r, g) \<in> set (rx_cls P p s) \<longleftrightarrow> (\<exists>c. P c \<and> a = [c] \<and> s = c # r \<and> g = [])"
  by (auto simp: rx_cls_def split: list.splits if_splits)

lemma run_prefix_iff: "n \<le> run_len P s \<and> a = take n s \<and> r = drop n s \<Longrightarrow> s = a @ r \<and> list_all P a"
proof -
  assume n: "n \<le> run_len P s \<and> a = take n s \<and> r = drop n s"
  have "take n s = take n (takeWhile P s @ dropWhile P s)" by simp
  also have "\<dots> = take n (takeWhile P s)" using n by (simp add: run_len_def del: takeWhile_dropWhile_id)
  finally have "list_all P (take n s)" by (auto simp: list_all_iff dest: in_set_takeD set_takeWhileD)
  with n show ?thesis by simp
qed

lemma run_len_append: "list_all P a \<Longrightarrow> length a \<le> run_len P (a @ r)"
  by (induction a) (auto simp: run_len_def)

lemma mem_rx_star [rx_mem]: "(a, r, g) \<in> set (rx_star P p s) \<longleftrightarrow> s = a @ r \<and> list_all P a \<and> g = []"
proof
  assume "(a, r, g) \<in> set (rx_star P p s)"
  then obtain n where "n \<le> run_len P s \<and> a = take n s \<and> r = drop n s" "g = []"
    by (force simp: rx_star_def less_Suc_eq_le)
  with run_prefix_iff show "s = a @ r \<and> list_all P a \<and> g = []" by metis
next
  assume "s = a @ r \<and> list_all P a \<and> g = []"
  then show "(a, r, g) \<in> set (rx_star P p s)"
    using run_len_append [of P a r] by (auto simp: rx_star_def intro!: image_eqI [of _ _ "length a"])
qed

lemma mem_rx_plus [rx_mem]:
  "(a, r, g) \<in> set (rx_plus P p s) \<longleftrightarrow> s = a @ r \<and> list_all P a \<and> a \<noteq> [] \<and> g = []"
proof
  assume "(a, r, g) \<in> set (rx_plus P p s)"
  then have "(a, r, g) \<in> (\<lambda>n. (take n s, drop n s, [])) ` {1..<Suc (run_len P s)}"
    by (simp add: rx_plus_def del: upt_Suc)
  then obtain n where n: "n \<le> run_len P s \<and> a = take n s \<and> r = drop n s" "1 \<le> n" "g = []"
    by (auto simp: less_Suc_eq_le)
  moreover have "run_len P s \<le> length s" by (simp add: run_len_def length_takeWhile_le)
  ultimately show "s = a @ r \<and> list_all P a \<and> a \<noteq> [] \<and> g = []"
    using run_prefix_iff [OF n(1)] by (auto simp: take_eq_Nil)
next
  assume "s = a @ r \<and> list_all P a \<and> a \<noteq> [] \<and> g = []"
  then show "(a, r, g) \<in> set (rx_plus P p s)"
    using run_len_append [of P a r]
    by (cases a) (auto simp: rx_plus_def Suc_le_eq simp del: upt_Suc intro!: image_eqI [of _ _ "length a"])
qed

lemma mem_rx_lazy_plus [rx_mem]:
  "(a, r, g) \<in> set (rx_lazy_plus P p s) \<longleftrightarrow> s = a @ r \<and> list_all P a \<and> a \<noteq> [] \<and> g = []"
  using mem_rx_plus [of a r g P p s] by (simp add: rx_lazy_plus_def rx_plus_def)

lemma mem_rx_seq [rx_mem]:
  "(a, r, g) \<in> set (rx_seq m n p s) \<longleftrightarrow>
     (\<exists>x y rx gx gy. (x, rx, gx) \<in> set (m p s) \<and> (y, r, gy) \<in> set (n (after p x) rx) \<and> a = x @ y \<and> g = gx @ gy)"
  by (force simp: rx_seq_def)

lemma mem_rx_empty [rx_mem]: "(a, r, g) \<in> set (rx_empty p s) \<longleftrightarrow> a = [] \<and> r = s \<and> g = []"
  by (auto simp: rx_empty_def)

lemma rx_seqs_simps [simp]: "rx_seqs [] = rx_empty" "rx_seqs (m # ms) = rx_seq m (rx_seqs ms)"
  by (simp_all add: rx_seqs_def)

lemma mem_rx_opt [rx_mem]:
  "(a, r, g) \<in> set (rx_opt m p s) \<longleftrightarrow> (a, r, g) \<in> set (m p s) \<or> (a = [] \<and> r = s \<and> g = [])"
  by (auto simp: rx_opt_def)

lemma mem_rx_alts [rx_mem]: "x \<in> set (rx_alts ms p s) \<longleftrightarrow> (\<exists>m \<in> set ms. x \<in> set (m p s))"
  by (simp add: rx_alts_def)

lemma mem_rx_begin [rx_mem]: "(a, r, g) \<in> set (rx_begin p s) \<longleftrightarrow> p = None \<and> a = [] \<and> r = s \<and> g = []"
  by (auto simp: rx_begin_def)

lemma mem_rx_group [rx_mem]:
  "(a, r, g) \<in> set (rx_group m p s) \<longleftrightarrow> (\<exists>h. (a, r, h) \<in> set (m p s) \<and> g = a # h)"
  by (force simp: rx_group_def)

lemma mem_rx_boundary [rx_mem]: "(a, r, g) \<in> set (rx_boundary p s) \<Longrightarrow> a = [] \<and> r = s \<and> g = []"
  by (auto simp: rx_boundary_def Let_def split: if_splits)

lemma mem_rx_end [rx_mem]:
  "(a, r, g) \<in> set (rx_end p s) \<longleftrightarrow> a = [] \<and> r = s \<and> g = [] \<and> (s = [] \<or> s = nl)"
  by (auto simp: rx_end_def)

text \<open>\<open>re.sub\<close> copies a text without a match, and stops at a match that takes the whole rest.\<close>

lemma re_sub_no_match:
  "(\<And>u v p. s = u @ v \<Longrightarrow> v \<noteq> [] \<Longrightarrow> m p v = []) \<Longrightarrow> re_sub_from m repl p s = s"
proof (induction s arbitrary: p)
  case (Cons c s)
  from Cons.prems [of "[]" "c # s"] have "m p (c # s) = []" by simp
  moreover have "re_sub_from m repl (Some c) s = s"
    by (rule Cons.IH) (use Cons.prems in \<open>metis append_Cons\<close>)
  ultimately show ?case by simp
qed simp

lemma re_sub_at_end:
  assumes "\<And>u v p. x = u @ v \<Longrightarrow> v \<noteq> [] \<Longrightarrow> m p (v @ y) = []"
    and "\<And>p. \<exists>a g rest. m p y = (a, [], g) # rest" and "y \<noteq> []"
  shows "re_sub_from m repl p (x @ y) = x @ repl"
  using assms(1)
proof (induction x arbitrary: p)
  case Nil
  obtain a g rest where "m p y = (a, [], g) # rest" using assms(2) by blast
  with assms(3) show ?case by (cases y) auto
next
  case (Cons c x)
  from Cons.prems [of "[]" "c # x"] have "m p (c # x @ y) = []" by simp
  moreover have "re_sub_from m repl (Some c) (x @ y) = x @ repl"
    by (rule Cons.IH) (use Cons.prems in \<open>metis append_Cons\<close>)
  ultimately show ?case by simp
qed


text \<open>The preferred match, when the greedy choices succeed.\<close>

named_theorems rx_first \<open>preferred results of matchers\<close>

definition first_is :: "matcher \<Rightarrow> char option \<Rightarrow> string \<Rightarrow> string \<times> string \<times> string list \<Rightarrow> bool" where
  "first_is m p s x \<longleftrightarrow> (\<exists>xs. m p s = x # xs)"

lemma first_lit [rx_first]: "first_is (rx_lit l) p (l @ r) (l, r, [])"
  by (simp add: first_is_def rx_lit_def startswith_def)

lemma run_len_exact: "list_all P a \<Longrightarrow> r = [] \<or> \<not> P (hd r) \<Longrightarrow> run_len P (a @ r) = length a"
  by (induction a; cases r) (auto simp: run_len_def)

lemma first_star [rx_first]:
  "list_all P a \<Longrightarrow> r = [] \<or> \<not> P (hd r) \<Longrightarrow> first_is (rx_star P) p (a @ r) (a, r, [])"
  by (simp add: first_is_def rx_star_def run_len_exact)

lemma first_plus [rx_first]:
  "list_all P a \<Longrightarrow> a \<noteq> [] \<Longrightarrow> r = [] \<or> \<not> P (hd r) \<Longrightarrow> first_is (rx_plus P) p (a @ r) (a, r, [])"
  using length_greater_0_conv [of a] by (simp add: first_is_def rx_plus_def run_len_exact Suc_le_eq)

lemma first_seq [rx_first]:
  "first_is m p s (a, r, g) \<Longrightarrow> first_is n (after p a) r (b, r', h) \<Longrightarrow>
   first_is (rx_seq m n) p s (a @ b, r', g @ h)"
  by (auto simp: first_is_def rx_seq_def)

lemma first_empty [rx_first]: "first_is rx_empty p s ([], s, [])"
  by (simp add: first_is_def rx_empty_def)

lemma first_end [rx_first]: "first_is rx_end p [] ([], [], [])"
  by (simp add: first_is_def rx_end_def)

lemma first_group [rx_first]: "first_is m p s (a, r, g) \<Longrightarrow> first_is (rx_group m) p s (a, r, a # g)"
  by (auto simp: first_is_def rx_group_def)

text \<open>Sequences, read off the text piece by piece.\<close>

named_theorems rx_walk \<open>rules that walk a sequence of matchers along a text\<close>

lemma walk_lit [rx_walk]:
  "first_is n (after p l) r (b, r', h) \<Longrightarrow> first_is (rx_seq (rx_lit l) n) p (l @ r) (l @ b, r', h)"
  using first_seq [OF first_lit, of n p l r b r' h] by simp

lemma walk_plus [rx_walk]:
  "list_all P a \<Longrightarrow> a \<noteq> [] \<Longrightarrow> r = [] \<or> \<not> P (hd r) \<Longrightarrow> first_is n (after p a) r (b, r', h) \<Longrightarrow>
   first_is (rx_seq (rx_plus P) n) p (a @ r) (a @ b, r', h)"
  using first_seq [OF first_plus, of P a r n p b r' h] by simp

lemma walk_star [rx_walk]:
  "list_all P a \<Longrightarrow> r = [] \<or> \<not> P (hd r) \<Longrightarrow> first_is n (after p a) r (b, r', h) \<Longrightarrow>
   first_is (rx_seq (rx_star P) n) p (a @ r) (a @ b, r', h)"
  using first_seq [OF first_star, of P a r n p b r' h] by simp

lemma walk_group_plus [rx_walk]:
  "list_all P a \<Longrightarrow> a \<noteq> [] \<Longrightarrow> r = [] \<or> \<not> P (hd r) \<Longrightarrow> first_is n (after p a) r (b, r', h) \<Longrightarrow>
   first_is (rx_seq (rx_group (rx_plus P)) n) p (a @ r) (a @ b, r', a # h)"
  using first_seq [OF first_group [OF first_plus], of P a r n p b r' h] by simp

lemma walk_group_star [rx_walk]:
  "list_all P a \<Longrightarrow> r = [] \<or> \<not> P (hd r) \<Longrightarrow> first_is n (after p a) r (b, r', h) \<Longrightarrow>
   first_is (rx_seq (rx_group (rx_star P)) n) p (a @ r) (a @ b, r', a # h)"
  using first_seq [OF first_group [OF first_star], of P a r n p b r' h] by simp

text \<open>A lazy run stops where the rest of the pattern first matches.\<close>

lemma first_of_concat:
  "(\<And>m. i \<le> m \<Longrightarrow> m < n \<Longrightarrow> f m = []) \<Longrightarrow> i \<le> n \<Longrightarrow> n < k \<Longrightarrow> f n = x # ys \<Longrightarrow> \<exists>zs. concat (map f [i..<k]) = x # zs"
proof -
  assume a: "\<And>m. i \<le> m \<Longrightarrow> m < n \<Longrightarrow> f m = []" and le: "i \<le> n" "n < k" and fn: "f n = x # ys"
  have "[i..<k] = [i..<n] @ n # [Suc n..<k]" using le upt_add_eq_append [of i n "k - n"] by (simp add: upt_conv_Cons)
  moreover have "concat (map f [i..<n]) = []" using a by auto
  ultimately have "concat (map f [i..<k]) = x # ys @ concat (map f [Suc n..<k])" using fn by simp
  then show ?thesis by blast
qed

lemma walk_group_lazy_plus [rx_walk]:
  assumes "list_all P a" and "a \<noteq> []" and "\<And>u v. a = u @ v \<Longrightarrow> u \<noteq> [] \<Longrightarrow> v \<noteq> [] \<Longrightarrow> n (after p u) (v @ r) = []"
    and "first_is n (after p a) r (b, r', h)"
  shows "first_is (rx_seq (rx_group (rx_lazy_plus P)) n) p (a @ r) (a @ b, r', a # h)"
proof -
  let ?s = "a @ r"
  let ?f = "\<lambda>i. map (\<lambda>(b, t, h). (take i ?s @ b, t, take i ?s # h)) (n (after p (take i ?s)) (drop i ?s))"
  have none: "?f i = []" if "1 \<le> i" "i < length a" for i
  proof -
    have "n (after p (take i a)) (drop i a @ r) = []"
      by (rule assms(3)) (use that in auto)
    then show ?thesis using that by simp
  qed
  obtain ys where "n (after p a) r = (b, r', h) # ys" using assms(4) by (auto simp: first_is_def)
  then have hit: "?f (length a) = (a @ b, r', a # h) # map (\<lambda>(b, t, h). (a @ b, t, a # h)) ys" by simp
  have len: "1 \<le> length a" "length a < Suc (run_len P ?s)"
    using assms(1,2) run_len_append [of P a r] by (auto simp: Suc_le_eq)
  have "rx_seq (rx_group (rx_lazy_plus P)) n p ?s = concat (map ?f [1..<Suc (run_len P ?s)])"
    by (simp add: rx_seq_def rx_group_def rx_lazy_plus_def comp_def del: upt_Suc)
  moreover obtain zs where "concat (map ?f [1..<Suc (run_len P ?s)]) = (a @ b, r', a # h) # zs"
    using first_of_concat [where f = ?f and i = 1 and n = "length a" and k = "Suc (run_len P ?s)", OF none len hit] by blast
  ultimately show ?thesis by (simp add: first_is_def)
qed

lemma walk_end: "first_is (rx_seq (rx_star P) (rx_seq rx_end rx_empty)) p [] ([], [], [])"
  by (simp add: first_is_def rx_seq_def rx_star_def rx_end_def rx_empty_def run_len_def)

lemma first_match: "first_is m None s x \<Longrightarrow> re_match m s = Some x"
  by (auto simp: first_is_def re_match_def)

lemma first_search: "first_is m p s (a, r, g) \<Longrightarrow> re_search_from m p s = Some (a, g)"
  by (cases s) (auto simp: first_is_def)

text \<open>What a search finds is a match of some part of the text.\<close>

lemma search_mem: "re_search_from m p s = Some (a, g) \<Longrightarrow> \<exists>u q t r. s = u @ t \<and> (a, r, g) \<in> set (m q t)"
proof (induction s arbitrary: p)
  case Nil
  then obtain r xs where "m p [] = (a, r, g) # xs" by (auto split: list.splits)
  then have "(a, r, g) \<in> set (m p [])" by simp
  then show ?case by blast
next
  case (Cons c s)
  show ?case
  proof (cases "m p (c # s)")
    case Nil
    with Cons.prems have "re_search_from m (Some c) s = Some (a, g)" by simp
    from Cons.IH [OF this] obtain u q t r where "s = u @ t" "(a, r, g) \<in> set (m q t)" by blast
    then show ?thesis by (intro exI [of _ "c # u"] exI [of _ q] exI [of _ t] exI [of _ r]) simp
  next
    case (Cons x xs)
    with Cons.prems obtain r where "x = (a, r, g)" by (cases x) auto
    with Cons have "(a, r, g) \<in> set (m p (c # s))" by simp
    then show ?thesis by (intro exI [of _ "[]"] exI [of _ p] exI [of _ "c # s"] exI [of _ r]) simp
  qed
qed

text \<open>A search fails exactly when no match starts anywhere.\<close>

lemma search_none:
  "re_search_from m p s = None \<longleftrightarrow> (\<forall>u t. s = u @ t \<longrightarrow> m (after p u) t = [])"
proof (induction s arbitrary: p)
  case Nil
  then show ?case by (auto simp: after_def split: list.splits)
next
  case (Cons c s)
  have step: "re_search_from m p (c # s) = None \<longleftrightarrow> m p (c # s) = [] \<and> re_search_from m (Some c) s = None"
    by (auto split: list.splits)
  show ?case
  proof
    assume a: "re_search_from m p (c # s) = None"
    show "\<forall>u t. c # s = u @ t \<longrightarrow> m (after p u) t = []"
    proof (intro allI impI)
      fix u t assume "c # s = u @ t"
      then show "m (after p u) t = []"
        using a step Cons.IH [of "Some c"] by (cases u) (auto simp: after_def split: if_splits)
    qed
  next
    assume a: "\<forall>u t. c # s = u @ t \<longrightarrow> m (after p u) t = []"
    have "m (after (Some c) u) t = []" if "s = u @ t" for u t
      using a [rule_format, of "c # u" t] that by (simp add: after_def split: if_splits)
    moreover have "m p (c # s) = []" using a [rule_format, of "[]" "c # s"] by (simp add: after_def)
    ultimately show "re_search_from m p (c # s) = None" using step Cons.IH [of "Some c"] by simp
  qed
qed

text \<open>A search passes over a prefix in which no match starts.\<close>

lemma search_skip:
  "(\<And>u v p. x = u @ v \<Longrightarrow> v \<noteq> [] \<Longrightarrow> m p (v @ y) = []) \<Longrightarrow>
   \<exists>q. re_search_from m p (x @ y) = re_search_from m q y"
proof (induction x arbitrary: p)
  case (Cons c x)
  from Cons.prems [of "[]" "c # x"] have "m p (c # x @ y) = []" by simp
  moreover have "\<exists>q. re_search_from m (Some c) (x @ y) = re_search_from m q y"
    by (rule Cons.IH) (use Cons.prems in \<open>metis append_Cons\<close>)
  ultimately show ?case by simp
qed auto

end
