(* ===== verification/Mcfuzz_Mutate.thy ===== *)
theory Mcfuzz_Mutate
  imports Py_Random
begin

text \<open>
  The hostile inputs of the robustness oracle (\<open>_mutate\<close>, \<open>_repeat_token\<close> and
  \<open>_hostile_frontend_case\<close> of \<open>src/tools/fuzz/mcfuzz.py\<close>). A byte string is a \<^typ>\<open>string\<close>, one
  character per byte. The random source is the tape of \<open>Py_Random\<close>.
\<close>

section \<open>Byte mutation\<close>

text \<open>\<open>b[i] ^= 1 << k\<close>, \<open>del b[i]\<close> and \<open>b.insert(i, x)\<close>; \<open>i\<close> is always in range.\<close>

definition flip_bit :: "nat \<Rightarrow> char \<Rightarrow> char" where
  "flip_bit k c = char_of ((of_char c :: nat) XOR push_bit k 1)"

definition delete_at :: "nat \<Rightarrow> 'a list \<Rightarrow> 'a list" where
  "delete_at i xs = take i xs @ drop (Suc i) xs"

definition insert_at :: "nat \<Rightarrow> 'a \<Rightarrow> 'a list \<Rightarrow> 'a list" where
  "insert_at i x xs = take i xs @ x # drop i xs"

text \<open>One round: an empty buffer is first replaced by a small valid program.\<close>

definition mutate_round :: "string \<Rightarrow> ('z rng_state_scheme, string) prog" where
  "mutate_round b0 =
     (let b = (if b0 = [] then ''fn main() {}'' else b0) in
      bind (randrange 0 5) (\<lambda>kind.
      bind (randrange 0 (length b)) (\<lambda>i.
        if kind = 0 then bind (randrange 0 8) (\<lambda>k. ret (b[i := flip_bit k (b ! i)]))
        else if kind = 1 then ret (delete_at i b)
        else if kind = 2 then bind (randrange 0 256) (\<lambda>x. ret (insert_at i (char_of x) b))
        else if kind = 3 then ret (insert_at i (b ! i) b)
        else ret (take i b))))"

primrec mutate_rounds :: "nat \<Rightarrow> string \<Rightarrow> ('z rng_state_scheme, string) prog" where
  "mutate_rounds 0 b = ret b"
| "mutate_rounds (Suc n) b = bind (mutate_round b) (mutate_rounds n)"

definition mutate :: "string \<Rightarrow> ('z rng_state_scheme, string) prog" where
  "mutate data = bind (randint 1 12) (\<lambda>n. mutate_rounds (nat n) data)"

lemma wp_mutate_round:
  "wp (mutate_round b) (\<lambda>b' s'. length b' \<le> Suc (max (length b) 12) \<and> same_frame s s') s"
  unfolding mutate_round_def Let_def
  by (intro wp_intro) (auto simp: delete_at_def insert_at_def same_frame_def split: if_splits)

lemma wp_mutate_rounds:
  "wp (mutate_rounds n b) (\<lambda>b' s'. length b' \<le> max (length b) 12 + n \<and> same_frame s s') s"
proof (induction n arbitrary: b s)
  case (Suc n)
  have "wp (mutate_rounds n b1) (\<lambda>b' s'. length b' \<le> max (length b) 12 + Suc n \<and> same_frame s s') s1"
    if "length b1 \<le> Suc (max (length b) 12)" and "same_frame s s1" for b1 s1
    by (rule wp_mono [OF Suc.IH]) (use that in \<open>auto simp: same_frame_def\<close>)
  then show ?case
    by (auto intro!: wp_bindI wp_mono [OF wp_mutate_round])
qed simp

lemma wp_mutate:
  "wp (mutate data) (\<lambda>out s'. length out \<le> max (length data) 12 + 12 \<and> same_frame s s') s"
  unfolding mutate_def
  by (intro wp_intro; simp?; rule wp_mono [OF wp_mutate_rounds]) (auto simp: same_frame_def)


text \<open>
  Mutation reaches every neighbour of its input: for a position in a non-empty input, each of
  a single bit flip, a deletion, the insertion of any byte, a duplication and a truncation there
  is the whole result of some run of draws.
\<close>

theorem mutate_reaches_every_edit:
  assumes "i < length data" and "k < 8"
    and "out = data[i := flip_bit k (data ! i)] \<or> out = delete_at i data \<or> out = insert_at i c data
      \<or> out = insert_at i (data ! i) data \<or> out = take i data"
  shows "\<exists>t. mutate data \<lparr>tape = t\<rparr> = Inr (out, \<lparr>tape = []\<rparr>)"
proof -
  have ne: "data \<noteq> []" using assms(1) by auto
  have run: "mutate data \<lparr>tape = 0 # t\<rparr> = bind (mutate_round data) ret \<lparr>tape = t\<rparr>" for t
    by (simp add: mutate_def randint_def randbelow_def next_draw_def py_simps split: sum.split prod.split)
  note step = run mutate_round_def randrange_def randbelow_def next_draw_def py_simps ne assms(1,2)
  have "mutate data \<lparr>tape = [0, 0, i, k]\<rparr> = Inr (data[i := flip_bit k (data ! i)], \<lparr>tape = []\<rparr>)"
    by (simp add: step)
  moreover have "mutate data \<lparr>tape = [0, 1, i]\<rparr> = Inr (delete_at i data, \<lparr>tape = []\<rparr>)"
    by (simp add: step)
  moreover have "mutate data \<lparr>tape = [0, 2, i, of_char c]\<rparr> = Inr (insert_at i c data, \<lparr>tape = []\<rparr>)"
    by (simp add: step)
  moreover have "mutate data \<lparr>tape = [0, 3, i]\<rparr> = Inr (insert_at i (data ! i) data, \<lparr>tape = []\<rparr>)"
    by (simp add: step)
  moreover have "mutate data \<lparr>tape = [0, 4, i]\<rparr> = Inr (take i data, \<lparr>tape = []\<rparr>)"
    by (simp add: step)
  ultimately show ?thesis using assms(3) by blast
qed

theorem mutate_reaches_every_edit_witness:
  "\<exists>t. mutate ''fn'' \<lparr>tape = t\<rparr> = Inr (''f'', \<lparr>tape = []\<rparr>)"
  by (rule mutate_reaches_every_edit [of 1 _ 0 _ undefined]) simp_all

section \<open>Grammar-hostile inputs\<close>

definition repeat_text :: "nat \<Rightarrow> string \<Rightarrow> string" where
  "repeat_text n u = concat (replicate n u)"

definition repeat_token :: "string \<Rightarrow> nat \<Rightarrow> string" where
  "repeat_token token count = join '' '' (replicate count token)"

text \<open>The thirteen cases, in the order the code appends them.\<close>

definition hostile_cases :: "nat \<Rightarrow> nat \<Rightarrow> (string \<times> string) list" where
  "hostile_cases depth width =
    [(''deep balanced parens'',
      ''fn hostile() -> u32 { return '' @ repeat_text depth ''('' @ ''1'' @ repeat_text depth '')'' @ ''; }'' @ nl),
     (''deep unary chain'',
      ''fn hostile() -> bool { return '' @ repeat_text depth ''!'' @ ''false; }'' @ nl),
     (''deep pointer type'',
      ''fn hostile(p: '' @ repeat_text depth ''*'' @ ''u32) -> void { }'' @ nl),
     (''deep nested blocks'',
      ''fn hostile() -> void { '' @ repeat_text depth ''{ '' @ repeat_text depth ''} '' @ ''}'' @ nl),
     (''deep else-if chain'',
      ''fn hostile() -> void { if true { } '' @ repeat_text depth ''else if false { } '' @ ''else { } }'' @ nl),
     (''wide unterminated call'',
      ''fn hostile() -> u32 { return f('' @ join '', '' (map str_nat [0..<width]) @ nl),
     (''wide flat expression'',
      ''fn hostile() -> u32 { return '' @ join '' + '' (replicate width ''1'') @ ''; }'' @ nl),
     (''deep cast chain'',
      ''fn hostile(x: u32) -> u32 { return x'' @ repeat_text depth '' as u32'' @ ''; }'' @ nl),
     (''deep postfix member chain'',
      ''fn hostile(x: Node) -> u32 { return x'' @ repeat_text depth ''.next'' @ ''; }'' @ nl),
     (''deep postfix index chain'',
      ''fn hostile(x: []u32) -> u32 { return x'' @ repeat_text depth ''[0]'' @ ''; }'' @ nl),
     (''deep type member chain'',
      ''type Hostile = A'' @ repeat_text depth ''.B'' @ '';'' @ nl),
     (''invalid bytes in declaration stream'',
      ''fn hostile() -> u32 {'' @ nl @ ''  let x: u32 = 1;'' @ nl @ ''}'' @ nl
        @ [CHR 0x00, CHR 0x80, CHR 0xFF] @ nl @ ''fn after() -> void {}'' @ nl),
     (''unbalanced delimiter storm'',
      ''fn hostile() -> void { '' @ repeat_token ''('' width @ repeat_token ''{'' width @ nl)]"

text \<open>
  The code seeds a fresh generator from the case's seed; the tape stands for its draws, the two
  sizes first. The seed itself picks the case.
\<close>

definition hostile_frontend_case :: "int \<Rightarrow> ('z rng_state_scheme, string \<times> string) prog" where
  "hostile_frontend_case seed =
     bind (randrange 0 128) (\<lambda>d.
     bind (randrange 0 128) (\<lambda>w.
       let cases = hostile_cases (1024 + d) (512 + w) in
       ret (cases ! nat (seed mod int (length cases)))))"

text \<open>Sizes of the pieces.\<close>

lemma length_repeat_text [simp]: "length (repeat_text n u) = n * length u"
  by (induction n) (auto simp: repeat_text_def)

lemma length_join_le: "(\<And>x. x \<in> set xs \<Longrightarrow> length x \<le> m) \<Longrightarrow> length (join sep xs) \<le> length xs * (m + length sep)"
proof (induction sep xs rule: join.induct)
  case (3 sep x y xs)
  have "length x \<le> m" and "length (join sep (y # xs)) \<le> length (y # xs) * (m + length sep)"
    using 3 by auto
  then show ?case by simp
qed auto

lemma length_str_nat_le: "n < 10 ^ Suc k \<Longrightarrow> length (str_nat n) \<le> Suc k"
proof (induction k arbitrary: n)
  case 0
  then show ?case by (subst str_nat.simps) simp
next
  case (Suc k)
  have "n div 10 < 10 ^ Suc k" using Suc.prems by (simp add: less_mult_imp_div_less mult.commute)
  from Suc.IH [OF this] show ?case by (subst str_nat.simps) simp
qed

text \<open>
  A scan of the brackets of one kind: the nesting level after the text and the deepest level
  reached; a closing bracket below level 0 has no value.
\<close>

fun nesting :: "char \<Rightarrow> char \<Rightarrow> nat \<Rightarrow> nat \<Rightarrow> string \<Rightarrow> (nat \<times> nat) option" where
  "nesting op cl lvl deep [] = Some (lvl, deep)"
| "nesting op cl lvl deep (c # cs) =
     (if c = op then nesting op cl (Suc lvl) (max deep (Suc lvl)) cs
      else if c = cl then (if lvl = 0 then None else nesting op cl (lvl - 1) deep cs)
      else nesting op cl lvl deep cs)"

lemma nesting_append:
  "nesting op cl l d (xs @ ys) = (case nesting op cl l d xs of None \<Rightarrow> None | Some (l', d') \<Rightarrow> nesting op cl l' d' ys)"
  by (induction op cl l d xs rule: nesting.induct) auto

text \<open>\<open>n\<close> copies of a unit that opens one bracket, and of one that closes one.\<close>

lemma nesting_opens:
  assumes "\<And>l d. nesting op cl l d u = Some (Suc l, max d (Suc l))"
  shows "nesting op cl l d (repeat_text n u) = Some (l + n, if n = 0 then d else max d (l + n))"
  by (induction n arbitrary: l d) (auto simp: repeat_text_def nesting_append assms)

lemma nesting_closes:
  assumes "\<And>l d. nesting op cl (Suc l) d u = Some (l, d)"
  shows "nesting op cl (l + n) d (repeat_text n u) = Some (l, d)"
  by (induction n arbitrary: l d) (auto simp: repeat_text_def nesting_append assms)

text \<open>The unit each of the thirteen cases repeats, where it is a deep one.\<close>

definition hostile_units :: "string option list" where
  "hostile_units =
    [Some ''('', Some ''!'', Some ''*'', Some ''{ '', Some ''else if false { } '', None, None,
     Some '' as u32'', Some ''.next'', Some ''[0]'', Some ''.B'', None, None]"

lemma contains_middle: "contains (u @ p @ v) p"
  by (auto simp: contains_iff)

lemma hostile_repeats:
  "list_all2 (\<lambda>(label, body) u. case u of None \<Rightarrow> True | Some u \<Rightarrow> contains body (repeat_text depth u))
     (hostile_cases depth width) hostile_units"
  unfolding hostile_cases_def hostile_units_def
  by (simp only: list_all2_Cons list_all2_Nil prod.case option.case)
     (intro conjI TrueI refl contains_middle)

lemma length_hostile_cases [simp]: "length (hostile_cases depth width) = 13"
  by (simp add: hostile_cases_def)

lemma length_repeat_token: "length token = 1 \<Longrightarrow> length (repeat_token token n) \<le> n * 2"
  using length_join_le [of "replicate n token" 1 "'' ''"] by (auto simp: repeat_token_def)

lemma length_hostile:
  assumes "depth < 1152" and "width < 640"
  shows "list_all (\<lambda>(label, body). length body \<le> 21000) (hostile_cases depth width)"
proof -
  have calls: "length (join '', '' (map str_nat [0..<width])) \<le> width * 5"
    using length_join_le [of "map str_nat [0..<width]" 3 "'', ''"] length_str_nat_le [of _ 2] assms(2)
    by fastforce
  have flat: "length (join '' + '' (replicate width ''1'')) \<le> width * 4"
    using length_join_le [of "replicate width ''1''" 1 "'' + ''"] by auto
  have storm: "length (repeat_token ''('' width) \<le> width * 2" "length (repeat_token ''{'' width) \<le> width * 2"
    by (simp_all add: length_repeat_token)
  show ?thesis
    unfolding hostile_cases_def
    by (simp only: list.pred_inject prod.case length_append length_repeat_text)
       (use assms calls flat storm in \<open>intro conjI TrueI; simp\<close>)
qed

lemma nesting_parens:
  "nesting (CHR ''('') (CHR '')'') 0 0 (snd (hostile_cases depth width ! 0)) = Some (0, max 1 depth)"
proof -
  have o: "nesting (CHR ''('') (CHR '')'') l d (repeat_text depth ''('')
      = Some (l + depth, if depth = 0 then d else max d (l + depth))" for l d
    by (rule nesting_opens) simp
  have c: "nesting (CHR ''('') (CHR '')'') (l + depth) d (repeat_text depth '')'') = Some (l, d)" for l d
    by (rule nesting_closes) simp
  show ?thesis
    using c [of 0] by (simp add: hostile_cases_def nesting_append o)
qed

lemma nesting_braces:
  "nesting (CHR ''{'') (CHR ''}'') 0 0 (snd (hostile_cases depth width ! 3)) = Some (0, Suc depth)"
proof -
  have o: "nesting (CHR ''{'') (CHR ''}'') l d (repeat_text depth ''{ '')
      = Some (l + depth, if depth = 0 then d else max d (l + depth))" for l d
    by (rule nesting_opens) simp
  have c: "nesting (CHR ''{'') (CHR ''}'') (l + depth) d (repeat_text depth ''} '') = Some (l, d)" for l d
    by (rule nesting_closes) simp
  show ?thesis
    using c [of 1] by (simp add: hostile_cases_def nesting_append o)
qed

lemma wp_hostile_case:
  "wp (hostile_frontend_case seed)
     (\<lambda>r s'. \<exists>d w t. d < 128 \<and> w < 128 \<and> r = hostile_cases (1024 + d) (512 + w) ! nat (seed mod 13) \<and> s' = s\<lparr>tape := t\<rparr>) s"
  unfolding hostile_frontend_case_def Let_def by (intro wp_intro) auto

text \<open>
  Every grammar-hostile input is built without an exception and stays under 21000 bytes; the
  seed walks through the thirteen cases in turn, a deep case holds between 1024 and 1151
  consecutive copies of the unit that makes the parser recurse, and the two bracketed cases are
  balanced and reach that nesting depth.
\<close>

theorem hostile_case_deep_and_bounded:
  "\<exists>label body depth t. hostile_frontend_case seed s = Inr ((label, body), s\<lparr>tape := t\<rparr>)
     \<and> length body \<le> 21000 \<and> 1024 \<le> depth \<and> depth < 1152
     \<and> (case hostile_units ! nat (seed mod 13) of None \<Rightarrow> True
         | Some u \<Rightarrow> contains body (repeat_text depth u))
     \<and> (seed mod 13 = 0 \<longrightarrow> nesting (CHR ''('') (CHR '')'') 0 0 body = Some (0, depth))
     \<and> (seed mod 13 = 3 \<longrightarrow> nesting (CHR ''{'') (CHR ''}'') 0 0 body = Some (0, Suc depth))"
proof -
  define k where "k = nat (seed mod 13)"
  have k: "k < 13" by (simp add: k_def nat_less_iff)
  from wp_hostile_case [of seed s, folded k_def]
  obtain d w t where dw: "d < 128" "w < 128"
    and run: "hostile_frontend_case seed s = Inr (hostile_cases (1024 + d) (512 + w) ! k, s\<lparr>tape := t\<rparr>)"
    unfolding wp_iff by metis
  obtain label body where lb: "hostile_cases (1024 + d) (512 + w) ! k = (label, body)" by fastforce
  have "length body \<le> 21000"
    using length_hostile [of "1024 + d" "512 + w"] dw lb k by (auto simp: list_all_length)
  moreover have "case hostile_units ! k of None \<Rightarrow> True | Some u \<Rightarrow> contains body (repeat_text (1024 + d) u)"
    using list_all2_nthD [OF hostile_repeats, of k "1024 + d" "512 + w"] k lb by simp
  moreover have "nesting (CHR ''('') (CHR '')'') 0 0 body = Some (0, 1024 + d)" if "seed mod 13 = 0"
    using nesting_parens [of "1024 + d" "512 + w"] lb that by (simp add: k_def)
  moreover have "nesting (CHR ''{'') (CHR ''}'') 0 0 body = Some (0, Suc (1024 + d))" if "seed mod 13 = 3"
    using nesting_braces [of "1024 + d" "512 + w"] lb that by (simp add: k_def)
  ultimately show ?thesis
    using run lb dw by (auto simp: k_def intro!: exI [of _ label] exI [of _ body] exI [of _ "1024 + d"] exI [of _ t])
qed

theorem hostile_case_deep_and_bounded_witness:
  "\<exists>label body depth t. hostile_frontend_case 16 \<lparr>tape = []\<rparr> = Inr ((label, body), \<lparr>tape = t\<rparr>)
     \<and> 1024 \<le> depth \<and> nesting (CHR ''{'') (CHR ''}'') 0 0 body = Some (0, Suc depth)"
  using hostile_case_deep_and_bounded [of 16 "\<lparr>tape = []\<rparr>"] by auto

end
