(* ===== verification/Mcfuzz_Artifacts.thy ===== *)
theory Mcfuzz_Artifacts
  imports Py_Strings
begin

text \<open>
  The artifact oracle of \<open>tools/fuzz/mcfuzz.py\<close>: the \<open>key=value\<close> rows the compiler prints, the map
  strings and their escapes, the trap-edge accounting of the MIR and IR dumps, the agreement of the
  facts with the IR, and the source-map check. The compiler's own escaping routine
  (\<open>src/lower_c_map.zig\<close>) is modelled too, since the parser has to invert it.
\<close>

section \<open>Escapes\<close>

text \<open>\<open>int(value[i + 2:i + 4], 16)\<close> on two characters, and \<open>chr\<close> of it: \<open>None\<close> is a \<open>ValueError\<close>.\<close>

definition hex_val :: "char \<Rightarrow> nat option" where
  "hex_val c =
     (let n = (of_char c :: nat) in
      if 48 \<le> n \<and> n \<le> 57 then Some (n - 48)
      else if 65 \<le> n \<and> n \<le> 70 then Some (n - 55)
      else if 97 \<le> n \<and> n \<le> 102 then Some (n - 87) else None)"

text \<open>\<open>chr(n)\<close> for a code point below 256, as the UTF-8 bytes a string is made of here.\<close>

definition chr_text :: "nat \<Rightarrow> string" where
  "chr_text n = (if n < 128 then [char_of n] else [char_of (192 + n div 64), char_of (128 + n mod 64)])"

definition chr_hex2 :: "char \<Rightarrow> char \<Rightarrow> string option" where
  "chr_hex2 a b =
     (case (hex_val a, hex_val b) of
        (Some x, Some y) \<Rightarrow> Some (chr_text (16 * x + y))
      | (None, Some y) \<Rightarrow>
          if is_space a \<or> a = CHR ''+'' then Some (chr_text y)
          else if a = CHR ''-'' \<and> y = 0 then Some (chr_text y) else None
      | (Some x, None) \<Rightarrow> if is_space b then Some (chr_text x) else None
      | (None, None) \<Rightarrow> None)"

text \<open>\<open>_unescape_map_string\<close>.\<close>

fun unescape_map_string :: "string \<Rightarrow> string" where
  "unescape_map_string [] = []"
| "unescape_map_string [c] = [c]"
| "unescape_map_string (c # d # cs) =
     (if c \<noteq> CHR 0x5C then c # unescape_map_string (d # cs)
      else if d = CHR ''n'' then CHR 0x0A # unescape_map_string cs
      else if d = CHR ''r'' then CHR 0x0D # unescape_map_string cs
      else if d = CHR ''t'' then CHR 0x09 # unescape_map_string cs
      else if d = CHR 0x22 \<or> d = CHR 0x5C then d # unescape_map_string cs
      else if d = CHR ''x'' then
        (case cs of
           a # b # es \<Rightarrow>
             (case chr_hex2 a b of
                Some ch \<Rightarrow> ch @ unescape_map_string es
              | None \<Rightarrow> d # unescape_map_string cs)
         | _ \<Rightarrow> d # unescape_map_string cs)
      else d # unescape_map_string cs)"

text \<open>\<open>appendEscapedString\<close> of \<open>src/lower_c_map.zig\<close>, the writer of the strings read here.\<close>

definition escape_char :: "char \<Rightarrow> string" where
  "escape_char c =
     (let n = (of_char c :: nat) in
      if c = CHR 0x5C then [CHR 0x5C, CHR 0x5C]
      else if c = CHR 0x22 then [CHR 0x5C, CHR 0x22]
      else if n = 10 then [CHR 0x5C, CHR ''n'']
      else if n = 13 then [CHR 0x5C, CHR ''r'']
      else if n = 9 then [CHR 0x5C, CHR ''t'']
      else if n < 32 \<or> n = 127 then [CHR 0x5C, CHR ''x'', hex_up (n div 16), hex_up (n mod 16)]
      else [c])"

definition appendEscapedString :: "string \<Rightarrow> string" where
  "appendEscapedString s = concat (map escape_char s)"


section \<open>Rows\<close>

text \<open>
  The quoted alternative of \<open>_KV_RE\<close>, \<open>"((?:\\.|[^"])*)"\<close>, behind the opening quote: an escape pair is
  preferred, a lone backslash is tried when the rest then fails. Content and rest.
\<close>

fun quoted_value :: "string \<Rightarrow> (string \<times> string) option" where
  "quoted_value [] = None"
| "quoted_value (c # cs) =
     (if c = CHR 0x22 then Some ([], cs)
      else if c = CHR 0x5C then
        (case cs of
           [] \<Rightarrow> None
         | d # ds \<Rightarrow>
             (case (if d = CHR 0x0A then None else quoted_value ds) of
                Some (a, b) \<Rightarrow> Some (c # d # a, b)
              | None \<Rightarrow> (case quoted_value cs of Some (a, b) \<Rightarrow> Some (c # a, b) | None \<Rightarrow> None)))
      else (case quoted_value cs of Some (a, b) \<Rightarrow> Some (c # a, b) | None \<Rightarrow> None))"

definition bare_char :: "char \<Rightarrow> bool" where
  "bare_char c \<longleftrightarrow> c \<notin> {CHR '' '', CHR 0x09, CHR 0x0D, CHR 0x0A}"

definition bare_value :: "string \<Rightarrow> (string \<times> string) option" where
  "bare_value s =
     (if takeWhile bare_char s = [] then None else Some (takeWhile bare_char s, dropWhile bare_char s))"

definition kv_value :: "string \<Rightarrow> (string \<times> string) option" where
  "kv_value s =
     (case (if startswith s dquote then quoted_value (tl s) else None) of
        Some (q, r) \<Rightarrow> Some (unescape_map_string q, r)
      | None \<Rightarrow> bare_value s)"

text \<open>The quoted content is a literal piece of the row, followed by the closing quote.\<close>

lemma quoted_value_decomp: "quoted_value s = Some (a, b) \<Longrightarrow> s = a @ CHR 0x22 # b"
proof (induction "length s" arbitrary: s a b rule: less_induct)
  case less
  from less.prems obtain c cs where s: "s = c # cs" by (cases s) auto
  have rest: "cs = a' @ CHR 0x22 # b'" if "quoted_value cs = Some (a', b')" for a' b'
    using less.hyps [of cs] that s by simp
  consider "c = CHR 0x22" | (esc) "c = CHR 0x5C" | (other) "c \<noteq> CHR 0x22" "c \<noteq> CHR 0x5C" by blast
  then show ?case
  proof cases
    case esc
    with less.prems s obtain d ds where cs: "cs = d # ds" by (cases cs) auto
    have pair: "ds = a' @ CHR 0x22 # b'" if "quoted_value ds = Some (a', b')" for a' b'
      using less.hyps [of ds] that s cs by simp
    show ?thesis
    proof (cases "if d = CHR 0x0A then None else quoted_value ds")
      case None
      then have "quoted_value (c # d # ds) =
          (case quoted_value (d # ds) of Some (a, b) \<Rightarrow> Some (c # a, b) | None \<Rightarrow> None)"
        using esc by (subst quoted_value.simps) (simp del: quoted_value.simps)
      with less.prems s cs obtain a' where "quoted_value cs = Some (a', b)" "a = c # a'"
        by (auto split: option.splits simp del: quoted_value.simps)
      with rest s show ?thesis by simp
    next
      case (Some ab)
      then obtain a' b' where ab: "ab = (a', b')" "quoted_value ds = Some (a', b')"
        by (cases ab) (auto split: if_splits)
      with less.prems s cs esc Some have "a = c # d # a'" "b = b'" by auto
      with pair [OF ab(2)] s cs show ?thesis by simp
    qed
  next
    case other
    with less.prems s obtain a' where "quoted_value cs = Some (a', b)" "a = c # a'"
      by (auto split: option.splits)
    with rest s show ?thesis by simp
  qed (use less.prems s in auto)
qed

lemma kv_value_shorter: "kv_value s = Some (v, r) \<Longrightarrow> length r < length s"
proof -
  assume kv: "kv_value s = Some (v, r)"
  show ?thesis
  proof (cases "if startswith s dquote then quoted_value (tl s) else None")
    case None
    with kv have "takeWhile bare_char s \<noteq> []" "r = dropWhile bare_char s"
      by (auto simp: kv_value_def bare_value_def split: if_splits)
    moreover have "length (takeWhile bare_char s @ dropWhile bare_char s) = length s"
      by (simp only: takeWhile_dropWhile_id)
    ultimately show ?thesis by (cases "takeWhile bare_char s") auto
  next
    case (Some qr)
    with kv have "quoted_value (tl s) = Some (fst qr, r)" "s \<noteq> []"
      by (auto simp: kv_value_def startswith_def split: if_splits prod.splits)
    from quoted_value_decomp [OF this(1)] this(2) show ?thesis by (cases s) auto
  qed
qed

text \<open>\<open>_KV_RE.finditer(line)\<close>, and the dictionary \<open>_parse_kv\<close> builds.\<close>

function (sequential) find_kvs :: "string \<Rightarrow> (string \<times> string) list" where
  "find_kvs [] = []"
| "find_kvs (c # cs) =
     (if ident_start c then
        (case dropWhile is_word (c # cs) of
           e # v \<Rightarrow>
             if e = CHR ''='' then
               (case kv_value v of
                  Some (val, r) \<Rightarrow> (takeWhile is_word (c # cs), val) # find_kvs r
                | None \<Rightarrow> find_kvs cs)
             else find_kvs cs
         | [] \<Rightarrow> find_kvs cs)
      else find_kvs cs)"
  by pat_completeness auto
termination
proof (relation "measure length", goal_cases)
  case (4 c cs e v x val r)
  then have "length r < length v" using kv_value_shorter [of v val r] by simp
  moreover have "length (dropWhile is_word (c # cs)) \<le> length (c # cs)" by (rule length_dropWhile_le)
  ultimately show ?case unfolding 4(2) by simp
qed auto

declare find_kvs.simps(2) [simp del]

definition parse_kv :: "string \<Rightarrow> (string, string) dict" where
  "parse_kv line = foldl (\<lambda>d (k, v). dict_set d k v) [] (find_kvs line)"

section \<open>Trap-edge accounting\<close>

definition positive_int :: "string option \<Rightarrow> bool" where
  "positive_int v = (case v of None \<Rightarrow> False | Some s \<Rightarrow> (case py_int s of None \<Rightarrow> False | Some n \<Rightarrow> n > 0))"

text \<open>\<open>not name\<close>: the key is missing or its value is empty.\<close>

definition blank :: "string option \<Rightarrow> bool" where
  "blank v \<longleftrightarrow> v = None \<or> v = Some []"

type_synonym edge_key = "string \<times> string \<times> int \<times> int"

record trap_tables =
  tt_functions :: "(string, int) dict"
  tt_edges :: "(string, int) dict"
  tt_keys :: "edge_key set"

text \<open>One row of a dump. \<open>Inl\<close> is the error message the code returns as the fourth component.\<close>

definition trap_row :: "string \<Rightarrow> string \<Rightarrow> trap_tables \<Rightarrow> string + trap_tables" where
  "trap_row pre line t =
     (if startswith line (pre @ '' function '') then
        (let kv = parse_kv line in
         if blank (map_of kv ''name'') \<or> map_of kv ''trap_edges'' = None then
           Inl (pre @ '' function row missing name/trap_edges: '' @ line)
         else
           (let name = the (map_of kv ''name''); count = the (map_of kv ''trap_edges'') in
            case py_int count of
              None \<Rightarrow> Inl (pre @ '' function '' @ name @ '' has non-integer trap_edges='' @ repr_str count)
            | Some n \<Rightarrow>
                Inr (t\<lparr>tt_functions := dict_set (tt_functions t) name n,
                       tt_edges := (case map_of (tt_edges t) name of
                          None \<Rightarrow> dict_set (tt_edges t) name 0 | Some _ \<Rightarrow> tt_edges t)\<rparr>)))
      else if startswith line (pre @ '' trap_edge '') then
        (let kv = parse_kv line in
         if blank (map_of kv ''fn'') \<or> blank (map_of kv ''kind'') \<or> map_of kv ''line'' = None
            \<or> map_of kv ''column'' = None then
           Inl (pre @ '' trap_edge row missing fn/kind/line/column: '' @ line)
         else
           (let fn = the (map_of kv ''fn'') in
            case (py_int (the (map_of kv ''line'')), py_int (the (map_of kv ''column''))) of
              (Some l, Some c) \<Rightarrow>
                Inr (t\<lparr>tt_keys := insert (fn, the (map_of kv ''kind''), l, c) (tt_keys t),
                       tt_edges := dict_set (tt_edges t) fn
                         ((case map_of (tt_edges t) fn of None \<Rightarrow> 0 | Some n \<Rightarrow> n) + 1)\<rparr>)
            | _ \<Rightarrow> Inl (pre @ '' trap_edge has non-integer source position: '' @ line)))
      else Inr t)"

fun trap_rows :: "string \<Rightarrow> string list \<Rightarrow> trap_tables \<Rightarrow> string + trap_tables" where
  "trap_rows pre [] t = Inr t"
| "trap_rows pre (l # ls) t = rbind (trap_row pre l t) (trap_rows pre ls)"

definition parse_trap_edges :: "string \<Rightarrow> string \<Rightarrow> string + trap_tables" where
  "parse_trap_edges text pre =
     trap_rows pre (splitlines text) \<lparr>tt_functions = [], tt_edges = [], tt_keys = {}\<rparr>"

definition first_unknown :: "trap_tables \<Rightarrow> string option" where
  "first_unknown t = find (\<lambda>fn. map_of (tt_functions t) fn = None) (map fst (tt_edges t))"

definition edge_count :: "trap_tables \<Rightarrow> string \<Rightarrow> int" where
  "edge_count t fn = (case map_of (tt_edges t) fn of None \<Rightarrow> 0 | Some n \<Rightarrow> n)"

definition check_trap_edge_counts :: "string \<Rightarrow> string \<Rightarrow> string option" where
  "check_trap_edge_counts text pre =
     (case parse_trap_edges text pre of
        Inl err \<Rightarrow> Some err
      | Inr t \<Rightarrow>
          (case first_unknown t of
             Some fn \<Rightarrow> Some (pre @ '' trap_edge references unknown function '' @ fn)
           | None \<Rightarrow>
               (case find (\<lambda>(fn, expected). edge_count t fn \<noteq> expected) (tt_functions t) of
                  None \<Rightarrow> None
                | Some (fn, expected) \<Rightarrow>
                    Some (pre @ '' function '' @ fn @ '' declares trap_edges='' @ str_int expected @
                      '' but has '' @ str_int (edge_count t fn) @ '' trap_edge row(s)''))))"


section \<open>Facts and the IR\<close>

definition fact_row :: "string \<Rightarrow> (string + edge_key) option" where
  "fact_row line =
     (if startswith line ''fact checked_arithmetic_trap '' \<or> startswith line ''fact checked_shift_trap '' then
        (let kv = parse_kv line in
         if blank (map_of kv ''fn'') \<or> blank (map_of kv ''trap'') \<or> map_of kv ''line'' = None
            \<or> map_of kv ''column'' = None then
           Some (Inl (''checked trap fact missing fn/trap/line/column: '' @ line))
         else
           (case (py_int (the (map_of kv ''line'')), py_int (the (map_of kv ''column''))) of
              (Some l, Some c) \<Rightarrow> Some (Inr (the (map_of kv ''fn''), the (map_of kv ''trap''), l, c))
            | _ \<Rightarrow> Some (Inl (''checked trap fact has non-integer source position: '' @ line))))
      else None)"

fun fact_rows :: "string list \<Rightarrow> string + edge_key list" where
  "fact_rows [] = Inr []"
| "fact_rows (l # ls) =
     (case fact_row l of
        None \<Rightarrow> fact_rows ls
      | Some (Inl e) \<Rightarrow> Inl e
      | Some (Inr k) \<Rightarrow> rbind (fact_rows ls) (\<lambda>ks. Inr (k # ks)))"

definition checked_fact_traps :: "string \<Rightarrow> string + edge_key list" where
  "checked_fact_traps facts_text = fact_rows (splitlines facts_text)"

definition check_checked_facts_reach_ir :: "string \<Rightarrow> string \<Rightarrow> string option" where
  "check_checked_facts_reach_ir facts_text ir_text =
     (case checked_fact_traps facts_text of
        Inl err \<Rightarrow> Some err
      | Inr facts \<Rightarrow>
          (case parse_trap_edges ir_text ''ir'' of
             Inl err \<Rightarrow> Some err
           | Inr t \<Rightarrow>
               (case find (\<lambda>f. f \<notin> tt_keys t) facts of
                  None \<Rightarrow> None
                | Some (fn, kind, l, c) \<Rightarrow>
                    Some (''fact checked trap missing matching IR trap_edge fn='' @ fn @ '' kind='' @ kind @
                      '' line='' @ str_int l @ '' column='' @ str_int c))))"


section \<open>Source maps\<close>

definition parse_mcmap_entries :: "string \<Rightarrow> string + (string, string) dict list" where
  "parse_mcmap_entries map_text =
     (let lines = splitlines map_text in
      if lines = [] \<or> strip (hd lines) \<noteq> ''# mcmap v1'' then Inl ''emit-map missing # mcmap v1 header''
      else
        (let entries = map parse_kv (filter (\<lambda>l. startswith l ''entry '') lines) in
         if entries = [] then Inl ''emit-map produced no entry rows'' else Inr entries))"

definition entry_keys :: "string list" where
  "entry_keys = [''kind'', ''symbol'', ''source_line'', ''source_column'', ''source_len'', ''source_path'',
     ''typed_ast_node'', ''mir_block'', ''visibility'', ''origin'']"

definition repr_opt :: "string option \<Rightarrow> string" where
  "repr_opt v = (case v of None \<Rightarrow> ''None'' | Some s \<Rightarrow> repr_str s)"

definition str_opt :: "string option \<Rightarrow> string" where
  "str_opt v = (case v of None \<Rightarrow> ''None'' | Some s \<Rightarrow> s)"

definition repr_dict :: "(string, string) dict \<Rightarrow> string" where
  "repr_dict d = ''{'' @ join '', '' (map (\<lambda>(k, v). repr_str k @ '': '' @ repr_str v) d) @ ''}''"

text \<open>\<open>mir_block.split(":")[1]\<close> when it has the shape \<open>mir:<fn>:\<dots>\<close>.\<close>

definition mir_block_fn :: "string \<Rightarrow> string option" where
  "mir_block_fn b =
     (if startswith b ''mir:'' then
        (case split_on CHR '':'' b of _ # fn # _ # _ \<Rightarrow> Some fn | _ \<Rightarrow> None)
      else None)"

text \<open>The loop body of \<open>_check_emit_map\<close>: the message of the first failing test, if any.\<close>

definition entry_error :: "string \<Rightarrow> (string, int) dict \<Rightarrow> (string, string) dict \<Rightarrow> string option" where
  "entry_error src_path mir_functions entry =
     (case find (\<lambda>k. map_of entry k = None) entry_keys of
        Some k \<Rightarrow> Some (''emit-map entry missing '' @ k @ '': '' @ repr_dict entry)
      | None \<Rightarrow>
          (case find (\<lambda>k. \<not> positive_int (map_of entry k)) [''source_line'', ''source_column'', ''source_len''] of
             Some k \<Rightarrow>
               Some (''emit-map entry has non-positive '' @ k @ ''='' @ repr_opt (map_of entry k) @
                 '' for kind='' @ str_opt (map_of entry ''kind'') @ '' symbol='' @ str_opt (map_of entry ''symbol''))
           | None \<Rightarrow>
               if map_of entry ''origin'' = Some ''source'' \<and> map_of entry ''source_path'' \<noteq> Some src_path then
                 Some (''emit-map source-origin entry has source_path='' @ repr_opt (map_of entry ''source_path'') @
                   '', expected '' @ repr_str src_path)
               else
                 (case mir_block_fn (case map_of entry ''mir_block'' of None \<Rightarrow> [] | Some b \<Rightarrow> b) of
                    None \<Rightarrow> None
                  | Some fn \<Rightarrow>
                      if fn \<notin> {''function'', ''global'', ''switch''} \<and> map_of mir_functions fn = None then
                        Some (''emit-map mir_block='' @ repr_opt (map_of entry ''mir_block'') @
                          '' references unknown lower-mir function '' @ fn)
                      else None)))"

definition is_harness_export :: "(string, string) dict \<Rightarrow> bool" where
  "is_harness_export entry \<longleftrightarrow>
     map_of entry ''kind'' = Some ''function'' \<and> map_of entry ''symbol'' = Some ''harness'' \<and>
     map_of entry ''visibility'' = Some ''exported''"

fun entries_error ::
  "string \<Rightarrow> (string, int) dict \<Rightarrow> bool \<Rightarrow> (string, string) dict list \<Rightarrow> string option" where
  "entries_error src_path fns seen [] =
     (if seen then None else Some ''emit-map missing exported function entry for harness'')"
| "entries_error src_path fns seen (e # es) =
     (case entry_error src_path fns e of
        Some err \<Rightarrow> Some err
      | None \<Rightarrow> entries_error src_path fns (seen \<or> is_harness_export e) es)"

definition check_emit_map :: "string \<Rightarrow> string \<Rightarrow> (string, int) dict \<Rightarrow> string option" where
  "check_emit_map map_text src_path mir_functions =
     (case parse_mcmap_entries map_text of
        Inl err \<Rightarrow> Some err
      | Inr entries \<Rightarrow> entries_error src_path mir_functions False entries)"

text \<open>The part of \<open>oracle_artifacts\<close> behind the four compiler runs.\<close>

definition check_artifacts :: "string \<Rightarrow> string \<Rightarrow> string \<Rightarrow> string \<Rightarrow> string \<Rightarrow> string option" where
  "check_artifacts src_path facts mir ir map_text =
     (case check_trap_edge_counts mir ''mir'' of
        Some e \<Rightarrow> Some e
      | None \<Rightarrow>
          (case check_trap_edge_counts ir ''ir'' of
             Some e \<Rightarrow> Some e
           | None \<Rightarrow>
               (case check_checked_facts_reach_ir facts ir of
                  Some e \<Rightarrow> Some e
                | None \<Rightarrow>
                    (case parse_trap_edges mir ''mir'' of
                       Inl e \<Rightarrow> Some e
                     | Inr t \<Rightarrow> check_emit_map map_text src_path (tt_functions t)))))"

section \<open>Escapes: lemmas\<close>

lemma hex_val_hex_up: "d < 16 \<Longrightarrow> hex_val (hex_up d) = Some d"
  by (auto simp: hex_val_def hex_up_def Let_def)

lemma of_char_small: "(of_char c :: nat) < 256"
  by (metis UNIV_I image_eqI range_nat_of_char lessThan_iff atLeast0LessThan)

lemma hex_digits_small: "(of_char c :: nat) div 16 < 16"
  using of_char_small [of c] by linarith

lemma chr_hex2_hex_up:
  "(of_char c :: nat) < 128 \<Longrightarrow>
   chr_hex2 (hex_up ((of_char c :: nat) div 16)) (hex_up ((of_char c :: nat) mod 16)) = Some [c]"
  by (simp add: chr_hex2_def hex_val_hex_up hex_digits_small mult_div_mod_eq chr_text_def)

text \<open>An escaped character is a plain character, an escape pair, or a hexadecimal escape.\<close>

lemma escape_char_cases:
  obtains (plain) "escape_char c = [c]" "c \<noteq> CHR 0x5C" "c \<noteq> CHR 0x22" "bare_char c \<or> c = CHR '' ''"
  | (pair) d where "escape_char c = [CHR 0x5C, d]" "d \<noteq> CHR ''x''" "d \<noteq> CHR 0x0A"
      "\<And>r. unescape_map_string (CHR 0x5C # d # r) = c # unescape_map_string r"
  | (hex) "escape_char c = [CHR 0x5C, CHR ''x'', hex_up ((of_char c :: nat) div 16), hex_up ((of_char c :: nat) mod 16)]"
      "(of_char c :: nat) < 128"
proof -
  let ?n = "of_char c :: nat"
  have eqs: "?n = 10 \<longleftrightarrow> c = CHR 0x0A" "?n = 13 \<longleftrightarrow> c = CHR 0x0D" "?n = 9 \<longleftrightarrow> c = CHR 0x09"
    using of_char_eq_iff [of c "CHR 0x0A", where ?'a = nat] of_char_eq_iff [of c "CHR 0x0D", where ?'a = nat]
      of_char_eq_iff [of c "CHR 0x09", where ?'a = nat] by simp_all
  consider "c = CHR 0x5C" | "c = CHR 0x22" | "c = CHR 0x0A" | "c = CHR 0x0D" | "c = CHR 0x09"
    | (ctl) "c \<notin> {CHR 0x5C, CHR 0x22, CHR 0x0A, CHR 0x0D, CHR 0x09}" "?n < 32 \<or> ?n = 127"
    | (other) "c \<notin> {CHR 0x5C, CHR 0x22, CHR 0x0A, CHR 0x0D, CHR 0x09}" "\<not> (?n < 32 \<or> ?n = 127)"
    by blast
  then show thesis
  proof cases
    case ctl
    then show thesis by (intro hex) (auto simp add: escape_char_def Let_def eqs)
  next
    case other
    then show thesis by (intro plain) (auto simp add: escape_char_def bare_char_def Let_def eqs)
  qed (auto simp: escape_char_def intro: pair)
qed

lemma unescape_escape_char: "unescape_map_string (escape_char c @ r) = c # unescape_map_string r"
proof (cases c rule: escape_char_cases)
  case plain
  then show ?thesis by (cases r) simp_all
qed (simp_all add: chr_hex2_hex_up del: of_char_of)

lemma unescape_escaped_append:
  "unescape_map_string (appendEscapedString s @ r) = s @ unescape_map_string r"
  by (induction s) (simp_all add: appendEscapedString_def unescape_escape_char)

lemma quoted_value_plain:
  "c \<noteq> CHR 0x5C \<Longrightarrow> c \<noteq> CHR 0x22 \<Longrightarrow> quoted_value r = Some (a, b) \<Longrightarrow> quoted_value (c # r) = Some (c # a, b)"
  by simp

lemma quoted_value_pair:
  "d \<noteq> CHR 0x0A \<Longrightarrow> quoted_value r = Some (a, b) \<Longrightarrow>
   quoted_value (CHR 0x5C # d # r) = Some (CHR 0x5C # d # a, b)"
  by simp

lemma hex_up_plain: "d < 16 \<Longrightarrow> hex_up d \<noteq> CHR 0x5C \<and> hex_up d \<noteq> CHR 0x22"
proof -
  assume "d < 16"
  then have "d \<in> {0..<16}" by simp
  moreover have "\<forall>d \<in> {0..<16}. hex_up d \<noteq> CHR 0x5C \<and> hex_up d \<noteq> CHR 0x22" by code_simp
  ultimately show ?thesis by blast
qed

lemma quoted_value_escape_char:
  assumes "quoted_value r = Some (a, b)"
  shows "quoted_value (escape_char c @ r) = Some (escape_char c @ a, b)"
proof (cases c rule: escape_char_cases)
  case plain
  then show ?thesis using quoted_value_plain [OF _ _ assms] by simp
next
  case (pair d)
  then show ?thesis using quoted_value_pair [OF _ assms] by simp
next
  case hex
  let ?h = "hex_up ((of_char c :: nat) div 16)" and ?l = "hex_up ((of_char c :: nat) mod 16)"
  have "quoted_value (?h # ?l # r) = Some (?h # ?l # a, b)"
    by (intro quoted_value_plain assms) (use hex_up_plain hex_digits_small in auto)
  then show ?thesis unfolding hex using quoted_value_pair [of "CHR ''x''"] by simp
qed

lemma quoted_value_escaped:
  "quoted_value (appendEscapedString s @ CHR 0x22 # r) = Some (appendEscapedString s, r)"
  by (induction s) (simp_all add: appendEscapedString_def quoted_value_escape_char)

lemma kv_value_escaped:
  "kv_value (CHR 0x22 # appendEscapedString s @ CHR 0x22 # r) = Some (s, r)"
  using unescape_escaped_append [of s "[]"]
  by (simp add: kv_value_def startswith_def quoted_value_escaped)

section \<open>Rows: what the compiler writes is what the oracle reads\<close>

text \<open>
  The writer of a row (\<open>emitEntry\<close> and the dump printers): a tag, then \<open> key=value\<close> fields whose value is
  a quoted, escaped string (\<open>appendMapString\<close>) or a bare word or number.
\<close>

datatype map_value = Quoted string | Bare string

fun value_text :: "map_value \<Rightarrow> string" where
  "value_text (Quoted s) = dquote @ appendEscapedString s @ dquote"
| "value_text (Bare s) = s"

fun value_string :: "map_value \<Rightarrow> string" where
  "value_string (Quoted s) = s"
| "value_string (Bare s) = s"

fun fields_text :: "(string \<times> map_value) list \<Rightarrow> string" where
  "fields_text [] = []"
| "fields_text ((k, v) # fs) = CHR '' '' # k @ CHR ''='' # value_text v @ fields_text fs"

definition is_ident :: "string \<Rightarrow> bool" where
  "is_ident s \<longleftrightarrow> s \<noteq> [] \<and> ident_start (hd s) \<and> list_all is_word s"

fun value_ok :: "map_value \<Rightarrow> bool" where
  "value_ok (Quoted s) \<longleftrightarrow> True"
| "value_ok (Bare s) \<longleftrightarrow> s \<noteq> [] \<and> list_all bare_char s \<and> hd s \<noteq> CHR 0x22"

definition fields_ok :: "(string \<times> map_value) list \<Rightarrow> bool" where
  "fields_ok fs \<longleftrightarrow> list_all (\<lambda>(k, v). is_ident k \<and> value_ok v) fs"

lemma space_not_word [simp]: "\<not> is_word CHR '' ''" "\<not> is_word CHR ''=''" "\<not> ident_start CHR '' ''"
  by (simp_all add: is_word_def ident_start_def is_digit_def)

lemma takeWhile_all_append:
  "list_all P xs \<Longrightarrow> (ys = [] \<or> \<not> P (hd ys)) \<Longrightarrow> takeWhile P (xs @ ys) = xs \<and> dropWhile P (xs @ ys) = ys"
  by (induction xs; cases ys) auto

lemma find_kvs_skip_tag: "list_all is_word w \<Longrightarrow> find_kvs (w @ CHR '' '' # r) = find_kvs (CHR '' '' # r)"
proof (induction w)
  case (Cons c w)
  from Cons.prems have "list_all is_word (c # w)" .
  from takeWhile_all_append [OF this, of "CHR '' '' # r"]
  have "dropWhile is_word (c # w @ CHR '' '' # r) = CHR '' '' # r" by simp
  with Cons show ?case by (simp add: find_kvs.simps(2))
qed simp

lemma find_kvs_space: "find_kvs (CHR '' '' # r) = find_kvs r"
  by (simp add: find_kvs.simps(2))

lemma kv_value_field:
  assumes "value_ok v" "r = [] \<or> hd r = CHR '' ''"
  shows "kv_value (value_text v @ r) = Some (value_string v, r)"
proof (cases v)
  case (Quoted s)
  then show ?thesis using kv_value_escaped [of s r] by simp
next
  case (Bare s)
  with assms have s: "list_all bare_char s" "\<not> startswith (s @ r) dquote" "s \<noteq> []"
    by (auto simp: startswith_def take_Cons' hd_append neq_Nil_conv)
  from assms(2) have "r = [] \<or> \<not> bare_char (hd r)" by (auto simp: bare_char_def)
  from takeWhile_all_append [OF s(1) this] s Bare show ?thesis
    by (simp add: kv_value_def bare_value_def)
qed

lemma fields_text_head: "fields_text fs = [] \<or> hd (fields_text fs) = CHR '' ''"
  by (cases fs) auto

lemma find_kvs_fields:
  "fields_ok fs \<Longrightarrow> find_kvs (fields_text fs) = map (\<lambda>(k, v). (k, value_string v)) fs"
proof (induction fs)
  case (Cons f fs)
  obtain k v where f: "f = (k, v)" by (cases f)
  with Cons.prems have ok: "is_ident k" "value_ok v" "fields_ok fs" by (simp_all add: fields_ok_def)
  from ok(1) obtain c ks where k: "k = c # ks" "ident_start c" "list_all is_word k"
    by (cases k) (auto simp: is_ident_def)
  let ?r = "value_text v @ fields_text fs"
  have "takeWhile is_word (k @ CHR ''='' # ?r) = k \<and> dropWhile is_word (k @ CHR ''='' # ?r) = CHR ''='' # ?r"
    by (rule takeWhile_all_append) (use k in auto)
  with k have "find_kvs (k @ CHR ''='' # ?r) = (k, value_string v) # find_kvs (fields_text fs)"
    by (simp add: find_kvs.simps(2) kv_value_field [OF ok(2) fields_text_head])
  with Cons.IH [OF ok(3)] f show ?case by (simp add: find_kvs_space)
qed simp

lemma foldl_dict_set_distinct:
  "distinct (map fst kvs) \<Longrightarrow> fst ` set d \<inter> fst ` set kvs = {} \<Longrightarrow>
   foldl (\<lambda>d (k, v). dict_set d k v) d kvs = d @ kvs"
proof (induction kvs arbitrary: d)
  case (Cons kv kvs)
  obtain k v where kv: "kv = (k, v)" by (cases kv)
  with Cons.prems have "dict_set d k v = d @ [(k, v)]" by (intro dict_set_fresh) auto
  with Cons kv show ?case by auto
qed simp

text \<open>
  C8. Round trip of the compiler's artifact rows: whatever strings the compiler puts into the quoted
  fields of a row (quotes, backslashes, newlines and control characters included), \<open>_parse_kv\<close> reads
  back exactly the keys and values that were written, in order.
\<close>

theorem parse_kv_reads_written_row:
  assumes "list_all is_word tag" and "fs \<noteq> []" and "fields_ok fs" and "distinct (map fst fs)"
  shows "parse_kv (tag @ fields_text fs) = map (\<lambda>(k, v). (k, value_string v)) fs"
proof -
  obtain r where r: "fields_text fs = CHR '' '' # r" using assms(2) by (cases fs) auto
  have "find_kvs (tag @ fields_text fs) = map (\<lambda>(k, v). (k, value_string v)) fs"
    using find_kvs_skip_tag [OF assms(1), of r] find_kvs_fields [OF assms(3)] r by simp
  moreover have "distinct (map fst (map (\<lambda>(k, v). (k, value_string v)) fs))"
    using assms(4) by (simp add: comp_def case_prod_unfold)
  ultimately show ?thesis using foldl_dict_set_distinct [of "map (\<lambda>(k, v). (k, value_string v)) fs" "[]"]
    by (simp add: parse_kv_def)
qed

theorem parse_kv_reads_written_row_witness:
  "parse_kv (''entry'' @ fields_text
      [(''kind'', Quoted ''function''), (''symbol'', Quoted [CHR ''a'', CHR 0x22, CHR 0x5C, CHR 0x0A, CHR 0x01]),
       (''source_line'', Bare ''12'')]) =
   [(''kind'', ''function''), (''symbol'', [CHR ''a'', CHR 0x22, CHR 0x5C, CHR 0x0A, CHR 0x01]),
    (''source_line'', ''12'')]"
  by (subst parse_kv_reads_written_row)
    (simp_all add: fields_ok_def is_ident_def is_word_def ident_start_def is_digit_def bare_char_def)

section \<open>What an accepted dump guarantees\<close>

text \<open>The reading of a row that the accounting is about: a declared count, or a trap edge.\<close>

definition function_decl :: "string \<Rightarrow> string \<Rightarrow> (string \<times> int) option" where
  "function_decl pre line =
     (if startswith line (pre @ '' function '') then
        (case (map_of (parse_kv line) ''name'', map_of (parse_kv line) ''trap_edges'') of
           (Some name, Some count) \<Rightarrow> if name = [] then None else map_option (Pair name) (py_int count)
         | _ \<Rightarrow> None)
      else None)"

definition edge_decl :: "string \<Rightarrow> string \<Rightarrow> edge_key option" where
  "edge_decl pre line =
     (if startswith line (pre @ '' trap_edge '') then
        (case (map_of (parse_kv line) ''fn'', map_of (parse_kv line) ''kind'',
               map_option py_int (map_of (parse_kv line) ''line''),
               map_option py_int (map_of (parse_kv line) ''column'')) of
           (Some fn, Some kind, Some (Some l), Some (Some c)) \<Rightarrow>
             if fn = [] \<or> kind = [] then None else Some (fn, kind, l, c)
         | _ \<Rightarrow> None)
      else None)"

definition row_ok :: "string \<Rightarrow> string \<Rightarrow> bool" where
  "row_ok pre line \<longleftrightarrow>
     (startswith line (pre @ '' function '') \<longrightarrow> function_decl pre line \<noteq> None) \<and>
     (startswith line (pre @ '' trap_edge '') \<longrightarrow> edge_decl pre line \<noteq> None)"

definition add_decl :: "trap_tables \<Rightarrow> string \<times> int \<Rightarrow> trap_tables" where
  "add_decl t = (\<lambda>(name, n). t\<lparr>tt_functions := dict_set (tt_functions t) name n,
     tt_edges := (case map_of (tt_edges t) name of None \<Rightarrow> dict_set (tt_edges t) name 0 | Some _ \<Rightarrow> tt_edges t)\<rparr>)"

definition add_edge :: "trap_tables \<Rightarrow> edge_key \<Rightarrow> trap_tables" where
  "add_edge t = (\<lambda>(fn, kind, l, c). t\<lparr>tt_keys := insert (fn, kind, l, c) (tt_keys t),
     tt_edges := dict_set (tt_edges t) fn ((case map_of (tt_edges t) fn of None \<Rightarrow> 0 | Some n \<Rightarrow> n) + 1)\<rparr>)"

lemma tags_exclusive: "startswith line (pre @ '' function '') \<Longrightarrow> \<not> startswith line (pre @ '' trap_edge '')"
  unfolding startswith_iff by auto

lemma trap_row_Inr:
  "trap_row pre line t = Inr t' \<longleftrightarrow> row_ok pre line \<and>
     t' = (case function_decl pre line of Some d \<Rightarrow> add_decl t d
           | None \<Rightarrow> (case edge_decl pre line of Some e \<Rightarrow> add_edge t e | None \<Rightarrow> t))"
proof -
  consider (f) "startswith line (pre @ '' function '')" "\<not> startswith line (pre @ '' trap_edge '')"
    | (e) "\<not> startswith line (pre @ '' function '')" "startswith line (pre @ '' trap_edge '')"
    | (o) "\<not> startswith line (pre @ '' function '')" "\<not> startswith line (pre @ '' trap_edge '')"
    using tags_exclusive by blast
  then show ?thesis
  proof cases
    case f
    then show ?thesis
      by (cases "map_of (parse_kv line) ''name''"; cases "map_of (parse_kv line) ''trap_edges''")
        (auto simp: trap_row_def row_ok_def function_decl_def edge_decl_def add_decl_def blank_def Let_def
           split: option.splits)
  next
    case e
    then show ?thesis
      by (cases "map_of (parse_kv line) ''fn''"; cases "map_of (parse_kv line) ''kind''";
          cases "map_of (parse_kv line) ''line''"; cases "map_of (parse_kv line) ''column''")
        (auto simp: trap_row_def row_ok_def function_decl_def edge_decl_def add_edge_def blank_def Let_def
           split: option.splits)
  next
    case o
    then show ?thesis by (auto simp: trap_row_def row_ok_def function_decl_def edge_decl_def)
  qed
qed

lemma decl_excludes_edge: "function_decl pre line = Some d \<Longrightarrow> edge_decl pre line = None"
  using tags_exclusive [of line pre] by (auto simp: function_decl_def edge_decl_def split: if_splits)

definition decls :: "string \<Rightarrow> string list \<Rightarrow> (string \<times> int) list" where
  "decls pre ls = List.map_filter (function_decl pre) ls"

definition edges :: "string \<Rightarrow> string list \<Rightarrow> edge_key list" where
  "edges pre ls = List.map_filter (edge_decl pre) ls"

definition edges_of :: "string \<Rightarrow> edge_key list \<Rightarrow> int" where
  "edges_of fn es = int (length (filter (\<lambda>e. fst e = fn) es))"

lemma decls_simps [simp]:
  "decls pre [] = []"
  "decls pre (l # ls) = (case function_decl pre l of None \<Rightarrow> decls pre ls | Some d \<Rightarrow> d # decls pre ls)"
  by (simp_all add: decls_def List.map_filter_simps split: option.split)

lemma edges_simps [simp]:
  "edges pre [] = []"
  "edges pre (l # ls) = (case edge_decl pre l of None \<Rightarrow> edges pre ls | Some e \<Rightarrow> e # edges pre ls)"
  by (simp_all add: edges_def List.map_filter_simps split: option.split)

text \<open>What one row adds to the tables, and what a whole dump leaves in them.\<close>

lemma add_decl_facts:
  "map_of (tt_functions (add_decl t d)) = (map_of (tt_functions t))(fst d \<mapsto> snd d)"
  "tt_keys (add_decl t d) = tt_keys t"
  "edge_count (add_decl t d) fn = edge_count t fn"
  "fst ` set (tt_edges (add_decl t d)) = insert (fst d) (fst ` set (tt_edges t))"
  "distinct (map fst (tt_functions t)) \<Longrightarrow> distinct (map fst (tt_functions (add_decl t d)))"
  by (cases d; auto simp: add_decl_def edge_count_def update_conv' dom_update distinct_update
        weak_map_of_SomeI split: option.splits dest: map_of_SomeD; force dest: map_of_SomeD)+

lemma add_edge_facts:
  "tt_functions (add_edge t e) = tt_functions t"
  "tt_keys (add_edge t e) = insert e (tt_keys t)"
  "edge_count (add_edge t e) fn = edge_count t fn + (if fst e = fn then 1 else 0)"
  "fst ` set (tt_edges (add_edge t e)) = insert (fst e) (fst ` set (tt_edges t))"
  by (cases e; auto simp: add_edge_def edge_count_def update_conv' dom_update)+

lemma trap_rows_spec:
  "distinct (map fst (tt_functions t)) \<Longrightarrow>
   (\<exists>t'. trap_rows pre ls t = Inr t' \<and> list_all (row_ok pre) ls \<and>
      map_of (tt_functions t') = map_of (tt_functions t) ++ map_of (rev (decls pre ls)) \<and>
      distinct (map fst (tt_functions t')) \<and>
      tt_keys t' = tt_keys t \<union> set (edges pre ls) \<and>
      (\<forall>fn. edge_count t' fn = edge_count t fn + edges_of fn (edges pre ls)) \<and>
      fst ` set (tt_edges t') = fst ` set (tt_edges t) \<union> fst ` set (decls pre ls) \<union> fst ` set (edges pre ls)) \<or>
   (\<exists>err. trap_rows pre ls t = Inl err \<and> \<not> list_all (row_ok pre) ls)"
proof (induction ls arbitrary: t)
  case Nil
  then show ?case by (simp add: edges_of_def)
next
  case (Cons l ls)
  show ?case
  proof (cases "row_ok pre l")
    case False
    then obtain err where "trap_row pre l t = Inl err" using trap_row_Inr [of pre l t] by (cases "trap_row pre l t") auto
    with False show ?thesis by simp
  next
    case True
    consider (decl) d where "function_decl pre l = Some d" "edge_decl pre l = None"
      | (edge) e where "function_decl pre l = None" "edge_decl pre l = Some e"
      | (other) "function_decl pre l = None" "edge_decl pre l = None"
      using decl_excludes_edge by (metis option.exhaust)
    then show ?thesis
    proof cases
      case decl
      then have "trap_row pre l t = Inr (add_decl t d)" using True trap_row_Inr [of pre l t] by simp
      with Cons.IH [OF add_decl_facts(5) [OF Cons.prems, of d]] decl True show ?thesis
        by (auto simp: add_decl_facts simp del: fun_upd_apply)
    next
      case edge
      then have "trap_row pre l t = Inr (add_edge t e)" using True trap_row_Inr [of pre l t] by simp
      with Cons.IH [of "add_edge t e"] Cons.prems edge True show ?thesis
        by (auto simp: add_edge_facts edges_of_def)
    next
      case other
      then have "trap_row pre l t = Inr t" using True trap_row_Inr [of pre l t] by simp
      with Cons.IH [OF Cons.prems] other True show ?thesis by auto
    qed
  qed
qed

lemma parse_trap_edges_cases:
  obtains (bad) err where "parse_trap_edges text pre = Inl err" "\<not> list_all (row_ok pre) (splitlines text)"
  | (good) t where "parse_trap_edges text pre = Inr t" "list_all (row_ok pre) (splitlines text)"
      "map_of (tt_functions t) = map_of (rev (decls pre (splitlines text)))"
      "distinct (map fst (tt_functions t))"
      "tt_keys t = set (edges pre (splitlines text))"
      "\<And>fn. edge_count t fn = edges_of fn (edges pre (splitlines text))"
      "fst ` set (tt_edges t) = fst ` set (decls pre (splitlines text)) \<union> fst ` set (edges pre (splitlines text))"
  using trap_rows_spec [of "\<lparr>tt_functions = [], tt_edges = [], tt_keys = {}\<rparr>" pre "splitlines text"]
  by (auto simp: parse_trap_edges_def edge_count_def)

lemma map_of_rev_None: "map_of (rev xs) k = None \<longleftrightarrow> k \<notin> fst ` set xs"
  by (simp add: map_of_eq_None_iff)

text \<open>
  Trap-edge accounting of \<open>_check_trap_edge_counts\<close>: a dump is accepted exactly when every function
  and trap-edge row of it is well formed, every trap edge belongs to a declared function, and every
  declared count (the last one, if a function is declared twice) is the number of trap-edge rows of
  that function; the rows may come in any order.
\<close>

theorem trap_edge_counts_accepted_iff:
  "check_trap_edge_counts text pre = None \<longleftrightarrow>
     list_all (row_ok pre) (splitlines text) \<and>
     fst ` set (edges pre (splitlines text)) \<subseteq> fst ` set (decls pre (splitlines text)) \<and>
     (\<forall>fn n. map_of (rev (decls pre (splitlines text))) fn = Some n \<longrightarrow>
        n = edges_of fn (edges pre (splitlines text)))"
proof (cases rule: parse_trap_edges_cases [of "text" pre])
  case (bad err)
  then show ?thesis by (simp add: check_trap_edge_counts_def)
next
  case (good t)
  let ?ds = "decls pre (splitlines text)" and ?es = "edges pre (splitlines text)"
  have "first_unknown t = None \<longleftrightarrow> (\<forall>fn \<in> fst ` set (tt_edges t). map_of (tt_functions t) fn \<noteq> None)"
    by (auto simp: first_unknown_def find_None_iff)
  also have "\<dots> \<longleftrightarrow> fst ` set ?es \<subseteq> fst ` set ?ds"
    unfolding good(7) good(3) map_of_rev_None by blast
  finally have known: "first_unknown t = None \<longleftrightarrow> fst ` set ?es \<subseteq> fst ` set ?ds" .
  have "find (\<lambda>(fn, expected). edge_count t fn \<noteq> expected) (tt_functions t) = None \<longleftrightarrow>
      (\<forall>fn n. map_of (tt_functions t) fn = Some n \<longrightarrow> n = edges_of fn ?es)"
    using good(4) good(6) by (auto simp: find_None_iff)
  with known good(1,2,3) show ?thesis
    by (auto simp: check_trap_edge_counts_def split: option.split)
qed

theorem trap_edge_counts_accepted_iff_witness:
  "check_trap_edge_counts (''ir trap_edge fn=f kind=Bounds line=3 column=7'' @ nl @
     ''ir function name=f trap_edges=1'' @ nl) ''ir'' = None"
proof -
  let ?t = "''ir trap_edge fn=f kind=Bounds line=3 column=7'' @ nl @ ''ir function name=f trap_edges=1'' @ nl"
  have ds: "decls ''ir'' (splitlines ?t) = [(''f'', 1)]" by code_simp
  have es: "edges ''ir'' (splitlines ?t) = [(''f'', ''Bounds'', 3, 7)]" by code_simp
  have ok: "list_all (row_ok ''ir'') (splitlines ?t)" by code_simp
  show ?thesis unfolding trap_edge_counts_accepted_iff using ds es ok by (simp add: edges_of_def)
qed

text \<open>Facts: the checked-trap rows, and the acceptance of the artifact bundle as a whole.\<close>

lemma fact_rows_Inr:
  "fact_rows ls = Inr ks \<Longrightarrow> set ks = {k. \<exists>l \<in> set ls. fact_row l = Some (Inr k)} \<and> (\<forall>l \<in> set ls. \<forall>e. fact_row l \<noteq> Some (Inl e))"
  by (induction ls arbitrary: ks) (auto simp: rbind_Inr_iff split: option.splits sum.splits)

lemma fact_rows_Inl: "fact_rows ls = Inl e \<Longrightarrow> \<exists>l \<in> set ls. \<exists>e. fact_row l = Some (Inl e)"
proof (induction ls)
  case (Cons l ls)
  then show ?case by (cases "fact_rows ls") (auto split: option.splits sum.splits)
qed simp

lemma facts_accepted_iff:
  "check_checked_facts_reach_ir facts ir = None \<longleftrightarrow>
     (\<forall>l \<in> set (splitlines facts). \<forall>e. fact_row l \<noteq> Some (Inl e)) \<and> list_all (row_ok ''ir'') (splitlines ir) \<and>
     (\<forall>l \<in> set (splitlines facts). \<forall>k. fact_row l = Some (Inr k) \<longrightarrow> k \<in> set (edges ''ir'' (splitlines ir)))"
proof (cases "checked_fact_traps facts")
  case (Inl err)
  then show ?thesis using fact_rows_Inl [of "splitlines facts" err]
    by (auto simp: check_checked_facts_reach_ir_def checked_fact_traps_def)
next
  case (Inr ks)
  then have ks: "set ks = {k. \<exists>l \<in> set (splitlines facts). fact_row l = Some (Inr k)}"
      "\<forall>l \<in> set (splitlines facts). \<forall>e. fact_row l \<noteq> Some (Inl e)"
    using fact_rows_Inr [of "splitlines facts" ks] by (simp_all add: checked_fact_traps_def)
  show ?thesis
  proof (cases rule: parse_trap_edges_cases [of ir "''ir''"])
    case (bad err)
    with Inr show ?thesis by (simp add: check_checked_facts_reach_ir_def)
  next
    case (good t)
    have "find (\<lambda>f. f \<notin> tt_keys t) ks = None \<longleftrightarrow> set ks \<subseteq> set (edges ''ir'' (splitlines ir))"
      by (auto simp: find_None_iff good(5))
    also have "\<dots> \<longleftrightarrow> (\<forall>l \<in> set (splitlines facts). \<forall>k. fact_row l = Some (Inr k) \<longrightarrow>
        k \<in> set (edges ''ir'' (splitlines ir)))"
      unfolding ks(1) by blast
    finally have reach: "find (\<lambda>f. f \<notin> tt_keys t) ks = None \<longleftrightarrow> \<dots>" .
    have "check_checked_facts_reach_ir facts ir = None \<longleftrightarrow> find (\<lambda>f. f \<notin> tt_keys t) ks = None"
      using Inr good(1) by (simp add: check_checked_facts_reach_ir_def split: option.split)
    with reach good(2) ks(2) show ?thesis by simp
  qed
qed

lemma entries_error_None:
  "entries_error p fns seen es = None \<longleftrightarrow>
     (\<forall>e \<in> set es. entry_error p fns e = None) \<and> (seen \<or> (\<exists>e \<in> set es. is_harness_export e))"
  by (induction es arbitrary: seen) (auto split: option.splits)

lemma entry_error_None:
  "entry_error p fns e = None \<longleftrightarrow>
     (\<forall>k \<in> set entry_keys. map_of e k \<noteq> None) \<and>
     (\<forall>k \<in> {''source_line'', ''source_column'', ''source_len''}. positive_int (map_of e k)) \<and>
     (map_of e ''origin'' = Some ''source'' \<longrightarrow> map_of e ''source_path'' = Some p) \<and>
     (\<forall>b fn. map_of e ''mir_block'' = Some b \<longrightarrow> mir_block_fn b = Some fn \<longrightarrow>
        fn \<in> {''function'', ''global'', ''switch''} \<or> map_of fns fn \<noteq> None)"
proof -
  have keys: "find (\<lambda>k. map_of e k = None) entry_keys = None \<longleftrightarrow> (\<forall>k \<in> set entry_keys. map_of e k \<noteq> None)"
    by (auto simp: find_None_iff)
  have poss: "find (\<lambda>k. \<not> positive_int (map_of e k)) [''source_line'', ''source_column'', ''source_len''] = None \<longleftrightarrow>
      (\<forall>k \<in> {''source_line'', ''source_column'', ''source_len''}. positive_int (map_of e k))"
    by (auto simp: find_None_iff)
  have mb: "''mir_block'' \<in> set entry_keys" by (simp add: entry_keys_def)
  show ?thesis
  proof (cases "find (\<lambda>k. map_of e k = None) entry_keys")
    case (Some k)
    then show ?thesis using keys by (simp add: entry_error_def)
  next
    case None
    with keys mb obtain b where b: "map_of e ''mir_block'' = Some b" by blast
    show ?thesis
    proof (cases "find (\<lambda>k. \<not> positive_int (map_of e k)) [''source_line'', ''source_column'', ''source_len'']")
      case (Some k)
      then have "\<not> (\<forall>k \<in> {''source_line'', ''source_column'', ''source_len''}. positive_int (map_of e k))"
        using poss by (simp del: find.simps insert_iff ball_simps)
      moreover have "entry_error p fns e \<noteq> None" using None Some by (simp add: entry_error_def del: find.simps)
      ultimately show ?thesis by blast
    next
      case None
      with \<open>find (\<lambda>k. map_of e k = None) entry_keys = None\<close> poss keys b show ?thesis
        by (cases "mir_block_fn b") (auto simp: entry_error_def simp del: find.simps)
    qed
  qed
qed

text \<open>What an accepted source-map entry says, over the set of functions the MIR dump declares.\<close>

definition entry_ok :: "string \<Rightarrow> string set \<Rightarrow> (string, string) dict \<Rightarrow> bool" where
  "entry_ok p fns e \<longleftrightarrow>
     (\<forall>k \<in> set entry_keys. map_of e k \<noteq> None) \<and>
     (\<forall>k \<in> {''source_line'', ''source_column'', ''source_len''}. positive_int (map_of e k)) \<and>
     (map_of e ''origin'' = Some ''source'' \<longrightarrow> map_of e ''source_path'' = Some p) \<and>
     (\<forall>b fn. map_of e ''mir_block'' = Some b \<longrightarrow> mir_block_fn b = Some fn \<longrightarrow>
        fn \<in> {''function'', ''global'', ''switch''} \<or> fn \<in> fns)"

lemma entry_ok_iff: "entry_error p fns e = None \<longleftrightarrow> entry_ok p (fst ` set fns) e"
  unfolding entry_error_None entry_ok_def map_of_eq_None_iff by simp

lemma check_emit_map_None:
  "check_emit_map mp p fns = None \<longleftrightarrow>
     (\<exists>entries. parse_mcmap_entries mp = Inr entries \<and> (\<exists>e \<in> set entries. is_harness_export e) \<and>
        (\<forall>e \<in> set entries. entry_ok p (fst ` set fns) e))"
  by (cases "parse_mcmap_entries mp") (auto simp: check_emit_map_def entries_error_None entry_ok_iff)

text \<open>
  C9. Acceptance of the artifact oracle: the four artifacts of a program are accepted exactly when both
  dumps balance, no checked-trap fact is malformed, every checked-trap fact has a trap edge of the same
  function, kind and position in the IR, and the source map has an exported \<open>harness\<close> function and only
  entries with all keys, positive positions, the right source path and MIR blocks of functions that the
  MIR dump declares.
\<close>

theorem check_artifacts_accepts_iff:
  "check_artifacts p facts mir ir mp = None \<longleftrightarrow>
     check_trap_edge_counts mir ''mir'' = None \<and> check_trap_edge_counts ir ''ir'' = None \<and>
     (\<forall>l \<in> set (splitlines facts). \<forall>e. fact_row l \<noteq> Some (Inl e)) \<and>
     (\<forall>l \<in> set (splitlines facts). \<forall>k. fact_row l = Some (Inr k) \<longrightarrow> k \<in> set (edges ''ir'' (splitlines ir))) \<and>
     (\<exists>entries. parse_mcmap_entries mp = Inr entries \<and> (\<exists>e \<in> set entries. is_harness_export e) \<and>
        (\<forall>e \<in> set entries. entry_ok p (fst ` set (decls ''mir'' (splitlines mir))) e))"
proof (cases rule: parse_trap_edges_cases [of mir "''mir''"])
  case (bad err)
  then have "check_trap_edge_counts mir ''mir'' \<noteq> None" by (simp add: check_trap_edge_counts_def)
  then show ?thesis by (auto simp: check_artifacts_def)
next
  case (good t)
  have dom: "fst ` set (tt_functions t) = fst ` set (decls ''mir'' (splitlines mir))"
    using arg_cong [OF good(3), of dom] by (simp add: dom_map_of_conv_image_fst)
  have rows: "list_all (row_ok ''ir'') (splitlines ir)" if "check_trap_edge_counts ir ''ir'' = None"
    using that by (cases rule: parse_trap_edges_cases [of ir "''ir''"]) (auto simp: check_trap_edge_counts_def)
  have "check_artifacts p facts mir ir mp = None \<longleftrightarrow>
      check_trap_edge_counts mir ''mir'' = None \<and> check_trap_edge_counts ir ''ir'' = None \<and>
      check_checked_facts_reach_ir facts ir = None \<and> check_emit_map mp p (tt_functions t) = None"
    by (simp add: check_artifacts_def good(1) split: option.split)
  with rows dom show ?thesis by (auto simp: facts_accepted_iff check_emit_map_None)
qed

theorem check_artifacts_accepts_iff_witness:
  "check_artifacts ''a.mc''
     (''fact checked_arithmetic_trap fn=harness trap=IntegerOverflow line=3 column=7'' @ nl)
     (''mir function name=harness trap_edges=0'' @ nl)
     (''ir function name=harness trap_edges=1'' @ nl @ ''ir trap_edge fn=harness kind=IntegerOverflow line=3 column=7'' @ nl)
     (''# mcmap v1'' @ nl @ ''entry'' @ fields_text [(''kind'', Quoted ''function''), (''symbol'', Quoted ''harness''),
        (''source_line'', Bare ''1''), (''source_column'', Bare ''8''), (''source_len'', Bare ''7''),
        (''source_path'', Quoted ''a.mc''), (''typed_ast_node'', Quoted ''ast:f@1:8''), (''mir_block'', Quoted ''mir:harness:0''),
        (''visibility'', Quoted ''exported''), (''origin'', Quoted ''source'')] @ nl) = None"
  (is "check_artifacts ?p ?facts ?mir ?ir ?mp = None")
proof -
  have "check_trap_edge_counts ?mir ''mir'' = None" by code_simp
  moreover have "check_trap_edge_counts ?ir ''ir'' = None" by code_simp
  moreover have "map fact_row (splitlines ?facts) = [Some (Inr (''harness'', ''IntegerOverflow'', 3, 7))]" by code_simp
  moreover have "edges ''ir'' (splitlines ?ir) = [(''harness'', ''IntegerOverflow'', 3, 7)]" by code_simp
  moreover have "decls ''mir'' (splitlines ?mir) = [(''harness'', 0)]" by code_simp
  moreover obtain e where "parse_mcmap_entries ?mp = Inr [e]" "is_harness_export e" "entry_error ?p [(''harness'', 0)] e = None"
  proof -
    have "(case parse_mcmap_entries ?mp of Inr [e] \<Rightarrow> is_harness_export e \<and> entry_error ?p [(''harness'', 0)] e = None | _ \<Rightarrow> False)"
      by code_simp
    then show thesis by (auto split: sum.splits list.splits intro: that)
  qed
  ultimately show ?thesis unfolding check_artifacts_accepts_iff
    by (auto simp: entry_ok_iff [of _ "[(''harness'', 0)]", simplified, symmetric])
qed

end
