(* ===== verification/Mcfuzz_Oracles.thy ===== *)
theory Mcfuzz_Oracles
  imports Py_Os Py_Regex Mcfuzz_Mutate Mcfuzz_Artifacts Mcref_Gen
begin

text \<open>
  The oracles of \<open>src/tools/fuzz/mcfuzz.py\<close>, each a program over the machine of \<open>Py_Os\<close> with the commands,
  deadlines, files and messages of the code. An oracle gets the tool paths, a seed, the path of the
  source under test and a work directory, and returns a finding or \<open>None\<close>. The programs that the
  type-directed generator prints and the draws behind a seed come with the environment.
\<close>

section \<open>Environment and constants\<close>

record fuzz_env =
  e_mcc :: string
  e_clang :: string
  e_llc :: string
  e_link_flags :: "string list"
  e_trapping :: bool
  e_root :: string
  e_draws :: "int \<Rightarrow> nat list"
  e_gen :: "bool \<Rightarrow> bool \<Rightarrow> bool \<Rightarrow> int \<Rightarrow> string"

text \<open>\<open>e_gen trapping float_bits metamorph seed\<close> is \<open>Gen(seed, trapping, float_bits).program(metamorph)\<close>.\<close>

definition TRAP_KINDS :: "string list" where
  "TRAP_KINDS = [''Assert'', ''Bounds'', ''DivideByZero'', ''IntegerOverflow'', ''InvalidRepresentation'', ''InvalidShift'',
     ''NullUnwrap'', ''Unreachable'']"

definition TRAPSITE_EXIT_BASE :: int where
  "TRAPSITE_EXIT_BASE = 40"

definition TRAPSITE_CODE_TO_KIND :: "(int \<times> string) list" where
  "TRAPSITE_CODE_TO_KIND = map (\<lambda>(i, k). (TRAPSITE_EXIT_BASE + int i + 1, k)) (enumerate 0 TRAP_KINDS)"

definition TRAP_STUBS :: string where
  "TRAP_STUBS = join nl (map (\<lambda>t. ''void mc_trap_'' @ t @ ''(void){__builtin_trap();}'') TRAP_KINDS) @ nl"

definition TRAPSITE_STUBS :: string where
  "TRAPSITE_STUBS = ''#include <stdlib.h>'' @ nl @
     join nl (map (\<lambda>(i, t). ''void mc_trap_'' @ t @ ''(void){exit('' @ str_int (TRAPSITE_EXIT_BASE + int i + 1) @ '');}'')
       (enumerate 0 TRAP_KINDS)) @ nl"

definition DRIVER :: string where
  "DRIVER = ''#include <stdint.h>'' @ nl @ ''#include <stdio.h>'' @ nl @ ''extern uint64_t harness(void);'' @ nl @
     ''int main(void){ printf('' @ dquote @ ''%llu'' @ [CHR 0x5C] @ ''n'' @ dquote @
     '', (unsigned long long)harness()); return 0; }'' @ nl"

section \<open>Compiling and running\<close>

definition first_error :: "string \<Rightarrow> string" where
  "first_error text =
     (case find (\<lambda>l. contains l ''error:'') (splitlines text) of Some l \<Rightarrow> strip l | None \<Rightarrow> take_points 120 (strip text))"

text \<open>The left summand is the error text.\<close>

definition emit_c_text :: "string \<Rightarrow> string \<Rightarrow> (string + string) io" where
  "emit_c_text mcc src =
     io_bind (run_cmd [mcc, ''emit-c'', src]) (\<lambda>p1.
       io_ret (if returncode p1 \<noteq> 0 then Inl (decode_replace (stderr p1)) else Inr (decode_replace (stdout p1))))"

definition compile_c_text_obj :: "string \<Rightarrow> string \<Rightarrow> string \<Rightarrow> string list \<Rightarrow> string option io" where
  "compile_c_text_obj clang c_text obj extra =
     io_bind (run_proc ([clang, ''-std=c11'', ''-w''] @ extra @ [''-c'', ''-x'', ''c'', ''-'', ''-o'', obj]) c_text []) (\<lambda>p2.
       io_ret (if returncode p2 = 0 then None else Some (decode_replace (stderr p2))))"

definition emit_c_obj :: "string \<Rightarrow> string \<Rightarrow> string \<Rightarrow> string \<Rightarrow> string list \<Rightarrow> string option io" where
  "emit_c_obj mcc clang src obj extra =
     io_bind (emit_c_text mcc src) (\<lambda>r. case r of
       Inl err \<Rightarrow> io_ret (Some err)
     | Inr c_text \<Rightarrow> compile_c_text_obj clang c_text obj extra)"

text \<open>\<open>mcc emit-llvm\<close> only to see whether it accepts; the script that builds the object from LLVM; the linker.\<close>

definition emit_llvm_fails :: "fuzz_env \<Rightarrow> string \<Rightarrow> bool io" where
  "emit_llvm_fails env src = io_bind (run_cmd [e_mcc env, ''emit-llvm'', src]) (\<lambda>p. io_ret (returncode p \<noteq> 0))"

definition llvm_cc :: "fuzz_env \<Rightarrow> string \<Rightarrow> string \<Rightarrow> bool io" where
  "llvm_cc env src obj =
     io_bind (run_proc [''bash'', path_join (e_root env) ''tools/toolchain/mcc-llvm-cc.sh'', src, ''-o'', obj] []
         [(''MCC'', e_mcc env), (''LLC'', e_llc env)])
       (\<lambda>p. io_ret (returncode p = 0))"

definition link_app :: "fuzz_env \<Rightarrow> string list \<Rightarrow> string list \<Rightarrow> string \<Rightarrow> bool io" where
  "link_app env san inputs app =
     io_bind (run_cmd ([e_clang env] @ e_link_flags env @ [''-w''] @ san @ inputs @ [''-lm'', ''-o'', app]))
       (\<lambda>p. io_ret (returncode p = 0))"

section \<open>C against LLVM\<close>

text \<open>The contract of the comparison: exit status first, output only when both succeed.\<close>

definition divergence_text :: "proc \<Rightarrow> proc \<Rightarrow> string option" where
  "divergence_text co lo =
     (if (returncode co = 0) \<noteq> (returncode lo = 0) then
        Some (''BACKEND DIVERGENCE (one trapped, one did not): C=(rc='' @ str_int (returncode co) @ '') LLVM=(rc='' @
          str_int (returncode lo) @ '')'')
      else if returncode co = 0 \<and> stdout co \<noteq> stdout lo then
        Some (''BACKEND DIVERGENCE (output): C='' @ repr_bytes (bstrip (stdout co)) @ '' LLVM='' @ repr_bytes (bstrip (stdout lo)))
      else None)"

definition differential_compare :: "fuzz_env \<Rightarrow> string \<Rightarrow> string \<Rightarrow> string option io" where
  "differential_compare env src work =
     (let c_obj = path_join work ''c.o''; l_obj = path_join work ''l.o'';
          drv = path_join work ''d.c''; ts = path_join work ''ts.c'';
          c_app = path_join work ''c_exe''; l_app = path_join work ''l_exe'' in
      io_bind (emit_c_obj (e_mcc env) (e_clang env) src c_obj []) (\<lambda>err. case err of
        Some e \<Rightarrow>
          io_bind (emit_llvm_fails env src) (\<lambda>bad.
            io_ret (if bad then None else Some (''C backend emit/compile failed (LLVM accepted): '' @ first_error e)))
      | None \<Rightarrow>
          io_bind (llvm_cc env src l_obj) (\<lambda>ok.
          if \<not> ok then io_ret (Some ''LLVM backend emit/compile failed'')
          else
            io_bind (write_file drv DRIVER) (\<lambda>_.
            io_bind (write_file ts TRAP_STUBS) (\<lambda>_.
            io_bind (link_app env [] [drv, c_obj] c_app) (\<lambda>ok.
            if \<not> ok then io_ret (Some ''C link failed'')
            else
              io_bind (link_app env [] [drv, ts, l_obj] l_app) (\<lambda>ok.
              if \<not> ok then io_ret (Some ''LLVM link failed'')
              else
                io_bind (run_cmd [c_app]) (\<lambda>co.
                io_bind (run_cmd [l_app]) (\<lambda>lo. io_ret (divergence_text co lo))))))))))"

definition oracle_differential :: "fuzz_env \<Rightarrow> int \<Rightarrow> string \<Rightarrow> string \<Rightarrow> string option io" where
  "oracle_differential env seed src work = differential_compare env src work"

section \<open>Trap sites\<close>

text \<open>\<open>s.replace(old, new, 1)\<close>, and \<open>pattern.subn(repl, s, count=1)\<close> with a function of the groups.\<close>

fun replace_first :: "string \<Rightarrow> string \<Rightarrow> string \<Rightarrow> string" where
  "replace_first old new [] = (if old = [] then new else [])"
| "replace_first old new (c # s) =
     (if startswith (c # s) old then new @ drop (length old) (c # s) else c # replace_first old new s)"

fun sub_first :: "matcher \<Rightarrow> (string list \<Rightarrow> string) \<Rightarrow> char option \<Rightarrow> string \<Rightarrow> string \<times> nat" where
  "sub_first m f p [] = (case m p [] of [] \<Rightarrow> ([], 0) | (a, r, g) # _ \<Rightarrow> (f g @ r, 1))"
| "sub_first m f p (c # s) =
     (case m p (c # s) of
        [] \<Rightarrow> (let (t, n) = sub_first m f (Some c) s in (c # t, n))
      | (a, r, g) # _ \<Rightarrow> (f g @ r, 1))"

definition trap_helper_re :: "string \<Rightarrow> matcher" where
  "trap_helper_re kind =
     (let sp = rx_plus is_space; ws = rx_star is_space in
      rx_seqs [rx_group (rx_seqs
          [rx_lit ''MC_NORETURN'', sp, rx_lit ''MC_UNUSED'', sp, rx_lit ''static'', sp, rx_lit ''inline'', sp, rx_lit ''void'', sp,
           rx_lit (''mc_trap_'' @ kind), ws, rx_lit ''('', ws, rx_lit ''void'', ws, rx_lit '')'', ws, rx_lit ''{'', ws]),
        rx_lit ''__builtin_trap'', ws, rx_lit ''('', ws, rx_lit '')'', ws, rx_lit '';'', ws, rx_lit ''}''])"

definition add_stdlib_include :: "string \<Rightarrow> string" where
  "add_stdlib_include c_text =
     (let anchor = ''#include <limits.h>'' @ nl in
      if contains c_text ''#include <stdlib.h>'' then c_text
      else if contains c_text anchor then replace_first anchor (anchor @ ''#include <stdlib.h>'' @ nl) c_text
      else ''#include <stdlib.h>'' @ nl @ c_text)"

fun instrument_helpers :: "(int \<times> string) list \<Rightarrow> string \<Rightarrow> string \<times> string list" where
  "instrument_helpers [] c_text = (c_text, [])"
| "instrument_helpers ((code, kind) # rest) c_text =
     (let (c1, n) = sub_first (trap_helper_re kind) (\<lambda>g. hd g @ ''exit('' @ str_int code @ '');'' @ nl @ ''}'') None c_text;
          (c2, missing) = instrument_helpers rest c1
      in (c2, (if n \<noteq> 1 then [kind] else []) @ missing))"

definition instrument_c_trap_helpers :: "string \<Rightarrow> string + string" where
  "instrument_c_trap_helpers c_text =
     (let (c', missing) = instrument_helpers TRAPSITE_CODE_TO_KIND (add_stdlib_include c_text) in
      if missing \<noteq> [] then Inl (''TRAPSITE instrumentation failed: missing C helper(s) '' @ join '', '' missing) else Inr c')"

definition trapsite_outcome :: "proc \<Rightarrow> string" where
  "trapsite_outcome p =
     (if returncode p = 0 then ''ok:'' @ strip (decode_replace (stdout p))
      else (case map_of TRAPSITE_CODE_TO_KIND (returncode p) of
              Some kind \<Rightarrow> ''trap:'' @ kind
            | None \<Rightarrow> ''status:'' @ str_int (returncode p)))"

definition oracle_trapsite :: "fuzz_env \<Rightarrow> int \<Rightarrow> string \<Rightarrow> string \<Rightarrow> string option io" where
  "oracle_trapsite env seed src work =
     (let c_obj = path_join work ''c_trapsite.o''; l_obj = path_join work ''l_trapsite.o'';
          drv = path_join work ''d.c''; ts = path_join work ''trapsite_stubs.c'';
          c_app = path_join work ''c_trapsite_exe''; l_app = path_join work ''l_trapsite_exe'' in
      io_bind (emit_c_text (e_mcc env) src) (\<lambda>r. case r of
        Inl err \<Rightarrow>
          io_bind (emit_llvm_fails env src) (\<lambda>bad.
            io_ret (if bad then None else Some (''C backend emit failed (LLVM accepted): '' @ first_error err)))
      | Inr c_text \<Rightarrow>
          (case instrument_c_trap_helpers c_text of
             Inl err \<Rightarrow> io_ret (Some err)
           | Inr c_inst \<Rightarrow>
               io_bind (compile_c_text_obj (e_clang env) c_inst c_obj []) (\<lambda>err. case err of
                 Some e \<Rightarrow>
                   io_bind (emit_llvm_fails env src) (\<lambda>bad.
                     io_ret (if bad then None
                       else Some (''C backend instrumented compile failed (LLVM accepted): '' @ first_error e)))
               | None \<Rightarrow>
                   io_bind (llvm_cc env src l_obj) (\<lambda>ok.
                   if \<not> ok then io_ret (Some ''LLVM backend emit/compile failed'')
                   else
                     io_bind (write_file drv DRIVER) (\<lambda>_.
                     io_bind (write_file ts TRAPSITE_STUBS) (\<lambda>_.
                     io_bind (link_app env [] [drv, c_obj] c_app) (\<lambda>ok.
                     if \<not> ok then io_ret (Some ''C trapsite link failed'')
                     else
                       io_bind (link_app env [] [drv, ts, l_obj] l_app) (\<lambda>ok.
                       if \<not> ok then io_ret (Some ''LLVM trapsite link failed'')
                       else
                         io_bind (run_cmd [c_app]) (\<lambda>co.
                         io_bind (run_cmd [l_app]) (\<lambda>lo.
                           let c_norm = trapsite_outcome co; l_norm = trapsite_outcome lo in
                           io_ret (if c_norm \<noteq> l_norm then
                             Some (''TRAPSITE DIVERGENCE: C='' @ c_norm @ '' LLVM='' @ l_norm) else None))))))))))))"

section \<open>Sanitizers\<close>

text \<open>The probes run in a fresh directory; any exception inside means that the runtime is not available.\<close>

definition probe_source :: string where
  "probe_source = ''int main(void){return 0;}'' @ nl"

definition ubsan_runtime_available :: "string \<Rightarrow> bool io" where
  "ubsan_runtime_available clang =
     io_bind mkdtemp (\<lambda>d.
       finally_do
         (try_any
           (io_bind (write_file (path_join d ''p.c'') probe_source) (\<lambda>_.
            io_bind (run_cmd [clang, ''-fsanitize=undefined'', ''-fno-sanitize-recover=all'', path_join d ''p.c'', ''-o'', path_join d ''p''])
              (\<lambda>p. io_ret (returncode p = 0))))
           (io_ret False))
         (rmtree d))"

definition asan_runtime_available :: "string \<Rightarrow> bool io" where
  "asan_runtime_available clang =
     io_bind mkdtemp (\<lambda>d.
       finally_do
         (try_any
           (io_bind (write_file (path_join d ''p.c'') probe_source) (\<lambda>_.
            io_bind (run_cmd [clang, ''-fsanitize=address'', path_join d ''p.c'', ''-o'', path_join d ''p'']) (\<lambda>lk.
            if returncode lk \<noteq> 0 then io_ret False
            else io_bind (run_proc [path_join d ''p''] [] [(''ASAN_OPTIONS'', ''detect_leaks=0'')]) (\<lambda>r. io_ret (returncode r = 0)))))
           (io_ret False))
         (rmtree d))"

definition report_line :: "string \<Rightarrow> proc \<Rightarrow> string" where
  "report_line needle r =
     (case find (\<lambda>l. contains l needle) (splitlines (decode_replace (stdout r @ stderr r))) of
        Some l \<Rightarrow> l | None \<Rightarrow> ''abort rc='' @ str_int (returncode r))"

definition oracle_sanitize :: "fuzz_env \<Rightarrow> int \<Rightarrow> string \<Rightarrow> string \<Rightarrow> string option io" where
  "oracle_sanitize env seed src work =
     (let obj = path_join work ''c.o''; drv = path_join work ''d.c''; app = path_join work ''app'';
          san = [''-fsanitize=undefined'', ''-fno-sanitize=function'', ''-fno-sanitize-recover=all''] in
      io_bind (emit_c_obj (e_mcc env) (e_clang env) src obj san) (\<lambda>err.
      if err \<noteq> None then io_ret (Some ''C backend emit/compile failed'')
      else
        io_bind (write_file drv DRIVER) (\<lambda>_.
        io_bind (link_app env san [drv, obj] app) (\<lambda>ok.
        if \<not> ok then io_ret (Some ''link failed'')
        else
          io_bind (run_proc [app] [] [(''UBSAN_OPTIONS'', ''halt_on_error=1'')]) (\<lambda>r.
            io_ret (if contains (decode_replace (stdout r @ stderr r)) ''runtime error'' \<or> returncode r \<noteq> 0
              then Some (''UBSan: '' @ report_line ''runtime error'' r) else None))))))"

definition oracle_asan :: "fuzz_env \<Rightarrow> int \<Rightarrow> string \<Rightarrow> string \<Rightarrow> string option io" where
  "oracle_asan env seed src work =
     (let obj = path_join work ''c_asan.o''; drv = path_join work ''d.c''; app = path_join work ''asan_app'';
          san = [''-fsanitize=address'', ''-fno-omit-frame-pointer''] in
      io_bind (emit_c_obj (e_mcc env) (e_clang env) src obj san) (\<lambda>err.
      if err \<noteq> None then io_ret (Some ''C backend emit/compile failed'')
      else
        io_bind (write_file drv DRIVER) (\<lambda>_.
        io_bind (link_app env san [drv, obj] app) (\<lambda>ok.
        if \<not> ok then io_ret (Some ''link failed'')
        else
          io_bind (run_proc [app] [] [(''ASAN_OPTIONS'', ''halt_on_error=1:abort_on_error=1:detect_leaks=0'')]) (\<lambda>r.
            io_ret (if contains (decode_replace (stdout r @ stderr r)) ''ERROR: AddressSanitizer:'' \<or> returncode r \<noteq> 0
              then Some (''ASan: '' @ report_line ''ERROR: AddressSanitizer:'' r) else None))))))"

section \<open>Oracles over the front end\<close>

definition check_no_crash :: "fuzz_env \<Rightarrow> string \<Rightarrow> string \<Rightarrow> nat \<Rightarrow> string option io" where
  "check_no_crash env path label timeout =
     io_bind (run_within timeout [e_mcc env, ''check'', path]) (\<lambda>res. io_ret (case res of
       None \<Rightarrow> Some (''mcc check HANGS (>'' @ str_nat timeout @ ''s) on '' @ label)
     | Some r \<Rightarrow>
         if returncode r < 0 then Some (''mcc check CRASHED (signal '' @ str_int (- returncode r) @ '') on '' @ label)
         else
           (let err = decode_replace (stderr r);
                bad = (\<lambda>l. contains l ''panic:'' \<or> contains l ''error return trace:'') in
            if bad err then
              Some (''mcc check leaked compiler failure on '' @ label @ '': '' @
                (case find bad (splitlines err) of Some l \<Rightarrow> l | None \<Rightarrow> []))
            else None)))"

text \<open>The generators' draws: the tape of \<open>random.Random(n)\<close>, run to the value.\<close>

definition with_rng :: "fuzz_env \<Rightarrow> int \<Rightarrow> (rng_state, 'a) prog \<Rightarrow> 'a io" where
  "with_rng env n m = io_lift (case m \<lparr>tape = e_draws env n\<rparr> of Inl e \<Rightarrow> Inl e | Inr (x, _) \<Rightarrow> Inr x)"

definition oracle_robust :: "fuzz_env \<Rightarrow> int \<Rightarrow> string \<Rightarrow> string \<Rightarrow> string option io" where
  "oracle_robust env seed src work =
     (let mpath = path_join work ''m.mc''; hpath = path_join work ''hostile.mc'' in
      io_bind (read_bytes src) (\<lambda>data.
      io_bind (with_rng env ((seed * 2654435761) AND mask_int 32) (mutate data)) (\<lambda>mutated.
      io_bind (write_file mpath mutated) (\<lambda>_.
      io_bind (check_no_crash env mpath ''mutated input'' 15) (\<lambda>finding.
      if finding \<noteq> None then io_ret finding
      else
        io_bind (with_rng env ((seed * 1103515245 + 12345) AND mask_int 32) (hostile_frontend_case seed)) (\<lambda>(hlabel, hostile).
        io_bind (write_file hpath hostile) (\<lambda>_.
          check_no_crash env hpath hlabel 15)))))))"

definition INVALIDATIONS :: "(string \<times> string) list" where
  "INVALIDATIONS =
    [(''    var mcfuzz_bad: bool = 12345;'', ''int literal assigned to bool''),
     (''    var mcfuzz_bad: u32 = 1.5;'', ''float literal assigned to int''),
     (''    var mcfuzz_bad: u32 = mcfuzz_undeclared_zzz;'', ''use of an undeclared identifier''),
     (''    var mcfuzz_bad: bool = true; var mcfuzz_bad: bool = false;'', ''duplicate local declaration''),
     (''    var mcfuzz_bad: u32 = (true + 1);'', ''arithmetic on a bool operand''),
     (''    mcfuzz_undeclared_fn(1, 2, 3);'', ''call of an undeclared function''),
     (''    var mcfuzz_bad: u8 = ((0 as usize) as UserPtr<u8>).*;'', ''kernel deref of a UserPtr (user/kernel trust boundary)'')]"

definition harness_marker :: string where
  "harness_marker = ''export fn harness() -> u64 {'' @ nl"

definition oracle_failclosed :: "fuzz_env \<Rightarrow> int \<Rightarrow> string \<Rightarrow> string \<Rightarrow> string option io" where
  "oracle_failclosed env seed src work =
     io_bind (with_rng env ((seed * 40503) AND mask_int 32) (choice INVALIDATIONS)) (\<lambda>(inj, desc).
     io_bind (read_text src) (\<lambda>source.
     if \<not> contains source harness_marker then io_ret None
     else
       (let bad = replace_first harness_marker (harness_marker @ inj @ nl) source; bpath = path_join work ''bad.mc'' in
        io_bind (write_file bpath bad) (\<lambda>_.
        io_bind (run_within 15 [e_mcc env, ''check'', bpath]) (\<lambda>res. io_ret (case res of
          None \<Rightarrow> Some (''mcc check HANGS on an invalid program ('' @ desc @ '')'')
        | Some r \<Rightarrow>
            if returncode r < 0 then
              Some (''mcc check CRASHED (signal '' @ str_int (- returncode r) @ '') on an invalid program ('' @ desc @ '')'')
            else if returncode r = 0 then Some (''SOUNDNESS: mcc check ACCEPTED an ill-typed program ('' @ desc @ '')'')
            else None))))))"

text \<open>Up to three runs of one stage, compared with the first that succeeded; a failure ends the stage.\<close>

fun repeat_stage :: "fuzz_env \<Rightarrow> string \<Rightarrow> string \<Rightarrow> nat \<Rightarrow> string option \<Rightarrow> string option io" where
  "repeat_stage env stage src 0 first = io_ret None"
| "repeat_stage env stage src (Suc n) first =
     io_bind (run_cmd [e_mcc env, stage, src]) (\<lambda>r.
       if returncode r \<noteq> 0 then io_ret None
       else (case first of
               None \<Rightarrow> repeat_stage env stage src n (Some (stdout r))
             | Some out \<Rightarrow>
                 if stdout r \<noteq> out then io_ret (Some (''NON-DETERMINISTIC '' @ stage @ '': same input, different bytes across runs''))
                 else repeat_stage env stage src n first))"

text \<open>\<open>for x in xs: ...; return\<close> the first finding.\<close>

fun first_finding :: "('x \<Rightarrow> string option io) \<Rightarrow> 'x list \<Rightarrow> string option io" where
  "first_finding f [] = io_ret None"
| "first_finding f (x # xs) = io_bind (f x) (\<lambda>r. if r \<noteq> None then io_ret r else first_finding f xs)"

definition oracle_determinism :: "fuzz_env \<Rightarrow> int \<Rightarrow> string \<Rightarrow> string \<Rightarrow> string option io" where
  "oracle_determinism env seed src work =
     first_finding (\<lambda>stage. repeat_stage env stage src 3 None) [''emit-c'', ''emit-llvm'']"

definition pipeline_stage :: "fuzz_env \<Rightarrow> string \<Rightarrow> string \<Rightarrow> string option io" where
  "pipeline_stage env src stage =
     io_bind (run_within 20 [e_mcc env, stage, src]) (\<lambda>res. io_ret (case res of
       None \<Rightarrow> Some (''mcc '' @ stage @ '' HANGS on a check-accepted program'')
     | Some r \<Rightarrow>
         if returncode r < 0 then
           Some (''mcc '' @ stage @ '' CRASHED (signal '' @ str_int (- returncode r) @ '') on a check-accepted program'')
         else if returncode r \<noteq> 0 then
           Some (''INTERNAL INCONSISTENCY: mcc '' @ stage @ '' rejected a check-accepted program: '' @
             strip (case find (\<lambda>l. contains (lower l) ''error'') (splitlines (decode_replace (stderr r))) of Some l \<Rightarrow> l | None \<Rightarrow> []))
         else None))"

definition PIPELINE_STAGES :: "string list" where
  "PIPELINE_STAGES = [''inspect-hir'', ''verify-inspect-hir'', ''lower-mir'', ''verify'', ''inspect-ir'', ''facts'', ''emit-c'',
     ''emit-map'', ''emit-llvm'']"

definition oracle_pipeline :: "fuzz_env \<Rightarrow> int \<Rightarrow> string \<Rightarrow> string \<Rightarrow> string option io" where
  "oracle_pipeline env seed src work = first_finding (pipeline_stage env src) PIPELINE_STAGES"

definition run_required_stage :: "fuzz_env \<Rightarrow> string \<Rightarrow> string \<Rightarrow> (string + string) io" where
  "run_required_stage env stage src =
     io_bind (run_within 20 [e_mcc env, stage, src]) (\<lambda>res. io_ret (case res of
       None \<Rightarrow> Inl (''mcc '' @ stage @ '' HANGS on a check-accepted program'')
     | Some r \<Rightarrow>
         if returncode r < 0 then
           Inl (''mcc '' @ stage @ '' CRASHED (signal '' @ str_int (- returncode r) @ '') on a check-accepted program'')
         else if returncode r \<noteq> 0 then
           Inl (''INTERNAL INCONSISTENCY: mcc '' @ stage @ '' rejected a check-accepted program: '' @
             first_error (decode_replace (stderr r)))
         else Inr (decode_replace (stdout r))))"

text \<open>The four artifacts in the order they are produced, then the cross checks of \<open>Mcfuzz_Artifacts\<close>.\<close>

definition oracle_artifacts :: "fuzz_env \<Rightarrow> int \<Rightarrow> string \<Rightarrow> string \<Rightarrow> string option io" where
  "oracle_artifacts env seed src work =
     io_bind (run_required_stage env ''facts'' src) (\<lambda>a. case a of Inl e \<Rightarrow> io_ret (Some e) | Inr facts \<Rightarrow>
     io_bind (run_required_stage env ''lower-mir'' src) (\<lambda>b. case b of Inl e \<Rightarrow> io_ret (Some e) | Inr mir \<Rightarrow>
     io_bind (run_required_stage env ''inspect-ir'' src) (\<lambda>c. case c of Inl e \<Rightarrow> io_ret (Some e) | Inr ir \<Rightarrow>
     io_bind (run_required_stage env ''emit-map'' src) (\<lambda>d. case d of Inl e \<Rightarrow> io_ret (Some e) | Inr mp \<Rightarrow>
       io_ret (check_artifacts src facts mir ir mp)))))"

section \<open>The formatter round trip\<close>

definition run_mcc :: "fuzz_env \<Rightarrow> string \<Rightarrow> string \<Rightarrow> proc option io" where
  "run_mcc env stage src = run_within 20 [e_mcc env, stage, src]"

text \<open>\<open>re.sub(r"^.*?:[0-9]+:[0-9]+:\s*", "", line)\<close>.\<close>

definition position_re :: matcher where
  "position_re = rx_seqs [rx_begin, rx_lazy (\<lambda>c. c \<noteq> CHR 0x0A), rx_lit '':'', rx_plus is_digit, rx_lit '':'', rx_plus is_digit,
     rx_lit '':'', rx_star is_space]"

definition strip_positions :: "string \<Rightarrow> string" where
  "strip_positions text = join nl (map (re_sub position_re []) (splitlines text))"

definition stripped_lex_stream :: "fuzz_env \<Rightarrow> string \<Rightarrow> (string + string) io" where
  "stripped_lex_stream env src =
     io_bind (run_mcc env ''lex'' src) (\<lambda>res. io_ret (case res of
       None \<Rightarrow> Inl ''mcc lex HANGS''
     | Some r \<Rightarrow>
         if returncode r < 0 then Inl (''mcc lex CRASHED (signal '' @ str_int (- returncode r) @ '')'')
         else
           (let text = decode_replace (if stderr r \<noteq> [] then stderr r else stdout r) in
            if returncode r \<noteq> 0 then Inl (''mcc lex rejected source: '' @ first_error text)
            else Inr (strip_positions text))))"

definition check_file :: "fuzz_env \<Rightarrow> string \<Rightarrow> string \<Rightarrow> string option io" where
  "check_file env src label =
     io_bind (run_mcc env ''check'' src) (\<lambda>res. io_ret (case res of
       None \<Rightarrow> Some (''mcc check HANGS on '' @ label)
     | Some r \<Rightarrow>
         if returncode r < 0 then Some (''mcc check CRASHED (signal '' @ str_int (- returncode r) @ '') on '' @ label)
         else if returncode r \<noteq> 0 then
           Some (''mcc check rejected '' @ label @ '': '' @ first_error (decode_replace (stderr r)))
         else None))"

definition emit_c_bytes :: "fuzz_env \<Rightarrow> string \<Rightarrow> string \<Rightarrow> (string + string) io" where
  "emit_c_bytes env src label =
     io_bind (run_mcc env ''emit-c'' src) (\<lambda>res. io_ret (case res of
       None \<Rightarrow> Inl (''mcc emit-c HANGS on '' @ label)
     | Some r \<Rightarrow>
         if returncode r < 0 then Inl (''mcc emit-c CRASHED (signal '' @ str_int (- returncode r) @ '') on '' @ label)
         else if returncode r \<noteq> 0 then
           Inl (''mcc emit-c rejected '' @ label @ '': '' @ first_error (decode_replace (stderr r)))
         else Inr (stdout r)))"

definition roundtrip_c_body :: "string \<Rightarrow> string" where
  "roundtrip_c_body c =
     join nl (filter (\<lambda>l. \<not> startswith l ''#line '') (splitlines (decode_replace c)))"

text \<open>The formatter on one file; \<open>ctx\<close> and \<open>rej\<close> are the tails of its messages.\<close>

definition format_file :: "fuzz_env \<Rightarrow> string \<Rightarrow> string \<Rightarrow> string \<Rightarrow> (string + string) io" where
  "format_file env src ctx rej =
     io_bind (run_mcc env ''fmt'' src) (\<lambda>res. io_ret (case res of
       None \<Rightarrow> Inl (''mcc fmt HANGS '' @ ctx)
     | Some r \<Rightarrow>
         if returncode r < 0 then Inl (''mcc fmt CRASHED (signal '' @ str_int (- returncode r) @ '') '' @ ctx)
         else if returncode r \<noteq> 0 then Inl (''mcc fmt rejected '' @ rej @ '': '' @ first_error (decode_replace (stderr r)))
         else Inr (stdout r)))"

definition roundtrip_tokens :: "fuzz_env \<Rightarrow> string \<Rightarrow> string \<Rightarrow> string option io" where
  "roundtrip_tokens env src fmt1 =
     io_bind (stripped_lex_stream env src) (\<lambda>a. case a of Inl msg \<Rightarrow> io_ret (Some msg) | Inr toks_a \<Rightarrow>
     io_bind (stripped_lex_stream env fmt1) (\<lambda>b. case b of Inl msg \<Rightarrow> io_ret (Some msg) | Inr toks_b \<Rightarrow>
       io_ret (if toks_a \<noteq> toks_b then
         Some ''ROUNDTRIP TOKEN DIVERGENCE: formatting changed the position-stripped token stream'' else None)))"

text \<open>Both emissions run before either result is looked at.\<close>

definition roundtrip_lowering :: "fuzz_env \<Rightarrow> string \<Rightarrow> string \<Rightarrow> string option io" where
  "roundtrip_lowering env src fmt1 =
     io_bind (emit_c_bytes env src ''generated source'') (\<lambda>a.
     io_bind (emit_c_bytes env fmt1 ''formatted source'') (\<lambda>b.
       io_ret (case a of
         Inl msg \<Rightarrow> Some msg
       | Inr c_a \<Rightarrow>
           (case b of
              Inl msg \<Rightarrow> Some msg
            | Inr c_b \<Rightarrow>
                if roundtrip_c_body c_a \<noteq> roundtrip_c_body c_b then
                  Some ''ROUNDTRIP LOWERING DIVERGENCE: generated and formatted source emit different C''
                else None))))"

definition oracle_roundtrip :: "fuzz_env \<Rightarrow> int \<Rightarrow> string \<Rightarrow> string \<Rightarrow> string option io" where
  "oracle_roundtrip env seed src work =
     (let fmt1 = path_join work ''p.fmt.mc''; fmt2 = path_join work ''p.fmt2.mc'' in
      io_bind (check_file env src ''generated source'') (\<lambda>err.
      if err \<noteq> None then io_ret err
      else
        io_bind (format_file env src ''on generated source'' ''generated source'') (\<lambda>r1. case r1 of Inl msg \<Rightarrow> io_ret (Some msg) | Inr out1 \<Rightarrow>
        io_bind (write_file fmt1 out1) (\<lambda>_.
        io_bind (check_file env fmt1 ''formatted source'') (\<lambda>err.
        if err \<noteq> None then io_ret err
        else
          io_bind (format_file env fmt1 ''re-formatting generated source'' ''its own output'') (\<lambda>r2. case r2 of Inl msg \<Rightarrow> io_ret (Some msg) | Inr out2 \<Rightarrow>
          io_bind (write_file fmt2 out2) (\<lambda>_.
          if out2 \<noteq> out1 then io_ret (Some ''ROUNDTRIP IDEMPOTENCE: fmt(fmt(src)) != fmt(src)'')
          else
            io_bind (roundtrip_tokens env src fmt1) (\<lambda>err.
            if err \<noteq> None then io_ret err else roundtrip_lowering env src fmt1))))))))"

section \<open>Compiled runs\<close>

definition compile_run_c :: "fuzz_env \<Rightarrow> string \<Rightarrow> string \<Rightarrow> string \<Rightarrow> string list \<Rightarrow> (int \<times> string) option io" where
  "compile_run_c env src work tag opt =
     (let obj = path_join work (tag @ ''.o''); drv = path_join work ''d.c''; app = path_join work (tag @ ''_exe'') in
      io_bind (emit_c_obj (e_mcc env) (e_clang env) src obj opt) (\<lambda>err.
      if err \<noteq> None then io_ret None
      else
        io_bind (write_file drv DRIVER) (\<lambda>_.
        io_bind (link_app env [] [drv, obj] app) (\<lambda>ok.
        if \<not> ok then io_ret None
        else io_bind (run_cmd [app]) (\<lambda>p. io_ret (Some (returncode p, stdout p)))))))"

definition compiles :: "fuzz_env \<Rightarrow> string \<Rightarrow> string option io" where
  "compiles env src =
     io_bind (run_cmd [e_mcc env, ''check'', src]) (\<lambda>chk.
     if returncode chk \<noteq> 0 then io_ret (Some (''check: '' @ first_error (decode_replace (stderr chk))))
     else
       io_bind (run_cmd [e_mcc env, ''emit-c'', src]) (\<lambda>ec.
         io_ret (if returncode ec \<noteq> 0 then Some (''emit-c: '' @ first_error (decode_replace (stderr ec))) else None)))"

text \<open>The comparison of two runs of what should be one program.\<close>

definition compare_runs :: "string \<Rightarrow> string \<Rightarrow> string \<Rightarrow> int \<times> string \<Rightarrow> int \<times> string \<Rightarrow> string option" where
  "compare_runs title a_name b_name x y =
     (if fst x \<noteq> fst y then
        Some (title @ '' DIVERGENCE (status): '' @ a_name @ '' rc='' @ str_int (fst x) @ '', '' @ b_name @ '' rc='' @ str_int (fst y))
      else if fst x = 0 \<and> snd x \<noteq> snd y then
        Some (title @ '' DIVERGENCE (output): '' @ a_name @ ''='' @ repr_bytes (bstrip (snd x)) @ '' '' @ b_name @ ''='' @
          repr_bytes (bstrip (snd y)))
      else None)"

definition oracle_metamorphic :: "fuzz_env \<Rightarrow> int \<Rightarrow> string \<Rightarrow> string \<Rightarrow> string option io" where
  "oracle_metamorphic env seed src work =
     (let variant = path_join work ''variant.mc'' in
      io_bind (write_file variant (e_gen env (e_trapping env) False True seed)) (\<lambda>_.
      io_bind (compiles env variant) (\<lambda>bad. case bad of
        Some var_err \<Rightarrow>
          io_ret (Some (''METAMORPHIC COMPILE DIVERGENCE: base compiles but the semantics-preserving variant does NOT ('' @ var_err @
            '') '' @ em_dash @ '' the transform is non-compilable or the variant spelling exposes a front-end divergence''))
      | None \<Rightarrow>
          io_bind (compile_run_c env src work ''base'' []) (\<lambda>base.
          io_bind (compile_run_c env variant work ''var'' []) (\<lambda>var.
            io_ret (case base of
              None \<Rightarrow> None
            | Some b \<Rightarrow>
                (case var of
                   None \<Rightarrow>
                     Some (''METAMORPHIC COMPILE DIVERGENCE: base'' @ [CHR 0x27] @ ''s emitted C builds+links but the variant'' @ [CHR 0x27] @
                       ''s does not '' @ em_dash @ '' divergent C emission for a semantics-preserving variant'')
                 | Some v \<Rightarrow> compare_runs ''METAMORPHIC'' ''base'' ''helper-extracted'' b v)))))))"

definition oracle_optlevel :: "fuzz_env \<Rightarrow> int \<Rightarrow> string \<Rightarrow> string \<Rightarrow> string option io" where
  "oracle_optlevel env seed src work =
     io_bind (compile_run_c env src work ''o0'' [''-O0'']) (\<lambda>o0.
     io_bind (compile_run_c env src work ''o2'' [''-O2'']) (\<lambda>o2.
       io_ret (case o0 of None \<Rightarrow> None | Some x \<Rightarrow> (case o2 of None \<Rightarrow> None | Some y \<Rightarrow>
         compare_runs ''OPT-LEVEL'' ''-O0'' ''-O2'' x y))))"

definition oracle_floatbits :: "fuzz_env \<Rightarrow> int \<Rightarrow> string \<Rightarrow> string \<Rightarrow> string option io" where
  "oracle_floatbits env seed src_path work =
     (let src = path_join work ''fb.mc'' in
      io_bind (write_file src (e_gen env (e_trapping env) True False seed)) (\<lambda>_.
      io_bind (run_cmd [e_mcc env, ''check'', src]) (\<lambda>r.
      if returncode r \<noteq> 0 then io_ret None else differential_compare env src work)))"

text \<open>
  The interpreter's loops get five rounds of fuel; that this is enough, whatever the seed, is the
  totality theorem of the reference generator.
\<close>

definition ref_value :: "refgen \<Rightarrow> int result" where
  "ref_value g = (case evaluate 5 g of Some r \<Rightarrow> r | None \<Rightarrow> Inl AssertionError)"

definition reference_verdict :: "int \<Rightarrow> int \<times> string \<Rightarrow> string option" where
  "reference_verdict expected res =
     (if fst res \<noteq> 0 then
        Some (''REFERENCE DIVERGENCE (trap): compiled program trapped (rc='' @ str_int (fst res) @
          '') on a trap-free program; interpreter computed '' @ str_int expected)
      else if bstrip (snd res) \<noteq> str_int expected then
        Some (''REFERENCE DIVERGENCE (value): interpreter='' @ str_int expected @ '' compiled='' @ decode_replace (bstrip (snd res)))
      else None)"

definition oracle_reference :: "fuzz_env \<Rightarrow> int \<Rightarrow> string \<Rightarrow> string \<Rightarrow> string option io" where
  "oracle_reference env seed src_path work =
     (let src = path_join work ''ref.mc'' in
      io_bind (io_lift (RefGen_build (e_draws env seed))) (\<lambda>g.
      io_bind (io_lift (source g)) (\<lambda>text.
      io_bind (write_file src text) (\<lambda>_.
      io_bind (run_cmd [e_mcc env, ''check'', src]) (\<lambda>r.
      if returncode r \<noteq> 0 then io_ret None
      else
        io_bind (io_lift (ref_value g)) (\<lambda>expected.
        io_bind (compile_run_c env src work ''ref'' []) (\<lambda>res.
          io_ret (case res of None \<Rightarrow> None | Some x \<Rightarrow> reference_verdict expected x))))))))"

section \<open>The table\<close>

definition oracle_table :: "(string \<times> (fuzz_env \<Rightarrow> int \<Rightarrow> string \<Rightarrow> string \<Rightarrow> string option io)) list" where
  "oracle_table =
    [(''differential'', oracle_differential), (''sanitize'', oracle_sanitize), (''asan'', oracle_asan),
     (''robust'', oracle_robust), (''failclosed'', oracle_failclosed), (''determinism'', oracle_determinism),
     (''pipeline'', oracle_pipeline), (''artifacts'', oracle_artifacts), (''roundtrip'', oracle_roundtrip),
     (''metamorphic'', oracle_metamorphic), (''optlevel'', oracle_optlevel), (''floatbits'', oracle_floatbits),
     (''reference'', oracle_reference), (''trapsite'', oracle_trapsite)]"

definition oracle_on_source ::
  "fuzz_env \<Rightarrow> (fuzz_env \<Rightarrow> int \<Rightarrow> string \<Rightarrow> string \<Rightarrow> string option io) \<Rightarrow> string \<Rightarrow> int \<Rightarrow> string option io" where
  "oracle_on_source env orc text seed =
     io_bind mkdtemp (\<lambda>work.
       finally_do
         (io_bind (write_file (path_join work ''p.mc'') text) (\<lambda>_.
           try_os (orc env seed (path_join work ''p.mc'') work) (\<lambda>e. io_ret (Some (''tool failed to execute: '' @ e)))))
         (run_cmd [''rm'', ''-rf'', work]))"

end
