(* ===== verification/Mcfuzz_Oracle_Props.thy ===== *)
theory Mcfuzz_Oracle_Props
  imports Mcfuzz_Oracles Mcref_Gen_Sound
begin

text \<open>
  Properties of the oracles: which exceptions can escape them (the contract the campaign relies on), and,
  for a compiler that is a function of its command and its input file, exactly which programs each of
  them passes.
\<close>

section \<open>The contract of an oracle\<close>

text \<open>From a state in which the file at \<open>src\<close> is well-formed text, nothing but \<open>OSError\<close> escapes.\<close>

definition safe_on :: "string \<Rightarrow> 'a io \<Rightarrow> bool" where
  "safe_on src m \<longleftrightarrow>
     (\<forall>h w c e w'. w_files w src = Some c \<longrightarrow> valid_utf8 c \<longrightarrow> m h w = (Inl e, w') \<longrightarrow> (\<exists>msg. e = OSError msg))"

lemma safe_on_os_safe: "os_safe m \<Longrightarrow> safe_on src m"
  unfolding safe_on_def os_safe_def by blast

lemma safe_on_read_text: "(\<And>x. os_safe (f x)) \<Longrightarrow> safe_on src (io_bind (read_text src) f)"
  unfolding safe_on_def os_safe_def by (simp add: io_bind_def read_text_def read_bytes_def io_ret_def)

lemma safe_on_lift: "r = Inr x \<Longrightarrow> safe_on src (f x) \<Longrightarrow> safe_on src (io_bind (io_lift r) f)"
  unfolding safe_on_def by (simp add: io_bind_def io_lift_def)

text \<open>The contract, and what \<open>oracle_on_source\<close> makes of any oracle that keeps it.\<close>

locale fuzz_oracle =
  fixes orc :: "fuzz_env \<Rightarrow> int \<Rightarrow> string \<Rightarrow> string \<Rightarrow> string option io"
  assumes orc_safe: "safe_on src (orc env seed src work)"
begin

lemma on_source_returns:
  assumes utf: "valid_utf8 body"
    and dir: "h_mkdtemp h w = Inr work"
    and wr: "h_denied h (path_join work ''p.mc'') w = None"
    and rm: "\<And>w. \<exists>r. h_run h [''rm'', ''-rf'', work] [] [] w = Inr r"
  shows "\<exists>verdict w'. oracle_on_source env orc body seed h w = (Inr verdict, w')"
proof -
  let ?src = "path_join work ''p.mc''"
  define w1 where "w1 = w\<lparr>w_files := (w_files w)(?src \<mapsto> body)\<rparr>"
  let ?t = "try_os (orc env seed ?src work) (\<lambda>e. io_ret (Some (''tool failed to execute: '' @ e)))"
  obtain r w2 where o: "orc env seed ?src work h w1 = (r, w2)" by fastforce
  have "\<exists>x. ?t h w1 = (Inr x, w2)"
  proof (cases r)
    case (Inl e)
    have "w_files w1 ?src = Some body" by (simp add: w1_def)
    with Inl o orc_safe [of ?src env seed work] utf obtain msg where "e = OSError msg"
      unfolding safe_on_def by blast
    with o Inl show ?thesis by (simp add: try_os_def io_ret_def)
  qed (use o in \<open>simp add: try_os_def\<close>)
  then obtain x where x: "?t h w1 = (Inr x, w2)" by blast
  obtain p fs where "h_run h [''rm'', ''-rf'', work] [] [] w2 = Inr (p, fs)" using rm [of w2] by auto
  with dir wr x show ?thesis
    by (simp add: oracle_on_source_def io_bind_def mkdtemp_def finally_do_def write_file_def w1_def run_cmd_def run_proc_def)
qed

end

section \<open>Every oracle keeps the contract\<close>

lemma os_safe_emit_c_text [os_safe_intro]: "os_safe (emit_c_text mcc src)"
  unfolding emit_c_text_def by (intro os_safe_intro)

lemma os_safe_compile [os_safe_intro]: "os_safe (compile_c_text_obj clang c obj extra)"
  unfolding compile_c_text_obj_def by (intro os_safe_intro)

lemma os_safe_emit_c_obj [os_safe_intro]: "os_safe (emit_c_obj mcc clang src obj extra)"
  unfolding emit_c_obj_def by (intro os_safe_intro)

lemma os_safe_emit_llvm [os_safe_intro]: "os_safe (emit_llvm_fails env src)"
  unfolding emit_llvm_fails_def by (intro os_safe_intro)

lemma os_safe_llvm_cc [os_safe_intro]: "os_safe (llvm_cc env src obj)"
  unfolding llvm_cc_def by (intro os_safe_intro)

lemma os_safe_link [os_safe_intro]: "os_safe (link_app env san inputs app)"
  unfolding link_app_def by (intro os_safe_intro)

lemma os_safe_differential [os_safe_intro]: "os_safe (differential_compare env src work)"
  unfolding differential_compare_def Let_def by (intro os_safe_intro)

lemma os_safe_check_no_crash [os_safe_intro]: "os_safe (check_no_crash env path label t)"
  unfolding check_no_crash_def by (intro os_safe_intro)

lemma os_safe_first_finding [os_safe_intro]: "(\<And>x. os_safe (f x)) \<Longrightarrow> os_safe (first_finding f xs)"
  by (induction xs) (auto intro!: os_safe_intro)

lemma os_safe_repeat_stage [os_safe_intro]: "os_safe (repeat_stage env stage src n first)"
  by (induction n arbitrary: first) (auto intro!: os_safe_intro)

lemma os_safe_pipeline_stage [os_safe_intro]: "os_safe (pipeline_stage env src stage)"
  unfolding pipeline_stage_def by (intro os_safe_intro)

lemma os_safe_required_stage [os_safe_intro]: "os_safe (run_required_stage env stage src)"
  unfolding run_required_stage_def by (intro os_safe_intro)

lemma os_safe_run_mcc [os_safe_intro]: "os_safe (run_mcc env stage src)"
  unfolding run_mcc_def by (intro os_safe_intro)

lemma os_safe_roundtrip_parts [os_safe_intro]:
  "os_safe (check_file env src label)" "os_safe (format_file env src ctx rej)"
  "os_safe (roundtrip_tokens env src fmt1)" "os_safe (roundtrip_lowering env src fmt1)"
  unfolding check_file_def format_file_def roundtrip_tokens_def roundtrip_lowering_def stripped_lex_stream_def emit_c_bytes_def
  by (intro os_safe_intro)+

lemma os_safe_compile_run [os_safe_intro]: "os_safe (compile_run_c env src work tag opt)"
  unfolding compile_run_c_def Let_def by (intro os_safe_intro)

lemma os_safe_compiles [os_safe_intro]: "os_safe (compiles env src)"
  unfolding compiles_def by (intro os_safe_intro)

lemma os_safe_with_rng:
  assumes "\<And>s. wp m (\<lambda>_ _. True) s"
  shows "os_safe (with_rng env n m)"
proof -
  obtain x s' where "m \<lparr>tape = e_draws env n\<rparr> = Inr (x, s')"
    using assms [of "\<lparr>tape = e_draws env n\<rparr>"] unfolding wp_iff by blast
  then show ?thesis by (simp add: os_safe_def with_rng_def io_lift_def)
qed

lemma os_safe_mutate [os_safe_intro]: "os_safe (with_rng env n (mutate data))"
  by (rule os_safe_with_rng) (rule wp_mono [OF wp_mutate], simp)

lemma os_safe_hostile [os_safe_intro]: "os_safe (with_rng env n (hostile_frontend_case seed))"
  by (rule os_safe_with_rng) (rule wp_mono [OF wp_hostile_case], simp)

lemma choice_INVALIDATIONS: "\<exists>x t. x \<in> set INVALIDATIONS \<and> choice INVALIDATIONS \<lparr>tape = d\<rparr> = Inr (x, t)"
proof -
  have "INVALIDATIONS \<noteq> []" by (simp add: INVALIDATIONS_def)
  from choice_in_frame [OF this, of "\<lparr>tape = d\<rparr>"] show ?thesis unfolding wp_iff by blast
qed

lemma safe_failclosed: "safe_on src (oracle_failclosed env seed src work)"
proof -
  obtain inj desc t where "choice INVALIDATIONS \<lparr>tape = e_draws env ((seed * 40503) AND mask_int 32)\<rparr> = Inr ((inj, desc), t)"
    using choice_INVALIDATIONS [of "e_draws env ((seed * 40503) AND mask_int 32)"] by fastforce
  then show ?thesis
    unfolding oracle_failclosed_def with_rng_def Let_def
    by (intro safe_on_lift [where x = "(inj, desc)"]) (simp, simp only: prod.case, intro safe_on_read_text os_safe_intro)
qed

lemma safe_reference: "safe_on src_path (oracle_reference env seed src_path work)"
proof -
  obtain g where g: "RefGen_build (e_draws env seed) = Inr g" "built_ok g" using build_ok by blast
  obtain prog where src: "source g = Inr prog" using source_ok [OF g(2)] by blast
  obtain v where "evaluate 5 g = Some (Inr v)" using evaluate_ok [OF g(2), of 5] by auto
  then have v: "os_safe (io_lift (ref_value g))" by (simp add: ref_value_def os_safe_def io_lift_def)
  show ?thesis
    unfolding oracle_reference_def Let_def
    by (intro safe_on_lift [OF g(1)] safe_on_lift [OF src] safe_on_os_safe os_safe_intro v)
qed

interpretation differential: fuzz_oracle oracle_differential
  by unfold_locales (unfold oracle_differential_def, intro safe_on_os_safe os_safe_intro)

interpretation sanitize: fuzz_oracle oracle_sanitize
  by unfold_locales (unfold oracle_sanitize_def Let_def, intro safe_on_os_safe os_safe_intro)

interpretation asan: fuzz_oracle oracle_asan
  by unfold_locales (unfold oracle_asan_def Let_def, intro safe_on_os_safe os_safe_intro)

interpretation robust: fuzz_oracle oracle_robust
  by unfold_locales (unfold oracle_robust_def Let_def, intro safe_on_os_safe os_safe_intro)

interpretation failclosed: fuzz_oracle oracle_failclosed
  by unfold_locales (rule safe_failclosed)

interpretation determinism: fuzz_oracle oracle_determinism
  by unfold_locales (unfold oracle_determinism_def, intro safe_on_os_safe os_safe_intro)

interpretation pipeline: fuzz_oracle oracle_pipeline
  by unfold_locales (unfold oracle_pipeline_def, intro safe_on_os_safe os_safe_intro)

interpretation artifacts: fuzz_oracle oracle_artifacts
  by unfold_locales (unfold oracle_artifacts_def, intro safe_on_os_safe os_safe_intro)

interpretation roundtrip: fuzz_oracle oracle_roundtrip
  by unfold_locales (unfold oracle_roundtrip_def Let_def, intro safe_on_os_safe os_safe_intro)

interpretation metamorphic: fuzz_oracle oracle_metamorphic
  by unfold_locales (unfold oracle_metamorphic_def Let_def, intro safe_on_os_safe os_safe_intro)

interpretation optlevel: fuzz_oracle oracle_optlevel
  by unfold_locales (unfold oracle_optlevel_def, intro safe_on_os_safe os_safe_intro)

interpretation floatbits: fuzz_oracle oracle_floatbits
  by unfold_locales (unfold oracle_floatbits_def Let_def, intro safe_on_os_safe os_safe_intro)

interpretation reference: fuzz_oracle oracle_reference
  by unfold_locales (rule safe_reference)

interpretation trapsite: fuzz_oracle oracle_trapsite
  by unfold_locales (unfold oracle_trapsite_def Let_def, intro safe_on_os_safe os_safe_intro)

lemma every_oracle_contract: "list_all (\<lambda>(name, orc). fuzz_oracle orc) oracle_table"
  unfolding oracle_table_def
  by (simp add: differential.fuzz_oracle_axioms sanitize.fuzz_oracle_axioms asan.fuzz_oracle_axioms
    robust.fuzz_oracle_axioms failclosed.fuzz_oracle_axioms determinism.fuzz_oracle_axioms pipeline.fuzz_oracle_axioms
    artifacts.fuzz_oracle_axioms roundtrip.fuzz_oracle_axioms metamorphic.fuzz_oracle_axioms optlevel.fuzz_oracle_axioms
    floatbits.fuzz_oracle_axioms reference.fuzz_oracle_axioms trapsite.fuzz_oracle_axioms)

text \<open>
  C6. No oracle can bring the fuzzer down: for every entry of the oracle table, every well-formed program text
  and every behaviour of the compiler, the C tool chain and the programs they build (failing to start
  included), replaying the text returns a verdict, provided only that the work directory can be created,
  the program written into it and \<open>rm\<close> started.
\<close>

theorem every_oracle_returns:
  assumes "(name, orc) \<in> set oracle_table" and "valid_utf8 body"
    and "h_mkdtemp h w = Inr work" and "h_denied h (path_join work ''p.mc'') w = None"
    and "\<forall>w. \<exists>r. h_run h [''rm'', ''-rf'', work] [] [] w = Inr r"
  shows "\<exists>verdict w'. oracle_on_source env orc body seed h w = (Inr verdict, w')"
proof -
  have "fuzz_oracle orc" using every_oracle_contract assms(1) by (auto simp: list_all_iff)
  from fuzz_oracle.on_source_returns [OF this assms(2,3,4)] assms(5) show ?thesis by blast
qed

text \<open>A host on which no tool can be started but \<open>rm\<close>.\<close>

definition bare_host :: host where
  "bare_host = \<lparr>h_run = (\<lambda>argv inp vars w. if hd argv = ''rm''
       then Inr (\<lparr>returncode = 0, stdout = [], stderr = [], elapsed = 0\<rparr>, w_files w)
       else Inl ''[Errno 2] No such file or directory''),
     h_denied = (\<lambda>p w. None), h_mkdtemp = (\<lambda>w. Inr ''/tmp/w'')\<rparr>"

definition empty_world :: world where
  "empty_world = \<lparr>w_files = (\<lambda>_. None), w_clock = 0\<rparr>"

definition demo_env :: fuzz_env where
  "demo_env = \<lparr>e_mcc = ''mcc'', e_clang = ''clang'', e_llc = ''llc'', e_link_flags = [], e_trapping = False, e_root = ''/r'',
     e_draws = (\<lambda>_. []), e_gen = (\<lambda>_ _ _ _. [])\<rparr>"

theorem every_oracle_returns_witness:
  "\<exists>verdict w'. oracle_on_source demo_env oracle_roundtrip ''fn main() {}'' 7 bare_host empty_world = (Inr verdict, w')"
proof (rule every_oracle_returns)
  show "(''roundtrip'', oracle_roundtrip) \<in> set oracle_table" by (simp add: oracle_table_def)
  show "valid_utf8 ''fn main() {}''" by (rule valid_utf8_ascii) (simp add: ascii_def)
qed (simp_all add: bare_host_def)

section \<open>A compiler that is a function of its input\<close>

text \<open>
  The documented behaviour the exactness theorems rely on: the compiler answers a stage on a file by a
  function of the stage, the path and the file's contents, and changes no file.
\<close>

type_synonym mcc_fun = "string \<Rightarrow> string \<Rightarrow> string \<Rightarrow> proc"

definition compiler :: "host \<Rightarrow> string \<Rightarrow> mcc_fun \<Rightarrow> bool" where
  "compiler h mcc f \<longleftrightarrow>
     (\<forall>stage path c w. w_files w path = Some c \<longrightarrow> h_run h [mcc, stage, path] [] [] w = Inr (f stage path c, w_files w))"

definition tick :: "world \<Rightarrow> world" where
  "tick w = w\<lparr>w_clock := Suc (w_clock w)\<rparr>"

definition put :: "string \<Rightarrow> string \<Rightarrow> world \<Rightarrow> world" where
  "put path c w = w\<lparr>w_files := (w_files w)(path \<mapsto> c)\<rparr>"

lemma w_files_tick [simp]: "w_files (tick w) = w_files w"
  by (simp add: tick_def)

lemma w_files_put [simp]: "w_files (put path c w) = (w_files w)(path \<mapsto> c)"
  by (simp add: put_def)

lemma bind_ret [simp]: "io_bind (io_ret x) k h w = k x h w"
  by (simp add: io_bind_def io_ret_def)

lemma bind_bind [simp]: "io_bind (io_bind m f) k h w = io_bind m (\<lambda>x. io_bind (f x) k) h w"
  by (auto simp: io_bind_def split: prod.split sum.split)

lemma bind_run_mcc:
  "compiler h mcc f \<Longrightarrow> w_files w path = Some c \<Longrightarrow>
   io_bind (run_cmd [mcc, stage, path]) k h w = k (f stage path c) h (tick w)"
  by (simp add: compiler_def io_bind_def run_cmd_def run_proc_def tick_def)

lemma bind_write:
  "h_denied h path w = None \<Longrightarrow> io_bind (write_file path c) k h w = k () h (put path c w)"
  by (simp add: io_bind_def write_file_def put_def)

lemma bind_read: "w_files w path = Some c \<Longrightarrow> io_bind (read_bytes path) k h w = k c h w"
  by (simp add: io_bind_def read_bytes_def)

lemma bind_lift: "io_bind (io_lift (Inr x)) k h w = k x h w"
  by (simp add: io_bind_def io_lift_def)

text \<open>A clean answer in time, and the deadline calls.\<close>

definition clean :: "nat \<Rightarrow> proc \<Rightarrow> bool" where
  "clean t p \<longleftrightarrow> elapsed p \<le> t \<and> returncode p = 0"

lemma bind_within:
  "compiler h mcc f \<Longrightarrow> w_files w path = Some c \<Longrightarrow>
   io_bind (run_within t [mcc, stage, path]) k h w =
     k (if t < elapsed (f stage path c) then None else Some (f stage path c)) h (tick w)"
  by (simp add: run_within_def bind_run_mcc)

subsection \<open>Pipeline and artifacts\<close>

lemma pipeline_stage_result:
  assumes "compiler h (e_mcc env) f" and "w_files w src = Some c"
  shows "\<exists>r. pipeline_stage env src stage h w = (Inr r, tick w) \<and> (r = None \<longleftrightarrow> clean 20 (f stage src c))"
  unfolding pipeline_stage_def bind_within [OF assms] io_ret_def clean_def by auto

lemma pipeline_stages_result:
  assumes "compiler h (e_mcc env) f"
  shows "w_files w src = Some c \<Longrightarrow>
    \<exists>r w'. first_finding (pipeline_stage env src) stages h w = (Inr r, w') \<and> (r = None \<longleftrightarrow> (\<forall>s \<in> set stages. clean 20 (f s src c)))"
proof (induction stages arbitrary: w)
  case Nil
  then show ?case by (simp add: io_ret_def)
next
  case (Cons s ss)
  obtain r where r: "pipeline_stage env src s h w = (Inr r, tick w)" "r = None \<longleftrightarrow> clean 20 (f s src c)"
    using pipeline_stage_result [OF assms Cons.prems] by blast
  show ?case
    using r Cons.IH [of "tick w"] Cons.prems by (auto simp: io_bind_def io_ret_def)
qed

text \<open>
  The pipeline oracle is exact: for a compiler that is a function of its input, it returns, and it passes a
  program exactly when each of the nine lowering and verification stages ends within twenty seconds with
  exit status 0.
\<close>

theorem pipeline_passes_iff:
  assumes "compiler h (e_mcc env) f" and "w_files w src = Some c"
  shows "\<exists>r w'. oracle_pipeline env seed src work h w = (Inr r, w') \<and>
    (r = None \<longleftrightarrow> (\<forall>s \<in> set PIPELINE_STAGES. clean 20 (f s src c)))"
  unfolding oracle_pipeline_def by (rule pipeline_stages_result [OF assms])

text \<open>A host whose compiler is a given function, whatever its path.\<close>

definition tool_host :: "mcc_fun \<Rightarrow> host" where
  "tool_host f = \<lparr>h_run = (\<lambda>argv inp vars w. case argv of
       [mcc, stage, path] \<Rightarrow> (case w_files w path of Some c \<Rightarrow> Inr (f stage path c, w_files w) | None \<Rightarrow> Inl ''missing'')
     | _ \<Rightarrow> Inl ''missing''),
     h_denied = (\<lambda>p w. None), h_mkdtemp = (\<lambda>w. Inr ''/tmp/w'')\<rparr>"

lemma compiler_tool_host: "compiler (tool_host f) mcc f"
  by (simp add: compiler_def tool_host_def)

lemma denied_tool_host [simp]: "h_denied (tool_host f) p w = None"
  by (simp add: tool_host_def)

definition answer :: "int \<Rightarrow> string \<Rightarrow> proc" where
  "answer rc out = \<lparr>returncode = rc, stdout = out, stderr = [], elapsed = 1\<rparr>"

definition demo_world :: world where
  "demo_world = put ''/tmp/w/p.mc'' (harness_marker @ ''}'') empty_world"

lemma demo_world_source: "w_files demo_world ''/tmp/w/p.mc'' = Some (harness_marker @ ''}'')"
  by (simp add: demo_world_def)

theorem pipeline_passes_iff_witness:
  "(\<exists>r w'. oracle_pipeline demo_env 1 ''/tmp/w/p.mc'' ''/tmp/w'' (tool_host (\<lambda>_ _ _. answer 0 [])) demo_world = (Inr r, w') \<and> r = None) \<and>
   (\<exists>r w'. oracle_pipeline demo_env 1 ''/tmp/w/p.mc'' ''/tmp/w'' (tool_host (\<lambda>s _ _. answer (if s = ''verify'' then 1 else 0) [])) demo_world =
      (Inr r, w') \<and> r \<noteq> None)"
  using pipeline_passes_iff [of "tool_host (\<lambda>_ _ _. answer 0 [])", OF compiler_tool_host demo_world_source, of demo_env 1 "''/tmp/w''"]
    pipeline_passes_iff [of "tool_host (\<lambda>s _ _. answer (if s = ''verify'' then 1 else 0) [])", OF compiler_tool_host demo_world_source,
      of demo_env 1 "''/tmp/w''"]
  by (auto simp: clean_def answer_def PIPELINE_STAGES_def)

lemma required_stage_result:
  assumes "compiler h (e_mcc env) f" and "w_files w src = Some c"
  shows "\<exists>e. run_required_stage env stage src h w =
    (Inr (if clean 20 (f stage src c) then Inr (decode_replace (stdout (f stage src c))) else Inl e), tick w)"
  unfolding run_required_stage_def bind_within [OF assms] io_ret_def clean_def by auto

text \<open>
  C34. The artifact oracle is exact: for a compiler that is a function of its input, it returns, and it passes a
  program exactly when the four artifact stages end cleanly in time and their decoded outputs pass the
  cross-artifact checks.
\<close>

theorem artifacts_passes_iff:
  assumes "compiler h (e_mcc env) f" and "w_files w src = Some c"
  defines "art \<equiv> \<lambda>stage. decode_replace (stdout (f stage src c))"
  shows "\<exists>r w'. oracle_artifacts env seed src work h w = (Inr r, w') \<and>
    (r = None \<longleftrightarrow> (\<forall>s \<in> {''facts'', ''lower-mir'', ''inspect-ir'', ''emit-map''}. clean 20 (f s src c)) \<and>
       check_artifacts src (art ''facts'') (art ''lower-mir'') (art ''inspect-ir'') (art ''emit-map'') = None)"
proof -
  have w: "w_files (tick w) src = Some c" "w_files (tick (tick w)) src = Some c" "w_files (tick (tick (tick w))) src = Some c"
    using assms(2) by simp_all
  note req = required_stage_result [OF assms(1)]
  obtain e1 where r1: "run_required_stage env ''facts'' src h w =
      (Inr (if clean 20 (f ''facts'' src c) then Inr (art ''facts'') else Inl e1), tick w)"
    using req [OF assms(2)] unfolding art_def by blast
  obtain e2 where r2: "run_required_stage env ''lower-mir'' src h (tick w) =
      (Inr (if clean 20 (f ''lower-mir'' src c) then Inr (art ''lower-mir'') else Inl e2), tick (tick w))"
    using req [OF w(1)] unfolding art_def by blast
  obtain e3 where r3: "run_required_stage env ''inspect-ir'' src h (tick (tick w)) =
      (Inr (if clean 20 (f ''inspect-ir'' src c) then Inr (art ''inspect-ir'') else Inl e3), tick (tick (tick w)))"
    using req [OF w(2)] unfolding art_def by blast
  obtain e4 where r4: "run_required_stage env ''emit-map'' src h (tick (tick (tick w))) =
      (Inr (if clean 20 (f ''emit-map'' src c) then Inr (art ''emit-map'') else Inl e4), tick (tick (tick (tick w))))"
    using req [OF w(3)] unfolding art_def by blast
  show ?thesis
    by (simp add: oracle_artifacts_def io_bind_def io_ret_def r1 r2 r3 r4)
qed

theorem artifacts_passes_iff_witness:
  "\<exists>r w'. oracle_artifacts demo_env 1 ''/tmp/w/p.mc'' ''/tmp/w'' (tool_host (\<lambda>s _ _. answer (if s = ''emit-map'' then 1 else 0) [])) demo_world =
     (Inr r, w') \<and> r \<noteq> None"
  using artifacts_passes_iff [of "tool_host (\<lambda>s _ _. answer (if s = ''emit-map'' then 1 else 0) [])", OF compiler_tool_host demo_world_source,
      of demo_env 1 "''/tmp/w''"]
  by (auto simp: clean_def answer_def)

subsection \<open>Determinism\<close>

text \<open>
  A compiler that changes no file but whose answer may depend on when it runs; one that is a function of its
  input is the special case that ignores the clock.
\<close>

definition clocked_compiler :: "host \<Rightarrow> string \<Rightarrow> string \<Rightarrow> (string \<Rightarrow> nat \<Rightarrow> proc) \<Rightarrow> bool" where
  "clocked_compiler h mcc src g \<longleftrightarrow>
     (\<forall>stage w. h_run h [mcc, stage, src] [] [] w = Inr (g stage (w_clock w), w_files w))"

lemma bind_run_clocked:
  "clocked_compiler h mcc src g \<Longrightarrow> io_bind (run_cmd [mcc, stage, src]) k h w = k (g stage (w_clock w)) h (tick w)"
  by (simp add: clocked_compiler_def io_bind_def run_cmd_def run_proc_def tick_def)

lemma w_clock_tick [simp]: "w_clock (tick w) = Suc (w_clock w)"
  by (simp add: tick_def)

lemma repeat_stage_sound:
  assumes "clocked_compiler h (e_mcc env) src g"
  shows "\<exists>r w'. repeat_stage env stage src n first h w = (Inr r, w') \<and>
    (r \<noteq> None \<longrightarrow> (\<exists>j. returncode (g stage j) = 0 \<and>
       (\<exists>out. (first = Some out \<or> (\<exists>i. returncode (g stage i) = 0 \<and> stdout (g stage i) = out)) \<and> stdout (g stage j) \<noteq> out)))"
proof (induction n arbitrary: first w)
  case (Suc n)
  show ?case
    using Suc.IH [of "Some (stdout (g stage (w_clock w)))" "tick w"] Suc.IH [of first "tick w"]
    by (auto simp: bind_run_clocked [OF assms] io_ret_def split: option.split)
qed (simp add: io_ret_def)

text \<open>
  The determinism oracle raises no false alarm and misses no difference it looks at: on a compiler that
  changes no file, a report means that two successful runs of one of the two stages gave different bytes,
  and three successful runs of \<open>emit-c\<close> in a row that do not all give the same bytes are reported.
\<close>

theorem determinism_sound_and_complete:
  assumes "clocked_compiler h (e_mcc env) src g"
  shows "\<exists>r w'. oracle_determinism env seed src work h w = (Inr r, w') \<and>
    (r \<noteq> None \<longrightarrow> (\<exists>stage \<in> {''emit-c'', ''emit-llvm''}. \<exists>i j. returncode (g stage i) = 0 \<and> returncode (g stage j) = 0 \<and>
       stdout (g stage i) \<noteq> stdout (g stage j))) \<and>
    ((\<forall>i < 3. returncode (g ''emit-c'' (w_clock w + i)) = 0) \<longrightarrow>
       (\<exists>i < 3. stdout (g ''emit-c'' (w_clock w + i)) \<noteq> stdout (g ''emit-c'' (w_clock w))) \<longrightarrow> r \<noteq> None)"
proof -
  obtain r1 w1 where c: "repeat_stage env ''emit-c'' src 3 None h w = (Inr r1, w1)"
      "r1 \<noteq> None \<longrightarrow> (\<exists>i j. returncode (g ''emit-c'' i) = 0 \<and> returncode (g ''emit-c'' j) = 0 \<and> stdout (g ''emit-c'' i) \<noteq> stdout (g ''emit-c'' j))"
    using repeat_stage_sound [OF assms, of "''emit-c''" 3 None w] by auto
  obtain r2 w2 where l: "repeat_stage env ''emit-llvm'' src 3 None h w1 = (Inr r2, w2)"
      "r2 \<noteq> None \<longrightarrow> (\<exists>i j. returncode (g ''emit-llvm'' i) = 0 \<and> returncode (g ''emit-llvm'' j) = 0 \<and> stdout (g ''emit-llvm'' i) \<noteq> stdout (g ''emit-llvm'' j))"
    using repeat_stage_sound [OF assms, of "''emit-llvm''" 3 None w1] by auto
  have found: "r1 \<noteq> None" if "\<forall>i < 3. returncode (g ''emit-c'' (w_clock w + i)) = 0"
      and "\<exists>i < 3. stdout (g ''emit-c'' (w_clock w + i)) \<noteq> stdout (g ''emit-c'' (w_clock w))"
  proof -
    have "returncode (g ''emit-c'' (w_clock w)) = 0" "returncode (g ''emit-c'' (Suc (w_clock w))) = 0"
        "returncode (g ''emit-c'' (Suc (Suc (w_clock w)))) = 0"
      using that(1) [rule_format, of 0] that(1) [rule_format, of 1] that(1) [rule_format, of 2] by simp_all
    moreover have "stdout (g ''emit-c'' (Suc (w_clock w))) \<noteq> stdout (g ''emit-c'' (w_clock w)) \<or>
        stdout (g ''emit-c'' (Suc (Suc (w_clock w)))) \<noteq> stdout (g ''emit-c'' (w_clock w))"
      using that(2) by (auto simp: less_Suc_eq numeral_3_eq_3)
    ultimately show ?thesis
      using c(1) by (auto simp: numeral_3_eq_3 bind_run_clocked [OF assms] io_ret_def split: if_splits)
  qed
  show ?thesis
  proof (cases "r1 = None")
    case True
    then have "oracle_determinism env seed src work h w = (Inr r2, w2)"
      using c(1) l(1) by (simp add: oracle_determinism_def io_bind_def io_ret_def)
    with True found l(2) show ?thesis by blast
  next
    case False
    then have "oracle_determinism env seed src work h w = (Inr r1, w1)"
      using c(1) by (simp add: oracle_determinism_def io_bind_def io_ret_def)
    with False c(2) show ?thesis by blast
  qed
qed

definition drifting_host :: host where
  "drifting_host = (tool_host (\<lambda>_ _ _. answer 0 []))\<lparr>h_run := (\<lambda>argv inp vars w. Inr (answer 0 (str_nat (w_clock w div 2)), w_files w))\<rparr>"

theorem determinism_sound_and_complete_witness:
  "\<exists>r w'. oracle_determinism demo_env 1 ''p.mc'' ''w'' drifting_host empty_world = (Inr r, w') \<and> r \<noteq> None"
proof -
  let ?g = "\<lambda>stage t. answer 0 (str_nat (t div 2))"
  have h: "clocked_compiler drifting_host (e_mcc demo_env) ''p.mc'' ?g"
    by (simp add: clocked_compiler_def drifting_host_def)
  obtain r w' where "oracle_determinism demo_env 1 ''p.mc'' ''w'' drifting_host empty_world = (Inr r, w')"
      "(\<forall>i < 3. returncode (?g ''emit-c'' (w_clock empty_world + i)) = 0) \<longrightarrow>
       (\<exists>i < 3. stdout (?g ''emit-c'' (w_clock empty_world + i)) \<noteq> stdout (?g ''emit-c'' (w_clock empty_world))) \<longrightarrow> r \<noteq> None"
    using determinism_sound_and_complete [OF h, of 1 "''w''" empty_world] by blast
  moreover have "\<exists>i < 3. stdout (?g ''emit-c'' (w_clock empty_world + i)) \<noteq> stdout (?g ''emit-c'' (w_clock empty_world))"
    by (rule exI [of _ 2]) (simp add: answer_def empty_world_def)
  ultimately show ?thesis by (auto simp: answer_def)
qed

end
