(* ===== verification/Mcfuzz_Oracle_Exact.thy ===== *)
theory Mcfuzz_Oracle_Exact
  imports Mcfuzz_Oracle_Props
begin

text \<open>
  What the robustness, fail-closed and round-trip oracles establish about a compiler that is a function of its
  input, and what the oracles that run the compiled program establish about a tool chain.
\<close>

section \<open>Robustness\<close>

definition survives :: "nat \<Rightarrow> proc \<Rightarrow> bool" where
  "survives t p \<longleftrightarrow> elapsed p \<le> t \<and> 0 \<le> returncode p \<and>
     \<not> contains (decode_replace (stderr p)) ''panic:'' \<and> \<not> contains (decode_replace (stderr p)) ''error return trace:''"

lemma check_no_crash_result:
  assumes "compiler h (e_mcc env) f" and "w_files w path = Some c"
  shows "\<exists>r. check_no_crash env path label t h w = (Inr r, tick w) \<and> (r = None \<longleftrightarrow> survives t (f ''check'' path c))"
  unfolding check_no_crash_def bind_within [OF assms] io_ret_def survives_def Let_def by auto

text \<open>
  C33. The robustness oracle is exact: it returns, and it passes exactly when the compiler survives both the
  mutated program and the grammar-hostile input of the seed: an answer within fifteen seconds, no
  signal, no panic and no error trace on standard error.
\<close>

theorem robust_passes_iff:
  assumes "compiler h (e_mcc env) f" and "w_files w src = Some c" and "\<forall>p w. h_denied h p w = None"
  shows "\<exists>mutated label hostile s1 s2 r w'.
    mutate c \<lparr>tape = e_draws env ((seed * 2654435761) AND mask_int 32)\<rparr> = Inr (mutated, s1) \<and>
    hostile_frontend_case seed \<lparr>tape = e_draws env ((seed * 1103515245 + 12345) AND mask_int 32)\<rparr> = Inr ((label, hostile), s2) \<and>
    oracle_robust env seed src work h w = (Inr r, w') \<and>
    (r = None \<longleftrightarrow> survives 15 (f ''check'' (path_join work ''m.mc'') mutated) \<and>
       survives 15 (f ''check'' (path_join work ''hostile.mc'') hostile))"
proof -
  obtain mutated s1 where m: "mutate c \<lparr>tape = e_draws env ((seed * 2654435761) AND mask_int 32)\<rparr> = Inr (mutated, s1)"
    using wp_mutate [of c "\<lparr>tape = e_draws env ((seed * 2654435761) AND mask_int 32)\<rparr>"] unfolding wp_iff by blast
  obtain label hostile s2 where
      hc: "hostile_frontend_case seed \<lparr>tape = e_draws env ((seed * 1103515245 + 12345) AND mask_int 32)\<rparr> = Inr ((label, hostile), s2)"
    using wp_hostile_case [of seed "\<lparr>tape = e_draws env ((seed * 1103515245 + 12345) AND mask_int 32)\<rparr>"] unfolding wp_iff by fastforce
  let ?m = "path_join work ''m.mc''" and ?h = "path_join work ''hostile.mc''"
  let ?w1 = "tick (put ?m mutated w)"
  have "w_files (put ?m mutated w) ?m = Some mutated" by simp
  from check_no_crash_result [OF assms(1) this] obtain r1 where
      r1: "check_no_crash env ?m ''mutated input'' 15 h (put ?m mutated w) = (Inr r1, ?w1)"
        "r1 = None \<longleftrightarrow> survives 15 (f ''check'' ?m mutated)" by blast
  have "w_files (put ?h hostile ?w1) ?h = Some hostile" by simp
  from check_no_crash_result [OF assms(1) this] obtain r2 where
      r2: "check_no_crash env ?h label 15 h (put ?h hostile ?w1) = (Inr r2, tick (put ?h hostile ?w1))"
        "r2 = None \<longleftrightarrow> survives 15 (f ''check'' ?h hostile)" by blast
  have wr: "io_bind (write_file p x) k h v = k () h (put p x v)" for p x v and k :: "unit \<Rightarrow> string option io"
    using assms(3) by (simp add: bind_write)
  have mb: "io_bind (with_rng env ((seed * 2654435761) AND mask_int 32) (mutate c)) k h v = k mutated h v"
    for v and k :: "string \<Rightarrow> string option io" by (simp add: with_rng_def m bind_lift)
  have hb: "io_bind (with_rng env ((seed * 1103515245 + 12345) AND mask_int 32) (hostile_frontend_case seed)) k h v = k (label, hostile) h v"
    for v and k :: "string \<times> string \<Rightarrow> string option io" by (simp add: with_rng_def hc bind_lift)
  have r1b: "io_bind (check_no_crash env ?m ''mutated input'' 15) k h (put ?m mutated w) = k r1 h ?w1"
    for k :: "string option \<Rightarrow> string option io" by (simp add: io_bind_def r1(1))
  have "oracle_robust env seed src work h w = (if r1 = None then (Inr r2, tick (put ?h hostile ?w1)) else (Inr r1, ?w1))"
    unfolding oracle_robust_def Let_def
    by (simp add: bind_read [OF assms(2)] mb wr r1b hb r2(1)) (simp add: io_ret_def)
  with m hc r1(2) r2(2) show ?thesis by (cases "r1 = None") auto
qed

theorem robust_passes_iff_witness:
  "\<exists>r w'. oracle_robust demo_env 3 ''/tmp/w/p.mc'' ''/tmp/w'' (tool_host (\<lambda>_ path _. answer (if path = ''/tmp/w/hostile.mc'' then -11 else 1) []))
     demo_world = (Inr r, w') \<and> r \<noteq> None"
proof -
  let ?f = "\<lambda>_ path _. answer (if path = ''/tmp/w/hostile.mc'' then -11 else 1) []"
  have "path_join ''/tmp/w'' ''hostile.mc'' = ''/tmp/w/hostile.mc''" by (simp add: path_join_def)
  then have "\<not> survives 15 (?f x (path_join ''/tmp/w'' ''hostile.mc'') y)" for x y :: string by (simp add: survives_def answer_def)
  then show ?thesis
    using robust_passes_iff [of "tool_host ?f", OF compiler_tool_host demo_world_source, of demo_env 3 "''/tmp/w''"]
    by auto
qed

section \<open>Fail-closed checking\<close>

lemma replace_first_split:
  "contains s old \<Longrightarrow> old \<noteq> [] \<Longrightarrow> \<exists>pre post. s = pre @ old @ post \<and> replace_first old new s = pre @ new @ post"
proof (induction s)
  case Nil
  then show ?case by (simp add: contains_iff)
next
  case (Cons c s)
  show ?case
  proof (cases "startswith (c # s) old")
    case True
    then obtain post where post: "c # s = old @ post" by (auto simp: startswith_iff)
    have "replace_first old new (c # s) = new @ drop (length old) (c # s)" using True by simp
    also have "\<dots> = [] @ new @ post" unfolding post by simp
    finally show ?thesis using post by (metis append_Nil)
  next
    case False
    with Cons.prems have "contains s old" by (subst (asm) contains.simps) simp
    with Cons.IH Cons.prems(2) obtain pre post where "s = pre @ old @ post" "replace_first old new s = pre @ new @ post" by blast
    with False have "c # s = (c # pre) @ old @ post \<and> replace_first old new (c # s) = (c # pre) @ new @ post" by simp
    then show ?thesis by blast
  qed
qed

lemma harness_marker_nonempty: "harness_marker \<noteq> []"
  by (simp add: harness_marker_def)

text \<open>
  C32. The fail-closed oracle is exact: it puts one of the definitely invalid statements right after the opening of
  the harness and passes exactly when the compiler rejects that program cleanly in time; a compiler that
  accepts it is reported as a soundness hole with the description of the statement.
\<close>

theorem failclosed_exact:
  assumes "compiler h (e_mcc env) f" and "w_files w src = Some c" and "\<forall>p w. h_denied h p w = None"
    and "valid_utf8 c" and "CHR 0x0D \<notin> set c" and "contains c harness_marker"
  shows "\<exists>inj desc pre post r w'. (inj, desc) \<in> set INVALIDATIONS \<and> c = pre @ harness_marker @ post \<and>
    oracle_failclosed env seed src work h w = (Inr r, w') \<and>
    (let p = f ''check'' (path_join work ''bad.mc'') (pre @ harness_marker @ inj @ nl @ post) in
      (r = None \<longleftrightarrow> elapsed p \<le> 15 \<and> 0 < returncode p) \<and>
      (clean 15 p \<longrightarrow> r = Some (''SOUNDNESS: mcc check ACCEPTED an ill-typed program ('' @ desc @ '')'')))"
proof -
  obtain inj desc s1 where inj: "(inj, desc) \<in> set INVALIDATIONS"
      "choice INVALIDATIONS \<lparr>tape = e_draws env ((seed * 40503) AND mask_int 32)\<rparr> = Inr ((inj, desc), s1)"
    using choice_INVALIDATIONS [of "e_draws env ((seed * 40503) AND mask_int 32)"] by fastforce
  obtain pre post where pp: "c = pre @ harness_marker @ post"
      "replace_first harness_marker (harness_marker @ inj @ nl) c = pre @ (harness_marker @ inj @ nl) @ post"
    using replace_first_split [OF assms(6) harness_marker_nonempty] by blast
  let ?b = "path_join work ''bad.mc''" and ?bad = "pre @ harness_marker @ inj @ nl @ post"
  have draw: "io_bind (with_rng env ((seed * 40503) AND mask_int 32) (choice INVALIDATIONS)) k h w = k (inj, desc) h w"
    for k :: "string \<times> string \<Rightarrow> string option io" by (simp add: with_rng_def inj(2) bind_lift)
  have rd: "io_bind (read_text src) k h w = k c h w" for k :: "string \<Rightarrow> string option io"
    by (simp add: read_text_def bind_read [OF assms(2)] assms(4) universal_newlines_id [OF assms(5)])
  have "w_files (put ?b ?bad w) ?b = Some ?bad" by simp
  note run = bind_within [OF assms(1) this]
  define p where "p = f ''check'' ?b ?bad"
  define r where "r = (if 15 < elapsed p then Some (''mcc check HANGS on an invalid program ('' @ desc @ '')'')
      else if returncode p < 0 then
        Some (''mcc check CRASHED (signal '' @ str_int (- returncode p) @ '') on an invalid program ('' @ desc @ '')'')
      else if returncode p = 0 then Some (''SOUNDNESS: mcc check ACCEPTED an ill-typed program ('' @ desc @ '')'')
      else None)"
  have bad: "replace_first harness_marker (harness_marker @ inj @ nl) c = ?bad" using pp(2) by simp
  have wr: "io_bind (write_file ?b ?bad) k h w = k () h (put ?b ?bad w)" for k :: "unit \<Rightarrow> string option io"
    using assms(3) by (simp add: bind_write)
  have "oracle_failclosed env seed src work h w = (Inr r, tick (put ?b ?bad w))"
    unfolding oracle_failclosed_def draw prod.case rd Let_def bad
    by (simp only: assms(6) not_True_eq_False if_False wr run p_def [symmetric]) (simp add: io_ret_def r_def)
  moreover have "r = None \<longleftrightarrow> elapsed p \<le> 15 \<and> 0 < returncode p" by (auto simp: r_def)
  moreover have "clean 15 p \<longrightarrow> r = Some (''SOUNDNESS: mcc check ACCEPTED an ill-typed program ('' @ desc @ '')'')"
    by (simp add: r_def clean_def)
  ultimately show ?thesis unfolding Let_def p_def using inj(1) pp(1) by blast
qed

theorem failclosed_exact_witness:
  "\<exists>desc r w'. oracle_failclosed demo_env 3 ''/tmp/w/p.mc'' ''/tmp/w'' (tool_host (\<lambda>_ _ _. answer 0 [])) demo_world = (Inr r, w') \<and>
     r = Some (''SOUNDNESS: mcc check ACCEPTED an ill-typed program ('' @ desc @ '')'')"
proof -
  have "valid_utf8 (harness_marker @ ''}'')" by (rule valid_utf8_ascii) (simp add: ascii_def harness_marker_def)
  moreover have "CHR 0x0D \<notin> set (harness_marker @ ''}'')" by (simp add: harness_marker_def)
  moreover have "contains (harness_marker @ ''}'') harness_marker" by (auto simp: contains_iff intro: exI [of _ "[]"])
  ultimately show ?thesis
    using failclosed_exact [of "tool_host (\<lambda>_ _ _. answer 0 [])", OF compiler_tool_host demo_world_source, of demo_env 3 "''/tmp/w''"]
    by (fastforce simp: Let_def clean_def answer_def)
qed

section \<open>The formatter round trip\<close>

lemma bind_eq: "m h w = (Inr x, w') \<Longrightarrow> io_bind m k h w = k x h w'"
  by (simp add: io_bind_def)

definition token_text :: "proc \<Rightarrow> string" where
  "token_text p = strip_positions (decode_replace (if stderr p \<noteq> [] then stderr p else stdout p))"

lemma check_file_result:
  assumes "compiler h (e_mcc env) f" and "w_files w src = Some c"
  shows "\<exists>e. check_file env src label h w = (Inr (if clean 20 (f ''check'' src c) then None else Some e), tick w)"
  unfolding check_file_def run_mcc_def bind_within [OF assms] io_ret_def clean_def by auto

lemma format_file_result:
  assumes "compiler h (e_mcc env) f" and "w_files w src = Some c"
  shows "\<exists>e. format_file env src ctx rej h w =
    (Inr (if clean 20 (f ''fmt'' src c) then Inr (stdout (f ''fmt'' src c)) else Inl e), tick w)"
  unfolding format_file_def run_mcc_def bind_within [OF assms] io_ret_def clean_def by auto

lemma lex_stream_result:
  assumes "compiler h (e_mcc env) f" and "w_files w src = Some c"
  shows "\<exists>e. stripped_lex_stream env src h w =
    (Inr (if clean 20 (f ''lex'' src c) then Inr (token_text (f ''lex'' src c)) else Inl e), tick w)"
  unfolding stripped_lex_stream_def run_mcc_def bind_within [OF assms] io_ret_def clean_def token_text_def Let_def by auto

lemma emit_c_bytes_result:
  assumes "compiler h (e_mcc env) f" and "w_files w src = Some c"
  shows "\<exists>e. emit_c_bytes env src label h w =
    (Inr (if clean 20 (f ''emit-c'' src c) then Inr (stdout (f ''emit-c'' src c)) else Inl e), tick w)"
  unfolding emit_c_bytes_def run_mcc_def bind_within [OF assms] io_ret_def clean_def by auto

text \<open>What the two comparisons of the oracle say of the original \<open>c\<close> and the formatted text \<open>d\<close>.\<close>

definition same_tokens :: "mcc_fun \<Rightarrow> string \<Rightarrow> string \<Rightarrow> string \<Rightarrow> string \<Rightarrow> bool" where
  "same_tokens f src c fmt1 d \<longleftrightarrow> clean 20 (f ''lex'' src c) \<and> clean 20 (f ''lex'' fmt1 d) \<and>
     token_text (f ''lex'' src c) = token_text (f ''lex'' fmt1 d)"

definition same_lowering :: "mcc_fun \<Rightarrow> string \<Rightarrow> string \<Rightarrow> string \<Rightarrow> string \<Rightarrow> bool" where
  "same_lowering f src c fmt1 d \<longleftrightarrow> clean 20 (f ''emit-c'' src c) \<and> clean 20 (f ''emit-c'' fmt1 d) \<and>
     roundtrip_c_body (stdout (f ''emit-c'' src c)) = roundtrip_c_body (stdout (f ''emit-c'' fmt1 d))"

lemma roundtrip_tokens_result:
  assumes "compiler h (e_mcc env) f" and "w_files w src = Some c" and "w_files w fmt1 = Some d"
  shows "\<exists>r w'. roundtrip_tokens env src fmt1 h w = (Inr r, w') \<and> w_files w' = w_files w \<and> (r = None \<longleftrightarrow> same_tokens f src c fmt1 d)"
proof -
  have d: "w_files (tick w) fmt1 = Some d" using assms(3) by simp
  obtain e1 where l1: "stripped_lex_stream env src h w =
      (Inr (if clean 20 (f ''lex'' src c) then Inr (token_text (f ''lex'' src c)) else Inl e1), tick w)"
    using lex_stream_result [OF assms(1,2)] by blast
  obtain e2 where l2: "stripped_lex_stream env fmt1 h (tick w) =
      (Inr (if clean 20 (f ''lex'' fmt1 d) then Inr (token_text (f ''lex'' fmt1 d)) else Inl e2), tick (tick w))"
    using lex_stream_result [OF assms(1) d] by blast
  show ?thesis
    by (simp add: roundtrip_tokens_def bind_eq [where m = "stripped_lex_stream env src", OF l1] io_ret_def same_tokens_def)
      (simp add: bind_eq [where m = "stripped_lex_stream env fmt1", OF l2] io_ret_def)
qed

lemma roundtrip_lowering_result:
  assumes "compiler h (e_mcc env) f" and "w_files w src = Some c" and "w_files w fmt1 = Some d"
  shows "\<exists>r w'. roundtrip_lowering env src fmt1 h w = (Inr r, w') \<and> (r = None \<longleftrightarrow> same_lowering f src c fmt1 d)"
proof -
  have d: "w_files (tick w) fmt1 = Some d" using assms(3) by simp
  obtain e1 where l1: "emit_c_bytes env src ''generated source'' h w =
      (Inr (if clean 20 (f ''emit-c'' src c) then Inr (stdout (f ''emit-c'' src c)) else Inl e1), tick w)"
    using emit_c_bytes_result [OF assms(1,2)] by blast
  obtain e2 where l2: "emit_c_bytes env fmt1 ''formatted source'' h (tick w) =
      (Inr (if clean 20 (f ''emit-c'' fmt1 d) then Inr (stdout (f ''emit-c'' fmt1 d)) else Inl e2), tick (tick w))"
    using emit_c_bytes_result [OF assms(1) d] by blast
  show ?thesis
    by (simp add: roundtrip_lowering_def bind_eq [where m = "emit_c_bytes env src ''generated source''", OF l1]
      bind_eq [where m = "emit_c_bytes env fmt1 ''formatted source''", OF l2] io_ret_def same_lowering_def)
qed

text \<open>
  C11. The round-trip oracle is exact: it returns, and it passes exactly when the program checks, its formatted
  form checks and is a fixed point of the formatter, formatting keeps the token stream up to positions,
  and both forms lower to the same C up to line directives, every step cleanly and in time.
\<close>

theorem roundtrip_passes_iff:
  assumes "compiler h (e_mcc env) f" and "w_files w src = Some c" and "\<forall>p w. h_denied h p w = None"
    and "fmt1 = path_join work ''p.fmt.mc''" and "src \<noteq> fmt1" and "src \<noteq> path_join work ''p.fmt2.mc''"
    and "d = stdout (f ''fmt'' src c)"
  shows "\<exists>r w'. oracle_roundtrip env seed src work h w = (Inr r, w') \<and>
    (r = None \<longleftrightarrow> clean 20 (f ''check'' src c) \<and> clean 20 (f ''fmt'' src c) \<and> clean 20 (f ''check'' fmt1 d) \<and>
       clean 20 (f ''fmt'' fmt1 d) \<and> stdout (f ''fmt'' fmt1 d) = d \<and>
       same_tokens f src c fmt1 d \<and> same_lowering f src c fmt1 d)"
proof -
  let ?f2 = "path_join work ''p.fmt2.mc''"
  have wr: "io_bind (write_file p x) k h v = k () h (put p x v)" for p x v and k :: "unit \<Rightarrow> string option io"
    using assms(3) by (simp add: bind_write)
  define w2 where "w2 = put fmt1 d (tick (tick w))"
  define w4 where "w4 = put ?f2 (stdout (f ''fmt'' fmt1 d)) (tick (tick w2))"
  have files: "w_files (tick w) src = Some c" "w_files w2 fmt1 = Some d" "w_files (tick w2) fmt1 = Some d"
      "w_files w4 src = Some c" "w_files w4 fmt1 = Some d"
    using assms(2,5,6) assms(4) by (auto simp: w2_def w4_def)
  obtain e1 where "check_file env src ''generated source'' h w = (Inr (if clean 20 (f ''check'' src c) then None else Some e1), tick w)"
    using check_file_result [OF assms(1,2)] by blast
  note k1 = bind_eq [where m = "check_file env src ''generated source''", OF this]
  obtain e2 where "format_file env src ''on generated source'' ''generated source'' h (tick w) =
      (Inr (if clean 20 (f ''fmt'' src c) then Inr d else Inl e2), tick (tick w))"
    using format_file_result [OF assms(1) files(1)] assms(7) by blast
  note k2 = bind_eq [where m = "format_file env src ''on generated source'' ''generated source''", OF this]
  obtain e3 where "check_file env fmt1 ''formatted source'' h w2 = (Inr (if clean 20 (f ''check'' fmt1 d) then None else Some e3), tick w2)"
    using check_file_result [OF assms(1) files(2)] by blast
  note k3 = bind_eq [where m = "check_file env fmt1 ''formatted source''", OF this]
  obtain e4 where "format_file env fmt1 ''re-formatting generated source'' ''its own output'' h (tick w2) =
      (Inr (if clean 20 (f ''fmt'' fmt1 d) then Inr (stdout (f ''fmt'' fmt1 d)) else Inl e4), tick (tick w2))"
    using format_file_result [OF assms(1) files(3)] by blast
  note k4 = bind_eq [where m = "format_file env fmt1 ''re-formatting generated source'' ''its own output''", OF this]
  obtain r5 w5 where r5: "roundtrip_tokens env src fmt1 h w4 = (Inr r5, w5)" "w_files w5 = w_files w4" "r5 = None \<longleftrightarrow> same_tokens f src c fmt1 d"
    using roundtrip_tokens_result [OF assms(1) files(4,5)] by blast
  note k5 = bind_eq [where m = "roundtrip_tokens env src fmt1", OF r5(1)]
  have "w_files w5 src = Some c" "w_files w5 fmt1 = Some d" using files(4,5) r5(2) by simp_all
  then obtain r6 w6 where r6: "roundtrip_lowering env src fmt1 h w5 = (Inr r6, w6)" "r6 = None \<longleftrightarrow> same_lowering f src c fmt1 d"
    using roundtrip_lowering_result [OF assms(1)] by blast
  have "oracle_roundtrip env seed src work h w =
      (if \<not> clean 20 (f ''check'' src c) then (Inr (Some e1), tick w)
       else if \<not> clean 20 (f ''fmt'' src c) then (Inr (Some e2), tick (tick w))
       else if \<not> clean 20 (f ''check'' fmt1 d) then (Inr (Some e3), tick w2)
       else if \<not> clean 20 (f ''fmt'' fmt1 d) then (Inr (Some e4), tick (tick w2))
       else if stdout (f ''fmt'' fmt1 d) \<noteq> d then (Inr (Some ''ROUNDTRIP IDEMPOTENCE: fmt(fmt(src)) != fmt(src)''), w4)
       else if r5 \<noteq> None then (Inr r5, w5) else (Inr r6, w6))"
    unfolding oracle_roundtrip_def Let_def assms(4) [symmetric]
    by (simp add: k1 k2 wr w2_def [symmetric] k3 k4 w4_def [symmetric] k5 r6(1) io_ret_def)
  then show ?thesis using r5(3) r6(2) by auto
qed

text \<open>A formatter that drops the last token is caught, whatever its other stages answer.\<close>

definition clipping_mcc :: mcc_fun where
  "clipping_mcc stage path c = answer 0 (if stage = ''fmt'' then butlast c else c)"

theorem roundtrip_passes_iff_witness:
  "\<exists>r w'. oracle_roundtrip demo_env 1 ''/tmp/w/p.mc'' ''/tmp/w'' (tool_host clipping_mcc) demo_world = (Inr r, w') \<and> r \<noteq> None"
proof -
  let ?c = "harness_marker @ ''}''"
  have p: "''/tmp/w/p.mc'' \<noteq> path_join ''/tmp/w'' ''p.fmt.mc''" "''/tmp/w/p.mc'' \<noteq> path_join ''/tmp/w'' ''p.fmt2.mc''"
    by (simp_all add: path_join_def)
  have ne: "stdout (clipping_mcc ''fmt'' (path_join ''/tmp/w'' ''p.fmt.mc'') (stdout (clipping_mcc ''fmt'' ''/tmp/w/p.mc'' ?c))) \<noteq>
      stdout (clipping_mcc ''fmt'' ''/tmp/w/p.mc'' ?c)"
    by (simp add: clipping_mcc_def answer_def harness_marker_def)
  have "\<exists>r w'. oracle_roundtrip demo_env 1 ''/tmp/w/p.mc'' ''/tmp/w'' (tool_host clipping_mcc) demo_world = (Inr r, w') \<and>
      (r = None \<longrightarrow> stdout (clipping_mcc ''fmt'' (path_join ''/tmp/w'' ''p.fmt.mc'') (stdout (clipping_mcc ''fmt'' ''/tmp/w/p.mc'' ?c))) =
        stdout (clipping_mcc ''fmt'' ''/tmp/w/p.mc'' ?c))"
    using roundtrip_passes_iff [of "tool_host clipping_mcc", OF compiler_tool_host demo_world_source _ refl p refl, of demo_env 1]
    by auto
  with ne show ?thesis by blast
qed

end
