(* ===== verification/Mcfuzz_Oracle_Runs.thy ===== *)
theory Mcfuzz_Oracle_Runs
  imports Mcfuzz_Oracle_Exact
begin

text \<open>
  The oracles that run what the compiler and the C tool chain build: the two backends against each other, two
  optimization levels against each other, and the compiled program against the reference interpreter.
\<close>

section \<open>The tool chain\<close>

text \<open>
  What the oracles rely on: compiling C text, building an object from LLVM, linking the contents of the input
  files in order, and running an executable are functions; a tool that succeeds writes its output file and
  nothing else, and one that fails writes nothing.
\<close>

record tools =
  t_cc :: "string list \<Rightarrow> string \<Rightarrow> string option"
  t_llvm :: "string \<Rightarrow> string option"
  t_ld :: "string list \<Rightarrow> string option"
  t_exec :: "string \<Rightarrow> proc"

definition built :: "string option \<Rightarrow> string \<Rightarrow> (string \<Rightarrow> string option) \<Rightarrow> string + (proc \<times> (string \<Rightarrow> string option)) \<Rightarrow> bool" where
  "built res path fs outcome \<longleftrightarrow>
     (\<exists>p. outcome = Inr (p, case res of Some x \<Rightarrow> fs(path \<mapsto> x) | None \<Rightarrow> fs) \<and> (returncode p = 0 \<longleftrightarrow> res \<noteq> None))"

definition toolchain :: "host \<Rightarrow> fuzz_env \<Rightarrow> tools \<Rightarrow> bool" where
  "toolchain h env t \<longleftrightarrow>
     (\<forall>w extra obj c. built (t_cc t extra c) obj (w_files w)
        (h_run h ([e_clang env, ''-std=c11'', ''-w''] @ extra @ [''-c'', ''-x'', ''c'', ''-'', ''-o'', obj]) c [] w)) \<and>
     (\<forall>w src c obj. w_files w src = Some c \<longrightarrow> built (t_llvm t c) obj (w_files w)
        (h_run h [''bash'', path_join (e_root env) ''tools/toolchain/mcc-llvm-cc.sh'', src, ''-o'', obj] []
          [(''MCC'', e_mcc env), (''LLC'', e_llc env)] w)) \<and>
     (\<forall>w inputs cs app. inputs \<noteq> [] \<longrightarrow> map (w_files w) inputs = map Some cs \<longrightarrow> built (t_ld t cs) app (w_files w)
        (h_run h ([e_clang env] @ e_link_flags env @ [''-w''] @ [] @ inputs @ [''-lm'', ''-o'', app]) [] [] w)) \<and>
     (\<forall>w app x. w_files w app = Some x \<longrightarrow> h_run h [app] [] [] w = Inr (t_exec t x, w_files w))"

lemma run_built:
  assumes "built res path (w_files w) (h_run h argv inp vars w)"
  obtains p where "run_proc argv inp vars h w = (Inr p, tick (case res of Some x \<Rightarrow> put path x w | None \<Rightarrow> w))"
    and "returncode p = 0 \<longleftrightarrow> res \<noteq> None"
  using assms unfolding built_def run_proc_def tick_def put_def by (auto split: option.splits)

lemma compile_result:
  assumes "toolchain h env t"
  shows "\<exists>e. compile_c_text_obj (e_clang env) c obj extra h w =
    (Inr (if t_cc t extra c = None then Some e else None), tick (case t_cc t extra c of Some x \<Rightarrow> put obj x w | None \<Rightarrow> w))"
proof -
  have "built (t_cc t extra c) obj (w_files w)
      (h_run h ([e_clang env, ''-std=c11'', ''-w''] @ extra @ [''-c'', ''-x'', ''c'', ''-'', ''-o'', obj]) c [] w)"
    using assms unfolding toolchain_def by blast
  then obtain p where "run_proc ([e_clang env, ''-std=c11'', ''-w''] @ extra @ [''-c'', ''-x'', ''c'', ''-'', ''-o'', obj]) c [] h w =
      (Inr p, tick (case t_cc t extra c of Some x \<Rightarrow> put obj x w | None \<Rightarrow> w))" "returncode p = 0 \<longleftrightarrow> t_cc t extra c \<noteq> None"
    by (rule run_built)
  then show ?thesis
    unfolding compile_c_text_obj_def by (simp add: bind_eq [where m = "run_proc _ _ _"] io_ret_def)
qed

lemma llvm_result:
  assumes "toolchain h env t" and "w_files w src = Some c"
  shows "llvm_cc env src obj h w = (Inr (t_llvm t c \<noteq> None), tick (case t_llvm t c of Some x \<Rightarrow> put obj x w | None \<Rightarrow> w))"
proof -
  have "built (t_llvm t c) obj (w_files w)
      (h_run h [''bash'', path_join (e_root env) ''tools/toolchain/mcc-llvm-cc.sh'', src, ''-o'', obj] []
        [(''MCC'', e_mcc env), (''LLC'', e_llc env)] w)"
    using assms unfolding toolchain_def by blast
  then obtain p where "run_proc [''bash'', path_join (e_root env) ''tools/toolchain/mcc-llvm-cc.sh'', src, ''-o'', obj] []
        [(''MCC'', e_mcc env), (''LLC'', e_llc env)] h w =
      (Inr p, tick (case t_llvm t c of Some x \<Rightarrow> put obj x w | None \<Rightarrow> w))" "returncode p = 0 \<longleftrightarrow> t_llvm t c \<noteq> None"
    by (rule run_built)
  then show ?thesis
    unfolding llvm_cc_def by (simp add: bind_eq [where m = "run_proc _ _ _"] io_ret_def)
qed

lemma link_result:
  assumes "toolchain h env t" and "map (w_files w) inputs = map Some cs" and "inputs \<noteq> []"
  shows "link_app env [] inputs app h w = (Inr (t_ld t cs \<noteq> None), tick (case t_ld t cs of Some x \<Rightarrow> put app x w | None \<Rightarrow> w))"
proof -
  have "built (t_ld t cs) app (w_files w)
      (h_run h ([e_clang env] @ e_link_flags env @ [''-w''] @ [] @ inputs @ [''-lm'', ''-o'', app]) [] [] w)"
    using assms unfolding toolchain_def by blast
  then obtain p where "run_proc ([e_clang env] @ e_link_flags env @ [''-w''] @ [] @ inputs @ [''-lm'', ''-o'', app]) [] [] h w =
      (Inr p, tick (case t_ld t cs of Some x \<Rightarrow> put app x w | None \<Rightarrow> w))" "returncode p = 0 \<longleftrightarrow> t_ld t cs \<noteq> None"
    by (rule run_built)
  then show ?thesis
    unfolding link_app_def run_cmd_def by (simp add: bind_eq [where m = "run_proc _ _ _"] io_ret_def)
qed

lemma exec_result:
  assumes "toolchain h env t" and "w_files w app = Some x"
  shows "run_cmd [app] h w = (Inr (t_exec t x), tick w)"
proof -
  have "h_run h [app] [] [] w = Inr (t_exec t x, w_files w)" using assms unfolding toolchain_def by blast
  then show ?thesis by (simp add: run_cmd_def run_proc_def tick_def)
qed

section \<open>One compiled run\<close>

definition emitted_obj :: "mcc_fun \<Rightarrow> tools \<Rightarrow> string list \<Rightarrow> string \<Rightarrow> string \<Rightarrow> string option" where
  "emitted_obj f t opt src c =
     (if returncode (f ''emit-c'' src c) \<noteq> 0 then None else t_cc t opt (decode_replace (stdout (f ''emit-c'' src c))))"

definition build_run :: "mcc_fun \<Rightarrow> tools \<Rightarrow> string list \<Rightarrow> string \<Rightarrow> string \<Rightarrow> (int \<times> string) option" where
  "build_run f t opt src c =
     (case emitted_obj f t opt src c of
        None \<Rightarrow> None
      | Some obj \<Rightarrow>
          (case t_ld t [DRIVER, obj] of None \<Rightarrow> None | Some app \<Rightarrow> Some (returncode (t_exec t app), stdout (t_exec t app))))"

lemma emit_c_obj_result:
  assumes "compiler h (e_mcc env) f" and "toolchain h env t" and "w_files w src = Some c"
  shows "\<exists>e w'. emit_c_obj (e_mcc env) (e_clang env) src obj opt h w = (Inr (if emitted_obj f t opt src c = None then Some e else None), w') \<and>
    w_files w' = (case emitted_obj f t opt src c of Some x \<Rightarrow> (w_files w)(obj \<mapsto> x) | None \<Rightarrow> w_files w)"
proof (cases "returncode (f ''emit-c'' src c) = 0")
  case False
  then show ?thesis
    by (simp add: emit_c_obj_def emit_c_text_def bind_run_mcc [OF assms(1,3)] emitted_obj_def io_ret_def)
next
  case True
  let ?c = "decode_replace (stdout (f ''emit-c'' src c))"
  obtain e where "compile_c_text_obj (e_clang env) ?c obj opt h (tick w) =
      (Inr (if t_cc t opt ?c = None then Some e else None), tick (case t_cc t opt ?c of Some x \<Rightarrow> put obj x (tick w) | None \<Rightarrow> tick w))"
    using compile_result [OF assms(2)] by blast
  with True show ?thesis
    by (auto simp: emit_c_obj_def emit_c_text_def bind_run_mcc [OF assms(1,3)] emitted_obj_def split: option.split)
qed

lemma last_neq: "last a \<noteq> last b \<Longrightarrow> a \<noteq> b"
  by auto

lemma compile_run_result:
  assumes "compiler h (e_mcc env) f" and "toolchain h env t" and "w_files w src = Some c" and "\<forall>p w. h_denied h p w = None"
  shows "\<exists>w'. compile_run_c env src work tag opt h w = (Inr (build_run f t opt src c), w') \<and>
    (\<forall>n. n \<notin> {tag @ ''.o'', ''d.c'', tag @ ''_exe''} \<longrightarrow> w_files w' (path_join work n) = w_files w (path_join work n))"
proof -
  let ?obj = "path_join work (tag @ ''.o'')" and ?drv = "path_join work ''d.c''" and ?app = "path_join work (tag @ ''_exe'')"
  obtain e w1 where e: "emit_c_obj (e_mcc env) (e_clang env) src ?obj opt h w = (Inr (if emitted_obj f t opt src c = None then Some e else None), w1)"
      "w_files w1 = (case emitted_obj f t opt src c of Some x \<Rightarrow> (w_files w)(?obj \<mapsto> x) | None \<Rightarrow> w_files w)"
    using emit_c_obj_result [OF assms(1-3)] by blast
  note k1 = bind_eq [where m = "emit_c_obj (e_mcc env) (e_clang env) src ?obj opt", OF e(1)]
  show ?thesis
  proof (cases "emitted_obj f t opt src c")
    case None
    with e(2) show ?thesis by (simp add: compile_run_c_def Let_def k1 io_ret_def build_run_def)
  next
    case (Some x)
    define w2 where "w2 = put ?drv DRIVER w1"
    have w2f: "w_files w2 = (w_files w1)(?drv \<mapsto> DRIVER)" by (simp add: w2_def)
    have "tag @ ''.o'' \<noteq> ''d.c''" by (rule last_neq) simp
    then have "map (w_files w2) [?drv, ?obj] = map Some [DRIVER, x]" using e(2) Some by (simp add: w2_def)
    note lk = link_result [OF assms(2) this list.simps(3), of ?app]
    have wr: "io_bind (write_file ?drv DRIVER) k h w1 = k () h w2" for k :: "unit \<Rightarrow> (int \<times> string) option io"
      using assms(4) by (simp add: bind_write w2_def)
    show ?thesis
    proof (cases "t_ld t [DRIVER, x]")
      case None
      with Some e(2) show ?thesis
        by (simp add: compile_run_c_def Let_def k1 wr bind_eq [where m = "link_app env [] [?drv, ?obj] ?app", OF lk] io_ret_def build_run_def w2f)
    next
      case (Some a)
      have "w_files (tick (put ?app a w2)) ?app = Some a" by simp
      note ex = bind_eq [where m = "run_cmd [?app]", OF exec_result [OF assms(2) this]]
      from Some \<open>emitted_obj f t opt src c = Some x\<close> e(2) show ?thesis
        by (simp add: compile_run_c_def Let_def k1 wr bind_eq [where m = "link_app env [] [?drv, ?obj] ?app", OF lk] ex io_ret_def build_run_def w2f)
    qed
  qed
qed

section \<open>Optimization levels\<close>

text \<open>Two runs agree: the same status, and the same output when it is 0.\<close>

definition same_run :: "int \<times> string \<Rightarrow> int \<times> string \<Rightarrow> bool" where
  "same_run x y \<longleftrightarrow> fst x = fst y \<and> (fst x = 0 \<longrightarrow> snd x = snd y)"

lemma compare_runs_None: "compare_runs title a b x y = None \<longleftrightarrow> same_run x y"
  by (auto simp: compare_runs_def same_run_def)

text \<open>
  The optimization oracle is exact: for a program that builds and runs at both levels it returns, and it passes
  exactly when the two runs end with the same status and, when that is 0, the same output; a program
  that does not build at one of the levels is left to the other oracles.
\<close>

theorem optlevel_passes_iff:
  assumes "compiler h (e_mcc env) f" and "toolchain h env t" and "\<forall>p w. h_denied h p w = None"
    and "src = path_join work ''p.mc''" and "w_files w src = Some c"
  shows "\<exists>r w'. oracle_optlevel env seed src work h w = (Inr r, w') \<and>
    (r = None \<longleftrightarrow> (case (build_run f t [''-O0''] src c, build_run f t [''-O2''] src c) of
       (Some x, Some y) \<Rightarrow> same_run x y | _ \<Rightarrow> True))"
proof -
  obtain w1 where r1: "compile_run_c env src work ''o0'' [''-O0''] h w = (Inr (build_run f t [''-O0''] src c), w1)"
      "\<forall>n. n \<notin> {''o0'' @ ''.o'', ''d.c'', ''o0'' @ ''_exe''} \<longrightarrow> w_files w1 (path_join work n) = w_files w (path_join work n)"
    using compile_run_result [OF assms(1,2,5,3)] by blast
  have "w_files w1 src = Some c" using r1(2) [rule_format, of "''p.mc''"] assms(4,5) by simp
  from compile_run_result [OF assms(1,2) this assms(3)] obtain w2 where
      r2: "compile_run_c env src work ''o2'' [''-O2''] h w1 = (Inr (build_run f t [''-O2''] src c), w2)" by blast
  show ?thesis
    by (simp add: oracle_optlevel_def bind_eq [where m = "compile_run_c env src work ''o0'' [''-O0'']", OF r1(1)]
      bind_eq [where m = "compile_run_c env src work ''o2'' [''-O2'']", OF r2] io_ret_def compare_runs_None split: option.split)
qed

text \<open>A tool chain on which the objects are the flags, executables are concatenations, and running prints.\<close>

definition demo_tools :: tools where
  "demo_tools = \<lparr>t_cc = (\<lambda>extra c. Some (concat extra)), t_llvm = (\<lambda>c. Some ''llvm''), t_ld = (\<lambda>cs. Some (last cs)), t_exec = answer 0\<rparr>"

definition demo_host :: "mcc_fun \<Rightarrow> host" where
  "demo_host f = (tool_host f)\<lparr>h_run := (\<lambda>argv inp vars w.
     if length argv = 1 then
       (case w_files w (hd argv) of Some x \<Rightarrow> Inr (answer 0 x, w_files w) | None \<Rightarrow> Inl ''missing'')
     else if length argv = 3 then h_run (tool_host f) argv inp vars w
     else if hd argv = ''bash'' then Inr (answer 0 [], (w_files w)(last argv \<mapsto> ''llvm''))
     else if argv ! (length argv - 3) = ''-lm'' then
       (case w_files w (argv ! (length argv - 4)) of Some x \<Rightarrow> Inr (answer 0 [], (w_files w)(last argv \<mapsto> x)) | None \<Rightarrow> Inl ''missing'')
     else Inr (answer 0 [], (w_files w)(last argv \<mapsto> concat (drop 3 (take (length argv - 6) argv)))))\<rparr>"

lemma compiler_demo_host: "compiler (demo_host f) mcc f"
  by (simp add: compiler_def demo_host_def tool_host_def)

lemma denied_demo_host: "\<forall>p w. h_denied (demo_host f) p w = None"
  by (simp add: demo_host_def)

lemma last_map_Some: "map g xs = map Some cs \<Longrightarrow> xs \<noteq> [] \<Longrightarrow> g (last xs) = Some (last cs)"
  by (metis last_map list.map_disc_iff)

lemma toolchain_demo_host: "toolchain (demo_host f) demo_env demo_tools"
proof -
  have cc: "h_run (demo_host f) ([''clang'', ''-std=c11'', ''-w''] @ extra @ [''-c'', ''-x'', ''c'', ''-'', ''-o'', obj]) c [] w =
      Inr (answer 0 [], (w_files w)(obj \<mapsto> concat extra))" for w extra obj c
    by (simp add: demo_host_def nth_append)
  have lk: "h_run (demo_host f) ([''clang''] @ [] @ [''-w''] @ [] @ inputs @ [''-lm'', ''-o'', app]) [] [] w =
      Inr (answer 0 [], (w_files w)(app \<mapsto> last cs))" if ne: "inputs \<noteq> []" and mp: "map (w_files w) inputs = map Some cs" for w inputs cs app
  proof -
    define ys where "ys = butlast inputs"
    define y where "y = last inputs"
    have y: "inputs = ys @ [y]" using ne by (simp add: ys_def y_def)
    have "w_files w y = Some (last cs)" using last_map_Some [OF mp ne] by (simp add: y_def)
    then show ?thesis unfolding y by (simp add: demo_host_def nth_append)
  qed
  have ll: "h_run (demo_host f) [''bash'', sh, src, ''-o'', obj] [] vars w = Inr (answer 0 [], (w_files w)(obj \<mapsto> ''llvm''))"
    for w sh src obj vars by (simp add: demo_host_def)
  have ex: "h_run (demo_host f) [app] [] [] w = Inr (answer 0 x, w_files w)" if "w_files w app = Some x" for w app x
    using that by (simp add: demo_host_def)
  have ok: "built (Some x) path fs (Inr (answer 0 [], fs(path \<mapsto> x)))" for x path fs
    by (simp add: built_def answer_def)
  have env: "e_clang demo_env = ''clang''" "e_link_flags demo_env = []" by (simp_all add: demo_env_def)
  have tls: "t_cc demo_tools extra c = Some (concat extra)" "t_llvm demo_tools c = Some ''llvm''" "t_ld demo_tools cs = Some (last cs)"
      "t_exec demo_tools x = answer 0 x" for extra c cs x by (simp_all add: demo_tools_def)
  show ?thesis
    unfolding toolchain_def env tls
  proof (intro conjI allI impI)
    show "built (Some (concat extra)) obj (w_files w)
        (h_run (demo_host f) ([''clang'', ''-std=c11'', ''-w''] @ extra @ [''-c'', ''-x'', ''c'', ''-'', ''-o'', obj]) c [] w)" for w extra obj c
      unfolding cc by (rule ok)
    show "built (Some (last cs)) app (w_files w)
        (h_run (demo_host f) ([''clang''] @ [] @ [''-w''] @ [] @ inputs @ [''-lm'', ''-o'', app]) [] [] w)"
      if "inputs \<noteq> []" "map (w_files w) inputs = map Some cs" for w inputs cs app
      unfolding lk [OF that] by (rule ok)
  qed (unfold ll, rule ok, rule ex)
qed

theorem optlevel_passes_iff_witness:
  "\<exists>r w'. oracle_optlevel demo_env 1 (path_join ''/tmp/w'' ''p.mc'') ''/tmp/w'' (demo_host (\<lambda>_ _ _. answer 0 [])) demo_world = (Inr r, w') \<and> r \<noteq> None"
proof -
  have src: "w_files demo_world (path_join ''/tmp/w'' ''p.mc'') = Some (harness_marker @ ''}'')"
    using demo_world_source by (simp add: path_join_def)
  show ?thesis
    using optlevel_passes_iff [of "demo_host (\<lambda>_ _ _. answer 0 [])", OF compiler_demo_host toolchain_demo_host denied_demo_host refl src, of 1]
    by (auto simp: build_run_def emitted_obj_def answer_def demo_tools_def same_run_def)
qed

section \<open>Against the reference interpreter\<close>

lemma bstrip_line:
  assumes "s \<noteq> []" and "list_all (\<lambda>c. \<not> is_bspace c) s"
  shows "bstrip (s @ nl) = s"
proof -
  have "dropWhile is_bspace (s @ nl) = s @ nl" using assms by (cases s) auto
  moreover have "dropWhile is_bspace (rev s) = rev s" using assms by (cases "rev s") (auto simp: list_all_iff)
  ultimately show ?thesis by (simp add: bstrip_def is_bspace_def)
qed

lemma digit_not_bspace: "is_digit c \<Longrightarrow> \<not> is_bspace c"
  by (auto simp: is_digit_def is_bspace_def)

lemma str_int_line: "0 \<le> v \<Longrightarrow> bstrip (str_int v @ nl) = str_int v"
  by (rule bstrip_line) (auto simp: str_int_def list_all_iff intro!: digit_not_bspace str_nat_digits)

lemma reference_verdict_None: "reference_verdict v x = None \<longleftrightarrow> fst x = 0 \<and> bstrip (snd x) = str_int v"
  by (simp add: reference_verdict_def)

text \<open>
  C5. The reference oracle decides exactly what it means to: on a deterministic compiler and tool chain it returns
  for every seed, and there is one value \<open>v\<close> of 64 bits, the interpreter's, such that it passes exactly when
  the checker rejects the generated program, the program does not build, or the compiled program exits
  with 0 and prints \<open>v\<close>; a compiled program that prints \<open>v\<close> as the driver does is never reported.
\<close>

theorem reference_passes_iff:
  assumes "compiler h (e_mcc env) f" and "toolchain h env t" and "\<forall>p w. h_denied h p w = None"
    and "src = path_join work ''ref.mc''"
  shows "\<exists>g prog v r w'. RefGen_build (e_draws env seed) = Inr g \<and> source g = Inr prog \<and> evaluate 5 g = Some (Inr v) \<and>
    0 \<le> v \<and> v < 2 ^ 64 \<and> oracle_reference env seed src_path work h w = (Inr r, w') \<and>
    (r = None \<longleftrightarrow> returncode (f ''check'' src prog) \<noteq> 0 \<or>
       (case build_run f t [] src prog of None \<Rightarrow> True | Some (rc, out) \<Rightarrow> rc = 0 \<and> bstrip out = str_int v)) \<and>
    (build_run f t [] src prog = Some (0, str_int v @ nl) \<longrightarrow> r = None)"
proof -
  obtain g where g: "RefGen_build (e_draws env seed) = Inr g" "built_ok g" using build_ok by blast
  obtain prog where prog: "source g = Inr prog" using source_ok [OF g(2)] by blast
  obtain v where v: "evaluate 5 g = Some (Inr v)" "in_range 64 v" using evaluate_ok [OF g(2), of 5] by auto
  have vr: "ref_value g = Inr v" by (simp add: ref_value_def v(1))
  have ref: "w_files (put src prog w) src = Some prog" by simp
  have wr: "io_bind (write_file src prog) k h w = k () h (put src prog w)" for k :: "unit \<Rightarrow> string option io"
    using assms(3) by (simp add: bind_write)
  have "w_files (tick (put src prog w)) src = Some prog" by simp
  from compile_run_result [OF assms(1,2) this assms(3)] obtain w2 where
      r2: "compile_run_c env src work ''ref'' [] h (tick (put src prog w)) = (Inr (build_run f t [] src prog), w2)" by blast
  note ex = bind_eq [where m = "compile_run_c env src work ''ref'' []", OF r2]
  have run: "oracle_reference env seed src_path work h w =
      (if returncode (f ''check'' src prog) \<noteq> 0 then (Inr None, tick (put src prog w))
       else (Inr (case build_run f t [] src prog of None \<Rightarrow> None | Some x \<Rightarrow> reference_verdict v x), w2))"
    unfolding oracle_reference_def Let_def assms(4) [symmetric]
    by (simp add: g(1) prog vr bind_lift wr bind_run_mcc [OF assms(1) ref] ex io_ret_def)
  show ?thesis
    by (rule exI [of _ g], rule exI [of _ prog], rule exI [of _ v])
      (use g(1) prog v run in \<open>auto simp: in_range_def reference_verdict_None str_int_line split: option.split\<close>)
qed

theorem reference_passes_iff_witness:
  "\<exists>r w'. oracle_reference demo_env 1 ''p.mc'' ''/tmp/w'' (demo_host (\<lambda>_ _ _. answer 0 [])) demo_world = (Inr r, w') \<and> r \<noteq> None"
proof -
  let ?f = "\<lambda>_ _ _. answer 0 []"
  have "build_run ?f demo_tools [] src prog = Some (0, [])" for src prog
    by (simp add: build_run_def emitted_obj_def answer_def demo_tools_def)
  moreover have "\<not> bstrip [] = str_int v" for v
    using str_nat_nonempty [of "nat v"] by (auto simp: bstrip_def str_int_def simp del: str_nat_nonempty)
  moreover have "returncode (answer 0 []) = 0" by (simp add: answer_def)
  ultimately show ?thesis
    using reference_passes_iff [of "demo_host ?f", OF compiler_demo_host toolchain_demo_host denied_demo_host refl,
      where work = "''/tmp/w''" and seed = 1 and src_path = "''p.mc''" and w = demo_world] by auto
qed

section \<open>C against LLVM\<close>

definition backends_agree :: "proc \<Rightarrow> proc \<Rightarrow> bool" where
  "backends_agree p q \<longleftrightarrow> (returncode p = 0 \<longleftrightarrow> returncode q = 0) \<and> (returncode p = 0 \<longrightarrow> stdout p = stdout q)"

lemma divergence_text_None: "divergence_text p q = None \<longleftrightarrow> backends_agree p q"
  by (auto simp: divergence_text_def backends_agree_def)

text \<open>The linked executables of a program, where both backends build it.\<close>

definition both_apps :: "tools \<Rightarrow> string \<Rightarrow> string \<Rightarrow> (string \<times> string) option" where
  "both_apps t obj c =
     (case t_llvm t c of
        None \<Rightarrow> None
      | Some lobj \<Rightarrow>
          (case t_ld t [DRIVER, obj] of
             None \<Rightarrow> None
           | Some capp \<Rightarrow> map_option (\<lambda>lapp. (capp, lapp)) (t_ld t [DRIVER, TRAP_STUBS, lobj])))"

text \<open>
  C10. The differential oracle is exact: on a deterministic compiler and tool chain it returns; a program whose C
  side does not build passes exactly when the LLVM side rejects it too; a program whose C side builds passes
  exactly when the LLVM side builds as well, both link, and the two executables agree on success and,
  when they succeed, on the output.
\<close>

theorem differential_passes_iff:
  assumes "compiler h (e_mcc env) f" and "toolchain h env t" and "\<forall>p w. h_denied h p w = None"
    and "src = path_join work ''p.mc''" and "w_files w src = Some c"
  shows "\<exists>r w'. oracle_differential env seed src work h w = (Inr r, w') \<and>
    (r = None \<longleftrightarrow> (case emitted_obj f t [] src c of
       None \<Rightarrow> returncode (f ''emit-llvm'' src c) \<noteq> 0
     | Some obj \<Rightarrow> (case both_apps t obj c of
           None \<Rightarrow> False | Some (capp, lapp) \<Rightarrow> backends_agree (t_exec t capp) (t_exec t lapp))))"
proof -
  let ?co = "path_join work ''c.o''" and ?lo = "path_join work ''l.o''" and ?drv = "path_join work ''d.c''" and ?ts = "path_join work ''ts.c''"
    and ?ca = "path_join work ''c_exe''" and ?la = "path_join work ''l_exe''"
  obtain e w1 where e: "emit_c_obj (e_mcc env) (e_clang env) src ?co [] h w = (Inr (if emitted_obj f t [] src c = None then Some e else None), w1)"
      "w_files w1 = (case emitted_obj f t [] src c of Some x \<Rightarrow> (w_files w)(?co \<mapsto> x) | None \<Rightarrow> w_files w)"
    using emit_c_obj_result [OF assms(1,2,5)] by blast
  note k1 = bind_eq [where m = "emit_c_obj (e_mcc env) (e_clang env) src ?co []", OF e(1)]
  have src1: "w_files w1 src = Some c" using e(2) assms(4,5) by (simp split: option.split)
  have wr: "io_bind (write_file p x) k h v = k () h (put p x v)" for p x v and k :: "unit \<Rightarrow> string option io"
    using assms(3) by (simp add: bind_write)
  show ?thesis
  proof (cases "emitted_obj f t [] src c")
    case None
    then show ?thesis
      by (simp add: oracle_differential_def differential_compare_def Let_def k1 emit_llvm_fails_def bind_run_mcc [OF assms(1) src1] io_ret_def)
  next
    case (Some obj)
    note cobj = Some
    note k2 = bind_eq [where m = "llvm_cc env src ?lo", OF llvm_result [OF assms(2) src1]]
    show ?thesis
    proof (cases "t_llvm t c")
      case None
      then show ?thesis
        by (simp add: oracle_differential_def differential_compare_def Let_def k1 k2 cobj io_ret_def both_apps_def)
    next
      case (Some lobj)
      define w3 where "w3 = put ?ts TRAP_STUBS (put ?drv DRIVER (tick (put ?lo lobj w1)))"
      have w3: "w_files w3 = (w_files w)(?co \<mapsto> obj, ?lo \<mapsto> lobj, ?drv \<mapsto> DRIVER, ?ts \<mapsto> TRAP_STUBS)"
        by (simp add: w3_def e(2) cobj)
      have "map (w_files w3) [?drv, ?co] = map Some [DRIVER, obj]" by (simp add: w3)
      note k3 = bind_eq [where m = "link_app env [] [?drv, ?co] ?ca", OF link_result [OF assms(2) this list.simps(3)]]
      have head: "oracle_differential env seed src work h w = io_bind (link_app env [] [?drv, ?co] ?ca) (\<lambda>ok.
            if \<not> ok then io_ret (Some ''C link failed'')
            else
              io_bind (link_app env [] [?drv, ?ts, ?lo] ?la) (\<lambda>ok.
              if \<not> ok then io_ret (Some ''LLVM link failed'')
              else io_bind (run_cmd [?ca]) (\<lambda>co. io_bind (run_cmd [?la]) (\<lambda>lo. io_ret (divergence_text co lo))))) h w3"
        unfolding w3_def by (simp add: oracle_differential_def differential_compare_def Let_def k1 k2 cobj Some wr)
      show ?thesis
      proof (cases "t_ld t [DRIVER, obj]")
        case None
        then show ?thesis by (simp add: head k3 cobj both_apps_def Some \<open>t_llvm t c = Some lobj\<close> io_ret_def)
      next
        case (Some capp)
        define w4 where "w4 = tick (put ?ca capp w3)"
        have w4: "w_files w4 = (w_files w3)(?ca \<mapsto> capp)" by (simp add: w4_def)
        have "map (w_files w4) [?drv, ?ts, ?lo] = map Some [DRIVER, TRAP_STUBS, lobj]" by (simp add: w3 w4)
        note k4 = bind_eq [where m = "link_app env [] [?drv, ?ts, ?lo] ?la", OF link_result [OF assms(2) this list.simps(3)]]
        show ?thesis
        proof (cases "t_ld t [DRIVER, TRAP_STUBS, lobj]")
          case None
          then show ?thesis
            by (simp add: head k3 Some w4_def [symmetric] k4 cobj both_apps_def \<open>t_llvm t c = Some lobj\<close> io_ret_def)
        next
          case (Some lapp)
          define w5 where "w5 = tick (put ?la lapp w4)"
          have "w_files w5 ?ca = Some capp" "w_files (tick w5) ?la = Some lapp" by (simp_all add: w5_def w4)
          note k5 = bind_eq [where m = "run_cmd [?ca]", OF exec_result [OF assms(2) this(1)]]
            and k6 = bind_eq [where m = "run_cmd [?la]", OF exec_result [OF assms(2) this(2)]]
          from Some show ?thesis
            by (simp add: head k3 \<open>t_ld t [DRIVER, obj] = Some capp\<close> w4_def [symmetric] k4 w5_def [symmetric] k5 k6 cobj both_apps_def
              \<open>t_llvm t c = Some lobj\<close> io_ret_def divergence_text_None)
        qed
      qed
    qed
  qed
qed

theorem differential_passes_iff_witness:
  "\<exists>r w'. oracle_differential demo_env 1 (path_join ''/tmp/w'' ''p.mc'') ''/tmp/w'' (demo_host (\<lambda>_ _ _. answer 0 [])) demo_world = (Inr r, w') \<and> r \<noteq> None"
proof -
  have src: "w_files demo_world (path_join ''/tmp/w'' ''p.mc'') = Some (harness_marker @ ''}'')"
    using demo_world_source by (simp add: path_join_def)
  show ?thesis
    using differential_passes_iff [of "demo_host (\<lambda>_ _ _. answer 0 [])", OF compiler_demo_host toolchain_demo_host denied_demo_host refl src, of 1]
    by (auto simp: emitted_obj_def both_apps_def answer_def demo_tools_def backends_agree_def)
qed

section \<open>Trap sites\<close>

lemma str_int_inject: "str_int a = str_int b \<longleftrightarrow> a = b"
proof
  assume eq: "str_int a = str_int b"
  have "hd (str_nat n) \<noteq> CHR ''-''" for n
    using str_nat_digits [of "hd (str_nat n)" n] str_nat_nonempty [of n] by (auto simp: is_digit_def)
  then have "str_nat n \<noteq> CHR ''-'' # s" for n s by (metis list.sel(1))
  with eq show "a = b"
    by (auto simp: str_int_def split: if_splits dest: sym)
qed simp

lemma trap_codes:
  "TRAPSITE_CODE_TO_KIND = [(41, ''Assert''), (42, ''Bounds''), (43, ''DivideByZero''), (44, ''IntegerOverflow''),
     (45, ''InvalidRepresentation''), (46, ''InvalidShift''), (47, ''NullUnwrap''), (48, ''Unreachable'')]"
  by (simp add: TRAPSITE_CODE_TO_KIND_def TRAP_KINDS_def TRAPSITE_EXIT_BASE_def)

lemma trap_kind_inject:
  assumes "map_of TRAPSITE_CODE_TO_KIND a = Some k" and "map_of TRAPSITE_CODE_TO_KIND b = Some k"
  shows "a = b"
proof -
  have "distinct (map snd TRAPSITE_CODE_TO_KIND)" by (simp add: trap_codes)
  with assms show ?thesis by (auto dest!: map_of_SomeD simp: distinct_conv_nth in_set_conv_nth) (metis fst_conv snd_conv)
qed

text \<open>
  Normalising an exit never merges two different behaviours: two runs get the same outcome exactly when their
  exit codes are equal and, for a successful exit, their outputs are equal up to surrounding white space. In
  particular each of the eight trap kinds has its own outcome, apart from every other failure.
\<close>

theorem trapsite_outcome_faithful:
  "trapsite_outcome p = trapsite_outcome q \<longleftrightarrow>
     returncode p = returncode q \<and> (returncode p = 0 \<longrightarrow> strip (decode_replace (stdout p)) = strip (decode_replace (stdout q)))"
proof
  assume "trapsite_outcome p = trapsite_outcome q"
  then show "returncode p = returncode q \<and> (returncode p = 0 \<longrightarrow> strip (decode_replace (stdout p)) = strip (decode_replace (stdout q)))"
    by (auto simp: trapsite_outcome_def str_int_inject dest: trap_kind_inject split: if_splits option.splits)
qed (auto simp: trapsite_outcome_def split: option.split)

theorem trapsite_outcome_faithful_witness:
  "trapsite_outcome (answer 41 ''x'') \<noteq> trapsite_outcome (answer 42 ''x'') \<and> trapsite_outcome (answer 0 ''1'') \<noteq> trapsite_outcome (answer 1 [])"
  unfolding trapsite_outcome_faithful by (simp add: answer_def)

end
