(* ===== verification/Mcfuzz_Async.thy ===== *)
theory Mcfuzz_Async
  imports Py_Os Py_Random
begin

text \<open>
  The generator of async programs (\<open>async_program\<close> of \<open>src/tools/fuzz/mcfuzz.py\<close>): ten draws and one template. The
  template is kept as its lines, in four parts.
\<close>

record async_params =
  ap_base :: nat
  ap_branch_true :: nat
  ap_branch_false :: nat
  ap_loop_step :: nat
  ap_tail :: nat
  ap_n0 :: nat
  ap_n1 :: nat
  ap_d0 :: nat
  ap_d1 :: nat
  ap_far :: nat

definition draw_async :: "('z rng_state_scheme, async_params) prog" where
  "draw_async =
     bind (randrange 2 20) (\<lambda>base.
     bind (randrange 10 80) (\<lambda>branch_true.
     bind (randrange 90 180) (\<lambda>branch_false.
     bind (randrange 2 11) (\<lambda>loop_step.
     bind (randrange 1 17) (\<lambda>tl.
     bind (randrange 0 4) (\<lambda>n0.
     bind (randrange 1 5) (\<lambda>n1.
     bind (randrange 0 3) (\<lambda>d0.
     bind (randrange 1 4) (\<lambda>d1.
     bind (randrange 20 80) (\<lambda>k.
       ret \<lparr>ap_base = base, ap_branch_true = branch_true, ap_branch_false = branch_false, ap_loop_step = loop_step, ap_tail = tl,
            ap_n0 = n0, ap_n1 = n1, ap_d0 = d0, ap_d1 = d1, ap_far = d1 + k\<rparr>))))))))))"

definition async_runtime :: "string list" where
  "async_runtime =
    [''trait Future {'',
     ''    fn poll(self: *mut Self) -> bool;'',
     ''    fn cancel(self: *mut Self) -> void;'',
     ''}'',
     [],
     ''fn run_to_completion(f: *mut dyn Future, idle: fn() -> void) -> u64 {'',
     ''    var ticks: u64 = 0;'',
     ''    while !f.poll() {'',
     ''        (idle)();'',
     ''        ticks = ticks + 1;'',
     ''    }'',
     ''    return ticks;'',
     ''}'',
     [],
     ''global g_clock: u64 = 0;'',
     ''fn tick_idle() -> void { g_clock = g_clock + 1; }'',
     [],
     ''global g_open: i32 = 0;'',
     ''struct ValFut { deadline: u64, val: i32, held: bool }'',
     ''fn mk_val(deadline: u64, val: i32) -> ValFut {'',
     ''    g_open = g_open + 1;'',
     ''    return .{ .deadline = deadline, .val = val, .held = true };'',
     ''}'',
     ''impl Future for ValFut {'',
     ''    fn poll(self: *mut ValFut) -> bool {'',
     ''        if g_clock >= self.deadline {'',
     ''            if self.held { self.held = false; g_open = g_open - 1; }'',
     ''            return true;'',
     ''        }'',
     ''        return false;'',
     ''    }'',
     ''    fn cancel(self: *mut ValFut) -> void {'',
     ''        if self.held { self.held = false; g_open = g_open - 1; }'',
     ''    }'',
     ''}'',
     ''fn ValFut_take_result(self: *mut ValFut) -> i32 { return self.val; }'',
     ''fn ValFut_cancel(self: *mut ValFut) -> void {'',
     ''    if self.held { self.held = false; g_open = g_open - 1; }'',
     ''}'',
     []]"

definition async_functions :: "async_params \<Rightarrow> string list" where
  "async_functions p =
    [''async fn seq(a: i32, b: i32, d: u64) -> i32 {'',
     ''    let x: i32 = await mk_val(d, a + '' @ str_nat (ap_base p) @ '');'',
     ''    let y: i32 = await mk_val(d, x + b);'',
     ''    return y + '' @ str_nat (ap_tail p) @ '';'',
     ''}'',
     [],
     ''async fn branch(flag: bool, a: i32, d: u64) -> i32 {'',
     ''    let pre: i32 = await mk_val(d, a);'',
     ''    var out: i32 = 0;'',
     ''    if flag {'',
     ''        let t: i32 = await mk_val(d, pre + '' @ str_nat (ap_branch_true p) @ '');'',
     ''        out = t + 1;'',
     ''    } else {'',
     ''        let e: i32 = await mk_val(d, pre + '' @ str_nat (ap_branch_false p) @ '');'',
     ''        out = e + 2;'',
     ''    }'',
     ''    return out;'',
     ''}'',
     [],
     ''async fn loop_sum(n: i32, d: u64) -> i32 {'',
     ''    var acc: i32 = 0;'',
     ''    var i: i32 = 0;'',
     ''    while i < n {'',
     ''        let v: i32 = await mk_val(d, i * '' @ str_nat (ap_loop_step p) @ '');'',
     ''        acc = acc + v;'',
     ''        i = i + 1;'',
     ''    }'',
     ''    return acc;'',
     ''}'',
     [],
     ''async fn mixed(flag: bool, n: i32, dpre: u64, dloop: u64) -> i32 {'',
     ''    let first: i32 = await mk_val(dpre, '' @ str_nat (ap_base p) @ '');'',
     ''    var pick: i32 = 0;'',
     ''    if flag {'',
     ''        let t: i32 = await mk_val(dpre, first + '' @ str_nat (ap_branch_true p) @ '');'',
     ''        pick = t;'',
     ''    } else {'',
     ''        let e: i32 = await mk_val(dpre, first + '' @ str_nat (ap_branch_false p) @ '');'',
     ''        pick = e;'',
     ''    }'',
     ''    var sum: i32 = 0;'',
     ''    var j: i32 = 0;'',
     ''    while j < n {'',
     ''        let v: i32 = await mk_val(dloop, j + '' @ str_nat (ap_tail p) @ '');'',
     ''        sum = sum + v;'',
     ''        j = j + 1;'',
     ''    }'',
     ''    return pick + sum;'',
     ''}'',
     []]"

definition async_drivers :: "string list" where
  "async_drivers =
    [''fn drive_seq(a: i32, b: i32, d: u64) -> i32 {'',
     ''    var f: seq__Fut = seq(a, b, d);'',
     ''    run_to_completion(&f, tick_idle);'',
     ''    return seq__Fut_take_result(&f);'',
     ''}'',
     [],
     ''fn drive_branch(flag: bool, a: i32, d: u64) -> i32 {'',
     ''    var f: branch__Fut = branch(flag, a, d);'',
     ''    run_to_completion(&f, tick_idle);'',
     ''    return branch__Fut_take_result(&f);'',
     ''}'',
     [],
     ''fn drive_loop(n: i32, d: u64) -> i32 {'',
     ''    var f: loop_sum__Fut = loop_sum(n, d);'',
     ''    run_to_completion(&f, tick_idle);'',
     ''    return loop_sum__Fut_take_result(&f);'',
     ''}'',
     [],
     ''fn drive_mixed(flag: bool, n: i32, dpre: u64, dloop: u64) -> i32 {'',
     ''    var f: mixed__Fut = mixed(flag, n, dpre, dloop);'',
     ''    run_to_completion(&f, tick_idle);'',
     ''    return mixed__Fut_take_result(&f);'',
     ''}'',
     []]"

definition async_harness :: "async_params \<Rightarrow> string list" where
  "async_harness p =
    [''export fn harness() -> u64 {'',
     ''    var out: u64 = 0;'',
     [],
     ''    g_clock = 0; g_open = 0;'',
     ''    out = out ^ (drive_seq(3, 7, '' @ str_nat (ap_d0 p) @ '') as u64);'',
     ''    out = out ^ ((g_open as u64) << 8);'',
     [],
     ''    g_clock = 0; g_open = 0;'',
     ''    out = out ^ ((drive_branch(true, 5, '' @ str_nat (ap_d1 p) @ '') as u64) << 1);'',
     ''    out = out ^ ((g_open as u64) << 16);'',
     [],
     ''    g_clock = 0; g_open = 0;'',
     ''    out = out ^ ((drive_branch(false, 5, '' @ str_nat (ap_d0 p) @ '') as u64) << 2);'',
     ''    out = out ^ ((g_open as u64) << 24);'',
     [],
     ''    g_clock = 0; g_open = 0;'',
     ''    out = out ^ ((drive_loop('' @ str_nat (ap_n0 p) @ '', '' @ str_nat (ap_d0 p) @ '') as u64) << 3);'',
     ''    out = out ^ ((g_open as u64) << 32);'',
     [],
     ''    g_clock = 0; g_open = 0;'',
     ''    out = out ^ ((drive_loop('' @ str_nat (ap_n1 p) @ '', '' @ str_nat (ap_d1 p) @ '') as u64) << 4);'',
     ''    out = out ^ ((g_open as u64) << 40);'',
     [],
     ''    g_clock = 0; g_open = 0;'',
     ''    out = out ^ ((drive_mixed(true, '' @ str_nat (ap_n1 p) @ '', '' @ str_nat (ap_d1 p) @ '', '' @ str_nat (ap_d1 p) @ '') as u64) << 5);'',
     ''    out = out ^ ((g_open as u64) << 48);'',
     [],
     ''    g_clock = 0; g_open = 0;'',
     ''    var c0: mixed__Fut = mixed(false, '' @ str_nat (ap_n1 p) @ '', '' @ str_nat (ap_d1 p) @ '', '' @ str_nat (ap_far p) @ '');'',
     ''    let p0: bool = mixed__Fut__poll(&c0);'',
     ''    if !p0 && g_open == 1 { out = out ^ 0x4000000000000000; }'',
     ''    mixed__Fut_cancel(&c0);'',
     ''    if g_open == 0 { out = out ^ 0x2000000000000000; }'',
     ''    let p1: bool = mixed__Fut__poll(&c0);'',
     ''    if p1 && g_open == 0 { out = out ^ 0x1000000000000000; }'',
     [],
     ''    return out;'',
     ''}'']"

text \<open>The template ends with a newline.\<close>

definition async_text :: "async_params \<Rightarrow> string" where
  "async_text p = join nl (async_runtime @ async_functions p @ async_drivers @ async_harness p) @ nl"

definition async_program :: "('z rng_state_scheme, string) prog" where
  "async_program = bind draw_async (\<lambda>p. ret (async_text p))"

section \<open>What the programs look like\<close>

text \<open>Plain ASCII text without a carriage return.\<close>

definition plain_char :: "char \<Rightarrow> bool" where
  "plain_char c \<longleftrightarrow> (of_char c :: nat) < 128 \<and> c \<noteq> CHR 0x0D"

lemma plain_Char [code]:
  "plain_char (Char b0 b1 b2 b3 b4 b5 b6 b7) \<longleftrightarrow> \<not> b7 \<and> (b4 \<or> b5 \<or> b6 \<or> \<not> b3 \<or> \<not> b2 \<or> b1 \<or> \<not> b0)"
  by (cases b0; cases b1; cases b2; cases b3; cases b4; cases b5; cases b6; cases b7) (simp_all add: plain_char_def)

lemma plain_append: "list_all plain_char (a @ b) \<longleftrightarrow> list_all plain_char a \<and> list_all plain_char b"
  by simp

lemma plain_join: "list_all plain_char sep \<Longrightarrow> list_all (list_all plain_char) xs \<Longrightarrow> list_all plain_char (join sep xs)"
  by (induction sep xs rule: join.induct) auto

lemma plain_str_nat: "list_all plain_char (str_nat n)"
  by (auto simp: list_all_iff plain_char_def is_digit_def dest!: str_nat_digits)

lemma plain_runtime: "list_all (list_all plain_char) async_runtime"
  unfolding async_runtime_def by (simp add: plain_Char)

lemma plain_drivers: "list_all (list_all plain_char) async_drivers"
  unfolding async_drivers_def by (simp add: plain_Char)

lemma plain_functions: "list_all (list_all plain_char) (async_functions p)"
  unfolding async_functions_def
  by (simp only: list.pred_inject plain_append plain_str_nat simp_thms) (simp add: plain_Char)

lemma plain_harness: "list_all (list_all plain_char) (async_harness p)"
  unfolding async_harness_def
  by (simp only: list.pred_inject plain_append plain_str_nat simp_thms) (simp add: plain_Char)

lemma plain_async_text: "list_all plain_char (async_text p)"
  unfolding async_text_def
  by (simp add: plain_runtime plain_functions plain_drivers plain_harness plain_Char plain_join)

lemma plain_ascii: "list_all plain_char s \<Longrightarrow> ascii s \<and> CHR 0x0D \<notin> set s"
  by (auto simp: ascii_def plain_char_def list_all_iff)

text \<open>The ranges of the ten draws.\<close>

definition params_ok :: "async_params \<Rightarrow> bool" where
  "params_ok p \<longleftrightarrow> 2 \<le> ap_base p \<and> ap_base p < 20 \<and> ap_branch_true p < 80 \<and> ap_branch_false p < 180 \<and>
     2 \<le> ap_loop_step p \<and> ap_loop_step p < 11 \<and> 1 \<le> ap_tail p \<and> ap_tail p < 17 \<and> ap_n0 p < 4 \<and> 1 \<le> ap_n1 p \<and> ap_n1 p < 5 \<and>
     ap_d0 p < 3 \<and> 1 \<le> ap_d1 p \<and> ap_d1 p < 4 \<and> ap_d1 p + 20 \<le> ap_far p \<and> ap_far p < 83"

lemma wp_draw_async: "wp draw_async (\<lambda>p s'. params_ok p \<and> same_frame s s') s"
  unfolding draw_async_def by (intro wp_intro) (auto simp: params_ok_def same_frame_def)

lemma join_append: "xs \<noteq> [] \<Longrightarrow> ys \<noteq> [] \<Longrightarrow> join sep (xs @ ys) = join sep xs @ sep @ join sep ys"
  by (induction sep xs rule: join.induct) (auto simp: neq_Nil_conv)

lemma async_text_harness: "contains (async_text p) (''export fn harness() -> u64 {'' @ nl)"
proof -
  obtain ls l2 where h: "async_harness p = ''export fn harness() -> u64 {'' # l2 # ls"
    unfolding async_harness_def by blast
  have "async_text p = (join nl (async_runtime @ async_functions p @ async_drivers) @ nl) @
      (''export fn harness() -> u64 {'' @ nl) @ join nl (l2 # ls) @ nl"
    using join_append [of "async_runtime @ async_functions p @ async_drivers" "async_harness p" nl]
    by (simp add: async_text_def h async_runtime_def del: join.simps(1))
  then show ?thesis unfolding contains_iff by blast
qed

end
