(* ===== verification/Mcfuzz_Triage.thy ===== *)
theory Mcfuzz_Triage
  imports Py_Regex
begin

text \<open>
  Findings and what \<open>tools/fuzz/mcfuzz.py\<close> does with them: the message a failing seed produces, the
  root-cause signature read back from it, the line-greedy shrinker, the triage records with their
  commands, the automatic shrinking of one finding per signature, and the campaign of \<open>main\<close> with its
  serial re-verification of suspected hangs. The program generator and the oracle are parameters here:
  a function from a seed to a source, and from a seed and a source to a finding.
\<close>

section \<open>Signatures\<close>

text \<open>The fixed pieces of a finding's message.\<close>

definition fail_tag :: string where
  "fail_tag = ''FAIL seed=''"

definition confirmed_tag :: string where
  "confirmed_tag = ''[confirmed on serial re-verify]''"

definition reproduce_tag :: string where
  "reproduce_tag = ''(reproduce: tools/fuzz/mcfuzz.py gen ''"

definition fail_seed_re :: matcher where
  "fail_seed_re = rx_seqs [rx_lit fail_tag, rx_group (rx_plus is_digit), rx_lit '':'', rx_star is_space,
     rx_group (rx_star (\<lambda>_. True))]"

definition split_finding :: "string \<Rightarrow> int option \<times> string" where
  "split_finding finding =
     (let t = strip finding in
      case re_match fail_seed_re t of
        Some (_, _, [seed, body]) \<Rightarrow> (Some (int (val_digits 0 seed)), body)
      | _ \<Rightarrow> (None, t))"

definition confirmed_re :: matcher where
  "confirmed_re = rx_seqs [rx_plus is_space, rx_lit confirmed_tag, rx_star is_space, rx_end]"

definition reproduce_re :: matcher where
  "reproduce_re = rx_seqs [rx_plus is_space, rx_lit reproduce_tag, rx_plus is_digit,
     rx_lit '')'', rx_star is_space, rx_end]"

definition finding_body :: "string \<Rightarrow> string" where
  "finding_body finding = strip (re_sub reproduce_re [] (re_sub confirmed_re [] (snd (split_finding finding))))"

text \<open>\<open>s.strip("-")\<close>, and the character classes of the normalising substitutions.\<close>

definition strip_dash :: "string \<Rightarrow> string" where
  "strip_dash s = rev (dropWhile (\<lambda>c. c = CHR ''-'') (rev (dropWhile (\<lambda>c. c = CHR ''-'') s)))"

definition az09 :: "char \<Rightarrow> bool" where
  "az09 c \<longleftrightarrow> is_digit c \<or> (97 \<le> (of_char c :: nat) \<and> (of_char c :: nat) \<le> 122)"

definition AZ :: "char \<Rightarrow> bool" where
  "AZ c \<longleftrightarrow> 65 \<le> (of_char c :: nat) \<and> (of_char c :: nat) \<le> 90"

lemma AZ_code [code]: "AZ c \<longleftrightarrow> c \<in> set upper_letters"
  unfolding AZ_def by (simp add: between_ranges)

lemma az09_code [code]: "az09 c \<longleftrightarrow> is_digit c \<or> c \<in> set lower_letters"
  unfolding az09_def by (simp add: between_ranges)

definition tmp_re :: matcher where
  "tmp_re = rx_seqs [rx_lit ''/'', rx_opt (rx_lit ''private/''), rx_lit ''tmp/'',
     rx_plus (\<lambda>c. \<not> is_space c \<and> c \<noteq> CHR '':'' \<and> c \<noteq> CHR '')'')]"

definition seed_re :: matcher where
  "seed_re = rx_seqs [rx_boundary, rx_lit ''seed='', rx_plus is_digit, rx_boundary]"

definition number_re :: matcher where
  "number_re = rx_seqs [rx_boundary, rx_plus is_digit, rx_boundary]"

definition noise_re :: matcher where
  "noise_re = rx_plus (\<lambda>c. \<not> az09 c \<and> c \<notin> {CHR ''_'', CHR ''<'', CHR ''>'', CHR ''#'', CHR ''.'', CHR ''-''})"

text \<open>\<open>_signature_fallback\<close>, without and with its tag.\<close>

definition fallback_text :: "string \<Rightarrow> string" where
  "fallback_text t =
     (let s = take 96 (strip_dash (re_sub noise_re ''-'' (re_sub number_re ''#'' (re_sub seed_re ''seed=#''
        (re_sub tmp_re ''<tmp>'' (lower t)))))) in
      if s = [] then ''empty'' else s)"

definition signature_fallback :: "string \<Rightarrow> string" where
  "signature_fallback t = ''fallback:'' @ fallback_text t"

text \<open>\<open>re.sub(r"[^a-z0-9]+", "-", x.lower()).strip("-")\<close>.\<close>

definition slug :: "string \<Rightarrow> string" where
  "slug x = strip_dash (re_sub (rx_plus (\<lambda>c. \<not> az09 c)) ''-'' (lower x))"

definition stage_char :: "char \<Rightarrow> bool" where
  "stage_char c \<longleftrightarrow> is_word c \<or> c = CHR ''-''"

definition error_code_re :: matcher where
  "error_code_re = rx_seqs [rx_boundary, rx_lit ''E_'', rx_plus (\<lambda>c. AZ c \<or> is_digit c \<or> c = CHR ''_''), rx_boundary]"

definition runtime_error_re :: matcher where
  "runtime_error_re = rx_seqs [rx_lit ''runtime error:'', rx_star is_space,
     rx_group (rx_plus (\<lambda>c. c \<noteq> CHR '':'' \<and> c \<noteq> CHR 0x0A))]"

definition asan_error_re :: matcher where
  "asan_error_re = rx_seqs [rx_lit ''ERROR: AddressSanitizer:'', rx_star is_space,
     rx_group (rx_plus (\<lambda>c. c \<noteq> CHR '' '' \<and> c \<noteq> CHR 0x0A))]"

definition caps_char :: "char \<Rightarrow> bool" where
  "caps_char c \<longleftrightarrow> AZ c \<or> c = CHR ''-''"

definition divergence_re :: matcher where
  "divergence_re = rx_seqs [rx_group (rx_seq (rx_plus caps_char) (rx_many (rx_seq (rx_lit '' '') (rx_plus caps_char)))),
     rx_lit '' DIVERGENCE ('', rx_group (rx_plus (\<lambda>c. c \<noteq> CHR '')'')), rx_lit '')'']"

definition backend_divergence_re :: matcher where
  "backend_divergence_re = rx_seqs [rx_lit ''BACKEND DIVERGENCE ('', rx_group (rx_plus (\<lambda>c. c \<noteq> CHR '')'')), rx_lit '')'']"

definition crashed_re :: matcher where
  "crashed_re = rx_seqs [rx_boundary, rx_lit ''mcc '', rx_group (rx_plus stage_char), rx_lit '' CRASHED (signal '',
     rx_group (rx_plus is_digit), rx_lit '')'']"

definition hangs_re :: matcher where
  "hangs_re = rx_seqs [rx_boundary, rx_lit ''mcc '', rx_group (rx_plus stage_char), rx_lit '' HANGS'',
     rx_opt (rx_seqs [rx_lit '' (>'', rx_star (\<lambda>c. c \<noteq> CHR '')''), rx_lit '')''])]"

definition inconsistency_re :: matcher where
  "inconsistency_re = rx_seqs [rx_lit ''INTERNAL INCONSISTENCY: mcc '', rx_group (rx_plus stage_char)]"

definition roundtrip_re :: matcher where
  "roundtrip_re = rx_seqs [rx_lit ''ROUNDTRIP '', rx_group (rx_plus (\<lambda>c. AZ c \<or> c = CHR '' '')), rx_lit '':'']"

definition ubsan_kind :: "string \<Rightarrow> string" where
  "ubsan_kind body = (case re_search runtime_error_re body of
     Some (_, [k]) \<Rightarrow> re_sub (rx_plus is_space) ''-'' (lower (strip k)) | _ \<Rightarrow> ''abort'')"

definition asan_kind :: "string \<Rightarrow> string" where
  "asan_kind body = (case re_search asan_error_re body of
     Some (_, [k]) \<Rightarrow> re_sub (rx_plus (\<lambda>c. \<not> az09 c \<and> c \<noteq> CHR ''_'' \<and> c \<noteq> CHR ''-'')) ''-'' (lower (strip k))
   | _ \<Rightarrow> ''abort'')"

text \<open>The last tests of \<open>finding_signature\<close>, by substring.\<close>

definition signature_tail :: "string \<Rightarrow> string" where
  "signature_tail body =
     (if contains body ''emit/compile failed'' then ''compile:emit-compile-failed''
      else if contains body ''link failed'' then ''compile:link-failed''
      else if contains body ''mcc check rejected a generated program'' then
        ''generator:mcc-check-rejected-generated-program''
      else if contains body ''failed to execute'' then ''tool-exec:'' @ fallback_text body
      else signature_fallback body)"

definition artifact_bucket :: "string \<Rightarrow> string option" where
  "artifact_bucket body =
     (if startswith body ''emit-map '' then Some ''artifacts:emit-map''
      else if startswith body ''mir '' then Some ''artifacts:lower-mir''
      else if startswith body ''ir '' then Some ''artifacts:inspect-ir''
      else if startswith body ''fact '' \<or> startswith body ''checked '' then Some ''artifacts:facts''
      else None)"

text \<open>
  The tests of \<open>finding_signature\<close> in their order, each with the bucket it returns when it applies; the
  first that applies decides.
\<close>

definition error_bucket :: "string \<Rightarrow> string option" where
  "error_bucket body = map_option (\<lambda>(m, _). ''compiler-error:'' @ m) (re_search error_code_re body)"

definition sanitizer_bucket :: "string \<Rightarrow> string option" where
  "sanitizer_bucket body =
     (if startswith body ''UBSan:'' then Some (''ubsan:'' @ ubsan_kind body)
      else if startswith body ''ASan:'' then Some (''asan:'' @ asan_kind body) else None)"

definition divergence_bucket :: "string \<Rightarrow> string option" where
  "divergence_bucket body =
     (case re_match divergence_re body of
        Some (_, _, [fam, sub]) \<Rightarrow>
          Some (''divergence:'' @ map (\<lambda>c. if c = CHR '' '' then CHR ''-'' else c) (lower fam) @ '':'' @ slug sub)
      | _ \<Rightarrow> None)"

definition backend_bucket :: "string \<Rightarrow> string option" where
  "backend_bucket body =
     (case re_match backend_divergence_re body of
        Some (_, _, [sub]) \<Rightarrow> Some (''divergence:backend:'' @ slug sub) | _ \<Rightarrow> None)"

definition trapsite_bucket :: "string \<Rightarrow> string option" where
  "trapsite_bucket body = (if startswith body ''TRAPSITE DIVERGENCE:'' then Some ''divergence:trapsite'' else None)"

definition crash_bucket :: "string \<Rightarrow> string option" where
  "crash_bucket body =
     (case re_search crashed_re body of
        Some (_, [stage, sig]) \<Rightarrow> Some (''crash:mcc-'' @ stage @ '':signal-'' @ sig) | _ \<Rightarrow> None)"

definition hang_bucket :: "string \<Rightarrow> string option" where
  "hang_bucket body =
     (case re_search hangs_re body of Some (_, [stage]) \<Rightarrow> Some (''hang:mcc-'' @ stage) | _ \<Rightarrow> None)"

definition inconsistency_bucket :: "string \<Rightarrow> string option" where
  "inconsistency_bucket body =
     (case re_search inconsistency_re body of
        Some (_, [stage]) \<Rightarrow> Some (''internal-inconsistency:mcc-'' @ stage) | _ \<Rightarrow> None)"

definition soundness_bucket :: "string \<Rightarrow> string option" where
  "soundness_bucket body =
     (if startswith body ''SOUNDNESS:'' then Some (''soundness:'' @ slug (takeWhile (\<lambda>c. c \<noteq> CHR ''('') body))
      else None)"

definition roundtrip_bucket :: "string \<Rightarrow> string option" where
  "roundtrip_bucket body =
     (case re_match roundtrip_re body of Some (_, _, [k]) \<Rightarrow> Some (''roundtrip:'' @ slug k) | _ \<Rightarrow> None)"

fun first_some :: "('a \<Rightarrow> 'b option) list \<Rightarrow> 'a \<Rightarrow> 'b option" where
  "first_some [] x = None"
| "first_some (f # fs) x = (case f x of Some y \<Rightarrow> Some y | None \<Rightarrow> first_some fs x)"

definition body_signature :: "string \<Rightarrow> string option \<Rightarrow> string" where
  "body_signature body oracle_name =
     (case first_some [error_bucket, sanitizer_bucket, divergence_bucket, backend_bucket, trapsite_bucket,
        crash_bucket, hang_bucket, inconsistency_bucket, soundness_bucket, roundtrip_bucket,
        (\<lambda>b. if oracle_name = Some ''artifacts'' then artifact_bucket b else None)] body of
        Some sig \<Rightarrow> sig | None \<Rightarrow> signature_tail body)"

definition finding_signature :: "string \<Rightarrow> string option \<Rightarrow> string" where
  "finding_signature finding oracle_name = body_signature (finding_body finding) oracle_name"


section \<open>Messages\<close>

text \<open>The message of \<open>run_one\<close> for an oracle's finding, and the re-verified form of it in \<open>main\<close>.\<close>

definition fail_message :: "bool \<Rightarrow> int \<Rightarrow> string \<Rightarrow> string" where
  "fail_message async seed res =
     fail_tag @ str_int seed @ '': '' @ res @ '' '' @ reproduce_tag @ str_int seed @
     (if async then '' --async'' else []) @ '')''"

definition confirmed_message :: "string \<Rightarrow> string" where
  "confirmed_message msg = msg @ '' '' @ confirmed_tag"

definition seed_of_re :: matcher where
  "seed_of_re = rx_seqs [rx_lit ''seed='', rx_group (rx_plus is_digit)]"

definition seed_of :: "string \<Rightarrow> int option" where
  "seed_of finding =
     (case re_search seed_of_re finding of Some (_, [d]) \<Rightarrow> Some (int (val_digits 0 d)) | _ \<Rightarrow> None)"

section \<open>Reading a message back\<close>

lemma mem_confirmed:
  "(a, r, g) \<in> set (confirmed_re p s) \<Longrightarrow>
   \<exists>ws v. s = ws @ confirmed_tag @ v \<and> list_all is_space ws \<and> list_all is_space v"
  unfolding confirmed_re_def rx_seqs_simps rx_mem
  by (elim exE conjE, rule exI, rule exI) (auto simp: is_space_def)

lemma mem_reproduce:
  "(a, r, g) \<in> set (reproduce_re p s) \<Longrightarrow>
   \<exists>ws ds v. s = ws @ reproduce_tag @ ds @ '')'' @ v \<and> list_all is_space ws \<and> list_all is_digit ds \<and> list_all is_space v"
  unfolding reproduce_re_def rx_seqs_simps rx_mem
  by (elim exE conjE, rule exI, rule exI, rule exI) (auto simp: is_space_def)

text \<open>
  A marker is a bracketed piece whose opening bracket occurs nowhere else in it. Behind white space at
  the end of a text, the first place where it can match is the start of that white space.
\<close>

lemma marker_first_place:
  assumes eq: "v @ ws' @ b # mark' @ post' = ws @ b # mark @ post" and v: "v \<noteq> []" "\<not> is_space (last v)"
    and ws: "list_all is_space ws" and fresh: "b \<notin> set mark" "b \<notin> set post"
  shows False
proof (cases "length v \<le> length ws")
  case True
  then have "v = take (length v) ws" using arg_cong [OF eq, of "take (length v)"] by simp
  then have "last v \<in> set ws" using v(1) by (metis in_set_takeD last_in_set)
  with ws v(2) show False by (auto simp: list_all_iff)
next
  case False
  then have "v = ws @ drop (length ws) v" using arg_cong [OF eq, of "take (length ws)"]
    by (metis append_take_drop_id append_eq_conv_conj take_append diff_is_0_eq' nat_le_linear take0 append_Nil2)
  then obtain v' where v': "v = ws @ v'" by blast
  with False have "v' \<noteq> []" by auto
  then obtain c v'' where "v' = c # v''" by (cases v') auto
  with eq v' have "v'' @ ws' @ b # mark' @ post' = mark @ post" by simp
  then have "b \<in> set (mark @ post)" by (metis in_set_conv_decomp append_assoc)
  with fresh show False by simp
qed

lemma marker_tags:
  "\<exists>t. reproduce_tag = CHR ''('' # t \<and> CHR ''('' \<notin> set t"
  "\<exists>t. confirmed_tag = CHR ''['' # t \<and> CHR ''['' \<notin> set t"
  by (simp_all add: reproduce_tag_def confirmed_tag_def)

lemma tag_heads:
  "hd (reproduce_tag @ x) = CHR ''(''" "hd (confirmed_tag @ x) = CHR ''[''" "hd confirmed_tag = CHR ''[''"
  by (simp_all add: reproduce_tag_def confirmed_tag_def)

lemma brackets_plain:
  "\<not> is_space CHR ''(''" "\<not> is_space CHR ''[''" "\<not> is_space CHR '')''" "\<not> is_space CHR '']''"
  "\<not> is_digit CHR ''(''" "\<not> is_digit CHR '')''" "\<not> is_digit CHR '':''" "is_space CHR '' ''"
  by (simp_all add: is_space_def is_digit_def)

lemma str_int_digits: "0 \<le> n \<Longrightarrow> list_all is_digit (str_int n) \<and> str_int n \<noteq> [] \<and> val_digits 0 (str_int n) = nat n"
  using str_nat_digits by (auto simp: str_int_def list_all_iff val_digits_str_nat)

lemma fresh_in_class: "list_all P xs \<Longrightarrow> \<not> P c \<Longrightarrow> c \<notin> set xs"
  by (auto simp: list_all_iff)

lemma rstrip_split: obtains ws where "s = rstrip s @ ws" "list_all is_space ws" "rstrip s = [] \<or> \<not> is_space (last (rstrip s))"
proof -
  obtain ws where ws: "s = rstrip s @ ws" "list_all is_space ws" by (rule rstrip_decomp)
  have "\<not> is_space (last (rstrip s))" if "rstrip s \<noteq> []"
    using that unfolding rstrip_def by (metis hd_dropWhile last_rev rev.simps(1) rev_rev_ident)
  with ws show thesis using that by blast
qed

lemma suffix_last: "x = u @ v \<Longrightarrow> v \<noteq> [] \<Longrightarrow> last x = last v"
  by simp

lemma sub_reproduce:
  assumes ds: "list_all is_digit ds" "ds \<noteq> []"
  shows "re_sub reproduce_re [] (res @ '' '' @ reproduce_tag @ ds @ '')'') = rstrip res"
proof -
  obtain ws where ws: "res = rstrip res @ ws" "list_all is_space ws" "rstrip res = [] \<or> \<not> is_space (last (rstrip res))"
    by (rule rstrip_split)
  obtain t where t: "reproduce_tag = CHR ''('' # t" "CHR ''('' \<notin> set t" using marker_tags by blast
  let ?y = "(ws @ '' '') @ reproduce_tag @ ds @ '')''"
  have none: "reproduce_re p (v @ ?y) = []" if v: "rstrip res = u @ v" "v \<noteq> []" for u v p
  proof (rule ccontr)
    assume "reproduce_re p (v @ ?y) \<noteq> []"
    then obtain a r g where "(a, r, g) \<in> set (reproduce_re p (v @ ?y))" by (metis list.set_intros(1) neq_Nil_conv prod_cases3)
    from mem_reproduce [OF this] obtain ws1 ds1 v1 where
      m: "v @ ?y = ws1 @ reproduce_tag @ ds1 @ '')'' @ v1" "list_all is_space ws1" "list_all is_digit ds1" "list_all is_space v1"
      by blast
    show False
    proof (rule marker_first_place [of v "ws @ '' ''" "CHR ''(''" t "ds @ '')''" ws1 t "ds1 @ '')'' @ v1"])
      show "v @ (ws @ '' '') @ CHR ''('' # t @ ds @ '')'' = ws1 @ CHR ''('' # t @ ds1 @ '')'' @ v1"
        using m(1) unfolding t(1) by simp
      show "\<not> is_space (last v)" using ws(3) v suffix_last [OF v] by auto
      show "CHR ''('' \<notin> set (ds1 @ '')'' @ v1)"
        using fresh_in_class [OF m(3) brackets_plain(5)] fresh_in_class [OF m(4) brackets_plain(1)] by simp
    qed (use v m t in auto)
  qed
  have "first_is reproduce_re p ((ws @ '' '') @ reproduce_tag @ ds @ '')'' @ [])
      ((ws @ '' '') @ reproduce_tag @ ds @ '')'' @ [], [], [])" for p
    unfolding reproduce_re_def rx_seqs_simps
    by (intro walk_plus walk_lit walk_end) (use ws ds brackets_plain in \<open>auto simp: tag_heads\<close>)
  then have "\<exists>a g rest. reproduce_re p ?y = (a, [], g) # rest" for p unfolding first_is_def append_Nil2 append_assoc by blast
  from re_sub_at_end [of "rstrip res" reproduce_re ?y "[]" None, OF none this]
  have "re_sub reproduce_re [] (rstrip res @ ?y) = rstrip res" by (simp add: re_sub_def)
  with ws(1) show ?thesis by (metis append_assoc)
qed

lemma sub_confirmed:
  "re_sub confirmed_re [] (res @ '' '' @ confirmed_tag) = rstrip res"
proof -
  obtain ws where ws: "res = rstrip res @ ws" "list_all is_space ws" "rstrip res = [] \<or> \<not> is_space (last (rstrip res))"
    by (rule rstrip_split)
  obtain t where t: "confirmed_tag = CHR ''['' # t" "CHR ''['' \<notin> set t" using marker_tags by blast
  let ?y = "(ws @ '' '') @ confirmed_tag"
  have none: "confirmed_re p (v @ ?y) = []" if v: "rstrip res = u @ v" "v \<noteq> []" for u v p
  proof (rule ccontr)
    assume "confirmed_re p (v @ ?y) \<noteq> []"
    then obtain a r g where "(a, r, g) \<in> set (confirmed_re p (v @ ?y))" by (metis list.set_intros(1) neq_Nil_conv prod_cases3)
    from mem_confirmed [OF this] obtain ws1 v1 where
      m: "v @ ?y = ws1 @ confirmed_tag @ v1" "list_all is_space ws1" "list_all is_space v1"
      by blast
    show False
    proof (rule marker_first_place [of v "ws @ '' ''" "CHR ''[''" t "[]" ws1 t v1])
      show "v @ (ws @ '' '') @ CHR ''['' # t @ [] = ws1 @ CHR ''['' # t @ v1"
        using m(1) unfolding t(1) by simp
      show "\<not> is_space (last v)" using ws(3) v suffix_last [OF v] by auto
      show "CHR ''['' \<notin> set v1" using fresh_in_class [OF m(3) brackets_plain(2)] .
    qed (use v m t in auto)
  qed
  have "first_is confirmed_re p ((ws @ '' '') @ confirmed_tag @ []) ((ws @ '' '') @ confirmed_tag @ [], [], [])" for p
    unfolding confirmed_re_def rx_seqs_simps
    by (intro walk_plus walk_lit walk_end) (use ws brackets_plain in \<open>auto simp: tag_heads\<close>)
  then have "\<exists>a g rest. confirmed_re p ?y = (a, [], g) # rest" for p unfolding first_is_def append_Nil2 append_assoc by blast
  from re_sub_at_end [of "rstrip res" confirmed_re ?y "[]" None, OF none this]
  have "re_sub confirmed_re [] (rstrip res @ ?y) = rstrip res" by (simp add: re_sub_def)
  with ws(1) show ?thesis by (metis append_assoc)
qed

text \<open>A text whose last character is neither white space nor \<open>]\<close> has no confirmation marker.\<close>

lemma sub_confirmed_none:
  assumes "s \<noteq> []" "\<not> is_space (last s)" "last s \<noteq> CHR '']''"
  shows "re_sub confirmed_re [] s = s"
  unfolding re_sub_def
proof (rule re_sub_no_match, rule ccontr)
  fix u v p assume v: "s = u @ v" "v \<noteq> []" "confirmed_re p v \<noteq> []"
  then obtain a r g where "(a, r, g) \<in> set (confirmed_re p v)" by (metis list.set_intros(1) neq_Nil_conv prod_cases3)
  from mem_confirmed [OF this] obtain ws w where w: "v = ws @ confirmed_tag @ w" "list_all is_space w" by blast
  show False
  proof (cases "w = []")
    case True
    with w v assms(3) show False by (simp add: confirmed_tag_def)
  next
    case False
    then have "last s = last w" using w v by simp
    with False w(2) assms(2) show False by (auto simp: list_all_iff)
  qed
qed

text \<open>The head of a message.\<close>

lemma strip_trimmed: "trimmed s \<Longrightarrow> strip s = s"
  using strip_padded [of s "[]" "[]"] by simp

lemma split_fail_message:
  assumes "list_all is_digit ds" "ds \<noteq> []" "rest \<noteq> []" "\<not> is_space (last rest)"
  shows "split_finding (fail_tag @ ds @ '':'' @ rest) = (Some (int (val_digits 0 ds)), lstrip rest)"
proof -
  let ?t = "fail_tag @ ds @ '':'' @ rest"
  obtain ws where ws: "rest = ws @ lstrip rest" "list_all is_space ws" by (rule lstrip_decomp)
  have tr: "trimmed ?t" using assms(3,4) by (simp add: trimmed_def fail_tag_def is_space_def)
  have hd: "lstrip rest = [] \<or> \<not> is_space (hd (lstrip rest))"
    unfolding lstrip_def using hd_dropWhile by blast
  have "first_is fail_seed_re None (fail_tag @ ds @ '':'' @ ws @ lstrip rest @ [])
      (fail_tag @ ds @ '':'' @ ws @ lstrip rest @ [], [], [ds, lstrip rest])"
    unfolding fail_seed_re_def rx_seqs_simps
    by (intro walk_lit walk_group_plus walk_star walk_group_star first_empty)
      (use assms ws hd brackets_plain in \<open>auto simp: list_all_iff\<close>)
  then have "re_match fail_seed_re ?t = Some (?t, [], [ds, lstrip rest])"
    using ws(1) first_match by fastforce
  then show ?thesis using strip_trimmed [OF tr] by (simp add: split_finding_def)
qed

lemma strip_via_rstrip: "strip (rstrip (lstrip s)) = strip s"
  using strip_trimmed [OF trimmed_strip [of s]] by (simp add: strip_def)

lemma lstrip_keep: "strip res \<noteq> [] \<Longrightarrow> lstrip (res @ y) = lstrip res @ y"
proof (induction res)
  case (Cons c cs)
  then show ?case by (cases "is_space c") (simp_all add: lstrip_def strip_def)
qed (simp add: strip_def lstrip_def rstrip_def)

lemma rstrip_keep: "s \<noteq> [] \<Longrightarrow> \<not> is_space (last s) \<Longrightarrow> rstrip s = s"
  by (cases "rev s") (auto simp: rstrip_def)

lemma split_message:
  assumes "0 \<le> seed" "x \<noteq> []" "\<not> is_space (last x)"
  shows "split_finding (fail_tag @ str_int seed @ '': '' @ x) = (Some seed, lstrip x)"
  using split_fail_message [of "str_int seed" "'' '' @ x"] str_int_digits [OF assms(1)] assms
  by (simp add: lstrip_def brackets_plain)

lemma body_of_tagged:
  assumes "0 \<le> seed" "strip res \<noteq> []"
  shows "strip (re_sub reproduce_re [] (lstrip res @ '' '' @ reproduce_tag @ str_int seed @ '')'')) = strip res"
  using str_int_digits [OF assms(1)] by (simp only: sub_reproduce strip_via_rstrip simp_thms)

lemma split_of_messages:
  assumes "0 \<le> seed" and "strip res \<noteq> []"
  shows "split_finding (fail_message False seed res) =
      (Some seed, lstrip res @ '' '' @ reproduce_tag @ str_int seed @ '')'')"
    and "split_finding (confirmed_message (fail_message False seed res)) =
      (Some seed, (lstrip res @ '' '' @ reproduce_tag @ str_int seed @ '')'') @ '' '' @ confirmed_tag)"
proof -
  let ?t = "'' '' @ reproduce_tag @ str_int seed @ '')''"
  show "split_finding (fail_message False seed res) = (Some seed, lstrip res @ ?t)"
    using split_message [OF assms(1), of "res @ ?t"] lstrip_keep [OF assms(2), of ?t] brackets_plain
    by (simp add: fail_message_def)
  show "split_finding (confirmed_message (fail_message False seed res)) =
      (Some seed, (lstrip res @ ?t) @ '' '' @ confirmed_tag)"
    using split_message [OF assms(1), of "res @ ?t @ '' '' @ confirmed_tag"]
      lstrip_keep [OF assms(2), of "?t @ '' '' @ confirmed_tag"] brackets_plain
    by (simp add: fail_message_def confirmed_message_def confirmed_tag_def)
qed

lemma body_of_messages:
  assumes "0 \<le> seed" and "strip res \<noteq> []"
  shows "finding_body (fail_message False seed res) = strip res"
    and "finding_body (confirmed_message (fail_message False seed res)) = strip res"
proof -
  let ?t = "'' '' @ reproduce_tag @ str_int seed @ '')''"
  have "re_sub confirmed_re [] (lstrip res @ ?t) = lstrip res @ ?t"
    by (rule sub_confirmed_none) (simp_all add: brackets_plain)
  then show "finding_body (fail_message False seed res) = strip res"
    using body_of_tagged [OF assms] by (simp only: finding_body_def split_of_messages [OF assms] snd_conv)
  have "re_sub confirmed_re [] ((lstrip res @ ?t) @ '' '' @ confirmed_tag) = lstrip res @ ?t"
    unfolding sub_confirmed by (rule rstrip_keep) (simp_all add: brackets_plain)
  then show "finding_body (confirmed_message (fail_message False seed res)) = strip res"
    using body_of_tagged [OF assms] by (simp only: finding_body_def split_of_messages [OF assms] snd_conv)
qed

text \<open>
  What the triage reads back is what the oracle said: the body of the message that a campaign prints
  for a finding, re-verified serially or not, is the oracle's own text without surrounding white space,
  whatever else that text contains; and the seed read back is the seed that was run.
\<close>

theorem finding_body_of_message:
  assumes "0 \<le> seed" and "strip res \<noteq> []"
  shows "finding_body (fail_message False seed res) = strip res \<and>
    finding_body (confirmed_message (fail_message False seed res)) = strip res \<and>
    fst (split_finding (fail_message False seed res)) = Some seed \<and>
    fst (split_finding (confirmed_message (fail_message False seed res))) = Some seed"
  by (simp add: body_of_messages [OF assms] split_of_messages [OF assms])

theorem finding_body_of_message_witness:
  "finding_body (confirmed_message (fail_message False 7 '' mcc check HANGS (>15s) on mutated input'')) =
     ''mcc check HANGS (>15s) on mutated input''"
proof -
  have s: "strip '' mcc check HANGS (>15s) on mutated input'' = ''mcc check HANGS (>15s) on mutated input''"
    by code_simp
  with finding_body_of_message [of 7 "'' mcc check HANGS (>15s) on mutated input''"] show ?thesis by simp
qed

text \<open>A text that carries none of the markers is its own body.\<close>

lemma no_fail_tag:
  assumes "\<not> contains s fail_tag"
  shows "re_match fail_seed_re s = None"
proof -
  have "(a, r, g) \<notin> set (fail_seed_re None s)" for a r g
    using assms unfolding fail_seed_re_def rx_seqs_simps rx_mem contains_iff
    by (metis append.left_neutral)
  then have "fail_seed_re None s = []" by (metis list.set_intros(1) neq_Nil_conv prod_cases3)
  then show ?thesis by (simp add: re_match_def)
qed

lemma no_marker_sub:
  assumes "\<And>p v a r g. (a, r, g) \<in> set (m p v) \<Longrightarrow> contains v tag" and "\<not> contains s tag"
  shows "re_sub m [] s = s"
  unfolding re_sub_def
proof (rule re_sub_no_match, rule ccontr)
  fix u v p assume v: "s = u @ v" "m p v \<noteq> []"
  then obtain a r g where "(a, r, g) \<in> set (m p v)" by (metis list.set_intros(1) neq_Nil_conv prod_cases3)
  then have "contains v tag" by (rule assms(1))
  with v(1) assms(2) show False by (metis append_assoc contains_iff)
qed

lemma contains_strip: "contains (strip s) p \<Longrightarrow> contains s p"
proof -
  assume c: "contains (strip s) p"
  obtain w where w: "s = w @ lstrip s" by (rule lstrip_decomp)
  obtain w' where w': "lstrip s = strip s @ w'" unfolding strip_def by (rule rstrip_decomp)
  from c obtain u v where "strip s = u @ p @ v" unfolding contains_iff by blast
  with w w' have "s = (w @ u) @ p @ (v @ w')" by (metis append_assoc)
  then show ?thesis unfolding contains_iff by blast
qed

lemma confirmed_contains: "(a, r, g) \<in> set (confirmed_re p v) \<Longrightarrow> contains v confirmed_tag"
  unfolding contains_iff by (drule mem_confirmed) blast

lemma reproduce_contains: "(a, r, g) \<in> set (reproduce_re p v) \<Longrightarrow> contains v reproduce_tag"
  unfolding contains_iff by (drule mem_reproduce) blast

lemma finding_body_plain:
  assumes "\<not> contains s fail_tag" "\<not> contains s confirmed_tag" "\<not> contains s reproduce_tag"
  shows "finding_body s = strip s"
proof -
  have "re_sub confirmed_re [] (strip s) = strip s"
    by (rule no_marker_sub [OF confirmed_contains]) (use assms(2) contains_strip in blast)+
  moreover have "re_sub reproduce_re [] (strip s) = strip s"
    by (rule no_marker_sub [OF reproduce_contains]) (use assms(3) contains_strip in blast)+
  moreover have "re_match fail_seed_re (strip s) = None"
    by (rule no_fail_tag) (use assms(1) contains_strip [of s fail_tag] in blast)
  then have "split_finding s = (None, strip s)" by (simp add: split_finding_def Let_def)
  ultimately show ?thesis using strip_trimmed [OF trimmed_strip] by (simp add: finding_body_def)
qed

text \<open>
  C29. Without \<open>--async\<close>, signatures are stable along the pipeline: for a seed that is not negative and a
  finding that is not blank and quotes none of the three markers of a message, the bucket computed from
  the message of a campaign, also after serial re-verification, is the bucket the shrinker computes from
  the oracle's raw finding. (With \<open>--async\<close> this fails, see below.)
\<close>

theorem finding_signature_stable:
  assumes "0 \<le> seed" and "strip res \<noteq> []"
    and "\<not> contains res fail_tag" and "\<not> contains res confirmed_tag" and "\<not> contains res reproduce_tag"
  shows "finding_signature (fail_message False seed res) nm = finding_signature res nm \<and>
    finding_signature (confirmed_message (fail_message False seed res)) nm = finding_signature res nm"
  using body_of_messages [OF assms(1,2)] finding_body_plain [OF assms(3-5)] by (simp add: finding_signature_def)

theorem finding_signature_stable_witness:
  "finding_signature (confirmed_message (fail_message False 7 ''mcc check HANGS (>15s) on mutated input'')) None =
   ''hang:mcc-check''"
proof -
  let ?r = "''mcc check HANGS (>15s) on mutated input''"
  have "strip ?r \<noteq> []" "\<not> contains ?r fail_tag" "\<not> contains ?r confirmed_tag" "\<not> contains ?r reproduce_tag"
    by code_simp+
  moreover have "finding_signature ?r None = ''hang:mcc-check''" by code_simp
  ultimately show ?thesis using finding_signature_stable [of 7 ?r None] by simp
qed

text \<open>A text whose last two characters are not a digit or a space and \<open>)\<close> has no reproduce marker.\<close>

lemma sub_reproduce_none:
  assumes "\<not> is_digit c" "\<not> is_space c"
  shows "re_sub reproduce_re [] (s @ [c, CHR '')'']) = s @ [c, CHR '')'']"
  unfolding re_sub_def
proof (rule re_sub_no_match, rule ccontr)
  fix u v p assume v: "s @ [c, CHR '')''] = u @ v" "v \<noteq> []" "reproduce_re p v \<noteq> []"
  then obtain a r g where "(a, r, g) \<in> set (reproduce_re p v)" by (metis list.set_intros(1) neq_Nil_conv prod_cases3)
  from mem_reproduce [OF this] obtain ws ds w
    where w: "v = ws @ reproduce_tag @ ds @ '')'' @ w" "list_all is_digit ds" "list_all is_space w" by blast
  have r: "is_digit (last (reproduce_tag @ ds)) \<or> is_space (last (reproduce_tag @ ds))"
  proof (cases "ds = []")
    case True
    then show ?thesis by (simp add: reproduce_tag_def is_space_def)
  next
    case False
    then have "last ds \<in> set ds" by simp
    with w(2) have "is_digit (last ds)" unfolding list_all_iff by blast
    with False show ?thesis by simp
  qed
  have ne: "reproduce_tag @ ds \<noteq> []" by (simp add: reproduce_tag_def)
  have "rev (s @ [c, CHR '')'']) = rev (u @ v)" using v(1) by simp
  then have e: "CHR '')'' # c # rev s = rev w @ CHR '')'' # rev (reproduce_tag @ ds) @ rev ws @ rev u"
    by (simp add: w(1))
  have "rev w = []"
  proof (cases "rev w")
    case (Cons x xs)
    with e have "x = CHR '')''" by simp
    moreover have "x \<in> set w" using Cons by (metis list.set_intros(1) set_rev)
    ultimately show ?thesis using w(3) brackets_plain by (auto simp: list_all_iff)
  qed
  with e have "c # rev s = rev (reproduce_tag @ ds) @ rev ws @ rev u" by simp
  moreover obtain t where "rev (reproduce_tag @ ds) = last (reproduce_tag @ ds) # t"
    using ne by (metis append_butlast_last_id rev_eq_Cons_iff rev_rev_ident)
  ultimately have "c = last (reproduce_tag @ ds)" by (metis append_Cons list.inject)
  with r assms show False by simp
qed

lemma body_of_async_messages:
  assumes "0 \<le> seed" and "strip res \<noteq> []"
  defines "b \<equiv> lstrip res @ '' '' @ reproduce_tag @ str_int seed @ '' --async)''"
  shows "finding_body (fail_message True seed res) = b"
    and "finding_body (confirmed_message (fail_message True seed res)) = b"
proof -
  let ?t = "'' '' @ reproduce_tag @ str_int seed @ '' --async)''"
  have split: "split_finding (fail_message True seed res) = (Some seed, b)"
    using split_message [OF assms(1), of "res @ ?t"] lstrip_keep [OF assms(2), of ?t] brackets_plain
    by (simp add: fail_message_def b_def)
  have split': "split_finding (confirmed_message (fail_message True seed res)) = (Some seed, b @ '' '' @ confirmed_tag)"
    using split_message [OF assms(1), of "res @ ?t @ '' '' @ confirmed_tag"]
      lstrip_keep [OF assms(2), of "?t @ '' '' @ confirmed_tag"] brackets_plain
    by (simp add: fail_message_def confirmed_message_def confirmed_tag_def b_def)
  have last: "b \<noteq> []" "\<not> is_space (last b)" "last b \<noteq> CHR '']''" by (simp_all add: b_def brackets_plain)
  have "re_sub reproduce_re [] ((lstrip res @ '' '' @ reproduce_tag @ str_int seed @ '' --asyn'') @ ''c)'') =
      (lstrip res @ '' '' @ reproduce_tag @ str_int seed @ '' --asyn'') @ ''c)''"
    by (rule sub_reproduce_none) (simp_all add: is_digit_def is_space_def)
  then have rep: "re_sub reproduce_re [] b = b" by (simp add: b_def)
  have "lstrip res \<noteq> []" using assms(2) by (auto simp: strip_def rstrip_def)
  moreover have "lstrip res = [] \<or> \<not> is_space (hd (lstrip res))" unfolding lstrip_def using hd_dropWhile by blast
  ultimately have "trimmed b" using last by (simp add: trimmed_def b_def)
  then have st: "strip b = b" by (rule strip_trimmed)
  show "finding_body (fail_message True seed res) = b"
    by (simp only: finding_body_def split snd_conv sub_confirmed_none [OF last] rep st)
  have "re_sub confirmed_re [] (b @ '' '' @ confirmed_tag) = b"
    unfolding sub_confirmed by (rule rstrip_keep [OF last(1,2)])
  then show "finding_body (confirmed_message (fail_message True seed res)) = b"
    by (simp only: finding_body_def split' snd_conv rep st)
qed

lemma strip_length: "length (strip s) \<le> length (lstrip s)"
  unfolding strip_def rstrip_def by (metis length_dropWhile_le length_rev)

text \<open>
  C38. With \<open>--async\<close> no message is read back as the finding it was made from: for every seed that is not
  negative and every finding that is not blank, the message ends in \<open>gen <seed> --async)\<close>, which the
  pattern of \<open>_finding_body\<close> does not strip, so the body is the finding followed by the whole reproduce
  marker, with the seed in it, also after serial re-verification, and never the finding itself.
\<close>

theorem async_marker_kept:
  assumes "0 \<le> seed" and "strip res \<noteq> []"
  shows "finding_body (fail_message True seed res) =
      lstrip res @ '' '' @ reproduce_tag @ str_int seed @ '' --async)'' \<and>
    finding_body (confirmed_message (fail_message True seed res)) = finding_body (fail_message True seed res) \<and>
    finding_body (fail_message True seed res) \<noteq> finding_body (fail_message False seed res)"
proof -
  have "lstrip res @ '' '' @ reproduce_tag @ str_int seed @ '' --async)'' \<noteq> strip res"
    using strip_length [of res] by (auto dest: arg_cong [where f = length])
  then show ?thesis
    by (simp add: body_of_async_messages [OF assms] body_of_messages [OF assms])
qed

text \<open>
  The witness shows what follows from it: the bucket of the message is not the bucket that the automatic
  shrinker computes from the raw finding.
\<close>

theorem async_marker_kept_witness:
  "finding_signature (fail_message True 3 ''NON-DETERMINISTIC emit-c: x'') (Some ''determinism'') \<noteq>
   finding_signature ''NON-DETERMINISTIC emit-c: x'' (Some ''determinism'')"
proof -
  let ?r = "''NON-DETERMINISTIC emit-c: x''"
  have s: "strip ?r \<noteq> []" by code_simp
  have "body_signature (lstrip ?r @ '' '' @ reproduce_tag @ str_int 3 @ '' --async)'') (Some ''determinism'') \<noteq>
      finding_signature ?r (Some ''determinism'')" by code_simp
  with async_marker_kept [of 3 ?r, OF _ s] show ?thesis by (simp add: finding_signature_def)
qed

end
