(* ===== verification/Mcfuzz_Shrink.thy ===== *)
theory Mcfuzz_Shrink
  imports Mcfuzz_Triage
begin

text \<open>
  The line-greedy shrinker of \<open>tools/fuzz/mcfuzz.py\<close>. The oracle run on a source
  (\<open>oracle_on_source\<close>) is a parameter: a function from a seed and a source to a finding. The two
  \<open>while\<close> loops are functions with their termination proofs.
\<close>

section \<open>The loops\<close>

text \<open>\<open>lines[:i] + lines[i + 1:]\<close>.\<close>

definition without_line :: "nat \<Rightarrow> 'a list \<Rightarrow> 'a list" where
  "without_line i ls = take i ls @ drop (Suc i) ls"

lemma length_without_line: "i < length ls \<Longrightarrow> Suc (length (without_line i ls)) = length ls"
  by (simp add: without_line_def)

lemma subseq_without_line: "subseq (without_line i ls) ls"
proof -
  have "ls = take i ls @ drop i ls" by simp
  moreover have "subseq (drop (Suc i) ls) (drop i ls)"
    by (metis Suc_eq_plus1 drop_drop add.commute suffix_drop suffix_imp_subseq)
  ultimately show ?thesis unfolding without_line_def by (metis list_emb_append_mono subseq_order.refl)
qed

text \<open>The inner loop: position, lines, and whether a line was dropped in this pass.\<close>

function shrink_pass :: "('a list \<Rightarrow> bool) \<Rightarrow> nat \<Rightarrow> 'a list \<Rightarrow> bool \<Rightarrow> 'a list \<times> bool" where
  "shrink_pass failing i ls changed =
     (if i < length ls then
        (if failing (without_line i ls) then shrink_pass failing i (without_line i ls) True
         else shrink_pass failing (i + 1) ls changed)
      else (ls, changed))"
  by pat_completeness auto
termination
  by (relation "measure (\<lambda>(failing, i, ls, changed). length ls - i)") (auto simp: without_line_def)

declare shrink_pass.simps [simp del]

lemma shrink_pass_step:
  "i < length ls \<Longrightarrow> failing (without_line i ls) \<Longrightarrow>
     shrink_pass failing i ls ch = shrink_pass failing i (without_line i ls) True"
  "i < length ls \<Longrightarrow> \<not> failing (without_line i ls) \<Longrightarrow>
     shrink_pass failing i ls ch = shrink_pass failing (i + 1) ls ch"
  "\<not> i < length ls \<Longrightarrow> shrink_pass failing i ls ch = (ls, ch)"
  by (simp_all add: shrink_pass.simps [of failing i ls])

text \<open>A pass keeps a subsequence, and drops a line exactly when it reports a change.\<close>

lemma shrink_pass_subseq:
  "shrink_pass failing i ls ch = (ls', ch') \<Longrightarrow> subseq ls' ls \<and> (ch' \<longrightarrow> ch \<or> length ls' < length ls) \<and> (ch \<longrightarrow> ch')"
proof (induction failing i ls ch arbitrary: ls' ch' rule: shrink_pass.induct)
  case (1 failing i ls ch)
  show ?case
  proof (cases "i < length ls \<and> failing (without_line i ls)")
    case True
    with "1.prems" have "shrink_pass failing i (without_line i ls) True = (ls', ch')"
      by (simp add: shrink_pass_step)
    with "1.IH"(1) True have "subseq ls' (without_line i ls)" "ch'" by auto
    then show ?thesis
      using True subseq_without_line [of i ls] length_without_line [of i ls] list_emb_length
      by (metis subseq_order.trans less_Suc_eq_le)
  next
    case False
    then show ?thesis using "1.prems" "1.IH"(2)
      by (cases "i < length ls") (auto simp: shrink_pass_step)
  qed
qed

function shrink_lines :: "('a list \<Rightarrow> bool) \<Rightarrow> 'a list \<Rightarrow> 'a list" where
  "shrink_lines failing ls =
     (case shrink_pass failing 0 ls False of (ls', changed) \<Rightarrow> if changed then shrink_lines failing ls' else ls')"
  by pat_completeness auto
termination
  by (relation "measure (\<lambda>(failing, ls). length ls)") (auto dest!: sym shrink_pass_subseq)

declare shrink_lines.simps [simp del]

definition same_failure :: "(int \<Rightarrow> string \<Rightarrow> string option) \<Rightarrow> int \<Rightarrow> string option \<Rightarrow> string \<Rightarrow> string \<Rightarrow> bool" where
  "same_failure oracle seed oracle_name sig src =
     (case oracle seed src of None \<Rightarrow> False | Some res \<Rightarrow> finding_signature res oracle_name = sig)"

definition shrink_source ::
  "(int \<Rightarrow> string \<Rightarrow> string option) \<Rightarrow> string \<Rightarrow> string \<Rightarrow> int \<Rightarrow> string option \<Rightarrow> string" where
  "shrink_source oracle src sig seed oracle_name =
     join nl (shrink_lines (\<lambda>ls. same_failure oracle seed oracle_name sig (join nl ls)) (split_on CHR 0x0A src))"

section \<open>What the loops keep\<close>

lemma shrink_pass_failing:
  "failing ls \<Longrightarrow> shrink_pass failing i ls ch = (ls', ch') \<Longrightarrow> failing ls'"
proof (induction failing i ls ch arbitrary: ls' ch' rule: shrink_pass.induct)
  case (1 failing i ls ch)
  consider (drop) "i < length ls" "failing (without_line i ls)" | (keep) "i < length ls" "\<not> failing (without_line i ls)"
    | (over) "\<not> i < length ls" by blast
  then show ?case
  proof cases
    case drop
    with "1.prems"(2) have "shrink_pass failing i (without_line i ls) True = (ls', ch')"
      by (simp only: shrink_pass_step)
    from "1.IH"(1) [OF drop drop(2) this] show ?thesis .
  next
    case keep
    with "1.prems"(2) have "shrink_pass failing (i + 1) ls ch = (ls', ch')"
      using shrink_pass_step(2) [of i ls failing ch] by metis
    from "1.IH"(2) [OF keep "1.prems"(1) this] show ?thesis .
  qed (use "1.prems" in \<open>simp add: shrink_pass_step\<close>)
qed

text \<open>A pass without a change has tried every line from its start.\<close>

lemma shrink_pass_unchanged:
  "shrink_pass failing i ls False = (ls', False) \<Longrightarrow>
   ls' = ls \<and> (\<forall>j. i \<le> j \<and> j < length ls \<longrightarrow> \<not> failing (without_line j ls))"
proof (induction failing i ls "False" arbitrary: ls' rule: shrink_pass.induct)
  case (1 failing i ls)
  show ?case
  proof (cases "i < length ls")
    case True
    have "\<not> failing (without_line i ls)"
      using "1.prems" True shrink_pass_subseq [of failing i "without_line i ls" True]
      by (cases "failing (without_line i ls)") (auto simp: shrink_pass_step)
    note keep = this
    with True "1.prems" have "shrink_pass failing (i + 1) ls False = (ls', False)"
      using shrink_pass_step(2) [of i ls failing False] by metis
    from "1.hyps"(2) [OF True keep this] have
      IH: "ls' = ls \<and> (\<forall>j. i + 1 \<le> j \<and> j < length ls \<longrightarrow> \<not> failing (without_line j ls))" .
    show ?thesis
    proof (intro conjI allI impI)
      fix j assume "i \<le> j \<and> j < length ls"
      then show "\<not> failing (without_line j ls)" using IH keep by (cases "i = j") auto
    qed (use IH in blast)
  qed (use "1.prems" in \<open>auto simp: shrink_pass_step(3)\<close>)
qed

lemma shrink_lines_spec:
  "subseq (shrink_lines failing ls) ls \<and> (failing ls \<longrightarrow> failing (shrink_lines failing ls)) \<and>
   (\<forall>i < length (shrink_lines failing ls). \<not> failing (without_line i (shrink_lines failing ls)))"
proof (induction failing ls rule: shrink_lines.induct)
  case (1 failing ls)
  obtain ls' ch where p: "shrink_pass failing 0 ls False = (ls', ch)" by (cases "shrink_pass failing 0 ls False")
  show ?case
  proof (cases ch)
    case True
    with p have eq: "shrink_lines failing ls = shrink_lines failing ls'" by (simp add: shrink_lines.simps [of failing ls])
    have "subseq ls' ls" using shrink_pass_subseq [OF p] by simp
    with 1 [OF p [symmetric]] True p eq shrink_pass_failing [OF _ p] show ?thesis
      using subseq_order.trans by auto
  next
    case False
    with p have "shrink_lines failing ls = ls'" by (simp add: shrink_lines.simps [of failing ls])
    with False p shrink_pass_unchanged [of failing 0 ls ls'] show ?thesis by simp
  qed
qed

text \<open>
  C13. The shrinker is a correct delta debugger: on every source whose finding has the wanted signature it
  terminates, its result still fails with that signature, is made of lines of the source in their order,
  and is minimal in the sense that dropping any single line loses the failure. The oracle may be any
  function.
\<close>

theorem shrink_source_one_minimal:
  assumes "oracle seed src = Some res" and "finding_signature res oracle_name = sig"
  shows "\<exists>ls. shrink_source oracle src sig seed oracle_name = join nl ls \<and>
    subseq ls (split_on CHR 0x0A src) \<and>
    same_failure oracle seed oracle_name sig (join nl ls) \<and>
    (\<forall>i < length ls. \<not> same_failure oracle seed oracle_name sig (join nl (without_line i ls)))"
  using shrink_lines_spec [of "\<lambda>ls. same_failure oracle seed oracle_name sig (join nl ls)" "split_on CHR 0x0A src"] assms
  by (auto simp: shrink_source_def same_failure_def)

text \<open>An oracle that fails when the source has a line \<open>B\<close>, on a three-line source.\<close>

definition demo_oracle :: "int \<Rightarrow> string \<Rightarrow> string option" where
  "demo_oracle seed src = (if ''B'' \<in> set (split_on CHR 0x0A src) then Some ''link failed'' else None)"

theorem shrink_source_one_minimal_witness:
  "\<exists>ls. shrink_source demo_oracle (''A'' @ nl @ ''B'' @ nl @ ''C'') ''compile:link-failed'' 1 None = join nl ls \<and>
    subseq ls [''A'', ''B'', ''C''] \<and> same_failure demo_oracle 1 None ''compile:link-failed'' (join nl ls)"
proof -
  have "finding_signature ''link failed'' None = ''compile:link-failed''" by code_simp
  from shrink_source_one_minimal [OF _ this, of demo_oracle 1 "''A'' @ nl @ ''B'' @ nl @ ''C''"]
  show ?thesis by (auto simp: demo_oracle_def)
qed

end
