(* ===== verification/Mcfuzz_Campaign.thy ===== *)
theory Mcfuzz_Campaign
  imports Mcfuzz_Shrink Py_Os "HOL-Library.List_Lexorder" "HOL-Library.Char_ord"
begin

text \<open>
  The campaign side of \<open>tools/fuzz/mcfuzz.py\<close>: one seed (\<open>run_one\<close>), the reproduce and shrink commands,
  triage records and their buckets, automatic shrinking, and the commands of \<open>main\<close>. What the compiler
  and the oracle answer, which tools exist, and the programs the generators print are parameters.
\<close>

section \<open>One seed\<close>

text \<open>A call that may raise \<open>OSError\<close>; the message is the text of the exception.\<close>

datatype 'a os_call = OsError string | Done 'a

text \<open>\<open>run_one\<close>: the compiler's exit status on the generated source, then the oracle's answer.\<close>

definition run_one ::
  "bool \<Rightarrow> (int \<Rightarrow> int os_call) \<Rightarrow> (int \<Rightarrow> string option os_call) \<Rightarrow> int \<Rightarrow> string option" where
  "run_one async chk oracle seed =
     (case chk seed of
        OsError e \<Rightarrow> Some (fail_tag @ str_int seed @ '': mcc check failed to execute: '' @ e)
      | Done rc \<Rightarrow>
          if rc \<noteq> 0 then Some (fail_tag @ str_int seed @ '': mcc check rejected a generated program'')
          else (case oracle seed of
                  OsError e \<Rightarrow> Some (fail_tag @ str_int seed @ '': tool failed to execute: '' @ e)
                | Done None \<Rightarrow> None
                | Done (Some res) \<Rightarrow> Some (fail_message async seed res)))"

section \<open>Commands\<close>

record fuzz_args =
  fa_cmd :: string
  fa_oracle :: string
  fa_trapping :: bool
  fa_async :: bool
  fa_mcc :: string
  fa_start :: int
  fa_count :: nat
  fa_seed :: int
  fa_triage_dir :: "string option"
  fa_shrink_failures :: bool

text \<open>\<open>shlex.quote\<close>.\<close>

definition shell_safe :: "char \<Rightarrow> bool" where
  "shell_safe c \<longleftrightarrow> is_word c \<or> c \<in> set ''@%+=:,./-''"

definition squote :: char where
  "squote = CHR 0x27"

definition quote_char :: "char \<Rightarrow> string" where
  "quote_char c = (if c = squote then [squote, CHR 0x22, squote, CHR 0x22, squote] else [c])"

definition shell_quote :: "string \<Rightarrow> string" where
  "shell_quote s =
     (if s = [] then [squote, squote]
      else if list_all shell_safe s then s
      else squote # concat (map quote_char s) @ [squote])"

definition shell_command :: "string list \<Rightarrow> string" where
  "shell_command argv = join '' '' (map shell_quote argv)"

definition mode_flags :: "fuzz_args \<Rightarrow> string list" where
  "mode_flags a = (if fa_trapping a then [''--trapping''] else []) @ (if fa_async a then [''--async''] else [])"

definition reproduce_argv :: "fuzz_args \<Rightarrow> int \<Rightarrow> string list" where
  "reproduce_argv a seed =
     [''python3'', ''tools/fuzz/mcfuzz.py'', ''run'', ''--oracle'', fa_oracle a, ''--count'', ''1'', ''--start'',
      str_int seed, ''--jobs'', ''1'', ''--mcc'', fa_mcc a] @ mode_flags a"

definition run_reproduce_command :: "fuzz_args \<Rightarrow> int \<Rightarrow> string" where
  "run_reproduce_command a seed = shell_command (reproduce_argv a seed)"

definition shrink_argv :: "fuzz_args \<Rightarrow> int \<Rightarrow> string list" where
  "shrink_argv a seed =
     [''python3'', ''tools/fuzz/mcfuzz.py'', ''shrink'', ''--seed'', str_int seed, ''--oracle'', fa_oracle a,
      ''--mcc'', fa_mcc a] @ mode_flags a"

definition shrink_command :: "fuzz_args \<Rightarrow> int \<Rightarrow> string" where
  "shrink_command a seed = shell_command (shrink_argv a seed)"

section \<open>Triage records\<close>

datatype shrink_status = NotTried | Skipped string | Minimized string

record triage =
  tr_seed :: "int option"
  tr_oracle :: string
  tr_trapping :: bool
  tr_async :: bool
  tr_signature :: string
  tr_message :: string
  tr_reproduce :: "string option"
  tr_shrink :: "string option"
  tr_confirmed :: bool
  tr_status :: shrink_status

definition triage_record :: "fuzz_args \<Rightarrow> string \<Rightarrow> bool \<Rightarrow> triage" where
  "triage_record a finding confirmed =
     (let seed = fst (split_finding finding) in
      \<lparr>tr_seed = seed, tr_oracle = fa_oracle a, tr_trapping = fa_trapping a, tr_async = fa_async a,
       tr_signature = finding_signature finding (Some (fa_oracle a)), tr_message = finding,
       tr_reproduce = map_option (run_reproduce_command a) seed,
       tr_shrink = map_option (shrink_command a) seed,
       tr_confirmed = confirmed, tr_status = NotTried\<rparr>)"

text \<open>\<open>buckets.setdefault(sig, []).append(record)\<close>, over the records.\<close>

definition add_bucket :: "(string, triage list) dict \<Rightarrow> triage \<Rightarrow> (string, triage list) dict" where
  "add_bucket bs r =
     dict_set bs (tr_signature r)
       ((case map_of bs (tr_signature r) of None \<Rightarrow> [] | Some rs \<Rightarrow> rs) @ [r])"

definition buckets :: "triage list \<Rightarrow> (string, triage list) dict" where
  "buckets records = foldl add_bucket [] records"

definition bucket_lines :: "string \<Rightarrow> triage list \<Rightarrow> string list result" where
  "bucket_lines sig items =
     (let seeds = map str_int (List.map_filter tr_seed items);
          seed_text = (if seeds = [] then [] else '' seeds='' @ join '','' (take 8 seeds));
          extra = (if length seeds > 8 then '' (+'' @ str_nat (length seeds - 8) @ '' more)'' else [])
      in case items of
           [] \<Rightarrow> Inl IndexError
         | r # _ \<Rightarrow>
             (case splitlines (finding_body (tr_message r)) of
                [] \<Rightarrow> Inl IndexError
              | l # _ \<Rightarrow>
                  Inr [''  '' @ str_nat (length items) @ ''x '' @ sig @ seed_text @ extra, ''      '' @ l]))"

fun bucket_report :: "(string, triage list) dict \<Rightarrow> string list \<Rightarrow> string list result" where
  "bucket_report bs [] = Inr []"
| "bucket_report bs (sig # sigs) =
     (case map_of bs sig of
        None \<Rightarrow> Inl (KeyError sig)
      | Some items \<Rightarrow>
          rbind (bucket_lines sig items) (\<lambda>ls. rbind (bucket_report bs sigs) (\<lambda>rest. Inr (ls @ rest))))"

definition print_bucket_summary :: "triage list \<Rightarrow> string list result" where
  "print_bucket_summary records =
     (let bs = buckets records in
      rbind (bucket_report bs (sort (map fst bs))) (\<lambda>ls. Inr (''mcfuzz bucket summary:'' # ls)))"

section \<open>Automatic shrinking\<close>

text \<open>\<open>re.sub(r"[^A-Za-z0-9_.-]+", "_", sig)\<close>.\<close>

definition safe_name :: "string \<Rightarrow> string" where
  "safe_name sig = re_sub (rx_plus (\<lambda>c. \<not> is_word c \<and> c \<noteq> CHR ''.'' \<and> c \<noteq> CHR ''-'')) ''_'' sig"

definition source_for_auto_shrink :: "(bool \<Rightarrow> bool \<Rightarrow> int \<Rightarrow> string) \<Rightarrow> fuzz_args \<Rightarrow> int \<Rightarrow> string option" where
  "source_for_auto_shrink gen a seed =
     (if fa_oracle a \<in> {''reference'', ''floatbits''} then None
      else Some (gen (fa_async a) (\<not> fa_async a \<and> fa_trapping a) seed))"

definition endswith_nl :: "string \<Rightarrow> bool" where
  "endswith_nl s \<longleftrightarrow> s \<noteq> [] \<and> last s = CHR 0x0A"

definition repro_text :: "fuzz_args \<Rightarrow> int \<Rightarrow> string \<Rightarrow> string \<Rightarrow> string" where
  "repro_text a seed sig minimal =
     ''// minimized repro for seed '' @ str_int seed @ '' (mcfuzz/'' @ fa_oracle a @ '', signature '' @ sig @ '')'' @ nl @
     minimal @ (if endswith_nl minimal then [] else nl)"

text \<open>\<open>os.path.join(dir, name)\<close> for a relative name.\<close>

definition repro_path :: "string \<Rightarrow> int \<Rightarrow> string \<Rightarrow> string" where
  "repro_path dir seed sig = path_join dir (''minimized-seed-'' @ str_int seed @ ''-'' @ safe_name sig @ ''.mc'')"

text \<open>The body of the loop for a record whose signature is new: its status, and the file it writes.\<close>

definition shrink_one ::
  "(bool \<Rightarrow> bool \<Rightarrow> int \<Rightarrow> string) \<Rightarrow> (int \<Rightarrow> string \<Rightarrow> string option) \<Rightarrow> fuzz_args \<Rightarrow> string \<Rightarrow> string \<Rightarrow> int \<Rightarrow>
   shrink_status \<times> (string \<times> string) list" where
  "shrink_one gen oracle a dir sig seed =
     (case source_for_auto_shrink gen a seed of
        None \<Rightarrow> (Skipped ''oracle does not shrink against the run source'', [])
      | Some src \<Rightarrow>
          if same_failure oracle seed (Some (fa_oracle a)) sig src then
            (Minimized (repro_path dir seed sig),
             [(repro_path dir seed sig, repro_text a seed sig (shrink_source oracle src sig seed (Some (fa_oracle a))))])
          else (Skipped ''failure did not reproduce through the shrink oracle'', []))"

fun auto_shrink ::
  "(bool \<Rightarrow> bool \<Rightarrow> int \<Rightarrow> string) \<Rightarrow> (int \<Rightarrow> string \<Rightarrow> string option) \<Rightarrow> fuzz_args \<Rightarrow> string \<Rightarrow> string list \<Rightarrow> triage list \<Rightarrow>
   triage list \<times> (string \<times> string) list" where
  "auto_shrink gen oracle a dir seen [] = ([], [])"
| "auto_shrink gen oracle a dir seen (r # rs) =
     (case tr_seed r of
        None \<Rightarrow> (let (rs', fs) = auto_shrink gen oracle a dir seen rs in (r # rs', fs))
      | Some seed \<Rightarrow>
          if tr_signature r \<in> set seen then
            (let (rs', fs) = auto_shrink gen oracle a dir seen rs in (r # rs', fs))
          else
            (let (status, files) = shrink_one gen oracle a dir (tr_signature r) seed;
                 (rs', fs) = auto_shrink gen oracle a dir (tr_signature r # seen) rs
             in (r\<lparr>tr_status := status\<rparr> # rs', files @ fs)))"

definition shrink_notices :: "triage list \<Rightarrow> string list" where
  "shrink_notices records =
     List.map_filter (\<lambda>r. case (tr_status r, tr_seed r) of
        (Minimized _, Some seed) \<Rightarrow>
          Some (''mcfuzz auto-shrink: seed='' @ str_int seed @ '' signature='' @ tr_signature r)
      | _ \<Rightarrow> None) records"

section \<open>The campaign\<close>

definition is_hang :: "string \<Rightarrow> bool" where
  "is_hang res \<longleftrightarrow> contains res ''HANGS''"

text \<open>
  The parallel phase: \<open>ex.map\<close> yields the results in the order of the seeds whatever order they finish
  in. Then the serial re-verification of the suspects. A finding is its message and whether it was
  confirmed.
\<close>

definition parallel_findings :: "(int \<Rightarrow> string option) \<Rightarrow> int list \<Rightarrow> string list" where
  "parallel_findings run seeds = filter (\<lambda>r. r \<noteq> []) (List.map_filter run seeds)"

definition recheck :: "(int \<Rightarrow> string option) \<Rightarrow> string \<Rightarrow> (string \<times> bool) option" where
  "recheck rerun res =
     (case (case seed_of res of Some seed \<Rightarrow> rerun seed | None \<Rightarrow> Some res) of
        None \<Rightarrow> None
      | Some again \<Rightarrow>
          if again = [] then None
          else if is_hang again then Some (confirmed_message again, True) else Some (again, False))"

definition campaign_findings :: "(int \<Rightarrow> string option) \<Rightarrow> (int \<Rightarrow> string option) \<Rightarrow> int list \<Rightarrow> (string \<times> bool) list" where
  "campaign_findings run rerun seeds =
     (let res = parallel_findings run seeds in
      map (\<lambda>r. (r, False)) (filter (\<lambda>r. \<not> is_hang r) res) @
      List.map_filter (recheck rerun) (filter is_hang res))"

definition py_range :: "int \<Rightarrow> nat \<Rightarrow> int list" where
  "py_range start n = map (\<lambda>k. start + int k) [0..<n]"

section \<open>The command line\<close>

definition ORACLES :: "string list" where
  "ORACLES = [''differential'', ''sanitize'', ''asan'', ''robust'', ''failclosed'', ''determinism'', ''pipeline'',
     ''artifacts'', ''roundtrip'', ''metamorphic'', ''optlevel'', ''floatbits'', ''reference'', ''trapsite'']"

definition oracle_needs_clang :: "string \<Rightarrow> string \<Rightarrow> bool" where
  "oracle_needs_clang name cmd \<longleftrightarrow>
     cmd = ''corpus'' \<or> name \<in> set [''differential'', ''sanitize'', ''asan'', ''metamorphic'', ''optlevel'', ''floatbits'',
       ''reference'', ''trapsite'']"

definition oracle_needs_llc :: "string \<Rightarrow> string \<Rightarrow> bool" where
  "oracle_needs_llc name cmd \<longleftrightarrow> cmd = ''corpus'' \<or> name \<in> set [''differential'', ''floatbits'', ''trapsite'']"

text \<open>The combinations \<open>main\<close> rejects with \<open>ap.error\<close>; the subcommands without an option have its default.\<close>

definition arg_error :: "fuzz_args \<Rightarrow> string option" where
  "arg_error a =
     (if fa_shrink_failures a \<and> (fa_triage_dir a = None \<or> fa_triage_dir a = Some []) then
        Some ''--shrink-failures requires --triage-dir''
      else if fa_async a \<and> fa_trapping a then Some ''--async and --trapping are separate generation modes''
      else if fa_async a \<and> fa_cmd a \<in> {''run'', ''shrink''} \<and> fa_oracle a \<in> {''metamorphic'', ''floatbits'', ''reference''} then
        Some ''--async does not support oracles that regenerate a different source internally''
      else None)"

text \<open>What a finished command leaves: printed lines, exit status, triage records, files written.\<close>

record finished =
  fin_out :: "string list"
  fin_code :: int
  fin_records :: "triage list"
  fin_files :: "(string \<times> string) list"

definition finish :: "string list \<Rightarrow> int \<Rightarrow> finished" where
  "finish out code = \<lparr>fin_out = out, fin_code = code, fin_records = [], fin_files = []\<rparr>"

text \<open>\<open>corpus\<close>: every file against every available oracle; the sanitizer drops out without its runtime.\<close>

definition corpus_messages :: "(string \<times> (string \<Rightarrow> string option)) list \<Rightarrow> (string \<times> string) list \<Rightarrow> string list" where
  "corpus_messages checks files =
     concat (map (\<lambda>(name, src). List.map_filter (\<lambda>(oname, oracle).
       map_option (\<lambda>res. name @ '' ['' @ oname @ '']: '' @ res) (oracle src)) checks) files)"

definition main_corpus ::
  "(string \<Rightarrow> string option) \<Rightarrow> (string \<Rightarrow> string option) \<Rightarrow> bool \<Rightarrow> (string \<times> string) list \<Rightarrow> finished" where
  "main_corpus differential sanitize ubsan files =
     (if files = [] then finish [''SKIP: mcfuzz/corpus (no corpus files)''] 0
      else
        (let checks = (''differential'', differential) # (if ubsan then [(''sanitize'', sanitize)] else []);
             note = (if ubsan then [] else [''note: mcfuzz/corpus skipping sanitize oracle (UBSan runtime unavailable for this host arch)'']);
             fails = corpus_messages checks files
         in if fails \<noteq> [] then
              finish (note @ fails @ [''FAIL: mcfuzz/corpus '' @ em_dash @ '' '' @ str_nat (length fails) @ '' regression(s) over '' @
                str_nat (length files) @ '' file(s)'']) 1
            else finish (note @ [''PASS: mcfuzz/corpus '' @ em_dash @ '' '' @ str_nat (length files) @
                '' historical-bug repro(s) stay clean (differential+sanitize)'']) 0))"

text \<open>\<open>shrink\<close>: the standard error lines come first in the output here.\<close>

definition main_shrink ::
  "(bool \<Rightarrow> bool \<Rightarrow> int \<Rightarrow> string) \<Rightarrow> (int \<Rightarrow> string \<Rightarrow> string option) \<Rightarrow> fuzz_args \<Rightarrow> finished result" where
  "main_shrink gen oracle a =
     (let seed = fa_seed a; src = gen (fa_async a) (\<not> fa_async a \<and> fa_trapping a) seed in
      case oracle seed src of
        None \<Rightarrow> Inr (finish [''seed '' @ str_int seed @ '' does not fail mcfuzz/'' @ fa_oracle a @ '' '' @ em_dash @ '' nothing to shrink''] 0)
      | Some res \<Rightarrow>
          (case splitlines res of
             [] \<Rightarrow> Inl IndexError
           | l # _ \<Rightarrow>
               (let sig = finding_signature res (Some (fa_oracle a)) in
                Inr (finish [''original finding: '' @ l, ''shrinking (signature '' @ repr_str sig @ '')...'',
                  ''// minimal repro for seed '' @ str_int seed @ '' (mcfuzz/'' @ fa_oracle a @ '', signature '' @ repr_str sig @ ''):'' @ nl @
                  shrink_source oracle src sig seed (Some (fa_oracle a))] 0))))"

definition recheck_line :: "(int \<Rightarrow> string option) \<Rightarrow> string \<Rightarrow> string" where
  "recheck_line rerun res =
     (case recheck rerun res of
        Some (msg, _) \<Rightarrow> msg
      | None \<Rightarrow> ''seed='' @ (case seed_of res of None \<Rightarrow> ''None'' | Some n \<Rightarrow> str_int n) @
          '': timeout under parallel load did NOT reproduce serially '' @ em_dash @ '' dropped as a contention flake'')"

definition oracle_summary :: "string \<Rightarrow> string" where
  "oracle_summary name =
     (case map_of [(''differential'', ''C and LLVM agree''), (''sanitize'', ''emitted C is UBSan-clean''),
        (''asan'', ''emitted C is ASan-clean''),
        (''robust'', ''mcc check never crashed/hung on mutated or grammar-hostile input''),
        (''failclosed'', ''mcc check rejected every ill-typed program (no soundness hole)''),
        (''determinism'', ''emit-c/emit-llvm are byte-deterministic''),
        (''pipeline'', ''every lowering/verify stage succeeds on check-accepted programs''),
        (''artifacts'', ''facts/lower-mir/inspect-ir/emit-map cross-artifact invariants hold''),
        (''roundtrip'', ''fmt output checks, is idempotent, preserves tokens, and lowers identically''),
        (''reference'', ''compiled output matches the independent Python interpreter''),
        (''trapsite'', ''C and LLVM agree on trap kind or normal output'')] name of
        Some t \<Rightarrow> t | None \<Rightarrow> ''no findings'')"

definition mode_text :: "fuzz_args \<Rightarrow> string" where
  "mode_text a =
     (let modes = (if fa_trapping a then [''trapping''] else []) @ (if fa_async a then [''async''] else []) in
      if modes = [] then [] else '' ('' @ join '', '' modes @ '')'')"

text \<open>The failing end of \<open>run\<close>: records, bucket summary, automatic shrinking, triage files.\<close>

definition main_fail ::
  "(bool \<Rightarrow> bool \<Rightarrow> int \<Rightarrow> string) \<Rightarrow> (int \<Rightarrow> string \<Rightarrow> string option) \<Rightarrow> fuzz_args \<Rightarrow> string list \<Rightarrow> (string \<times> bool) list \<Rightarrow> finished result" where
  "main_fail gen oracle a printed fails =
     (let records = map (\<lambda>(msg, confirmed). triage_record a msg confirmed) fails in
      rbind (print_bucket_summary records) (\<lambda>summary.
        let verdict = ''FAIL: mcfuzz/'' @ fa_oracle a @ '' '' @ em_dash @ '' '' @ str_nat (length fails) @ '' finding(s) over '' @
              str_nat (fa_count a) @ '' programs''
        in case fa_triage_dir a of
             None \<Rightarrow> Inr \<lparr>fin_out = printed @ summary @ [verdict], fin_code = 1, fin_records = records, fin_files = []\<rparr>
           | Some dir \<Rightarrow>
               if dir = [] then Inr \<lparr>fin_out = printed @ summary @ [verdict], fin_code = 1, fin_records = records, fin_files = []\<rparr>
               else
                 (let (records', files) = (if fa_shrink_failures a then auto_shrink gen oracle a dir [] records else (records, [])) in
                  Inr \<lparr>fin_out = printed @ summary @ shrink_notices records' @ [''mcfuzz triage artifacts: '' @ path_join dir ''findings.jsonl'', verdict],
                       fin_code = 1, fin_records = records', fin_files = files\<rparr>)))"

definition main_run ::
  "(bool \<Rightarrow> bool \<Rightarrow> int \<Rightarrow> string) \<Rightarrow> (int \<Rightarrow> string \<Rightarrow> string option) \<Rightarrow> bool \<Rightarrow> bool \<Rightarrow>
   (int \<Rightarrow> string option) \<Rightarrow> (int \<Rightarrow> string option) \<Rightarrow> fuzz_args \<Rightarrow> finished result" where
  "main_run gen oracle ubsan asan run rerun a =
     (if fa_oracle a = ''sanitize'' \<and> \<not> ubsan then
        Inr (finish [''SKIP: mcfuzz/sanitize '' @ em_dash @ '' UBSan runtime (compiler-rt) unavailable for this host arch''] 0)
      else if fa_oracle a = ''asan'' \<and> \<not> asan then
        Inr (finish [''SKIP: mcfuzz/asan '' @ em_dash @ '' ASan runtime (compiler-rt) unavailable for this host arch''] 0)
      else
        (let seeds = py_range (fa_start a) (fa_count a);
             res = parallel_findings run seeds;
             printed = filter (\<lambda>r. \<not> is_hang r) res @ map (recheck_line rerun) (filter is_hang res);
             fails = campaign_findings run rerun seeds
         in if fails \<noteq> [] then main_fail gen oracle a printed fails
            else Inr (finish (printed @ [''PASS: mcfuzz/'' @ fa_oracle a @ mode_text a @ '' '' @ em_dash @ '' '' @
              oracle_summary (fa_oracle a) @ '' over '' @ str_nat (fa_count a) @ '' programs (seeds '' @ str_int (fa_start a) @ ''..'' @
              str_int (fa_start a + int (fa_count a) - 1) @ '')'']) 0)))"

text \<open>
  \<open>main\<close> without the \<open>report\<close> statistics: argument errors, \<open>gen\<close>, missing tools, then the subcommand.
  \<open>corpus\<close> has no \<open>--oracle\<close> option, so its oracle name is the default of \<open>getattr\<close>.
\<close>

record fuzz_world =
  fw_gen :: "bool \<Rightarrow> bool \<Rightarrow> int \<Rightarrow> string"
  fw_oracle :: "int \<Rightarrow> string \<Rightarrow> string option"
  fw_differential :: "string \<Rightarrow> string option"
  fw_sanitize :: "string \<Rightarrow> string option"
  fw_corpus :: "(string \<times> string) list"
  fw_clang :: bool
  fw_llc :: bool
  fw_ubsan :: bool
  fw_asan :: bool

definition fuzz_main ::
  "fuzz_world \<Rightarrow> (int \<Rightarrow> string option) \<Rightarrow> (int \<Rightarrow> string option) \<Rightarrow> fuzz_args \<Rightarrow> finished result" where
  "fuzz_main w run rerun a =
     (case arg_error a of
        Some msg \<Rightarrow> Inr (finish [''error: '' @ msg] 2)
      | None \<Rightarrow>
          if fa_cmd a = ''gen'' then
            Inr (finish [fw_gen w (fa_async a) (\<not> fa_async a \<and> fa_trapping a) (fa_seed a)] 0)
          else
            (let name = (if fa_cmd a = ''corpus'' then ''differential'' else fa_oracle a) in
             if oracle_needs_clang name (fa_cmd a) \<and> \<not> fw_clang w then Inr (finish [''SKIP: mcfuzz (clang not found)''] 0)
             else if oracle_needs_llc name (fa_cmd a) \<and> \<not> fw_llc w then Inr (finish [''SKIP: mcfuzz (llc not found)''] 0)
             else if fa_cmd a = ''corpus'' then
               Inr (main_corpus (fw_differential w) (fw_sanitize w) (fw_ubsan w) (fw_corpus w))
             else if fa_cmd a = ''shrink'' then main_shrink (fw_gen w) (fw_oracle w) a
             else main_run (fw_gen w) (fw_oracle w) (fw_ubsan w) (fw_asan w) run rerun a))"

section \<open>Reading the commands back\<close>

text \<open>
  The words a POSIX shell reads from a command line, for the characters whose meaning needs no expansion;
  any other character outside single quotes is not readable (\<open>None\<close>), as is an unterminated quote. The
  arguments are the open quote, the word read so far, and the rest.
\<close>

fun sh_words :: "char option \<Rightarrow> string option \<Rightarrow> string \<Rightarrow> string list option" where
  "sh_words None None [] = Some []"
| "sh_words None (Some w) [] = Some [w]"
| "sh_words (Some q) cur [] = None"
| "sh_words None cur (c # cs) =
     (if c = CHR '' '' then
        (case cur of None \<Rightarrow> sh_words None None cs | Some w \<Rightarrow> map_option ((#) w) (sh_words None None cs))
      else if c = squote \<or> c = CHR 0x22 then sh_words (Some c) (Some (case cur of None \<Rightarrow> [] | Some w \<Rightarrow> w)) cs
      else if shell_safe c then sh_words None (Some ((case cur of None \<Rightarrow> [] | Some w \<Rightarrow> w) @ [c])) cs
      else None)"
| "sh_words (Some q) cur (c # cs) =
     (if c = q then sh_words None cur cs
      else if q = CHR 0x22 \<and> c \<in> {CHR ''$'', CHR 0x60, CHR 0x5C} then None
      else sh_words (Some q) (Some ((case cur of None \<Rightarrow> [] | Some w \<Rightarrow> w) @ [c])) cs)"

lemma sh_words_quoted:
  "sh_words (Some squote) (Some w) (concat (map quote_char s) @ squote # r) = sh_words None (Some (w @ s)) r"
proof (induction s arbitrary: w)
  case (Cons c s)
  have "squote \<noteq> CHR 0x22" "squote \<noteq> CHR '' ''" "squote \<notin> {CHR ''$'', CHR 0x60, CHR 0x5C}"
    by (simp_all add: squote_def)
  with Cons.IH [of "w @ [c]"] show ?case by (cases "c = squote") (simp_all add: quote_char_def)
qed simp

lemma shell_safe_plain: "shell_safe c \<Longrightarrow> c \<noteq> CHR '' '' \<and> c \<noteq> squote \<and> c \<noteq> CHR 0x22"
  by (auto simp: shell_safe_def squote_def is_word_def ident_start_def is_digit_def)

lemma sh_words_safe:
  "list_all shell_safe s \<Longrightarrow> sh_words None (Some w) (s @ r) = sh_words None (Some (w @ s)) r"
  by (induction s arbitrary: w) (auto dest: shell_safe_plain)

lemma sh_words_shell_quote: "sh_words None None (shell_quote s @ r) = sh_words None (Some s) r"
proof (cases "s \<noteq> [] \<and> list_all shell_safe s")
  case True
  then obtain c cs where s: "s = c # cs" "shell_safe c" "list_all shell_safe cs" by (cases s) auto
  with shell_safe_plain [OF s(2)] sh_words_safe [OF s(3), of "[c]" r] show ?thesis by (simp add: shell_quote_def)
next
  case False
  have "squote \<noteq> CHR '' ''" by (simp add: squote_def)
  with False sh_words_quoted [of "[]" s r] sh_words_quoted [of "[]" "[]" r] show ?thesis
    by (auto simp: shell_quote_def)
qed

text \<open>
  C30. The commands of the triage records are faithful: a shell reads the printed command line back as exactly
  the intended argument vector, whatever characters the arguments contain.
\<close>

theorem shell_command_roundtrip: "sh_words None None (shell_command argv) = Some argv"
proof (induction argv)
  case (Cons s argv)
  then show ?case
    using sh_words_shell_quote [of s "[]"]
    by (cases argv) (simp_all add: shell_command_def sh_words_shell_quote)
qed (simp add: shell_command_def)

section \<open>What a campaign reports\<close>

text \<open>Every message of \<open>run_one\<close> is the tag, the seed, and a text that is not blank.\<close>

lemma strip_nonblank: "c \<in> set s \<Longrightarrow> \<not> is_space c \<Longrightarrow> strip s \<noteq> []"
proof
  assume c: "c \<in> set s" "\<not> is_space c" and "strip s = []"
  then have "list_all is_space (lstrip s)"
    by (metis append_Nil rstrip_decomp strip_def)
  with lstrip_decomp [of s] have "list_all is_space s" by (metis list_all_append)
  with c show False by (auto simp: list_all_iff)
qed

lemma run_one_shape:
  assumes "run_one async chk oracle seed = Some msg"
  obtains x where "msg = fail_tag @ str_int seed @ '': '' @ x" "strip x \<noteq> []"
proof -
  have nb: "strip (''mcc check'' @ y) \<noteq> []" "strip (''tool'' @ y) \<noteq> []" "strip (y @ '')'') \<noteq> []" for y
    by (rule strip_nonblank [of "CHR ''m''"] strip_nonblank [of "CHR ''t''"] strip_nonblank [of "CHR '')''"];
        simp add: is_space_def)+
  show thesis
  proof (cases "chk seed")
    case (OsError e)
    with assms nb(1) [of "'' failed to execute: '' @ e"] show thesis
      by (intro that [of "''mcc check failed to execute: '' @ e"]) (simp_all add: run_one_def)
  next
    case (Done rc)
    show thesis
    proof (cases "rc = 0")
      case False
      with assms Done nb(1) [of "'' rejected a generated program''"] show thesis
        by (intro that [of "''mcc check rejected a generated program''"]) (simp_all add: run_one_def)
    next
      case True
      show thesis
      proof (cases "oracle seed")
        case (OsError e)
        with assms Done True nb(2) [of "'' failed to execute: '' @ e"] show thesis
          by (intro that [of "''tool failed to execute: '' @ e"]) (simp_all add: run_one_def)
      next
        case res: (Done res)
        with assms Done True obtain r where "res = Some r" "msg = fail_message async seed r"
          by (cases res) (auto simp: run_one_def)
        then show thesis
          using nb(3) [of "r @ '' '' @ reproduce_tag @ str_int seed @ (if async then '' --async'' else [])"]
          by (intro that [of "r @ '' '' @ reproduce_tag @ str_int seed @ (if async then '' --async'' else []) @ '')''"])
            (simp_all add: fail_message_def)
      qed
    qed
  qed
qed

text \<open>The seed is read back from the head of the message.\<close>

lemma seed_of_tagged:
  assumes "0 \<le> seed"
  shows "seed_of (fail_tag @ str_int seed @ '': '' @ x) = Some seed"
proof -
  let ?y = "''seed='' @ str_int seed @ '': '' @ x"
  note ds = str_int_digits [OF assms]
  have none: "seed_of_re p (v @ ?y) = []" if v: "''FAIL '' = u @ v" "v \<noteq> []" for u v p
  proof -
    from v have "hd v \<in> set ''FAIL ''" by (metis Un_iff hd_in_set set_append)
    then have "hd (v @ ?y) \<noteq> CHR ''s''" "v @ ?y \<noteq> []" using v(2) by auto
    then have "\<not> startswith (v @ ?y) ''seed=''" by (auto simp: startswith_iff)
    then show ?thesis by (simp add: seed_of_re_def rx_seq_def rx_lit_def)
  qed
  have "first_is seed_of_re q (''seed='' @ str_int seed @ '': '' @ x) (''seed='' @ str_int seed @ [], '': '' @ x, [str_int seed])" for q
    unfolding seed_of_re_def rx_seqs_simps
    by (intro walk_lit walk_group_plus first_empty) (use ds brackets_plain in auto)
  then have "re_search_from seed_of_re q ?y = Some (''seed='' @ str_int seed, [str_int seed])" for q
    using first_search by fastforce
  moreover obtain q where "re_search_from seed_of_re None (''FAIL '' @ ?y) = re_search_from seed_of_re q ?y"
  proof -
    have "\<exists>q. re_search_from seed_of_re None (''FAIL '' @ ?y) = re_search_from seed_of_re q ?y"
      by (rule search_skip) (rule none)
    then show thesis using that by blast
  qed
  moreover have "fail_tag @ str_int seed @ '': '' @ x = ''FAIL '' @ ?y" by (simp add: fail_tag_def)
  ultimately have "re_search seed_of_re (fail_tag @ str_int seed @ '': '' @ x) = Some (''seed='' @ str_int seed, [str_int seed])"
    by (simp only: re_search_def)
  with ds assms show ?thesis by (simp add: seed_of_def)
qed

lemma run_one_seed:
  assumes "run_one async chk oracle seed = Some msg" "0 \<le> seed"
  shows "seed_of msg = Some seed" "msg \<noteq> []"
  using run_one_shape [OF assms(1)] seed_of_tagged [OF assms(2)] by (auto simp: fail_tag_def)

lemma set_map_filter_iff: "y \<in> set (List.map_filter f xs) \<longleftrightarrow> (\<exists>x \<in> set xs. f x = Some y)"
  by (force simp: List.map_filter_def)

lemma map_filter_Nil: "List.map_filter f xs = [] \<longleftrightarrow> (\<forall>x \<in> set xs. f x = None)"
  by (auto simp: List.map_filter_def filter_empty_conv)

lemma py_range_nonneg: "0 \<le> start \<Longrightarrow> s \<in> set (py_range start n) \<Longrightarrow> 0 \<le> s"
  by (auto simp: py_range_def)

lemma parallel_findings_run_one:
  assumes "0 \<le> start"
  shows "r \<in> set (parallel_findings (run_one async chk oracle) (py_range start n)) \<longleftrightarrow>
    (\<exists>s \<in> set (py_range start n). run_one async chk oracle s = Some r)"
  using run_one_seed(2) [of async chk "oracle"] py_range_nonneg [OF assms]
  by (auto simp: parallel_findings_def set_map_filter_iff)

lemma recheck_run_one:
  assumes "run_one async chk oracle s = Some r" "0 \<le> s"
  shows "recheck (run_one async chk' oracle') r =
    map_option (\<lambda>again. if is_hang again then (confirmed_message again, True) else (again, False))
      (run_one async chk' oracle' s)"
  using run_one_seed(1) [OF assms] run_one_seed(2) [OF _ assms(2), of async chk' oracle']
  by (auto simp: recheck_def split: option.split)

lemma campaign_findings_mem:
  assumes "0 \<le> start" and run_def: "run = run_one async chk oracle" and rerun_def: "rerun = run_one async chk' oracle'"
  shows "f \<in> set (campaign_findings run rerun (py_range start n)) \<longleftrightarrow>
    (\<exists>s \<in> set (py_range start n). \<exists>r. run s = Some r \<and>
       (if is_hang r then
          (\<exists>again. rerun s = Some again \<and> f = (if is_hang again then (confirmed_message again, True) else (again, False)))
        else f = (r, False)))"
proof -
  have rc: "recheck rerun r = map_option (\<lambda>again. if is_hang again then (confirmed_message again, True) else (again, False)) (rerun s)"
    if "s \<in> set (py_range start n)" "run s = Some r" for s r
    using recheck_run_one [of async chk "oracle" s r chk' oracle'] that py_range_nonneg [OF assms(1)] by (simp add: run_def rerun_def)
  have par: "r \<in> set (parallel_findings run (py_range start n)) \<longleftrightarrow> (\<exists>s \<in> set (py_range start n). run s = Some r)" for r
    unfolding run_def by (rule parallel_findings_run_one [OF assms(1)])
  show ?thesis
    unfolding campaign_findings_def Let_def set_append Un_iff set_map image_iff set_filter set_map_filter_iff mem_Collect_eq Bex_def par
    using rc by (fastforce split: if_splits)
qed

text \<open>The summary never fails on the messages of a campaign.\<close>

lemma splitlines_acc_Nil: "splitlines_acc acc s = [] \<longleftrightarrow> acc = [] \<and> s = []"
  by (induction acc s rule: splitlines_acc.induct) auto

lemma re_sub_keeps_head: "m p (c # s) = [] \<Longrightarrow> re_sub_from m repl p (c # s) = c # re_sub_from m repl (Some c) s"
  by simp

lemma marker_needs_space:
  "\<not> is_space c \<Longrightarrow> confirmed_re p (c # s) = []" "\<not> is_space c \<Longrightarrow> reproduce_re p (c # s) = []"
  by (auto simp: confirmed_re_def reproduce_re_def rx_seq_def rx_plus_def run_len_def)

lemma split_finding_strip: "split_finding (strip s) = split_finding s"
  using strip_trimmed [OF trimmed_strip [of s]] by (simp add: split_finding_def)

lemma strip_nonblankE:
  assumes "strip x \<noteq> []"
  obtains c t ws where "lstrip x = c # t @ ws" "rstrip x = takeWhile is_space x @ c # t" "\<not> is_space c"
    "list_all is_space ws" "\<not> is_space (last (c # t))"
proof -
  from assms have "lstrip x \<noteq> []" by (auto simp: strip_def rstrip_def)
  then obtain c l where c: "lstrip x = c # l" by (cases "lstrip x") auto
  then have ns: "\<not> is_space c" unfolding lstrip_def by (metis dropWhile_eq_Cons_conv)
  obtain ws where ws: "c # l = rstrip (c # l) @ ws" "list_all is_space ws"
      "rstrip (c # l) = [] \<or> \<not> is_space (last (rstrip (c # l)))"
    by (rule rstrip_split)
  with ns have "rstrip (c # l) \<noteq> []" by (auto simp: list_all_iff)
  then obtain t where t: "rstrip (c # l) = c # t" using ws(1) by (cases "rstrip (c # l)") auto
  have "x = takeWhile is_space x @ c # t @ ws"
    using ws(1) t c takeWhile_dropWhile_id [of is_space x] by (simp add: lstrip_def)
  then have "rstrip x = rstrip ((takeWhile is_space x @ c # t) @ ws)" by simp
  also have "\<dots> = takeWhile is_space x @ c # t"
    unfolding rstrip_append [OF ws(2)] by (rule rstrip_keep) (use ws(3) t in auto)
  finally show thesis using that [of c t ws] c ws t ns by auto
qed

lemma strip_message:
  assumes "strip x \<noteq> []"
  shows "strip (fail_tag @ d @ '': '' @ x) = fail_tag @ d @ '': '' @ rstrip x"
proof -
  obtain c t ws where x: "rstrip x = takeWhile is_space x @ c # t" "\<not> is_space (last (c # t))"
    using strip_nonblankE [OF assms] by metis
  obtain ws where ws: "x = rstrip x @ ws" "list_all is_space ws" by (rule rstrip_decomp)
  have "trimmed (fail_tag @ d @ '': '' @ rstrip x)" using x by (simp add: trimmed_def fail_tag_def is_space_def)
  from strip_padded [OF this, of "[]" ws] ws(2)
  have "strip ((fail_tag @ d @ '': '' @ rstrip x) @ ws) = fail_tag @ d @ '': '' @ rstrip x" by simp
  with ws(1) show ?thesis by (metis append_assoc)
qed

lemma body_nonempty:
  assumes "0 \<le> seed" "strip x \<noteq> []"
  shows "finding_body (fail_tag @ str_int seed @ '': '' @ x) \<noteq> []"
proof -
  let ?m = "fail_tag @ str_int seed @ '': '' @ x"
  obtain c t ws where x: "rstrip x = takeWhile is_space x @ c # t" "\<not> is_space c" "\<not> is_space (last (c # t))"
    using strip_nonblankE [OF assms(2)] by metis
  have "list_all is_space (takeWhile is_space x)" by (auto simp: list_all_iff dest: set_takeWhileD)
  with x have "lstrip (rstrip x) = c # t" by (simp add: lstrip_append) (simp add: lstrip_def)
  then have "split_finding ?m = (Some seed, c # t)"
    using split_message [OF assms(1), of "rstrip x"] x split_finding_strip [of ?m] strip_message [OF assms(2)] by simp
  moreover have "re_sub confirmed_re [] (c # t) = c # re_sub_from confirmed_re [] (Some c) t"
    unfolding re_sub_def by (rule re_sub_keeps_head) (rule marker_needs_space [OF x(2)])
  moreover have "re_sub reproduce_re [] (c # u) = c # re_sub_from reproduce_re [] (Some c) u" for u
    unfolding re_sub_def by (rule re_sub_keeps_head) (rule marker_needs_space [OF x(2)])
  ultimately show ?thesis using x(2) strip_nonblank [of c] by (simp add: finding_body_def)
qed

text \<open>Buckets: no record is lost or counted twice, and every bucket has a first record.\<close>

lemma map_of_add_bucket:
  "map_of (add_bucket bs r) = (map_of bs)(tr_signature r \<mapsto> (case map_of bs (tr_signature r) of None \<Rightarrow> [] | Some rs \<Rightarrow> rs) @ [r])"
  by (simp add: add_bucket_def update_conv')

lemma buckets_lookup:
  "map_of (buckets rs) sig = (let items = filter (\<lambda>r. tr_signature r = sig) rs in if items = [] then None else Some items)"
proof (induction rs rule: rev_induct)
  case (snoc r rs)
  then show ?case
    by (auto simp: buckets_def map_of_add_bucket Let_def split: option.splits if_splits)
qed (simp add: buckets_def)

lemma distinct_buckets: "distinct (map fst (buckets rs))"
  by (induction rs rule: rev_induct) (simp_all add: buckets_def add_bucket_def distinct_update)

lemma bucket_lines_ok:
  assumes "finding_body (tr_message r) \<noteq> []"
  shows "\<exists>ls. bucket_lines sig (r # items) = Inr ls"
proof -
  obtain l ls where "splitlines (finding_body (tr_message r)) = l # ls"
    using assms splitlines_acc_Nil [of "[]"] by (cases "splitlines (finding_body (tr_message r))") (auto simp: splitlines_def)
  then show ?thesis by (simp add: bucket_lines_def Let_def)
qed

lemma bucket_report_ok:
  assumes "\<And>r. r \<in> set rs \<Longrightarrow> finding_body (tr_message r) \<noteq> []"
  shows "set sigs \<subseteq> fst ` set (buckets rs) \<Longrightarrow> \<exists>ls. bucket_report (buckets rs) sigs = Inr ls"
proof (induction sigs)
  case (Cons sig sigs)
  then have "map_of (buckets rs) sig \<noteq> None" by (simp add: map_of_eq_None_iff)
  then obtain items where items: "map_of (buckets rs) sig = Some items" "items = filter (\<lambda>r. tr_signature r = sig) rs" "items \<noteq> []"
    by (auto simp: buckets_lookup Let_def split: if_splits)
  then obtain r rest where "items = r # rest" "r \<in> set rs"
    by (metis filter_is_subset list.set_intros(1) neq_Nil_conv subset_code(1))
  with bucket_lines_ok [OF assms, of r sig rest] items Cons show ?case by auto
qed simp

lemma print_bucket_summary_ok:
  assumes "\<And>r. r \<in> set rs \<Longrightarrow> finding_body (tr_message r) \<noteq> []"
  shows "\<exists>ls. print_bucket_summary rs = Inr ls"
  using bucket_report_ok [OF assms, of rs "sort (map fst (buckets rs))"]
  by (auto simp: print_bucket_summary_def Let_def)

lemma campaign_bodies:
  assumes "0 \<le> start" "run = run_one async chk oracle" "rerun = run_one async chk' oracle'"
    and "f \<in> set (campaign_findings run rerun (py_range start n))"
  shows "finding_body (fst f) \<noteq> []"
proof -
  have plain: "finding_body msg \<noteq> [] \<and> finding_body (confirmed_message msg) \<noteq> []"
    if r: "run_one a c k s = Some msg" "s \<in> set (py_range start n)" for a c k s msg
  proof -
    obtain x where x: "msg = fail_tag @ str_int s @ '': '' @ x" "strip x \<noteq> []" by (rule run_one_shape [OF r(1)])
    have "strip (x @ '' '' @ confirmed_tag) \<noteq> []"
      by (rule strip_nonblank [of "CHR ''[''"]) (simp_all add: confirmed_tag_def is_space_def)
    with x body_nonempty [OF py_range_nonneg [OF assms(1) r(2)]] show ?thesis by (simp add: confirmed_message_def)
  qed
  from assms(4) show ?thesis
    unfolding campaign_findings_mem [OF assms(1-3)] using plain assms(2,3) by (auto split: if_splits)
qed

lemma main_fail_ok:
  assumes "\<And>f. f \<in> set fails \<Longrightarrow> finding_body (fst f) \<noteq> []"
  shows "\<exists>fin. main_fail gen oracle a printed fails = Inr fin \<and> fin_code fin = 1"
proof -
  let ?rs = "map (\<lambda>(msg, confirmed). triage_record a msg confirmed) fails"
  have "finding_body (tr_message r) \<noteq> []" if "r \<in> set ?rs" for r
    using that assms by (auto simp: triage_record_def Let_def)
  then obtain ls where "print_bucket_summary ?rs = Inr ls" using print_bucket_summary_ok by blast
  then show ?thesis by (auto simp: main_fail_def Let_def split: option.split prod.split)
qed

lemma main_run_cases:
  assumes "fa_oracle a = ''sanitize'' \<longrightarrow> ubsan" and "fa_oracle a = ''asan'' \<longrightarrow> asan"
  shows "\<exists>printed out. main_run gen oracle ubsan asan run rerun a =
    (let fails = campaign_findings run rerun (py_range (fa_start a) (fa_count a)) in
     if fails \<noteq> [] then main_fail gen oracle a printed fails else Inr (finish out 0))"
proof -
  have c: "\<not> (fa_oracle a = ''sanitize'' \<and> \<not> ubsan)" "\<not> (fa_oracle a = ''asan'' \<and> \<not> asan)" using assms by blast+
  show ?thesis unfolding main_run_def Let_def if_not_P [OF c(1)] if_not_P [OF c(2)] by blast
qed

text \<open>
  C12. Verdict of a campaign: for seeds from a non-negative start the command never fails in its own reporting,
  and it passes exactly when every seed was clean or was a suspected hang that did not come back in the
  serial re-run; every other seed makes it exit with 1. In particular no finding that is not a hang is
  ever dropped.
\<close>

theorem campaign_verdict:
  assumes "0 \<le> fa_start a" and "fa_oracle a = ''sanitize'' \<longrightarrow> ubsan" and "fa_oracle a = ''asan'' \<longrightarrow> asan"
  shows "\<exists>fin. main_run gen oracle ubsan asan (run_one async chk orc) (run_one async chk' orc') a = Inr fin \<and>
    fin_code fin = (if \<forall>s \<in> set (py_range (fa_start a) (fa_count a)).
        run_one async chk orc s = None \<or>
        (\<exists>r. run_one async chk orc s = Some r \<and> is_hang r \<and> run_one async chk' orc' s = None) then 0 else 1)"
proof -
  let ?run = "run_one async chk orc" and ?rerun = "run_one async chk' orc'"
  let ?seeds = "py_range (fa_start a) (fa_count a)"
  let ?fails = "campaign_findings ?run ?rerun ?seeds"
  have nil: "?fails = [] \<longleftrightarrow> (\<forall>s \<in> set ?seeds. ?run s = None \<or> (\<exists>r. ?run s = Some r \<and> is_hang r \<and> ?rerun s = None))"
  proof -
    let ?rep = "\<lambda>s f. \<exists>r. ?run s = Some r \<and>
       (if is_hang r then
          (\<exists>again. ?rerun s = Some again \<and> f = (if is_hang again then (confirmed_message again, True) else (again, False)))
        else f = (r, False))"
    have one: "(\<forall>f. \<not> ?rep s f) \<longleftrightarrow> ?run s = None \<or> (\<exists>r. ?run s = Some r \<and> is_hang r \<and> ?rerun s = None)" for s
      by (cases "?run s"; cases "?rerun s") auto
    have "?fails = [] \<longleftrightarrow> (\<forall>f. f \<notin> set ?fails)" by (cases ?fails) auto
    also have "\<dots> \<longleftrightarrow> (\<forall>s \<in> set ?seeds. \<forall>f. \<not> ?rep s f)"
      unfolding campaign_findings_mem [OF assms(1) refl refl] by blast
    finally show ?thesis unfolding one .
  qed
  obtain printed out where run: "main_run gen oracle ubsan asan ?run ?rerun a =
      (if ?fails \<noteq> [] then main_fail gen oracle a printed ?fails else Inr (finish out 0))"
    using main_run_cases [OF assms(2,3), of gen "oracle" ?run ?rerun] by (auto simp: Let_def)
  have "\<exists>fin. main_fail gen oracle a printed ?fails = Inr fin \<and> fin_code fin = 1"
    by (rule main_fail_ok) (rule campaign_bodies [OF assms(1) refl refl])
  then obtain fin where fin: "main_fail gen oracle a printed ?fails = Inr fin" "fin_code fin = 1" by blast
  show ?thesis
  proof (cases "?fails = []")
    case True
    then have "main_run gen oracle ubsan asan ?run ?rerun a = Inr (finish out 0)" using run by simp
    moreover have "fin_code (finish out 0) = 0" by (simp add: finish_def)
    ultimately show ?thesis unfolding nil [symmetric] using True by auto
  next
    case False
    then show ?thesis unfolding nil [symmetric] using run fin by auto
  qed
qed

text \<open>A campaign of two seeds in which the second one hangs under load only.\<close>

definition demo_args :: fuzz_args where
  "demo_args = \<lparr>fa_cmd = ''run'', fa_oracle = ''robust'', fa_trapping = False, fa_async = False, fa_mcc = ''mcc'',
     fa_start = 1, fa_count = 2, fa_seed = 0, fa_triage_dir = None, fa_shrink_failures = False\<rparr>"

definition demo_load :: "int \<Rightarrow> string option os_call" where
  "demo_load seed = Done (if seed = 2 then Some ''mcc check HANGS (>15s) on mutated input'' else None)"

theorem campaign_verdict_witness:
  "\<exists>fin. main_run (\<lambda>_ _ _. []) (\<lambda>_ _. None) False False (run_one False (\<lambda>_. Done 0) demo_load)
     (run_one False (\<lambda>_. Done 0) (\<lambda>_. Done None)) demo_args = Inr fin \<and> fin_code fin = 0"
proof -
  have "is_hang (fail_message False 2 ''mcc check HANGS (>15s) on mutated input'')" by code_simp
  then have "\<forall>s \<in> set (py_range 1 2). run_one False (\<lambda>_. Done 0) demo_load s = None \<or>
      (\<exists>r. run_one False (\<lambda>_. Done 0) demo_load s = Some r \<and> is_hang r \<and> run_one False (\<lambda>_. Done 0) (\<lambda>_. Done None) s = None)"
    by (auto simp: run_one_def demo_load_def)
  with campaign_verdict [of demo_args False False "\<lambda>_ _ _. []" "\<lambda>_ _. None" False "\<lambda>_. Done 0" demo_load "\<lambda>_. Done 0" "\<lambda>_. Done None"]
  show ?thesis by (simp add: demo_args_def)
qed

text \<open>
  C36. The buckets of a campaign partition its records: under its signature stands exactly the sub-list of the
  records that have it, in their order, and no signature is listed twice.
\<close>

theorem buckets_partition_records:
  "distinct (map fst (buckets rs)) \<and>
   (\<forall>sig. map_of (buckets rs) sig =
      (if \<exists>r \<in> set rs. tr_signature r = sig then Some (filter (\<lambda>r. tr_signature r = sig) rs) else None))"
  using distinct_buckets [of rs] by (auto simp: buckets_lookup Let_def filter_empty_conv)

text \<open>The automatic shrinker.\<close>

lemma auto_shrink_records:
  "map (\<lambda>r. r\<lparr>tr_status := NotTried\<rparr>) (fst (auto_shrink gen oracle a dir seen rs)) = map (\<lambda>r. r\<lparr>tr_status := NotTried\<rparr>) rs"
  by (induction rs arbitrary: seen) (auto simp: case_prod_unfold Let_def split: option.split)

text \<open>The first record with a signature, among those whose seed is known and whose signature is new.\<close>

fun first_of_signature :: "string list \<Rightarrow> triage list \<Rightarrow> (string \<times> int) list" where
  "first_of_signature seen [] = []"
| "first_of_signature seen (r # rs) =
     (case tr_seed r of
        None \<Rightarrow> first_of_signature seen rs
      | Some seed \<Rightarrow>
          if tr_signature r \<in> set seen then first_of_signature seen rs
          else (tr_signature r, seed) # first_of_signature (tr_signature r # seen) rs)"

lemma auto_shrink_files:
  "snd (auto_shrink gen oracle a dir seen rs) =
     concat (map (\<lambda>(sig, seed). snd (shrink_one gen oracle a dir sig seed)) (first_of_signature seen rs))"
  by (induction rs arbitrary: seen) (auto simp: case_prod_unfold Let_def split: option.split)

lemma first_of_signature_distinct:
  "distinct (map fst (first_of_signature seen rs)) \<and> set (map fst (first_of_signature seen rs)) \<inter> set seen = {}"
proof (induction rs arbitrary: seen)
  case (Cons r rs)
  from Cons [of seen] Cons [of "tr_signature r # seen"] show ?case by (auto split: option.split)
qed simp

lemma shrink_one_file:
  assumes "(path, contents) \<in> set (snd (shrink_one gen oracle a dir sig seed))"
  shows "\<exists>ls src. source_for_auto_shrink gen a seed = Some src \<and> contents = repro_text a seed sig (join nl ls) \<and>
    subseq ls (split_on CHR 0x0A src) \<and> same_failure oracle seed (Some (fa_oracle a)) sig (join nl ls) \<and>
    (\<forall>i < length ls. \<not> same_failure oracle seed (Some (fa_oracle a)) sig (join nl (without_line i ls)))"
proof -
  from assms obtain src where src: "source_for_auto_shrink gen a seed = Some src"
      "same_failure oracle seed (Some (fa_oracle a)) sig src"
      "contents = repro_text a seed sig (shrink_source oracle src sig seed (Some (fa_oracle a)))"
    by (auto simp: shrink_one_def split: option.splits if_splits)
  let ?f = "\<lambda>ls. same_failure oracle seed (Some (fa_oracle a)) sig (join nl ls)"
  from src(2) have "?f (split_on CHR 0x0A src)" by simp
  with shrink_lines_spec [of ?f "split_on CHR 0x0A src"] src(1,3) show ?thesis
    by (intro exI [of _ "shrink_lines ?f (split_on CHR 0x0A src)"] exI [of _ src]) (simp add: shrink_source_def)
qed

text \<open>
  C35. Automatic shrinking changes nothing of the records but their status, tries each signature at most once,
  and every repro it writes is a one-minimal part of the program of the seed it names: it still fails
  the oracle with the signature in its header, and loses the failure with any further line.
\<close>

theorem auto_shrink_repros_minimal:
  "map (\<lambda>r. r\<lparr>tr_status := NotTried\<rparr>) (fst (auto_shrink gen oracle a dir [] rs)) = map (\<lambda>r. r\<lparr>tr_status := NotTried\<rparr>) rs \<and>
   distinct (map fst (first_of_signature [] rs)) \<and>
   (\<forall>path contents. (path, contents) \<in> set (snd (auto_shrink gen oracle a dir [] rs)) \<longrightarrow>
      (\<exists>sig seed ls src. (sig, seed) \<in> set (first_of_signature [] rs) \<and>
         source_for_auto_shrink gen a seed = Some src \<and> contents = repro_text a seed sig (join nl ls) \<and>
         subseq ls (split_on CHR 0x0A src) \<and> same_failure oracle seed (Some (fa_oracle a)) sig (join nl ls) \<and>
         (\<forall>i < length ls. \<not> same_failure oracle seed (Some (fa_oracle a)) sig (join nl (without_line i ls)))))"
proof (intro conjI allI impI)
  fix path contents assume "(path, contents) \<in> set (snd (auto_shrink gen oracle a dir [] rs))"
  then obtain sig seed where "(sig, seed) \<in> set (first_of_signature [] rs)"
      "(path, contents) \<in> set (snd (shrink_one gen oracle a dir sig seed))"
    by (auto simp: auto_shrink_files)
  with shrink_one_file [OF this(2)] show "\<exists>sig seed ls src. (sig, seed) \<in> set (first_of_signature [] rs) \<and>
         source_for_auto_shrink gen a seed = Some src \<and> contents = repro_text a seed sig (join nl ls) \<and>
         subseq ls (split_on CHR 0x0A src) \<and> same_failure oracle seed (Some (fa_oracle a)) sig (join nl ls) \<and>
         (\<forall>i < length ls. \<not> same_failure oracle seed (Some (fa_oracle a)) sig (join nl (without_line i ls)))"
    by blast
qed (use auto_shrink_records first_of_signature_distinct in auto)

definition demo_record :: triage where
  "demo_record = \<lparr>tr_seed = Some 1, tr_oracle = ''robust'', tr_trapping = False, tr_async = False,
     tr_signature = ''compile:link-failed'', tr_message = ''link failed'', tr_reproduce = None, tr_shrink = None,
     tr_confirmed = False, tr_status = NotTried\<rparr>"

theorem auto_shrink_repros_minimal_witness:
  "\<exists>path contents ls.
     (path, contents) \<in> set (snd (auto_shrink (\<lambda>_ _ _. ''A'' @ nl @ ''B'') demo_oracle demo_args ''out'' [] [demo_record])) \<and>
     contents = repro_text demo_args 1 ''compile:link-failed'' (join nl ls) \<and>
     same_failure demo_oracle 1 (Some ''robust'') ''compile:link-failed'' (join nl ls)"
proof -
  let ?g = "\<lambda>_ _ _. ''A'' @ nl @ ''B''"
  let ?fs = "snd (auto_shrink ?g demo_oracle demo_args ''out'' [] [demo_record])"
  have sig: "finding_signature ''link failed'' (Some ''robust'') = ''compile:link-failed''" by code_simp
  have "?fs \<noteq> []"
    using sig by (simp add: demo_record_def shrink_one_def source_for_auto_shrink_def demo_args_def same_failure_def demo_oracle_def)
  then obtain path contents where pc: "(path, contents) \<in> set ?fs" by (metis list.set_intros(1) neq_Nil_conv surj_pair)
  have "\<forall>path contents. (path, contents) \<in> set ?fs \<longrightarrow>
      (\<exists>sig seed ls src. (sig, seed) \<in> set (first_of_signature [] [demo_record]) \<and>
         source_for_auto_shrink ?g demo_args seed = Some src \<and> contents = repro_text demo_args seed sig (join nl ls) \<and>
         subseq ls (split_on CHR 0x0A src) \<and> same_failure demo_oracle seed (Some (fa_oracle demo_args)) sig (join nl ls) \<and>
         (\<forall>i < length ls. \<not> same_failure demo_oracle seed (Some (fa_oracle demo_args)) sig (join nl (without_line i ls))))"
    using auto_shrink_repros_minimal [of ?g demo_oracle demo_args "''out''" "[demo_record]"] by (elim conjE)
  with pc obtain sig' seed ls where "(sig', seed) \<in> set (first_of_signature [] [demo_record])"
      "contents = repro_text demo_args seed sig' (join nl ls)"
      "same_failure demo_oracle seed (Some (fa_oracle demo_args)) sig' (join nl ls)" by blast
  with pc show ?thesis by (auto simp: demo_record_def demo_args_def)
qed

lemma corpus_messages_Nil:
  "corpus_messages checks files = [] \<longleftrightarrow> (\<forall>(name, src) \<in> set files. \<forall>(oname, oracle) \<in> set checks. oracle src = None)"
  by (fastforce simp: corpus_messages_def map_filter_Nil)

text \<open>
  Corpus replay: the command exits with 0 exactly when no file of the corpus makes an available oracle
  report, the sanitizer being consulted exactly when its runtime is available.
\<close>

theorem corpus_verdict:
  "fin_code (main_corpus differential sanitize ubsan files) =
     (if \<forall>(name, src) \<in> set files. differential src = None \<and> (ubsan \<longrightarrow> sanitize src = None) then 0 else 1)"
proof -
  let ?checks = "(''differential'', differential) # (if ubsan then [(''sanitize'', sanitize)] else [])"
  have "corpus_messages ?checks files = [] \<longleftrightarrow>
      (\<forall>(name, src) \<in> set files. \<forall>(oname, oracle) \<in> set ?checks. oracle src = None)"
    by (rule corpus_messages_Nil)
  also have "\<dots> \<longleftrightarrow> (\<forall>(name, src) \<in> set files. differential src = None \<and> (ubsan \<longrightarrow> sanitize src = None))"
    by auto
  finally have "corpus_messages ?checks files = [] \<longleftrightarrow> \<dots>" .
  then show ?thesis by (auto simp: main_corpus_def finish_def Let_def)
qed

theorem corpus_verdict_witness:
  "fin_code (main_corpus (\<lambda>src. if src = ''bad'' then Some ''LLVM link failed'' else None) (\<lambda>_. Some ''x'') False
     [(''a.mc'', ''good''), (''b.mc'', ''bad'')]) = 1"
  unfolding corpus_verdict by simp

end
