(* ===== verification/Mcfuzz_Run.thy ===== *)
theory Mcfuzz_Run
  imports Mcfuzz_Oracle_Props Mcfuzz_Async Mcfuzz_Campaign
begin

text \<open>
  One seed of the fuzzer on the machine: \<open>run_one\<close> of \<open>src/tools/fuzz/mcfuzz.py\<close> with its work directory, and its
  refinement to the abstract \<^const>\<open>run_one\<close> on which the campaign theorems rest.
\<close>

definition source_for_seed :: "fuzz_env \<Rightarrow> bool \<Rightarrow> int \<Rightarrow> string io" where
  "source_for_seed env async seed =
     (if async then with_rng env seed async_program else io_ret (e_gen env (e_trapping env) False False seed))"

definition check_call :: "fuzz_env \<Rightarrow> string \<Rightarrow> int io" where
  "check_call env src = io_bind (run_cmd [e_mcc env, ''check'', src]) (\<lambda>chk. io_ret (returncode chk))"

text \<open>\<open>try: x = ...\<close> with an \<open>except OSError as e\<close> that returns: the left summand is the text of the exception.\<close>

definition caught :: "'a io \<Rightarrow> (string + 'a) io" where
  "caught m = try_os (io_bind m (\<lambda>x. io_ret (Inr x))) (\<lambda>e. io_ret (Inl e))"

definition run_one_body ::
  "fuzz_env \<Rightarrow> bool \<Rightarrow> (fuzz_env \<Rightarrow> int \<Rightarrow> string \<Rightarrow> string \<Rightarrow> string option io) \<Rightarrow> int \<Rightarrow> string \<Rightarrow> string option io" where
  "run_one_body env async orc seed work =
     (let src = path_join work ''p.mc'' in
      io_bind (source_for_seed env async seed) (\<lambda>body.
      io_bind (write_file src body) (\<lambda>_.
      io_bind (caught (check_call env src)) (\<lambda>chk. case chk of
        Inl e \<Rightarrow> io_ret (Some (fail_tag @ str_int seed @ '': mcc check failed to execute: '' @ e))
      | Inr rc \<Rightarrow>
          if rc \<noteq> 0 then io_ret (Some (fail_tag @ str_int seed @ '': mcc check rejected a generated program''))
          else
            io_bind (caught (orc env seed src work)) (\<lambda>res. io_ret (case res of
              Inl e \<Rightarrow> Some (fail_tag @ str_int seed @ '': tool failed to execute: '' @ e)
            | Inr ans \<Rightarrow> map_option (fail_message async seed) ans))))))"

definition run_one_io ::
  "fuzz_env \<Rightarrow> bool \<Rightarrow> (fuzz_env \<Rightarrow> int \<Rightarrow> string \<Rightarrow> string \<Rightarrow> string option io) \<Rightarrow> int \<Rightarrow> string option io" where
  "run_one_io env async orc seed =
     io_bind mkdtemp (\<lambda>work. finally_do (run_one_body env async orc seed work) (run_cmd [''rm'', ''-rf'', work]))"

lemma async_program_plain:
  "\<exists>body s'. async_program s = Inr (body, s') \<and> valid_utf8 body"
proof -
  obtain p s' where p: "draw_async s = Inr (p, s')"
    using wp_draw_async [of s] by (auto simp: wp_iff)
  have "async_program s = Inr (async_text p, s')" using p by (simp add: async_program_def bind_def ret_def)
  with plain_ascii [OF plain_async_text [of p]] show ?thesis by (auto intro: valid_utf8_ascii)
qed

text \<open>
  Async mode feeds every oracle: whatever the draws, the async generator returns a program that is
  well-formed text without carriage returns and opens a harness where the fail-closed oracle injects its
  invalid statement, with the ten parameters in their ranges and the deadline of the cancelled future at
  least twenty ticks after the others.
\<close>

theorem async_program_total:
  "\<exists>p t. async_program s = Inr (async_text p, s\<lparr>tape := t\<rparr>) \<and> params_ok p \<and> valid_utf8 (async_text p) \<and>
     CHR 0x0D \<notin> set (async_text p) \<and> contains (async_text p) harness_marker"
proof -
  obtain p t where p: "draw_async s = Inr (p, s\<lparr>tape := t\<rparr>)" "params_ok p"
    using wp_draw_async [of s] by (auto simp: wp_iff same_frame_def)
  have "async_program s = Inr (async_text p, s\<lparr>tape := t\<rparr>)" using p(1) by (simp add: async_program_def bind_def ret_def)
  with p(2) plain_ascii [OF plain_async_text [of p]] async_text_harness [of p] show ?thesis
    by (auto simp: harness_marker_def intro: valid_utf8_ascii)
qed

section \<open>Refinement of one seed\<close>

text \<open>What a call on the machine is to the abstract campaign.\<close>

definition observed :: "(py_exc + 'a) \<times> world \<Rightarrow> 'a os_call" where
  "observed r = (case fst r of Inr x \<Rightarrow> Done x | Inl (OSError e) \<Rightarrow> OsError e | Inl _ \<Rightarrow> OsError [])"

lemma check_call_safe: "os_safe (check_call env src)"
  unfolding check_call_def by (intro os_safe_intro)

text \<open>A caught call is its observation, as long as only \<open>OSError\<close> can escape it.\<close>

lemma caught_observed:
  assumes "m h w = (r, w')" and "\<And>e. r = Inl e \<Longrightarrow> \<exists>msg. e = OSError msg"
  shows "caught m h w = (Inr (case observed (m h w) of OsError e \<Rightarrow> Inl e | Done x \<Rightarrow> Inr x), w')"
proof (cases r)
  case (Inl e)
  then obtain msg where "e = OSError msg" using assms(2) by blast
  with Inl assms(1) show ?thesis by (simp add: caught_def try_os_def io_bind_def io_ret_def observed_def)
qed (use assms(1) in \<open>simp add: caught_def try_os_def io_bind_def io_ret_def observed_def\<close>)

lemma finally_returns:
  assumes "m h w = (Inr x, w1)" and "h_run h [''rm'', ''-rf'', work] [] [] w1 = Inr r"
  shows "\<exists>w'. finally_do m (run_cmd [''rm'', ''-rf'', work]) h w = (Inr x, w')"
  using assms by (cases r) (simp add: finally_do_def run_cmd_def run_proc_def)

text \<open>
  The whole of \<open>run_one\<close> refines the step the campaign theorems are about: on a machine where the work
  directory can be created, written and removed and the checker leaves the source in place, every
  oracle of the table gives exactly the message of the abstract step on the observed exit status of the
  checker and the observed answer of the oracle; nothing is raised, whatever the tools do.
\<close>

theorem run_one_refines:
  assumes "(name, orc) \<in> set oracle_table"
    and "h_mkdtemp h w = Inr work" and "src = path_join work ''p.mc''"
    and "source_for_seed env async seed h w = (Inr body, w)" and "valid_utf8 body"
    and "h_denied h src w = None" and "\<forall>v. \<exists>r. h_run h [''rm'', ''-rf'', work] [] [] v = Inr r"
    and "w1 = put src body w" and "w2 = snd (check_call env src h w1)" and "w_files w2 src = Some body"
  shows "\<exists>w'. run_one_io env async orc seed h w =
    (Inr (run_one async (\<lambda>_. observed (check_call env src h w1)) (\<lambda>_. observed (orc env seed src work h w2)) seed), w')"
proof -
  have orc: "fuzz_oracle orc" using every_oracle_contract assms(1) by (auto simp: list_all_iff)
  obtain cr where cr: "check_call env src h w1 = (cr, w2)" using assms(9) by (metis prod.collapse)
  obtain orr w3 where orr: "orc env seed src work h w2 = (orr, w3)" by fastforce
  have c_os: "\<exists>msg. e = OSError msg" if "cr = Inl e" for e
    using os_safeD [OF check_call_safe, of env src h w1 e w2] cr that by simp
  have o_os: "\<exists>msg. e = OSError msg" if "orr = Inl e" for e
    using fuzz_oracle.orc_safe [OF orc, of src env seed work] assms(5,10) orr that unfolding safe_on_def by blast
  have k1: "caught (check_call env src) h w1 = (Inr (case observed (check_call env src h w1) of OsError e \<Rightarrow> Inl e | Done x \<Rightarrow> Inr x), w2)"
    by (rule caught_observed [where m = "check_call env src", OF cr]) (rule c_os)
  have k2: "caught (orc env seed src work) h w2 = (Inr (case observed (orc env seed src work h w2) of OsError e \<Rightarrow> Inl e | Done x \<Rightarrow> Inr x), w3)"
    by (rule caught_observed [where m = "orc env seed src work", OF orr]) (rule o_os)
  have b0: "io_bind (source_for_seed env async seed) k h w = k body h w" for k :: "string \<Rightarrow> string option io"
    by (simp add: io_bind_def assms(4))
  have wr: "io_bind (write_file src body) k h w = k () h w1" for k :: "unit \<Rightarrow> string option io"
    using assms(6,8) by (simp add: bind_write)
  have b1: "io_bind (caught (check_call env src)) k h w1 =
      k (case observed (check_call env src h w1) of OsError e \<Rightarrow> Inl e | Done x \<Rightarrow> Inr x) h w2" for k :: "string + int \<Rightarrow> string option io"
    by (simp add: io_bind_def k1)
  have b2: "io_bind (caught (orc env seed src work)) k h w2 =
      k (case observed (orc env seed src work h w2) of OsError e \<Rightarrow> Inl e | Done x \<Rightarrow> Inr x) h w3" for k :: "string + string option \<Rightarrow> string option io"
    by (simp add: io_bind_def k2)
  have "\<exists>w4. run_one_body env async orc seed work h w =
      (Inr (run_one async (\<lambda>_. observed (check_call env src h w1)) (\<lambda>_. observed (orc env seed src work h w2)) seed), w4)"
    unfolding run_one_body_def Let_def assms(3) [symmetric] b0 wr b1
    by (cases "observed (check_call env src h w1)") (auto simp: run_one_def b2 io_ret_def split: os_call.split option.split)
  then obtain w4 where w4: "run_one_body env async orc seed work h w =
      (Inr (run_one async (\<lambda>_. observed (check_call env src h w1)) (\<lambda>_. observed (orc env seed src work h w2)) seed), w4)" by blast
  obtain r where "h_run h [''rm'', ''-rf'', work] [] [] w4 = Inr r" using assms(7) by blast
  from finally_returns [where m = "run_one_body env async orc seed work", OF w4 this] assms(2) show ?thesis
    by (simp add: run_one_io_def io_bind_def mkdtemp_def)
qed

theorem run_one_refines_witness:
  "\<exists>w'. run_one_io demo_env True oracle_pipeline 5 bare_host empty_world =
     (Inr (Some (fail_tag @ str_int 5 @ '': mcc check failed to execute: [Errno 2] No such file or directory'')), w')"
proof -
  obtain body s' where b: "async_program \<lparr>tape = []\<rparr> = Inr (body, s')" "valid_utf8 body"
    using async_program_plain [of "\<lparr>tape = []\<rparr>"] by blast
  let ?src = "path_join ''/tmp/w'' ''p.mc''"
  let ?w1 = "put ?src body empty_world"
  have chk: "check_call demo_env ?src bare_host ?w1 = (Inl (OSError ''[Errno 2] No such file or directory''), tick ?w1)"
    by (simp add: check_call_def io_bind_def run_cmd_def run_proc_def bare_host_def demo_env_def tick_def)
  have "\<exists>w'. run_one_io demo_env True oracle_pipeline 5 bare_host empty_world =
    (Inr (run_one True (\<lambda>_. observed (check_call demo_env ?src bare_host ?w1))
      (\<lambda>_. observed (oracle_pipeline demo_env 5 ?src ''/tmp/w'' bare_host (tick ?w1))) 5), w')"
  proof (rule run_one_refines [OF _ _ refl _ b(2) _ _ refl])
    show "(''pipeline'', oracle_pipeline) \<in> set oracle_table" by (simp add: oracle_table_def)
    show "source_for_seed demo_env True 5 bare_host empty_world = (Inr body, empty_world)"
      by (simp add: source_for_seed_def with_rng_def io_lift_def demo_env_def b(1))
  qed (simp_all add: chk, simp_all add: bare_host_def)
  then show ?thesis by (simp add: run_one_def chk observed_def)
qed

end
