(* ===== verification/Mcfuzz_Types.thy ===== *)
theory Mcfuzz_Types
  imports Py_Random
begin

text \<open>
  The type model of the type-directed generator of \<open>src/tools/fuzz/mcfuzz.py\<close>: the table \<open>TYPES\<close> with the kind, the
  width, the literal maker and the digest fold of every scalar type, and the lists of type names drawn
  from it. A type is its MC spelling, as in the code.
\<close>

datatype ty_kind = KUint | KSint | KSat | KWrap | KFloat | KBool

record type_row =
  ti_kind :: ty_kind
  ti_width :: nat

text \<open>\<open>_t\<close> for the four widths, then \<open>usize\<close>, the floats and \<open>bool\<close>; the dictionary keeps that order.\<close>

definition int_row :: "nat \<Rightarrow> (string \<times> type_row) list" where
  "int_row w =
    [(''u'' @ str_nat w, \<lparr>ti_kind = KUint, ti_width = w\<rparr>), (''i'' @ str_nat w, \<lparr>ti_kind = KSint, ti_width = w\<rparr>),
     (''sat<u'' @ str_nat w @ ''>'', \<lparr>ti_kind = KSat, ti_width = w\<rparr>), (''wrap<u'' @ str_nat w @ ''>'', \<lparr>ti_kind = KWrap, ti_width = w\<rparr>)]"

definition TYPES :: "(string \<times> type_row) list" where
  "TYPES = int_row 8 @ int_row 16 @ int_row 32 @ int_row 64 @
    [(''usize'', \<lparr>ti_kind = KUint, ti_width = 64\<rparr>), (''f64'', \<lparr>ti_kind = KFloat, ti_width = 64\<rparr>),
     (''f32'', \<lparr>ti_kind = KFloat, ti_width = 32\<rparr>), (''bool'', \<lparr>ti_kind = KBool, ti_width = 1\<rparr>)]"

definition names_of_kind :: "ty_kind \<Rightarrow> string list" where
  "names_of_kind k = map fst (filter (\<lambda>(n, t). ti_kind t = k) TYPES)"

definition UINTS :: "string list" where "UINTS = names_of_kind KUint"
definition SINTS :: "string list" where "SINTS = names_of_kind KSint"
definition INTS :: "string list" where "INTS = UINTS @ SINTS"
definition SATS :: "string list" where "SATS = names_of_kind KSat"
definition WRAPS :: "string list" where "WRAPS = names_of_kind KWrap"
definition FLOATS :: "string list" where "FLOATS = names_of_kind KFloat"

text \<open>\<open>GEN_SKIP\<close> is empty.\<close>

definition VALUE_TYPES :: "string list" where "VALUE_TYPES = INTS @ FLOATS"

section \<open>Literals\<close>

definition uint_lit :: "nat \<Rightarrow> ('z rng_state_scheme, string) prog" where
  "uint_lit width =
     (let hi = push_bit width (1 :: int) - 1; corners = [0, 1, 2, hi, hi - 1, drop_bit 1 hi, drop_bit 1 hi + 1] in
      bind (flip flt_0_3) (\<lambda>c. bind (if c then choice corners else randint 0 hi) (\<lambda>v. ret (str_int v))))"

definition sint_lit :: "nat \<Rightarrow> ('z rng_state_scheme, string) prog" where
  "sint_lit width =
     (let lo = - push_bit (width - 1) (1 :: int); hi = push_bit (width - 1) (1 :: int) - 1;
          corners = [lo, lo + 1, -1, 0, 1, hi, hi - 1] in
      bind (flip flt_0_3) (\<lambda>c. bind (if c then choice corners else randint lo hi) (\<lambda>v. ret (str_int v))))"

definition decimal_lit :: "int \<Rightarrow> ('z rng_state_scheme, string) prog" where
  "decimal_lit m = bind (randint (- m) m) (\<lambda>a. bind (randint 0 999) (\<lambda>b. ret (str_int a @ ''.'' @ str_int b)))"

definition float_lit :: "('z rng_state_scheme, string) prog" where
  "float_lit = decimal_lit 1000"

definition small_float_lit :: "('z rng_state_scheme, string) prog" where
  "small_float_lit = decimal_lit 3"

text \<open>\<open>TYPES[tyname]\<close> and its entries \<open>lit\<close> and \<open>fold\<close>; the fold of \<open>bool\<close> is \<open>None\<close>, which cannot be called.\<close>

definition ty_at :: "string \<Rightarrow> type_row result" where
  "ty_at n = (case map_of TYPES n of None \<Rightarrow> Inl (KeyError n) | Some t \<Rightarrow> Inr t)"

definition lit_of :: "type_row \<Rightarrow> ('z rng_state_scheme, string) prog" where
  "lit_of t =
     (case ti_kind t of
        KUint \<Rightarrow> uint_lit (ti_width t) | KSint \<Rightarrow> sint_lit (ti_width t) | KSat \<Rightarrow> uint_lit (ti_width t)
      | KWrap \<Rightarrow> uint_lit (ti_width t) | KFloat \<Rightarrow> float_lit | KBool \<Rightarrow> choice [''true'', ''false''])"

definition ty_lit :: "string \<Rightarrow> ('z rng_state_scheme, string) prog" where
  "ty_lit n = bind (lift_result (ty_at n)) lit_of"

definition domain_fold :: "nat \<Rightarrow> string \<Rightarrow> string" where
  "domain_fold width n = ''((u'' @ str_nat width @ ''.wrap_from('' @ n @ '')) as u64)''"

definition ty_fold :: "string \<Rightarrow> string \<Rightarrow> string result" where
  "ty_fold n x =
     rbind (ty_at n) (\<lambda>t. case ti_kind t of
        KUint \<Rightarrow> Inr (''(('' @ x @ '') as u64)'') | KSint \<Rightarrow> Inr (''(('' @ x @ '') as u64)'')
      | KSat \<Rightarrow> Inr (domain_fold (ti_width t) x) | KWrap \<Rightarrow> Inr (domain_fold (ti_width t) x)
      | KFloat \<Rightarrow> Inr (if ti_width t = 64 then ''bitcast<u64>('' @ x @ '')'' else ''(bitcast<u32>('' @ x @ '') as u64)'')
      | KBool \<Rightarrow> Inl TypeError)"

section \<open>Facts about the table\<close>

definition SCALARS :: "string list" where
  "SCALARS = INTS @ FLOATS @ SATS @ WRAPS"

text \<open>No scalar type name begins with an upper-case letter or a bracket.\<close>

lemma scalar_head: "n \<in> set SCALARS \<Longrightarrow> n \<noteq> [] \<and> hd n \<in> set ''uiswf''"
proof -
  have "list_all (\<lambda>n. n \<noteq> [] \<and> hd n \<in> set ''uiswf'') SCALARS" by code_simp
  then show "n \<in> set SCALARS \<Longrightarrow> n \<noteq> [] \<and> hd n \<in> set ''uiswf''" by (simp add: list_all_iff)
qed

lemma scalar_info: "n \<in> set SCALARS \<Longrightarrow> \<exists>t. map_of TYPES n = Some t \<and> ti_kind t \<noteq> KBool \<and> 0 < ti_width t"
proof -
  have "list_all (\<lambda>n. case map_of TYPES n of None \<Rightarrow> False | Some t \<Rightarrow> ti_kind t \<noteq> KBool \<and> 0 < ti_width t) SCALARS" by code_simp
  then show "n \<in> set SCALARS \<Longrightarrow> \<exists>t. map_of TYPES n = Some t \<and> ti_kind t \<noteq> KBool \<and> 0 < ti_width t"
    by (force simp: list_all_iff split: option.splits)
qed

lemma ty_lists_nonempty [simp]: "UINTS \<noteq> []" "INTS \<noteq> []" "FLOATS \<noteq> []" "VALUE_TYPES \<noteq> []" "SATS \<noteq> []" "WRAPS \<noteq> []"
proof -
  have "UINTS \<noteq> []" by code_simp
  then show "UINTS \<noteq> []" "INTS \<noteq> []" "VALUE_TYPES \<noteq> []" by (simp_all add: INTS_def VALUE_TYPES_def)
  show "FLOATS \<noteq> []" by code_simp
  show "SATS \<noteq> []" by code_simp
  show "WRAPS \<noteq> []" by code_simp
qed

lemma scalar_lists: "set UINTS \<subseteq> set SCALARS" "set INTS \<subseteq> set SCALARS" "set VALUE_TYPES \<subseteq> set SCALARS" "set SATS \<subseteq> set SCALARS"
    "set WRAPS \<subseteq> set SCALARS" "set FLOATS \<subseteq> set SCALARS"
  by (auto simp: SCALARS_def INTS_def VALUE_TYPES_def)

lemma wp_uint_lit: "(\<And>x t. Q x (s\<lparr>tape := t\<rparr>)) \<Longrightarrow> wp (uint_lit w) Q s"
  unfolding uint_lit_def Let_def by (intro wp_intro) (auto simp: push_bit_eq_mult)

lemma wp_sint_lit: "0 < w \<Longrightarrow> (\<And>x t. Q x (s\<lparr>tape := t\<rparr>)) \<Longrightarrow> wp (sint_lit w) Q s"
  unfolding sint_lit_def Let_def by (intro wp_intro) (auto simp: push_bit_eq_mult)

lemma wp_decimal_lit [wp_intro]: "0 \<le> m \<Longrightarrow> (\<And>x t. Q x (s\<lparr>tape := t\<rparr>)) \<Longrightarrow> wp (decimal_lit m) Q s"
  unfolding decimal_lit_def by (intro wp_intro) auto

lemma wp_ty_lit [wp_intro]: "n \<in> set SCALARS \<Longrightarrow> (\<And>x t. Q x (s\<lparr>tape := t\<rparr>)) \<Longrightarrow> wp (ty_lit n) Q s"
proof -
  assume n: "n \<in> set SCALARS" and Q: "\<And>x t. Q x (s\<lparr>tape := t\<rparr>)"
  obtain t where t: "map_of TYPES n = Some t" "ti_kind t \<noteq> KBool" "0 < ti_width t" using scalar_info [OF n] by blast
  have "wp (lit_of t) Q s"
    using t Q by (cases "ti_kind t") (auto simp: lit_of_def float_lit_def intro!: wp_uint_lit wp_sint_lit wp_decimal_lit)
  with t(1) show "wp (ty_lit n) Q s" by (simp add: ty_lit_def ty_at_def)
qed

lemma ty_fold_ok: "n \<in> set SCALARS \<Longrightarrow> \<exists>y. ty_fold n x = Inr y"
  using scalar_info [of n] by (auto simp: ty_fold_def ty_at_def split: ty_kind.split)

end
