(* ===== verification/Mcfuzz_Gen.thy ===== *)
theory Mcfuzz_Gen
  imports Mcfuzz_Types
begin

text \<open>
  The type-directed generator \<open>Gen\<close> of \<open>src/tools/fuzz/mcfuzz.py\<close>: its state, its expressions and its statements. A
  method is a program over the state; the line lists that the methods append to (\<open>out\<close>, \<open>decls\<close>, \<open>terms\<close>) are
  part of the state. Draws happen in the order of the code.
\<close>

section \<open>State\<close>

record gen_state = rng_state +
  gs_float_bits :: bool
  gs_trapping :: bool
  gs_metamorph :: bool
  gs_env :: "string \<Rightarrow> string list option"
  gs_nvars :: nat
  gs_depth :: nat
  gs_structs :: "(string, (string \<times> string) list) dict"
  gs_enums :: "(string, string list) dict"
  gs_open_enums :: "(string, string list) dict"
  gs_functions :: "(string \<times> (string \<times> string) list \<times> string) list"
  gs_result_fns :: "(string \<times> string \<times> string) list"
  gs_agg_fns :: "(string \<times> string \<times> string) list"
  gs_arrays :: "(string, string \<times> nat) dict"
  gs_tuples :: "(string, string list) dict"
  gs_spk :: "string option"
  gs_conv_w :: "string option"
  gs_slice_helpers :: "string list"
  gs_aliases :: "(string, string) dict"
  gs_packed :: "(string, string list \<times> nat) dict"
  gs_offset_structs :: "(string, (string \<times> nat \<times> nat \<times> string) list) dict"
  gs_overlays :: "(string, nat) dict"
  gs_unions :: "(string, (string \<times> string) list \<times> string option) dict"
  gs_immutable :: "string list"
  gs_kernel_terms :: "string list"
  gs_decls :: "string list"
  gs_out :: "string list"
  gs_terms :: "string list"

type_synonym 'a gen = "(gen_state, 'a) prog"

definition new_gen :: "nat list \<Rightarrow> bool \<Rightarrow> bool \<Rightarrow> gen_state" where
  "new_gen draws trapping float_bits =
     \<lparr>tape = draws, gs_float_bits = float_bits, gs_trapping = trapping, gs_metamorph = False, gs_env = (\<lambda>_. None),
      gs_nvars = 0, gs_depth = 0, gs_structs = [], gs_enums = [], gs_open_enums = [], gs_functions = [], gs_result_fns = [],
      gs_agg_fns = [], gs_arrays = [], gs_tuples = [], gs_spk = None, gs_conv_w = None, gs_slice_helpers = [], gs_aliases = [],
      gs_packed = [], gs_offset_structs = [], gs_overlays = [], gs_unions = [], gs_immutable = [], gs_kernel_terms = [],
      gs_decls = [], gs_out = [], gs_terms = []\<rparr>"

definition get_state :: "gen_state gen" where
  "get_state = gets (\<lambda>s. s)"

definition fresh :: "string \<Rightarrow> string gen" where
  "fresh pre = bind (gets gs_nvars) (\<lambda>n. bind (modify (\<lambda>s. s\<lparr>gs_nvars := n + 1\<rparr>)) (\<lambda>_. ret (pre @ str_nat n)))"

definition emit :: "string \<Rightarrow> unit gen" where
  "emit l = modify (\<lambda>s. s\<lparr>gs_out := gs_out s @ [l]\<rparr>)"

definition emits :: "string list \<Rightarrow> unit gen" where
  "emits ls = modify (\<lambda>s. s\<lparr>gs_out := gs_out s @ ls\<rparr>)"

definition declare_text :: "string \<Rightarrow> unit gen" where
  "declare_text l = modify (\<lambda>s. s\<lparr>gs_decls := gs_decls s @ [l]\<rparr>)"

definition add_term :: "string \<Rightarrow> unit gen" where
  "add_term t = modify (\<lambda>s. s\<lparr>gs_terms := gs_terms s @ [t]\<rparr>)"

definition add_kernel_term :: "string \<Rightarrow> unit gen" where
  "add_kernel_term t = modify (\<lambda>s. s\<lparr>gs_kernel_terms := gs_kernel_terms s @ [t]\<rparr>)"

text \<open>\<open>self.env.get(t, [])\<close>, \<open>self.env[t]\<close>, \<open>self.env.setdefault(t, []).append(x)\<close>, \<open>self.env[t].remove(x)\<close>.\<close>

definition env_get :: "gen_state \<Rightarrow> string \<Rightarrow> string list" where
  "env_get s t = (case gs_env s t of None \<Rightarrow> [] | Some l \<Rightarrow> l)"

definition env_at :: "string \<Rightarrow> string list gen" where
  "env_at t = bind get_state (\<lambda>s. case gs_env s t of None \<Rightarrow> raise (KeyError t) | Some l \<Rightarrow> ret l)"

definition add_env :: "string \<Rightarrow> string \<Rightarrow> unit gen" where
  "add_env t x = modify (\<lambda>s. s\<lparr>gs_env := (gs_env s)(t \<mapsto> env_get s t @ [x])\<rparr>)"

definition remove_env :: "string \<Rightarrow> string \<Rightarrow> unit gen" where
  "remove_env t x =
     bind (env_at t) (\<lambda>l. if x \<in> set l then modify (\<lambda>s. s\<lparr>gs_env := (gs_env s)(t \<mapsto> remove1 x l)\<rparr>) else raise ValueError)"

definition alias_of :: "gen_state \<Rightarrow> string \<Rightarrow> string" where
  "alias_of s t = (case map_of (gs_aliases s) t of Some u \<Rightarrow> u | None \<Rightarrow> t)"

section \<open>Expressions\<close>

definition gen_leaf :: "string \<Rightarrow> string gen" where
  "gen_leaf ty =
     bind (gets gs_float_bits) (\<lambda>fb.
     bind (if fb then bind (lift_result (ty_at ty)) (\<lambda>t. ret (ti_kind t = KFloat)) else ret False) (\<lambda>small.
     if small then small_float_lit
     else
       bind (gets (\<lambda>s. env_get s ty)) (\<lambda>live.
       bind (flip_if (live \<noteq> []) flt_0_6) (\<lambda>c. if c then choice live else ty_lit ty))))"

definition anchored_pair :: "string \<Rightarrow> (string \<times> string) gen" where
  "anchored_pair ty =
     bind (gets (\<lambda>s. env_get s ty)) (\<lambda>live.
     bind (if live \<noteq> [] then choice live else gen_leaf ty) (\<lambda>a.
     bind (gen_leaf ty) (\<lambda>b. ret (a, b))))"

definition gen_checked :: "string \<Rightarrow> nat \<Rightarrow> bool \<Rightarrow> string gen" where
  "gen_checked ty width sg =
     bind (anchored_pair ty) (\<lambda>(a, b).
     bind (choice (if sg then [''+'', ''-'', ''*'', ''/'', ''neg''] else [''+'', ''-'', ''*'', ''/'', ''<<''])) (\<lambda>op.
     if op = ''<<'' then bind (randrange 0 width) (\<lambda>k. ret (''('' @ a @ '' << '' @ str_nat k @ '')''))
     else if op = ''neg'' then ret (''(-'' @ a @ '')'')
     else ret (''('' @ a @ '' '' @ op @ '' '' @ b @ '')'')))"

text \<open>The scalar kinds of \<open>gen_value\<close>; \<open>rec\<close> is \<open>gen_value\<close> at the same type one level deeper.\<close>

definition gen_float :: "string gen \<Rightarrow> string \<Rightarrow> nat \<Rightarrow> string gen" where
  "gen_float rec ty d =
     bind (if 3 \<le> d then ret True else flip flt_0_4) (\<lambda>stop.
     if stop then gen_leaf ty
     else
       bind (gets gs_float_bits) (\<lambda>fb.
       bind (choice (if fb then [''+'', ''-'', ''*''] else [''+'', ''-'', ''*'', ''/''])) (\<lambda>op.
       bind rec (\<lambda>a. bind rec (\<lambda>b. ret (''('' @ a @ '' '' @ op @ '' '' @ b @ '')''))))))"

definition gen_domain :: "type_row \<Rightarrow> string \<Rightarrow> string gen" where
  "gen_domain t ty =
     bind (gets (\<lambda>s. env_get s ty)) (\<lambda>live.
     bind (flip_if (live \<noteq> []) flt_0_6) (\<lambda>c.
     if c then
       bind (choice (if ti_kind t = KSat then [''+'', ''-'', ''*''] else [''+'', ''-'', ''*'', ''&'', ''|'', ''^''])) (\<lambda>op.
       bind (choice live) (\<lambda>a. bind (choice live) (\<lambda>b. ret (''('' @ a @ '' '' @ op @ '' '' @ b @ '')''))))
     else
       bind (flip_if (ti_kind t = KWrap \<and> live \<noteq> []) flt_0_3) (\<lambda>c.
       if c then bind (choice live) (\<lambda>a. bind (randrange 0 (ti_width t)) (\<lambda>k. ret (''('' @ a @ '' >> '' @ str_nat k @ '')'')))
       else gen_leaf ty)))"

definition gen_wadd :: "string \<Rightarrow> string gen" where
  "gen_wadd ty =
     bind (gets (\<lambda>s. env_get s ty)) (\<lambda>live.
     if live = [] then gen_leaf ty
     else bind (choice live) (\<lambda>a. bind (gen_leaf ty) (\<lambda>b. ret (''wrapping.add('' @ a @ '', '' @ b @ '')''))))"

definition gen_conv :: "string \<Rightarrow> string gen" where
  "gen_conv ty =
     bind (gets (\<lambda>s. filter (\<lambda>t. env_get s t \<noteq> []) INTS)) (\<lambda>candidates.
     bind (flip_if (candidates \<noteq> []) flt_0_7) (\<lambda>c.
     bind (if c then bind (choice candidates) (\<lambda>src. bind (env_at src) (\<lambda>l. bind (choice l) (\<lambda>v. ret (src, v))))
           else bind (choice UINTS) (\<lambda>src. bind (ty_lit src) (\<lambda>v. ret (src, v)))) (\<lambda>(src, v).
     bind (lift_result (ty_fold src v)) (\<lambda>f. ret (ty @ ''.wrap_from('' @ f @ '')'')))))"

definition gen_uint :: "type_row \<Rightarrow> string \<Rightarrow> string gen" where
  "gen_uint t ty =
     bind (gets gs_trapping) (\<lambda>trapping.
     bind (flip_if trapping flt_0_5) (\<lambda>c.
     if c then gen_checked ty (ti_width t) False
     else
       bind (choice [''wadd'', ''and'', ''or'', ''xor'', ''shr'', ''conv'']) (\<lambda>op.
       if op = ''wadd'' then gen_wadd ty
       else if op = ''and'' \<or> op = ''or'' \<or> op = ''xor'' then
         (let sym = (if op = ''and'' then ''&'' else if op = ''or'' then ''|'' else ''^'') in
          bind (gen_leaf ty) (\<lambda>a. bind (gen_leaf ty) (\<lambda>b. ret (''('' @ a @ '' '' @ sym @ '' '' @ b @ '')''))))
       else if op = ''shr'' then
         bind (gen_leaf ty) (\<lambda>a. bind (randrange 0 (ti_width t)) (\<lambda>k. ret (''('' @ a @ '' >> '' @ str_nat k @ '')'')))
       else gen_conv ty)))"

definition gen_sint :: "type_row \<Rightarrow> string \<Rightarrow> string gen" where
  "gen_sint t ty =
     bind (gets gs_trapping) (\<lambda>trapping.
     bind (flip_if trapping flt_0_5) (\<lambda>c. if c then gen_checked ty (ti_width t) True else gen_wadd ty))"

definition gen_scalar :: "string gen \<Rightarrow> string \<Rightarrow> nat \<Rightarrow> string gen" where
  "gen_scalar rec ty d =
     bind (lift_result (ty_at ty)) (\<lambda>t.
     if ti_kind t = KFloat then gen_float rec ty d
     else if ti_kind t = KSat \<or> ti_kind t = KWrap then gen_domain t ty
     else
       bind (flip flt_0_35) (\<lambda>c.
       if c then gen_leaf ty
       else if ti_kind t = KUint then gen_uint t ty
       else if ti_kind t = KSint then gen_sint t ty
       else raise AssertionError))"

text \<open>\<open>self.enums.get(t) or self.open_enums[t]\<close>.\<close>

definition enum_variants :: "gen_state \<Rightarrow> string \<Rightarrow> string list result" where
  "enum_variants s t =
     (case map_of (gs_enums s) t of
        Some (v # vs) \<Rightarrow> Inr (v # vs)
      | _ \<Rightarrow> (case map_of (gs_open_enums s) t of Some vs \<Rightarrow> Inr vs | None \<Rightarrow> Inl (KeyError t)))"

definition gen_call :: "string \<times> (string \<times> string) list \<times> string \<Rightarrow> string gen" where
  "gen_call fn =
     (case fn of (name, params, r) \<Rightarrow>
        bind (map_m (\<lambda>(pn, pt). gen_leaf pt) params) (\<lambda>args. ret (name @ ''('' @ join '', '' args @ '')'')))"

text \<open>
  \<open>gen_value\<close> recurses into the declared aggregates and, for floats, three levels deep. The first argument is
  the stack the recursion may use; running out of it is Python's \<open>RecursionError\<close>.
\<close>

primrec gen_value :: "nat \<Rightarrow> string \<Rightarrow> nat \<Rightarrow> string gen" where
  "gen_value 0 ty d = raise RecursionError"
| "gen_value (Suc n) ty d =
     bind get_state (\<lambda>s.
     case map_of (gs_aliases s) ty of
       Some u \<Rightarrow> gen_value n u d
     | None \<Rightarrow>
     (case map_of (gs_structs s) ty of
       Some fs \<Rightarrow>
         bind (map_m (\<lambda>(f, t). bind (gen_value n t 0) (\<lambda>v. ret (''.'' @ f @ '' = '' @ v))) fs) (\<lambda>xs.
           ret (''.{ '' @ join '', '' xs @ '' }''))
     | None \<Rightarrow>
     if ty \<in> fst ` set (gs_enums s) \<or> ty \<in> fst ` set (gs_open_enums s) then
       bind (lift_result (enum_variants s ty)) (\<lambda>vs. bind (choice vs) (\<lambda>v. ret (''.'' @ v)))
     else
     (case map_of (gs_arrays s) ty of
       Some (elem, len) \<Rightarrow>
         (let aggregate = elem \<in> fst ` set (gs_structs s) \<or> elem \<in> fst ` set (gs_arrays s) \<or> elem \<in> fst ` set (gs_open_enums s) in
          bind (repeat_m len (if aggregate then gen_value n elem 0 else gen_leaf elem)) (\<lambda>xs. ret (''.{ '' @ join '', '' xs @ '' }'')))
     | None \<Rightarrow>
     (case map_of (gs_tuples s) ty of
       Some ets \<Rightarrow> bind (map_m (\<lambda>et. gen_value n et 0) ets) (\<lambda>xs. ret (''('' @ join '', '' xs @ '')''))
     | None \<Rightarrow>
         bind (flip_if (d < 2 \<and> gs_functions s \<noteq> []) flt_0_3) (\<lambda>c.
           let cands = (if c then filter (\<lambda>(name, params, r). r = ty) (gs_functions s) else []) in
           if cands \<noteq> [] then bind (choice cands) gen_call else gen_scalar (gen_value n ty (d + 1)) ty d)))))"

text \<open>The declared types nest at most seven deep, floats four, and an alias adds one.\<close>

definition value_depth :: nat where
  "value_depth = 16"

definition gen_val :: "string \<Rightarrow> nat \<Rightarrow> string gen" where
  "gen_val ty d = gen_value value_depth ty d"

text \<open>\<open>gen_bool(d)\<close>; \<open>deep\<close> is \<open>d < 2\<close> and \<open>rec\<close> is \<open>gen_bool(d + 1)\<close>. The argument of \<open>gen_bool\<close> below is \<open>2 - d\<close>.\<close>

definition CMPS :: "string list" where
  "CMPS = [''<'', ''<='', ''>'', ''>='', ''=='', ''!='']"

definition gen_compare :: "string gen" where
  "gen_compare =
     bind (gets (\<lambda>s. filter (\<lambda>t. env_get s t \<noteq> []) VALUE_TYPES)) (\<lambda>typed.
     bind (choice typed) (\<lambda>ty.
     bind (env_at ty) (\<lambda>pool.
     bind (choice pool) (\<lambda>var.
     bind (flip_if (1 < length pool) flt_0_5) (\<lambda>c.
     bind (if c then choice pool else ty_lit ty) (\<lambda>other.
     bind (choice CMPS) (\<lambda>cmp.
     bind (flip flt_0_5) (\<lambda>c.
       ret (if c then ''('' @ var @ '' '' @ cmp @ '' '' @ other @ '')'' else ''('' @ other @ '' '' @ cmp @ '' '' @ var @ '')'')))))))))"

definition gen_domain_compare :: "string list \<Rightarrow> string gen" where
  "gen_domain_compare doms =
     bind (choice doms) (\<lambda>ty.
     bind (env_at ty) (\<lambda>pool.
     bind (choice pool) (\<lambda>a.
     bind (choice pool) (\<lambda>b.
     bind (lift_result (ty_at ty)) (\<lambda>t.
     bind (choice (if ti_kind t = KWrap then [''=='', ''!=''] else CMPS)) (\<lambda>cmp.
       ret (''('' @ a @ '' '' @ cmp @ '' '' @ b @ '')'')))))))"

definition gen_bool_step :: "string gen \<Rightarrow> bool \<Rightarrow> string gen" where
  "gen_bool_step rec deep =
     bind (flip_if deep flt_0_25) (\<lambda>c.
     if c then
       bind (choice [''&&'', ''||'']) (\<lambda>op. bind rec (\<lambda>a. bind rec (\<lambda>b. ret (''('' @ a @ '' '' @ op @ '' '' @ b @ '')''))))
     else
       bind (gets (\<lambda>s. filter (\<lambda>t. 2 \<le> length (env_get s t)) (SATS @ WRAPS))) (\<lambda>doms.
       bind (flip_if (doms \<noteq> [] \<and> deep) flt_0_3) (\<lambda>c.
       if c then gen_domain_compare doms
       else
         bind (gets (\<lambda>s. filter (\<lambda>t. env_get s t \<noteq> []) VALUE_TYPES)) (\<lambda>typed.
         if typed = [] then choice [''true'', ''false'']
         else
           bind (flip_if deep flt_0_2) (\<lambda>c.
           if c then bind rec (\<lambda>a. ret (''(!'' @ a @ '')'')) else gen_compare)))))"

primrec gen_bool_levels :: "nat \<Rightarrow> string gen" where
  "gen_bool_levels 0 = gen_bool_step (raise RecursionError) False"
| "gen_bool_levels (Suc k) = gen_bool_step (gen_bool_levels k) True"

definition gen_bool :: "string gen" where
  "gen_bool = gen_bool_levels 2"

definition u64_expr :: "string gen" where
  "u64_expr =
     bind (gets (\<lambda>s. filter (\<lambda>t. env_get s t \<noteq> []) INTS)) (\<lambda>ints.
     if ints \<noteq> [] then
       bind (choice ints) (\<lambda>ty. bind (env_at ty) (\<lambda>l. bind (choice l) (\<lambda>v. lift_result (ty_fold ty v))))
     else bind (randrange 0 1000) (\<lambda>k. ret (str_nat k)))"

section \<open>Statements\<close>

definition local_types :: "gen_state \<Rightarrow> string list" where
  "local_types s =
     VALUE_TYPES @ SATS @ WRAPS @ map fst (gs_aliases s) @ map fst (gs_structs s) @ map fst (gs_enums s) @
     map fst (gs_open_enums s) @ map fst (gs_arrays s) @ map fst (gs_tuples s)"

definition int_array_vars :: "gen_state \<Rightarrow> (string \<times> string) list" where
  "int_array_vars s =
     concat (map (\<lambda>(ty, elem, len). if elem \<in> set INTS then map (\<lambda>name. (name, elem)) (env_get s ty) else []) (gs_arrays s))"

definition mutable_vars :: "gen_state \<Rightarrow> string \<Rightarrow> string list" where
  "mutable_vars s ty = filter (\<lambda>v. v \<notin> set (gs_immutable s)) (env_get s ty)"

definition has_any_var :: "gen_state \<Rightarrow> bool" where
  "has_any_var s \<longleftrightarrow> list_ex (\<lambda>t. mutable_vars s t \<noteq> []) VALUE_TYPES"

definition pick_var :: "(string \<times> string) gen" where
  "pick_var =
     bind get_state (\<lambda>s.
     bind (choice (filter (\<lambda>t. mutable_vars s t \<noteq> []) VALUE_TYPES)) (\<lambda>ty.
     bind (choice (mutable_vars s ty)) (\<lambda>v. ret (ty, v))))"

definition aggregate_types :: "gen_state \<Rightarrow> string list" where
  "aggregate_types s = map fst (gs_structs s) @ map fst (gs_arrays s)"

definition has_aggregate_var :: "gen_state \<Rightarrow> bool" where
  "has_aggregate_var s \<longleftrightarrow> list_ex (\<lambda>t. env_get s t \<noteq> []) (aggregate_types s)"

text \<open>The walk from a live aggregate down to a leaf; the first argument bounds the number of steps.\<close>

primrec lvalue_walk :: "nat \<Rightarrow> string \<Rightarrow> string \<Rightarrow> (string \<times> string) gen" where
  "lvalue_walk 0 path ty = raise RecursionError"
| "lvalue_walk (Suc n) path ty =
     bind get_state (\<lambda>s.
     case map_of (gs_structs s) ty of
       Some fs \<Rightarrow> bind (choice fs) (\<lambda>(f, t). lvalue_walk n (path @ ''.'' @ f) t)
     | None \<Rightarrow>
     (case map_of (gs_arrays s) ty of
       Some (elem, len) \<Rightarrow> bind (randrange 0 len) (\<lambda>k. lvalue_walk n (path @ ''['' @ str_nat k @ '']'') elem)
     | None \<Rightarrow> ret (path, ty)))"

definition aggregate_lvalue :: "(string \<times> string) gen" where
  "aggregate_lvalue =
     bind get_state (\<lambda>s.
     bind (choice (concat (map (\<lambda>t. map (\<lambda>name. (name, t)) (env_get s t)) (aggregate_types s)))) (\<lambda>(path, ty).
       lvalue_walk value_depth path ty))"

definition live_enum_vars :: "gen_state \<Rightarrow> (string \<times> string list) list" where
  "live_enum_vars s =
     concat (map (\<lambda>(ename, vs). map (\<lambda>name. (name, vs)) (env_get s ename)) (gs_enums s @ gs_open_enums s))"

text \<open>\<open>for x in xs: step(x)\<close>.\<close>

primrec for_m :: "('x \<Rightarrow> ('s, unit) prog) \<Rightarrow> 'x list \<Rightarrow> ('s, unit) prog" where
  "for_m f [] = ret ()"
| "for_m f (x # xs) = bind (f x) (\<lambda>_. for_m f xs)"

text \<open>The statement forms; \<open>blk\<close> is \<open>self.block\<close> and its argument is the indentation.\<close>

definition declare_local :: "string \<Rightarrow> string \<Rightarrow> unit gen" where
  "declare_local padding ty =
     bind (fresh ''v'') (\<lambda>name.
     bind (gen_val ty 0) (\<lambda>v.
     bind (emit (padding @ ''var '' @ name @ '': '' @ ty @ '' = '' @ v @ '';'')) (\<lambda>_.
     bind (gets (\<lambda>s. alias_of s ty)) (\<lambda>u. add_env u name))))"

definition stmt_decl :: "nat \<Rightarrow> unit gen" where
  "stmt_decl ind = bind (gets local_types) (\<lambda>ts. bind (choice ts) (declare_local (pad ind)))"

definition stmt_assign :: "nat \<Rightarrow> unit gen" where
  "stmt_assign ind =
     bind get_state (\<lambda>s.
     bind (if has_aggregate_var s then (if \<not> has_any_var s then ret True else flip flt_0_4) else ret False) (\<lambda>c.
     if c then
       bind aggregate_lvalue (\<lambda>(path, t). bind (gen_val t 0) (\<lambda>v. emit (pad ind @ path @ '' = '' @ v @ '';'')))
     else
       bind pick_var (\<lambda>(ty, name).
       bind (gen_val ty 0) (\<lambda>rhs.
       bind (if rhs = name then gen_val ty 1 else ret rhs) (\<lambda>rhs.
         emit (pad ind @ name @ '' = '' @ rhs @ '';''))))))"

definition stmt_if :: "(nat \<Rightarrow> unit gen) \<Rightarrow> nat \<Rightarrow> unit gen" where
  "stmt_if blk ind =
     bind gen_bool (\<lambda>c.
     bind (emit (pad ind @ ''if '' @ c @ '' {'')) (\<lambda>_.
     bind (blk (ind + 1)) (\<lambda>_.
     bind (emit (pad ind @ ''} else {'')) (\<lambda>_.
     bind (blk (ind + 1)) (\<lambda>_. emit (pad ind @ ''}''))))))"

definition stmt_switch :: "(nat \<Rightarrow> unit gen) \<Rightarrow> nat \<Rightarrow> unit gen" where
  "stmt_switch blk ind =
     bind (gets live_enum_vars) (\<lambda>evs.
     bind (choice evs) (\<lambda>(var, variants).
     bind (emit (pad ind @ ''switch '' @ var @ '' {'')) (\<lambda>_.
     bind (for_m (\<lambda>v.
         bind (emit (pad ind @ ''    .'' @ v @ '' => {'')) (\<lambda>_.
         bind (blk (ind + 2)) (\<lambda>_. emit (pad ind @ ''    }'')))) (butlast variants)) (\<lambda>_.
     bind (emit (pad ind @ ''    _ => {'')) (\<lambda>_.
     bind (blk (ind + 2)) (\<lambda>_. emits [pad ind @ ''    }'', pad ind @ ''}'']))))))"

definition stmt_return :: "nat \<Rightarrow> unit gen" where
  "stmt_return ind =
     bind gen_bool (\<lambda>c. bind u64_expr (\<lambda>v. emit (pad ind @ ''if '' @ c @ '' { return '' @ v @ ''; }'')))"

definition stmt_for :: "(nat \<Rightarrow> unit gen) \<Rightarrow> nat \<Rightarrow> unit gen" where
  "stmt_for blk ind =
     bind (gets int_array_vars) (\<lambda>avs.
     bind (choice avs) (\<lambda>(arr, elem).
     bind (fresh ''x'') (\<lambda>x.
     bind (emit (pad ind @ ''for '' @ x @ '' in '' @ arr @ '' {'')) (\<lambda>_.
     bind (add_env elem x) (\<lambda>_.
     bind (modify (\<lambda>s. s\<lparr>gs_immutable := List.insert x (gs_immutable s)\<rparr>)) (\<lambda>_.
     bind (blk (ind + 1)) (\<lambda>_.
     bind (remove_env elem x) (\<lambda>_.
     bind (modify (\<lambda>s. s\<lparr>gs_immutable := removeAll x (gs_immutable s)\<rparr>)) (\<lambda>_.
       emit (pad ind @ ''}''))))))))))"

definition stmt_while :: "nat \<Rightarrow> unit gen" where
  "stmt_while ind =
     bind (randrange 1 5) (\<lambda>n.
     bind (fresh ''j'') (\<lambda>i.
     bind (emits [pad ind @ ''var '' @ i @ '': u64 = 0;'', pad ind @ ''while '' @ i @ '' < '' @ str_nat n @ '' {'',
       pad ind @ ''    '' @ i @ '' = '' @ i @ '' + 1;'']) (\<lambda>_.
     bind (flip flt_0_3) (\<lambda>c.
     bind (if c then bind gen_bool (\<lambda>b. emit (pad ind @ ''    if '' @ b @ '' { break; }'')) else ret ()) (\<lambda>_.
     bind (flip flt_0_3) (\<lambda>c.
     bind (if c then bind gen_bool (\<lambda>b. emit (pad ind @ ''    if '' @ b @ '' { continue; }'')) else ret ()) (\<lambda>_.
     bind (gets has_any_var) (\<lambda>h.
     bind (if h then
         bind pick_var (\<lambda>(ty, name). bind (gen_val ty 1) (\<lambda>v. emit (pad ind @ ''    '' @ name @ '' = '' @ v @ '';'')))
       else ret ()) (\<lambda>_. emit (pad ind @ ''}''))))))))))"

text \<open>\<open>stmt\<close>: the form is chosen by one draw and by what the state offers.\<close>

definition stmt_step :: "(nat \<Rightarrow> unit gen) \<Rightarrow> nat \<Rightarrow> unit gen" where
  "stmt_step blk ind =
     bind py_random (\<lambda>r.
     bind get_state (\<lambda>s.
     if gs_depth s = 0 \<and> r < flt_0_45 then stmt_decl ind
     else if r < flt_0_65 \<and> (has_any_var s \<or> has_aggregate_var s) then stmt_assign ind
     else if r < flt_0_8 \<and> gs_depth s < 3 then stmt_if blk ind
     else if r < flt_0_84 \<and> gs_depth s < 3 \<and> live_enum_vars s \<noteq> [] then stmt_switch blk ind
     else if r < flt_0_88 then stmt_return ind
     else if r < flt_0_93 \<and> gs_depth s < 3 \<and> int_array_vars s \<noteq> [] then stmt_for blk ind
     else stmt_while ind))"

text \<open>Blocks nest three deep, so three levels of recursion are enough.\<close>

primrec gen_block :: "nat \<Rightarrow> nat \<Rightarrow> unit gen" where
  "gen_block 0 ind = raise RecursionError"
| "gen_block (Suc n) ind =
     bind (modify (\<lambda>s. s\<lparr>gs_depth := gs_depth s + 1\<rparr>)) (\<lambda>_.
     bind (randrange 1 4) (\<lambda>k.
     bind (repeat_m k (stmt_step (gen_block n) ind)) (\<lambda>_.
       modify (\<lambda>s. s\<lparr>gs_depth := gs_depth s - 1\<rparr>))))"

definition gen_stmt :: "nat \<Rightarrow> unit gen" where
  "gen_stmt ind = stmt_step (gen_block 3) ind"

text \<open>\<open>fold_type\<close>: the digest terms of a value, down to its scalar leaves.\<close>

primrec fold_type :: "nat \<Rightarrow> string \<Rightarrow> string \<Rightarrow> unit gen" where
  "fold_type 0 access ty = raise RecursionError"
| "fold_type (Suc n) access ty =
     bind get_state (\<lambda>s.
     case map_of (gs_structs s) ty of
       Some fs \<Rightarrow> for_m (\<lambda>(f, t). fold_type n (access @ ''.'' @ f) t) fs
     | None \<Rightarrow>
     (case map_of (gs_arrays s) ty of
       Some (elem, len) \<Rightarrow> for_m (\<lambda>k. fold_type n (access @ ''['' @ str_nat k @ '']'') elem) [0..<len]
     | None \<Rightarrow>
     (case map_of (gs_tuples s) ty of
       Some ets \<Rightarrow> for_m (\<lambda>(i, et). fold_type n (access @ ''.'' @ str_nat i) et) (enumerate 0 ets)
     | None \<Rightarrow>
     if ty \<in> fst ` set (gs_open_enums s) then add_term (''('' @ access @ ''.raw() as u64)'')
     else bind (lift_result (ty_fold ty access)) add_term)))"

end
