(* ===== verification/Mcfuzz_Gen_Program.thy ===== *)
theory Mcfuzz_Gen_Program
  imports Mcfuzz_Gen
begin

text \<open>
  The declarations, the observers and \<open>program\<close> of the type-directed generator: the second half of \<open>Gen\<close> in
  \<open>src/tools/fuzz/mcfuzz.py\<close>. The long method \<open>program\<close> is cut where its comments cut it.
\<close>

section \<open>Helper functions\<close>

text \<open>Run with an environment of its own at depth 1, as the helper generators do around a body.\<close>

definition with_env :: "(string \<Rightarrow> string list option) \<Rightarrow> 'a gen \<Rightarrow> 'a gen" where
  "with_env e m =
     bind get_state (\<lambda>s0.
     bind (modify (\<lambda>s. s\<lparr>gs_env := e, gs_depth := 1\<rparr>)) (\<lambda>_.
     bind m (\<lambda>x.
     bind (modify (\<lambda>s. s\<lparr>gs_env := gs_env s0, gs_depth := gs_depth s0\<rparr>)) (\<lambda>_. ret x))))"

definition param_list :: "(string \<times> string) list \<Rightarrow> string" where
  "param_list ps = join '', '' (map (\<lambda>(n, t). n @ '': '' @ t) ps)"

definition gen_function :: "nat \<Rightarrow> unit gen" where
  "gen_function i =
     bind (randrange 1 4) (\<lambda>np.
     bind (map_m (\<lambda>j. bind (choice VALUE_TYPES) (\<lambda>t. ret (''p'' @ str_nat j, t))) [0..<np]) (\<lambda>params.
     bind (choice VALUE_TYPES) (\<lambda>r.
     bind (with_env (\<lambda>_. None) (bind (for_m (\<lambda>(pn, pt). add_env pt pn) params) (\<lambda>_. gen_val r 0))) (\<lambda>v.
     bind (declare_text (''fn fn'' @ str_nat i @ ''('' @ param_list params @ '') -> '' @ r @ '' {'' @ nl @ ''    return '' @ v @ '';'' @ nl @ ''}'')) (\<lambda>_.
       modify (\<lambda>s. s\<lparr>gs_functions := gs_functions s @ [(''fn'' @ str_nat i, params, r)]\<rparr>))))))"

definition gen_functions :: "unit gen" where
  "gen_functions = bind (randrange 2 5) (\<lambda>n. for_m gen_function [0..<n])"

definition gen_result_body :: "string \<Rightarrow> string list gen" where
  "gen_result_body ot =
     bind (gets gs_result_fns) (\<lambda>rfs.
     bind (flip_if (rfs \<noteq> []) flt_0_5) (\<lambda>c.
     bind (if c then
         bind (choice rfs) (\<lambda>(cname, cpt, cot).
         bind (gen_leaf cpt) (\<lambda>a.
         bind (add_env cot ''cv'') (\<lambda>_. ret [''    let cv: '' @ cot @ '' = '' @ cname @ ''('' @ a @ '')?;''])))
       else ret []) (\<lambda>chain.
     bind gen_bool (\<lambda>b.
     bind (ty_lit ''u32'') (\<lambda>e.
     bind (gen_val ot 0) (\<lambda>v.
       ret (chain @ [''    if '' @ b @ '' { return err('' @ e @ ''); }'', ''    return ok('' @ v @ '');''])))))))"

definition gen_result_function :: "nat \<Rightarrow> unit gen" where
  "gen_result_function i =
     bind (choice INTS) (\<lambda>pt.
     bind (choice INTS) (\<lambda>ot.
     bind (with_env [pt \<mapsto> [''p'']] (gen_result_body ot)) (\<lambda>lines.
     bind (declare_text (''fn r'' @ str_nat i @ ''(p: '' @ pt @ '') -> Result<'' @ ot @ '', u32> {'' @ nl @ join nl lines @ nl @ ''}'')) (\<lambda>_.
       modify (\<lambda>s. s\<lparr>gs_result_fns := gs_result_fns s @ [(''r'' @ str_nat i, pt, ot)]\<rparr>)))))"

definition gen_result_functions :: "unit gen" where
  "gen_result_functions = bind (randrange 0 3) (\<lambda>n. for_m gen_result_function [0..<n])"

definition add_agg_fn :: "string \<Rightarrow> string \<Rightarrow> string \<Rightarrow> unit gen" where
  "add_agg_fn name pt rt = modify (\<lambda>s. s\<lparr>gs_agg_fns := gs_agg_fns s @ [(name, pt, rt)]\<rparr>)"

definition gen_aggregate_abi :: "unit gen" where
  "gen_aggregate_abi =
     bind get_state (\<lambda>s0.
     bind (randrange 0 2) (\<lambda>n.
     bind (for_m (\<lambda>_.
         if aggregate_types s0 = [] then ret ()
         else
           bind (choice (aggregate_types s0)) (\<lambda>t.
           bind (fresh ''aggid'') (\<lambda>name.
           bind (declare_text (''fn '' @ name @ ''(p: '' @ t @ '') -> '' @ t @ '' {'' @ nl @ ''    return p;'' @ nl @ ''}'')) (\<lambda>_.
             add_agg_fn name t t)))) [0..<n]) (\<lambda>_.
     (let int_fields = concat (map (\<lambda>(s, fs). List.map_filter (\<lambda>(f, ft). if ft \<in> set INTS then Some (s, f, ft) else None) fs) (gs_structs s0)) in
      bind (flip_if (int_fields \<noteq> []) flt_0_6) (\<lambda>c.
      if c then
        bind (choice int_fields) (\<lambda>(s, f, ft).
        bind (fresh ''aggget'') (\<lambda>name.
        bind (declare_text (''fn '' @ name @ ''(p: '' @ s @ '') -> '' @ ft @ '' {'' @ nl @ ''    return p.'' @ f @ '';'' @ nl @ ''}'')) (\<lambda>_.
          add_agg_fn name s ft)))
      else ret ())))))"

section \<open>Kernel surface: packed bits, offsets, overlays, atomics\<close>

definition gen_packed :: "nat \<Rightarrow> unit gen" where
  "gen_packed i =
     bind (choice [8, 16, 32]) (\<lambda>w.
     bind (randrange 1 (min w 5 + 1)) (\<lambda>nf.
     (let flds = map (\<lambda>j. ''pf'' @ str_nat j) [0..<nf]; name = ''PB'' @ str_nat i in
      bind (modify (\<lambda>s. s\<lparr>gs_packed := dict_set (gs_packed s) name (flds, w)\<rparr>)) (\<lambda>_.
        declare_text (''packed bits '' @ name @ '': u'' @ str_nat w @ '' { '' @ join '', '' (map (\<lambda>f. f @ '': bool'') flds) @ '' }'')))))"

definition gen_kernel_decls :: "unit gen" where
  "gen_kernel_decls = bind (randrange 0 2) (\<lambda>n. for_m gen_packed [0..<n])"

text \<open>The fields of an offset struct from number \<open>j\<close> and running offset \<open>off\<close>; each offset is rounded up to the width.\<close>

primrec offset_fields :: "nat \<Rightarrow> nat \<Rightarrow> nat \<Rightarrow> (string \<times> nat \<times> nat \<times> string) list gen" where
  "offset_fields 0 j off = ret []"
| "offset_fields (Suc n) j off =
     bind (choice [8, 16, 32]) (\<lambda>w.
     bind (choice [''.read'', ''.write'', ''.read_write'']) (\<lambda>mode.
     bind (if j = 0 then ret 0
           else bind (flip flt_0_5) (\<lambda>tight. if tight then ret off else bind (choice [w div 8, 8, 16, 64, 256]) (\<lambda>g. ret (off + g)))) (\<lambda>c0.
     (let sz = w div 8; cur = (if c0 mod sz \<noteq> 0 then c0 + (sz - c0 mod sz) else c0) in
      bind (offset_fields n (j + 1) (cur + sz)) (\<lambda>fs. ret ((''of'' @ str_nat j, w, cur, mode) # fs))))))"

definition gen_offset_decl :: "nat \<Rightarrow> unit gen" where
  "gen_offset_decl i =
     (let name = ''OFF'' @ str_nat i in
      bind (randrange 2 5) (\<lambda>nf.
      bind (offset_fields nf 0 0) (\<lambda>flds.
      bind (modify (\<lambda>s. s\<lparr>gs_offset_structs := dict_set (gs_offset_structs s) name flds\<rparr>)) (\<lambda>_.
      bind (declare_text (''extern mmio struct '' @ name @ '' {'' @ nl @
        join nl (map (\<lambda>(f, w, cur, m). ''    '' @ f @ '': Reg<u'' @ str_nat w @ '', '' @ m @ ''> @offset('' @ str_nat cur @ ''),'') flds) @ nl @ ''}'')) (\<lambda>_.
        declare_text (''fn offobs_'' @ name @ ''() -> u64 {'' @ nl @
          ''    return ((sizeof('' @ name @ '') as u64) ^ ((field_offset('' @ name @ '', .'' @ fst (last flds) @ '') as u64) << 1));'' @ nl @ ''}''))))))"

definition half_count :: "nat \<Rightarrow> nat" where
  "half_count w = (if w = 32 then 2 else 4)"

definition overlay_members :: "nat \<Rightarrow> (string \<times> string) list" where
  "overlay_members w =
     [(''u'', ''u'' @ str_nat w), (''bytes'', ''['' @ str_nat (w div 8) @ '']u8''), (''halves'', ''['' @ str_nat (half_count w) @ '']u16'')]"

definition gen_overlay_decl :: "nat \<Rightarrow> unit gen" where
  "gen_overlay_decl i =
     (let name = ''OV'' @ str_nat i in
      bind (choice [32, 64]) (\<lambda>w.
      bind (modify (\<lambda>s. s\<lparr>gs_overlays := dict_set (gs_overlays s) name w\<rparr>)) (\<lambda>_.
      bind (declare_text (''overlay union '' @ name @ '' {'' @ nl @ join nl (map (\<lambda>(m, t). ''    '' @ m @ '': '' @ t @ '','') (overlay_members w)) @ nl @ ''}'')) (\<lambda>_.
      bind (gets gs_metamorph) (\<lambda>mm.
      if mm then
        declare_text (''fn ovhalf_'' @ name @ ''(o: '' @ name @ '', i: usize) -> u64 {'' @ nl @ ''    return (o.halves[i] as u64);'' @ nl @ ''}'')
      else ret ())))))"

definition gen_offset_overlay_decls :: "unit gen" where
  "gen_offset_overlay_decls =
     bind (randrange 0 2) (\<lambda>n. bind (for_m gen_offset_decl [0..<n]) (\<lambda>_.
     bind (randrange 0 2) (\<lambda>n. for_m gen_overlay_decl [0..<n])))"

definition gen_offset_observer :: "string \<times> (string \<times> nat \<times> nat \<times> string) list \<Rightarrow> unit gen" where
  "gen_offset_observer x =
     (case x of (name, flds) \<Rightarrow>
        bind (fresh ''offv'') (\<lambda>ov.
        bind (emit (''    var '' @ ov @ '': u64 = offobs_'' @ name @ ''();'')) (\<lambda>_.
        bind (add_kernel_term ov) (\<lambda>_.
        bind (ret (last flds)) (\<lambda>(lastf, lastw, lo, m).
        bind (fresh ''offid'') (\<lambda>idn.
        bind (emits [''    var '' @ idn @ '': u64 = 0;'',
          ''    if ((field_offset('' @ name @ '', .'' @ lastf @ '') as u64) + '' @ str_nat (lastw div 8) @ '') <= (sizeof('' @ name @
          '') as u64) { '' @ idn @ '' = 1; }'']) (\<lambda>_. add_kernel_term idn)))))))"

definition gen_overlay_observer :: "string \<times> nat \<Rightarrow> unit gen" where
  "gen_overlay_observer x =
     (case x of (name, w) \<Rightarrow>
        bind (gets gs_metamorph) (\<lambda>mm.
        bind (fresh ''ovv'') (\<lambda>vn.
        bind (emit (''    var '' @ vn @ '': '' @ name @ '' = uninit;'')) (\<lambda>_.
        bind (randrange 1 (2 ^ min w 32)) (\<lambda>u.
        bind (emit (''    '' @ vn @ ''.u = '' @ str_nat u @ '';'')) (\<lambda>_.
        bind (fresh ''ovo'') (\<lambda>acc.
        bind (if \<not> mm then emit (''    var '' @ acc @ '': u64 = ('' @ vn @ ''.u as u64);'')
              else
                bind (fresh ''ovrec'') (\<lambda>rcv.
                bind (emit (''    var '' @ rcv @ '': u64 = 0;'')) (\<lambda>_.
                bind (for_m (\<lambda>k. emit (''    '' @ rcv @ '' = ('' @ rcv @ '' | (('' @ vn @ ''.bytes['' @ str_nat k @ ''] as u64) << '' @ str_nat (k * 8) @ ''));''))
                  [0..<w div 8]) (\<lambda>_.
                  emit (''    var '' @ acc @ '': u64 = '' @ rcv @ '';''))))) (\<lambda>_.
        bind (for_m (\<lambda>k. emit (''    '' @ acc @ '' = ('' @ acc @ '' ^ (('' @ vn @ ''.bytes['' @ str_nat k @ ''] as u64) << '' @ str_nat (k mod 8 * 8) @ ''));''))
          [0..<w div 8]) (\<lambda>_.
        bind (for_m (\<lambda>k. emit (''    '' @ acc @ '' = ('' @ acc @ '' ^ (('' @ vn @ ''.halves['' @ str_nat k @ ''] as u64) << '' @ str_nat (k mod 4 * 16) @ ''));''))
          [0..<half_count w]) (\<lambda>_.
        bind (randrange 0 (half_count w)) (\<lambda>hidx.
        bind (randrange 1 (2 ^ 16)) (\<lambda>hval.
        bind (emit (''    '' @ vn @ ''.halves['' @ str_nat hidx @ ''] = '' @ str_nat hval @ '';'')) (\<lambda>_.
        bind (if \<not> mm then emit (''    '' @ acc @ '' = ('' @ acc @ '' ^ (('' @ vn @ ''.halves['' @ str_nat hidx @ ''] as u64) << 3));'')
              else
                bind (fresh ''ovh'') (\<lambda>hv.
                  emits [''    var '' @ hv @ '': u64 = ovhalf_'' @ name @ ''('' @ vn @ '', '' @ str_nat hidx @ '');'',
                    ''    '' @ acc @ '' = ('' @ acc @ '' ^ ('' @ hv @ '' << 3));''])) (\<lambda>_.
        bind (emit (''    '' @ acc @ '' = ('' @ acc @ '' ^ ((sizeof('' @ name @ '') as u64) << 4));'')) (\<lambda>_.
          add_kernel_term acc)))))))))))))))"

definition gen_offset_overlay_body :: "unit gen" where
  "gen_offset_overlay_body =
     bind get_state (\<lambda>s.
     bind (for_m gen_offset_observer (gs_offset_structs s)) (\<lambda>_. for_m gen_overlay_observer (gs_overlays s)))"

definition gen_atomic :: "unit gen" where
  "gen_atomic =
     bind (choice [32, 64]) (\<lambda>w.
     bind (fresh ''at'') (\<lambda>an.
     bind (randrange 0 1000) (\<lambda>v.
     bind (emit (''    var '' @ an @ '': atomic<u'' @ str_nat w @ ''> = atomic.init('' @ str_nat v @ '');'')) (\<lambda>_.
     bind (flip flt_0_6) (\<lambda>c.
     bind (if c then
         bind (randrange 0 1000) (\<lambda>v. bind (choice [''relaxed'', ''release'', ''seq_cst'']) (\<lambda>order.
           emit (''    '' @ an @ ''.store('' @ str_nat v @ '', .'' @ order @ '');'')))
       else ret ()) (\<lambda>_.
     bind (flip flt_0_7) (\<lambda>c.
     bind (if c then
         bind (choice [''fetch_add'', ''fetch_sub'']) (\<lambda>op.
         bind (fresh ''ato'') (\<lambda>ov.
         bind (randrange 0 100) (\<lambda>v.
         bind (choice [''acq_rel'', ''seq_cst'', ''relaxed'']) (\<lambda>order.
         bind (emit (''    var '' @ ov @ '': u'' @ str_nat w @ '' = '' @ an @ ''.'' @ op @ ''('' @ str_nat v @ '', .'' @ order @ '');'')) (\<lambda>_.
           add_env (''u'' @ str_nat w) ov)))))
       else ret ()) (\<lambda>_.
     bind (fresh ''atl'') (\<lambda>lv.
     bind (choice [''relaxed'', ''acquire'', ''seq_cst'']) (\<lambda>order.
     bind (emit (''    var '' @ lv @ '': u'' @ str_nat w @ '' = '' @ an @ ''.load(.'' @ order @ '');'')) (\<lambda>_.
       add_env (''u'' @ str_nat w) lv)))))))))))"

definition gen_packed_observer :: "string \<times> string list \<times> nat \<Rightarrow> unit gen" where
  "gen_packed_observer x =
     (case x of (pname, flds, w) \<Rightarrow>
        bind (flip flt_0_5) (\<lambda>skip.
        if skip then ret ()
        else
          bind (fresh ''pbv'') (\<lambda>vn.
          bind (map_m (\<lambda>f. bind (choice [''true'', ''false'']) (\<lambda>b. ret (''.'' @ f @ '' = '' @ b))) flds) (\<lambda>ctor.
          bind (emit (''    var '' @ vn @ '': '' @ pname @ '' = .{ '' @ join '', '' ctor @ '' };'')) (\<lambda>_.
          bind (flip flt_0_5) (\<lambda>c.
          bind (if c then
              bind (choice flds) (\<lambda>f. bind (choice [''true'', ''false'']) (\<lambda>b. emit (''    '' @ vn @ ''.'' @ f @ '' = '' @ b @ '';'')))
            else ret ()) (\<lambda>_.
          bind (emit (''    var pbo_'' @ vn @ '': u64 = 0;'')) (\<lambda>_.
          bind (emits (map (\<lambda>(k, f). ''    if '' @ vn @ ''.'' @ f @ '' { pbo_'' @ vn @ '' = (pbo_'' @ vn @ '' ^ '' @ str_nat (2 ^ k) @ ''); }'')
            (enumerate 0 flds))) (\<lambda>_.
            add_kernel_term (''pbo_'' @ vn))))))))))"

definition gen_kernel_body :: "unit gen" where
  "gen_kernel_body =
     bind (randrange 0 2) (\<lambda>n.
     bind (for_m (\<lambda>_. gen_atomic) [0..<n]) (\<lambda>_.
     bind get_state (\<lambda>s. for_m gen_packed_observer (gs_packed s))))"

section \<open>Slices, unions, conversions, expression switches\<close>

definition fresh_emit :: "string \<Rightarrow> (string \<Rightarrow> string) \<Rightarrow> string gen" where
  "fresh_emit pre l = bind (fresh pre) (\<lambda>n. bind (emit (l n)) (\<lambda>_. ret n))"

text \<open>The summing loop over a view \<open>v\<close>, indexed by \<open>ix\<close> of the counter.\<close>

definition sum_loop :: "string \<Rightarrow> string \<Rightarrow> string \<Rightarrow> (string \<Rightarrow> string) \<Rightarrow> string" where
  "sum_loop it v sm ix =
     ''    while '' @ it @ '' < '' @ v @ ''.len { '' @ sm @ '' = ('' @ sm @ '' ^ ('' @ v @ ''['' @ ix it @ ''] as u64)); '' @ it @ '' = '' @ it @ '' + 1; }''"

definition gen_byteview_body :: "unit gen" where
  "gen_byteview_body =
     bind get_state (\<lambda>s.
     (let cands = map fst (int_array_vars s) in
      if cands = [] then ret ()
      else
        bind (declare_text (''fn bvsum(xs: []const u8) -> Result<u8, Overflow> {'' @ nl @ ''    return reduce.sum_checked<u8>(xs);'' @ nl @ ''}'')) (\<lambda>_.
        bind (choice cands) (\<lambda>vn.
        bind (fresh_emit ''bv'' (\<lambda>bv. ''    let '' @ bv @ '': []const u8 = mem.as_bytes(&'' @ vn @ '');'')) (\<lambda>bv.
        bind (fresh ''rdo'') (\<lambda>rdo.
        bind (emits [''    var '' @ rdo @ '': u64 = 0;'', ''    switch bvsum('' @ bv @ '') {'',
          ''        ok(rv) => { '' @ rdo @ '' = (rv as u64); }'', ''        err(eo) => { '' @ rdo @ '' = 1; }'', ''    }'']) (\<lambda>_.
        bind (add_term rdo) (\<lambda>_.
        bind (fresh ''bvi'') (\<lambda>it.
        bind (fresh ''bvs'') (\<lambda>sm.
        bind (emits [''    var '' @ sm @ '': u64 = 0;'', ''    var '' @ it @ '': usize = 0;'']) (\<lambda>_.
        bind (if \<not> gs_metamorph s then emit (sum_loop it bv sm (\<lambda>i. i))
              else
                bind (fresh ''bvn'') (\<lambda>bvn.
                bind (fresh ''bv2_'') (\<lambda>bv2.
                  emits [''    let '' @ bvn @ '': usize = '' @ bv @ ''.len;'', ''    let '' @ bv2 @ '': []const u8 = '' @ bv @ ''[0..'' @ bvn @ ''];'',
                    sum_loop it bv2 sm (\<lambda>i. ''(('' @ i @ '' + 1) - 1)'')]))) (\<lambda>_.
          add_term sm))))))))))))"

definition gen_union_decl :: "nat \<Rightarrow> unit gen" where
  "gen_union_decl i =
     (let name = ''U'' @ str_nat i in
      bind (randrange 2 4) (\<lambda>n.
      bind (map_m (\<lambda>j. bind (choice INTS) (\<lambda>t. ret (''u'' @ str_nat i @ ''c'' @ str_nat j, t))) [0..<n]) (\<lambda>cs.
      bind (flip flt_0_5) (\<lambda>e.
      (let emp = (if e then Some (''u'' @ str_nat i @ ''e'') else None);
           extra = (case emp of None \<Rightarrow> [] | Some c \<Rightarrow> [''    '' @ c @ '','']) in
       bind (declare_text (''union '' @ name @ '' {'' @ nl @ join nl (map (\<lambda>(cn, pt). ''    '' @ cn @ '': '' @ pt @ '','') cs @ extra) @ nl @ ''}'')) (\<lambda>_.
       bind (map_m (\<lambda>(cn, pt). bind (lift_result (ty_fold pt ''b'')) (\<lambda>f. ret (''        '' @ cn @ ''(b) => { return '' @ f @ ''; }''))) cs) (\<lambda>arms.
       bind (declare_text (''fn ufold_'' @ name @ ''(s: '' @ name @ '') -> u64 {'' @ nl @ ''    switch s {'' @ nl @
         join nl (arms @ (case emp of None \<Rightarrow> [] | Some c \<Rightarrow> [''        .'' @ c @ '' => { return 7; }''])) @ nl @ ''    }'' @ nl @ ''}'')) (\<lambda>_.
         modify (\<lambda>s. s\<lparr>gs_unions := dict_set (gs_unions s) name (cs, emp)\<rparr>)))))))))"

definition gen_unions :: "unit gen" where
  "gen_unions = bind (randrange 0 2) (\<lambda>n. for_m gen_union_decl [0..<n])"

definition gen_union_value :: "string \<times> (string \<times> string) list \<times> string option \<Rightarrow> unit gen" where
  "gen_union_value x =
     (case x of (uname, cs, emp) \<Rightarrow>
        (let opts = map (\<lambda>(c, t). (c, Some t)) cs @ (case emp of None \<Rightarrow> [] | Some c \<Rightarrow> [(c, None)]) in
         bind (randrange 1 3) (\<lambda>n.
         for_m (\<lambda>_.
           bind (choice opts) (\<lambda>(cn, pt).
           bind (case pt of None \<Rightarrow> ret (cn @ ''()'') | Some t \<Rightarrow> bind (gen_leaf t) (\<lambda>a. ret (cn @ ''('' @ a @ '')''))) (\<lambda>ctor.
           bind (fresh_emit ''uv'' (\<lambda>uv. ''    var '' @ uv @ '': '' @ uname @ '' = '' @ ctor @ '';'')) (\<lambda>uv.
           bind (fresh_emit ''ufv'' (\<lambda>fv. ''    var '' @ fv @ '': u64 = ufold_'' @ uname @ ''('' @ uv @ '');'')) add_term)))) [0..<n])))"

definition gen_union_body :: "unit gen" where
  "gen_union_body = bind get_state (\<lambda>s. for_m gen_union_value (gs_unions s))"

definition gen_conv_body :: "unit gen" where
  "gen_conv_body =
     bind (gets gs_conv_w) (\<lambda>o_w. case o_w of
       None \<Rightarrow> ret ()
     | Some cw \<Rightarrow>
         bind (fresh ''cp'') (\<lambda>cp.
         bind (ty_lit cw) (\<lambda>v.
         bind (emit (''    var '' @ cp @ '': '' @ cw @ '' = '' @ v @ '';'')) (\<lambda>_.
         bind (fresh_emit ''wd'' (\<lambda>wd. ''    var '' @ wd @ '': Wconv = Wconv.from_mod('' @ cp @ '');'')) (\<lambda>wd.
         bind (fresh_emit ''rd'' (\<lambda>rd. ''    var '' @ rd @ '': '' @ cw @ '' = '' @ wd @ ''.residue();'')) (\<lambda>rd.
         bind (lift_result (ty_fold cw rd)) (\<lambda>f.
         bind (add_term f) (\<lambda>_.
         bind (fresh_emit ''wide'' (\<lambda>wide. ''    var '' @ wide @ '': u64 = u64.from('' @ cp @ '');'')) add_term))))))))"

definition switch_arms :: "nat \<Rightarrow> string list \<Rightarrow> string" where
  "switch_arms k vs = join '', '' (map (\<lambda>(i, v). ''.'' @ v @ '' => '' @ str_nat ((i + 1) * k)) (enumerate 0 vs))"

definition gen_exprswitch_decls :: "unit gen" where
  "gen_exprswitch_decls =
     bind get_state (\<lambda>s. for_m (\<lambda>(name, vs).
       declare_text (''fn eswf_'' @ name @ ''(e: '' @ name @ '') -> u64 {'' @ nl @ ''    return switch e { '' @ switch_arms 7 vs @ '' };'' @ nl @ ''}'')) (gs_enums s))"

definition gen_exprswitch_body :: "unit gen" where
  "gen_exprswitch_body =
     bind get_state (\<lambda>s. for_m (\<lambda>(name, vs). for_m (\<lambda>ev.
         bind (fresh_emit ''eswc'' (\<lambda>cv. ''    var '' @ cv @ '': u64 = eswf_'' @ name @ ''('' @ ev @ '');'')) (\<lambda>cv.
         bind (add_term cv) (\<lambda>_.
         bind (fresh_emit ''eswi'' (\<lambda>iv. ''    var '' @ iv @ '': u64 = switch '' @ ev @ '' { '' @ switch_arms 13 vs @ '' };'')) add_term)))
       (env_get s name)) (gs_enums s))"

definition gen_slice_body :: "unit gen" where
  "gen_slice_body =
     bind get_state (\<lambda>s.
     (let cands = filter (\<lambda>(ty, elem, len). elem \<in> set INTS \<and> env_get s ty \<noteq> []) (gs_arrays s) in
      if cands = [] then ret ()
      else
        bind (choice cands) (\<lambda>(ty, elem, len).
        bind (env_at ty) (\<lambda>l.
        bind (choice l) (\<lambda>vn.
        bind (randrange 0 (max 1 (len - 1))) (\<lambda>lo1.
        bind (randrange (lo1 + 1) (len + 1)) (\<lambda>hi1.
        bind (fresh_emit ''sl'' (\<lambda>sl. ''    let '' @ sl @ '': []mut '' @ elem @ '' = '' @ vn @ ''['' @ str_nat lo1 @ ''..'' @ str_nat hi1 @ ''];'')) (\<lambda>sl.
        bind (fresh ''sli'') (\<lambda>it.
        bind (fresh ''sls'') (\<lambda>sm.
        bind (emits [''    var '' @ sm @ '': u64 = 0;'', ''    var '' @ it @ '': usize = 0;'']) (\<lambda>_.
        bind (if \<not> gs_metamorph s then emit (sum_loop it sl sm (\<lambda>i. i))
              else
                bind (fresh ''sln'') (\<lambda>sln.
                bind (fresh ''sl2_'') (\<lambda>s2.
                  emits [''    let '' @ sln @ '': usize = '' @ sl @ ''.len;'', ''    let '' @ s2 @ '': []mut '' @ elem @ '' = '' @ sl @ ''[0..'' @ sln @ ''];'',
                    sum_loop it s2 sm (\<lambda>i. ''('' @ i @ '' + 0)'')]))) (\<lambda>_.
        bind (add_term sm) (\<lambda>_.
        bind (if elem \<in> set (gs_slice_helpers s) then ret ()
              else
                bind (modify (\<lambda>s. s\<lparr>gs_slice_helpers := List.insert elem (gs_slice_helpers s)\<rparr>)) (\<lambda>_.
                declare_text (''fn slcsum_'' @ elem @ ''(xs: []mut '' @ elem @ '') -> u64 {'' @ nl @ ''    var a: u64 = 0;'' @ nl @
                  ''    var i: usize = 0;'' @ nl @ ''    while i < xs.len { a = (a ^ (xs[i] as u64)); i = i + 1; }'' @ nl @ ''    return a;'' @ nl @ ''}''))) (\<lambda>_.
        bind (fresh_emit ''slc'' (\<lambda>cv. ''    var '' @ cv @ '': u64 = slcsum_'' @ elem @ ''('' @ sl @ '');'')) add_term))))))))))))))"

section \<open>The declarations of a program\<close>

definition array_key :: "nat \<Rightarrow> string \<Rightarrow> string" where
  "array_key len elem = ''['' @ str_nat len @ '']'' @ elem"

definition add_array :: "nat \<Rightarrow> string \<Rightarrow> unit gen" where
  "add_array len elem = modify (\<lambda>s. s\<lparr>gs_arrays := dict_set (gs_arrays s) (array_key len elem) (elem, len)\<rparr>)"

text \<open>Integer arrays, then arrays of those.\<close>

definition declare_arrays :: "string list gen" where
  "declare_arrays =
     bind (randrange 1 3) (\<lambda>n.
     repeat_m n (bind (choice INTS) (\<lambda>elem. bind (randrange 2 6) (\<lambda>len. bind (add_array len elem) (\<lambda>_. ret (array_key len elem))))))"

definition declare_nested :: "string list \<Rightarrow> unit gen" where
  "declare_nested int_arrays =
     bind (randrange 0 2) (\<lambda>n. for_m (\<lambda>_.
       if int_arrays = [] then ret () else bind (choice int_arrays) (\<lambda>inner. bind (randrange 2 4) (\<lambda>len. add_array len inner))) [0..<n])"

definition names_upto :: "string \<Rightarrow> nat \<Rightarrow> string list" where
  "names_upto pre n = map (\<lambda>j. pre @ str_nat j) [0..<n]"

definition declare_open_enum :: "nat \<Rightarrow> unit gen" where
  "declare_open_enum i =
     (let name = ''O'' @ str_nat i in
      bind (randrange 2 5) (\<lambda>n.
      bind (modify (\<lambda>s. s\<lparr>gs_open_enums := dict_set (gs_open_enums s) name (names_upto ''W'' n)\<rparr>)) (\<lambda>_.
        declare_text (''open enum '' @ name @ '': u8 { '' @ join '', '' (names_upto ''W'' n) @ '' }''))))"

text \<open>The fields of a struct are scalars, arrays, open enums or earlier structs.\<close>

definition declare_struct :: "nat \<Rightarrow> unit gen" where
  "declare_struct i =
     (let name = ''S'' @ str_nat i in
      bind get_state (\<lambda>s.
      bind (randrange 1 4) (\<lambda>n.
      bind (map_m (\<lambda>j. bind (choice (INTS @ map fst (gs_arrays s) @ map fst (gs_open_enums s) @ map fst (gs_structs s))) (\<lambda>t.
          ret (''f'' @ str_nat j, t))) [0..<n]) (\<lambda>flds.
      bind (modify (\<lambda>s. s\<lparr>gs_structs := dict_set (gs_structs s) name flds\<rparr>)) (\<lambda>_.
        declare_text (''struct '' @ name @ '' { '' @ param_list flds @ '' }''))))))"

definition declare_agg_array :: "unit gen" where
  "declare_agg_array =
     bind get_state (\<lambda>s.
     (let elems = map fst (gs_structs s) @ map fst (gs_open_enums s) in
      if elems = [] then ret () else bind (choice elems) (\<lambda>elem. bind (randrange 2 4) (\<lambda>len. add_array len elem))))"

definition declare_tuple :: "unit gen" where
  "declare_tuple =
     bind get_state (\<lambda>s.
     bind (randrange 2 4) (\<lambda>n.
     bind (repeat_m n (choice (INTS @ map fst (gs_structs s) @ map fst (gs_arrays s) @ map fst (gs_open_enums s)))) (\<lambda>elems.
       modify (\<lambda>s. s\<lparr>gs_tuples := dict_set (gs_tuples s) (''('' @ join '', '' elems @ '')'') elems\<rparr>))))"

definition declare_enum :: "nat \<Rightarrow> unit gen" where
  "declare_enum i =
     (let name = ''E'' @ str_nat i in
      bind (randrange 2 5) (\<lambda>n.
      (let vs = names_upto ''V'' n in
       bind (modify (\<lambda>s. s\<lparr>gs_enums := dict_set (gs_enums s) name vs\<rparr>)) (\<lambda>_.
       bind (flip flt_0_4) (\<lambda>c.
       if c then
         bind (sample [0..<256] n) (\<lambda>vals.
           declare_text (''enum '' @ name @ '': u8 { '' @ join '', '' (map (\<lambda>(v, k). v @ '' = '' @ str_nat k) (zip vs (sort vals))) @ '' }''))
       else declare_text (''enum '' @ name @ '' { '' @ join '', '' vs @ '' }''))))))"

definition declare_alias :: "nat \<Rightarrow> unit gen" where
  "declare_alias i =
     (let name = ''Alias'' @ str_nat i in
      bind (choice INTS) (\<lambda>u.
      bind (modify (\<lambda>s. s\<lparr>gs_aliases := dict_set (gs_aliases s) name u\<rparr>)) (\<lambda>_.
        declare_text (''type '' @ name @ '' = '' @ u @ '';''))))"

definition loop_n :: "nat \<Rightarrow> nat \<Rightarrow> (nat \<Rightarrow> unit gen) \<Rightarrow> unit gen" where
  "loop_n a b f = bind (randrange a b) (\<lambda>n. for_m f [0..<n])"

definition declare_types :: "unit gen" where
  "declare_types =
     bind declare_arrays (\<lambda>int_arrays.
     bind (declare_nested int_arrays) (\<lambda>_.
     bind (loop_n 1 3 declare_open_enum) (\<lambda>_.
     bind (loop_n 1 4 declare_struct) (\<lambda>_.
     bind (loop_n 0 2 (\<lambda>_. declare_agg_array)) (\<lambda>_.
     bind (loop_n 0 2 (\<lambda>_. declare_tuple)) (\<lambda>_.
     bind (loop_n 1 3 declare_enum) (\<lambda>_. loop_n 0 2 declare_alias)))))))"

definition declare_conv :: "unit gen" where
  "declare_conv =
     bind (flip flt_0_6) (\<lambda>c.
     if c then
       bind (choice UINTS) (\<lambda>w.
       bind (modify (\<lambda>s. s\<lparr>gs_conv_w := Some w\<rparr>)) (\<lambda>_. declare_text (''type Wconv = wrap<'' @ w @ ''>;'')))
     else ret ())"

definition declare_helpers :: "unit gen" where
  "declare_helpers =
     bind gen_kernel_decls (\<lambda>_.
     bind gen_offset_overlay_decls (\<lambda>_.
     bind gen_unions (\<lambda>_.
     bind gen_exprswitch_decls (\<lambda>_.
     bind declare_conv (\<lambda>_.
     bind gen_functions (\<lambda>_.
     bind gen_result_functions (\<lambda>_. gen_aggregate_abi)))))))"

definition declare_spk :: "unit gen" where
  "declare_spk =
     bind (flip flt_0_5) (\<lambda>c.
     if c then
       bind (choice INTS) (\<lambda>t.
       bind (modify (\<lambda>s. s\<lparr>gs_spk := Some t\<rparr>)) (\<lambda>_.
       bind (ty_lit t) (\<lambda>v.
       bind (declare_text (''global gspk: '' @ t @ '' = '' @ v @ '';'')) (\<lambda>_. declare_text (''struct SPk { p: *'' @ t @ '' }'')))))
     else ret ())"

definition declare_recf :: "string option gen" where
  "declare_recf =
     bind (flip flt_0_4) (\<lambda>c.
     if c then
       bind (choice UINTS) (\<lambda>t.
       bind (declare_text (''fn recf(n: '' @ t @ '') -> '' @ t @ '' {'' @ nl @ ''    if n == 0 { return 0; }'' @ nl @
         ''    return wrapping.add(n, recf(n - 1));'' @ nl @ ''}'')) (\<lambda>_. ret (Some t)))
     else ret None)"

definition declare_generic :: "bool gen" where
  "declare_generic =
     bind (flip flt_0_5) (\<lambda>c.
     bind (if c then declare_text (''fn gid(comptime T: type, x: T) -> T {'' @ nl @ ''    return x;'' @ nl @ ''}'') else ret ()) (\<lambda>_. ret c))"

definition declare_closure :: "string option gen" where
  "declare_closure =
     bind (flip flt_0_4) (\<lambda>c.
     if c then
       bind (choice UINTS) (\<lambda>t.
       bind (declare_text (''struct ClEnv { base: '' @ t @ '' }'')) (\<lambda>_.
       bind (ty_lit t) (\<lambda>v.
       bind (declare_text (''global gclenv: ClEnv = .{ .base = '' @ v @ '' };'')) (\<lambda>_.
       bind (declare_text (''fn clfn(e: *ClEnv, x: '' @ t @ '') -> '' @ t @ '' {'' @ nl @ ''    return wrapping.add(e.base, x);'' @ nl @ ''}'')) (\<lambda>_.
         ret (Some t))))))
     else ret None)"

text \<open>A global, constant or pointer target: its type, its name, and the declaration.\<close>

definition declare_global :: "string \<Rightarrow> string \<Rightarrow> (string \<times> string) gen" where
  "declare_global kw pre =
     bind (choice INTS) (\<lambda>ty.
     bind (fresh pre) (\<lambda>name.
     bind (ty_lit ty) (\<lambda>v.
     bind (declare_text (kw @ '' '' @ name @ '': '' @ ty @ '' = '' @ v @ '';'')) (\<lambda>_. ret (name, ty)))))"

definition add_var :: "string \<Rightarrow> string \<Rightarrow> unit gen" where
  "add_var ty name = bind (gets (\<lambda>s. alias_of s ty)) (\<lambda>u. add_env u name)"

definition declare_globals :: "(string \<times> string) list gen" where
  "declare_globals =
     bind (loop_n 0 3 (\<lambda>_. bind (declare_global ''global'' ''g'') (\<lambda>(name, ty). add_var ty name))) (\<lambda>_.
     bind (loop_n 0 2 (\<lambda>_. bind (declare_global ''const'' ''c'') (\<lambda>(name, ty).
       bind (add_var ty name) (\<lambda>_. modify (\<lambda>s. s\<lparr>gs_immutable := List.insert name (gs_immutable s)\<rparr>))))) (\<lambda>_.
     bind (randrange 0 2) (\<lambda>n. repeat_m n (declare_global ''global'' ''gp''))))"

section \<open>The body of \<open>harness\<close>\<close>

text \<open>Up to four locals of distinct types, then one variable per tuple type.\<close>

definition declare_locals :: "unit gen" where
  "declare_locals =
     bind (gets local_types) (\<lambda>ts.
     bind (sample ts (min 4 (length ts))) (\<lambda>tys.
     bind (for_m (declare_local ''    '') tys) (\<lambda>_.
     bind (gets gs_tuples) (\<lambda>tups.
       for_m (\<lambda>ty.
         bind (fresh ''v'') (\<lambda>name.
         bind (gen_val ty 0) (\<lambda>v.
         bind (emit (''    var '' @ name @ '': '' @ ty @ '' = '' @ v @ '';'')) (\<lambda>_. add_env ty name)))) (map fst tups)))))"

definition call_generic :: "unit gen" where
  "call_generic =
     bind (choice INTS) (\<lambda>ty.
     bind (fresh ''gv'') (\<lambda>name.
     bind (gen_val ty 0) (\<lambda>v.
     bind (emit (''    var '' @ name @ '': '' @ ty @ '' = gid('' @ ty @ '', '' @ v @ '');'')) (\<lambda>_. add_var ty name))))"

definition call_recf :: "string \<Rightarrow> unit gen" where
  "call_recf ty =
     bind (fresh ''rv'') (\<lambda>name.
     bind (randrange 0 7) (\<lambda>k.
     bind (emit (''    var '' @ name @ '': '' @ ty @ '' = recf('' @ str_nat k @ '');'')) (\<lambda>_. add_env ty name)))"

definition call_agg_fn :: "string \<times> string \<times> string \<Rightarrow> unit gen" where
  "call_agg_fn x =
     (case x of (fname, pt, rt) \<Rightarrow>
        bind (fresh ''av'') (\<lambda>vn.
        bind (gen_val pt 0) (\<lambda>v.
        bind (emit (''    var '' @ vn @ '': '' @ rt @ '' = '' @ fname @ ''('' @ v @ '');'')) (\<lambda>_. add_var rt vn))))"

definition call_closure :: "string \<Rightarrow> unit gen" where
  "call_closure ty =
     bind (fresh ''clr'') (\<lambda>name.
     bind (emit (''    let clf: closure('' @ ty @ '') -> '' @ ty @ '' = bind(&gclenv, clfn);'')) (\<lambda>_.
     bind (ty_lit ty) (\<lambda>v.
     bind (emit (''    var '' @ name @ '': '' @ ty @ '' = clf('' @ v @ '');'')) (\<lambda>_. add_env ty name))))"

definition call_helpers :: "bool \<Rightarrow> string option \<Rightarrow> string option \<Rightarrow> unit gen" where
  "call_helpers use_generic recf_ty closure_ty =
     bind (if use_generic then loop_n 0 3 (\<lambda>_. call_generic) else ret ()) (\<lambda>_.
     bind (case recf_ty of None \<Rightarrow> ret () | Some t \<Rightarrow> call_recf t) (\<lambda>_.
     bind (gets gs_agg_fns) (\<lambda>fns.
     bind (for_m call_agg_fn fns) (\<lambda>_. case closure_ty of None \<Rightarrow> ret () | Some t \<Rightarrow> call_closure t))))"

text \<open>A pointer to a global, optional (left) or plain (right).\<close>

definition declare_pointer :: "string \<times> string \<Rightarrow> ((string \<times> string) + (string \<times> string)) gen" where
  "declare_pointer x =
     (case x of (gname, ty) \<Rightarrow>
        bind (fresh ''p'') (\<lambda>pname.
        bind (flip flt_0_5) (\<lambda>c.
        if c then
          bind (flip flt_0_6) (\<lambda>c.
          bind (emit (''    var '' @ pname @ '': ?*'' @ ty @ '' = '' @ (if c then ''&'' @ gname else ''null'') @ '';'')) (\<lambda>_. ret (Inl (pname, ty))))
        else
          bind (emit (''    var '' @ pname @ '': *'' @ ty @ '' = &'' @ gname @ '';'')) (\<lambda>_. ret (Inr (pname, ty))))))"

section \<open>Folding the variables into the digest\<close>

definition fold_scalars :: "string list \<Rightarrow> unit gen" where
  "fold_scalars tys =
     bind get_state (\<lambda>s. for_m (\<lambda>ty. for_m (\<lambda>name. bind (lift_result (ty_fold ty name)) add_term) (env_get s ty)) tys)"

definition fold_aggregates :: "unit gen" where
  "fold_aggregates =
     bind get_state (\<lambda>s.
       for_m (\<lambda>ty. for_m (\<lambda>name. fold_type value_depth name ty) (env_get s ty))
         (map fst (gs_structs s) @ map fst (gs_arrays s) @ map fst (gs_tuples s)))"

definition fold_open_enums :: "unit gen" where
  "fold_open_enums =
     bind get_state (\<lambda>s.
       for_m (\<lambda>e. for_m (\<lambda>name. add_term (''('' @ name @ ''.raw() as u64)'')) (env_get s e)) (map fst (gs_open_enums s)))"

definition fold_kernel_terms :: "unit gen" where
  "fold_kernel_terms = bind (gets gs_kernel_terms) (for_m add_term)"

definition fold_pointers :: "((string \<times> string) + (string \<times> string)) list \<Rightarrow> unit gen" where
  "fold_pointers ptrs =
     (let optionals = List.map_filter (\<lambda>p. case p of Inl x \<Rightarrow> Some x | Inr _ \<Rightarrow> None) ptrs;
          plain = List.map_filter (\<lambda>p. case p of Inl _ \<Rightarrow> None | Inr x \<Rightarrow> Some x) ptrs in
      if optionals = [] \<and> plain = [] then ret ()
      else
        bind (emit ''    var pobs: u64 = 0;'') (\<lambda>_.
        bind (for_m (\<lambda>(pname, ty).
            bind (emit (''    if let q = '' @ pname @ '' {'')) (\<lambda>_.
            bind (lift_result (ty_fold ty ''q.*'')) (\<lambda>f.
              emits [''        pobs = (pobs ^ '' @ f @ '');'', ''    } else {'', ''        pobs = (pobs ^ 12345);'', ''    }'']))) optionals) (\<lambda>_.
        bind (for_m (\<lambda>(pname, ty).
            bind (lift_result (ty_fold ty (pname @ ''.*''))) (\<lambda>f. emit (''    pobs = (pobs ^ '' @ f @ '');''))) plain) (\<lambda>_.
          add_term ''pobs''))))"

text \<open>A \<open>switch\<close> over a result value that xors either payload into the accumulator.\<close>

definition emit_result_switch :: "string \<Rightarrow> string \<Rightarrow> string \<Rightarrow> string \<Rightarrow> unit gen" where
  "emit_result_switch subject acc ot mark =
     bind (emit (''    switch '' @ subject @ '' {'')) (\<lambda>_.
     bind (lift_result (ty_fold ot ''v'')) (\<lambda>f.
     bind (emit (''        ok(v) => { '' @ acc @ '' = ('' @ acc @ '' ^ '' @ f @ ''); }'')) (\<lambda>_.
     bind (lift_result (ty_fold ''u32'' ''e'')) (\<lambda>g.
       emits [''        err(e) => { '' @ acc @ '' = ('' @ acc @ '' ^ '' @ g @ '' ^ '' @ mark @ ''); }'', ''    }'']))))"

definition fold_result_fns :: "unit gen" where
  "fold_result_fns =
     bind (gets gs_result_fns) (\<lambda>rfs.
     if rfs = [] then ret ()
     else
       bind (emit ''    var robs: u64 = 0;'') (\<lambda>_.
       bind (for_m (\<lambda>(name, pt, ot).
           bind (gen_leaf pt) (\<lambda>a. emit_result_switch (name @ ''('' @ a @ '')'') ''robs'' ot ''1000'')) rfs) (\<lambda>_.
         add_term ''robs'')))"

definition fold_floats :: "unit gen" where
  "fold_floats =
     bind get_state (\<lambda>s.
     if list_all (\<lambda>ty. env_get s ty = []) FLOATS then ret ()
     else if gs_float_bits s then fold_scalars FLOATS
     else
       bind (emit ''    var fobs: u64 = 0;'') (\<lambda>_.
       bind (for_m (\<lambda>ty. for_m (\<lambda>name. for_m (\<lambda>k.
           bind (choice CMPS) (\<lambda>cmp.
           bind (ty_lit ty) (\<lambda>v.
             emit (''    if '' @ name @ '' '' @ cmp @ '' '' @ v @ '' { fobs = fobs + '' @ str_nat (2 ^ k) @ ''; }''))))
         [0..<3]) (env_get s ty)) FLOATS) (\<lambda>_. add_term ''fobs'')))"

definition fold_spk :: "unit gen" where
  "fold_spk =
     bind (gets gs_spk) (\<lambda>sp. case sp of
       None \<Rightarrow> ret ()
     | Some t \<Rightarrow>
         bind (emit ''    var spv: SPk = .{ .p = &gspk };'') (\<lambda>_. bind (lift_result (ty_fold t ''spv.p.*'')) add_term))"

definition fold_result_array :: "unit gen" where
  "fold_result_array =
     bind (flip flt_0_5) (\<lambda>c.
     if \<not> c then ret ()
     else
       bind (choice INTS) (\<lambda>ty.
       bind (randrange 2 4) (\<lambda>n.
       bind (repeat_m n (bind (flip flt_0_5) (\<lambda>c.
           if c then bind (gen_leaf ty) (\<lambda>a. ret (''ok('' @ a @ '')'')) else bind (ty_lit ''u32'') (\<lambda>e. ret (''err('' @ e @ '')''))))) (\<lambda>elems.
       bind (emits [''    var arres: ['' @ str_nat n @ '']Result<'' @ ty @ '', u32> = .{ '' @ join '', '' elems @ '' };'',
         ''    var arobs: u64 = 0;'']) (\<lambda>_.
       bind (for_m (\<lambda>k. emit_result_switch (''arres['' @ str_nat k @ '']'') ''arobs'' ty ''7'') [0..<n]) (\<lambda>_.
         add_term ''arobs''))))))"

definition fold_enums :: "unit gen" where
  "fold_enums =
     bind get_state (\<lambda>s.
     if list_all (\<lambda>e. env_get s e = []) (map fst (gs_enums s)) then ret ()
     else
       bind (emit ''    var eobs: u64 = 0;'') (\<lambda>_.
       bind (for_m (\<lambda>(ename, vs). for_m (\<lambda>name.
           bind (emit (''    switch '' @ name @ '' {'')) (\<lambda>_.
           bind (emits (map (\<lambda>(k, v). ''        .'' @ v @ '' => { eobs = eobs + '' @ str_nat (k + 1) @ ''; }'') (enumerate 0 (butlast vs)))) (\<lambda>_.
             emits [''        _ => { eobs = eobs + '' @ str_nat (length vs) @ ''; }'', ''    }'']))) (env_get s ename)) (gs_enums s)) (\<lambda>_.
         add_term ''eobs'')))"

section \<open>\<open>program\<close>\<close>

definition declare_all :: "(bool \<times> string option \<times> string option \<times> (string \<times> string) list) gen" where
  "declare_all =
     bind declare_types (\<lambda>_.
     bind declare_helpers (\<lambda>_.
     bind declare_spk (\<lambda>_.
     bind declare_recf (\<lambda>recf_ty.
     bind declare_generic (\<lambda>use_generic.
     bind declare_closure (\<lambda>closure_ty.
     bind declare_globals (\<lambda>opt_targets. ret (use_generic, recf_ty, closure_ty, opt_targets))))))))"

definition harness_statements :: "bool \<Rightarrow> string option \<Rightarrow> string option \<Rightarrow> (string \<times> string) list \<Rightarrow> ((string \<times> string) + (string \<times> string)) list gen" where
  "harness_statements use_generic recf_ty closure_ty opt_targets =
     bind declare_locals (\<lambda>_.
     bind (call_helpers use_generic recf_ty closure_ty) (\<lambda>_.
     bind (map_m declare_pointer opt_targets) (\<lambda>ptrs.
     bind gen_kernel_body (\<lambda>_.
     bind gen_offset_overlay_body (\<lambda>_.
     bind (loop_n 5 12 (\<lambda>_. gen_stmt 1)) (\<lambda>_. ret ptrs))))))"

definition harness_folds :: "((string \<times> string) + (string \<times> string)) list \<Rightarrow> unit gen" where
  "harness_folds ptrs =
     bind (fold_scalars (INTS @ SATS @ WRAPS)) (\<lambda>_.
     bind fold_aggregates (\<lambda>_.
     bind fold_open_enums (\<lambda>_.
     bind fold_kernel_terms (\<lambda>_.
     bind (fold_pointers ptrs) (\<lambda>_.
     bind fold_result_fns (\<lambda>_.
     bind fold_floats (\<lambda>_.
     bind gen_byteview_body (\<lambda>_.
     bind gen_slice_body (\<lambda>_.
     bind gen_union_body (\<lambda>_.
     bind gen_conv_body (\<lambda>_.
     bind gen_exprswitch_body (\<lambda>_.
     bind fold_spk (\<lambda>_.
     bind fold_result_array (\<lambda>_. fold_enums))))))))))))))"

definition xor_fold :: "string list \<Rightarrow> string" where
  "xor_fold ts = (case ts of [] \<Rightarrow> ''0'' | t # rest \<Rightarrow> foldl (\<lambda>acc t. ''('' @ acc @ '' ^ '' @ t @ '')'') t rest)"

definition program_header :: string where
  "program_header = ''// Generated by tools/fuzz/mcfuzz.py '' @ em_dash @ '' regenerate from the seed.'' @ nl"

definition program_text :: "bool \<Rightarrow> string list \<Rightarrow> string list \<Rightarrow> string list \<Rightarrow> string" where
  "program_text metamorph decls stmts terms =
     (let body = join nl (stmts @ [''    return '' @ xor_fold (if metamorph then rev terms else terms) @ '';'']) in
      if metamorph then
        program_header @ join nl decls @ nl @ ''fn meta_body() -> u64 {'' @ nl @ body @ nl @ ''}'' @ nl @
          ''export fn harness() -> u64 {'' @ nl @ ''    return meta_body();'' @ nl @ ''}'' @ nl
      else program_header @ join nl decls @ nl @ ''export fn harness() -> u64 {'' @ nl @ body @ nl @ ''}'' @ nl)"

definition gen_program :: "bool \<Rightarrow> string gen" where
  "gen_program metamorph =
     bind (modify (\<lambda>s. s\<lparr>gs_metamorph := metamorph, gs_decls := [], gs_kernel_terms := []\<rparr>)) (\<lambda>_.
     bind declare_all (\<lambda>(use_generic, recf_ty, closure_ty, opt_targets).
     bind (modify (\<lambda>s. s\<lparr>gs_out := []\<rparr>)) (\<lambda>_.
     bind (harness_statements use_generic recf_ty closure_ty opt_targets) (\<lambda>ptrs.
     bind (modify (\<lambda>s. s\<lparr>gs_terms := []\<rparr>)) (\<lambda>_.
     bind (harness_folds ptrs) (\<lambda>_.
     bind get_state (\<lambda>s. ret (program_text metamorph (gs_decls s) (gs_out s) (gs_terms s)))))))))"

end
