(* ===== verification/Mcfuzz_Gen_Twin.thy ===== *)
theory Mcfuzz_Gen_Twin
  imports Mcfuzz_Gen_Program Mcfuzz_Async
begin

text \<open>
  Two runs of the generator side by side. The metamorphic oracle prints the base program and its variant from the
  same seed and relies on both runs making the same draws. This theory holds the relational judgement
  \<open>lockstep\<close> for the parts of the generator that only draw: from two fixed states, on every tape, both
  programs return, have used the same draws, and their values are related. Totality is the diagonal of it.
\<close>

section \<open>Text the generators print\<close>

definition plain :: "string \<Rightarrow> bool" where
  "plain s \<longleftrightarrow> list_all plain_char s"

lemma plain_simps [simp]:
  "plain []" "plain (a @ b) \<longleftrightarrow> plain a \<and> plain b" "plain (Char b0 b1 b2 b3 b4 b5 b6 b7 # s) \<longleftrightarrow>
    (\<not> b7 \<and> (b4 \<or> b5 \<or> b6 \<or> \<not> b3 \<or> \<not> b2 \<or> b1 \<or> \<not> b0)) \<and> plain s"
  by (auto simp: plain_def plain_Char)

lemma plain_Cons: "plain (c # s) \<longleftrightarrow> plain_char c \<and> plain s"
  by (simp add: plain_def)

lemma plain_digits [simp]: "plain (str_nat n)" "plain (str_int i)"
  by (simp_all add: plain_def plain_str_nat str_int_def plain_Char)

lemma plain_joined [simp]: "plain sep \<Longrightarrow> list_all plain xs \<Longrightarrow> plain (join sep xs)"
  by (induction sep xs rule: join.induct) auto

lemma plain_pad [simp]: "plain (pad n)"
  by (induction n) (auto simp: pad_def)

text \<open>A word begins with a lower-case letter and holds no parenthesis: every variable is one, no other value is.\<close>

definition is_lower :: "char \<Rightarrow> bool" where
  "is_lower c \<longleftrightarrow> 97 \<le> (of_char c :: nat) \<and> (of_char c :: nat) \<le> 122"

definition wordy :: "string \<Rightarrow> bool" where
  "wordy x \<longleftrightarrow> x \<noteq> [] \<and> is_lower (hd x) \<and> CHR ''('' \<notin> set x"

lemma wordy_paren: "CHR ''('' \<in> set x \<Longrightarrow> \<not> wordy x"
  by (simp add: wordy_def)

lemma wordy_head: "\<not> is_lower c \<Longrightarrow> \<not> wordy (c # x)"
  by (simp add: wordy_def)

lemma not_lower: "\<not> is_lower (CHR ''.'')" "\<not> is_lower (CHR ''-'')" "\<not> is_lower (CHR ''('')"
  by (simp_all add: is_lower_def)

lemma digit_not_lower: "is_digit c \<Longrightarrow> \<not> is_lower c"
  by (simp add: is_digit_def is_lower_def)

lemma str_nat_not_wordy [simp]: "\<not> wordy (str_nat n)" "\<not> wordy (str_nat n @ x)"
proof -
  have "is_digit (hd (str_nat n))" by (intro str_nat_digits [of _ n] hd_in_set) simp
  then have "\<not> is_lower (hd (str_nat n))" by (rule digit_not_lower)
  then show "\<not> wordy (str_nat n)" "\<not> wordy (str_nat n @ x)" by (simp_all add: wordy_def)
qed

lemma str_int_not_wordy [simp]: "\<not> wordy (str_int i)" "\<not> wordy (str_int i @ x)"
  by (auto simp: str_int_def wordy_head not_lower)

section \<open>Names of the two runs\<close>

text \<open>A one-to-one relation between the variables of the two runs.\<close>

definition naming :: "(string \<Rightarrow> string \<Rightarrow> bool) \<Rightarrow> bool" where
  "naming R \<longleftrightarrow> bi_unique R \<and> (\<forall>x y. R x y \<longrightarrow> wordy x \<and> wordy y \<and> plain x \<and> plain y)"

text \<open>Related texts are equal when the names are; related values are moreover both variables or both not.\<close>

definition texts :: "(string \<Rightarrow> string \<Rightarrow> bool) \<Rightarrow> string \<Rightarrow> string \<Rightarrow> bool" where
  "texts R x y \<longleftrightarrow> plain x \<and> plain y \<and> (R \<le> (=) \<longrightarrow> x = y)"

definition vals :: "(string \<Rightarrow> string \<Rightarrow> bool) \<Rightarrow> string \<Rightarrow> string \<Rightarrow> bool" where
  "vals R x y \<longleftrightarrow> texts R x y \<and> (R x y \<or> \<not> wordy x \<and> \<not> wordy y)"

lemma texts_same [simp]: "plain x \<Longrightarrow> texts R x x"
  by (simp add: texts_def)

lemma texts_append [intro]: "texts R a a' \<Longrightarrow> texts R b b' \<Longrightarrow> texts R (a @ b) (a' @ b')"
  by (auto simp: texts_def)

lemma texts_Cons [intro]: "texts R b b' \<Longrightarrow> plain_char c \<Longrightarrow> texts R (c # b) (c # b')"
  by (auto simp: texts_def plain_Cons)

lemma texts_join: "plain sep \<Longrightarrow> list_all2 (texts R) xs ys \<Longrightarrow> texts R (join sep xs) (join sep ys)"
proof (induction sep xs arbitrary: ys rule: join.induct)
  case (2 sep x)
  then show ?case by (auto simp: list_all2_Cons1)
next
  case (3 sep x y xs)
  then obtain x' y' ys' where ys: "ys = x' # y' # ys'" "texts R x x'" "list_all2 (texts R) (y # xs) (y' # ys')"
    by (auto simp: list_all2_Cons1)
  have "texts R (join sep (y # xs)) (join sep (y' # ys'))" using "3.IH" "3.prems"(1) ys(3) .
  then show ?case using ys(1,2) "3.prems"(1) by (auto intro!: texts_append)
qed simp

lemma vals_name: "naming R \<Longrightarrow> R x y \<Longrightarrow> vals R x y"
  by (auto simp: naming_def vals_def texts_def)

lemma vals_texts: "vals R x y \<Longrightarrow> texts R x y"
  by (simp add: vals_def)

lemma vals_other: "texts R x y \<Longrightarrow> \<not> wordy x \<Longrightarrow> \<not> wordy y \<Longrightarrow> vals R x y"
  by (simp add: vals_def)

lemma naming_texts: "naming R \<Longrightarrow> R x y \<Longrightarrow> texts R x y"
  by (auto simp: naming_def texts_def)

text \<open>A value is a given variable in one run exactly when it is that variable in the other.\<close>

lemma vals_eq_name: "naming R \<Longrightarrow> vals R x y \<Longrightarrow> R v w \<Longrightarrow> x = v \<longleftrightarrow> y = w"
  unfolding naming_def vals_def bi_unique_def by blast

section \<open>Programs that only draw\<close>

definition lockstep ::
  "gen_state \<Rightarrow> gen_state \<Rightarrow> 'a gen \<Rightarrow> 'b gen \<Rightarrow> ('a \<Rightarrow> 'b \<Rightarrow> bool) \<Rightarrow> bool" where
  "lockstep s s' m m' P \<longleftrightarrow>
     (\<forall>t. \<exists>x x' u. m (s\<lparr>tape := t\<rparr>) = Inr (x, s\<lparr>tape := u\<rparr>) \<and> m' (s'\<lparr>tape := t\<rparr>) = Inr (x', s'\<lparr>tape := u\<rparr>) \<and> P x x')"

named_theorems lock \<open>rules of the lockstep judgement\<close>

lemma lock_ret: "P x x' \<Longrightarrow> lockstep s s' (ret x) (ret x') P"
  by (auto simp: lockstep_def ret_def)

lemma lock_mono: "lockstep s s' m m' P \<Longrightarrow> (\<And>x x'. P x x' \<Longrightarrow> Q x x') \<Longrightarrow> lockstep s s' m m' Q"
  by (fastforce simp: lockstep_def)

lemma lock_bind:
  assumes "lockstep s s' m m' P" and "\<And>x x'. P x x' \<Longrightarrow> lockstep s s' (f x) (f' x') Q"
  shows "lockstep s s' (bind m f) (bind m' f') Q"
  unfolding lockstep_def
proof
  fix t
  obtain x x' u where m: "m (s\<lparr>tape := t\<rparr>) = Inr (x, s\<lparr>tape := u\<rparr>)" "m' (s'\<lparr>tape := t\<rparr>) = Inr (x', s'\<lparr>tape := u\<rparr>)" "P x x'"
    using assms(1) unfolding lockstep_def by blast
  show "\<exists>y y' v. bind m f (s\<lparr>tape := t\<rparr>) = Inr (y, s\<lparr>tape := v\<rparr>) \<and> bind m' f' (s'\<lparr>tape := t\<rparr>) = Inr (y', s'\<lparr>tape := v\<rparr>) \<and> Q y y'"
    using assms(2) [OF m(3)] m(1,2) by (simp add: bind_def lockstep_def)
qed

lemma lock_gets:
  assumes "\<And>t. f (s\<lparr>tape := t\<rparr>) = f s" and "\<And>t. f' (s'\<lparr>tape := t\<rparr>) = f' s'" and "lockstep s s' (k (f s)) (k' (f' s')) Q"
  shows "lockstep s s' (bind (gets f) k) (bind (gets f') k') Q"
  using assms(3) by (simp add: lockstep_def bind_def gets_def assms(1,2))

lemma lock_get_state:
  assumes "\<And>t. k (s\<lparr>tape := t\<rparr>) = k s" and "\<And>t. k' (s'\<lparr>tape := t\<rparr>) = k' s'" and "lockstep s s' (k s) (k' s') Q"
  shows "lockstep s s' (bind get_state k) (bind get_state k') Q"
  using assms(3) by (simp add: lockstep_def bind_def gets_def get_state_def assms(1,2))

lemma lock_lift: "r = Inr x \<Longrightarrow> r' = Inr x' \<Longrightarrow> P x x' \<Longrightarrow> lockstep s s' (lift_result r) (lift_result r') P"
  by (auto simp: lockstep_def lift_result_def)

lemma lock_if:
  "b = b' \<Longrightarrow> (b \<Longrightarrow> lockstep s s' m m' P) \<Longrightarrow> (\<not> b \<Longrightarrow> lockstep s s' n n' P) \<Longrightarrow>
   lockstep s s' (if b then m else n) (if b' then m' else n') P"
  by simp

text \<open>A program whose draws and value do not depend on the rest of the state runs in step with itself.\<close>

lemma lock_randbelow: "lockstep s s' (randbelow n) (randbelow n) (\<lambda>x y. y = x \<and> (0 < n \<longrightarrow> x < n))"
  by (auto simp: lockstep_def randbelow_def next_draw_def bind_def ret_def split: list.splits)

lemma lock_py_random: "lockstep s s' py_random py_random (\<lambda>x y. y = x)"
  unfolding py_random_def by (rule lock_bind [OF lock_randbelow]) (auto intro: lock_ret)

lemma lock_flip: "lockstep s s' (flip p) (flip p) (\<lambda>x y. y = x)"
  unfolding flip_def by (rule lock_bind [OF lock_py_random]) (auto intro: lock_ret)

lemma lock_flip_if: "c = c' \<Longrightarrow> lockstep s s' (flip_if c p) (flip_if c' p) (\<lambda>x y. y = x \<and> (x \<longrightarrow> c))"
  by (auto simp: flip_if_def intro: lock_mono [OF lock_flip] lock_ret)

lemma lock_randrange: "lo < hi \<Longrightarrow> lockstep s s' (randrange lo hi) (randrange lo hi) (\<lambda>x y. y = x \<and> lo \<le> x \<and> x < hi)"
  by (auto simp: randrange_def intro!: lock_bind [OF lock_randbelow] lock_ret)

lemma lock_randint: "lo \<le> hi \<Longrightarrow> lockstep s s' (randint lo hi) (randint lo hi) (\<lambda>x y. y = x \<and> lo \<le> x \<and> x \<le> hi)"
  by (auto simp: randint_def intro!: lock_bind [OF lock_randbelow] lock_ret)

lemma lock_choice: "list_all2 P xs xs' \<Longrightarrow> xs \<noteq> [] \<Longrightarrow> lockstep s s' (choice xs) (choice xs') P"
proof -
  assume xs: "list_all2 P xs xs'" "xs \<noteq> []"
  then have "xs' \<noteq> []" "length xs' = length xs" by (auto dest: list_all2_lengthD)
  with xs show ?thesis
    by (auto simp: choice_def list_all2_nthD intro!: lock_bind [OF lock_randbelow] lock_ret)
qed

lemma lock_pick: "xs \<noteq> [] \<Longrightarrow> lockstep s s' (choice xs) (choice xs) (\<lambda>x y. y = x \<and> x \<in> set xs)"
  by (auto intro!: lock_choice simp: list_all2_same)

lemma lock_map:
  assumes "\<And>x. x \<in> set xs \<Longrightarrow> lockstep s s' (f x) (f' x) P"
  shows "lockstep s s' (map_m f xs) (map_m f' xs) (list_all2 P)"
  using assms
proof (induction xs)
  case Nil
  then show ?case by (simp add: lock_ret)
next
  case (Cons x xs)
  have 1: "lockstep s s' (f x) (f' x) P" and 2: "lockstep s s' (map_m f xs) (map_m f' xs) (list_all2 P)"
    using Cons by auto
  show ?case by (simp only: map_m.simps) (rule lock_bind [OF 1], rule lock_bind [OF 2], simp add: lock_ret)
qed

lemma lock_repeat:
  assumes m: "lockstep s s' m m' P"
  shows "lockstep s s' (repeat_m n m) (repeat_m n m') (list_all2 P)"
proof (induction n)
  case 0
  then show ?case by (simp add: lock_ret)
next
  case (Suc n)
  show ?case by (simp only: repeat_m.simps) (rule lock_bind [OF m], rule lock_bind [OF Suc], simp add: lock_ret)
qed

lemmas list_of_same = list_all2_eq [symmetric]

section \<open>Literals\<close>

definition literal :: "string \<Rightarrow> bool" where
  "literal x \<longleftrightarrow> plain x \<and> \<not> wordy x"

lemma literal_vals: "literal x \<Longrightarrow> vals R x x"
  by (simp add: literal_def vals_def)

lemma lock_uint_lit: "lockstep s s' (uint_lit w) (uint_lit w) (\<lambda>x y. y = x \<and> literal x)"
proof -
  have hi: "(0 :: int) \<le> push_bit w 1 - 1" by (simp add: push_bit_eq_mult)
  show ?thesis
    unfolding uint_lit_def Let_def
    by (rule lock_bind [OF lock_flip], rule lock_bind [where P = "\<lambda>x y. y = x"])
      (use hi in \<open>auto simp: literal_def intro!: lock_ret intro: lock_mono [OF lock_pick] lock_mono [OF lock_randint]\<close>)
qed

lemma lock_sint_lit: "0 < w \<Longrightarrow> lockstep s s' (sint_lit w) (sint_lit w) (\<lambda>x y. y = x \<and> literal x)"
proof -
  have hi: "- push_bit (w - 1) (1 :: int) \<le> push_bit (w - 1) 1 - 1" by (simp add: push_bit_eq_mult)
  show ?thesis
    unfolding sint_lit_def Let_def
    by (rule lock_bind [OF lock_flip], rule lock_bind [where P = "\<lambda>x y. y = x"])
      (use hi in \<open>auto simp: literal_def intro!: lock_ret intro: lock_mono [OF lock_pick] lock_mono [OF lock_randint]\<close>)
qed

lemma lock_decimal_lit: "0 \<le> m \<Longrightarrow> lockstep s s' (decimal_lit m) (decimal_lit m) (\<lambda>x y. y = x \<and> literal x)"
  unfolding decimal_lit_def
  by (rule lock_bind [OF lock_randint], simp, rule lock_bind [OF lock_randint], simp, rule lock_ret)
    (simp add: literal_def)

lemma lock_ty_lit:
  assumes "n \<in> set SCALARS"
  shows "lockstep s s' (ty_lit n) (ty_lit n) (\<lambda>x y. y = x \<and> literal x)"
proof -
  obtain t where t: "map_of TYPES n = Some t" "ti_kind t \<noteq> KBool" "0 < ti_width t" using scalar_info [OF assms] by blast
  have "lockstep s s' (lit_of t) (lit_of t) (\<lambda>x y. y = x \<and> literal x)"
    using t by (cases "ti_kind t") (auto simp: lit_of_def float_lit_def intro!: lock_uint_lit lock_sint_lit lock_decimal_lit)
  then show ?thesis
    unfolding ty_lit_def by (intro lock_bind [OF lock_lift [where P = "\<lambda>x y. x = t \<and> y = t"]]) (auto simp: ty_at_def t(1))
qed

end
