(* ===== verification/Mcfuzz_Gen_Expr.thy ===== *)
theory Mcfuzz_Gen_Expr
  imports Mcfuzz_Gen_Twin
begin

text \<open>
  Expressions of the generator in two runs at once: the well-formedness of the declared types, and that every
  expression generator returns in both runs after the same draws.
\<close>

section \<open>Declared types\<close>

text \<open>
  \<open>comp_ok S A Os n t\<close>: the type \<open>t\<close> is a scalar, an open enum, or a struct or array of such types, nested fewer
  than \<open>n\<close> deep. \<open>S\<close>, \<open>A\<close>, \<open>Os\<close> are the declared structs, arrays and open enums.
\<close>

primrec comp_ok ::
  "(string, (string \<times> string) list) dict \<Rightarrow> (string, string \<times> nat) dict \<Rightarrow> (string, string list) dict \<Rightarrow> nat \<Rightarrow> string \<Rightarrow> bool" where
  "comp_ok S A Os 0 t \<longleftrightarrow> False"
| "comp_ok S A Os (Suc n) t \<longleftrightarrow>
     (case map_of S t of Some fs \<Rightarrow> fs \<noteq> [] \<and> list_all (\<lambda>(f, t). plain f \<and> comp_ok S A Os n t) fs
      | None \<Rightarrow> (case map_of A t of Some (e, len) \<Rightarrow> 0 < len \<and> comp_ok S A Os n e
      | None \<Rightarrow> map_of Os t \<noteq> None \<or> t \<in> set SCALARS))"

declare comp_ok.simps [simp del]

lemma comp_ok_mono: "comp_ok S A Os n t \<Longrightarrow> n \<le> m \<Longrightarrow> comp_ok S A Os m t"
proof (induction n arbitrary: m t)
  case (Suc n)
  then obtain m' where m: "m = Suc m'" "n \<le> m'" by (cases m) auto
  have "list_all (\<lambda>(f, t). plain f \<and> comp_ok S A Os n t) fs \<Longrightarrow> list_all (\<lambda>(f, t). plain f \<and> comp_ok S A Os m' t) fs" for fs
    using Suc.IH m(2) by (auto elim: list.pred_mono_strong)
  then show ?case
    using Suc.prems(1) Suc.IH m unfolding m(1) comp_ok.simps(2) by (auto split: option.splits)
qed (simp add: comp_ok.simps)

text \<open>Struct names begin with \<open>S\<close>, enums with \<open>E\<close>, open enums with \<open>O\<close>, aliases with \<open>A\<close>, arrays and tuples with a bracket.\<close>

definition headed :: "char \<Rightarrow> string \<Rightarrow> bool" where
  "headed c k \<longleftrightarrow> (\<exists>r. k = c # r)"

definition key_ok :: "char \<Rightarrow> string \<Rightarrow> bool" where
  "key_ok c k \<longleftrightarrow> headed c k \<and> plain k"

definition comp_bound :: nat where
  "comp_bound = 7"

definition is_comp :: "gen_state \<Rightarrow> string \<Rightarrow> bool" where
  "is_comp s t \<longleftrightarrow> comp_ok (gs_structs s) (gs_arrays s) (gs_open_enums s) comp_bound t"

definition types_ok :: "gen_state \<Rightarrow> bool" where
  "types_ok s \<longleftrightarrow>
     (\<forall>(k, fs) \<in> set (gs_structs s). key_ok (CHR ''S'') k \<and> is_comp s k \<and> list_all (\<lambda>(f, t). plain f) fs) \<and>
     (\<forall>(k, e, len) \<in> set (gs_arrays s). key_ok (CHR ''['') k \<and> is_comp s k \<and> 0 < len) \<and>
     (\<forall>(k, vs) \<in> set (gs_open_enums s). key_ok (CHR ''O'') k \<and> vs \<noteq> [] \<and> list_all plain vs) \<and>
     (\<forall>(k, vs) \<in> set (gs_enums s). key_ok (CHR ''E'') k \<and> vs \<noteq> [] \<and> list_all plain vs) \<and>
     (\<forall>(k, ets) \<in> set (gs_tuples s). key_ok (CHR ''('') k \<and> list_all (is_comp s) ets) \<and>
     (\<forall>(k, u) \<in> set (gs_aliases s). key_ok (CHR ''A'') k \<and> u \<in> set INTS) \<and>
     (\<forall>(f, ps, r) \<in> set (gs_functions s). plain f \<and> list_all (\<lambda>(p, t). t \<in> set SCALARS) ps)"

lemma map_of_rule: "map_of d k = Some v \<Longrightarrow> \<forall>x \<in> set d. P x \<Longrightarrow> P (k, v)"
  by (blast dest: map_of_SomeD)

lemma types_okD:
  assumes "types_ok s"
  shows "map_of (gs_structs s) k = Some fs \<Longrightarrow> key_ok (CHR ''S'') k \<and> is_comp s k"
    and "map_of (gs_arrays s) k = Some (e, len) \<Longrightarrow> key_ok (CHR ''['') k \<and> is_comp s k \<and> 0 < len"
    and "map_of (gs_open_enums s) k = Some vs \<Longrightarrow> key_ok (CHR ''O'') k \<and> vs \<noteq> [] \<and> list_all plain vs"
    and "map_of (gs_enums s) k = Some vs \<Longrightarrow> key_ok (CHR ''E'') k \<and> vs \<noteq> [] \<and> list_all plain vs"
    and "map_of (gs_tuples s) k = Some ets \<Longrightarrow> key_ok (CHR ''('') k \<and> list_all (is_comp s) ets"
    and "map_of (gs_aliases s) k = Some u \<Longrightarrow> key_ok (CHR ''A'') k \<and> u \<in> set INTS"
  using assms unfolding types_ok_def by (fast dest: map_of_SomeD)+

lemma scalar_subs: "t \<in> set UINTS \<Longrightarrow> t \<in> set SCALARS" "t \<in> set INTS \<Longrightarrow> t \<in> set SCALARS" "t \<in> set VALUE_TYPES \<Longrightarrow> t \<in> set SCALARS"
    "t \<in> set SATS \<Longrightarrow> t \<in> set SCALARS" "t \<in> set WRAPS \<Longrightarrow> t \<in> set SCALARS" "t \<in> set FLOATS \<Longrightarrow> t \<in> set SCALARS"
  using scalar_lists by auto

lemma scalar_plain: "t \<in> set SCALARS \<Longrightarrow> plain t"
proof -
  have "list_all plain SCALARS" by code_simp
  then show "t \<in> set SCALARS \<Longrightarrow> plain t" by (simp add: list_all_iff)
qed

lemma not_headed: "t \<in> set SCALARS \<Longrightarrow> headed c t \<Longrightarrow> c \<in> set ''uiswf''"
  using scalar_head [of t] by (auto simp: headed_def)

lemma scalar_undeclared:
  assumes "types_ok s" and t: "t \<in> set SCALARS"
  shows "map_of (gs_structs s) t = None" "map_of (gs_arrays s) t = None" "map_of (gs_open_enums s) t = None"
    "map_of (gs_enums s) t = None" "map_of (gs_tuples s) t = None" "map_of (gs_aliases s) t = None"
proof -
  note D = types_okD [OF assms(1), of t]
  show "map_of (gs_structs s) t = None" using not_headed [OF t, of "CHR ''S''"] D(1) by (cases "map_of (gs_structs s) t") (auto simp: key_ok_def)
  show "map_of (gs_arrays s) t = None" using not_headed [OF t, of "CHR ''[''"] D(2) by (cases "map_of (gs_arrays s) t") (auto simp: key_ok_def)
  show "map_of (gs_open_enums s) t = None" using not_headed [OF t, of "CHR ''O''"] D(3) by (cases "map_of (gs_open_enums s) t") (auto simp: key_ok_def)
  show "map_of (gs_enums s) t = None" using not_headed [OF t, of "CHR ''E''"] D(4) by (cases "map_of (gs_enums s) t") (auto simp: key_ok_def)
  show "map_of (gs_tuples s) t = None" using not_headed [OF t, of "CHR ''(''"] D(5) by (cases "map_of (gs_tuples s) t") (auto simp: key_ok_def)
  show "map_of (gs_aliases s) t = None" using not_headed [OF t, of "CHR ''A''"] D(6) by (cases "map_of (gs_aliases s) t") (auto simp: key_ok_def)
qed

section \<open>Two states of the two runs\<close>

text \<open>The parts of the state that the expressions read, beside the environment.\<close>

definition shape where
  "shape s = ((gs_float_bits s, gs_trapping s, gs_functions s), gs_structs s, gs_arrays s, gs_open_enums s, gs_enums s, gs_tuples s, gs_aliases s)"

definition alike :: "(string \<Rightarrow> string \<Rightarrow> bool) \<Rightarrow> gen_state \<Rightarrow> gen_state \<Rightarrow> bool" where
  "alike R s s' \<longleftrightarrow> naming R \<and> types_ok s \<and> shape s' = shape s \<and> (\<forall>t. list_all2 R (env_get s t) (env_get s' t))"

lemma env_get_tape [simp]: "env_get (s\<lparr>tape := t\<rparr>) ty = env_get s ty"
  by (simp add: env_get_def)

lemma enum_variants_tape [simp]: "enum_variants (s\<lparr>tape := t\<rparr>) ty = enum_variants s ty"
  by (simp add: enum_variants_def split: option.split list.split)

text \<open>The types a variable can have.\<close>

definition val_ok :: "gen_state \<Rightarrow> string \<Rightarrow> bool" where
  "val_ok s t \<longleftrightarrow> is_comp s t \<or> t \<in> fst ` set (gs_enums s) \<or> t \<in> fst ` set (gs_tuples s) \<or> t \<in> fst ` set (gs_aliases s)"

locale twin_runs =
  fixes R :: "string \<Rightarrow> string \<Rightarrow> bool" and s s' :: gen_state
  assumes alike: "alike R s s'"
begin

lemma naming: "naming R" and types: "types_ok s" and env: "list_all2 R (env_get s t) (env_get s' t)"
  using alike by (auto simp: alike_def)

lemma same_shape [simp]:
  "gs_float_bits s' = gs_float_bits s" "gs_trapping s' = gs_trapping s" "gs_functions s' = gs_functions s"
  "gs_structs s' = gs_structs s" "gs_arrays s' = gs_arrays s" "gs_open_enums s' = gs_open_enums s"
  "gs_enums s' = gs_enums s" "gs_tuples s' = gs_tuples s" "gs_aliases s' = gs_aliases s"
  using alike by (auto simp: alike_def shape_def)

lemma env_nil [simp]: "env_get s' t = [] \<longleftrightarrow> env_get s t = []"
  using env [of t] by (auto dest: list_all2_lengthD)

lemma env_length [simp]: "length (env_get s' t) = length (env_get s t)"
  using env [of t] by (simp add: list_all2_lengthD)

abbreviation "lk m m' P \<equiv> lockstep s s' m m' P"

text \<open>Sequencing after each kind of draw.\<close>

lemma seq_flip: "(\<And>b. lk (k b) (k' b) Q) \<Longrightarrow> lk (bind (flip p) k) (bind (flip p) k') Q"
  by (rule lock_bind [OF lock_flip]) simp

lemma seq_flip_if: "c = c' \<Longrightarrow> (\<And>b. (b \<Longrightarrow> c) \<Longrightarrow> lk (k b) (k' b) Q) \<Longrightarrow> lk (bind (flip_if c p) k) (bind (flip_if c' p) k') Q"
  by (rule lock_bind [OF lock_flip_if]) auto

lemma seq_randrange: "lo < hi \<Longrightarrow> (\<And>n. lo \<le> n \<Longrightarrow> n < hi \<Longrightarrow> lk (k n) (k' n) Q) \<Longrightarrow> lk (bind (randrange lo hi) k) (bind (randrange lo hi) k') Q"
  by (rule lock_bind [OF lock_randrange]) auto

lemma seq_pick: "xs \<noteq> [] \<Longrightarrow> (\<And>x. x \<in> set xs \<Longrightarrow> lk (k x) (k' x) Q) \<Longrightarrow> lk (bind (choice xs) k) (bind (choice xs) k') Q"
  by (rule lock_bind [OF lock_pick]) auto

lemma seq_live: "env_get s t \<noteq> [] \<Longrightarrow> (\<And>x x'. R x x' \<Longrightarrow> lk (k x) (k' x') Q) \<Longrightarrow>
    lk (bind (choice (env_get s t)) k) (bind (choice (env_get s' t)) k') Q"
  by (rule lock_bind [OF lock_choice [OF env]]) auto

lemma seq_lit: "t \<in> set SCALARS \<Longrightarrow> (\<And>x. literal x \<Longrightarrow> lk (k x) (k' x) Q) \<Longrightarrow> lk (bind (ty_lit t) k) (bind (ty_lit t) k') Q"
  by (rule lock_bind [OF lock_ty_lit]) auto

lemma seq_lift: "r = Inr x \<Longrightarrow> r' = Inr x' \<Longrightarrow> lk (k x) (k' x') Q \<Longrightarrow> lk (bind (lift_result r) k) (bind (lift_result r') k') Q"
  by (rule lock_bind [OF lock_lift [where P = "\<lambda>a b. a = x \<and> b = x'"]]) auto

lemma seq_ret: "lk (k x) (k' x') Q \<Longrightarrow> lk (bind (ret x) k) (bind (ret x') k') Q"
  by (simp add: lockstep_def bind_def ret_def)

lemma seq_env_at: "env_get s t \<noteq> [] \<Longrightarrow> lk (k (env_get s t)) (k' (env_get s' t)) Q \<Longrightarrow> lk (bind (env_at t) k) (bind (env_at t) k') Q"
  using env_nil [of t]
  by (auto simp: lockstep_def env_at_def get_state_def env_get_def bind_def gets_def ret_def split: option.splits)

lemmas seqs = seq_flip seq_flip_if seq_randrange seq_env_at seq_live seq_pick seq_lit seq_ret

lemma live_types: "filter (\<lambda>t. env_get s' t \<noteq> []) ts = filter (\<lambda>t. env_get s t \<noteq> []) ts"
  by simp

section \<open>Leaves and scalars\<close>

lemma lock_leaf: "t \<in> set SCALARS \<Longrightarrow> lk (gen_leaf t) (gen_leaf t) (vals R)"
proof -
  assume t: "t \<in> set SCALARS"
  obtain i where i: "ty_at t = Inr i" using scalar_info [OF t] by (auto simp: ty_at_def)
  have lit: "lk (ty_lit t) (ty_lit t) (vals R)" by (rule lock_mono [OF lock_ty_lit [OF t]]) (auto intro: literal_vals)
  have small: "lk small_float_lit small_float_lit (vals R)"
    unfolding small_float_lit_def by (rule lock_mono [OF lock_decimal_lit]) (auto intro: literal_vals)
  have live: "lk (choice (env_get s t)) (choice (env_get s' t)) (vals R)" if "env_get s t \<noteq> []"
    by (rule lock_choice [OF list_all2_mono [OF env]]) (auto simp: that intro: vals_name naming)
  have kind: "lk (if gs_float_bits s then bind (lift_result (ty_at t)) (\<lambda>t. ret (ti_kind t = KFloat)) else ret False)
      (if gs_float_bits s' then bind (lift_result (ty_at t)) (\<lambda>t. ret (ti_kind t = KFloat)) else ret False) (=)"
    by (intro lock_if seq_lift [OF i i] lock_ret) simp_all
  show ?thesis
    unfolding gen_leaf_def
    by (rule lock_gets, simp, simp, rule lock_bind [OF kind]) (auto intro!: lock_if lock_gets seqs small lit live)
qed

lemma live_vals: "R x x' \<Longrightarrow> vals R x x'" and live_texts: "R x x' \<Longrightarrow> texts R x x'"
  by (auto intro: vals_name naming_texts naming)

lemma seq_leaf: "t \<in> set SCALARS \<Longrightarrow> (\<And>x x'. vals R x x' \<Longrightarrow> lk (k x) (k' x') Q) \<Longrightarrow> lk (bind (gen_leaf t) k) (bind (gen_leaf t) k') Q"
  by (rule lock_bind [OF lock_leaf]) auto

lemma fold_texts:
  assumes "t \<in> set SCALARS" and "texts R v v'"
  shows "\<exists>f f'. ty_fold t v = Inr f \<and> ty_fold t v' = Inr f' \<and> texts R f f'"
proof -
  obtain i where i: "ty_at t = Inr i" "ti_kind i \<noteq> KBool" using scalar_info [OF assms(1)] by (auto simp: ty_at_def)
  then show ?thesis using assms(2)
    by (cases "ti_kind i") (auto simp: ty_fold_def domain_fold_def plain_Char intro!: texts_append texts_Cons)
qed

lemma seq_fold:
  assumes "t \<in> set SCALARS" and "texts R v v'" and "\<And>f f'. texts R f f' \<Longrightarrow> lk (k f) (k' f') Q"
  shows "lk (bind (lift_result (ty_fold t v)) k) (bind (lift_result (ty_fold t v')) k') Q"
proof -
  obtain f f' where "ty_fold t v = Inr f" "ty_fold t v' = Inr f'" "texts R f f'" using fold_texts [OF assms(1,2)] by blast
  then show ?thesis by (intro seq_lift assms(3))
qed

lemma lock_fold: "t \<in> set SCALARS \<Longrightarrow> texts R v v' \<Longrightarrow> lk (lift_result (ty_fold t v)) (lift_result (ty_fold t v')) (texts R)"
  using fold_texts [of t v v'] by (auto intro: lock_lift)

lemmas text_intros = texts_append texts_Cons vals_other

lemma seq_anchored:
  assumes t: "t \<in> set SCALARS" and k: "\<And>a a' b b'. vals R a a' \<Longrightarrow> vals R b b' \<Longrightarrow> lk (k (a, b)) (k' (a', b')) Q"
  shows "lk (bind (anchored_pair t) k) (bind (anchored_pair t) k') Q"
proof -
  have first: "lk (if env_get s t \<noteq> [] then choice (env_get s t) else gen_leaf t)
      (if env_get s' t \<noteq> [] then choice (env_get s' t) else gen_leaf t) (vals R)"
    by (intro lock_if lock_choice [OF list_all2_mono [OF env]] lock_leaf t) (auto intro: live_vals)
  have "lk (anchored_pair t) (anchored_pair t) (\<lambda>(a, b) (a', b'). vals R a a' \<and> vals R b b')"
    unfolding anchored_pair_def by (rule lock_gets, simp, simp, rule lock_bind [OF first]) (auto intro!: seq_leaf lock_ret t)
  then show ?thesis by (rule lock_bind) (use k in auto)
qed

lemma lock_checked: "t \<in> set SCALARS \<Longrightarrow> 0 < w \<Longrightarrow> lk (gen_checked t w sg) (gen_checked t w sg) (vals R)"
  unfolding gen_checked_def
  by (rule seq_anchored)
    (auto simp: plain_Char wordy_head not_lower intro!: seqs lock_if lock_ret text_intros intro: vals_texts)

lemma lock_domain:
  "t \<in> set SCALARS \<Longrightarrow> 0 < ti_width i \<Longrightarrow> lk (gen_domain i t) (gen_domain i t) (vals R)"
  unfolding gen_domain_def
  by (auto simp: plain_Char wordy_head not_lower intro!: lock_gets seqs lock_if lock_ret lock_leaf text_intros intro: live_texts)

lemma lock_wadd: "t \<in> set SCALARS \<Longrightarrow> lk (gen_wadd t) (gen_wadd t) (vals R)"
  unfolding gen_wadd_def
  by (auto simp: plain_Char wordy_paren intro!: lock_gets seqs lock_if lock_ret lock_leaf seq_leaf text_intros intro: live_texts vals_texts)

lemma lock_conv: "t \<in> set SCALARS \<Longrightarrow> lk (gen_conv t) (gen_conv t) (vals R)"
proof -
  assume t: "t \<in> set SCALARS"
  have source: "lk (if c then bind (choice cands) (\<lambda>src. bind (env_at src) (\<lambda>l. bind (choice l) (\<lambda>v. ret (src, v))))
        else bind (choice UINTS) (\<lambda>src. bind (ty_lit src) (\<lambda>v. ret (src, v))))
      (if c then bind (choice cands) (\<lambda>src. bind (env_at src) (\<lambda>l. bind (choice l) (\<lambda>v. ret (src, v))))
        else bind (choice UINTS) (\<lambda>src. bind (ty_lit src) (\<lambda>v. ret (src, v))))
      (\<lambda>(src, v) (src', v'). src' = src \<and> src \<in> set SCALARS \<and> texts R v v')"
    if "c \<Longrightarrow> cands \<noteq> []" and "\<And>x. x \<in> set cands \<Longrightarrow> x \<in> set INTS \<and> env_get s x \<noteq> []" for c cands
    using that
    by (auto simp: literal_def intro!: lock_if seqs lock_ret intro: scalar_subs live_texts)
  show ?thesis
    unfolding gen_conv_def
    by (rule lock_gets, simp, simp, simp only: live_types, rule seq_flip_if, simp, rule lock_bind [OF source])
      (use t in \<open>auto simp: plain_Char wordy_paren scalar_plain intro!: seq_fold lock_ret text_intros\<close>)
qed

lemma lock_scalar:
  assumes t: "t \<in> set SCALARS" and rec: "d < 3 \<Longrightarrow> lk rec rec (vals R)"
  shows "lk (gen_scalar rec t d) (gen_scalar rec t d) (vals R)"
proof -
  obtain i where i: "ty_at t = Inr i" "0 < ti_width i" "ti_kind i \<noteq> KBool" using scalar_info [OF t] by (auto simp: ty_at_def)
  have float: "lk (gen_float rec t d) (gen_float rec t d) (vals R)"
    unfolding gen_float_def
    by (rule lock_bind [where P = "\<lambda>x y. y = x \<and> (\<not> x \<longrightarrow> d < 3)"])
      (auto simp: plain_Char wordy_head not_lower
        intro!: lock_if lock_ret lock_gets lock_mono [OF lock_flip] seqs lock_leaf t text_intros lock_bind [OF rec] dest!: vals_texts)
  have bitop: "lk (bind (gen_leaf t) (\<lambda>a. bind (gen_leaf t) (\<lambda>b. ret (''('' @ a @ '' '' @ sym @ '' '' @ b @ '')''))))
      (bind (gen_leaf t) (\<lambda>a. bind (gen_leaf t) (\<lambda>b. ret (''('' @ a @ '' '' @ sym @ '' '' @ b @ '')'')))) (vals R)"
    if "plain sym" for sym
    using that by (auto simp: plain_Char wordy_head not_lower intro!: lock_ret seq_leaf t text_intros dest!: vals_texts)
  have shr: "lk (bind (gen_leaf t) (\<lambda>a. bind (randrange 0 (ti_width i)) (\<lambda>k. ret (''('' @ a @ '' >> '' @ str_nat k @ '')''))))
      (bind (gen_leaf t) (\<lambda>a. bind (randrange 0 (ti_width i)) (\<lambda>k. ret (''('' @ a @ '' >> '' @ str_nat k @ '')'')))) (vals R)"
    using i(2) by (auto simp: plain_Char wordy_head not_lower intro!: lock_ret seq_leaf seqs t text_intros dest!: vals_texts)
  have uint: "lk (gen_uint i t) (gen_uint i t) (vals R)"
    unfolding gen_uint_def Let_def
    by (rule lock_gets, simp, simp, unfold same_shape, rule seq_flip_if, simp, rule lock_if, simp, rule lock_checked [OF t i(2)],
      rule seq_pick, simp, intro lock_if refl lock_wadd lock_conv bitop shr t) auto
  have sint: "lk (gen_sint i t) (gen_sint i t) (vals R)"
    unfolding gen_sint_def by (auto intro!: lock_gets seqs lock_if lock_checked lock_wadd t i)
  show ?thesis
    unfolding gen_scalar_def
    by (rule seq_lift [OF i(1) i(1)], cases "ti_kind i")
      (use i(2,3) in \<open>auto intro!: lock_if seqs float lock_domain lock_leaf uint sint t\<close>)
qed

lemma lock_call:
  assumes "plain f" and "list_all (\<lambda>(p, t). t \<in> set SCALARS) ps"
  shows "lk (gen_call (f, ps, r)) (gen_call (f, ps, r)) (vals R)"
proof -
  have "lk (map_m (\<lambda>(pn, pt). gen_leaf pt) ps) (map_m (\<lambda>(pn, pt). gen_leaf pt) ps) (list_all2 (vals R))"
    by (rule lock_map) (use assms(2) in \<open>auto simp: list_all_iff intro!: lock_leaf\<close>)
  then have args: "lk (map_m (\<lambda>(pn, pt). gen_leaf pt) ps) (map_m (\<lambda>(pn, pt). gen_leaf pt) ps) (list_all2 (texts R))"
    by (rule lock_mono) (auto elim: list_all2_mono intro: vals_texts)
  show ?thesis
    unfolding gen_call_def prod.case
    by (rule lock_bind [OF args])
      (use assms(1) in \<open>auto simp: plain_Char wordy_paren intro!: lock_ret text_intros texts_join\<close>)
qed

section \<open>Values\<close>

lemma undeclared_sets:
  "map_of d t = None \<Longrightarrow> t \<notin> fst ` set d"
  by (simp add: map_of_eq_None_iff)

lemmas full_congs = if_cong option.case_cong

lemma lock_value_scalar:
  "t \<in> set SCALARS \<Longrightarrow> 0 < n \<Longrightarrow> 4 \<le> n + d \<Longrightarrow> lk (gen_value n t d) (gen_value n t d) (vals R)"
proof (induction n arbitrary: d)
  case (Suc n)
  note u = scalar_undeclared [OF types Suc.prems(1)]
  have rec: "lk (gen_value n t (d + 1)) (gen_value n t (d + 1)) (vals R)" if "d < 3"
    by (rule Suc.IH) (use Suc.prems that in auto)
  have call: "lk (bind (choice c) gen_call) (bind (choice c) gen_call) (vals R)"
    if "c = filter (\<lambda>(f, ps, r). r = t) (gs_functions s)" "c \<noteq> []" for c
    using types that by (auto simp: types_ok_def intro!: seq_pick lock_call)
  show ?case
    unfolding gen_value.simps Let_def
    by (rule lock_get_state, simp cong: full_congs, simp cong: full_congs, unfold same_shape)
      (use u u(3,4) [THEN undeclared_sets] call in
        \<open>auto simp: Let_def intro!: seq_flip_if lock_if lock_scalar Suc.prems(1) rec\<close>)
qed simp

lemma texts_of_vals: "list_all2 (vals R) xs ys \<Longrightarrow> list_all2 (texts R) xs ys"
  by (auto elim: list_all2_mono intro: vals_texts)

lemma headed_tables:
  assumes "headed c t"
  shows "c \<noteq> CHR ''S'' \<Longrightarrow> map_of (gs_structs s) t = None" "c \<noteq> CHR ''['' \<Longrightarrow> map_of (gs_arrays s) t = None"
    "c \<noteq> CHR ''O'' \<Longrightarrow> map_of (gs_open_enums s) t = None" "c \<noteq> CHR ''E'' \<Longrightarrow> map_of (gs_enums s) t = None"
    "c \<noteq> CHR ''('' \<Longrightarrow> map_of (gs_tuples s) t = None" "c \<noteq> CHR ''A'' \<Longrightarrow> map_of (gs_aliases s) t = None"
proof -
  have other: "c \<noteq> c' \<Longrightarrow> (\<And>v. map_of d t = Some v \<Longrightarrow> key_ok c' t) \<Longrightarrow> map_of d t = None" for c' and d :: "(string \<times> 'v) list"
    using assms by (cases "map_of d t") (auto simp: key_ok_def headed_def)
  note D = types_okD [OF types, of t]
  show "c \<noteq> CHR ''S'' \<Longrightarrow> map_of (gs_structs s) t = None" by (rule other) (use D(1) in blast)+
  show "c \<noteq> CHR ''['' \<Longrightarrow> map_of (gs_arrays s) t = None" by (rule other) (use D(2) in \<open>auto dest: D(2)\<close>)
  show "c \<noteq> CHR ''O'' \<Longrightarrow> map_of (gs_open_enums s) t = None" by (rule other) (use D(3) in blast)+
  show "c \<noteq> CHR ''E'' \<Longrightarrow> map_of (gs_enums s) t = None" by (rule other) (use D(4) in blast)+
  show "c \<noteq> CHR ''('' \<Longrightarrow> map_of (gs_tuples s) t = None" by (rule other) (use D(5) in blast)+
  show "c \<noteq> CHR ''A'' \<Longrightarrow> map_of (gs_aliases s) t = None" by (rule other) (use D(6) in blast)+
qed

lemma seq_variants:
  "vs \<noteq> [] \<Longrightarrow> list_all plain vs \<Longrightarrow> lk (bind (choice vs) (\<lambda>v. ret (''.'' @ v))) (bind (choice vs) (\<lambda>v. ret (''.'' @ v))) (vals R)"
  by (auto simp: list_all_iff plain_Char wordy_head not_lower intro!: seq_pick lock_ret text_intros)

lemma literal_list:
  assumes "list_all2 (vals R) xs ys" and "plain l" and "plain r" and "l \<noteq> []" and "\<not> is_lower (hd l)"
  shows "vals R (l @ join '', '' xs @ r) (l @ join '', '' ys @ r)"
proof -
  have "\<not> wordy (l @ x)" for x using assms(4,5) by (simp add: wordy_def)
  moreover have "texts R (join '', '' xs) (join '', '' ys)" by (rule texts_join [OF _ texts_of_vals [OF assms(1)]]) (simp add: plain_Char)
  ultimately show ?thesis using assms(2,3) by (intro vals_other texts_append texts_same)
qed

lemma lock_value_comp:
  "comp_ok (gs_structs s) (gs_arrays s) (gs_open_enums s) r t \<Longrightarrow> r + 4 \<le> n \<Longrightarrow>
   lk (gen_value n t 0) (gen_value n t 0) (vals R)"
proof (induction r arbitrary: n t)
  case (Suc r)
  then obtain m where m: "n = Suc m" "r + 4 \<le> m" by (cases n) auto
  note IH = Suc.IH [OF _ m(2)]
  note D = types_okD [OF types, of t]
  consider (st) fs where "map_of (gs_structs s) t = Some fs" | (ar) e len where "map_of (gs_arrays s) t = Some (e, len)" "map_of (gs_structs s) t = None"
    | (oe) vs where "map_of (gs_open_enums s) t = Some vs" | (sc) "t \<in> set SCALARS"
    using Suc.prems(1) by (fastforce simp: comp_ok.simps split: option.splits)
  then show ?case
  proof cases
    case st
    then have k: "headed (CHR ''S'') t" and fs: "list_all (\<lambda>(f, t). plain f \<and> comp_ok (gs_structs s) (gs_arrays s) (gs_open_enums s) r t) fs"
      using D(1) Suc.prems(1) by (auto simp: key_ok_def comp_ok.simps)
    have fields: "lk (map_m (\<lambda>(f, t). bind (gen_value m t 0) (\<lambda>v. ret (''.'' @ f @ '' = '' @ v))) fs)
        (map_m (\<lambda>(f, t). bind (gen_value m t 0) (\<lambda>v. ret (''.'' @ f @ '' = '' @ v))) fs) (list_all2 (vals R))"
      by (rule lock_map) (use fs in \<open>auto simp: list_all_iff plain_Char wordy_head not_lower
          intro!: lock_bind [OF IH] lock_ret text_intros dest!: vals_texts\<close>)
    show ?thesis
      unfolding m(1) gen_value.simps Let_def
      by (rule lock_get_state, simp cong: full_congs, simp cong: full_congs, unfold same_shape,
          simp only: headed_tables(6) [OF k, simplified] st option.case, rule lock_bind [OF fields], rule lock_ret, erule literal_list)
        (simp_all add: plain_Char not_lower)
  next
    case ar
    then have k: "headed (CHR ''['') t" and e: "comp_ok (gs_structs s) (gs_arrays s) (gs_open_enums s) r e"
      using D(2) Suc.prems(1) by (auto simp: key_ok_def comp_ok.simps)
    have leaf: "e \<in> set SCALARS" if "e \<notin> fst ` set (gs_structs s)" "e \<notin> fst ` set (gs_arrays s)" "e \<notin> fst ` set (gs_open_enums s)"
      using e that by (cases r) (auto simp: comp_ok.simps simp flip: map_of_eq_None_iff)
    have elems: "lk (repeat_m len (if e \<in> fst ` set (gs_structs s) \<or> e \<in> fst ` set (gs_arrays s) \<or> e \<in> fst ` set (gs_open_enums s)
          then gen_value m e 0 else gen_leaf e))
        (repeat_m len (if e \<in> fst ` set (gs_structs s) \<or> e \<in> fst ` set (gs_arrays s) \<or> e \<in> fst ` set (gs_open_enums s)
          then gen_value m e 0 else gen_leaf e)) (list_all2 (vals R))"
      by (intro lock_repeat lock_if IH e lock_leaf refl leaf) auto
    have no: "(t \<in> fst ` set (gs_enums s) \<or> t \<in> fst ` set (gs_open_enums s)) = False"
      using headed_tables(3,4) [OF k] by (simp add: map_of_eq_None_iff)
    show ?thesis
      unfolding m(1) gen_value.simps Let_def
      by (rule lock_get_state, simp cong: full_congs, simp cong: full_congs, unfold same_shape,
          simp only: headed_tables(6) [OF k, simplified] ar no option.case prod.case if_False, rule lock_bind [OF elems], rule lock_ret, erule literal_list)
        (simp_all add: plain_Char not_lower)
  next
    case oe
    then have k: "headed (CHR ''O'') t" and vs: "vs \<noteq> []" "list_all plain vs" using D(3) by (auto simp: key_ok_def)
    have yes: "(t \<in> fst ` set (gs_enums s) \<or> t \<in> fst ` set (gs_open_enums s)) = True" using oe by (force dest: map_of_SomeD)
    have ev: "enum_variants s t = Inr vs" "enum_variants s' t = Inr vs" using oe headed_tables(4) [OF k] by (simp_all add: enum_variants_def)
    show ?thesis
      unfolding m(1) gen_value.simps Let_def
      by (rule lock_get_state, simp cong: full_congs, simp cong: full_congs, unfold same_shape,
          simp only: headed_tables(1,6) [OF k, simplified] yes option.case if_True)
        (rule seq_lift [OF ev], rule seq_variants [OF vs])
  next
    case sc
    then show ?thesis using m by (intro lock_value_scalar) auto
  qed
qed (simp add: comp_ok.simps)

lemma is_comp_eq:
  "is_comp s t \<longleftrightarrow> (case map_of (gs_structs s) t of
      Some fs \<Rightarrow> fs \<noteq> [] \<and> list_all (\<lambda>(f, t). plain f \<and> comp_ok (gs_structs s) (gs_arrays s) (gs_open_enums s) 6 t) fs
    | None \<Rightarrow> (case map_of (gs_arrays s) t of Some (e, len) \<Rightarrow> 0 < len \<and> comp_ok (gs_structs s) (gs_arrays s) (gs_open_enums s) 6 e
    | None \<Rightarrow> map_of (gs_open_enums s) t \<noteq> None \<or> t \<in> set SCALARS))"
  by (simp only: is_comp_def comp_bound_def comp_ok.simps(2) [of _ _ _ 6, simplified])

lemma is_comp_scalar: "t \<in> set SCALARS \<Longrightarrow> is_comp s t"
  using scalar_undeclared [OF types, of t] by (simp add: is_comp_eq)

lemma is_comp_open: "map_of (gs_open_enums s) t = Some vs \<Longrightarrow> is_comp s t"
  using headed_tables(1,2) [of "CHR ''O''" t] types_okD(3) [OF types, of t] by (simp add: is_comp_eq key_ok_def)

lemma comp_declared: "is_comp s t \<Longrightarrow> t \<in> set SCALARS \<or> (\<exists>c \<in> {CHR ''S'', CHR ''['', CHR ''O''}. key_ok c t)"
  using types_okD(1-3) [OF types, of t] by (auto simp: is_comp_eq split: option.splits)

lemma val_ok_plain: "val_ok s t \<Longrightarrow> plain t"
  using comp_declared [of t] types unfolding val_ok_def
  by (fastforce simp: types_ok_def key_ok_def intro: scalar_plain)

lemma lookup_key: "t \<in> fst ` set d \<Longrightarrow> \<exists>v. map_of d t = Some v"
  by (metis map_of_eq_None_iff not_None_eq)

lemma lock_val_scalar: "t \<in> set SCALARS \<Longrightarrow> lk (gen_val t d) (gen_val t d) (vals R)"
  unfolding gen_val_def value_depth_def by (rule lock_value_scalar) auto

lemma lock_val:
  assumes "val_ok s t"
  shows "lk (gen_val t 0) (gen_val t 0) (vals R)"
proof -
  have depth: "value_depth = Suc 15" by (simp add: value_depth_def)
  note D = types_okD [OF types, of t]
  consider (comp) "is_comp s t" | (enum) vs where "map_of (gs_enums s) t = Some vs"
    | (tuple) ets where "map_of (gs_tuples s) t = Some ets" | (ali) u where "map_of (gs_aliases s) t = Some u"
    using assms by (auto simp: val_ok_def dest!: lookup_key)
  then show ?thesis
  proof cases
    case comp
    then show ?thesis unfolding gen_val_def is_comp_def value_depth_def by (rule lock_value_comp) (simp add: comp_bound_def)
  next
    case enum
    then have k: "headed (CHR ''E'') t" and vs: "vs \<noteq> []" "list_all plain vs" using D(4) by (auto simp: key_ok_def)
    have yes: "(t \<in> fst ` set (gs_enums s) \<or> t \<in> fst ` set (gs_open_enums s)) = True" using enum by (force dest: map_of_SomeD)
    have ev: "enum_variants s t = Inr vs" "enum_variants s' t = Inr vs" using enum vs by (auto simp: enum_variants_def split: list.split)
    show ?thesis
      unfolding gen_val_def depth gen_value.simps Let_def
      by (rule lock_get_state, simp cong: full_congs, simp cong: full_congs, unfold same_shape,
          simp only: headed_tables(1,6) [OF k, simplified] yes option.case if_True)
        (rule seq_lift [OF ev], rule seq_variants [OF vs])
  next
    case tuple
    then have k: "headed (CHR ''('') t" and ets: "list_all (is_comp s) ets" using D(5) by (auto simp: key_ok_def)
    have no: "(t \<in> fst ` set (gs_enums s) \<or> t \<in> fst ` set (gs_open_enums s)) = False"
      using headed_tables(3,4) [OF k] by (simp add: map_of_eq_None_iff)
    have elems: "lk (map_m (\<lambda>et. gen_value 15 et 0) ets) (map_m (\<lambda>et. gen_value 15 et 0) ets) (list_all2 (vals R))"
      by (rule lock_map, rule lock_value_comp [of comp_bound]) (use ets in \<open>auto simp: list_all_iff is_comp_def comp_bound_def\<close>)
    show ?thesis
      unfolding gen_val_def depth gen_value.simps Let_def
      by (rule lock_get_state, simp cong: full_congs, simp cong: full_congs, unfold same_shape,
          simp only: headed_tables(1,2,6) [OF k, simplified] tuple no option.case if_False, rule lock_bind [OF elems], rule lock_ret, erule literal_list)
        (simp_all add: plain_Char not_lower)
  next
    case ali
    then have "u \<in> set SCALARS" using D(6) by (auto intro: scalar_subs)
    then have "lk (gen_value 15 u 0) (gen_value 15 u 0) (vals R)" by (intro lock_value_scalar) auto
    then show ?thesis
      unfolding gen_val_def depth gen_value.simps Let_def
      by (intro lock_get_state, simp_all only: same_shape ali option.case) (simp_all cong: full_congs add: ali)
  qed
qed

lemma local_types_ok: "t \<in> set (local_types s) \<Longrightarrow> val_ok s t"
proof -
  assume t: "t \<in> set (local_types s)"
  have "is_comp s k" if "k \<in> fst ` set (gs_structs s)" for k using types that by (auto simp: types_ok_def)
  moreover have "is_comp s k" if "k \<in> fst ` set (gs_arrays s)" for k using types that by (auto simp: types_ok_def)
  moreover have "is_comp s k" if "k \<in> fst ` set (gs_open_enums s)" for k using lookup_key [OF that] by (auto intro: is_comp_open)
  ultimately show "val_ok s t"
    using t unfolding local_types_def val_ok_def set_append set_map Un_iff by (blast intro: is_comp_scalar scalar_subs)
qed

section \<open>Conditions and paths\<close>

lemma CMPS_ok [simp]: "CMPS \<noteq> []" and CMPS_plain: "c \<in> set CMPS \<Longrightarrow> plain c"
  by (auto simp: CMPS_def)

lemma lock_compare:
  assumes "\<exists>t \<in> set VALUE_TYPES. env_get s t \<noteq> []"
  shows "lk gen_compare gen_compare (texts R)"
proof -
  have ne: "filter (\<lambda>t. env_get s t \<noteq> []) VALUE_TYPES \<noteq> []" using assms by (auto simp: filter_empty_conv)
  have other: "lk (if c then choice (env_get s t) else ty_lit t) (if c then choice (env_get s' t) else ty_lit t) (texts R)"
    if "t \<in> set SCALARS" "env_get s t \<noteq> []" for c t
    by (intro lock_if lock_choice [OF list_all2_mono [OF env]] lock_mono [OF lock_ty_lit] that) (auto simp: literal_def intro: live_texts that)
  show ?thesis
    unfolding gen_compare_def
    by (rule lock_gets, simp, simp, simp only: live_types, rule seq_pick [OF ne], rule seq_env_at, simp, rule seq_live, simp,
        rule seq_flip_if, simp, rule lock_bind, rule other)
      (auto simp: plain_Char intro!: seq_flip seq_pick lock_ret texts_append texts_Cons intro: scalar_subs dest!: live_texts CMPS_plain)
qed

lemma lock_domain_compare:
  assumes "doms \<noteq> []" and "\<And>t. t \<in> set doms \<Longrightarrow> t \<in> set SCALARS \<and> env_get s t \<noteq> []"
  shows "lk (gen_domain_compare doms) (gen_domain_compare doms) (texts R)"
proof -
  have "\<exists>i. ty_at t = Inr i" if "t \<in> set doms" for t using scalar_info [of t] assms(2) that by (auto simp: ty_at_def)
  then obtain info where info: "t \<in> set doms \<Longrightarrow> ty_at t = Inr (info t)" for t by metis
  have ops: "(if k = KWrap then [''=='', ''!=''] else CMPS) \<noteq> []" "c \<in> set (if k = KWrap then [''=='', ''!=''] else CMPS) \<Longrightarrow> plain c" for k c
    by (auto simp: CMPS_plain split: if_splits)
  show ?thesis
    unfolding gen_domain_compare_def
    by (rule seq_pick [OF assms(1)], rule seq_env_at, simp add: assms(2), rule seq_live, simp add: assms(2), rule seq_live, simp add: assms(2),
        rule seq_lift, erule info, erule info, rule seq_pick [OF ops(1)])
      (auto simp: plain_Char intro!: lock_ret texts_append texts_Cons dest!: ops(2) live_texts)
qed

lemma lock_bool_step:
  assumes rec: "deep \<Longrightarrow> lk rec rec (texts R)"
  shows "lk (gen_bool_step rec deep) (gen_bool_step rec deep) (texts R)"
proof -
  have lens: "filter (\<lambda>t. 2 \<le> length (env_get s' t)) (SATS @ WRAPS) = filter (\<lambda>t. 2 \<le> length (env_get s t)) (SATS @ WRAPS)" by simp
  have two: "t \<in> set (filter (\<lambda>t. 2 \<le> length (env_get s t)) (SATS @ WRAPS)) \<Longrightarrow> t \<in> set SCALARS \<and> env_get s t \<noteq> []" for t
    by (auto intro: scalar_subs)
  have both: "lk (bind (choice [''&&'', ''||'']) (\<lambda>op. bind rec (\<lambda>a. bind rec (\<lambda>b. ret (''('' @ a @ '' '' @ op @ '' '' @ b @ '')'')))))
      (bind (choice [''&&'', ''||'']) (\<lambda>op. bind rec (\<lambda>a. bind rec (\<lambda>b. ret (''('' @ a @ '' '' @ op @ '' '' @ b @ '')''))))) (texts R)" if deep
    using that by (auto simp: plain_Char intro!: seq_pick lock_bind [OF rec] lock_ret texts_append texts_Cons)
  have neg: "lk (bind rec (\<lambda>a. ret (''(!'' @ a @ '')''))) (bind rec (\<lambda>a. ret (''(!'' @ a @ '')''))) (texts R)" if deep
    using that by (auto simp: plain_Char intro!: lock_bind [OF rec] lock_ret texts_append texts_Cons)
  have word: "lk (choice [''true'', ''false'']) (choice [''true'', ''false'']) (texts R)"
    by (rule lock_mono [OF lock_pick]) (auto simp: plain_Char)
  show ?thesis
    unfolding gen_bool_step_def
    by (rule seq_flip_if, simp, rule lock_if, simp, rule both, simp, rule lock_gets, simp, simp, unfold lens,
        rule seq_flip_if, simp, rule lock_if, simp, rule lock_domain_compare, simp, erule two,
        rule lock_gets, simp, simp, unfold live_types, rule lock_if, simp, rule word,
        rule seq_flip_if, simp, rule lock_if, simp, rule neg, simp, rule lock_compare) (auto simp: filter_empty_conv)
qed

lemma lock_bool: "lk gen_bool gen_bool (texts R)"
proof -
  have "lk (gen_bool_levels n) (gen_bool_levels n) (texts R)" for n
    by (induction n) (auto intro: lock_bool_step)
  then show ?thesis by (simp add: gen_bool_def)
qed

lemma lock_u64: "lk u64_expr u64_expr (texts R)"
  unfolding u64_expr_def
  by (rule lock_gets, simp, simp, simp only: live_types)
    (auto intro!: lock_if seqs lock_ret lock_fold intro: scalar_subs dest!: live_texts)

section \<open>Paths and lists of variables\<close>

abbreviation "path_rel \<equiv> \<lambda>(p, t) (p', t'). t' = t \<and> texts R p p' \<and> is_comp s t"

lemma lock_walk:
  "comp_ok (gs_structs s) (gs_arrays s) (gs_open_enums s) r t \<Longrightarrow> r \<le> n \<Longrightarrow> r \<le> comp_bound \<Longrightarrow> texts R p p' \<Longrightarrow>
   lk (lvalue_walk n p t) (lvalue_walk n p' t) path_rel"
proof (induction r arbitrary: n t p p')
  case (Suc r)
  obtain m where m: "n = Suc m" "r \<le> m" using Suc.prems(2) by (cases n) auto
  have r: "r \<le> comp_bound" using Suc.prems(3) by simp
  note IH = Suc.IH [OF _ m(2) r] and comp = Suc.prems(1) [unfolded comp_ok.simps]
  have leaf: "is_comp s t" unfolding is_comp_def by (rule comp_ok_mono [OF Suc.prems(1) Suc.prems(3)])
  show ?case
    unfolding m(1) lvalue_walk.simps
    by (rule lock_get_state, simp cong: full_congs, simp cong: full_congs, unfold same_shape)
      (use comp Suc.prems(4) leaf in \<open>auto simp: plain_Char list_all_iff
          intro!: seq_pick seq_randrange IH lock_ret texts_append texts_Cons split: option.splits\<close>)
qed (simp add: comp_ok.simps)

lemma related_concat:
  "(\<And>t. t \<in> set ts \<Longrightarrow> list_all2 P (f t) (g t)) \<Longrightarrow> list_all2 P (concat (map f ts)) (concat (map g ts))"
  by (induction ts) (auto intro: list_all2_appendI)

lemma concat_map_Nil: "concat (map f ts) = [] \<longleftrightarrow> (\<forall>t \<in> set ts. f t = [])"
  by (induction ts) auto

lemma aggregate_types_same [simp]: "aggregate_types s' = aggregate_types s"
  by (simp add: aggregate_types_def)

lemma aggregate_comp: "t \<in> set (aggregate_types s) \<Longrightarrow> is_comp s t"
  using types by (auto simp: aggregate_types_def types_ok_def)

lemma has_aggregate_same [simp]: "has_aggregate_var s' = has_aggregate_var s"
  by (simp add: has_aggregate_var_def)

lemma lock_aggregate_lvalue:
  assumes "has_aggregate_var s"
  shows "lk aggregate_lvalue aggregate_lvalue path_rel"
proof -
  have walk: "lk (lvalue_walk value_depth p t) (lvalue_walk value_depth p' t) path_rel" if "R p p'" "is_comp s t" for p p' t
    by (rule lock_walk [where r = comp_bound]) (use that in \<open>auto simp: is_comp_def value_depth_def comp_bound_def intro: live_texts\<close>)
  let ?c = "\<lambda>s. concat (map (\<lambda>t. map (\<lambda>name. (name, t)) (env_get s t)) (aggregate_types s))"
  have rel: "list_all2 (\<lambda>(n, t) (n', t'). t' = t \<and> R n n' \<and> is_comp s t) (?c s) (?c s')"
    unfolding aggregate_types_same
    by (rule related_concat) (use env in \<open>auto simp: list_all2_map1 list_all2_map2 aggregate_comp\<close>)
  have ne: "?c s \<noteq> []" using assms by (auto simp: concat_map_Nil has_aggregate_var_def list_ex_iff)
  show ?thesis
    unfolding aggregate_lvalue_def
    by (rule lock_get_state, simp add: aggregate_types_def, simp add: aggregate_types_def, rule lock_bind [OF lock_choice [OF rel ne]])
      (auto intro: walk)
qed

lemma rel_int_arrays: "list_all2 (\<lambda>(n, e) (n', e'). e' = e \<and> R n n' \<and> e \<in> set INTS) (int_array_vars s) (int_array_vars s')"
  unfolding int_array_vars_def same_shape
  by (rule related_concat) (use env in \<open>auto simp: list_all2_map1 list_all2_map2 split: prod.split\<close>)

lemma rel_enum_vars: "list_all2 (\<lambda>(n, vs) (n', vs'). vs' = vs \<and> R n n' \<and> vs \<noteq> [] \<and> list_all plain vs) (live_enum_vars s) (live_enum_vars s')"
  unfolding live_enum_vars_def same_shape
  by (rule related_concat) (use env types in \<open>auto simp: types_ok_def list_all2_map1 list_all2_map2 split: prod.split\<close>)

lemma vars_nil [simp]: "int_array_vars s' = [] \<longleftrightarrow> int_array_vars s = []" "live_enum_vars s' = [] \<longleftrightarrow> live_enum_vars s = []"
  using rel_int_arrays rel_enum_vars by (auto dest: list_all2_lengthD)

end

text \<open>When read-only variables correspond as well, so do the variables a statement may assign.\<close>

locale twin_stmts = twin_runs +
  assumes immutable: "R x y \<Longrightarrow> x \<in> set (gs_immutable s) \<longleftrightarrow> y \<in> set (gs_immutable s')"
begin

lemma rel_mutable: "list_all2 R (mutable_vars s t) (mutable_vars s' t)"
  unfolding mutable_vars_def using env [of t]
  by (induction rule: list_all2_induct) (auto simp: immutable)

lemma mutable_nil [simp]: "mutable_vars s' t = [] \<longleftrightarrow> mutable_vars s t = []"
  using rel_mutable [of t] by (auto dest: list_all2_lengthD)

lemma has_any_same [simp]: "has_any_var s' = has_any_var s"
  by (simp add: has_any_var_def)

lemma mutable_tape [simp]: "mutable_vars (u\<lparr>tape := t\<rparr>) ty = mutable_vars u ty"
  by (simp add: mutable_vars_def)

lemma lock_pick_var:
  assumes "has_any_var s"
  shows "lk pick_var pick_var (\<lambda>(t, v) (t', v'). t' = t \<and> R v v' \<and> t \<in> set VALUE_TYPES)"
proof -
  have ne: "filter (\<lambda>t. mutable_vars s t \<noteq> []) VALUE_TYPES \<noteq> []"
    using assms by (auto simp: has_any_var_def list_ex_iff filter_empty_conv)
  show ?thesis
    unfolding pick_var_def
    by (rule lock_get_state, simp, simp, unfold mutable_nil, rule seq_pick [OF ne], rule lock_bind [OF lock_choice [OF rel_mutable]])
      (auto intro: lock_ret)
qed

end

end
