(* ===== verification/Mcfuzz_Gen_Stmt.thy ===== *)
theory Mcfuzz_Gen_Stmt
  imports Mcfuzz_Gen_Expr "HOL-Library.Multiset"
begin

text \<open>
  Statements of the generator in two runs at once. The two states differ in the numbers of the variables
  declared after the overlay observers, by a constant; every statement returns in both runs after the same
  draws and keeps that relation.
\<close>

section \<open>Names that differ by a shift\<close>

definition letters :: "string \<Rightarrow> bool" where
  "letters p \<longleftrightarrow> p \<noteq> [] \<and> list_all is_lower p"

definition shifted :: "nat \<Rightarrow> nat \<Rightarrow> nat \<Rightarrow> nat" where
  "shifted n k i = (if i < n then i else i + k)"

definition renamed :: "nat \<Rightarrow> nat \<Rightarrow> string \<Rightarrow> string \<Rightarrow> bool" where
  "renamed n k x y \<longleftrightarrow> (\<exists>p i. letters p \<and> x = p @ str_nat i \<and> y = p @ str_nat (shifted n k i))"

lemma lower_not_digit: "is_lower c \<Longrightarrow> \<not> is_digit c"
  using digit_not_lower by blast

lemma numbered_prefix: "letters p \<Longrightarrow> takeWhile is_lower (p @ str_nat i) = p"
proof -
  assume p: "letters p"
  have "\<not> is_lower (hd (str_nat i))" by (intro digit_not_lower str_nat_digits [of _ i] hd_in_set) simp
  then have "takeWhile is_lower (str_nat i) = []" by (cases "str_nat i") auto
  with p show ?thesis by (auto simp: letters_def list_all_iff takeWhile_append2)
qed

lemma numbered_inject: "letters p \<Longrightarrow> letters q \<Longrightarrow> p @ str_nat i = q @ str_nat j \<longleftrightarrow> p = q \<and> i = j"
  using numbered_prefix [of p i] numbered_prefix [of q j] by auto

lemma renamed_bi_unique: "bi_unique (renamed n k)"
  unfolding bi_unique_def renamed_def
  by (auto simp: numbered_inject shifted_def split: if_splits)

lemma lower_plain: "is_lower c \<Longrightarrow> plain_char c"
  by (auto simp: is_lower_def plain_char_def)

lemma letters_plain [simp]: "letters p \<Longrightarrow> plain p"
  by (auto simp: letters_def plain_def list_all_iff lower_plain)

lemma letters_word: "letters p \<Longrightarrow> wordy (p @ str_nat i) \<and> plain (p @ str_nat i)"
proof -
  assume p: "letters p"
  have "CHR ''('' \<notin> set p" using p by (auto simp: letters_def list_all_iff is_lower_def)
  moreover have "CHR ''('' \<notin> set (str_nat i)" by (auto simp: is_digit_def dest: str_nat_digits)
  moreover have "p \<noteq> [] \<and> is_lower (hd p)" using p by (cases p) (auto simp: letters_def)
  ultimately show ?thesis using p by (simp add: wordy_def)
qed

lemma renamed_naming: "naming (renamed n k)"
  unfolding naming_def by (intro conjI renamed_bi_unique) (auto simp: renamed_def letters_word)

lemma renamed_fresh: "letters p \<Longrightarrow> n \<le> i \<Longrightarrow> renamed n k (p @ str_nat i) (p @ str_nat (i + k))"
  unfolding renamed_def by (rule exI [of _ p], rule exI [of _ i]) (simp add: shifted_def)

section \<open>Two runs through an effect\<close>

text \<open>
  The contract of a relation \<open>I\<close> between the states of the two runs and of a relation \<open>G\<close> between an earlier and
  a later state of the first run: what every step from related states gives.
\<close>

locale run_pair =
  fixes I :: "gen_state \<Rightarrow> gen_state \<Rightarrow> bool" and G :: "gen_state \<Rightarrow> gen_state \<Rightarrow> bool"
  assumes G_refl: "G s s" and G_trans: "G s u \<Longrightarrow> G u v \<Longrightarrow> G s v"
    and same_tape: "I s s' \<Longrightarrow> tape s' = tape s"
    and draw: "I s s' \<Longrightarrow> I (s\<lparr>tape := t\<rparr>) (s'\<lparr>tape := t\<rparr>) \<and> G s (s\<lparr>tape := t\<rparr>)"
begin

definition steps :: "gen_state \<Rightarrow> gen_state \<Rightarrow> 'a gen \<Rightarrow> 'b gen \<Rightarrow> ('a \<Rightarrow> 'b \<Rightarrow> bool) \<Rightarrow> bool" where
  "steps s s' m m' P \<longleftrightarrow>
     (I s s' \<longrightarrow> (\<exists>x x' u u'. m s = Inr (x, u) \<and> m' s' = Inr (x', u') \<and> I u u' \<and> G s u \<and> P x x'))"

lemma stepsE:
  assumes "steps s s' m m' P" and "I s s'"
  obtains x x' u u' where "m s = Inr (x, u)" "m' s' = Inr (x', u')" "I u u'" "G s u" "P x x'"
  using assms by (auto simp: steps_def)

lemma s_ret: "P x x' \<Longrightarrow> steps s s' (ret x) (ret x') P"
  by (auto simp: steps_def ret_def G_refl)

lemma s_mono: "steps s s' m m' P \<Longrightarrow> (\<And>x x'. P x x' \<Longrightarrow> Q x x') \<Longrightarrow> steps s s' m m' Q"
  by (fastforce simp: steps_def)

lemma s_pre: "(I s s' \<Longrightarrow> steps s s' m m' P) \<Longrightarrow> steps s s' m m' P"
  by (auto simp: steps_def)

lemma s_bind:
  assumes "steps s s' m m' P"
    and "\<And>x x' u u'. P x x' \<Longrightarrow> I u u' \<Longrightarrow> G s u \<Longrightarrow> steps u u' (f x) (f' x') Q"
  shows "steps s s' (bind m f) (bind m' f') Q"
  unfolding steps_def
proof
  assume i: "I s s'"
  obtain x x' u u' where m: "m s = Inr (x, u)" "m' s' = Inr (x', u')" "I u u'" "G s u" "P x x'"
    by (rule stepsE [OF assms(1) i])
  obtain y y' v v' where f: "f x u = Inr (y, v)" "f' x' u' = Inr (y', v')" "I v v'" "G u v" "Q y y'"
    by (rule stepsE [OF assms(2) [OF m(5,3,4)] m(3)])
  show "\<exists>y y' v v'. bind m f s = Inr (y, v) \<and> bind m' f' s' = Inr (y', v') \<and> I v v' \<and> G s v \<and> Q y y'"
    using m(1,2) f G_trans [OF m(4) f(4)] by (auto simp: bind_def)
qed

lemma s_draw: "(I s s' \<Longrightarrow> lockstep s s' m m' P) \<Longrightarrow> steps s s' m m' P"
proof (rule s_pre)
  assume i: "I s s'" and l: "I s s' \<Longrightarrow> lockstep s s' m m' P"
  obtain x x' t where "m (s\<lparr>tape := tape s\<rparr>) = Inr (x, s\<lparr>tape := t\<rparr>)" "m' (s'\<lparr>tape := tape s\<rparr>) = Inr (x', s'\<lparr>tape := t\<rparr>)" "P x x'"
    using l [OF i] unfolding lockstep_def by blast
  moreover have "s\<lparr>tape := tape s\<rparr> = s" "s'\<lparr>tape := tape s\<rparr> = s'" using same_tape [OF i, symmetric] by simp_all
  ultimately show "steps s s' m m' P" using draw [OF i, of t] by (auto simp: steps_def)
qed

text \<open>After a draw only the tape has moved.\<close>

lemma s_drawn:
  assumes "I s s' \<Longrightarrow> lockstep s s' m m' P"
    and "\<And>x x' t. P x x' \<Longrightarrow> I s s' \<Longrightarrow> steps (s\<lparr>tape := t\<rparr>) (s'\<lparr>tape := t\<rparr>) (f x) (f' x') Q"
  shows "steps s s' (bind m f) (bind m' f') Q"
proof (rule s_pre)
  assume i: "I s s'"
  obtain x x' t where m: "m (s\<lparr>tape := tape s\<rparr>) = Inr (x, s\<lparr>tape := t\<rparr>)" "m' (s'\<lparr>tape := tape s\<rparr>) = Inr (x', s'\<lparr>tape := t\<rparr>)" "P x x'"
    using assms(1) [OF i] unfolding lockstep_def by blast
  have eq: "s\<lparr>tape := tape s\<rparr> = s" "s'\<lparr>tape := tape s\<rparr> = s'" using same_tape [OF i, symmetric] by simp_all
  show "steps s s' (bind m f) (bind m' f') Q"
    using assms(2) [OF m(3) i, of t] m(1,2) draw [OF i, of t] unfolding eq steps_def bind_def
    by (auto intro: G_trans)
qed

lemma s_py_random: "(\<And>r t. I s s' \<Longrightarrow> steps (s\<lparr>tape := t\<rparr>) (s'\<lparr>tape := t\<rparr>) (f r) (f' r) Q) \<Longrightarrow> steps s s' (bind py_random f) (bind py_random f') Q"
  by (rule s_drawn [OF lock_py_random]) auto

lemma s_flip: "(\<And>b t. I s s' \<Longrightarrow> steps (s\<lparr>tape := t\<rparr>) (s'\<lparr>tape := t\<rparr>) (f b) (f' b) Q) \<Longrightarrow> steps s s' (bind (flip p) f) (bind (flip p) f') Q"
  by (rule s_drawn [OF lock_flip]) auto

lemma s_flip_if: "c = c' \<Longrightarrow> (\<And>b t. (b \<Longrightarrow> c) \<Longrightarrow> I s s' \<Longrightarrow> steps (s\<lparr>tape := t\<rparr>) (s'\<lparr>tape := t\<rparr>) (f b) (f' b) Q) \<Longrightarrow>
    steps s s' (bind (flip_if c p) f) (bind (flip_if c' p) f') Q"
  by (rule s_drawn [OF lock_flip_if]) auto

lemma s_randrange: "lo < hi \<Longrightarrow> (\<And>i t. lo \<le> i \<Longrightarrow> i < hi \<Longrightarrow> I s s' \<Longrightarrow> steps (s\<lparr>tape := t\<rparr>) (s'\<lparr>tape := t\<rparr>) (f i) (f' i) Q) \<Longrightarrow>
    steps s s' (bind (randrange lo hi) f) (bind (randrange lo hi) f') Q"
  by (rule s_drawn [OF lock_randrange]) auto

lemma s_pick: "xs \<noteq> [] \<Longrightarrow> (\<And>x t. x \<in> set xs \<Longrightarrow> I s s' \<Longrightarrow> steps (s\<lparr>tape := t\<rparr>) (s'\<lparr>tape := t\<rparr>) (f x) (f' x) Q) \<Longrightarrow>
    steps s s' (bind (choice xs) f) (bind (choice xs) f') Q"
  by (rule s_drawn [OF lock_pick]) auto

lemma s_lit: "ty \<in> set SCALARS \<Longrightarrow> (\<And>x t. literal x \<Longrightarrow> I s s' \<Longrightarrow> steps (s\<lparr>tape := t\<rparr>) (s'\<lparr>tape := t\<rparr>) (f x) (f' x) Q) \<Longrightarrow>
    steps s s' (bind (ty_lit ty) f) (bind (ty_lit ty) f') Q"
  by (rule s_drawn [OF lock_ty_lit]) auto

lemma s_gets: "steps s s' (k (f s)) (k' (f' s')) Q \<Longrightarrow> steps s s' (bind (gets f) k) (bind (gets f') k') Q"
  by (simp add: steps_def bind_def gets_def)

lemma s_get_state: "steps s s' (k s) (k' s') Q \<Longrightarrow> steps s s' (bind get_state k) (bind get_state k') Q"
  by (simp add: steps_def bind_def gets_def get_state_def)

lemma s_modify: "(I s s' \<Longrightarrow> I (f s) (f' s') \<and> G s (f s)) \<Longrightarrow> steps s s' (modify f) (modify f') (\<lambda>_ _. True)"
  by (auto simp: steps_def modify_def)

lemma s_if: "b = b' \<Longrightarrow> (b \<Longrightarrow> steps s s' m m' P) \<Longrightarrow> (\<not> b \<Longrightarrow> steps s s' n n' P) \<Longrightarrow>
    steps s s' (if b then m else n) (if b' then m' else n') P"
  by simp

lemma s_lift: "r = Inr x \<Longrightarrow> r' = Inr x' \<Longrightarrow> steps s s' (k x) (k' x') Q \<Longrightarrow>
    steps s s' (bind (lift_result r) k) (bind (lift_result r') k') Q"
  by (simp add: steps_def bind_def lift_result_def)

lemma s_for:
  assumes "list_all2 R xs xs'" and "\<And>x x' u u'. R x x' \<Longrightarrow> I u u' \<Longrightarrow> G s u \<Longrightarrow> steps u u' (f x) (f' x') (\<lambda>_ _. True)"
  shows "steps s s' (for_m f xs) (for_m f' xs') (\<lambda>_ _. True)"
  using assms
proof (induction arbitrary: s s' rule: list_all2_induct)
  case Nil
  then show ?case by (simp add: s_ret)
next
  case (Cons x xs x' xs')
  show ?case
    by (simp only: for_m.simps, rule s_pre, rule s_bind [OF Cons.prems [OF Cons.hyps(1) _ G_refl]])
      (auto intro!: Cons.IH Cons.prems intro: G_trans)
qed

lemma s_for_same:
  "(\<And>x u u'. x \<in> set xs \<Longrightarrow> I u u' \<Longrightarrow> G s u \<Longrightarrow> steps u u' (f x) (f' x) (\<lambda>_ _. True)) \<Longrightarrow>
   steps s s' (for_m f xs) (for_m f' xs) (\<lambda>_ _. True)"
  by (rule s_for [where R = "\<lambda>x y. y = x \<and> x \<in> set xs"]) (auto simp: list_all2_same)

lemma s_repeat:
  assumes "\<And>u u'. I u u' \<Longrightarrow> G s u \<Longrightarrow> steps u u' m m' P"
  shows "steps s s' (repeat_m n m) (repeat_m n m') (list_all2 P)"
  using assms
proof (induction n arbitrary: s s')
  case 0
  then show ?case by (simp add: s_ret)
next
  case (Suc n)
  show ?case
    by (simp only: repeat_m.simps, rule s_pre, rule s_bind [OF Suc.prems [OF _ G_refl]], assumption, rule s_bind [OF Suc.IH])
      (auto intro: G_trans Suc.prems s_ret)
qed

lemma s_map:
  assumes "\<And>x u u'. x \<in> set xs \<Longrightarrow> I u u' \<Longrightarrow> G s u \<Longrightarrow> steps u u' (f x) (f' x) P"
  shows "steps s s' (map_m f xs) (map_m f' xs) (list_all2 P)"
  using assms
proof (induction xs arbitrary: s s')
  case Nil
  then show ?case by (simp add: s_ret)
next
  case (Cons x xs)
  show ?case
    by (simp only: map_m.simps, rule s_pre, rule s_bind [OF Cons.prems [OF _ _ G_refl]], simp, assumption, rule s_bind [OF Cons.IH])
      (auto intro: G_trans Cons.prems s_ret)
qed

lemma s_loop:
  assumes "a < b" and "\<And>x u u'. I u u' \<Longrightarrow> G s u \<Longrightarrow> steps u u' (f x) (f' x) (\<lambda>_ _. True)"
  shows "steps s s' (loop_n a b f) (loop_n a b f') (\<lambda>_ _. True)"
  unfolding loop_n_def
  by (rule s_drawn [OF lock_randrange [OF assms(1)]]) (auto intro!: s_for_same assms(2) elim: G_trans [OF conjunct2 [OF draw], rotated])

end

section \<open>The relation between the two runs\<close>

definition rest where
  "rest s = (gs_result_fns s, gs_agg_fns s, gs_spk s, gs_conv_w s, (gs_slice_helpers s, gs_packed s, gs_offset_structs s, gs_overlays s, gs_unions s))"

definition rest_ok :: "gen_state \<Rightarrow> bool" where
  "rest_ok s \<longleftrightarrow>
     (\<forall>(f, pt, ot) \<in> set (gs_result_fns s). plain f \<and> pt \<in> set INTS \<and> ot \<in> set INTS) \<and>
     (\<forall>(f, pt, rt) \<in> set (gs_agg_fns s). plain f \<and> is_comp s pt \<and> plain rt) \<and>
     (\<forall>t. gs_spk s = Some t \<longrightarrow> t \<in> set INTS) \<and> (\<forall>t. gs_conv_w s = Some t \<longrightarrow> t \<in> set UINTS) \<and>
     (\<forall>(k, flds, w) \<in> set (gs_packed s). plain k \<and> flds \<noteq> [] \<and> list_all plain flds) \<and>
     (\<forall>(k, flds) \<in> set (gs_offset_structs s). plain k \<and> flds \<noteq> [] \<and> list_all (\<lambda>(f, w, c, m). plain f) flds) \<and>
     (\<forall>(k, w) \<in> set (gs_overlays s). plain k \<and> 0 < w) \<and>
     (\<forall>(k, cs, e) \<in> set (gs_unions s). plain k \<and> cs \<noteq> [] \<and> list_all (\<lambda>(c, t). plain c \<and> t \<in> set INTS) cs \<and> (\<forall>c. e = Some c \<longrightarrow> plain c))"

definition text_ok :: "gen_state \<Rightarrow> bool" where
  "text_ok s \<longleftrightarrow> list_all plain (gs_out s) \<and> list_all plain (gs_decls s) \<and> list_all plain (gs_terms s) \<and> list_all plain (gs_kernel_terms s)"

text \<open>The first run prints the base program; the second declares what it declares, and perhaps the read helpers of the overlays.\<close>

definition overlay_helper :: "string \<Rightarrow> bool" where
  "overlay_helper l \<longleftrightarrow> startswith l ''fn ovhalf_''"

definition same_decls :: "gen_state \<Rightarrow> gen_state \<Rightarrow> bool" where
  "same_decls s s' \<longleftrightarrow> \<not> gs_metamorph s \<and> gs_decls s = filter (\<lambda>l. \<not> overlay_helper l) (gs_decls s')"

text \<open>The numbers of the variables in use are below the counter.\<close>

definition low :: "nat \<Rightarrow> string \<Rightarrow> bool" where
  "low m x \<longleftrightarrow> (\<exists>p i. letters p \<and> i < m \<and> x = p @ str_nat i)"

definition bounded :: "gen_state \<Rightarrow> bool" where
  "bounded s \<longleftrightarrow> (\<forall>t. \<forall>x \<in> set (env_get s t). low (gs_nvars s) x) \<and> (\<forall>x \<in> set (gs_immutable s). low (gs_nvars s) x)"

lemma low_mono: "low m x \<Longrightarrow> m \<le> m' \<Longrightarrow> low m' x"
  by (auto simp: low_def intro: less_le_trans)

lemma low_Suc: "low m x \<Longrightarrow> low (Suc m) x"
  by (erule low_mono) simp

lemma in_remove1: "x \<in> set (remove1 y xs) \<Longrightarrow> x \<in> set xs"
  using set_remove1_subset by fast

definition twins :: "nat \<Rightarrow> nat \<Rightarrow> nat \<Rightarrow> gen_state \<Rightarrow> gen_state \<Rightarrow> bool" where
  "twins n k d s s' \<longleftrightarrow>
     alike (renamed n k) s s' \<and> rest s' = rest s \<and> rest_ok s \<and> tape s' = tape s \<and> n \<le> gs_nvars s \<and> gs_nvars s' = gs_nvars s + k \<and>
     gs_depth s = d \<and> gs_depth s' = d \<and> same_decls s s' \<and> (\<forall>x y. renamed n k x y \<longrightarrow> x \<in> set (gs_immutable s) \<longleftrightarrow> y \<in> set (gs_immutable s')) \<and>
     length (gs_terms s') = length (gs_terms s) \<and> length (gs_kernel_terms s') = length (gs_kernel_terms s) \<and> text_ok s \<and> text_ok s' \<and> bounded s"

definition grows :: "gen_state \<Rightarrow> gen_state \<Rightarrow> bool" where
  "grows s u \<longleftrightarrow> shape u = shape s \<and> gs_nvars s \<le> gs_nvars u \<and> (\<forall>t. mset (env_get s t) \<subseteq># mset (env_get u t))"

lemma is_comp_shape: "shape u = shape s \<Longrightarrow> is_comp u = is_comp s"
  by (auto simp: shape_def is_comp_def fun_eq_iff)

lemma types_ok_shape: "shape u = shape s \<Longrightarrow> types_ok u = types_ok s"
  unfolding types_ok_def is_comp_def shape_def by simp

lemma rest_ok_cong: "shape u = shape s \<Longrightarrow> rest u = rest s \<Longrightarrow> rest_ok u = rest_ok s"
  using is_comp_shape [of u s] by (simp add: rest_ok_def rest_def)

lemma alike_cong:
  "shape u = shape s \<Longrightarrow> shape u' = shape s' \<Longrightarrow> (\<And>t. list_all2 R (env_get u t) (env_get u' t)) \<Longrightarrow> alike R s s' \<Longrightarrow> alike R u u'"
  using types_ok_shape [of u s] by (simp add: alike_def)

text \<open>Updates of parts that the relation of names does not read.\<close>

lemma update_simps [simp]:
  "shape (s\<lparr>tape := t\<rparr>) = shape s" "shape (s\<lparr>gs_out := ls\<rparr>) = shape s" "shape (s\<lparr>gs_nvars := m\<rparr>) = shape s" "shape (s\<lparr>gs_env := e\<rparr>) = shape s"
  "shape (s\<lparr>gs_terms := ls\<rparr>) = shape s" "shape (s\<lparr>gs_kernel_terms := ls\<rparr>) = shape s" "shape (s\<lparr>gs_decls := ls\<rparr>) = shape s"
  "shape (s\<lparr>gs_immutable := ls\<rparr>) = shape s" "shape (s\<lparr>gs_depth := m\<rparr>) = shape s" "shape (s\<lparr>gs_slice_helpers := ls\<rparr>) = shape s" "shape (s\<lparr>gs_metamorph := b\<rparr>) = shape s"
  "rest (s\<lparr>tape := t\<rparr>) = rest s" "rest (s\<lparr>gs_out := ls\<rparr>) = rest s" "rest (s\<lparr>gs_nvars := m\<rparr>) = rest s" "rest (s\<lparr>gs_env := e\<rparr>) = rest s"
  "rest (s\<lparr>gs_terms := ls\<rparr>) = rest s" "rest (s\<lparr>gs_kernel_terms := ls\<rparr>) = rest s" "rest (s\<lparr>gs_decls := ls\<rparr>) = rest s"
  "rest (s\<lparr>gs_immutable := ls\<rparr>) = rest s" "rest (s\<lparr>gs_depth := m\<rparr>) = rest s" "rest (s\<lparr>gs_metamorph := b\<rparr>) = rest s"
  by (simp_all add: shape_def rest_def)

lemma env_updates [simp]:
  "env_get (s\<lparr>gs_out := ls\<rparr>) ty = env_get s ty" "env_get (s\<lparr>gs_nvars := m\<rparr>) ty = env_get s ty" "env_get (s\<lparr>gs_terms := ls\<rparr>) ty = env_get s ty"
  "env_get (s\<lparr>gs_kernel_terms := ls\<rparr>) ty = env_get s ty" "env_get (s\<lparr>gs_decls := ls\<rparr>) ty = env_get s ty" "env_get (s\<lparr>gs_immutable := ls\<rparr>) ty = env_get s ty"
  "env_get (s\<lparr>gs_depth := m\<rparr>) ty = env_get s ty" "env_get (s\<lparr>gs_slice_helpers := ls\<rparr>) ty = env_get s ty" "env_get (s\<lparr>gs_metamorph := b\<rparr>) ty = env_get s ty"
  "env_get (s\<lparr>gs_env := (gs_env s)(t \<mapsto> l)\<rparr>) ty = (if ty = t then l else env_get s ty)"
  by (simp_all add: env_get_def)

lemma twinsE:
  assumes "twins n k d s s'"
  shows "alike (renamed n k) s s'" "rest s' = rest s" "rest_ok s" "tape s' = tape s" "n \<le> gs_nvars s" "gs_nvars s' = gs_nvars s + k"
    "gs_depth s = d" "gs_depth s' = d" "same_decls s s'" "text_ok s" "text_ok s'" "bounded s"
    "length (gs_terms s') = length (gs_terms s)" "length (gs_kernel_terms s') = length (gs_kernel_terms s)"
  using assms by (auto simp: twins_def)

text \<open>A pair of updates keeps the relation when it keeps what the relation says of the updated parts.\<close>

lemma twins_update:
  assumes "twins n k d s s'" and "shape u = shape s" and "shape u' = shape s'" and "rest u = rest s" and "rest u' = rest s'"
    and "\<And>t. list_all2 (renamed n k) (env_get s t) (env_get s' t) \<Longrightarrow> list_all2 (renamed n k) (env_get u t) (env_get u' t)"
    and "tape u' = tape u" and "gs_nvars s \<le> gs_nvars u" and "gs_nvars u' = gs_nvars u + k" and "gs_depth u = d'" and "gs_depth u' = d'"
    and "same_decls s s' \<Longrightarrow> same_decls u u'" and "text_ok s \<Longrightarrow> text_ok u" and "text_ok s' \<Longrightarrow> text_ok u'"
    and "\<And>x y. renamed n k x y \<Longrightarrow> x \<in> set (gs_immutable s) \<longleftrightarrow> y \<in> set (gs_immutable s') \<Longrightarrow> x \<in> set (gs_immutable u) \<longleftrightarrow> y \<in> set (gs_immutable u')"
    and "length (gs_terms s') = length (gs_terms s) \<Longrightarrow> length (gs_terms u') = length (gs_terms u)"
    and "length (gs_kernel_terms s') = length (gs_kernel_terms s) \<Longrightarrow> length (gs_kernel_terms u') = length (gs_kernel_terms u)"
    and "bounded s \<Longrightarrow> bounded u"
  shows "twins n k d' u u'"
proof -
  have "alike (renamed n k) u u'"
    by (rule alike_cong [OF assms(2,3) assms(6) twinsE(1) [OF assms(1)]]) (use twinsE(1) [OF assms(1)] in \<open>simp add: alike_def\<close>)
  then show ?thesis
    using assms rest_ok_cong [OF assms(2,4)] unfolding twins_def by auto
qed

lemma twins_runs: "twins n k d s s' \<Longrightarrow> twin_runs (renamed n k) s s'"
  by unfold_locales (rule twinsE(1))

lemma twins_stmts: "twins n k d s s' \<Longrightarrow> twin_stmts (renamed n k) s s'"
  by (intro twin_stmts.intro twins_runs twin_stmts_axioms.intro) (auto simp: twins_def)

lemma grows_trans: "grows s u \<Longrightarrow> grows u v \<Longrightarrow> grows s v"
  by (auto simp: grows_def intro: subset_mset.order_trans)

interpretation st: run_pair "twins n k d" grows for n k d
proof unfold_locales
  fix s u v s' t
  show "grows s s" by (simp add: grows_def)
  show "grows s u \<Longrightarrow> grows u v \<Longrightarrow> grows s v" by (rule grows_trans)
  show "twins n k d s s' \<Longrightarrow> tape s' = tape s" by (rule twinsE(4))
  assume tw: "twins n k d s s'"
  have "twins n k d (s\<lparr>tape := t\<rparr>) (s'\<lparr>tape := t\<rparr>)"
    by (rule twins_update [OF tw]) (use twinsE [OF tw] in \<open>auto simp: same_decls_def text_ok_def bounded_def\<close>)
  then show "twins n k d (s\<lparr>tape := t\<rparr>) (s'\<lparr>tape := t\<rparr>) \<and> grows s (s\<lparr>tape := t\<rparr>)" by (simp add: grows_def)
qed

section \<open>Effects\<close>

lemma st_emits:
  assumes "list_all plain ls" and "list_all plain ls'"
  shows "st.steps n k d s s' (emits ls) (emits ls') (\<lambda>_ _. True)"
  unfolding emits_def
proof (rule st.s_modify)
  assume tw: "twins n k d s s'"
  show "twins n k d (s\<lparr>gs_out := gs_out s @ ls\<rparr>) (s'\<lparr>gs_out := gs_out s' @ ls'\<rparr>) \<and> grows s (s\<lparr>gs_out := gs_out s @ ls\<rparr>)"
    by (intro conjI twins_update [OF tw]) (use assms twinsE [OF tw] in \<open>auto simp: same_decls_def text_ok_def bounded_def grows_def\<close>)
qed

lemma st_emit: "plain l \<Longrightarrow> plain l' \<Longrightarrow> st.steps n k d s s' (emit l) (emit l') (\<lambda>_ _. True)"
  using st_emits [of "[l]" "[l']"] by (simp add: emits_def emit_def)

lemma st_term: "plain l \<Longrightarrow> plain l' \<Longrightarrow> st.steps n k d s s' (add_term l) (add_term l') (\<lambda>_ _. True)"
  unfolding add_term_def
proof (rule st.s_modify)
  assume l: "plain l" "plain l'" and tw: "twins n k d s s'"
  show "twins n k d (s\<lparr>gs_terms := gs_terms s @ [l]\<rparr>) (s'\<lparr>gs_terms := gs_terms s' @ [l']\<rparr>) \<and> grows s (s\<lparr>gs_terms := gs_terms s @ [l]\<rparr>)"
    by (intro conjI twins_update [OF tw]) (use l twinsE [OF tw] in \<open>auto simp: same_decls_def text_ok_def bounded_def grows_def\<close>)
qed

lemma st_declare: "plain l \<Longrightarrow> \<not> overlay_helper l \<Longrightarrow> st.steps n k d s s' (declare_text l) (declare_text l) (\<lambda>_ _. True)"
  unfolding declare_text_def
proof (rule st.s_modify)
  assume l: "plain l" "\<not> overlay_helper l" and tw: "twins n k d s s'"
  show "twins n k d (s\<lparr>gs_decls := gs_decls s @ [l]\<rparr>) (s'\<lparr>gs_decls := gs_decls s' @ [l]\<rparr>) \<and> grows s (s\<lparr>gs_decls := gs_decls s @ [l]\<rparr>)"
    by (intro conjI twins_update [OF tw]) (use l twinsE [OF tw] in \<open>auto simp: same_decls_def text_ok_def bounded_def grows_def\<close>)
qed

lemma st_fresh:
  assumes p: "letters p"
    and f: "\<And>x x' u u'. renamed n k x x' \<Longrightarrow> low (gs_nvars u) x \<Longrightarrow> twins n k d u u' \<Longrightarrow> grows s u \<Longrightarrow> st.steps n k d u u' (f x) (f' x') Q"
  shows "st.steps n k d s s' (bind (fresh p) f) (bind (fresh p) f') Q"
proof (rule st.s_pre)
  assume tw: "twins n k d s s'"
  let ?u = "s\<lparr>gs_nvars := gs_nvars s + 1\<rparr>" and ?u' = "s'\<lparr>gs_nvars := gs_nvars s' + 1\<rparr>"
  have u: "twins n k d ?u ?u'"
    by (rule twins_update [OF tw]) (use twinsE [OF tw] in \<open>auto simp: same_decls_def text_ok_def bounded_def intro: low_Suc\<close>)
  have g: "grows s ?u" by (simp add: grows_def)
  have x: "renamed n k (p @ str_nat (gs_nvars s)) (p @ str_nat (gs_nvars s'))"
    using twinsE(5,6) [OF tw] by (simp add: renamed_fresh [OF p])
  have l: "low (gs_nvars ?u) (p @ str_nat (gs_nvars s))" using p by (auto simp: low_def)
  obtain y y' v v' where "f (p @ str_nat (gs_nvars s)) ?u = Inr (y, v)" "f' (p @ str_nat (gs_nvars s')) ?u' = Inr (y', v')"
      "twins n k d v v'" "grows ?u v" "Q y y'"
    by (rule st.stepsE [OF f [OF x l u g] u])
  then show "st.steps n k d s s' (bind (fresh p) f) (bind (fresh p) f') Q"
    using grows_trans [OF g] by (auto simp: st.steps_def bind_def modify_def ret_def gets_def fresh_def)
qed

lemma st_add_env:
  assumes "renamed n k x x'" and "twins n k d s s' \<Longrightarrow> low (gs_nvars s) x"
  shows "st.steps n k d s s' (add_env t x) (add_env t x') (\<lambda>_ _. True)"
  unfolding add_env_def
proof (rule st.s_modify)
  assume tw: "twins n k d s s'"
  show "twins n k d (s\<lparr>gs_env := (gs_env s)(t \<mapsto> env_get s t @ [x])\<rparr>) (s'\<lparr>gs_env := (gs_env s')(t \<mapsto> env_get s' t @ [x'])\<rparr>) \<and>
      grows s (s\<lparr>gs_env := (gs_env s)(t \<mapsto> env_get s t @ [x])\<rparr>)"
    by (intro conjI twins_update [OF tw])
      (use assms(1) assms(2) [OF tw] twinsE [OF tw] in \<open>auto simp: same_decls_def text_ok_def bounded_def grows_def intro!: list_all2_appendI\<close>)
qed

section \<open>Scopes and blocks\<close>

lemma list_all2_remove1:
  assumes "bi_unique R" and "R x y"
  shows "list_all2 R xs ys \<Longrightarrow> list_all2 R (remove1 x xs) (remove1 y ys)"
  by (induction rule: list_all2_induct) (use assms in \<open>auto simp: bi_unique_def\<close>)

lemma list_all2_member:
  assumes "bi_unique R" and "R x y"
  shows "list_all2 R xs ys \<Longrightarrow> x \<in> set xs \<longleftrightarrow> y \<in> set ys"
  by (induction rule: list_all2_induct) (use assms in \<open>auto simp: bi_unique_def\<close>)

lemma remove_env_eq:
  "x \<in> set (env_get s t) \<Longrightarrow> remove_env t x s = Inr ((), s\<lparr>gs_env := (gs_env s)(t \<mapsto> remove1 x (env_get s t))\<rparr>)"
  by (cases "gs_env s t") (auto simp: remove_env_def env_at_def env_get_def get_state_def bind_def gets_def ret_def modify_def)

text \<open>A name bound read-only around a body: at the end the environment is what the body made of it.\<close>

definition in_scope :: "string \<Rightarrow> string \<Rightarrow> unit gen \<Rightarrow> unit gen" where
  "in_scope t x m =
     bind (add_env t x) (\<lambda>_.
     bind (modify (\<lambda>s. s\<lparr>gs_immutable := List.insert x (gs_immutable s)\<rparr>)) (\<lambda>_.
     bind m (\<lambda>_.
     bind (remove_env t x) (\<lambda>_. modify (\<lambda>s. s\<lparr>gs_immutable := removeAll x (gs_immutable s)\<rparr>)))))"

lemma st_in_scope:
  assumes x: "renamed n k x x'" and lw: "low (gs_nvars s) x" and m: "\<And>u u'. twins n k d u u' \<Longrightarrow> st.steps n k d u u' m m' (\<lambda>_ _. True)"
  shows "st.steps n k d s s' (in_scope t x m) (in_scope t x' m') (\<lambda>_ _. True)"
proof (rule st.s_pre)
  assume tw: "twins n k d s s'"
  let ?u = "s\<lparr>gs_env := (gs_env s)(t \<mapsto> env_get s t @ [x]), gs_immutable := List.insert x (gs_immutable s)\<rparr>"
  let ?u' = "s'\<lparr>gs_env := (gs_env s')(t \<mapsto> env_get s' t @ [x']), gs_immutable := List.insert x' (gs_immutable s')\<rparr>"
  have bi: "y = x \<longleftrightarrow> y' = x'" if "renamed n k y y'" for y y'
    using renamed_bi_unique [of n k] x that unfolding bi_unique_def by blast
  have u: "twins n k d ?u ?u'"
    by (rule twins_update [OF tw]) (use x lw bi twinsE [OF tw] in \<open>auto simp: same_decls_def text_ok_def bounded_def intro!: list_all2_appendI\<close>)
  obtain v v' where v: "m ?u = Inr ((), v)" "m' ?u' = Inr ((), v')" "twins n k d v v'" "grows ?u v"
    by (rule st.stepsE [OF m [OF u] u]) auto
  have env: "list_all2 (renamed n k) (env_get v t) (env_get v' t)" for t
    using twinsE(1) [OF v(3)] by (simp add: alike_def)
  have more: "mset (env_get ?u y) \<subseteq># mset (env_get v y)" for y using v(4) by (simp add: grows_def)
  have "x \<in># mset (env_get v t)" using more [of t] by (auto dest: mset_subset_eqD)
  then have mem: "x \<in> set (env_get v t)" "x' \<in> set (env_get v' t)"
    using list_all2_member [OF renamed_bi_unique x env [of t]] by auto
  let ?w = "v\<lparr>gs_env := (gs_env v)(t \<mapsto> remove1 x (env_get v t)), gs_immutable := removeAll x (gs_immutable v)\<rparr>"
  let ?w' = "v'\<lparr>gs_env := (gs_env v')(t \<mapsto> remove1 x' (env_get v' t)), gs_immutable := removeAll x' (gs_immutable v')\<rparr>"
  have w: "twins n k d ?w ?w'"
    by (rule twins_update [OF v(3)])
      (use bi list_all2_remove1 [OF renamed_bi_unique x] twinsE [OF v(3)] in
        \<open>auto simp: same_decls_def text_ok_def bounded_def dest!: in_remove1\<close>)
  have "mset (env_get s y) \<subseteq># mset (env_get ?w y)" for y
    using more [of y] insert_subset_eq_iff [of x "mset (env_get s t)" "mset (env_get v t)"] by (auto split: if_splits)
  moreover have "shape ?w = shape s" "gs_nvars s \<le> gs_nvars ?w" using v(4) by (simp_all add: grows_def)
  ultimately have "grows s ?w" by (simp add: grows_def)
  moreover have "in_scope t x m s = Inr ((), ?w)" "in_scope t x' m' s' = Inr ((), ?w')"
    using v(1,2) remove_env_eq [OF mem(1)] remove_env_eq [OF mem(2)] by (simp_all add: in_scope_def add_env_def bind_def modify_def)
  ultimately show "st.steps n k d s s' (in_scope t x m) (in_scope t x' m') (\<lambda>_ _. True)"
    using w by (auto simp: st.steps_def)
qed

lemma grows_depth [simp]: "grows (s\<lparr>gs_depth := d\<rparr>) u \<longleftrightarrow> grows s u" "grows s (u\<lparr>gs_depth := d\<rparr>) \<longleftrightarrow> grows s u"
  by (simp_all add: grows_def)

lemma twins_depth: "twins n k d s s' \<Longrightarrow> twins n k d' (s\<lparr>gs_depth := d'\<rparr>) (s'\<lparr>gs_depth := d'\<rparr>)"
  by (rule twins_update) (auto simp: same_decls_def text_ok_def bounded_def dest: twinsE(4,6))

lemma st_deeper:
  assumes m: "\<And>u u'. twins n k (d + 1) u u' \<Longrightarrow> st.steps n k (d + 1) u u' m m' (\<lambda>_ _. True)"
  shows "st.steps n k d s s' (bind (modify (\<lambda>s. s\<lparr>gs_depth := gs_depth s + 1\<rparr>)) (\<lambda>_. bind m (\<lambda>_. modify (\<lambda>s. s\<lparr>gs_depth := gs_depth s - 1\<rparr>))))
    (bind (modify (\<lambda>s. s\<lparr>gs_depth := gs_depth s + 1\<rparr>)) (\<lambda>_. bind m' (\<lambda>_. modify (\<lambda>s. s\<lparr>gs_depth := gs_depth s - 1\<rparr>)))) (\<lambda>_ _. True)"
proof (rule st.s_pre)
  assume tw: "twins n k d s s'"
  note d = twinsE(7,8) [OF tw]
  note u = twins_depth [OF tw, of "d + 1"]
  obtain y y' v v' where v: "m (s\<lparr>gs_depth := d + 1\<rparr>) = Inr (y, v)" "m' (s'\<lparr>gs_depth := d + 1\<rparr>) = Inr (y', v')"
      "twins n k (d + 1) v v'" "grows (s\<lparr>gs_depth := d + 1\<rparr>) v"
    by (rule st.stepsE [OF m [OF u] u]) auto
  have "twins n k d (v\<lparr>gs_depth := d\<rparr>) (v'\<lparr>gs_depth := d\<rparr>)" by (rule twins_depth [OF v(3)])
  with v twinsE(7,8) [OF v(3)] d show ?thesis by (auto simp: st.steps_def bind_def modify_def)
qed

section \<open>Statements\<close>

lemma views_tape [simp]:
  "has_any_var (s\<lparr>tape := t\<rparr>) = has_any_var s" "has_aggregate_var (s\<lparr>tape := t\<rparr>) = has_aggregate_var s"
  "live_enum_vars (s\<lparr>tape := t\<rparr>) = live_enum_vars s" "int_array_vars (s\<lparr>tape := t\<rparr>) = int_array_vars s"
  "local_types (s\<lparr>tape := t\<rparr>) = local_types s" "alias_of (s\<lparr>tape := t\<rparr>) ty = alias_of s ty"
proof -
  have env: "env_get (s\<lparr>tape := t\<rparr>) = env_get s" by (rule ext) simp
  show "has_any_var (s\<lparr>tape := t\<rparr>) = has_any_var s" "has_aggregate_var (s\<lparr>tape := t\<rparr>) = has_aggregate_var s"
    "live_enum_vars (s\<lparr>tape := t\<rparr>) = live_enum_vars s" "int_array_vars (s\<lparr>tape := t\<rparr>) = int_array_vars s"
    "local_types (s\<lparr>tape := t\<rparr>) = local_types s" "alias_of (s\<lparr>tape := t\<rparr>) ty = alias_of s ty"
    unfolding has_any_var_def mutable_vars_def has_aggregate_var_def aggregate_types_def live_enum_vars_def int_array_vars_def
      local_types_def alias_of_def env by simp_all
qed

lemma val_ok_shape: "shape u = shape s \<Longrightarrow> val_ok u = val_ok s"
  using is_comp_shape [of u s] by (simp add: val_ok_def [abs_def] shape_def fun_eq_iff)

lemma texts_plain: "texts R x y \<Longrightarrow> plain x \<and> plain y" and vals_plain: "vals R x y \<Longrightarrow> plain x \<and> plain y"
  and renamed_plain: "renamed n k x y \<Longrightarrow> plain x \<and> plain y"
  using letters_word by (auto simp: texts_def vals_def renamed_def)

lemmas plain_dests = texts_plain vals_plain renamed_plain

lemma st_val:
  assumes "twins n k d s s' \<Longrightarrow> val_ok s ty"
    and "\<And>x x' t. vals (renamed n k) x x' \<Longrightarrow> twins n k d s s' \<Longrightarrow> st.steps n k d (s\<lparr>tape := t\<rparr>) (s'\<lparr>tape := t\<rparr>) (f x) (f' x') Q"
  shows "st.steps n k d s s' (bind (gen_val ty 0) f) (bind (gen_val ty 0) f') Q"
  by (rule st.s_drawn [OF twin_runs.lock_val [OF twins_runs]]) (use assms in auto)

lemma st_bool:
  assumes "\<And>x x' t. texts (renamed n k) x x' \<Longrightarrow> twins n k d s s' \<Longrightarrow> st.steps n k d (s\<lparr>tape := t\<rparr>) (s'\<lparr>tape := t\<rparr>) (f x) (f' x') Q"
  shows "st.steps n k d s s' (bind gen_bool f) (bind gen_bool f') Q"
  by (rule st.s_drawn [OF twin_runs.lock_bool [OF twins_runs]]) (use assms in auto)

lemma alias_of_twins: "twins n k d s s' \<Longrightarrow> alias_of s' ty = alias_of s ty"
  by (auto simp: alias_of_def alike_def shape_def dest: twinsE(1))

lemma st_add_var: "renamed n k x x' \<Longrightarrow> (twins n k d s s' \<Longrightarrow> low (gs_nvars s) x) \<Longrightarrow> st.steps n k d s s' (add_var ty x) (add_var ty x') (\<lambda>_ _. True)"
  unfolding add_var_def by (rule st.s_pre, rule st.s_gets, simp only: alias_of_twins) (rule st_add_env, assumption, blast)

lemma fold_plain: "t \<in> set SCALARS \<Longrightarrow> plain x \<Longrightarrow> \<exists>f. ty_fold t x = Inr f \<and> plain f"
proof -
  assume t: "t \<in> set SCALARS" and x: "plain x"
  obtain i where i: "ty_at t = Inr i" "ti_kind i \<noteq> KBool" using scalar_info [OF t] by (auto simp: ty_at_def)
  then show ?thesis using x by (cases "ti_kind i") (auto simp: ty_fold_def domain_fold_def)
qed

lemma switch_arms_plain: "list_all plain vs \<Longrightarrow> plain (switch_arms k vs)"
  unfolding switch_arms_def by (rule plain_joined) (auto simp: list_all_iff in_set_enumerate_eq)

text \<open>Declaring a variable: its name, its value, the line and the environment.\<close>

lemma st_declare_var:
  assumes p: "letters p" and ok: "twins n k d s s' \<Longrightarrow> val_ok s ty"
    and l: "\<And>x v. plain x \<Longrightarrow> plain v \<Longrightarrow> plain (l x v)"
    and add: "\<And>x x' u u'. renamed n k x x' \<Longrightarrow> low (gs_nvars u) x \<Longrightarrow> st.steps n k d u u' (a x) (a x') (\<lambda>_ _. True)"
  shows "st.steps n k d s s' (bind (fresh p) (\<lambda>x. bind (gen_val ty 0) (\<lambda>v. bind (emit (l x v)) (\<lambda>_. a x))))
    (bind (fresh p) (\<lambda>x. bind (gen_val ty 0) (\<lambda>v. bind (emit (l x v)) (\<lambda>_. a x)))) (\<lambda>_ _. True)"
proof (rule st.s_pre, rule st_fresh [OF p])
  fix x x' u u' assume tw: "twins n k d s s'" and x: "renamed n k x x'" and lw: "low (gs_nvars u) x" and g: "grows s u"
  have "val_ok u ty" using ok [OF tw] val_ok_shape [of u s] g by (simp add: grows_def)
  moreover have lw': "low (gs_nvars v) x" if "grows (u\<lparr>tape := t\<rparr>) v" for v t using that lw by (auto simp: grows_def intro: low_mono)
  ultimately show "st.steps n k d u u' (bind (gen_val ty 0) (\<lambda>v. bind (emit (l x v)) (\<lambda>_. a x)))
      (bind (gen_val ty 0) (\<lambda>v. bind (emit (l x' v)) (\<lambda>_. a x'))) (\<lambda>_ _. True)"
    by (intro st_val, simp) (use x in \<open>auto intro!: st.s_bind [OF st_emit] add [OF x] l lw' dest!: plain_dests\<close>)
qed

lemma st_declare_local:
  assumes "twins n k d s s' \<Longrightarrow> val_ok s ty" and "plain padding"
  shows "st.steps n k d s s' (declare_local padding ty) (declare_local padding ty) (\<lambda>_ _. True)"
proof (rule st.s_pre)
  assume tw: "twins n k d s s'"
  then have ty: "plain ty" by (intro twin_runs.val_ok_plain [OF twins_runs [OF tw]] assms(1) tw)
  show ?thesis
    unfolding declare_local_def add_var_def [symmetric]
    by (rule st_declare_var [OF _ assms(1), where a = "add_var ty" and l = "\<lambda>x v. padding @ ''var '' @ x @ '': '' @ ty @ '' = '' @ v @ '';''"])
      (use assms(2) ty in \<open>auto simp: letters_def is_lower_def intro: st_add_var\<close>)
qed

lemma st_stmt_decl: "st.steps n k d s s' (stmt_decl ind) (stmt_decl ind) (\<lambda>_ _. True)"
proof (rule st.s_pre)
  assume tw: "twins n k d s s'"
  note R = twins_runs [OF tw]
  have eq: "local_types s' = local_types s" using twin_runs.same_shape [OF R] by (simp add: local_types_def)
  have ne: "local_types s \<noteq> []" by (simp add: local_types_def)
  show ?thesis
    unfolding stmt_decl_def
    by (rule st.s_gets, unfold eq, rule st.s_drawn [OF lock_pick [OF ne]])
      (use twin_runs.local_types_ok [OF R] val_ok_shape [of "s\<lparr>tape := t\<rparr>" s for t] in \<open>auto intro!: st_declare_local\<close>)
qed

lemma comp_val_ok: "is_comp s t \<Longrightarrow> val_ok s t"
  by (simp add: val_ok_def)

lemma st_stmt_assign:
  assumes "twins n k d s s' \<Longrightarrow> has_any_var s \<or> has_aggregate_var s"
  shows "st.steps n k d s s' (stmt_assign ind) (stmt_assign ind) (\<lambda>_ _. True)"
proof (rule st.s_pre)
  assume tw: "twins n k d s s'"
  note R = twins_runs [OF tw] and S = twins_stmts [OF tw]
  have names: "naming (renamed n k)" by (rule renamed_naming)
  have which: "lockstep s s' (if has_aggregate_var s then if \<not> has_any_var s then ret True else flip flt_0_4 else ret False)
      (if has_aggregate_var s' then if \<not> has_any_var s' then ret True else flip flt_0_4 else ret False)
      (\<lambda>b b'. b' = b \<and> (if b then has_aggregate_var s else has_any_var s))"
    unfolding twin_runs.has_aggregate_same [OF R] twin_stmts.has_any_same [OF S]
    using assms [OF tw] by (auto intro!: lock_ret intro: lock_mono [OF lock_flip])
  have aggregate: "st.steps n k d u u' (bind aggregate_lvalue (\<lambda>(path, t). bind (gen_val t 0) (\<lambda>v. emit (pad ind @ path @ '' = '' @ v @ '';''))))
      (bind aggregate_lvalue (\<lambda>(path, t). bind (gen_val t 0) (\<lambda>v. emit (pad ind @ path @ '' = '' @ v @ '';'')))) (\<lambda>_ _. True)"
    if "has_aggregate_var u" for u u'
    by (rule st.s_drawn [OF twin_runs.lock_aggregate_lvalue [OF twins_runs that]])
      (auto intro!: st_val comp_val_ok st_emit simp: is_comp_shape [of "u\<lparr>tape := t\<rparr>" u for t] dest!: plain_dests)
  have scalar: "st.steps n k d u u' (bind pick_var (\<lambda>(ty, name). bind (gen_val ty 0) (\<lambda>rhs.
        bind (if rhs = name then gen_val ty 1 else ret rhs) (\<lambda>rhs. emit (pad ind @ name @ '' = '' @ rhs @ '';'')))))
      (bind pick_var (\<lambda>(ty, name). bind (gen_val ty 0) (\<lambda>rhs.
        bind (if rhs = name then gen_val ty 1 else ret rhs) (\<lambda>rhs. emit (pad ind @ name @ '' = '' @ rhs @ '';''))))) (\<lambda>_ _. True)"
    if "has_any_var u" for u u'
  proof (rule st.s_drawn [OF twin_stmts.lock_pick_var [OF twins_stmts that]], assumption)
    fix p p' t assume "(\<lambda>(t, v) (t', v'). t' = t \<and> renamed n k v v' \<and> t \<in> set VALUE_TYPES) p p'"
    then obtain ty x x' where p: "p = (ty, x)" "p' = (ty, x')" and x: "renamed n k x x'" and ty: "ty \<in> set VALUE_TYPES" by (cases p, cases p') auto
    note lk = twin_runs.lock_val_scalar [OF twins_runs scalar_subs(3) [OF ty]]
    have again: "lockstep w w' (if v = x then gen_val ty 1 else ret v) (if v' = x' then gen_val ty 1 else ret v') (vals (renamed n k))"
      if "vals (renamed n k) v v'" "twins n k d w w'" for v v' w w'
      using vals_eq_name [OF names that(1) x] that(1) by (auto intro!: lk [OF that(2)] lock_ret)
    show "st.steps n k d (u\<lparr>tape := t\<rparr>) (u'\<lparr>tape := t\<rparr>) (case p of (ty, name) \<Rightarrow> bind (gen_val ty 0) (\<lambda>rhs.
        bind (if rhs = name then gen_val ty 1 else ret rhs) (\<lambda>rhs. emit (pad ind @ name @ '' = '' @ rhs @ '';''))))
      (case p' of (ty, name) \<Rightarrow> bind (gen_val ty 0) (\<lambda>rhs. bind (if rhs = name then gen_val ty 1 else ret rhs) (\<lambda>rhs. emit (pad ind @ name @ '' = '' @ rhs @ '';''))))
      (\<lambda>_ _. True)"
      unfolding p prod.case
      by (rule st.s_drawn [OF lk], assumption, rule st.s_drawn [OF again], assumption, assumption)
        (use x in \<open>auto intro!: st_emit dest!: plain_dests\<close>)
  qed
  show ?thesis
    unfolding stmt_assign_def
    by (rule st.s_get_state, rule st.s_drawn [OF which], rule st.s_if, simp, rule aggregate, simp, rule scalar, simp)
qed

lemma bind_assoc: "bind (bind m f) g = bind m (\<lambda>x. bind (f x) g)"
  by (rule ext) (auto simp: bind_def split: sum.split)

lemma ret_bind [simp]: "bind (ret x) f = f x"
  by (rule ext) (simp add: bind_def ret_def)

lemma bind_ret_right [simp]: "bind m ret = m"
  by (rule ext) (auto simp: bind_def ret_def split: sum.split)

lemma letters_lits [simp]: "letters ''x''" "letters ''j''" "letters ''v''"
  by (simp_all add: letters_def is_lower_def)

lemma st_stmt_if:
  assumes blk: "\<And>ind u u'. twins n k d u u' \<Longrightarrow> st.steps n k d u u' (blk ind) (blk ind) (\<lambda>_ _. True)"
  shows "st.steps n k d s s' (stmt_if blk ind) (stmt_if blk ind) (\<lambda>_ _. True)"
  unfolding stmt_if_def
  by (rule st_bool, rule st.s_bind [OF st_emit], (auto dest!: texts_plain)[2], rule st.s_bind [OF blk], assumption,
      rule st.s_bind [OF st_emit], simp, simp, rule st.s_bind [OF blk], assumption, rule st_emit) simp_all

lemma st_stmt_switch:
  assumes blk: "\<And>ind u u'. twins n k d u u' \<Longrightarrow> st.steps n k d u u' (blk ind) (blk ind) (\<lambda>_ _. True)"
    and ne: "live_enum_vars s \<noteq> []"
  shows "st.steps n k d s s' (stmt_switch blk ind) (stmt_switch blk ind) (\<lambda>_ _. True)"
proof (rule st.s_pre)
  assume tw: "twins n k d s s'"
  have arm: "st.steps n k d u u'
      (bind (emit (pad ind @ ''    .'' @ v @ '' => {'')) (\<lambda>_. bind (blk (ind + 2)) (\<lambda>_. emit (pad ind @ ''    }''))))
      (bind (emit (pad ind @ ''    .'' @ v @ '' => {'')) (\<lambda>_. bind (blk (ind + 2)) (\<lambda>_. emit (pad ind @ ''    }'')))) (\<lambda>_ _. True)"
    if "plain v" for v u u'
    by (rule st.s_bind [OF st_emit], (simp add: that)+, rule st.s_bind [OF blk], assumption, rule st_emit) simp_all
  show ?thesis
    unfolding stmt_switch_def
  proof (rule st.s_gets, rule st.s_drawn [OF lock_choice [OF twin_runs.rel_enum_vars [OF twins_runs [OF tw]] ne]])
    fix p p' t assume "(\<lambda>(v, vs) (v', vs'). vs' = vs \<and> renamed n k v v' \<and> vs \<noteq> [] \<and> list_all plain vs) p p'"
    then obtain v v' vs where p: "p = (v, vs)" "p' = (v', vs)" and v: "renamed n k v v'" and vs: "list_all plain vs" by (cases p, cases p') auto
    have butlast: "plain x" if "x \<in> set (butlast vs)" for x using vs that by (auto simp: list_all_iff dest: in_set_butlastD)
    show "st.steps n k d (s\<lparr>tape := t\<rparr>) (s'\<lparr>tape := t\<rparr>)
       (case p of (var, variants) \<Rightarrow>
          bind (emit (pad ind @ ''switch '' @ var @ '' {'')) (\<lambda>_.
          bind (for_m (\<lambda>v. bind (emit (pad ind @ ''    .'' @ v @ '' => {'')) (\<lambda>_. bind (blk (ind + 2)) (\<lambda>_. emit (pad ind @ ''    }'')))) (butlast variants)) (\<lambda>_.
          bind (emit (pad ind @ ''    _ => {'')) (\<lambda>_. bind (blk (ind + 2)) (\<lambda>_. emits [pad ind @ ''    }'', pad ind @ ''}''])))))
       (case p' of (var, variants) \<Rightarrow>
          bind (emit (pad ind @ ''switch '' @ var @ '' {'')) (\<lambda>_.
          bind (for_m (\<lambda>v. bind (emit (pad ind @ ''    .'' @ v @ '' => {'')) (\<lambda>_. bind (blk (ind + 2)) (\<lambda>_. emit (pad ind @ ''    }'')))) (butlast variants)) (\<lambda>_.
          bind (emit (pad ind @ ''    _ => {'')) (\<lambda>_. bind (blk (ind + 2)) (\<lambda>_. emits [pad ind @ ''    }'', pad ind @ ''}''])))))
       (\<lambda>_ _. True)"
      unfolding p prod.case
      by (rule st.s_bind [OF st_emit], (use v in \<open>auto dest!: renamed_plain\<close>)[2], rule st.s_bind [OF st.s_for_same], rule arm, erule butlast,
          rule st.s_bind [OF st_emit], simp, simp, rule st.s_bind [OF blk], assumption, rule st_emits) simp_all
  qed
qed

lemma st_u64:
  assumes "\<And>x x' t. texts (renamed n k) x x' \<Longrightarrow> twins n k d s s' \<Longrightarrow> st.steps n k d (s\<lparr>tape := t\<rparr>) (s'\<lparr>tape := t\<rparr>) (f x) (f' x') Q"
  shows "st.steps n k d s s' (bind u64_expr f) (bind u64_expr f') Q"
  by (rule st.s_drawn [OF twin_runs.lock_u64 [OF twins_runs]]) (use assms in auto)

lemma st_stmt_return: "st.steps n k d s s' (stmt_return ind) (stmt_return ind) (\<lambda>_ _. True)"
  unfolding stmt_return_def by (rule st_bool, rule st_u64, rule st_emit) (auto dest!: texts_plain)

lemma st_stmt_for:
  assumes blk: "\<And>ind u u'. twins n k d u u' \<Longrightarrow> st.steps n k d u u' (blk ind) (blk ind) (\<lambda>_ _. True)"
    and ne: "int_array_vars s \<noteq> []"
  shows "st.steps n k d s s' (stmt_for blk ind) (stmt_for blk ind) (\<lambda>_ _. True)"
proof (rule st.s_pre)
  assume tw: "twins n k d s s'"
  have eq: "stmt_for blk ind = bind (gets int_array_vars) (\<lambda>avs. bind (choice avs) (\<lambda>p. bind (fresh ''x'') (\<lambda>x.
      bind (emit (pad ind @ ''for '' @ x @ '' in '' @ fst p @ '' {'')) (\<lambda>_. bind (in_scope (snd p) x (blk (ind + 1))) (\<lambda>_. emit (pad ind @ ''}''))))))"
    by (simp add: stmt_for_def in_scope_def bind_assoc case_prod_unfold)
  show ?thesis
    unfolding eq
  proof (rule st.s_gets, rule st.s_drawn [OF lock_choice [OF twin_runs.rel_int_arrays [OF twins_runs [OF tw]] ne]])
    fix p p' t assume "(\<lambda>(v, e) (v', e'). e' = e \<and> renamed n k v v' \<and> e \<in> set INTS) p p'"
    then obtain v v' e where p: "p = (v, e)" "p' = (v', e)" and v: "renamed n k v v'" by (cases p, cases p') auto
    have line: "plain (pad ind @ ''for '' @ x @ '' in '' @ v @ '' {'') \<and> plain (pad ind @ ''for '' @ x' @ '' in '' @ v' @ '' {'')"
      if "renamed n k x x'" for x x' using that v by (auto dest!: renamed_plain)
    show "st.steps n k d (s\<lparr>tape := t\<rparr>) (s'\<lparr>tape := t\<rparr>)
        (bind (fresh ''x'') (\<lambda>x. bind (emit (pad ind @ ''for '' @ x @ '' in '' @ fst p @ '' {'')) (\<lambda>_. bind (in_scope (snd p) x (blk (ind + 1))) (\<lambda>_. emit (pad ind @ ''}'')))))
        (bind (fresh ''x'') (\<lambda>x. bind (emit (pad ind @ ''for '' @ x @ '' in '' @ fst p' @ '' {'')) (\<lambda>_. bind (in_scope (snd p') x (blk (ind + 1))) (\<lambda>_. emit (pad ind @ ''}'')))))
        (\<lambda>_ _. True)"
      unfolding p fst_conv snd_conv
      by (rule st_fresh, simp, rule st.s_bind [OF st_emit], blast dest: line, blast dest: line,
          rule st.s_bind [OF st_in_scope], assumption, erule low_mono, simp add: grows_def, erule blk, rule st_emit) simp_all
  qed
qed

lemma st_guard:
  assumes "plain post"
  shows "st.steps n k d s s' (if c then bind gen_bool (\<lambda>b. emit (pad ind @ ''    if '' @ b @ post)) else ret ())
    (if c then bind gen_bool (\<lambda>b. emit (pad ind @ ''    if '' @ b @ post)) else ret ()) (\<lambda>_ _. True)"
  by (rule st.s_if, simp, rule st_bool, rule st_emit, (use assms in \<open>auto dest!: texts_plain\<close>)[2], rule st.s_ret) simp

lemma st_pick_assign:
  "has_any_var s \<Longrightarrow> st.steps n k d s s' (bind pick_var (\<lambda>(ty, name). bind (gen_val ty 1) (\<lambda>v. emit (pad ind @ ''    '' @ name @ '' = '' @ v @ '';''))))
    (bind pick_var (\<lambda>(ty, name). bind (gen_val ty 1) (\<lambda>v. emit (pad ind @ ''    '' @ name @ '' = '' @ v @ '';'')))) (\<lambda>_ _. True)"
proof (rule st.s_drawn [OF twin_stmts.lock_pick_var [OF twins_stmts]], assumption, assumption)
  fix p p' t assume "(\<lambda>(t, v) (t', v'). t' = t \<and> renamed n k v v' \<and> t \<in> set VALUE_TYPES) p p'"
  then obtain ty x x' where p: "p = (ty, x)" "p' = (ty, x')" and x: "renamed n k x x'" and ty: "ty \<in> set VALUE_TYPES" by (cases p, cases p') auto
  show "st.steps n k d (s\<lparr>tape := t\<rparr>) (s'\<lparr>tape := t\<rparr>)
      (case p of (ty, name) \<Rightarrow> bind (gen_val ty 1) (\<lambda>v. emit (pad ind @ ''    '' @ name @ '' = '' @ v @ '';'')))
      (case p' of (ty, name) \<Rightarrow> bind (gen_val ty 1) (\<lambda>v. emit (pad ind @ ''    '' @ name @ '' = '' @ v @ '';''))) (\<lambda>_ _. True)"
    unfolding p prod.case
    by (rule st.s_drawn [OF twin_runs.lock_val_scalar [OF twins_runs scalar_subs(3) [OF ty]]], assumption, rule st_emit)
      (use x in \<open>auto dest!: plain_dests\<close>)
qed

lemma st_stmt_while: "st.steps n k d s s' (stmt_while ind) (stmt_while ind) (\<lambda>_ _. True)"
proof -
  have any: "st.steps n k d u u' (bind (gets has_any_var) (\<lambda>h. bind (if h then bind pick_var (\<lambda>(ty, name). bind (gen_val ty 1) (\<lambda>v.
        emit (pad ind @ ''    '' @ name @ '' = '' @ v @ '';''))) else ret ()) (\<lambda>_. emit (pad ind @ ''}''))))
      (bind (gets has_any_var) (\<lambda>h. bind (if h then bind pick_var (\<lambda>(ty, name). bind (gen_val ty 1) (\<lambda>v.
        emit (pad ind @ ''    '' @ name @ '' = '' @ v @ '';''))) else ret ()) (\<lambda>_. emit (pad ind @ ''}'')))) (\<lambda>_ _. True)" for u u'
  proof (rule st.s_pre)
    assume tw: "twins n k d u u'"
    show ?thesis
      by (rule st.s_gets, unfold twin_stmts.has_any_same [OF twins_stmts [OF tw]], rule st.s_bind [OF st.s_if], simp, erule st_pick_assign,
          rule st.s_ret, simp, rule st_emit) simp_all
  qed
  show ?thesis
    unfolding stmt_while_def
    by (rule st.s_randrange, simp, rule st_fresh, simp, rule st.s_bind [OF st_emits], (auto dest!: renamed_plain)[2],
        rule st.s_flip, rule st.s_bind [OF st_guard], simp, rule st.s_flip, rule st.s_bind [OF st_guard], simp, rule any)
qed

lemma st_stmt_step:
  assumes blk: "\<And>ind u u'. d < 3 \<Longrightarrow> twins n k d u u' \<Longrightarrow> st.steps n k d u u' (blk ind) (blk ind) (\<lambda>_ _. True)"
  shows "st.steps n k d s s' (stmt_step blk ind) (stmt_step blk ind) (\<lambda>_ _. True)"
  unfolding stmt_step_def
proof (rule st.s_py_random, rule st.s_get_state, rule st.s_pre)
  fix r t assume tw: "twins n k d (s\<lparr>tape := t\<rparr>) (s'\<lparr>tape := t\<rparr>)"
  note R = twins_runs [OF tw] and S = twins_stmts [OF tw] and d = twinsE(7,8) [OF tw]
  note same = twin_runs.has_aggregate_same [OF R] twin_stmts.has_any_same [OF S] twin_runs.vars_nil [OF R] d
  let ?m = "\<lambda>s. if gs_depth s = 0 \<and> r < flt_0_45 then stmt_decl ind
     else if r < flt_0_65 \<and> (has_any_var s \<or> has_aggregate_var s) then stmt_assign ind
     else if r < flt_0_8 \<and> gs_depth s < 3 then stmt_if blk ind
     else if r < flt_0_84 \<and> gs_depth s < 3 \<and> live_enum_vars s \<noteq> [] then stmt_switch blk ind
     else if r < flt_0_88 then stmt_return ind
     else if r < flt_0_93 \<and> gs_depth s < 3 \<and> int_array_vars s \<noteq> [] then stmt_for blk ind
     else stmt_while ind"
  show "st.steps n k d (s\<lparr>tape := t\<rparr>) (s'\<lparr>tape := t\<rparr>) (?m (s\<lparr>tape := t\<rparr>)) (?m (s'\<lparr>tape := t\<rparr>)) (\<lambda>_ _. True)"
    unfolding same
    by (intro st.s_if st_stmt_decl st_stmt_assign st_stmt_if st_stmt_switch st_stmt_return st_stmt_for st_stmt_while blk refl) auto
qed

lemma st_gen_block:
  "d + m = 3 \<Longrightarrow> d < 3 \<Longrightarrow> st.steps n k d s s' (gen_block m ind) (gen_block m ind) (\<lambda>_ _. True)"
proof (induction m arbitrary: d ind s s')
  case (Suc m)
  have inner: "st.steps n k (d + 1) u u' (stmt_step (gen_block m) ind) (stmt_step (gen_block m) ind) (\<lambda>_ _. True)" for u u'
    by (rule st_stmt_step, rule Suc.IH) (use Suc.prems in auto)
  have body: "st.steps n k (d + 1) u u' (bind (randrange 1 4) (\<lambda>j. repeat_m j (stmt_step (gen_block m) ind)))
      (bind (randrange 1 4) (\<lambda>j. repeat_m j (stmt_step (gen_block m) ind))) (\<lambda>_ _. True)" for u u'
    by (rule st.s_randrange, simp, rule st.s_mono [OF st.s_repeat [OF inner]]) simp
  show ?case
    using st_deeper [OF body] by (simp add: bind_assoc)
qed simp

lemma st_gen_stmt: "st.steps n k 0 s s' (gen_stmt ind) (gen_stmt ind) (\<lambda>_ _. True)"
  unfolding gen_stmt_def by (rule st_stmt_step, rule st_gen_block) auto

end
