(* ===== verification/Mcfuzz_Gen_Fold.thy ===== *)
theory Mcfuzz_Gen_Fold
  imports Mcfuzz_Gen_Stmt
begin

text \<open>
  The last part of \<open>harness\<close> in two runs at once: the overlay observers, the slice and byte views and the folding of
  the variables into the digest. Here the variant prints more and names more variables than the base, from the
  same draws; the declared types and the environment stay as they are.
\<close>

section \<open>The relation\<close>

definition kept :: "gen_state \<Rightarrow> gen_state \<Rightarrow> bool" where
  "kept w u \<longleftrightarrow> shape u = shape w \<and> gs_env u = gs_env w \<and> gs_immutable u = gs_immutable w \<and> gs_depth u = gs_depth w"

text \<open>\<open>w\<close> and \<open>w'\<close> are the states at the start of the part.\<close>

definition folding :: "(string \<Rightarrow> string \<Rightarrow> bool) \<Rightarrow> gen_state \<Rightarrow> gen_state \<Rightarrow> gen_state \<Rightarrow> gen_state \<Rightarrow> bool" where
  "folding R w w' u u' \<longleftrightarrow>
     alike R w w' \<and> kept w u \<and> kept w' u' \<and> rest u' = rest u \<and> rest_ok u \<and> tape u' = tape u \<and> gs_nvars w \<le> gs_nvars u \<and>
     gs_nvars u \<le> gs_nvars u' \<and> same_decls u u' \<and> text_ok u \<and> text_ok u' \<and>
     length (gs_terms u') = length (gs_terms u) \<and> length (gs_kernel_terms u') = length (gs_kernel_terms u)"

lemma foldingE:
  assumes "folding R w w' u u'"
  shows "alike R w w'" "kept w u" "kept w' u'" "rest u' = rest u" "rest_ok u" "tape u' = tape u" "gs_nvars w \<le> gs_nvars u"
    "gs_nvars u \<le> gs_nvars u'" "same_decls u u'" "text_ok u" "text_ok u'"
    "length (gs_terms u') = length (gs_terms u)" "length (gs_kernel_terms u') = length (gs_kernel_terms u)"
  using assms by (auto simp: folding_def)

lemma kept_env: "kept w u \<Longrightarrow> env_get u = env_get w"
  by (rule ext) (simp add: kept_def env_get_def)

lemma folding_alike: "folding R w w' u u' \<Longrightarrow> alike R u u'"
proof -
  assume f: "folding R w w' u u'"
  note a = foldingE(1) [OF f] and k = foldingE(2,3) [OF f]
  show ?thesis
    by (rule alike_cong [OF _ _ _ a]) (use a k in \<open>simp_all add: kept_env alike_def, simp_all add: kept_def\<close>)
qed

lemma folding_runs: "folding R w w' u u' \<Longrightarrow> twin_runs R u u'"
  by unfold_locales (rule folding_alike)

lemma rest_ok_types: "shape u = shape s \<Longrightarrow> rest_ok (u\<lparr>gs_slice_helpers := l\<rparr>) = rest_ok u"
  by (simp add: rest_ok_def is_comp_shape [of "u\<lparr>gs_slice_helpers := l\<rparr>" u])

text \<open>A pair of updates outside the types, the environment and the tables.\<close>

lemma folding_update:
  assumes "folding R w w' u u'" and "kept u v" and "kept u' v'" and "rest v = rest u" and "rest v' = rest u'"
    and "tape v' = tape v" and "gs_nvars u \<le> gs_nvars v" and "gs_nvars v \<le> gs_nvars v'"
    and "same_decls u u' \<Longrightarrow> same_decls v v'" and "text_ok u \<Longrightarrow> text_ok v" and "text_ok u' \<Longrightarrow> text_ok v'"
    and "length (gs_terms u') = length (gs_terms u) \<Longrightarrow> length (gs_terms v') = length (gs_terms v)"
    and "length (gs_kernel_terms u') = length (gs_kernel_terms u) \<Longrightarrow> length (gs_kernel_terms v') = length (gs_kernel_terms v)"
  shows "folding R w w' v v'"
proof -
  have "rest_ok v" using rest_ok_cong [of v u] assms(2,4) foldingE(5) [OF assms(1)] by (simp add: kept_def)
  then show ?thesis
    using assms(2-) foldingE [OF assms(1)] unfolding folding_def by (auto simp: kept_def)
qed

interpretation fd: run_pair "folding R w w'" "\<lambda>_ _. True" for R w w'
proof unfold_locales
  fix s u v :: gen_state and s' t
  show True and True by simp_all
  show "folding R w w' s s' \<Longrightarrow> tape s' = tape s" by (rule foldingE(6))
  assume f: "folding R w w' s s'"
  have "folding R w w' (s\<lparr>tape := t\<rparr>) (s'\<lparr>tape := t\<rparr>)"
    by (rule folding_update [OF f]) (use foldingE [OF f] in \<open>auto simp: kept_def same_decls_def text_ok_def\<close>)
  then show "folding R w w' (s\<lparr>tape := t\<rparr>) (s'\<lparr>tape := t\<rparr>) \<and> True" by simp
qed

section \<open>Effects\<close>

lemma fd_emits: "list_all plain ls \<Longrightarrow> list_all plain ls' \<Longrightarrow> fd.steps R w w' s s' (emits ls) (emits ls') (\<lambda>_ _. True)"
  unfolding emits_def
proof (rule fd.s_modify)
  assume l: "list_all plain ls" "list_all plain ls'" and f: "folding R w w' s s'"
  have "folding R w w' (s\<lparr>gs_out := gs_out s @ ls\<rparr>) (s'\<lparr>gs_out := gs_out s' @ ls'\<rparr>)"
    by (rule folding_update [OF f]) (use l foldingE [OF f] in \<open>auto simp: kept_def same_decls_def text_ok_def\<close>)
  then show "folding R w w' (s\<lparr>gs_out := gs_out s @ ls\<rparr>) (s'\<lparr>gs_out := gs_out s' @ ls'\<rparr>) \<and> True" by simp
qed

lemma fd_emit: "plain l \<Longrightarrow> plain l' \<Longrightarrow> fd.steps R w w' s s' (emit l) (emit l') (\<lambda>_ _. True)"
  using fd_emits [of "[l]" "[l']"] by (simp add: emits_def emit_def)

lemma fd_emit_emits: "plain l \<Longrightarrow> list_all plain ls' \<Longrightarrow> fd.steps R w w' s s' (emit l) (emits ls') (\<lambda>_ _. True)"
  using fd_emits [of "[l]" ls'] by (simp add: emits_def emit_def)

lemma fd_term: "plain l \<Longrightarrow> plain l' \<Longrightarrow> fd.steps R w w' s s' (add_term l) (add_term l') (\<lambda>_ _. True)"
  unfolding add_term_def
proof (rule fd.s_modify)
  assume l: "plain l" "plain l'" and f: "folding R w w' s s'"
  have "folding R w w' (s\<lparr>gs_terms := gs_terms s @ [l]\<rparr>) (s'\<lparr>gs_terms := gs_terms s' @ [l']\<rparr>)"
    by (rule folding_update [OF f]) (use l foldingE [OF f] in \<open>auto simp: kept_def same_decls_def text_ok_def\<close>)
  then show "folding R w w' (s\<lparr>gs_terms := gs_terms s @ [l]\<rparr>) (s'\<lparr>gs_terms := gs_terms s' @ [l']\<rparr>) \<and> True" by simp
qed

lemma fd_kernel_term: "plain l \<Longrightarrow> plain l' \<Longrightarrow> fd.steps R w w' s s' (add_kernel_term l) (add_kernel_term l') (\<lambda>_ _. True)"
  unfolding add_kernel_term_def
proof (rule fd.s_modify)
  assume l: "plain l" "plain l'" and f: "folding R w w' s s'"
  have "folding R w w' (s\<lparr>gs_kernel_terms := gs_kernel_terms s @ [l]\<rparr>) (s'\<lparr>gs_kernel_terms := gs_kernel_terms s' @ [l']\<rparr>)"
    by (rule folding_update [OF f]) (use l foldingE [OF f] in \<open>auto simp: kept_def same_decls_def text_ok_def\<close>)
  then show "folding R w w' (s\<lparr>gs_kernel_terms := gs_kernel_terms s @ [l]\<rparr>) (s'\<lparr>gs_kernel_terms := gs_kernel_terms s' @ [l']\<rparr>) \<and> True" by simp
qed

lemma fd_declare: "plain l \<Longrightarrow> \<not> overlay_helper l \<Longrightarrow> fd.steps R w w' s s' (declare_text l) (declare_text l) (\<lambda>_ _. True)"
  unfolding declare_text_def
proof (rule fd.s_modify)
  assume l: "plain l" "\<not> overlay_helper l" and f: "folding R w w' s s'"
  have "folding R w w' (s\<lparr>gs_decls := gs_decls s @ [l]\<rparr>) (s'\<lparr>gs_decls := gs_decls s' @ [l]\<rparr>)"
    by (rule folding_update [OF f]) (use l foldingE [OF f] in \<open>auto simp: kept_def same_decls_def text_ok_def\<close>)
  then show "folding R w w' (s\<lparr>gs_decls := gs_decls s @ [l]\<rparr>) (s'\<lparr>gs_decls := gs_decls s' @ [l]\<rparr>) \<and> True" by simp
qed

lemma fd_slice_helper: "fd.steps R w w' s s' (modify (\<lambda>s. s\<lparr>gs_slice_helpers := List.insert e (gs_slice_helpers s)\<rparr>))
    (modify (\<lambda>s. s\<lparr>gs_slice_helpers := List.insert e (gs_slice_helpers s)\<rparr>)) (\<lambda>_ _. True)"
proof (rule fd.s_modify)
  assume f: "folding R w w' s s'"
  have "gs_slice_helpers s' = gs_slice_helpers s" using foldingE(4) [OF f] by (simp add: rest_def)
  then have "folding R w w' (s\<lparr>gs_slice_helpers := List.insert e (gs_slice_helpers s)\<rparr>) (s'\<lparr>gs_slice_helpers := List.insert e (gs_slice_helpers s')\<rparr>)"
    using foldingE [OF f] unfolding folding_def
    by (simp add: kept_def same_decls_def text_ok_def rest_ok_types [OF refl]) (simp add: rest_def)
  then show "folding R w w' (s\<lparr>gs_slice_helpers := List.insert e (gs_slice_helpers s)\<rparr>)
      (s'\<lparr>gs_slice_helpers := List.insert e (gs_slice_helpers s')\<rparr>) \<and> True" by simp
qed

lemma folding_fresh: "folding R w w' s s' \<Longrightarrow> j \<le> k \<Longrightarrow> folding R w w' (s\<lparr>gs_nvars := gs_nvars s + j\<rparr>) (s'\<lparr>gs_nvars := gs_nvars s' + k\<rparr>)"
  by (rule folding_update) (auto simp: kept_def same_decls_def text_ok_def dest: foldingE(6,8))

lemma fresh_eq: "fresh p s = Inr (p @ str_nat (gs_nvars s), s\<lparr>gs_nvars := gs_nvars s + 1\<rparr>)"
  by (simp add: fresh_def bind_def gets_def modify_def ret_def)

lemma fd_fresh:
  assumes "plain p" and f: "\<And>x x' u u'. plain x \<Longrightarrow> plain x' \<Longrightarrow> folding R w w' u u' \<Longrightarrow> fd.steps R w w' u u' (f x) (f' x') Q"
  shows "fd.steps R w w' s s' (bind (fresh p) f) (bind (fresh p) f') Q"
proof (rule fd.s_pre)
  assume i: "folding R w w' s s'"
  note u = folding_fresh [OF i order_refl, of 1]
  have "fd.steps R w w' (s\<lparr>gs_nvars := gs_nvars s + 1\<rparr>) (s'\<lparr>gs_nvars := gs_nvars s' + 1\<rparr>) (f (p @ str_nat (gs_nvars s))) (f' (p @ str_nat (gs_nvars s'))) Q"
    by (rule f [OF _ _ u]) (simp_all add: assms(1))
  with u show ?thesis by (auto simp: fd.steps_def bind_def fresh_eq)
qed

text \<open>A name that only the variant draws.\<close>

lemma fd_fresh_right:
  assumes "plain p" and f: "\<And>x' u'. plain x' \<Longrightarrow> folding R w w' s u' \<Longrightarrow> fd.steps R w w' s u' m (f' x') Q"
  shows "fd.steps R w w' s s' m (bind (fresh p) f') Q"
proof (rule fd.s_pre)
  assume i: "folding R w w' s s'"
  have u: "folding R w w' s (s'\<lparr>gs_nvars := gs_nvars s' + 1\<rparr>)" using folding_fresh [OF i, of 0 1] by simp
  have "fd.steps R w w' s (s'\<lparr>gs_nvars := gs_nvars s' + 1\<rparr>) m (f' (p @ str_nat (gs_nvars s'))) Q"
    by (rule f [OF _ u]) (simp add: assms(1))
  with u show ?thesis by (auto simp: fd.steps_def bind_def fresh_eq)
qed

lemma fd_fresh_emit:
  assumes "plain p" and "\<And>x. plain x \<Longrightarrow> plain (l x) \<and> plain (l' x)"
    and "\<And>x x' u u'. plain x \<Longrightarrow> plain x' \<Longrightarrow> folding R w w' u u' \<Longrightarrow> fd.steps R w w' u u' (f x) (f' x') Q"
  shows "fd.steps R w w' s s' (bind (fresh_emit p l) f) (bind (fresh_emit p l') f') Q"
  unfolding fresh_emit_def bind_assoc
  by (rule fd_fresh [OF assms(1)], rule fd.s_bind [OF fd_emit]) (auto simp: assms)

text \<open>Only the second run can be the variant.\<close>

lemma fd_mode:
  assumes "\<And>mm'. fd.steps R w w' s s' (k False) (k' mm') Q"
  shows "fd.steps R w w' s s' (bind (gets gs_metamorph) k) (bind (gets gs_metamorph) k') Q"
proof (rule fd.s_pre)
  assume "folding R w w' s s'"
  then have "\<not> gs_metamorph s" using foldingE(9) by (auto simp: same_decls_def)
  then show ?thesis by (intro fd.s_gets) (simp add: assms)
qed

end
