(* ===== verification/Mcfuzz_Gen_Folds.thy ===== *)
theory Mcfuzz_Gen_Folds
  imports Mcfuzz_Gen_Fold
begin

text \<open>
  The overlay observers, the views and the folds of \<open>harness\<close> keep the relation of \<open>Mcfuzz_Gen_Fold\<close>, and every one
  of them returns in both runs.
\<close>

lemma folding_tables:
  assumes "folding R w w' s s'"
  shows "gs_structs s = gs_structs w" "gs_arrays s = gs_arrays w" "gs_open_enums s = gs_open_enums w" "gs_enums s = gs_enums w" "gs_tuples s = gs_tuples w"
    "gs_structs s' = gs_structs w" "gs_arrays s' = gs_arrays w" "gs_open_enums s' = gs_open_enums w" "gs_enums s' = gs_enums w" "gs_tuples s' = gs_tuples w"
    "gs_float_bits s' = gs_float_bits s" "types_ok s"
  using folding_alike [OF assms] foldingE(2) [OF assms] by (auto simp: kept_def alike_def shape_def)

lemma folding_rest:
  assumes "folding R w w' s s'"
  shows "gs_result_fns s' = gs_result_fns s" "gs_spk s' = gs_spk s" "gs_conv_w s' = gs_conv_w s" "gs_slice_helpers s' = gs_slice_helpers s"
    "gs_overlays s' = gs_overlays s" "gs_unions s' = gs_unions s"
  using foldingE(4) [OF assms] by (auto simp: rest_def)

lemma folding_env: "folding R w w' s s' \<Longrightarrow> list_all2 (\<lambda>x y. plain x \<and> plain y) (env_get s t) (env_get s' t)"
  using folding_alike [of R w w' s s'] unfolding alike_def naming_def by (blast intro: list_all2_mono)

section \<open>Scalars and aggregates\<close>

lemma fd_fold:
  assumes "t \<in> set SCALARS" and "plain x" and "plain x'"
    and "\<And>f f'. plain f \<Longrightarrow> plain f' \<Longrightarrow> fd.steps R w w' s s' (k f) (k' f') Q"
  shows "fd.steps R w w' s s' (bind (lift_result (ty_fold t x)) k) (bind (lift_result (ty_fold t x')) k') Q"
proof -
  obtain f f' where "ty_fold t x = Inr f" "plain f" "ty_fold t x' = Inr f'" "plain f'"
    using fold_plain [OF assms(1,2)] fold_plain [OF assms(1,3)] by blast
  then show ?thesis by (intro fd.s_lift assms(4))
qed

lemma fd_fold_term:
  "t \<in> set SCALARS \<Longrightarrow> plain x \<Longrightarrow> plain x' \<Longrightarrow>
   fd.steps R w w' s s' (bind (lift_result (ty_fold t x)) add_term) (bind (lift_result (ty_fold t x')) add_term) (\<lambda>_ _. True)"
  by (rule fd_fold) (auto intro: fd_term)

text \<open>A loop over the variables of a type.\<close>

lemma fd_for_env:
  assumes "folding R w w' s s'"
    and "\<And>x x' u u'. plain x \<Longrightarrow> plain x' \<Longrightarrow> folding R w w' u u' \<Longrightarrow> fd.steps R w w' u u' (f x) (f' x') (\<lambda>_ _. True)"
  shows "fd.steps R w w' u u' (for_m f (env_get s t)) (for_m f' (env_get s' t)) (\<lambda>_ _. True)"
  by (rule fd.s_for [OF folding_env [OF assms(1)]]) (use assms(2) in auto)

lemma fd_fold_scalars:
  assumes "set tys \<subseteq> set SCALARS"
  shows "fd.steps R w w' s s' (fold_scalars tys) (fold_scalars tys) (\<lambda>_ _. True)"
proof (rule fd.s_pre)
  assume f: "folding R w w' s s'"
  show ?thesis
    unfolding fold_scalars_def
    by (rule fd.s_get_state, rule fd.s_for_same, rule fd_for_env [OF f], rule fd_fold_term) (use assms in auto)
qed

lemma fd_fold_type:
  "comp_ok (gs_structs w) (gs_arrays w) (gs_open_enums w) r t \<Longrightarrow> r \<le> n \<Longrightarrow> plain x \<Longrightarrow> plain x' \<Longrightarrow>
   fd.steps R w w' s s' (fold_type n x t) (fold_type n x' t) (\<lambda>_ _. True)"
proof (induction r arbitrary: n t x x' s s')
  case (Suc r)
  obtain m where m: "n = Suc m" "r \<le> m" using Suc.prems(2) by (cases n) auto
  note IH = Suc.IH [OF _ m(2)]
  show ?case
  proof (rule fd.s_pre)
    assume f: "folding R w w' s s'"
    note tabs = folding_tables [OF f] and R = folding_runs [OF f]
    consider (st) fs where "map_of (gs_structs w) t = Some fs" "list_all (\<lambda>(f, t). plain f \<and> comp_ok (gs_structs w) (gs_arrays w) (gs_open_enums w) r t) fs"
      | (ar) e len where "map_of (gs_structs w) t = None" "map_of (gs_arrays w) t = Some (e, len)" "comp_ok (gs_structs w) (gs_arrays w) (gs_open_enums w) r e"
      | (oe) "map_of (gs_structs w) t = None" "map_of (gs_arrays w) t = None" "map_of (gs_open_enums w) t \<noteq> None"
      | (sc) "t \<in> set SCALARS"
      using Suc.prems(1) by (fastforce simp: comp_ok.simps split: option.splits)
    then show "fd.steps R w w' s s' (fold_type n x t) (fold_type n x' t) (\<lambda>_ _. True)"
    proof cases
      case st
      show ?thesis
        unfolding m(1) fold_type.simps
        by (rule fd.s_get_state, unfold tabs st(1) option.case, rule fd.s_for_same)
          (use st(2) Suc.prems(3,4) in \<open>auto simp: list_all_iff intro!: IH\<close>)
    next
      case ar
      show ?thesis
        unfolding m(1) fold_type.simps
        by (rule fd.s_get_state, unfold tabs ar(1,2) option.case prod.case, rule fd.s_for_same)
          (use ar(3) Suc.prems(3,4) in \<open>auto intro!: IH\<close>)
    next
      case oe
      then have "headed (CHR ''O'') t" using types_okD(3) [OF tabs(12), of t] tabs(3) by (auto simp: key_ok_def)
      then have tup: "map_of (gs_tuples w) t = None" using twin_runs.headed_tables(5) [OF R, of "CHR ''O''" t] tabs by simp
      have yes: "(t \<in> fst ` set (gs_open_enums w)) = True" using oe(3) by (simp add: map_of_eq_None_iff)
      show ?thesis
        unfolding m(1) fold_type.simps
        by (rule fd.s_get_state, unfold tabs oe(1,2) tup yes option.case if_True, rule fd_term) (use Suc.prems(3,4) in simp_all)
    next
      case sc
      note no = scalar_undeclared [OF tabs(12) sc, unfolded tabs]
      have out: "(t \<in> fst ` set (gs_open_enums w)) = False" using no(3) by (simp add: map_of_eq_None_iff)
      show ?thesis
        unfolding m(1) fold_type.simps
        by (rule fd.s_get_state, unfold tabs no(1,2,5) out option.case if_False, rule fd_fold_term [OF sc]) (use Suc.prems(3,4) in simp_all)
    qed
  qed
qed (simp add: comp_ok.simps)

lemma fd_fold_comp: "is_comp w t \<Longrightarrow> comp_bound \<le> n \<Longrightarrow> plain x \<Longrightarrow> plain x' \<Longrightarrow>
    fd.steps R w w' s s' (fold_type n x t) (fold_type n x' t) (\<lambda>_ _. True)"
  unfolding is_comp_def by (rule fd_fold_type)

lemma fd_fold_tuple:
  assumes "map_of (gs_tuples w) t = Some ets" and x: "plain x" "plain x'"
  shows "fd.steps R w w' s s' (fold_type value_depth x t) (fold_type value_depth x' t) (\<lambda>_ _. True)"
proof (rule fd.s_pre)
  assume f: "folding R w w' s s'"
  note tabs = folding_tables [OF f]
  have depth: "value_depth = Suc 15" by (simp add: value_depth_def)
  have k: "headed (CHR ''('') t" and ets: "list_all (is_comp s) ets"
    using types_okD(5) [OF tabs(12), of t ets] assms(1) tabs by (auto simp: key_ok_def)
  have comp: "is_comp s = is_comp w" by (rule is_comp_shape) (use foldingE(2) [OF f] in \<open>simp add: kept_def\<close>)
  note no = twin_runs.headed_tables(1,2) [OF folding_runs [OF f] k, unfolded tabs]
  show ?thesis
    unfolding depth fold_type.simps
    by (rule fd.s_get_state, unfold tabs assms(1), simp only: no [simplified] option.case, rule fd.s_for_same)
      (use ets x in \<open>auto simp: comp comp_bound_def in_set_enumerate_eq list_all_iff intro!: fd_fold_comp\<close>)
qed

lemma fd_fold_aggregates: "fd.steps R w w' s s' fold_aggregates fold_aggregates (\<lambda>_ _. True)"
proof (rule fd.s_pre)
  assume f: "folding R w w' s s'"
  note tabs = folding_tables [OF f]
  have comp: "is_comp s = is_comp w" by (rule is_comp_shape) (use foldingE(2) [OF f] in \<open>simp add: kept_def\<close>)
  have one: "fd.steps R w w' u u' (fold_type value_depth x t) (fold_type value_depth x' t) (\<lambda>_ _. True)"
    if t: "t \<in> set (map fst (gs_structs s) @ map fst (gs_arrays s) @ map fst (gs_tuples s))" and x: "plain x" "plain x'" for u u' x x' t
  proof -
    consider "is_comp w t" | "t \<in> fst ` set (gs_tuples w)"
      using t tabs(12) unfolding comp [symmetric] by (auto simp: types_ok_def tabs)
    then show ?thesis
    proof cases
      case 1
      then show ?thesis by (rule fd_fold_comp) (simp_all add: x comp_bound_def value_depth_def)
    next
      case 2
      then obtain ets where "map_of (gs_tuples w) t = Some ets" by (metis map_of_eq_None_iff not_None_eq)
      then show ?thesis by (rule fd_fold_tuple [OF _ x])
    qed
  qed
  have eq: "map fst (gs_structs s') @ map fst (gs_arrays s') @ map fst (gs_tuples s') = map fst (gs_structs s) @ map fst (gs_arrays s) @ map fst (gs_tuples s)"
    by (simp add: tabs)
  show ?thesis
    unfolding fold_aggregates_def
    by (rule fd.s_get_state, unfold eq, rule fd.s_for_same, rule fd_for_env [OF f], rule one)
qed

lemma fd_fold_open_enums: "fd.steps R w w' s s' fold_open_enums fold_open_enums (\<lambda>_ _. True)"
proof (rule fd.s_pre)
  assume f: "folding R w w' s s'"
  have eq: "map fst (gs_open_enums s') = map fst (gs_open_enums s)" by (simp add: folding_tables [OF f])
  show ?thesis
    unfolding fold_open_enums_def by (rule fd.s_get_state, unfold eq, rule fd.s_for_same, rule fd_for_env [OF f], rule fd_term) simp_all
qed

lemma fd_fold_kernel_terms: "fd.steps R w w' s s' fold_kernel_terms fold_kernel_terms (\<lambda>_ _. True)"
proof (rule fd.s_pre)
  assume f: "folding R w w' s s'"
  have "list_all2 (\<lambda>x y. plain x \<and> plain y) (gs_kernel_terms s) (gs_kernel_terms s')"
    using foldingE(10,11,13) [OF f] by (auto simp: text_ok_def list_all2_conv_all_nth list_all_length)
  then show ?thesis
    unfolding fold_kernel_terms_def by (intro fd.s_gets) (rule fd.s_for, assumption, rule fd_term, auto)
qed

section \<open>Pointers, results, floats and enums\<close>

text \<open>The pointers of the two runs.\<close>

definition pointer_rel :: "(string \<times> string) + (string \<times> string) \<Rightarrow> (string \<times> string) + (string \<times> string) \<Rightarrow> bool" where
  "pointer_rel = rel_sum (\<lambda>(x, t) (x', t'). t' = t \<and> plain x \<and> plain x' \<and> t \<in> set INTS) (\<lambda>(x, t) (x', t'). t' = t \<and> plain x \<and> plain x' \<and> t \<in> set INTS)"

lemma rel_map_filter:
  assumes "\<And>x y. P x y \<Longrightarrow> rel_option Q (f x) (g y)"
  shows "list_all2 P xs ys \<Longrightarrow> list_all2 Q (List.map_filter f xs) (List.map_filter g ys)"
proof (induction rule: list_all2_induct)
  case (Cons x xs y ys)
  then show ?case using assms [OF Cons.hyps(1)] by (cases "f x"; cases "g y") (auto simp: map_filter_simps)
qed (simp add: map_filter_simps)

lemma fd_fold_pointers:
  assumes "list_all2 pointer_rel ps ps'"
  shows "fd.steps R w w' s s' (fold_pointers ps) (fold_pointers ps') (\<lambda>_ _. True)"
proof -
  let ?Q = "\<lambda>(x, t) (x', t'). t' = t \<and> plain x \<and> plain x' \<and> t \<in> set INTS"
  let ?l = "List.map_filter (\<lambda>p. case p of Inl x \<Rightarrow> Some x | Inr _ \<Rightarrow> None)" and ?r = "List.map_filter (\<lambda>p. case p of Inl _ \<Rightarrow> None | Inr x \<Rightarrow> Some x)"
  have l: "list_all2 ?Q (?l ps) (?l ps')" by (rule rel_map_filter [OF _ assms]) (auto simp: pointer_rel_def elim!: rel_sum.cases)
  have r: "list_all2 ?Q (?r ps) (?r ps')" by (rule rel_map_filter [OF _ assms]) (auto simp: pointer_rel_def elim!: rel_sum.cases)
  have nil: "(?l ps' = [] \<and> ?r ps' = []) = (?l ps = [] \<and> ?r ps = [])" using l r by (auto dest: list_all2_lengthD)
  have opt: "fd.steps R w w' u u'
      ((\<lambda>(pname, ty). bind (emit (''    if let q = '' @ pname @ '' {'')) (\<lambda>_. bind (lift_result (ty_fold ty ''q.*'')) (\<lambda>f.
         emits [''        pobs = (pobs ^ '' @ f @ '');'', ''    } else {'', ''        pobs = (pobs ^ 12345);'', ''    }'']))) p)
      ((\<lambda>(pname, ty). bind (emit (''    if let q = '' @ pname @ '' {'')) (\<lambda>_. bind (lift_result (ty_fold ty ''q.*'')) (\<lambda>f.
         emits [''        pobs = (pobs ^ '' @ f @ '');'', ''    } else {'', ''        pobs = (pobs ^ 12345);'', ''    }'']))) p') (\<lambda>_ _. True)"
    if q: "?Q p p'" for p p' u u'
  proof -
    obtain x x' t where p: "p = (x, t)" "p' = (x', t)" "plain x" "plain x'" "t \<in> set SCALARS" using q scalar_subs(2) by (cases p; cases p') auto
    show ?thesis
      unfolding p(1,2) prod.case
      by (rule fd.s_bind [OF fd_emit], (simp add: p)+, rule fd_fold [OF p(5)], simp, simp, rule fd_emits) simp_all
  qed
  have ptr: "fd.steps R w w' u u'
      ((\<lambda>(pname, ty). bind (lift_result (ty_fold ty (pname @ ''.*''))) (\<lambda>f. emit (''    pobs = (pobs ^ '' @ f @ '');''))) p)
      ((\<lambda>(pname, ty). bind (lift_result (ty_fold ty (pname @ ''.*''))) (\<lambda>f. emit (''    pobs = (pobs ^ '' @ f @ '');''))) p') (\<lambda>_ _. True)"
    if q: "?Q p p'" for p p' u u'
  proof -
    obtain x x' t where p: "p = (x, t)" "p' = (x', t)" "plain x" "plain x'" "t \<in> set SCALARS" using q scalar_subs(2) by (cases p; cases p') auto
    show ?thesis unfolding p(1,2) prod.case by (rule fd_fold [OF p(5)], (simp add: p)+, rule fd_emit) simp_all
  qed
  show ?thesis
    unfolding fold_pointers_def Let_def nil
    by (rule fd.s_if, simp, rule fd.s_ret, simp, rule fd.s_bind [OF fd_emit], simp, simp, rule fd.s_bind [OF fd.s_for [OF l]], rule opt, assumption,
        rule fd.s_bind [OF fd.s_for [OF r]], rule ptr, assumption, rule fd_term) simp_all
qed

lemma fd_result_switch:
  assumes "ot \<in> set INTS" and "plain sub" and "plain sub'" and "plain acc" and "plain mark"
  shows "fd.steps R w w' s s' (emit_result_switch sub acc ot mark) (emit_result_switch sub' acc ot mark) (\<lambda>_ _. True)"
proof -
  have "''u32'' \<in> set SCALARS" by code_simp
  then show ?thesis
    unfolding emit_result_switch_def
    by (intro fd.s_bind [OF fd_emit] fd_fold fd_emits) (use assms scalar_subs(2) in simp_all)
qed

lemma fd_leaf:
  assumes "t \<in> set SCALARS" and "\<And>x x' u u'. plain x \<Longrightarrow> plain x' \<Longrightarrow> folding R w w' u u' \<Longrightarrow> fd.steps R w w' u u' (f x) (f' x') Q"
  shows "fd.steps R w w' s s' (bind (gen_leaf t) f) (bind (gen_leaf t) f') Q"
  by (rule fd.s_drawn [OF twin_runs.lock_leaf [OF folding_runs assms(1)]], assumption)
    (use assms(2) fd.draw in \<open>blast dest!: vals_plain\<close>)

lemma fd_fold_result_fns: "fd.steps R w w' s s' fold_result_fns fold_result_fns (\<lambda>_ _. True)"
proof (rule fd.s_pre)
  assume f: "folding R w w' s s'"
  have fns: "\<forall>(f, pt, ot) \<in> set (gs_result_fns s). plain f \<and> pt \<in> set INTS \<and> ot \<in> set INTS"
    using foldingE(5) [OF f] by (simp add: rest_ok_def)
  have one: "fd.steps R w w' u u' (bind (gen_leaf pt) (\<lambda>a. emit_result_switch (name @ ''('' @ a @ '')'') ''robs'' ot ''1000''))
      (bind (gen_leaf pt) (\<lambda>a. emit_result_switch (name @ ''('' @ a @ '')'') ''robs'' ot ''1000'')) (\<lambda>_ _. True)"
    if "(name, pt, ot) \<in> set (gs_result_fns s)" for u u' name pt ot
    using that fns by (intro fd_leaf fd_result_switch) (auto simp: scalar_subs)
  show ?thesis
    unfolding fold_result_fns_def
    by (rule fd.s_gets, unfold folding_rest [OF f], rule fd.s_if, simp, rule fd.s_ret, simp, rule fd.s_bind [OF fd_emit], simp, simp,
        rule fd.s_bind [OF fd.s_for_same], (use one in auto)[1], rule fd_term) simp_all
qed

lemma fd_cond: "(\<And>u u'. folding R w w' u u' \<Longrightarrow> b \<Longrightarrow> fd.steps R w w' u u' m m' P) \<Longrightarrow> (\<And>u u'. folding R w w' u u' \<Longrightarrow> \<not> b \<Longrightarrow> fd.steps R w w' u u' n n' P) \<Longrightarrow>
    fd.steps R w w' s s' (if b then m else n) (if b then m' else n') P"
  by (rule fd.s_pre) auto

lemma fd_fold_floats: "fd.steps R w w' s s' fold_floats fold_floats (\<lambda>_ _. True)"
proof (rule fd.s_pre)
  assume f: "folding R w w' s s'"
  note R = folding_runs [OF f]
  have none: "list_all (\<lambda>ty. env_get s' ty = []) FLOATS = list_all (\<lambda>ty. env_get s ty = []) FLOATS"
    by (simp add: twin_runs.env_nil [OF R])
  have one: "fd.steps R w w' u u'
      (bind (choice CMPS) (\<lambda>cmp. bind (ty_lit t) (\<lambda>v. emit (''    if '' @ x @ '' '' @ cmp @ '' '' @ v @ '' { fobs = fobs + '' @ str_nat (2 ^ k) @ ''; }''))))
      (bind (choice CMPS) (\<lambda>cmp. bind (ty_lit t) (\<lambda>v. emit (''    if '' @ x' @ '' '' @ cmp @ '' '' @ v @ '' { fobs = fobs + '' @ str_nat (2 ^ k) @ ''; }''))))
      (\<lambda>_ _. True)"
    if "t \<in> set FLOATS" "plain x" "plain x'" for t x x' k u u'
    using that by (intro fd.s_pick fd.s_lit fd_emit) (auto simp: scalar_subs literal_def twin_runs.CMPS_plain [OF R] twin_runs.CMPS_ok [OF R])
  have all: "fd.steps R w w' u u'
      (for_m (\<lambda>ty. for_m (\<lambda>name. for_m (\<lambda>k. bind (choice CMPS) (\<lambda>cmp. bind (ty_lit ty) (\<lambda>v.
         emit (''    if '' @ name @ '' '' @ cmp @ '' '' @ v @ '' { fobs = fobs + '' @ str_nat (2 ^ k) @ ''; }'')))) [0..<3]) (env_get s ty)) FLOATS)
      (for_m (\<lambda>ty. for_m (\<lambda>name. for_m (\<lambda>k. bind (choice CMPS) (\<lambda>cmp. bind (ty_lit ty) (\<lambda>v.
         emit (''    if '' @ name @ '' '' @ cmp @ '' '' @ v @ '' { fobs = fobs + '' @ str_nat (2 ^ k) @ ''; }'')))) [0..<3]) (env_get s' ty)) FLOATS)
      (\<lambda>_ _. True)" for u u'
    by (rule fd.s_for_same, rule fd_for_env [OF f], rule fd.s_for_same, rule one)
  show ?thesis
    unfolding fold_floats_def
    by (rule fd.s_get_state, unfold none folding_tables(11) [OF f], rule fd.s_if, simp, rule fd.s_ret, simp, rule fd.s_if, simp,
        rule fd_fold_scalars, use scalar_subs(6) in blast, rule fd.s_bind [OF fd_emit], simp, simp, rule fd.s_bind [OF all], rule fd_term) simp_all
qed

lemma fd_fold_spk: "fd.steps R w w' s s' fold_spk fold_spk (\<lambda>_ _. True)"
proof (rule fd.s_pre)
  assume f: "folding R w w' s s'"
  have spk: "t \<in> set INTS" if "gs_spk s = Some t" for t using foldingE(5) [OF f] that by (simp add: rest_ok_def)
  show ?thesis
    unfolding fold_spk_def
    by (rule fd.s_gets, unfold folding_rest [OF f])
      (use spk scalar_subs(2) in \<open>auto intro!: fd.s_ret fd.s_bind [OF fd_emit] fd_fold_term split: option.split\<close>)
qed

lemma fd_fold_result_array: "fd.steps R w w' s s' fold_result_array fold_result_array (\<lambda>_ _. True)"
proof -
  have u32: "''u32'' \<in> set SCALARS" by code_simp
  have elem: "fd.steps R w w' u u'
      (bind (flip flt_0_5) (\<lambda>c. if c then bind (gen_leaf t) (\<lambda>a. ret (''ok('' @ a @ '')'')) else bind (ty_lit ''u32'') (\<lambda>e. ret (''err('' @ e @ '')''))))
      (bind (flip flt_0_5) (\<lambda>c. if c then bind (gen_leaf t) (\<lambda>a. ret (''ok('' @ a @ '')'')) else bind (ty_lit ''u32'') (\<lambda>e. ret (''err('' @ e @ '')''))))
      (\<lambda>x y. plain x \<and> plain y)" if "t \<in> set INTS" for t u u'
    using that scalar_subs(2) by (intro fd.s_flip fd.s_if fd_leaf fd.s_lit [OF u32] fd.s_ret refl) (auto simp: literal_def)
  have lines: "list_all plain [''    var arres: ['' @ str_nat k @ '']Result<'' @ t @ '', u32> = .{ '' @ join '', '' xs @ '' };'', ''    var arobs: u64 = 0;'']"
    if "list_all plain xs" "t \<in> set INTS" for k t xs
    using that scalar_plain [OF scalar_subs(2) [of t]] by simp
  have both: "list_all2 (\<lambda>x y. plain x \<and> plain y) xs ys \<Longrightarrow> list_all plain xs \<and> list_all plain ys" for xs ys
    by (induction rule: list_all2_induct) auto
  show ?thesis
    unfolding fold_result_array_def
    by (rule fd.s_flip, rule fd.s_if, simp, rule fd.s_ret, simp, rule fd.s_pick, simp, rule fd.s_randrange, simp, rule fd.s_bind [OF fd.s_repeat], erule elem,
        rule fd.s_bind [OF fd_emits], blast dest!: both intro: lines, blast dest!: both intro: lines, rule fd.s_bind [OF fd.s_for_same],
        rule fd_result_switch, assumption, simp, simp, simp, simp, rule fd_term) simp_all
qed

lemma fd_fold_enums: "fd.steps R w w' s s' fold_enums fold_enums (\<lambda>_ _. True)"
proof (rule fd.s_pre)
  assume f: "folding R w w' s s'"
  note R = folding_runs [OF f]
  have none: "list_all (\<lambda>e. env_get s' e = []) (map fst (gs_enums s')) = list_all (\<lambda>e. env_get s e = []) (map fst (gs_enums s))"
    by (simp add: twin_runs.env_nil [OF R] folding_tables [OF f] list.pred_map comp_def)
  have vs: "list_all plain vs" if "(e, vs) \<in> set (gs_enums s)" for e vs
    using folding_tables(12) [OF f] that by (auto simp: types_ok_def)
  have arms: "list_all plain (map (\<lambda>(k, v). ''        .'' @ v @ '' => { eobs = eobs + '' @ str_nat (k + 1) @ ''; }'') (enumerate 0 (butlast vs)))"
    if "list_all plain vs" for vs
  proof -
    have "list_all plain (butlast vs)" using that by (auto simp: list_all_iff dest: in_set_butlastD)
    then show ?thesis by (auto simp: list_all_iff in_set_enumerate_eq)
  qed
  have eq: "gs_enums s' = gs_enums s" by (simp add: folding_tables [OF f])
  have one: "fd.steps R w w' u u'
      (bind (emit (''    switch '' @ x @ '' {'')) (\<lambda>_.
         bind (emits (map (\<lambda>(k, v). ''        .'' @ v @ '' => { eobs = eobs + '' @ str_nat (k + 1) @ ''; }'') (enumerate 0 (butlast vs)))) (\<lambda>_.
           emits [''        _ => { eobs = eobs + '' @ str_nat (length vs) @ ''; }'', ''    }''])))
      (bind (emit (''    switch '' @ x' @ '' {'')) (\<lambda>_.
         bind (emits (map (\<lambda>(k, v). ''        .'' @ v @ '' => { eobs = eobs + '' @ str_nat (k + 1) @ ''; }'') (enumerate 0 (butlast vs)))) (\<lambda>_.
           emits [''        _ => { eobs = eobs + '' @ str_nat (length vs) @ ''; }'', ''    }'']))) (\<lambda>_ _. True)"
    if "plain x" "plain x'" "list_all plain vs" for x x' vs u u'
    using that by (intro fd.s_bind [OF fd_emit] fd.s_bind [OF fd_emits] fd_emits arms) simp_all
  have all: "fd.steps R w w' u u'
      (for_m (\<lambda>(ename, vs). for_m (\<lambda>name. bind (emit (''    switch '' @ name @ '' {'')) (\<lambda>_.
         bind (emits (map (\<lambda>(k, v). ''        .'' @ v @ '' => { eobs = eobs + '' @ str_nat (k + 1) @ ''; }'') (enumerate 0 (butlast vs)))) (\<lambda>_.
           emits [''        _ => { eobs = eobs + '' @ str_nat (length vs) @ ''; }'', ''    }'']))) (env_get s ename)) (gs_enums s))
      (for_m (\<lambda>(ename, vs). for_m (\<lambda>name. bind (emit (''    switch '' @ name @ '' {'')) (\<lambda>_.
         bind (emits (map (\<lambda>(k, v). ''        .'' @ v @ '' => { eobs = eobs + '' @ str_nat (k + 1) @ ''; }'') (enumerate 0 (butlast vs)))) (\<lambda>_.
           emits [''        _ => { eobs = eobs + '' @ str_nat (length vs) @ ''; }'', ''    }'']))) (env_get s' ename)) (gs_enums s)) (\<lambda>_ _. True)" for u u'
    by (rule fd.s_for_same, clarsimp simp del: for_m.simps, rule fd_for_env [OF f], rule one [simplified], auto dest: vs)
  show ?thesis
    unfolding fold_enums_def
    by (rule fd.s_get_state, unfold none, rule fd.s_if, simp, rule fd.s_ret, simp, rule fd.s_bind [OF fd_emit], simp, simp, unfold eq,
        rule fd.s_bind [OF all], rule fd_term) simp_all
qed

end
