(* ===== verification/Mcfuzz_Gen_Views.thy ===== *)
theory Mcfuzz_Gen_Views
  imports Mcfuzz_Gen_Folds
begin

text \<open>
  The views of \<open>harness\<close> in two runs: byte views and slices, which the variant reads through an extra reslice, the
  unions, the conversions and the expression switches, and the overlay observers, where the variant
  reads through a helper.
\<close>

section \<open>Slices and byte views\<close>

lemma fd_choice:
  assumes "list_all2 P xs xs'" and "xs \<noteq> []"
    and "\<And>x x' u u'. P x x' \<Longrightarrow> folding R w w' u u' \<Longrightarrow> fd.steps R w w' u u' (f x) (f' x') Q"
  shows "fd.steps R w w' s s' (bind (choice xs) f) (bind (choice xs') f') Q"
  by (rule fd.s_drawn [OF lock_choice [OF assms(1,2)]]) (use assms(3) fd.draw in blast)

lemma fd_pick3:
  assumes "xs \<noteq> []"
    and "\<And>a b c u u'. (a, b, c) \<in> set xs \<Longrightarrow> folding R w w' u u' \<Longrightarrow> fd.steps R w w' u u' (f a b c) (f' a b c) Q"
  shows "fd.steps R w w' s s' (bind (choice xs) (\<lambda>(a, b, c). f a b c)) (bind (choice xs) (\<lambda>(a, b, c). f' a b c)) Q"
  by (rule fd_choice [where P = "\<lambda>x y. y = x \<and> x \<in> set xs"]) (use assms in \<open>auto simp: list_all2_same\<close>)

lemma fd_flip: "(\<And>b u u'. folding R w w' u u' \<Longrightarrow> fd.steps R w w' u u' (f b) (f' b) Q) \<Longrightarrow> fd.steps R w w' s s' (bind (flip p) f) (bind (flip p) f') Q"
  by (rule fd.s_flip) (use fd.draw in blast)

lemma fd_randrange: "lo < hi \<Longrightarrow> (\<And>i u u'. lo \<le> i \<Longrightarrow> i < hi \<Longrightarrow> folding R w w' u u' \<Longrightarrow> fd.steps R w w' u u' (f i) (f' i) Q) \<Longrightarrow>
    fd.steps R w w' s s' (bind (randrange lo hi) f) (bind (randrange lo hi) f') Q"
  by (rule fd.s_randrange) (use fd.draw in blast)+

lemma fd_lit: "t \<in> set SCALARS \<Longrightarrow> (\<And>x u u'. plain x \<Longrightarrow> folding R w w' u u' \<Longrightarrow> fd.steps R w w' u u' (f x) (f' x) Q) \<Longrightarrow>
    fd.steps R w w' s s' (bind (ty_lit t) f) (bind (ty_lit t) f') Q"
  by (rule fd.s_lit) (use fd.draw in \<open>auto simp: literal_def\<close>)

text \<open>The base prints one line; the variant may draw two names and print three.\<close>

lemma fd_reslice:
  assumes "\<not> mm" and "plain l" and "plain l'" and "plain p" and "plain q"
    and "\<And>a b. plain a \<Longrightarrow> plain b \<Longrightarrow> list_all plain (ls a b)" and "\<And>u u'. fd.steps R w w' u u' (k ()) (k' ()) Q"
  shows "fd.steps R w w' s s' (bind (if \<not> mm then emit l else n) k)
    (bind (if \<not> mm' then emit l' else bind (fresh p) (\<lambda>a. bind (fresh q) (\<lambda>b. emits (ls a b)))) k') Q"
proof -
  have variant: "fd.steps R w w' s s' (bind (emit l) k) (bind (bind (fresh p) (\<lambda>a. bind (fresh q) (\<lambda>b. emits (ls a b)))) k') Q"
    unfolding bind_assoc
    by (rule fd_fresh_right [OF assms(4)], rule fd_fresh_right [OF assms(5)], rule fd.s_bind [OF fd_emit_emits]) (use assms in auto)
  have base: "fd.steps R w w' s s' (bind (emit l) k) (bind (emit l') k') Q"
    by (rule fd.s_bind [OF fd_emit]) (use assms in auto)
  show ?thesis using variant base assms(1) by (cases mm') auto
qed

lemma sum_loop_plain: "plain it \<Longrightarrow> plain v \<Longrightarrow> plain sm \<Longrightarrow> plain (ix it) \<Longrightarrow> plain (sum_loop it v sm ix)"
  by (simp add: sum_loop_def)

lemma fd_fresh_emit_term:
  assumes "plain p" and "\<And>x. plain x \<Longrightarrow> plain (l x) \<and> plain (l' x)"
  shows "fd.steps R w w' s s' (bind (fresh_emit p l) add_term) (bind (fresh_emit p l') add_term) (\<lambda>_ _. True)"
  by (rule fd_fresh_emit [OF assms]) (auto intro: fd_term)

lemma base_first: "folding R w w' s s' \<Longrightarrow> \<not> gs_metamorph s"
  using foldingE(9) by (auto simp: same_decls_def)

lemma fd_byteview_body: "fd.steps R w w' s s' gen_byteview_body gen_byteview_body (\<lambda>_ _. True)"
proof (rule fd.s_pre)
  assume f: "folding R w w' s s'"
  note Rn = folding_runs [OF f]
  have cands: "list_all2 (\<lambda>x y. plain x \<and> plain y) (map fst (int_array_vars s)) (map fst (int_array_vars s'))"
    using twin_runs.rel_int_arrays [OF Rn] twin_runs.naming [OF Rn]
    unfolding list_all2_map1 list_all2_map2 naming_def by (auto elim!: list_all2_mono)
  have nil: "(map fst (int_array_vars s') = []) = (map fst (int_array_vars s) = [])" using twin_runs.vars_nil(1) [OF Rn] by simp
  show ?thesis
    unfolding gen_byteview_body_def Let_def
    by (rule fd.s_get_state, unfold nil, rule fd.s_if, simp, rule fd.s_ret, simp, rule fd.s_bind [OF fd_declare], simp,
        simp add: overlay_helper_def startswith_def, rule fd_choice [OF cands], assumption, rule fd_fresh_emit, simp, simp,
        rule fd_fresh, simp, rule fd.s_bind [OF fd_emits], simp, simp, rule fd.s_bind [OF fd_term], assumption, assumption,
        rule fd_fresh, simp, rule fd_fresh, simp, rule fd.s_bind [OF fd_emits], simp, simp, rule fd_reslice [OF base_first [OF f]])
      (auto intro: sum_loop_plain fd_term)
qed

lemma fd_slice_body: "fd.steps R w w' s s' gen_slice_body gen_slice_body (\<lambda>_ _. True)"
proof (rule fd.s_pre)
  assume f: "folding R w w' s s'"
  note Rn = folding_runs [OF f]
  let ?c = "filter (\<lambda>(ty, elem, len). elem \<in> set INTS \<and> env_get s ty \<noteq> []) (gs_arrays s)"
  have same: "filter (\<lambda>(ty, elem, len). elem \<in> set INTS \<and> env_get s' ty \<noteq> []) (gs_arrays s') = ?c"
    by (simp add: twin_runs.env_nil [OF Rn] folding_tables [OF f])
  have ok: "env_get s ty \<noteq> [] \<and> elem \<in> set INTS \<and> 0 < len" if "(ty, elem, len) \<in> set ?c" for ty elem len
    using that folding_tables(12) [OF f] by (auto simp: types_ok_def)
  have env: "list_all2 (\<lambda>x y. plain x \<and> plain y) (env_get u ty) (env_get u' ty)" if "folding R w w' u u'" for u u' ty
    by (rule folding_env [OF that])
  have at: "fd.steps R w w' u u' (bind (env_at ty) k) (bind (env_at ty) k') Q"
    if u: "folding R w w' u u'" and ne: "env_get s ty \<noteq> []" and k: "fd.steps R w w' u u' (k (env_get u ty)) (k' (env_get u' ty)) Q" for u u' ty k k' Q
  proof -
    have "env_get u ty \<noteq> []" using ne kept_env [OF foldingE(2) [OF u]] kept_env [OF foldingE(2) [OF f]] by simp
    moreover have "env_get u' ty \<noteq> []" using calculation env [OF u, of ty] by auto
    ultimately show ?thesis
      using k by (auto simp: fd.steps_def env_at_def get_state_def env_get_def bind_def gets_def ret_def split: option.splits)
  qed
  show ?thesis
    unfolding gen_slice_body_def Let_def
    by (rule fd.s_get_state, unfold same folding_rest(4) [OF f], rule fd.s_if, simp, rule fd.s_ret, simp, rule fd_pick3, assumption, frule ok, elim conjE,
        rule at, assumption, assumption, rule fd_choice, erule env, drule kept_env [OF foldingE(2)], simp add: kept_env [OF foldingE(2) [OF f]],
        rule fd_randrange, simp, rule fd_randrange, simp, rule fd_fresh_emit, simp, simp add: scalar_plain [OF scalar_subs(2)], rule fd_fresh, simp,
        rule fd_fresh, simp, rule fd.s_bind [OF fd_emits], simp, simp, rule fd_reslice [OF base_first [OF f]], rule sum_loop_plain, assumption+,
        rule sum_loop_plain, assumption+, simp, simp, simp add: sum_loop_plain scalar_plain [OF scalar_subs(2)], rule fd.s_bind [OF fd_term], assumption,
        assumption, rule fd.s_bind [OF fd_cond], rule fd.s_ret, simp, rule fd.s_bind [OF fd_slice_helper], rule fd_declare,
        simp add: scalar_plain [OF scalar_subs(2)], simp add: overlay_helper_def startswith_def, rule fd_fresh_emit_term)
      (simp_all add: scalar_plain [OF scalar_subs(2)])
qed

section \<open>Unions, conversions, expression switches\<close>

lemma fd_union_value:
  assumes "plain uname" and "cs \<noteq> []" and "list_all (\<lambda>(c, t). plain c \<and> t \<in> set INTS) cs" and "\<And>c. emp = Some c \<Longrightarrow> plain c"
  shows "fd.steps R w w' s s' (gen_union_value (uname, cs, emp)) (gen_union_value (uname, cs, emp)) (\<lambda>_ _. True)"
proof -
  let ?opts = "map (\<lambda>(c, t). (c, Some t)) cs @ (case emp of None \<Rightarrow> [] | Some c \<Rightarrow> [(c, None)])"
  have opt: "plain c \<and> (\<forall>t. o_t = Some t \<longrightarrow> t \<in> set INTS)" if "(c, o_t) \<in> set ?opts" for c o_t
    using that assms(3,4) by (auto simp: list_all_iff split: option.splits)
  have ctor: "fd.steps R w w' u u' (case o_t of None \<Rightarrow> ret (c @ ''()'') | Some t \<Rightarrow> bind (gen_leaf t) (\<lambda>a. ret (c @ ''('' @ a @ '')'')))
      (case o_t of None \<Rightarrow> ret (c @ ''()'') | Some t \<Rightarrow> bind (gen_leaf t) (\<lambda>a. ret (c @ ''('' @ a @ '')''))) (\<lambda>x y. plain x \<and> plain y)"
    if "(c, o_t) \<in> set ?opts" for c o_t u u'
    using opt [OF that] by (cases o_t) (auto intro!: fd.s_ret fd_leaf intro: scalar_subs)
  have one: "fd.steps R w w' u u'
      (bind (choice ?opts) (\<lambda>(cn, pt). bind (case pt of None \<Rightarrow> ret (cn @ ''()'') | Some t \<Rightarrow> bind (gen_leaf t) (\<lambda>a. ret (cn @ ''('' @ a @ '')''))) (\<lambda>ctor.
         bind (fresh_emit ''uv'' (\<lambda>uv. ''    var '' @ uv @ '': '' @ uname @ '' = '' @ ctor @ '';'')) (\<lambda>uv.
         bind (fresh_emit ''ufv'' (\<lambda>fv. ''    var '' @ fv @ '': u64 = ufold_'' @ uname @ ''('' @ uv @ '');'')) add_term))))
      (bind (choice ?opts) (\<lambda>(cn, pt). bind (case pt of None \<Rightarrow> ret (cn @ ''()'') | Some t \<Rightarrow> bind (gen_leaf t) (\<lambda>a. ret (cn @ ''('' @ a @ '')''))) (\<lambda>ctor.
         bind (fresh_emit ''uv'' (\<lambda>uv. ''    var '' @ uv @ '': '' @ uname @ '' = '' @ ctor @ '';'')) (\<lambda>uv.
         bind (fresh_emit ''ufv'' (\<lambda>fv. ''    var '' @ fv @ '': u64 = ufold_'' @ uname @ ''('' @ uv @ '');'')) add_term)))) (\<lambda>_ _. True)" for u u'
  proof (rule fd_choice [where P = "\<lambda>x y. y = x \<and> x \<in> set ?opts"])
    fix x x' v v' assume "x' = x \<and> x \<in> set ?opts"
    then obtain cn pt where x: "x = (cn, pt)" "x' = (cn, pt)" and m: "(cn, pt) \<in> set ?opts" by (cases x) auto
    show "fd.steps R w w' v v'
        (case x of (cn, pt) \<Rightarrow> bind (case pt of None \<Rightarrow> ret (cn @ ''()'') | Some t \<Rightarrow> bind (gen_leaf t) (\<lambda>a. ret (cn @ ''('' @ a @ '')''))) (\<lambda>ctor.
           bind (fresh_emit ''uv'' (\<lambda>uv. ''    var '' @ uv @ '': '' @ uname @ '' = '' @ ctor @ '';'')) (\<lambda>uv.
           bind (fresh_emit ''ufv'' (\<lambda>fv. ''    var '' @ fv @ '': u64 = ufold_'' @ uname @ ''('' @ uv @ '');'')) add_term)))
        (case x' of (cn, pt) \<Rightarrow> bind (case pt of None \<Rightarrow> ret (cn @ ''()'') | Some t \<Rightarrow> bind (gen_leaf t) (\<lambda>a. ret (cn @ ''('' @ a @ '')''))) (\<lambda>ctor.
           bind (fresh_emit ''uv'' (\<lambda>uv. ''    var '' @ uv @ '': '' @ uname @ '' = '' @ ctor @ '';'')) (\<lambda>uv.
           bind (fresh_emit ''ufv'' (\<lambda>fv. ''    var '' @ fv @ '': u64 = ufold_'' @ uname @ ''('' @ uv @ '');'')) add_term))) (\<lambda>_ _. True)"
      unfolding x prod.case
      by (rule fd.s_bind [OF ctor [OF m]], rule fd_fresh_emit, simp, use assms(1) in simp, rule fd_fresh_emit_term) (use assms(1) in simp_all)
  qed (use assms(2) in \<open>simp_all add: list_all2_same\<close>)
  show ?thesis
    unfolding gen_union_value_def prod.case Let_def
    by (rule fd_randrange, simp, rule fd.s_for_same, rule one)
qed

lemma fd_union_body: "fd.steps R w w' s s' gen_union_body gen_union_body (\<lambda>_ _. True)"
proof (rule fd.s_pre)
  assume f: "folding R w w' s s'"
  have ok: "\<forall>(k, cs, e) \<in> set (gs_unions s). plain k \<and> cs \<noteq> [] \<and> list_all (\<lambda>(c, t). plain c \<and> t \<in> set INTS) cs \<and> (\<forall>c. e = Some c \<longrightarrow> plain c)"
    using foldingE(5) [OF f] by (simp add: rest_ok_def)
  show ?thesis
    unfolding gen_union_body_def
    by (rule fd.s_get_state, unfold folding_rest(6) [OF f], rule fd.s_for_same) (use ok in \<open>auto intro!: fd_union_value\<close>)
qed

lemma fd_conv_body: "fd.steps R w w' s s' gen_conv_body gen_conv_body (\<lambda>_ _. True)"
proof (rule fd.s_pre)
  assume f: "folding R w w' s s'"
  have ok: "t \<in> set SCALARS" if "gs_conv_w s = Some t" for t
    using foldingE(5) [OF f] that by (auto simp: rest_ok_def intro: scalar_subs)
  have body: "fd.steps R w w' u u'
      (bind (fresh ''cp'') (\<lambda>cp. bind (ty_lit t) (\<lambda>v. bind (emit (''    var '' @ cp @ '': '' @ t @ '' = '' @ v @ '';'')) (\<lambda>_.
         bind (fresh_emit ''wd'' (\<lambda>wd. ''    var '' @ wd @ '': Wconv = Wconv.from_mod('' @ cp @ '');'')) (\<lambda>wd.
         bind (fresh_emit ''rd'' (\<lambda>rd. ''    var '' @ rd @ '': '' @ t @ '' = '' @ wd @ ''.residue();'')) (\<lambda>rd.
         bind (lift_result (ty_fold t rd)) (\<lambda>f. bind (add_term f) (\<lambda>_.
         bind (fresh_emit ''wide'' (\<lambda>wide. ''    var '' @ wide @ '': u64 = u64.from('' @ cp @ '');'')) add_term))))))))
      (bind (fresh ''cp'') (\<lambda>cp. bind (ty_lit t) (\<lambda>v. bind (emit (''    var '' @ cp @ '': '' @ t @ '' = '' @ v @ '';'')) (\<lambda>_.
         bind (fresh_emit ''wd'' (\<lambda>wd. ''    var '' @ wd @ '': Wconv = Wconv.from_mod('' @ cp @ '');'')) (\<lambda>wd.
         bind (fresh_emit ''rd'' (\<lambda>rd. ''    var '' @ rd @ '': '' @ t @ '' = '' @ wd @ ''.residue();'')) (\<lambda>rd.
         bind (lift_result (ty_fold t rd)) (\<lambda>f. bind (add_term f) (\<lambda>_.
         bind (fresh_emit ''wide'' (\<lambda>wide. ''    var '' @ wide @ '': u64 = u64.from('' @ cp @ '');'')) add_term)))))))) (\<lambda>_ _. True)"
    if t: "t \<in> set SCALARS" for t u u'
    by (rule fd_fresh, simp, rule fd_lit [OF t], rule fd.s_bind [OF fd_emit], simp add: scalar_plain t, simp add: scalar_plain t,
        rule fd_fresh_emit, simp, simp, rule fd_fresh_emit, simp, simp add: scalar_plain t, rule fd_fold [OF t], assumption, assumption,
        rule fd.s_bind [OF fd_term], assumption, assumption, rule fd_fresh_emit_term) simp_all
  show ?thesis
    unfolding gen_conv_body_def
    by (rule fd.s_gets, unfold folding_rest(3) [OF f], cases "gs_conv_w s", simp_all only: option.case)
      (rule fd.s_ret, simp, rule body, erule ok)
qed

lemma fd_exprswitch_body: "fd.steps R w w' s s' gen_exprswitch_body gen_exprswitch_body (\<lambda>_ _. True)"
proof (rule fd.s_pre)
  assume f: "folding R w w' s s'"
  have eq: "gs_enums s' = gs_enums s" by (simp add: folding_tables [OF f])
  have ok: "plain e \<and> list_all plain vs" if "(e, vs) \<in> set (gs_enums s)" for e vs
    using folding_tables(12) [OF f] that by (auto simp: types_ok_def key_ok_def)
  have var: "fd.steps R w w' u u'
      (bind (fresh_emit ''eswc'' (\<lambda>cv. ''    var '' @ cv @ '': u64 = eswf_'' @ e @ ''('' @ x @ '');'')) (\<lambda>cv. bind (add_term cv) (\<lambda>_.
         bind (fresh_emit ''eswi'' (\<lambda>iv. ''    var '' @ iv @ '': u64 = switch '' @ x @ '' { '' @ switch_arms 13 vs @ '' };'')) add_term)))
      (bind (fresh_emit ''eswc'' (\<lambda>cv. ''    var '' @ cv @ '': u64 = eswf_'' @ e @ ''('' @ x' @ '');'')) (\<lambda>cv. bind (add_term cv) (\<lambda>_.
         bind (fresh_emit ''eswi'' (\<lambda>iv. ''    var '' @ iv @ '': u64 = switch '' @ x' @ '' { '' @ switch_arms 13 vs @ '' };'')) add_term))) (\<lambda>_ _. True)"
    if "plain x" "plain x'" "plain e \<and> list_all plain vs" for x x' e vs u u'
    using that switch_arms_plain [of vs 13]
    by (intro fd_fresh_emit fd.s_bind [OF fd_term] fd_fresh_emit_term) simp_all
  show ?thesis
    unfolding gen_exprswitch_body_def
  proof (rule fd.s_get_state, unfold eq, rule fd.s_for_same)
    fix p u u' assume mem: "p \<in> set (gs_enums s)"
    obtain e vs where p: "p = (e, vs)" by (cases p)
    have m: "plain e \<and> list_all plain vs" by (rule ok [OF mem [unfolded p]])
    show "fd.steps R w w' u u'
        (case p of (name, vs) \<Rightarrow> for_m (\<lambda>ev. bind (fresh_emit ''eswc'' (\<lambda>cv. ''    var '' @ cv @ '': u64 = eswf_'' @ name @ ''('' @ ev @ '');'')) (\<lambda>cv.
           bind (add_term cv) (\<lambda>_. bind (fresh_emit ''eswi'' (\<lambda>iv. ''    var '' @ iv @ '': u64 = switch '' @ ev @ '' { '' @ switch_arms 13 vs @ '' };'')) add_term))) (env_get s name))
        (case p of (name, vs) \<Rightarrow> for_m (\<lambda>ev. bind (fresh_emit ''eswc'' (\<lambda>cv. ''    var '' @ cv @ '': u64 = eswf_'' @ name @ ''('' @ ev @ '');'')) (\<lambda>cv.
           bind (add_term cv) (\<lambda>_. bind (fresh_emit ''eswi'' (\<lambda>iv. ''    var '' @ iv @ '': u64 = switch '' @ ev @ '' { '' @ switch_arms 13 vs @ '' };'')) add_term))) (env_get s' name))
        (\<lambda>_ _. True)"
      unfolding p prod.case by (rule fd_for_env [OF f], rule var [OF _ _ m])
  qed
qed

lemma fd_harness_folds:
  assumes "list_all2 pointer_rel ps ps'"
  shows "fd.steps R w w' s s' (harness_folds ps) (harness_folds ps') (\<lambda>_ _. True)"
proof -
  have scal: "set (INTS @ SATS @ WRAPS) \<subseteq> set SCALARS" using scalar_subs by auto
  show ?thesis
    unfolding harness_folds_def
    by (intro fd.s_bind [OF fd_fold_scalars [OF scal]] fd.s_bind [OF fd_fold_aggregates] fd.s_bind [OF fd_fold_open_enums] fd.s_bind [OF fd_fold_kernel_terms]
        fd.s_bind [OF fd_fold_pointers [OF assms]] fd.s_bind [OF fd_fold_result_fns] fd.s_bind [OF fd_fold_floats] fd.s_bind [OF fd_byteview_body]
        fd.s_bind [OF fd_slice_body] fd.s_bind [OF fd_union_body] fd.s_bind [OF fd_conv_body] fd.s_bind [OF fd_exprswitch_body]
        fd.s_bind [OF fd_fold_spk] fd.s_bind [OF fd_fold_result_array] fd_fold_enums)
qed

section \<open>Overlay observers\<close>

lemma fd_for_emit: "(\<And>k. k \<in> set ks \<Longrightarrow> plain (l k) \<and> plain (l' k)) \<Longrightarrow> fd.steps R w w' s s' (for_m (\<lambda>k. emit (l k)) ks) (for_m (\<lambda>k. emit (l' k)) ks) (\<lambda>_ _. True)"
  by (rule fd.s_for_same, rule fd_emit) auto

text \<open>Lines that only the variant prints.\<close>

lemma fd_emits_right:
  assumes "list_all plain ls" and "\<And>u'. fd.steps R w w' s u' m (k ()) Q"
  shows "fd.steps R w w' s s' m (bind (emits ls) k) Q"
proof (rule fd.s_pre)
  assume f: "folding R w w' s s'"
  have u: "folding R w w' s (s'\<lparr>gs_out := gs_out s' @ ls\<rparr>)"
    by (rule folding_update [OF f]) (use assms(1) foldingE [OF f] in \<open>auto simp: kept_def same_decls_def text_ok_def\<close>)
  with assms(2) [of "s'\<lparr>gs_out := gs_out s' @ ls\<rparr>"] show ?thesis
    by (auto simp: fd.steps_def bind_def emits_def modify_def)
qed

lemma emit_emits: "emit l = emits [l]"
  by (simp add: emit_def emits_def)

lemma for_emits: "for_m (\<lambda>k. emits [l k]) ks = emits (map l ks)"
  by (induction ks) (auto simp: emits_def bind_def modify_def ret_def fun_eq_iff)

lemma fd_overlay_observer:
  assumes "plain name" and "0 < wd"
  shows "fd.steps R w w' s s' (gen_overlay_observer (name, wd)) (gen_overlay_observer (name, wd)) (\<lambda>_ _. True)"
proof -
  have half: "0 < half_count wd" by (simp add: half_count_def)
  have pow: "1 < (2 :: nat) ^ min wd 32" using assms(2) by (intro one_less_power) auto
  have scalar: "fd.steps R w w' u u'
      (bind (if \<not> False then emit (''    var '' @ acc @ '': u64 = ('' @ vn @ ''.u as u64);'') else n) k)
      (bind (if \<not> mm' then emit (''    var '' @ acc' @ '': u64 = ('' @ vn' @ ''.u as u64);'')
        else bind (fresh ''ovrec'') (\<lambda>rcv. bind (emit (''    var '' @ rcv @ '': u64 = 0;'')) (\<lambda>_.
          bind (for_m (\<lambda>k. emit (''    '' @ rcv @ '' = ('' @ rcv @ '' | (('' @ vn' @ ''.bytes['' @ str_nat k @ ''] as u64) << '' @ str_nat (k * 8) @ ''));'')) [0..<wd div 8]) (\<lambda>_.
            emit (''    var '' @ acc' @ '': u64 = '' @ rcv @ '';''))))) k') Q"
    if p: "plain vn" "plain vn'" "plain acc" "plain acc'" and k: "\<And>u u'. fd.steps R w w' u u' (k ()) (k' ()) Q" for u u' vn vn' acc acc' mm' n k k' Q
  proof (cases mm')
    case False
    then show ?thesis using p k by (simp only: not_False_eq_True if_True) (rule fd.s_bind [OF fd_emit], simp_all)
  next
    case True
    then have mm: "mm' = True" by simp
    show ?thesis
      unfolding mm bind_assoc not_False_eq_True not_True_eq_False if_True if_False for_emits emit_emits
      by (rule fd_fresh_right, simp, rule fd_emits_right, simp, rule fd_emits_right, use p in \<open>simp add: list_all_iff\<close>, rule fd.s_bind [OF fd_emits])
        (use p k in simp_all)
  qed
  have halves: "fd.steps R w w' u u'
      (bind (if \<not> False then emit (''    '' @ acc @ '' = ('' @ acc @ '' ^ (('' @ vn @ ''.halves['' @ str_nat h @ ''] as u64) << 3));'') else n) k)
      (bind (if \<not> mm' then emit (''    '' @ acc' @ '' = ('' @ acc' @ '' ^ (('' @ vn' @ ''.halves['' @ str_nat h @ ''] as u64) << 3));'')
        else bind (fresh ''ovh'') (\<lambda>hv. emits [''    var '' @ hv @ '': u64 = ovhalf_'' @ name @ ''('' @ vn' @ '', '' @ str_nat h @ '');'',
          ''    '' @ acc' @ '' = ('' @ acc' @ '' ^ ('' @ hv @ '' << 3));''])) k') Q"
    if p: "plain vn" "plain vn'" "plain acc" "plain acc'" and k: "\<And>u u'. fd.steps R w w' u u' (k ()) (k' ()) Q" for u u' vn vn' acc acc' mm' n h k k' Q
  proof (cases mm')
    case False
    then show ?thesis using p k by (simp only: not_False_eq_True if_True) (rule fd.s_bind [OF fd_emit], simp_all)
  next
    case True
    then have mm: "mm' = True" by simp
    show ?thesis
      unfolding mm bind_assoc not_False_eq_True not_True_eq_False if_True if_False
      by (rule fd_fresh_right, simp, rule fd.s_bind [OF fd_emit_emits]) (use p k assms(1) in simp_all)
  qed
  show ?thesis
    unfolding gen_overlay_observer_def prod.case
    by (rule fd_mode, rule fd_fresh, simp, rule fd.s_bind [OF fd_emit], use assms(1) in simp, use assms(1) in simp, rule fd_randrange [OF pow],
        rule fd.s_bind [OF fd_emit], simp, simp, rule fd_fresh, simp, rule scalar, assumption, assumption, assumption, assumption,
        rule fd.s_bind [OF fd_for_emit], simp, rule fd.s_bind [OF fd_for_emit], simp, rule fd_randrange [OF half], rule fd_randrange, simp,
        rule fd.s_bind [OF fd_emit], simp, simp, rule halves, assumption, assumption, assumption, assumption, rule fd.s_bind [OF fd_emit],
        use assms(1) in simp, use assms(1) in simp, rule fd_kernel_term)
qed

lemma fd_overlay_observers:
  "\<forall>(k, wd) \<in> set ovs. plain k \<and> 0 < wd \<Longrightarrow> fd.steps R w w' s s' (for_m gen_overlay_observer ovs) (for_m gen_overlay_observer ovs) (\<lambda>_ _. True)"
  by (rule fd.s_for_same) (auto intro!: fd_overlay_observer)

end
