(* ===== verification/Mcfuzz_Gen_Decl.thy ===== *)
theory Mcfuzz_Gen_Decl
  imports Mcfuzz_Gen_Stmt
begin

text \<open>
  The declared types of a generated program: the tables stay well formed, every declared type is built from earlier
  ones, and the two runs of the generator declare the same types from the same draws.
\<close>

section \<open>Two runs from two states\<close>

definition both :: "'a gen \<Rightarrow> 'b gen \<Rightarrow> ('a \<Rightarrow> 'b \<Rightarrow> gen_state \<Rightarrow> gen_state \<Rightarrow> bool) \<Rightarrow> gen_state \<Rightarrow> gen_state \<Rightarrow> bool" where
  "both m m' J s s' \<longleftrightarrow> (\<exists>x x' u u'. m s = Inr (x, u) \<and> m' s' = Inr (x', u') \<and> J x x' u u')"

lemma both_ret: "J x x' s s' \<Longrightarrow> both (ret x) (ret x') J s s'"
  by (auto simp: both_def ret_def)

lemma both_bind: "both m m' (\<lambda>x x'. both (f x) (f' x') J) s s' \<Longrightarrow> both (bind m f) (bind m' f') J s s'"
  by (fastforce simp: both_def bind_def)

lemma both_mono: "both m m' J s s' \<Longrightarrow> (\<And>x x' u u'. J x x' u u' \<Longrightarrow> K x x' u u') \<Longrightarrow> both m m' K s s'"
  by (fastforce simp: both_def)

lemma both_modify: "J () () (f s) (f' s') \<Longrightarrow> both (modify f) (modify f') J s s'"
  by (auto simp: both_def modify_def)

lemma both_gets: "J (f s) (f' s') s s' \<Longrightarrow> both (gets f) (gets f') J s s'"
  by (auto simp: both_def gets_def)

lemma both_get_state: "J s s' s s' \<Longrightarrow> both get_state get_state J s s'"
  by (auto simp: get_state_def intro: both_gets)

lemma both_if: "b = b' \<Longrightarrow> (b \<Longrightarrow> both m m' J s s') \<Longrightarrow> (\<not> b \<Longrightarrow> both n n' J s s') \<Longrightarrow> both (if b then m else n) (if b' then m' else n') J s s'"
  by simp

lemma both_draw:
  assumes "lockstep s s' m m' P" and "tape s' = tape s" and "\<And>x x' t. P x x' \<Longrightarrow> J x x' (s\<lparr>tape := t\<rparr>) (s'\<lparr>tape := t\<rparr>)"
  shows "both m m' J s s'"
proof -
  obtain x x' t where "m (s\<lparr>tape := tape s\<rparr>) = Inr (x, s\<lparr>tape := t\<rparr>)" "m' (s'\<lparr>tape := tape s\<rparr>) = Inr (x', s'\<lparr>tape := t\<rparr>)" "P x x'"
    using assms(1) unfolding lockstep_def by blast
  moreover have "s\<lparr>tape := tape s\<rparr> = s" "s'\<lparr>tape := tape s\<rparr> = s'" using assms(2) [symmetric] by simp_all
  ultimately show ?thesis using assms(3) by (auto simp: both_def)
qed

lemma both_for:
  assumes "I 0 s s'" and "\<And>i u u'. i < n \<Longrightarrow> I i u u' \<Longrightarrow> both (f i) (f' i) (\<lambda>_ _. I (Suc i)) u u'" and "\<And>u u'. I n u u' \<Longrightarrow> J () () u u'"
  shows "both (for_m f [0..<n]) (for_m f' [0..<n]) J s s'"
proof -
  have "k \<le> n \<Longrightarrow> I k u u' \<Longrightarrow> both (for_m f [k..<n]) (for_m f' [k..<n]) (\<lambda>_ _. I n) u u'" for k u u'
  proof (induction "n - k" arbitrary: k u u')
    case 0
    then show ?case by (simp add: both_ret)
  next
    case (Suc m)
    then have k: "k < n" "m = n - Suc k" by auto
    then have step: "[k..<n] = k # [Suc k..<n]" by (simp add: upt_conv_Cons)
    show ?case
      unfolding step for_m.simps
      by (rule both_bind, rule both_mono [OF assms(2) [OF k(1) Suc.prems(2)]], rule Suc.hyps(1) [OF k(2)]) (use k in simp_all)
  qed
  from this [OF le0 assms(1)] show ?thesis by (rule both_mono) (use assms(3) in auto)
qed

lemma both_repeat:
  assumes "I [] s s'" and "\<And>xs u u'. I xs u u' \<Longrightarrow> both m m' (\<lambda>x x' v v'. x' = x \<and> I (x # xs) v v') u u'"
    and "\<And>xs u u'. I (rev xs) u u' \<Longrightarrow> J xs xs u u'"
  shows "both (repeat_m n m) (repeat_m n m') J s s'"
proof -
  have "I ys u u' \<Longrightarrow> both (repeat_m n m) (repeat_m n m') (\<lambda>xs xs' v v'. xs' = xs \<and> I (rev xs @ ys) v v') u u'" for ys u u'
  proof (induction n arbitrary: ys u u')
    case 0
    then show ?case by (simp add: both_ret)
  next
    case (Suc n)
    show ?case
      unfolding repeat_m.simps
      by (rule both_bind, rule both_mono [OF assms(2) [OF Suc.prems]], clarify, rule both_bind, erule both_mono [OF Suc.IH])
        (auto intro: both_ret)
  qed
  from this [OF assms(1)] show ?thesis by (rule both_mono) (use assms(3) in auto)
qed

lemma both_steps:
  assumes "st.steps n k d s s' m m' P" and "twins n k d s s'"
    and "\<And>x x' u u'. P x x' \<Longrightarrow> twins n k d u u' \<Longrightarrow> grows s u \<Longrightarrow> J x x' u u'"
  shows "both m m' J s s'"
  by (rule st.stepsE [OF assms(1,2)]) (use assms(3) in \<open>auto simp: both_def\<close>)

section \<open>Growing tables\<close>

definition comp_at :: "gen_state \<Rightarrow> nat \<Rightarrow> string \<Rightarrow> bool" where
  "comp_at s n t \<longleftrightarrow> comp_ok (gs_structs s) (gs_arrays s) (gs_open_enums s) n t"

lemma is_comp_at: "is_comp s t \<longleftrightarrow> comp_at s 7 t"
  by (simp add: is_comp_def comp_at_def comp_bound_def)

lemma comp_at_mono: "comp_at s n t \<Longrightarrow> n \<le> m \<Longrightarrow> comp_at s m t"
  unfolding comp_at_def by (rule comp_ok_mono)

definition extends :: "gen_state \<Rightarrow> gen_state \<Rightarrow> bool" where
  "extends s u \<longleftrightarrow>
     (\<forall>k v. map_of (gs_structs s) k = Some v \<longrightarrow> map_of (gs_structs u) k = Some v) \<and>
     (\<forall>k v. map_of (gs_arrays s) k = Some v \<longrightarrow> map_of (gs_arrays u) k = Some v) \<and>
     (\<forall>k. map_of (gs_open_enums s) k \<noteq> None \<longrightarrow> map_of (gs_open_enums u) k \<noteq> None)"

definition heads_ok :: "gen_state \<Rightarrow> bool" where
  "heads_ok s \<longleftrightarrow> (\<forall>k \<in> fst ` set (gs_structs s). key_ok (CHR ''S'') k) \<and> (\<forall>k \<in> fst ` set (gs_arrays s). key_ok (CHR ''['') k) \<and>
     (\<forall>k \<in> fst ` set (gs_open_enums s). key_ok (CHR ''O'') k)"

lemma types_heads: "types_ok s \<Longrightarrow> heads_ok s"
  by (auto simp: types_ok_def heads_ok_def)

lemma headed_unique: "headed c k \<Longrightarrow> headed c' k \<Longrightarrow> c = c'"
  by (auto simp: headed_def)

lemma heads_lookup:
  assumes "heads_ok s"
  shows "headed c k \<Longrightarrow> c \<noteq> CHR ''S'' \<Longrightarrow> map_of (gs_structs s) k = None"
    and "headed c k \<Longrightarrow> c \<noteq> CHR ''['' \<Longrightarrow> map_of (gs_arrays s) k = None"
    and "k \<in> set SCALARS \<Longrightarrow> map_of (gs_structs s) k = None \<and> map_of (gs_arrays s) k = None"
  using assms not_headed [of k "CHR ''S''"] not_headed [of k "CHR ''[''"]
  by (auto simp: map_of_eq_None_iff heads_ok_def key_ok_def dest: headed_unique)

lemma comp_at_extends:
  assumes "heads_ok s" and "heads_ok u" and "extends s u"
  shows "comp_at s n t \<Longrightarrow> comp_at u n t"
  unfolding comp_at_def
proof (induction n arbitrary: t)
  case (Suc n)
  note E = assms(3) [unfolded extends_def]
  consider (st) fs where "map_of (gs_structs s) t = Some fs" | (ar) e len where "map_of (gs_structs s) t = None" "map_of (gs_arrays s) t = Some (e, len)"
    | (oe) "map_of (gs_structs s) t = None" "map_of (gs_arrays s) t = None" "map_of (gs_open_enums s) t \<noteq> None" | (sc) "t \<in> set SCALARS"
    using Suc.prems by (fastforce simp: comp_ok.simps split: option.splits)
  then show ?case
  proof cases
    case st
    then show ?thesis using Suc E by (auto simp: comp_ok.simps list_all_iff)
  next
    case ar
    then have "headed (CHR ''['') t" using assms(1) by (force simp: heads_ok_def key_ok_def dest: map_of_SomeD)
    then have "map_of (gs_structs u) t = None" by (rule heads_lookup(1) [OF assms(2)]) simp
    then show ?thesis using ar Suc E by (auto simp: comp_ok.simps)
  next
    case oe
    then have "t \<in> fst ` set (gs_open_enums s)" by (simp add: map_of_eq_None_iff)
    then have "headed (CHR ''O'') t" using assms(1) by (auto simp: heads_ok_def key_ok_def)
    then have "map_of (gs_structs u) t = None" "map_of (gs_arrays u) t = None" using heads_lookup(1,2) [OF assms(2)] by auto
    then show ?thesis using oe E by (auto simp: comp_ok.simps)
  next
    case sc
    then show ?thesis using heads_lookup(3) [OF assms(2) sc] by (simp add: comp_ok.simps)
  qed
qed (simp add: comp_ok.simps)

text \<open>What the declarations of types leave alone.\<close>

definition outer where
  "outer s = (gs_env s, gs_nvars s, gs_depth s, gs_immutable s, gs_terms s, gs_kernel_terms s, gs_out s, gs_decls s, gs_metamorph s, tape s)"

abbreviation pair :: "gen_state \<Rightarrow> gen_state \<Rightarrow> bool" where
  "pair \<equiv> twins 0 0 0"

lemma rest_ok_extends:
  assumes "rest_ok s" and "rest u = rest s" and "\<And>t. is_comp s t \<Longrightarrow> is_comp u t"
  shows "rest_ok u"
  using assms by (auto simp: rest_ok_def rest_def)

lemma pair_tables:
  assumes "pair s s'" and "types_ok u" and "extends s u" and "shape u' = shape u" and "rest u = rest s" and "rest u' = rest s'"
    and "outer u = outer s" and "outer u' = outer s'"
  shows "pair u u'"
proof -
  note T = twinsE [OF assms(1)]
  have ty: "types_ok s" using T(1) by (simp add: alike_def)
  have comp: "is_comp u t" if "is_comp s t" for t
    using that comp_at_extends [OF types_heads [OF ty] types_heads [OF assms(2)] assms(3)] by (simp add: is_comp_at)
  have env: "env_get u = env_get s" "env_get u' = env_get s'" using assms(7,8) by (auto simp: outer_def env_get_def fun_eq_iff)
  have "alike (renamed 0 0) u u'" using T(1) assms(2,4) by (simp add: alike_def env)
  moreover have "rest_ok u" by (rule rest_ok_extends [OF T(3) assms(5) comp])
  moreover have "same_decls u u'" "text_ok u" "text_ok u'" "bounded u"
    using T(9-12) assms(7,8) by (simp_all add: same_decls_def text_ok_def bounded_def outer_def env)
  ultimately show ?thesis
    using assms(1,5-) unfolding twins_def by (simp add: outer_def)
qed

lemma set_dict_set: "set (dict_set d k v) \<subseteq> insert (k, v) (set d)"
  by (induction d) auto

lemma types_extend:
  assumes "types_ok s" and "heads_ok u" and "extends s u"
    and "\<And>k fs. (k, fs) \<in> set (gs_structs u) \<Longrightarrow> (k, fs) \<in> set (gs_structs s) \<or> is_comp u k \<and> list_all (\<lambda>(f, t). plain f) fs"
    and "\<And>k e len. (k, e, len) \<in> set (gs_arrays u) \<Longrightarrow> (k, e, len) \<in> set (gs_arrays s) \<or> is_comp u k \<and> 0 < len"
    and "\<And>k vs. (k, vs) \<in> set (gs_open_enums u) \<Longrightarrow> (k, vs) \<in> set (gs_open_enums s) \<or> vs \<noteq> [] \<and> list_all plain vs"
    and "\<And>k vs. (k, vs) \<in> set (gs_enums u) \<Longrightarrow> (k, vs) \<in> set (gs_enums s) \<or> key_ok (CHR ''E'') k \<and> vs \<noteq> [] \<and> list_all plain vs"
    and "\<And>k ets. (k, ets) \<in> set (gs_tuples u) \<Longrightarrow> (k, ets) \<in> set (gs_tuples s) \<or> key_ok (CHR ''('') k \<and> list_all (is_comp u) ets"
    and "\<And>k v. (k, v) \<in> set (gs_aliases u) \<Longrightarrow> (k, v) \<in> set (gs_aliases s) \<or> key_ok (CHR ''A'') k \<and> v \<in> set INTS"
    and "\<And>f ps r. (f, ps, r) \<in> set (gs_functions u) \<Longrightarrow> (f, ps, r) \<in> set (gs_functions s) \<or> plain f \<and> list_all (\<lambda>(p, t). t \<in> set SCALARS) ps"
  shows "types_ok u"
proof -
  have comp: "is_comp u t" if "is_comp s t" for t
    using that comp_at_extends [OF types_heads [OF assms(1)] assms(2,3)] by (simp add: is_comp_at)
  note T = assms(1) [unfolded types_ok_def]
  have all: "list_all (is_comp s) ets \<Longrightarrow> list_all (is_comp u) ets" for ets by (auto simp: list_all_iff comp)
  have "\<forall>(k, fs) \<in> set (gs_structs u). key_ok (CHR ''S'') k \<and> is_comp u k \<and> list_all (\<lambda>(f, t). plain f) fs" using assms(2,4) T comp by (fastforce simp: heads_ok_def)
  moreover have "\<forall>(k, e, len) \<in> set (gs_arrays u). key_ok (CHR ''['') k \<and> is_comp u k \<and> 0 < len" using assms(2,5) T comp by (fastforce simp: heads_ok_def)
  moreover have "\<forall>(k, vs) \<in> set (gs_open_enums u). key_ok (CHR ''O'') k \<and> vs \<noteq> [] \<and> list_all plain vs" using assms(2,6) T by (fastforce simp: heads_ok_def)
  moreover have "\<forall>(k, vs) \<in> set (gs_enums u). key_ok (CHR ''E'') k \<and> vs \<noteq> [] \<and> list_all plain vs" using assms(7) T by fast
  moreover have "\<forall>(k, ets) \<in> set (gs_tuples u). key_ok (CHR ''('') k \<and> list_all (is_comp u) ets" using assms(8) T all by fast
  moreover have "\<forall>(k, v) \<in> set (gs_aliases u). key_ok (CHR ''A'') k \<and> v \<in> set INTS" using assms(9) T by fast
  moreover have "\<forall>(f, ps, r) \<in> set (gs_functions u). plain f \<and> list_all (\<lambda>(p, t). t \<in> set SCALARS) ps" using assms(10) T by fast
  ultimately show ?thesis unfolding types_ok_def by blast
qed

lemma extends_refl: "gs_structs u = gs_structs s \<Longrightarrow> gs_arrays u = gs_arrays s \<Longrightarrow> gs_open_enums u = gs_open_enums s \<Longrightarrow> extends s u"
  by (simp add: extends_def)

section \<open>Arrays\<close>

lemma array_key_inject: "array_key m e = array_key n f \<longleftrightarrow> m = n \<and> e = f"
proof
  assume eq: "array_key m e = array_key n f"
  have digits: "takeWhile is_digit (str_nat m @ CHR '']'' # e) = str_nat m" for m e
    using str_nat_digits [of _ m] by (subst takeWhile_append2) (auto simp: is_digit_def)
  have "str_nat m @ CHR '']'' # e = str_nat n @ CHR '']'' # f" using eq by (simp add: array_key_def)
  with digits [of m e] digits [of n f] have "str_nat m = str_nat n" by simp
  with eq show "m = n \<and> e = f" by (simp add: array_key_def)
qed simp

text \<open>Types are declared in an order: arrays of depth \<open>a\<close>, then \<open>j\<close> structs.\<close>

definition arrays_at :: "nat \<Rightarrow> gen_state \<Rightarrow> bool" where
  "arrays_at a s \<longleftrightarrow> (\<forall>(k, e, len) \<in> set (gs_arrays s). k = array_key len e \<and> comp_at s a k)"

definition structs_at :: "nat \<Rightarrow> gen_state \<Rightarrow> bool" where
  "structs_at j s \<longleftrightarrow> map fst (gs_structs s) = names_upto ''S'' j \<and> (\<forall>k \<in> fst ` set (gs_structs s). comp_at s (3 + j) k)"

definition declaring :: "nat \<Rightarrow> nat \<Rightarrow> gen_state \<Rightarrow> gen_state \<Rightarrow> bool" where
  "declaring a j s s' \<longleftrightarrow> pair s s' \<and> arrays_at a s \<and> structs_at j s"

lemma pairE:
  assumes "pair s s'"
  shows "shape s' = shape s" "types_ok s" "tape s' = tape s" "heads_ok s"
  using twinsE(1,4) [OF assms] types_heads by (auto simp: alike_def)

lemma pair_tape: "pair s s' \<Longrightarrow> pair (s\<lparr>tape := t\<rparr>) (s'\<lparr>tape := t\<rparr>)"
  using st.draw by blast

lemma comp_at_tape [simp]: "comp_at (s\<lparr>tape := t\<rparr>) n ty = comp_at s n ty"
  by (simp add: comp_at_def)

lemma declaring_tape: "declaring a j s s' \<Longrightarrow> declaring a j (s\<lparr>tape := t\<rparr>) (s'\<lparr>tape := t\<rparr>)"
  by (auto simp: declaring_def arrays_at_def structs_at_def pair_tape)

lemma declaring_mono: "declaring a j s s' \<Longrightarrow> a \<le> b \<Longrightarrow> declaring b j s s'"
  by (fastforce simp: declaring_def arrays_at_def intro: comp_at_mono)

lemma array_key_ok: "plain e \<Longrightarrow> key_ok (CHR ''['') (array_key len e)"
  by (simp add: key_ok_def headed_def array_key_def)

definition with_array :: "nat \<Rightarrow> string \<Rightarrow> gen_state \<Rightarrow> gen_state" where
  "with_array len e s = s\<lparr>gs_arrays := dict_set (gs_arrays s) (array_key len e) (e, len)\<rparr>"

lemma with_array:
  assumes d: "declaring a j s s'" and e: "comp_at s r e" "plain e" and len: "0 < len" and b: "a \<le> b" "Suc r \<le> b" "b \<le> 7"
  shows "declaring b j (with_array len e s) (with_array len e s') \<and> extends s (with_array len e s) \<and> comp_at (with_array len e s) (Suc r) (array_key len e)"
proof -
  let ?u = "with_array len e s" and ?k = "array_key len e"
  have p: "pair s s'" and ar: "arrays_at a s" and sa: "structs_at j s" using d by (auto simp: declaring_def)
  note P = pairE [OF p]
  have look: "map_of (gs_arrays ?u) = (map_of (gs_arrays s))(?k \<mapsto> (e, len))" by (simp add: with_array_def AList.update_conv')
  have same: "v = (e, len)" if "map_of (gs_arrays s) ?k = Some v" for v
    using map_of_SomeD [OF that] ar by (cases v) (auto simp: arrays_at_def array_key_inject)
  have ext: "extends s ?u" using same by (auto simp: extends_def look) (simp_all add: with_array_def)
  have heads: "heads_ok ?u"
    using P(4) set_dict_set [where d = "gs_arrays s" and k = ?k and v = "(e, len)"] array_key_ok [OF e(2), of len]
    by (fastforce simp: heads_ok_def with_array_def)
  note comp = comp_at_extends [OF P(4) heads ext]
  have key: "comp_at ?u (Suc r) ?k"
    using comp [OF e(1)] heads_lookup(1) [OF heads, of "CHR ''[''" ?k] array_key_ok [OF e(2), of len] len look
    by (simp add: comp_at_def comp_ok.simps key_ok_def)
  have new: "(k, e', len') = (?k, e, len) \<or> (k, e', len') \<in> set (gs_arrays s)" if "(k, e', len') \<in> set (gs_arrays ?u)" for k e' len'
    using that set_dict_set [where d = "gs_arrays s" and k = ?k and v = "(e, len)"] by (auto simp: with_array_def)
  have types: "types_ok ?u"
    by (rule types_extend [OF P(2) heads ext])
      (use comp_at_mono [OF key, of 7] b len in \<open>auto simp: is_comp_at dest!: new, simp_all add: with_array_def\<close>)
  have "pair ?u (with_array len e s')"
    by (rule pair_tables [OF p types ext]) (use P(1) in \<open>simp_all add: with_array_def shape_def rest_def outer_def\<close>)
  moreover have "arrays_at b ?u"
    using ar comp comp_at_mono [OF key b(2)] b(1) by (fastforce simp: arrays_at_def dest!: new intro: comp_at_mono)
  moreover have "structs_at j ?u"
    using sa comp by (auto simp: structs_at_def with_array_def)
  ultimately show ?thesis using ext key by (simp add: declaring_def)
qed

lemma both_add_array:
  assumes "declaring a j s s'" and "comp_at s r e" and "plain e" and "0 < len" and "a \<le> b" "Suc r \<le> b" "b \<le> 7"
    and "\<And>u u'. declaring b j u u' \<Longrightarrow> extends s u \<Longrightarrow> comp_at u (Suc r) (array_key len e) \<Longrightarrow> J () () u u'"
  shows "both (add_array len e) (add_array len e) J s s'"
  unfolding add_array_def by (rule both_modify) (use with_array [OF assms(1-7)] assms(8) in \<open>simp add: with_array_def\<close>)

lemma extends_comp: "declaring a j s s' \<Longrightarrow> declaring b i u u' \<Longrightarrow> extends s u \<Longrightarrow> comp_at s n t \<Longrightarrow> comp_at u n t"
  by (rule comp_at_extends [of s u]) (auto simp: declaring_def dest: pairE(4))

lemma declaring_scalar: "declaring a j s s' \<Longrightarrow> t \<in> set SCALARS \<Longrightarrow> 0 < n \<Longrightarrow> comp_at s n t"
  using heads_lookup(3) [of s t] pairE(4) [of s s'] by (cases n) (auto simp: declaring_def comp_at_def comp_ok.simps)

lemma both_pick:
  assumes "pair s s'" and "xs \<noteq> []" and "\<And>x t. x \<in> set xs \<Longrightarrow> J x x (s\<lparr>tape := t\<rparr>) (s'\<lparr>tape := t\<rparr>)"
  shows "both (choice xs) (choice xs) J s s'"
  by (rule both_draw [OF lock_pick [OF assms(2)] pairE(3) [OF assms(1)]]) (use assms(3) in auto)

lemma both_randrange:
  assumes "pair s s'" and "lo < hi" and "\<And>i t. lo \<le> i \<Longrightarrow> i < hi \<Longrightarrow> J i i (s\<lparr>tape := t\<rparr>) (s'\<lparr>tape := t\<rparr>)"
  shows "both (randrange lo hi) (randrange lo hi) J s s'"
  by (rule both_draw [OF lock_randrange [OF assms(2)] pairE(3) [OF assms(1)]]) (use assms(3) in auto)

lemma draw_pick:
  assumes "pair s s'" and "xs \<noteq> []" and "\<And>x t. x \<in> set xs \<Longrightarrow> both (f x) (f' x) J (s\<lparr>tape := t\<rparr>) (s'\<lparr>tape := t\<rparr>)"
  shows "both (bind (choice xs) f) (bind (choice xs) f') J s s'"
  by (rule both_bind, rule both_pick [OF assms(1,2)]) (rule assms(3))

lemma seq_range:
  assumes "pair s s'" and "lo < hi" and "\<And>i t. lo \<le> i \<Longrightarrow> i < hi \<Longrightarrow> both (f i) (f' i) J (s\<lparr>tape := t\<rparr>) (s'\<lparr>tape := t\<rparr>)"
  shows "both (bind (randrange lo hi) f) (bind (randrange lo hi) f') J s s'"
  by (rule both_bind, rule both_randrange [OF assms(1,2)]) (rule assms(3))

lemma seq_map_pick:
  assumes "pair s s'" and "xs \<noteq> []" and "\<And>ys t. list_all2 (\<lambda>k y. \<exists>x \<in> set xs. y = g k x) ks ys \<Longrightarrow> both (f ys) (f' ys) J (s\<lparr>tape := t\<rparr>) (s'\<lparr>tape := t\<rparr>)"
  shows "both (bind (map_m (\<lambda>k. bind (choice xs) (\<lambda>x. ret (g k x))) ks) f) (bind (map_m (\<lambda>k. bind (choice xs) (\<lambda>x. ret (g k x))) ks) f') J s s'"
proof -
  have lock: "lockstep s s' (map_m (\<lambda>k. bind (choice xs) (\<lambda>x. ret (g k x))) ks) (map_m (\<lambda>k. bind (choice xs) (\<lambda>x. ret (g k x))) ks)
      (\<lambda>ys ys'. ys' = ys \<and> list_all2 (\<lambda>k y. \<exists>x \<in> set xs. y = g k x) ks ys)"
  proof (induction ks)
    case (Cons k ks)
    show ?case
      unfolding map_m.simps
      by (rule lock_bind, rule lock_bind [OF lock_pick [OF assms(2)]], rule lock_ret [where P = "\<lambda>y y'. y' = y \<and> (\<exists>x \<in> set xs. y = g k x)"])
        (auto intro!: lock_bind [OF Cons.IH] lock_ret)
  qed (simp add: lock_ret)
  show ?thesis by (rule both_bind, rule both_draw [OF lock pairE(3) [OF assms(1)]]) (use assms(3) in auto)
qed

lemma both_loop:
  assumes "pair s s'" and "a < b" and "\<And>t. I 0 (s\<lparr>tape := t\<rparr>) (s'\<lparr>tape := t\<rparr>)"
    and "\<And>i u u'. i < b - 1 \<Longrightarrow> I i u u' \<Longrightarrow> both (f i) (f' i) (\<lambda>_ _. I (Suc i)) u u'"
    and "\<And>n u u'. a \<le> n \<Longrightarrow> n < b \<Longrightarrow> I n u u' \<Longrightarrow> J () () u u'"
  shows "both (loop_n a b f) (loop_n a b f') J s s'"
  unfolding loop_n_def
  by (rule both_bind, rule both_randrange [OF assms(1,2)], rule both_for [where I = I]) (use assms(3-5) in auto)

lemma declaring_pair: "declaring a j s s' \<Longrightarrow> pair s s'"
  by (simp add: declaring_def)

text \<open>The names of types declared so far, in a list with their depth.\<close>

definition listed :: "gen_state \<Rightarrow> nat \<Rightarrow> string list \<Rightarrow> bool" where
  "listed s n xs \<longleftrightarrow> list_all (\<lambda>x. plain x \<and> comp_at s n x) xs"

lemma listed_tape [simp]: "listed (s\<lparr>tape := t\<rparr>) n xs = listed s n xs"
  by (simp add: listed_def)

lemma listed_extends: "declaring a j s s' \<Longrightarrow> declaring b i u u' \<Longrightarrow> extends s u \<Longrightarrow> listed s n xs \<Longrightarrow> listed u n xs"
  by (auto simp: listed_def list_all_iff extends_comp)

text \<open>Declaring one array of a drawn element type and length.\<close>

lemma both_new_array:
  assumes d: "declaring a j s s'" and xs: "xs \<noteq> []" "listed s r xs" and len: "0 < lo" "lo < hi" and b: "a \<le> b" "Suc r \<le> b" "b \<le> 7"
    and J: "\<And>e n u u'. declaring b j u u' \<Longrightarrow> extends s u \<Longrightarrow> listed u (Suc r) [array_key n e] \<Longrightarrow> both (k n e) (k n e) J u u'"
  shows "both (bind (choice xs) (\<lambda>e. bind (randrange lo hi) (\<lambda>n. bind (add_array n e) (\<lambda>_. k n e))))
    (bind (choice xs) (\<lambda>e. bind (randrange lo hi) (\<lambda>n. bind (add_array n e) (\<lambda>_. k n e)))) J s s'"
proof (rule draw_pick [OF declaring_pair [OF d] xs(1)], rule seq_range [OF pair_tape [OF declaring_pair [OF d]] len(2)], rule both_bind)
  fix e t n t' assume e: "e \<in> set xs" and n: "lo \<le> n"
  let ?s = "s\<lparr>tape := t, tape := t'\<rparr>" and ?s' = "s'\<lparr>tape := t, tape := t'\<rparr>"
  have ok: "comp_at ?s r e" "plain e" using e xs(2) by (auto simp: listed_def list_all_iff)
  show "both (add_array n e) (add_array n e) (\<lambda>x x'. both (k n e) (k n e) J) ?s ?s'"
  proof (rule both_add_array [OF declaring_tape [OF declaring_tape [OF d]] ok _ b])
    fix u u' assume u: "declaring b j u u'" "extends ?s u" "comp_at u (Suc r) (array_key n e)"
    have "listed u (Suc r) [array_key n e]" using u(3) ok(2) by (simp add: listed_def array_key_def)
    moreover have "extends s u" using u(2) by (simp add: extends_def)
    ultimately show "both (k n e) (k n e) J u u'" by (intro J u(1))
  qed (use n len in simp)
qed

lemma both_new_array_last:
  assumes "declaring a j s s'" and "xs \<noteq> []" "listed s r xs" and "0 < lo" "lo < hi" and "a \<le> b" "Suc r \<le> b" "b \<le> 7"
    and "\<And>u u'. declaring b j u u' \<Longrightarrow> extends s u \<Longrightarrow> J () () u u'"
  shows "both (bind (choice xs) (\<lambda>e. bind (randrange lo hi) (\<lambda>n. add_array n e))) (bind (choice xs) (\<lambda>e. bind (randrange lo hi) (\<lambda>n. add_array n e))) J s s'"
proof -
  have "both (bind (choice xs) (\<lambda>e. bind (randrange lo hi) (\<lambda>n. bind (add_array n e) (\<lambda>_. ret ()))))
      (bind (choice xs) (\<lambda>e. bind (randrange lo hi) (\<lambda>n. bind (add_array n e) (\<lambda>_. ret ())))) J s s'"
    by (rule both_new_array [OF assms(1-8)]) (auto intro: both_ret assms(9))
  then show ?thesis by simp
qed

lemma listed_scalars: "declaring a j s s' \<Longrightarrow> set xs \<subseteq> set SCALARS \<Longrightarrow> 0 < n \<Longrightarrow> listed s n xs"
  by (auto simp: listed_def list_all_iff scalar_plain declaring_scalar)

lemma both_declare_arrays:
  assumes d: "declaring 2 0 s s'"
    and J: "\<And>xs u u'. declaring 2 0 u u' \<Longrightarrow> listed u 2 xs \<Longrightarrow> J xs xs u u'"
  shows "both declare_arrays declare_arrays J s s'"
proof -
  have one: "both (bind (choice INTS) (\<lambda>elem. bind (randrange 2 6) (\<lambda>len. bind (add_array len elem) (\<lambda>_. ret (array_key len elem)))))
      (bind (choice INTS) (\<lambda>elem. bind (randrange 2 6) (\<lambda>len. bind (add_array len elem) (\<lambda>_. ret (array_key len elem)))))
      (\<lambda>x x' v v'. x' = x \<and> declaring 2 0 v v' \<and> listed v 2 (x # xs)) u u'"
    if u: "declaring 2 0 u u'" "listed u 2 xs" for u u' xs
    by (rule both_new_array [OF u(1) _ listed_scalars [OF u(1), of _ 1], where b = 2])
      (use scalar_subs(2) listed_extends [OF u(1) _ _ u(2)] in \<open>auto simp: numeral_2_eq_2 listed_def intro!: both_ret\<close>)
  show ?thesis
    unfolding declare_arrays_def
    by (rule seq_range [OF declaring_pair [OF d]], simp, rule both_repeat [where I = "\<lambda>xs u u'. declaring 2 0 u u' \<and> listed u 2 xs"])
      (use one J declaring_tape [OF d] in \<open>auto simp: listed_def\<close>)
qed

lemma both_declare_nested:
  assumes d: "declaring 2 0 s s'" and xs: "listed s 2 xs"
    and J: "\<And>u u'. declaring 3 0 u u' \<Longrightarrow> J () () u u'"
  shows "both (declare_nested xs) (declare_nested xs) J s s'"
proof -
  have one: "both (if xs = [] then ret () else bind (choice xs) (\<lambda>inner. bind (randrange 2 4) (\<lambda>len. add_array len inner)))
      (if xs = [] then ret () else bind (choice xs) (\<lambda>inner. bind (randrange 2 4) (\<lambda>len. add_array len inner)))
      (\<lambda>_ _ v v'. declaring 3 0 v v' \<and> listed v 2 xs) u u'"
    if u: "declaring 3 0 u u' \<and> listed u 2 xs" for u u'
  proof (rule both_if, simp, rule both_ret, rule u)
    assume "xs \<noteq> []"
    then show "both (bind (choice xs) (\<lambda>inner. bind (randrange 2 4) (\<lambda>len. add_array len inner))) (bind (choice xs) (\<lambda>inner. bind (randrange 2 4) (\<lambda>len. add_array len inner)))
        (\<lambda>_ _ v v'. declaring 3 0 v v' \<and> listed v 2 xs) u u'"
      using u by (intro both_new_array_last [OF conjunct1 [OF u] _ conjunct2 [OF u], where b = 3]) (auto intro: listed_extends)
  qed
  show ?thesis
    unfolding declare_nested_def
    by (rule seq_range [OF declaring_pair [OF d]], simp, rule both_for [where I = "\<lambda>_ u u'. declaring 3 0 u u' \<and> listed u 2 xs"])
      (use one J declaring_mono [OF declaring_tape [OF d], of 3] xs in auto)
qed

section \<open>Open enums and structs\<close>

lemma both_declare_text:
  assumes "pair s s'" and "plain l" and "\<not> overlay_helper l"
    and "\<And>ls ls'. pair (s\<lparr>gs_decls := ls\<rparr>) (s'\<lparr>gs_decls := ls'\<rparr>) \<Longrightarrow> J () () (s\<lparr>gs_decls := ls\<rparr>) (s'\<lparr>gs_decls := ls'\<rparr>)"
  shows "both (declare_text l) (declare_text l) J s s'"
proof -
  have "pair (s\<lparr>gs_decls := gs_decls s @ [l]\<rparr>) (s'\<lparr>gs_decls := gs_decls s' @ [l]\<rparr>)"
    by (rule twins_update [OF assms(1)]) (use assms(2,3) twinsE [OF assms(1)] in \<open>auto simp: same_decls_def text_ok_def bounded_def\<close>)
  from assms(4) [OF this] show ?thesis unfolding declare_text_def by (rule both_modify)
qed

lemma comp_at_decls [simp]: "comp_at (s\<lparr>gs_decls := ls\<rparr>) n t = comp_at s n t"
  by (simp add: comp_at_def)

lemma listed_decls [simp]: "listed (s\<lparr>gs_decls := ls\<rparr>) n xs = listed s n xs"
  by (simp add: listed_def)

lemma declaring_decls: "declaring a j s s' \<Longrightarrow> pair (s\<lparr>gs_decls := ls\<rparr>) (s'\<lparr>gs_decls := ls'\<rparr>) \<Longrightarrow> declaring a j (s\<lparr>gs_decls := ls\<rparr>) (s'\<lparr>gs_decls := ls'\<rparr>)"
  by (auto simp: declaring_def arrays_at_def structs_at_def)

lemma names_upto_plain: "plain p \<Longrightarrow> list_all plain (names_upto p n)"
  by (simp add: names_upto_def list_all_iff)

lemma listed_tables:
  assumes "declaring a j s s'"
  shows "listed s a (map fst (gs_arrays s))" "listed s (3 + j) (map fst (gs_structs s))" "0 < n \<Longrightarrow> listed s n (map fst (gs_open_enums s))"
proof -
  have h: "heads_ok s" and ar: "arrays_at a s" and st: "structs_at j s" using assms pairE(4) by (auto simp: declaring_def)
  show "listed s a (map fst (gs_arrays s))" "listed s (3 + j) (map fst (gs_structs s))"
    using h ar conjunct2 [OF st [unfolded structs_at_def]] by (auto simp: listed_def list_all_iff heads_ok_def key_ok_def arrays_at_def)
  have "comp_at s n k" if k: "k \<in> fst ` set (gs_open_enums s)" and n: "0 < n" for k
  proof -
    have "headed (CHR ''O'') k" using h k unfolding heads_ok_def key_ok_def by blast
    then have "map_of (gs_structs s) k = None" "map_of (gs_arrays s) k = None" using heads_lookup(1,2) [OF h] by simp_all
    moreover have "map_of (gs_open_enums s) k \<noteq> None" using k by (simp add: map_of_eq_None_iff)
    ultimately show ?thesis using n by (cases n) (simp_all add: comp_at_def comp_ok.simps)
  qed
  then show "0 < n \<Longrightarrow> listed s n (map fst (gs_open_enums s))"
    using h by (auto simp: listed_def list_all_iff heads_ok_def key_ok_def)
qed

lemma listed_append: "listed s n (xs @ ys) \<longleftrightarrow> listed s n xs \<and> listed s n ys"
  by (simp add: listed_def)

lemma listed_mono: "listed s n xs \<Longrightarrow> n \<le> m \<Longrightarrow> listed s m xs"
  by (auto simp: listed_def list_all_iff intro: comp_at_mono)

text \<open>An update of the open enums.\<close>

lemma with_open_enum:
  assumes d: "declaring a j s s'" and a: "a \<le> 7" and k: "key_ok (CHR ''O'') k" and vs: "vs \<noteq> []" "list_all plain vs"
  defines "f \<equiv> \<lambda>s. s\<lparr>gs_open_enums := dict_set (gs_open_enums s) k vs\<rparr>"
  shows "declaring a j (f s) (f s') \<and> extends s (f s)"
proof -
  have p: "pair s s'" and ar: "arrays_at a s" and sa: "structs_at j s" using d by (auto simp: declaring_def)
  note P = pairE [OF p] and sub = set_dict_set [where d = "gs_open_enums s" and k = k and v = vs]
  have ext: "extends s (f s)" by (auto simp: extends_def f_def AList.update_conv')
  have heads: "heads_ok (f s)" using P(4) sub k by (fastforce simp: heads_ok_def f_def)
  note comp = comp_at_extends [OF P(4) heads ext]
  have types: "types_ok (f s)"
    by (rule types_extend [OF P(2) heads ext]) (use sub vs in \<open>auto simp: f_def\<close>)
  have "pair (f s) (f s')"
    by (rule pair_tables [OF p types ext]) (use P(1) in \<open>simp_all add: f_def shape_def rest_def outer_def\<close>)
  moreover have "arrays_at a (f s)" "structs_at j (f s)"
    using ar sa comp by (auto simp: arrays_at_def structs_at_def f_def)
  ultimately show ?thesis using ext by (simp add: declaring_def)
qed

lemma both_declare_open_enum:
  assumes d: "declaring a j s s'" and a: "a \<le> 7" and J: "\<And>u u'. declaring a j u u' \<Longrightarrow> J () () u u'"
  shows "both (declare_open_enum i) (declare_open_enum i) J s s'"
  unfolding declare_open_enum_def Let_def
proof (rule seq_range [OF declaring_pair [OF d]], simp, rule both_bind, rule both_modify)
  fix n :: nat and t assume n: "2 \<le> n"
  let ?f = "\<lambda>s. s\<lparr>gs_open_enums := dict_set (gs_open_enums s) (''O'' @ str_nat i) (names_upto ''W'' n)\<rparr>"
  have key: "key_ok (CHR ''O'') (''O'' @ str_nat i)" by (simp add: key_ok_def headed_def)
  have vs: "names_upto ''W'' n \<noteq> []" "list_all plain (names_upto ''W'' n)" using n by (simp_all add: names_upto_plain, simp add: names_upto_def)
  have u: "declaring a j (?f (s\<lparr>tape := t\<rparr>)) (?f (s'\<lparr>tape := t\<rparr>))"
    using with_open_enum [OF declaring_tape [OF d] a key vs] by blast
  show "both (declare_text (''open enum '' @ (''O'' @ str_nat i) @ '': u8 { '' @ join '', '' (names_upto ''W'' n) @ '' }''))
      (declare_text (''open enum '' @ (''O'' @ str_nat i) @ '': u8 { '' @ join '', '' (names_upto ''W'' n) @ '' }'')) J (?f (s\<lparr>tape := t\<rparr>)) (?f (s'\<lparr>tape := t\<rparr>))"
    by (rule both_declare_text [OF declaring_pair [OF u]], use vs in simp, simp add: overlay_helper_def startswith_def, rule J,
        erule declaring_decls [OF u])
qed

lemma with_struct:
  assumes d: "declaring 3 j s s'" and j: "j < 4" and fs: "fs \<noteq> []" "list_all (\<lambda>(f, t). plain f \<and> comp_at s (3 + j) t) fs"
  defines "f \<equiv> \<lambda>s. s\<lparr>gs_structs := dict_set (gs_structs s) (''S'' @ str_nat j) fs\<rparr>"
  shows "declaring 3 (Suc j) (f s) (f s')"
proof -
  let ?k = "''S'' @ str_nat j"
  have p: "pair s s'" and ar: "arrays_at 3 s" and sa: "structs_at j s" using d by (auto simp: declaring_def)
  note P = pairE [OF p]
  have new: "?k \<notin> fst ` set (gs_structs s)" using sa unfolding structs_at_def set_map [symmetric] by (auto simp: names_upto_def)
  have eq: "gs_structs (f s) = gs_structs s @ [(?k, fs)]" unfolding f_def by (simp add: dict_set_fresh [OF new, simplified])
  have key: "key_ok (CHR ''S'') ?k" by (simp add: key_ok_def headed_def)
  have ext: "extends s (f s)" using new by (auto simp: extends_def f_def AList.update_conv' map_of_eq_None_iff [symmetric])
  have others: "gs_arrays (f s) = gs_arrays s" "gs_open_enums (f s) = gs_open_enums s" by (simp_all add: f_def)
  have heads: "heads_ok (f s)" using P(4) key by (auto simp: heads_ok_def eq others)
  note comp = comp_at_extends [OF P(4) heads ext]
  have look: "map_of (gs_structs (f s)) ?k = Some fs" by (simp add: f_def AList.update_conv')
  have "comp_at (f s) (Suc (3 + j)) ?k"
    unfolding comp_at_def comp_ok.simps(2) look option.case using fs comp by (auto simp: comp_at_def list_all_iff)
  then have kc: "comp_at (f s) (4 + j) ?k" by simp
  have names: "list_all (\<lambda>(f, t). plain f) fs" using fs(2) by (auto simp: list_all_iff)
  have types: "types_ok (f s)"
    by (rule types_extend [OF P(2) heads ext]) (use comp_at_mono [OF kc, of 7] j names in \<open>auto simp: is_comp_at eq, simp_all add: f_def\<close>)
  have "pair (f s) (f s')"
    by (rule pair_tables [OF p types ext]) (use P(1) in \<open>simp_all add: f_def shape_def rest_def outer_def\<close>)
  moreover have "arrays_at 3 (f s)" using ar comp by (auto simp: arrays_at_def f_def)
  moreover have "structs_at (Suc j) (f s)"
  proof -
    have "comp_at (f s) (4 + j) k" if "k \<in> fst ` set (gs_structs s)" for k
      by (rule comp_at_mono [OF comp, of "3 + j"]) (use sa that in \<open>auto simp: structs_at_def\<close>)
    then show ?thesis using sa kc by (auto simp: structs_at_def eq names_upto_def)
  qed
  ultimately show ?thesis by (simp add: declaring_def)
qed

lemma list_same: "list_all2 (\<lambda>x y. y = x \<and> P x) xs ys \<Longrightarrow> ys = xs \<and> list_all P xs"
  by (induction rule: list_all2_induct) auto

lemma list_drawn: "list_all2 (\<lambda>k y. \<exists>x \<in> X. y = g k x) ks ys \<Longrightarrow> (\<And>k x. x \<in> X \<Longrightarrow> Q (g k x)) \<Longrightarrow> list_all Q ys"
  by (induction rule: list_all2_induct) auto

lemma param_list_plain: "list_all (\<lambda>(f, t). plain f \<and> plain t) ps \<Longrightarrow> plain (param_list ps)"
  unfolding param_list_def by (rule plain_joined) (auto simp: list_all_iff)

lemma both_declare_struct:
  assumes d: "declaring 3 j s s'" and j: "j < 4" and J: "\<And>u u'. declaring 3 (Suc j) u u' \<Longrightarrow> J () () u u'"
  shows "both (declare_struct j) (declare_struct j) J s s'"
proof -
  let ?ts = "INTS @ map fst (gs_arrays s) @ map fst (gs_open_enums s) @ map fst (gs_structs s)"
  have p: "pair s s'" by (rule declaring_pair [OF d])
  have eq: "INTS @ map fst (gs_arrays s') @ map fst (gs_open_enums s') @ map fst (gs_structs s') = ?ts"
    using pairE(1) [OF p] by (simp add: shape_def)
  have ts: "listed s (3 + j) ?ts"
    unfolding listed_append
    using listed_tables(1,2) [OF d] listed_tables(3) [OF d, of "3 + j"] listed_scalars [OF d, of INTS "3 + j"] scalar_subs(2) by (auto intro: listed_mono)
  show ?thesis
    unfolding declare_struct_def Let_def
  proof (rule both_bind, rule both_get_state, unfold eq, rule seq_range [OF p], simp, rule seq_map_pick [OF pair_tape [OF p]], simp, rule both_bind, rule both_modify)
    fix n :: nat and t t' ys
    assume n: "1 \<le> n" and ys: "list_all2 (\<lambda>k y. \<exists>x \<in> set ?ts. y = (''f'' @ str_nat k, x)) [0..<n] ys"
    let ?f = "\<lambda>s. s\<lparr>gs_structs := dict_set (gs_structs s) (''S'' @ str_nat j) ys\<rparr>"
    let ?s = "s\<lparr>tape := t, tape := t'\<rparr>" and ?s' = "s'\<lparr>tape := t, tape := t'\<rparr>"
    have "ys \<noteq> []" using list_all2_lengthD [OF ys] n by auto
    moreover have "list_all (\<lambda>(f, t). plain f \<and> comp_at ?s (3 + j) t) ys"
      by (rule list_drawn [OF ys]) (use ts in \<open>auto simp: listed_def list_all_iff\<close>)
    ultimately have u: "declaring 3 (Suc j) (?f ?s) (?f ?s')"
      by (rule with_struct [OF declaring_tape [OF declaring_tape [OF d]] j])
    have "list_all (\<lambda>(f, t). plain f \<and> plain t) ys"
      by (rule list_drawn [OF ys]) (use ts in \<open>auto simp: listed_def list_all_iff\<close>)
    then have line: "plain (param_list ys)" by (rule param_list_plain)
    show "both (declare_text (''struct '' @ (''S'' @ str_nat j) @ '' { '' @ param_list ys @ '' }''))
        (declare_text (''struct '' @ (''S'' @ str_nat j) @ '' { '' @ param_list ys @ '' }'')) J (?f ?s) (?f ?s')"
      by (rule both_declare_text [OF declaring_pair [OF u]], use line in simp, simp add: overlay_helper_def startswith_def, rule J, erule declaring_decls [OF u])
  qed
qed

section \<open>Arrays of aggregates, tuples, enums, aliases\<close>

lemma both_declare_agg_array:
  assumes d: "declaring a j s s'" and a: "a \<le> 7" and j: "j < 4" and J: "\<And>u u'. declaring 7 j u u' \<Longrightarrow> J () () u u'"
  shows "both declare_agg_array declare_agg_array J s s'"
proof -
  let ?ts = "map fst (gs_structs s) @ map fst (gs_open_enums s)"
  have p: "pair s s'" by (rule declaring_pair [OF d])
  have eq: "map fst (gs_structs s') @ map fst (gs_open_enums s') = ?ts" using pairE(1) [OF p] by (simp add: shape_def)
  have ts: "listed s 6 ?ts"
    unfolding listed_append using listed_tables(2,3) [OF d] j by (auto intro: listed_mono)
  show ?thesis
    unfolding declare_agg_array_def Let_def
    by (rule both_bind, rule both_get_state, unfold eq, rule both_if, simp, rule both_ret, rule J, rule declaring_mono [OF d a],
        rule both_new_array_last [OF d _ ts, where b = 7]) (use a J in auto)
qed

text \<open>From here on only the well-formedness of the tables matters.\<close>

lemma with_tables:
  assumes p: "pair s s'" and t: "types_ok (f s)" and f: "extends s (f s)" "shape (f s') = shape (f s)" "rest (f s) = rest s" "rest (f s') = rest s'"
    "outer (f s) = outer s" "outer (f s') = outer s'" and J: "pair (f s) (f s') \<Longrightarrow> J () () (f s) (f s')"
  shows "both (modify f) (modify f) J s s'"
  by (rule both_modify, rule J, rule pair_tables [OF p t f])

lemma both_declare_tuple:
  assumes p: "pair s s'" and J: "\<And>u u'. pair u u' \<Longrightarrow> J () () u u'"
  shows "both declare_tuple declare_tuple J s s'"
proof -
  let ?ts = "INTS @ map fst (gs_structs s) @ map fst (gs_arrays s) @ map fst (gs_open_enums s)"
  note P = pairE [OF p]
  have eq: "INTS @ map fst (gs_structs s') @ map fst (gs_arrays s') @ map fst (gs_open_enums s') = ?ts"
    using P(1) by (simp add: shape_def)
  have R: "twin_runs (renamed 0 0) s s'" by (rule twins_runs [OF p])
  have ts: "is_comp s t \<and> plain t" if t: "t \<in> set ?ts" for t
  proof -
    have opened: "is_comp s k" if "k \<in> fst ` set (gs_open_enums s)" for k
      using twin_runs.is_comp_open [OF R] twin_runs.lookup_key [OF R that] by blast
    show ?thesis
      using t P(2) opened twin_runs.is_comp_scalar [OF R] scalar_subs(2) scalar_plain
      by (auto simp: types_ok_def key_ok_def)
  qed
  show ?thesis
    unfolding declare_tuple_def
  proof (rule both_bind, rule both_get_state, unfold eq, rule seq_range [OF p], simp, rule both_bind,
      rule both_draw [OF lock_repeat [OF lock_pick] pairE(3) [OF pair_tape [OF p]]], simp)
    fix n :: nat and t t' xs xs' assume drawn: "list_all2 (\<lambda>x y. y = x \<and> x \<in> set ?ts) xs xs'"
    note x = conjunct1 [OF list_same [OF drawn]] conjunct2 [OF list_same [OF drawn], unfolded list_all_iff]
    let ?k = "''('' @ join '', '' xs @ '')''"
    let ?s = "s\<lparr>tape := t, tape := t'\<rparr>" and ?s' = "s'\<lparr>tape := t, tape := t'\<rparr>"
    have ps: "pair ?s ?s'" by (intro pair_tape p)
    have comp: "is_comp u = is_comp s" if "shape u = shape s" for u by (rule is_comp_shape [OF that])
    have key: "key_ok (CHR ''('') ?k"
      using x(2) ts by (auto simp: key_ok_def headed_def list_all_iff intro!: plain_joined)
    have elems: "list_all (is_comp s) xs" using x(2) ts by (auto simp: list_all_iff)
    let ?u = "?s\<lparr>gs_tuples := dict_set (gs_tuples ?s) ?k xs\<rparr>"
    have ic: "is_comp ?u = is_comp s" by (simp add: is_comp_def fun_eq_iff)
    have types: "types_ok ?u"
      by (rule types_extend [OF pairE(2) [OF ps]])
        (use pairE(4) [OF ps] key elems ic set_dict_set [where d = "gs_tuples s" and k = ?k and v = xs] in \<open>auto simp: heads_ok_def extends_def\<close>)
    show "both (modify (\<lambda>s. s\<lparr>gs_tuples := dict_set (gs_tuples s) (''('' @ join '', '' xs @ '')'') xs\<rparr>))
        (modify (\<lambda>s. s\<lparr>gs_tuples := dict_set (gs_tuples s) (''('' @ join '', '' xs' @ '')'') xs'\<rparr>)) J ?s ?s'"
      unfolding x(1)
      by (rule with_tables [where f = "\<lambda>s. s\<lparr>gs_tuples := dict_set (gs_tuples s) ?k xs\<rparr>", OF ps]) (use types P(1) in \<open>simp_all add: extends_def shape_def rest_def outer_def J\<close>)
  qed
qed

lemma lock_sample:
  assumes "k \<le> length pool"
  shows "lockstep s s' (sample pool k) (sample pool k) (\<lambda>xs ys. ys = xs \<and> set xs \<subseteq> set pool \<and> length xs = k)"
proof -
  have "k \<le> m \<Longrightarrow> m \<le> length pool \<Longrightarrow>
      lockstep s s' (sample_pool k m pool) (sample_pool k m pool) (\<lambda>xs ys. ys = xs \<and> set xs \<subseteq> set pool \<and> length xs = k)" for m
  proof (induction k m pool rule: sample_pool.induct)
    case (2 k m pool)
    have sub: "set (pool[j := pool ! (m - 1)]) \<subseteq> set pool" for j
      using set_update_subset_insert [of pool j] "2.prems" by (force intro: nth_mem)
    show ?case
      unfolding sample_pool.simps
      by (rule lock_bind [OF lock_randbelow], clarify, rule lock_bind [OF "2.IH"], use "2.prems" in simp, use "2.prems" in simp)
        (use "2.prems" sub in \<open>fastforce intro!: lock_ret\<close>)
  qed (auto intro: lock_ret)
  from this [OF assms order_refl] show ?thesis using assms by (simp add: sample_def)
qed

lemma both_declare_enum:
  assumes p: "pair s s'" and J: "\<And>u u'. pair u u' \<Longrightarrow> J () () u u'"
  shows "both (declare_enum i) (declare_enum i) J s s'"
  unfolding declare_enum_def Let_def
proof (rule seq_range [OF p], simp, rule both_bind)
  fix n :: nat and t assume n: "2 \<le> n" "n < 5"
  let ?vs = "names_upto ''V'' n" and ?k = "''E'' @ str_nat i" and ?s = "s\<lparr>tape := t\<rparr>" and ?s' = "s'\<lparr>tape := t\<rparr>"
  let ?f = "\<lambda>s. s\<lparr>gs_enums := dict_set (gs_enums s) ?k ?vs\<rparr>"
  have ps: "pair ?s ?s'" by (rule pair_tape [OF p])
  have key: "key_ok (CHR ''E'') ?k" by (simp add: key_ok_def headed_def)
  have vs: "?vs \<noteq> []" "list_all plain ?vs" using n(1) by (simp_all add: names_upto_plain, simp add: names_upto_def)
  have types: "types_ok (?f ?s)"
    by (rule types_extend [OF pairE(2) [OF ps]])
      (use pairE(4) [OF ps] key vs set_dict_set [where d = "gs_enums s" and k = ?k and v = ?vs] in \<open>auto simp: heads_ok_def extends_def\<close>)
  have line: "plain (''enum '' @ ?k @ '': u8 { '' @ join '', '' (map (\<lambda>(v, k). v @ '' = '' @ str_nat k) (zip ?vs (sort vals))) @ '' }'')" for vals
  proof -
    have "list_all plain (map (\<lambda>(v, k). v @ '' = '' @ str_nat k) (zip ?vs (sort vals)))"
      using vs(2) by (auto simp: list_all_iff dest!: set_zip_leftD)
    then show ?thesis by simp
  qed
  show "both (modify ?f) (modify ?f)
      (\<lambda>x x'. both (bind (flip flt_0_4) (\<lambda>c. if c then bind (sample [0..<256] n) (\<lambda>vals.
            declare_text (''enum '' @ ?k @ '': u8 { '' @ join '', '' (map (\<lambda>(v, k). v @ '' = '' @ str_nat k) (zip ?vs (sort vals))) @ '' }''))
          else declare_text (''enum '' @ ?k @ '' { '' @ join '', '' ?vs @ '' }'')))
        (bind (flip flt_0_4) (\<lambda>c. if c then bind (sample [0..<256] n) (\<lambda>vals.
            declare_text (''enum '' @ ?k @ '': u8 { '' @ join '', '' (map (\<lambda>(v, k). v @ '' = '' @ str_nat k) (zip ?vs (sort vals))) @ '' }''))
          else declare_text (''enum '' @ ?k @ '' { '' @ join '', '' ?vs @ '' }''))) J) ?s ?s'"
  proof (rule with_tables [where f = ?f, OF ps types])
    assume u: "pair (?f ?s) (?f ?s')"
    show "both (bind (flip flt_0_4) (\<lambda>c. if c then bind (sample [0..<256] n) (\<lambda>vals.
            declare_text (''enum '' @ ?k @ '': u8 { '' @ join '', '' (map (\<lambda>(v, k). v @ '' = '' @ str_nat k) (zip ?vs (sort vals))) @ '' }''))
          else declare_text (''enum '' @ ?k @ '' { '' @ join '', '' ?vs @ '' }'')))
        (bind (flip flt_0_4) (\<lambda>c. if c then bind (sample [0..<256] n) (\<lambda>vals.
            declare_text (''enum '' @ ?k @ '': u8 { '' @ join '', '' (map (\<lambda>(v, k). v @ '' = '' @ str_nat k) (zip ?vs (sort vals))) @ '' }''))
          else declare_text (''enum '' @ ?k @ '' { '' @ join '', '' ?vs @ '' }''))) J (?f ?s) (?f ?s')"
      by (rule both_bind, rule both_draw [OF lock_flip pairE(3) [OF u]], rule both_if, simp, rule both_bind,
          rule both_draw [OF lock_mono [OF lock_sample, where Q = "\<lambda>xs ys. ys = xs"] pairE(3) [OF pair_tape [OF u]]], use n(2) in simp, simp, hypsubst,
          rule both_declare_text [OF pair_tape [OF pair_tape [OF u]] line], simp add: overlay_helper_def startswith_def, erule J,
          rule both_declare_text [OF pair_tape [OF u]], use vs(2) in simp, simp add: overlay_helper_def startswith_def, erule J)
  qed (use pairE(1) [OF p] in \<open>simp_all add: extends_def shape_def rest_def outer_def\<close>)
qed

lemma both_declare_alias:
  assumes p: "pair s s'" and J: "\<And>u u'. pair u u' \<Longrightarrow> J () () u u'"
  shows "both (declare_alias i) (declare_alias i) J s s'"
  unfolding declare_alias_def Let_def
proof (rule draw_pick [OF p], simp, rule both_bind)
  fix ty t assume ty: "ty \<in> set INTS"
  let ?k = "''Alias'' @ str_nat i" and ?s = "s\<lparr>tape := t\<rparr>" and ?s' = "s'\<lparr>tape := t\<rparr>"
  let ?f = "\<lambda>s. s\<lparr>gs_aliases := dict_set (gs_aliases s) ?k ty\<rparr>"
  have ps: "pair ?s ?s'" by (rule pair_tape [OF p])
  have key: "key_ok (CHR ''A'') ?k" by (simp add: key_ok_def headed_def)
  have types: "types_ok (?f ?s)"
    by (rule types_extend [OF pairE(2) [OF ps]])
      (use pairE(4) [OF ps] key ty set_dict_set [where d = "gs_aliases s" and k = ?k and v = ty] in \<open>auto simp: heads_ok_def extends_def\<close>)
  show "both (modify ?f) (modify ?f)
      (\<lambda>x x'. both (declare_text (''type '' @ ?k @ '' = '' @ ty @ '';'')) (declare_text (''type '' @ ?k @ '' = '' @ ty @ '';'')) J) ?s ?s'"
  proof (rule with_tables [where f = ?f, OF ps types])
    assume u: "pair (?f ?s) (?f ?s')"
    show "both (declare_text (''type '' @ ?k @ '' = '' @ ty @ '';'')) (declare_text (''type '' @ ?k @ '' = '' @ ty @ '';'')) J (?f ?s) (?f ?s')"
      by (rule both_declare_text [OF u], use scalar_plain [OF scalar_subs(2) [OF ty]] in simp, simp add: overlay_helper_def startswith_def, erule J)
  qed (use pairE(1) [OF p] in \<open>simp_all add: extends_def shape_def rest_def outer_def\<close>)
qed

lemma both_pairs:
  assumes "pair s s'" and "a < b" and "\<And>i u u' K. pair u u' \<Longrightarrow> (\<And>v v'. pair v v' \<Longrightarrow> K () () v v') \<Longrightarrow> both (f i) (f' i) K u u'"
    and "\<And>u u'. pair u u' \<Longrightarrow> J () () u u'"
  shows "both (loop_n a b f) (loop_n a b f') J s s'"
  by (rule both_loop [OF assms(1,2), where I = "\<lambda>_. pair"], rule pair_tape [OF assms(1)], erule assms(3), assumption, erule assms(4))

text \<open>All types of a program: from empty tables to well-formed ones.\<close>

lemma both_declare_types:
  assumes d: "declaring 2 0 s s'" and J: "\<And>u u'. pair u u' \<Longrightarrow> J () () u u'"
  shows "both declare_types declare_types J s s'"
  unfolding declare_types_def
proof (rule both_bind, rule both_declare_arrays [OF d], rule both_bind, erule both_declare_nested, assumption, rule both_bind)
  fix xs u u' assume u: "declaring 3 0 u u'"
  show "both (loop_n 1 3 declare_open_enum) (loop_n 1 3 declare_open_enum)
      (\<lambda>x x'. both (bind (loop_n 1 4 declare_struct) (\<lambda>_. bind (loop_n 0 2 (\<lambda>_. declare_agg_array)) (\<lambda>_. bind (loop_n 0 2 (\<lambda>_. declare_tuple)) (\<lambda>_.
          bind (loop_n 1 3 declare_enum) (\<lambda>_. loop_n 0 2 declare_alias)))))
        (bind (loop_n 1 4 declare_struct) (\<lambda>_. bind (loop_n 0 2 (\<lambda>_. declare_agg_array)) (\<lambda>_. bind (loop_n 0 2 (\<lambda>_. declare_tuple)) (\<lambda>_.
          bind (loop_n 1 3 declare_enum) (\<lambda>_. loop_n 0 2 declare_alias))))) J) u u'"
  proof (rule both_loop [OF declaring_pair [OF u], where I = "\<lambda>_. declaring 3 0"], simp, rule declaring_tape [OF u], erule both_declare_open_enum, simp, assumption, rule both_bind)
    fix v v' assume v: "declaring 3 0 v v'"
    show "both (loop_n 1 4 declare_struct) (loop_n 1 4 declare_struct)
        (\<lambda>x x'. both (bind (loop_n 0 2 (\<lambda>_. declare_agg_array)) (\<lambda>_. bind (loop_n 0 2 (\<lambda>_. declare_tuple)) (\<lambda>_.
            bind (loop_n 1 3 declare_enum) (\<lambda>_. loop_n 0 2 declare_alias))))
          (bind (loop_n 0 2 (\<lambda>_. declare_agg_array)) (\<lambda>_. bind (loop_n 0 2 (\<lambda>_. declare_tuple)) (\<lambda>_.
            bind (loop_n 1 3 declare_enum) (\<lambda>_. loop_n 0 2 declare_alias)))) J) v v'"
    proof (rule both_loop [OF declaring_pair [OF v], where I = "declaring 3"], simp, rule declaring_tape [OF v], erule both_declare_struct, simp, assumption, rule both_bind)
      fix n w w' assume n: "n < (4 :: nat)" and w: "declaring 3 n w w'"
      have w7: "declaring 7 n (w\<lparr>tape := t\<rparr>) (w'\<lparr>tape := t\<rparr>)" for t by (rule declaring_mono [OF declaring_tape [OF w]]) simp
      show "both (loop_n 0 2 (\<lambda>_. declare_agg_array)) (loop_n 0 2 (\<lambda>_. declare_agg_array))
          (\<lambda>x x'. both (bind (loop_n 0 2 (\<lambda>_. declare_tuple)) (\<lambda>_. bind (loop_n 1 3 declare_enum) (\<lambda>_. loop_n 0 2 declare_alias)))
            (bind (loop_n 0 2 (\<lambda>_. declare_tuple)) (\<lambda>_. bind (loop_n 1 3 declare_enum) (\<lambda>_. loop_n 0 2 declare_alias))) J) w w'"
      proof (rule both_loop [OF declaring_pair [OF w], where I = "\<lambda>_. declaring 7 n"], simp, rule w7, erule both_declare_agg_array, simp, rule n, assumption)
        fix i z z' assume z: "declaring 7 n z z'"
        show "both (bind (loop_n 0 2 (\<lambda>_. declare_tuple)) (\<lambda>_. bind (loop_n 1 3 declare_enum) (\<lambda>_. loop_n 0 2 declare_alias)))
            (bind (loop_n 0 2 (\<lambda>_. declare_tuple)) (\<lambda>_. bind (loop_n 1 3 declare_enum) (\<lambda>_. loop_n 0 2 declare_alias))) J z z'"
          by (rule both_bind, rule both_pairs [OF declaring_pair [OF z]], simp, erule both_declare_tuple, assumption, rule both_bind,
              erule both_pairs, simp, erule both_declare_enum, assumption, erule both_pairs, simp, erule both_declare_alias, assumption, erule J)
      qed
    qed
  qed
qed

end
