(* ===== verification/Mcfuzz_Gen_Helpers.thy ===== *)
theory Mcfuzz_Gen_Helpers
  imports Mcfuzz_Gen_Decl
begin

text \<open>
  The helper declarations of a generated program in two runs at once: packed bits, offset structs, overlays, unions,
  functions, and the globals. Their tables stay well formed, and the only declarations in which the variant
  differs from the base are the read helpers of the overlays.
\<close>

section \<open>Tables of helpers\<close>

lemma twins_rest:
  assumes "twins n k d s s'" and "shape u = shape s" and "shape u' = shape s'" and "rest u' = rest u" and "rest_ok u"
    and "outer u = outer s" and "outer u' = outer s'"
  shows "twins n k d u u'"
proof -
  note T = twinsE [OF assms(1)]
  have env: "env_get u = env_get s" "env_get u' = env_get s'" using assms(6,7) by (auto simp: outer_def env_get_def fun_eq_iff)
  have "alike (renamed n k) u u'" by (rule alike_cong [OF assms(2,3) _ T(1)]) (use T(1) in \<open>simp add: alike_def env\<close>)
  moreover have "same_decls u u'" "text_ok u" "text_ok u'" "bounded u"
    using T(9-12) assms(6,7) by (simp_all add: same_decls_def text_ok_def bounded_def outer_def env)
  ultimately show ?thesis using assms unfolding twins_def by (simp add: outer_def)
qed

lemma st_table:
  assumes "\<And>s. shape (f s) = shape s" and "\<And>s. outer (f s) = outer s" and "\<And>s s'. rest s' = rest s \<Longrightarrow> rest (f s') = rest (f s)"
    and "twins n k d s s' \<Longrightarrow> rest_ok s \<Longrightarrow> rest_ok (f s)"
  shows "st.steps n k d s s' (modify f) (modify f) (\<lambda>_ _. True)"
proof (rule st.s_modify)
  assume tw: "twins n k d s s'"
  have "twins n k d (f s) (f s')"
    by (rule twins_rest [OF tw assms(1,1) assms(3) [OF twinsE(2) [OF tw]] assms(4) [OF tw twinsE(3) [OF tw]] assms(2,2)])
  moreover have "grows s (f s)" using assms(1,2) by (simp add: grows_def outer_def env_get_def)
  ultimately show "twins n k d (f s) (f s') \<and> grows s (f s)" by simp
qed

lemma twins_tape: "twins n k d s s' \<Longrightarrow> twins n k d (s\<lparr>tape := t\<rparr>) (s'\<lparr>tape := t\<rparr>)"
  using st.draw by blast

lemma st_range:
  assumes "lo < hi" and "\<And>i u u'. lo \<le> i \<Longrightarrow> i < hi \<Longrightarrow> twins n k d u u' \<Longrightarrow> shape u = shape s \<Longrightarrow> st.steps n k d u u' (f i) (f' i) Q"
  shows "st.steps n k d s s' (bind (randrange lo hi) f) (bind (randrange lo hi) f') Q"
  by (rule st.s_randrange, rule assms, rule assms) (simp_all add: twins_tape literal_def)

lemma st_pick:
  assumes "xs \<noteq> []" and "\<And>x u u'. x \<in> set xs \<Longrightarrow> twins n k d u u' \<Longrightarrow> shape u = shape s \<Longrightarrow> st.steps n k d u u' (f x) (f' x) Q"
  shows "st.steps n k d s s' (bind (choice xs) f) (bind (choice xs) f') Q"
  by (rule st.s_pick, rule assms, rule assms) (simp_all add: twins_tape literal_def)

lemma st_flip:
  assumes "\<And>b u u'. twins n k d u u' \<Longrightarrow> shape u = shape s \<Longrightarrow> st.steps n k d u u' (f b) (f' b) Q"
  shows "st.steps n k d s s' (bind (flip p) f) (bind (flip p) f') Q"
  by (rule st.s_flip, rule assms) (simp_all add: twins_tape literal_def)

lemma st_lit:
  assumes "t \<in> set SCALARS" and "\<And>x u u'. plain x \<Longrightarrow> twins n k d u u' \<Longrightarrow> shape u = shape s \<Longrightarrow> st.steps n k d u u' (f x) (f' x) Q"
  shows "st.steps n k d s s' (bind (ty_lit t) f) (bind (ty_lit t) f') Q"
  by (rule st.s_lit, rule assms, rule assms) (simp_all add: twins_tape literal_def)

lemma rest_ok_table:
  assumes "rest_ok s" and "shape u = shape s"
    and "\<forall>x \<in> set (gs_result_fns u). x \<in> set (gs_result_fns s) \<or> (case x of (f, pt, ot) \<Rightarrow> plain f \<and> pt \<in> set INTS \<and> ot \<in> set INTS)"
    and "\<forall>x \<in> set (gs_agg_fns u). x \<in> set (gs_agg_fns s) \<or> (case x of (f, pt, rt) \<Rightarrow> plain f \<and> is_comp s pt \<and> plain rt)"
    and "gs_spk u = gs_spk s \<or> (\<exists>t \<in> set INTS. gs_spk u = Some t)" and "gs_conv_w u = gs_conv_w s \<or> (\<exists>t \<in> set UINTS. gs_conv_w u = Some t)"
    and "\<forall>x \<in> set (gs_packed u). x \<in> set (gs_packed s) \<or> (case x of (k, flds, w) \<Rightarrow> plain k \<and> flds \<noteq> [] \<and> list_all plain flds)"
    and "\<forall>x \<in> set (gs_offset_structs u). x \<in> set (gs_offset_structs s) \<or> (case x of (k, flds) \<Rightarrow> plain k \<and> flds \<noteq> [] \<and> list_all (\<lambda>(f, w, c, m). plain f) flds)"
    and "\<forall>x \<in> set (gs_overlays u). x \<in> set (gs_overlays s) \<or> (case x of (k, w) \<Rightarrow> plain k \<and> 0 < w)"
    and "\<forall>x \<in> set (gs_unions u). x \<in> set (gs_unions s) \<or> (case x of (k, cs, e) \<Rightarrow>
           plain k \<and> cs \<noteq> [] \<and> list_all (\<lambda>(c, t). plain c \<and> t \<in> set INTS) cs \<and> (\<forall>c. e = Some c \<longrightarrow> plain c))"
  shows "rest_ok u"
proof -
  have new: "\<forall>x \<in> set xs. x \<in> set ys \<or> P x \<Longrightarrow> \<forall>x \<in> set ys. P x \<Longrightarrow> \<forall>x \<in> set xs. P x" for xs ys :: "'x list" and P by blast
  note C = is_comp_shape [OF assms(2)] and S = assms(1) [unfolded rest_ok_def]
  have "\<forall>(f, pt, ot) \<in> set (gs_result_fns u). plain f \<and> pt \<in> set INTS \<and> ot \<in> set INTS" by (rule new [OF assms(3)]) (use S in simp)
  moreover have "\<forall>(f, pt, rt) \<in> set (gs_agg_fns u). plain f \<and> is_comp s pt \<and> plain rt" by (rule new [OF assms(4)]) (use S in simp)
  moreover have "\<forall>t. gs_spk u = Some t \<longrightarrow> t \<in> set INTS" "\<forall>t. gs_conv_w u = Some t \<longrightarrow> t \<in> set UINTS" using assms(5,6) S by auto
  moreover have "\<forall>(k, flds, w) \<in> set (gs_packed u). plain k \<and> flds \<noteq> [] \<and> list_all plain flds" by (rule new [OF assms(7)]) (use S in simp)
  moreover have "\<forall>(k, flds) \<in> set (gs_offset_structs u). plain k \<and> flds \<noteq> [] \<and> list_all (\<lambda>(f, w, c, m). plain f) flds" by (rule new [OF assms(8)]) (use S in simp)
  moreover have "\<forall>(k, w) \<in> set (gs_overlays u). plain k \<and> 0 < w" by (rule new [OF assms(9)]) (use S in simp)
  moreover have "\<forall>(k, cs, e) \<in> set (gs_unions u). plain k \<and> cs \<noteq> [] \<and> list_all (\<lambda>(c, t). plain c \<and> t \<in> set INTS) cs \<and> (\<forall>c. e = Some c \<longrightarrow> plain c)"
    by (rule new [OF assms(10)]) (use S in simp)
  ultimately show ?thesis unfolding rest_ok_def C by blast
qed

lemma in_dict_set: "x \<in> set (dict_set d k v) \<Longrightarrow> x = (k, v) \<or> x \<in> set d"
  using set_dict_set [where d = d and k = k and v = v] by auto

section \<open>Packed bits, offset structs, overlays\<close>

lemma st_gen_packed: "st.steps n k d s s' (gen_packed i) (gen_packed i) (\<lambda>_ _. True)"
  unfolding gen_packed_def Let_def
proof (rule st_pick, simp, rule st_range)
  fix w :: nat and u u' assume w: "w \<in> set [8, 16, 32]"
  show "1 < min w 5 + 1" using w by auto
  fix nf :: nat and v v' assume nf: "1 \<le> nf"
  let ?fs = "map (\<lambda>j. ''pf'' @ str_nat j) [0..<nf]" and ?k = "''PB'' @ str_nat i"
  have fs: "list_all plain ?fs" "?fs \<noteq> []" using nf by (auto simp: list_all_iff)
  have tab: "st.steps n k d v v' (modify (\<lambda>s. s\<lparr>gs_packed := dict_set (gs_packed s) ?k (?fs, w)\<rparr>))
      (modify (\<lambda>s. s\<lparr>gs_packed := dict_set (gs_packed s) ?k (?fs, w)\<rparr>)) (\<lambda>_ _. True)"
    by (rule st_table, simp add: shape_def, simp add: outer_def, simp add: rest_def, erule rest_ok_table)
      (use fs in \<open>auto simp: shape_def dest!: in_dict_set\<close>)
  have "list_all plain (map (\<lambda>f. f @ '': bool'') ?fs)" by (simp add: list_all_iff)
  then show "st.steps n k d v v'
      (bind (modify (\<lambda>s. s\<lparr>gs_packed := dict_set (gs_packed s) ?k (?fs, w)\<rparr>)) (\<lambda>_.
        declare_text (''packed bits '' @ ?k @ '': u'' @ str_nat w @ '' { '' @ join '', '' (map (\<lambda>f. f @ '': bool'') ?fs) @ '' }'')))
      (bind (modify (\<lambda>s. s\<lparr>gs_packed := dict_set (gs_packed s) ?k (?fs, w)\<rparr>)) (\<lambda>_.
        declare_text (''packed bits '' @ ?k @ '': u'' @ str_nat w @ '' { '' @ join '', '' (map (\<lambda>f. f @ '': bool'') ?fs) @ '' }''))) (\<lambda>_ _. True)"
    by (intro st.s_bind [OF tab] st_declare) (simp_all add: overlay_helper_def startswith_def)
qed

lemma lock_offset_fields:
  "lockstep s s' (offset_fields n j off) (offset_fields n j off) (\<lambda>xs ys. ys = xs \<and> length xs = n \<and> list_all (\<lambda>(f, w, c, m). plain f \<and> plain m) xs)"
proof (induction n arbitrary: j off)
  case 0
  then show ?case by (simp add: lock_ret)
next
  case (Suc n)
  have gap: "lockstep s s' (if j = 0 then ret 0 else bind (flip flt_0_5) (\<lambda>tight. if tight then ret off else bind (choice [w div 8, 8, 16, 64, 256]) (\<lambda>g. ret (off + g))))
      (if j = 0 then ret 0 else bind (flip flt_0_5) (\<lambda>tight. if tight then ret off else bind (choice [w div 8, 8, 16, 64, 256]) (\<lambda>g. ret (off + g)))) (\<lambda>x y. y = x)" for w
    by (auto intro!: lock_bind [OF lock_flip] lock_bind [OF lock_pick] lock_ret)
  show ?case
    unfolding offset_fields.simps Let_def
    by (rule lock_bind [OF lock_pick], simp, rule lock_bind [OF lock_pick], simp, rule lock_bind, simp only: simp_thms, rule gap, simp only: simp_thms,
        rule lock_bind [OF Suc.IH], rule lock_ret) auto
qed

lemma st_gen_offset_decl: "st.steps n k d s s' (gen_offset_decl i) (gen_offset_decl i) (\<lambda>_ _. True)"
  unfolding gen_offset_decl_def Let_def
proof (rule st_range, simp, rule st.s_drawn [OF lock_offset_fields])
  fix nf :: nat and u u' :: gen_state and xs xs' :: "(string \<times> nat \<times> nat \<times> string) list" and t
  assume nf: "2 \<le> nf" and xs: "xs' = xs \<and> length xs = nf \<and> list_all (\<lambda>(f, w, c, m). plain f \<and> plain m) xs"
  let ?k = "''OFF'' @ str_nat i" and ?v = "u\<lparr>tape := t\<rparr>" and ?v' = "u'\<lparr>tape := t\<rparr>"
  have eq: "xs' = xs" and ne: "xs \<noteq> []" and fs: "list_all (\<lambda>(f, w, c, m). plain f \<and> plain m) xs" using xs nf by auto
  have tab: "st.steps n k d ?v ?v' (modify (\<lambda>s. s\<lparr>gs_offset_structs := dict_set (gs_offset_structs s) ?k xs\<rparr>))
      (modify (\<lambda>s. s\<lparr>gs_offset_structs := dict_set (gs_offset_structs s) ?k xs\<rparr>)) (\<lambda>_ _. True)"
    by (rule st_table, simp add: shape_def, simp add: outer_def, simp add: rest_def, erule rest_ok_table)
      (use fs ne in \<open>auto simp: shape_def list_all_iff dest!: in_dict_set\<close>)
  have lines: "list_all plain (map (\<lambda>(f, w, cur, m). ''    '' @ f @ '': Reg<u'' @ str_nat w @ '', '' @ m @ ''> @offset('' @ str_nat cur @ ''),'') xs)"
    using fs by (auto simp: list_all_iff)
  have lst: "plain (fst (last xs))" using fs last_in_set [OF ne] by (fastforce simp: list_all_iff)
  show "st.steps n k d ?v ?v'
      (bind (modify (\<lambda>s. s\<lparr>gs_offset_structs := dict_set (gs_offset_structs s) ?k xs\<rparr>)) (\<lambda>_.
       bind (declare_text (''extern mmio struct '' @ ?k @ '' {'' @ nl @
        join nl (map (\<lambda>(f, w, cur, m). ''    '' @ f @ '': Reg<u'' @ str_nat w @ '', '' @ m @ ''> @offset('' @ str_nat cur @ ''),'') xs) @ nl @ ''}'')) (\<lambda>_.
        declare_text (''fn offobs_'' @ ?k @ ''() -> u64 {'' @ nl @
          ''    return ((sizeof('' @ ?k @ '') as u64) ^ ((field_offset('' @ ?k @ '', .'' @ fst (last xs) @ '') as u64) << 1));'' @ nl @ ''}''))))
      (bind (modify (\<lambda>s. s\<lparr>gs_offset_structs := dict_set (gs_offset_structs s) ?k xs'\<rparr>)) (\<lambda>_.
       bind (declare_text (''extern mmio struct '' @ ?k @ '' {'' @ nl @
        join nl (map (\<lambda>(f, w, cur, m). ''    '' @ f @ '': Reg<u'' @ str_nat w @ '', '' @ m @ ''> @offset('' @ str_nat cur @ ''),'') xs') @ nl @ ''}'')) (\<lambda>_.
        declare_text (''fn offobs_'' @ ?k @ ''() -> u64 {'' @ nl @
          ''    return ((sizeof('' @ ?k @ '') as u64) ^ ((field_offset('' @ ?k @ '', .'' @ fst (last xs') @ '') as u64) << 1));'' @ nl @ ''}'')))) (\<lambda>_ _. True)"
    unfolding eq
    by (rule st.s_bind [OF tab], rule st.s_bind [OF st_declare], use lines in simp, simp add: overlay_helper_def startswith_def, rule st_declare)
      (use lst in simp, simp add: overlay_helper_def startswith_def)
qed

text \<open>A declaration of the variant alone.\<close>

lemma st_declare_right:
  assumes "plain l" and "overlay_helper l"
  shows "st.steps n k d s s' (ret ()) (if mm' then declare_text l else ret ()) (\<lambda>_ _. True)"
proof (rule st.s_pre)
  assume tw: "twins n k d s s'"
  have "twins n k d s (s'\<lparr>gs_decls := gs_decls s' @ [l]\<rparr>)"
    by (rule twins_update [OF tw]) (use assms twinsE [OF tw] in \<open>auto simp: same_decls_def text_ok_def bounded_def\<close>)
  then show "st.steps n k d s s' (ret ()) (if mm' then declare_text l else ret ()) (\<lambda>_ _. True)"
    using tw by (auto simp: st.steps_def ret_def declare_text_def modify_def grows_def)
qed

lemma st_gen_overlay_decl: "st.steps n k d s s' (gen_overlay_decl i) (gen_overlay_decl i) (\<lambda>_ _. True)"
  unfolding gen_overlay_decl_def Let_def
proof (rule st_pick, simp)
  fix w :: nat and u u' assume w: "w \<in> set [32, 64]"
  let ?k = "''OV'' @ str_nat i"
  have tab: "st.steps n k d u u' (modify (\<lambda>s. s\<lparr>gs_overlays := dict_set (gs_overlays s) ?k w\<rparr>))
      (modify (\<lambda>s. s\<lparr>gs_overlays := dict_set (gs_overlays s) ?k w\<rparr>)) (\<lambda>_ _. True)"
    by (rule st_table, simp add: shape_def, simp add: outer_def, simp add: rest_def, erule rest_ok_table)
      (use w in \<open>auto simp: shape_def dest!: in_dict_set\<close>)
  have lines: "list_all plain (map (\<lambda>(m, t). ''    '' @ m @ '': '' @ t @ '','') (overlay_members w))"
    by (simp add: overlay_members_def)
  let ?h = "''fn ovhalf_'' @ ?k @ ''(o: '' @ ?k @ '', i: usize) -> u64 {'' @ nl @ ''    return (o.halves[i] as u64);'' @ nl @ ''}''"
  have helper: "st.steps n k d v v' (bind (gets gs_metamorph) (\<lambda>mm. if mm then declare_text ?h else ret ()))
      (bind (gets gs_metamorph) (\<lambda>mm. if mm then declare_text ?h else ret ())) (\<lambda>_ _. True)" for v v'
  proof (rule st.s_pre)
    assume "twins n k d v v'"
    then have base: "gs_metamorph v = False" using twinsE(9) by (auto simp: same_decls_def)
    show "st.steps n k d v v' (bind (gets gs_metamorph) (\<lambda>mm. if mm then declare_text ?h else ret ()))
        (bind (gets gs_metamorph) (\<lambda>mm. if mm then declare_text ?h else ret ())) (\<lambda>_ _. True)"
      by (rule st.s_gets, unfold base if_False, rule st_declare_right) (simp_all add: overlay_helper_def startswith_def)
  qed
  show "st.steps n k d u u'
      (bind (modify (\<lambda>s. s\<lparr>gs_overlays := dict_set (gs_overlays s) ?k w\<rparr>)) (\<lambda>_.
       bind (declare_text (''overlay union '' @ ?k @ '' {'' @ nl @ join nl (map (\<lambda>(m, t). ''    '' @ m @ '': '' @ t @ '','') (overlay_members w)) @ nl @ ''}'')) (\<lambda>_.
       bind (gets gs_metamorph) (\<lambda>mm. if mm then declare_text ?h else ret ()))))
      (bind (modify (\<lambda>s. s\<lparr>gs_overlays := dict_set (gs_overlays s) ?k w\<rparr>)) (\<lambda>_.
       bind (declare_text (''overlay union '' @ ?k @ '' {'' @ nl @ join nl (map (\<lambda>(m, t). ''    '' @ m @ '': '' @ t @ '','') (overlay_members w)) @ nl @ ''}'')) (\<lambda>_.
       bind (gets gs_metamorph) (\<lambda>mm. if mm then declare_text ?h else ret ())))) (\<lambda>_ _. True)"
    by (rule st.s_bind [OF tab], rule st.s_bind [OF st_declare], use lines in simp, simp add: overlay_helper_def startswith_def, rule helper)
qed

lemma st_loop: "a < b \<Longrightarrow> (\<And>i u u'. st.steps n k d u u' (f i) (f' i) (\<lambda>_ _. True)) \<Longrightarrow>
    st.steps n k d s s' (bind (randrange a b) (\<lambda>m. for_m f [0..<m])) (bind (randrange a b) (\<lambda>m. for_m f' [0..<m])) (\<lambda>_ _. True)"
  using st.s_loop [of a b] unfolding loop_n_def by blast

lemma st_kernel_decls: "st.steps n k d s s' gen_kernel_decls gen_kernel_decls (\<lambda>_ _. True)"
  unfolding gen_kernel_decls_def by (rule st_loop, simp, rule st_gen_packed)

lemma st_offset_overlay_decls: "st.steps n k d s s' gen_offset_overlay_decls gen_offset_overlay_decls (\<lambda>_ _. True)"
  unfolding gen_offset_overlay_decls_def
  by (rule st_range, simp, rule st.s_bind [OF st.s_for_same [OF st_gen_offset_decl]], rule st_loop, simp, rule st_gen_overlay_decl)

section \<open>Unions, switches, conversions\<close>

lemma lock_map_pick:
  assumes "xs \<noteq> []" and "\<And>k x. x \<in> set xs \<Longrightarrow> Q (g k x)"
  shows "lockstep s s' (map_m (\<lambda>k. bind (choice xs) (\<lambda>x. ret (g k x))) ks) (map_m (\<lambda>k. bind (choice xs) (\<lambda>x. ret (g k x))) ks)
    (\<lambda>ys ys'. ys' = ys \<and> list_all Q ys \<and> length ys = length ks)"
proof (induction ks)
  case (Cons k ks)
  show ?case
    unfolding map_m.simps
    by (rule lock_bind, rule lock_bind [OF lock_pick [OF assms(1)]], rule lock_ret [where P = "\<lambda>y y'. y' = y \<and> Q y"])
      (auto intro!: lock_bind [OF Cons.IH] lock_ret assms(2))
qed (simp add: lock_ret)

lemma lock_fold_arms:
  assumes "list_all (\<lambda>(c, t). plain c \<and> t \<in> set INTS) cs"
  shows "lockstep s s' (map_m (\<lambda>(cn, pt). bind (lift_result (ty_fold pt ''b'')) (\<lambda>f. ret (''        '' @ cn @ ''(b) => { return '' @ f @ ''; }''))) cs)
    (map_m (\<lambda>(cn, pt). bind (lift_result (ty_fold pt ''b'')) (\<lambda>f. ret (''        '' @ cn @ ''(b) => { return '' @ f @ ''; }''))) cs)
    (\<lambda>xs ys. ys = xs \<and> list_all plain xs)"
  using assms
proof (induction cs)
  case (Cons c cs)
  obtain cn pt where c: "c = (cn, pt)" "plain cn" "pt \<in> set SCALARS" using Cons.prems scalar_subs(2) by (cases c) auto
  obtain f where f: "ty_fold pt ''b'' = Inr f" "plain f" using fold_plain [OF c(3), of "''b''"] by auto
  have tl: "list_all (\<lambda>(c, t). plain c \<and> t \<in> set INTS) cs" using Cons.prems by simp
  show ?case
    unfolding map_m.simps c(1) prod.case
    by (rule lock_bind, rule lock_bind [OF lock_lift [OF f(1) f(1), where P = "\<lambda>x y. x = f \<and> y = f"]], simp,
        rule lock_ret [where P = "\<lambda>x y. y = x \<and> plain x"], use c f in simp, rule lock_bind [OF Cons.IH [OF tl]], rule lock_ret) auto
qed (simp add: lock_ret)

lemma st_gen_union_decl: "st.steps n k d s s' (gen_union_decl i) (gen_union_decl i) (\<lambda>_ _. True)"
  unfolding gen_union_decl_def Let_def
proof (rule st_range, simp, rule st.s_drawn [OF lock_map_pick [where Q = "\<lambda>(c, t). plain c \<and> t \<in> set INTS"]], simp, simp, rule st_flip)
  fix nc :: nat and u u' :: gen_state and cs cs' t e v v'
  assume nc: "2 \<le> nc" and cs: "cs' = cs \<and> list_all (\<lambda>(c, t). plain c \<and> t \<in> set INTS) cs \<and> length cs = length [0..<nc]"
  let ?k = "''U'' @ str_nat i" and ?e = "if e then Some (''u'' @ str_nat i @ ''e'') else None"
  have eq: "cs' = cs" and ok: "list_all (\<lambda>(c, t). plain c \<and> t \<in> set INTS) cs" and ne: "cs \<noteq> []" using cs nc by auto
  have tab: "st.steps n k d w w' (modify (\<lambda>s. s\<lparr>gs_unions := dict_set (gs_unions s) ?k (cs, ?e)\<rparr>))
      (modify (\<lambda>s. s\<lparr>gs_unions := dict_set (gs_unions s) ?k (cs, ?e)\<rparr>)) (\<lambda>_ _. True)" for w w'
    by (rule st_table, simp add: shape_def, simp add: outer_def, simp add: rest_def, erule rest_ok_table)
      (use ok ne in \<open>auto simp: shape_def dest!: in_dict_set\<close>)
  have "list_all plain (map (\<lambda>(cn, pt). ''    '' @ cn @ '': '' @ pt @ '','') cs)"
    using ok scalar_plain [OF scalar_subs(2)] by (auto simp: list_all_iff)
  then have lines: "list_all plain (map (\<lambda>(cn, pt). ''    '' @ cn @ '': '' @ pt @ '','') cs @ (case ?e of None \<Rightarrow> [] | Some c \<Rightarrow> [''    '' @ c @ '','']))"
    by (simp split: option.split)
  have more: "list_all plain (arms @ (case ?e of None \<Rightarrow> [] | Some c \<Rightarrow> [''        .'' @ c @ '' => { return 7; }'']))" if "list_all plain arms" for arms
    using that by (simp split: option.split)
  show "st.steps n k d v v'
      (bind (declare_text (''union '' @ ?k @ '' {'' @ nl @
         join nl (map (\<lambda>(cn, pt). ''    '' @ cn @ '': '' @ pt @ '','') cs @ (case ?e of None \<Rightarrow> [] | Some c \<Rightarrow> [''    '' @ c @ '',''])) @ nl @ ''}'')) (\<lambda>_.
       bind (map_m (\<lambda>(cn, pt). bind (lift_result (ty_fold pt ''b'')) (\<lambda>f. ret (''        '' @ cn @ ''(b) => { return '' @ f @ ''; }''))) cs) (\<lambda>arms.
       bind (declare_text (''fn ufold_'' @ ?k @ ''(s: '' @ ?k @ '') -> u64 {'' @ nl @ ''    switch s {'' @ nl @
         join nl (arms @ (case ?e of None \<Rightarrow> [] | Some c \<Rightarrow> [''        .'' @ c @ '' => { return 7; }''])) @ nl @ ''    }'' @ nl @ ''}'')) (\<lambda>_.
         modify (\<lambda>s. s\<lparr>gs_unions := dict_set (gs_unions s) ?k (cs, ?e)\<rparr>)))))
      (bind (declare_text (''union '' @ ?k @ '' {'' @ nl @
         join nl (map (\<lambda>(cn, pt). ''    '' @ cn @ '': '' @ pt @ '','') cs' @ (case ?e of None \<Rightarrow> [] | Some c \<Rightarrow> [''    '' @ c @ '',''])) @ nl @ ''}'')) (\<lambda>_.
       bind (map_m (\<lambda>(cn, pt). bind (lift_result (ty_fold pt ''b'')) (\<lambda>f. ret (''        '' @ cn @ ''(b) => { return '' @ f @ ''; }''))) cs') (\<lambda>arms.
       bind (declare_text (''fn ufold_'' @ ?k @ ''(s: '' @ ?k @ '') -> u64 {'' @ nl @ ''    switch s {'' @ nl @
         join nl (arms @ (case ?e of None \<Rightarrow> [] | Some c \<Rightarrow> [''        .'' @ c @ '' => { return 7; }''])) @ nl @ ''    }'' @ nl @ ''}'')) (\<lambda>_.
         modify (\<lambda>s. s\<lparr>gs_unions := dict_set (gs_unions s) ?k (cs', ?e)\<rparr>))))) (\<lambda>_ _. True)"
    unfolding eq
    by (rule st.s_bind [OF st_declare], use lines in simp, simp add: overlay_helper_def startswith_def, rule st.s_drawn [OF lock_fold_arms [OF ok]],
        elim conjE, hypsubst, rule st.s_bind [OF st_declare], use more in simp, simp add: overlay_helper_def startswith_def, rule tab)
qed

lemma st_exprswitch_decls: "st.steps n k d s s' gen_exprswitch_decls gen_exprswitch_decls (\<lambda>_ _. True)"
proof (rule st.s_pre)
  assume tw: "twins n k d s s'"
  have a: "types_ok s" "gs_enums s' = gs_enums s" using twinsE(1) [OF tw] by (auto simp: alike_def shape_def)
  have ok: "plain e \<and> plain (switch_arms 7 vs)" if "(e, vs) \<in> set (gs_enums s)" for e vs
    using a(1) that switch_arms_plain by (auto simp: types_ok_def key_ok_def)
  show ?thesis
    unfolding gen_exprswitch_decls_def
    by (rule st.s_get_state, unfold a(2), rule st.s_for_same)
      (use ok in \<open>auto simp: overlay_helper_def startswith_def intro!: st_declare split: prod.split\<close>)
qed

lemma st_declare_conv: "st.steps n k d s s' declare_conv declare_conv (\<lambda>_ _. True)"
proof -
  have tab: "st.steps n k d u u' (modify (\<lambda>s. s\<lparr>gs_conv_w := Some w\<rparr>)) (modify (\<lambda>s. s\<lparr>gs_conv_w := Some w\<rparr>)) (\<lambda>_ _. True)" if "w \<in> set UINTS" for w u u'
    by (rule st_table, simp add: shape_def, simp add: outer_def, simp add: rest_def, erule rest_ok_table) (use that in \<open>auto simp: shape_def\<close>)
  show ?thesis
    unfolding declare_conv_def
    by (rule st_flip, rule st.s_if, simp, rule st_pick, simp, rule st.s_bind [OF tab], assumption, rule st_declare)
      (simp_all add: scalar_plain scalar_subs overlay_helper_def startswith_def st.s_ret)
qed

lemma st_declare_spk: "st.steps n k d s s' declare_spk declare_spk (\<lambda>_ _. True)"
proof -
  have tab: "st.steps n k d u u' (modify (\<lambda>s. s\<lparr>gs_spk := Some t\<rparr>)) (modify (\<lambda>s. s\<lparr>gs_spk := Some t\<rparr>)) (\<lambda>_ _. True)" if "t \<in> set INTS" for t u u'
    by (rule st_table, simp add: shape_def, simp add: outer_def, simp add: rest_def, erule rest_ok_table) (use that in \<open>auto simp: shape_def\<close>)
  show ?thesis
    unfolding declare_spk_def
    by (rule st_flip, rule st.s_if, simp, rule st_pick, simp, rule st.s_bind [OF tab], assumption, rule st_lit, erule scalar_subs,
        rule st.s_bind [OF st_declare], simp add: scalar_plain scalar_subs, simp add: overlay_helper_def startswith_def, rule st_declare)
      (simp_all add: scalar_plain scalar_subs overlay_helper_def startswith_def st.s_ret)
qed

definition uint_option :: "string option \<Rightarrow> string option \<Rightarrow> bool" where
  "uint_option o_x o_y \<longleftrightarrow> o_y = o_x \<and> (\<forall>t. o_x = Some t \<longrightarrow> t \<in> set UINTS)"

lemma st_declare_recf: "st.steps n k d s s' declare_recf declare_recf uint_option"
  unfolding declare_recf_def
  by (rule st_flip, rule st.s_if, simp, rule st_pick, simp, rule st.s_bind [OF st_declare], simp add: scalar_plain scalar_subs,
      simp add: overlay_helper_def startswith_def, rule st.s_ret)
    (auto simp: uint_option_def intro: st.s_ret)

lemma st_declare_generic: "st.steps n k d s s' declare_generic declare_generic (\<lambda>x y. y = x)"
  unfolding declare_generic_def
  by (rule st_flip, rule st.s_bind [OF st.s_if], simp, rule st_declare, simp, simp add: overlay_helper_def startswith_def, rule st.s_ret, simp, rule st.s_ret, simp)

lemma st_declare_closure: "st.steps n k d s s' declare_closure declare_closure uint_option"
  unfolding declare_closure_def
  by (rule st_flip, rule st.s_if, simp, rule st_pick, simp, rule st.s_bind [OF st_declare], simp add: scalar_plain scalar_subs,
      simp add: overlay_helper_def startswith_def, rule st_lit, erule scalar_subs, rule st.s_bind [OF st_declare], simp,
      simp add: overlay_helper_def startswith_def, rule st.s_bind [OF st_declare], simp add: scalar_plain scalar_subs,
      simp add: overlay_helper_def startswith_def, rule st.s_ret)
    (auto simp: uint_option_def intro: st.s_ret)

section \<open>Aggregate helpers\<close>

lemma st_add_agg_fn:
  assumes "plain name" and "plain rt" and "twins n k d s s' \<Longrightarrow> is_comp s pt"
  shows "st.steps n k d s s' (add_agg_fn name pt rt) (add_agg_fn name pt rt) (\<lambda>_ _. True)"
  unfolding add_agg_fn_def
  by (rule st_table, simp add: shape_def, simp add: outer_def, simp add: rest_def, erule rest_ok_table) (use assms in \<open>auto simp: shape_def\<close>)

lemma renamed_same: "renamed 0 0 x y \<Longrightarrow> y = x"
  by (auto simp: renamed_def shifted_def)

lemma st_fresh_same:
  assumes "letters p"
    and f: "\<And>i u u'. i < gs_nvars u \<Longrightarrow> twins 0 0 d u u' \<Longrightarrow> grows s u \<Longrightarrow> st.steps 0 0 d u u' (f (p @ str_nat i)) (f' (p @ str_nat i)) Q"
  shows "st.steps 0 0 d s s' (bind (fresh p) f) (bind (fresh p) f') Q"
proof (rule st.s_pre)
  assume tw: "twins 0 0 d s s'"
  let ?x = "p @ str_nat (gs_nvars s)" and ?u = "s\<lparr>gs_nvars := gs_nvars s + 1\<rparr>" and ?u' = "s'\<lparr>gs_nvars := gs_nvars s' + 1\<rparr>"
  have u: "twins 0 0 d ?u ?u'"
    by (rule twins_update [OF tw]) (use twinsE [OF tw] in \<open>auto simp: same_decls_def text_ok_def bounded_def intro: low_Suc\<close>)
  have g: "grows s ?u" by (simp add: grows_def)
  have lt: "gs_nvars s < gs_nvars ?u" by simp
  have same: "gs_nvars s' = gs_nvars s" using twinsE(6) [OF tw] by simp
  obtain y y' v v' where "f ?x ?u = Inr (y, v)" "f' ?x ?u' = Inr (y', v')" "twins 0 0 d v v'" "grows ?u v" "Q y y'"
    by (rule st.stepsE [OF f [OF lt u g] u])
  then show "st.steps 0 0 d s s' (bind (fresh p) f) (bind (fresh p) f') Q"
    using grows_trans [OF g] same by (auto simp: st.steps_def bind_def modify_def ret_def gets_def fresh_def)
qed

lemma grows_comp: "grows s u \<Longrightarrow> is_comp u = is_comp s"
  by (rule is_comp_shape) (simp add: grows_def)

lemma st_agg_fn:
  assumes pre: "letters pre" "\<And>i x. \<not> overlay_helper (''fn '' @ pre @ str_nat i @ x)" and t: "plain t" "plain rt" "is_comp s t" and l: "plain l"
  shows "st.steps 0 0 d s s'
    (bind (fresh pre) (\<lambda>name. bind (declare_text (''fn '' @ name @ ''(p: '' @ t @ l)) (\<lambda>_. add_agg_fn name t rt)))
    (bind (fresh pre) (\<lambda>name. bind (declare_text (''fn '' @ name @ ''(p: '' @ t @ l)) (\<lambda>_. add_agg_fn name t rt))) (\<lambda>_ _. True)"
  by (rule st_fresh_same [OF pre(1)], rule st.s_bind [OF st_declare], use pre(1) t l in simp, simp only: append_assoc, rule pre(2), rule st_add_agg_fn,
      use pre(1) in simp, rule t(2), drule grows_comp, drule grows_comp, simp only: t(3))

lemma st_aggregate_abi: "st.steps 0 0 d s s' gen_aggregate_abi gen_aggregate_abi (\<lambda>_ _. True)"
proof (rule st.s_pre)
  assume tw: "twins 0 0 d s s'"
  note R = twins_runs [OF tw]
  have sh: "gs_structs s' = gs_structs s" "aggregate_types s' = aggregate_types s" "types_ok s"
    using twinsE(1) [OF tw] twin_runs.aggregate_types_same [OF R] by (auto simp: alike_def shape_def)
  let ?fs = "concat (map (\<lambda>(s, fs). List.map_filter (\<lambda>(f, ft). if ft \<in> set INTS then Some (s, f, ft) else None) fs) (gs_structs s))"
  have comp: "is_comp u t" if "is_comp s t" "shape u = shape s" for u t using that is_comp_shape [of u s] by simp
  have agg: "is_comp s t \<and> plain t" if "t \<in> set (aggregate_types s)" for t
    using twin_runs.aggregate_comp [OF R that] that sh(3) by (auto simp: aggregate_types_def types_ok_def key_ok_def)
  have field: "plain sn \<and> plain f \<and> plain ft \<and> is_comp s sn" if m: "(sn, f, ft) \<in> set ?fs" for sn f ft
  proof -
    obtain fs where fs: "(sn, fs) \<in> set (gs_structs s)" "(f, ft) \<in> set fs" "ft \<in> set INTS"
      using m by (auto simp: map_filter_def split: if_splits)
    then show ?thesis using sh(3) scalar_plain [OF scalar_subs(2) [OF fs(3)]] by (fastforce simp: types_ok_def key_ok_def list_all_iff)
  qed
  have lit: "letters ''aggid''" "letters ''aggget''" by (simp_all add: letters_def is_lower_def)
  have one: "st.steps 0 0 d u u'
      (if aggregate_types s = [] then ret () else bind (choice (aggregate_types s)) (\<lambda>t. bind (fresh ''aggid'') (\<lambda>name.
         bind (declare_text (''fn '' @ name @ ''(p: '' @ t @ '') -> '' @ t @ '' {'' @ nl @ ''    return p;'' @ nl @ ''}'')) (\<lambda>_. add_agg_fn name t t))))
      (if aggregate_types s = [] then ret () else bind (choice (aggregate_types s)) (\<lambda>t. bind (fresh ''aggid'') (\<lambda>name.
         bind (declare_text (''fn '' @ name @ ''(p: '' @ t @ '') -> '' @ t @ '' {'' @ nl @ ''    return p;'' @ nl @ ''}'')) (\<lambda>_. add_agg_fn name t t)))) (\<lambda>_ _. True)"
    if "grows s u" for u u'
    by (rule st.s_if, simp, rule st.s_ret, simp, rule st_pick, assumption, rule st_agg_fn [OF lit(1)])
      (use agg comp that in \<open>auto simp: overlay_helper_def startswith_def grows_def\<close>)
  have get: "st.steps 0 0 d u u'
      (bind (choice ?fs) (\<lambda>(sn, f, ft). bind (fresh ''aggget'') (\<lambda>name.
         bind (declare_text (''fn '' @ name @ ''(p: '' @ sn @ '') -> '' @ ft @ '' {'' @ nl @ ''    return p.'' @ f @ '';'' @ nl @ ''}'')) (\<lambda>_. add_agg_fn name sn ft))))
      (bind (choice ?fs) (\<lambda>(sn, f, ft). bind (fresh ''aggget'') (\<lambda>name.
         bind (declare_text (''fn '' @ name @ ''(p: '' @ sn @ '') -> '' @ ft @ '' {'' @ nl @ ''    return p.'' @ f @ '';'' @ nl @ ''}'')) (\<lambda>_. add_agg_fn name sn ft)))) (\<lambda>_ _. True)"
    if ne: "?fs \<noteq> []" and u: "shape u = shape s" for u u'
  proof (rule st_pick [OF ne])
    fix x and v v' :: gen_state assume x: "x \<in> set ?fs" and v: "shape v = shape u"
    obtain sn f ft where p: "x = (sn, f, ft)" by (cases x)
    note F = field [OF x [unfolded p]]
    show "st.steps 0 0 d v v'
      (case x of (sn, f, ft) \<Rightarrow> bind (fresh ''aggget'') (\<lambda>name.
         bind (declare_text (''fn '' @ name @ ''(p: '' @ sn @ '') -> '' @ ft @ '' {'' @ nl @ ''    return p.'' @ f @ '';'' @ nl @ ''}'')) (\<lambda>_. add_agg_fn name sn ft)))
      (case x of (sn, f, ft) \<Rightarrow> bind (fresh ''aggget'') (\<lambda>name.
         bind (declare_text (''fn '' @ name @ ''(p: '' @ sn @ '') -> '' @ ft @ '' {'' @ nl @ ''    return p.'' @ f @ '';'' @ nl @ ''}'')) (\<lambda>_. add_agg_fn name sn ft))) (\<lambda>_ _. True)"
      unfolding p prod.case by (rule st_agg_fn [OF lit(2)]) (use F comp u v in \<open>simp_all add: overlay_helper_def startswith_def\<close>)
  qed
  show ?thesis
    unfolding gen_aggregate_abi_def Let_def
    by (rule st.s_get_state, unfold sh(1,2), rule st.s_randrange, simp, rule st.s_bind [OF st.s_for_same], rule one, erule grows_trans [rotated],
        simp add: grows_def, rule st.s_flip_if, simp, rule st.s_if, simp, rule get, simp, simp add: grows_def, rule st.s_ret) simp
qed

section \<open>Bodies with an environment of their own\<close>

text \<open>Inside a helper both runs have the same variables.\<close>

definition eqname :: "string \<Rightarrow> string \<Rightarrow> bool" where
  "eqname x y \<longleftrightarrow> y = x \<and> wordy x \<and> plain x"

lemma eqname_naming: "naming eqname" and eqname_eq: "eqname \<le> (=)"
  by (auto simp: naming_def bi_unique_def eqname_def)

definition names_ok :: "(string \<Rightarrow> string list option) \<Rightarrow> bool" where
  "names_ok e \<longleftrightarrow> (\<forall>t l. e t = Some l \<longrightarrow> list_all (\<lambda>x. wordy x \<and> plain x) l)"

definition helper_run :: "gen_state \<Rightarrow> gen_state \<Rightarrow> gen_state \<Rightarrow> gen_state \<Rightarrow> bool" where
  "helper_run s s' u u' \<longleftrightarrow> pair s s' \<and> (\<exists>e t. names_ok e \<and> u = s\<lparr>gs_env := e, gs_depth := 1, tape := t\<rparr> \<and> u' = s'\<lparr>gs_env := e, gs_depth := 1, tape := t\<rparr>)"

interpretation lc: run_pair "helper_run s s'" "\<lambda>_ _. True" for s s'
proof unfold_locales
  fix u v w :: gen_state and u' t
  show True and True by simp_all
  show "helper_run s s' u u' \<Longrightarrow> tape u' = tape u" by (auto simp: helper_run_def)
  assume "helper_run s s' u u'"
  then obtain e r where e: "pair s s'" "names_ok e" "u = s\<lparr>gs_env := e, gs_depth := 1, tape := r\<rparr>" "u' = s'\<lparr>gs_env := e, gs_depth := 1, tape := r\<rparr>"
    by (auto simp: helper_run_def)
  have "u\<lparr>tape := t\<rparr> = s\<lparr>gs_env := e, gs_depth := 1, tape := t\<rparr>" "u'\<lparr>tape := t\<rparr> = s'\<lparr>gs_env := e, gs_depth := 1, tape := t\<rparr>"
    unfolding e(3,4) by simp_all
  then show "helper_run s s' (u\<lparr>tape := t\<rparr>) (u'\<lparr>tape := t\<rparr>) \<and> True" using e(1,2) unfolding helper_run_def by blast
qed

lemma helper_runs: "helper_run s s' u u' \<Longrightarrow> twin_runs eqname u u'"
proof (unfold_locales)
  assume "helper_run s s' u u'"
  then obtain e t where e: "pair s s'" "names_ok e" "u = s\<lparr>gs_env := e, gs_depth := 1, tape := t\<rparr>" "u' = s'\<lparr>gs_env := e, gs_depth := 1, tape := t\<rparr>"
    by (auto simp: helper_run_def)
  have sh: "shape u = shape s" "shape u' = shape s'" unfolding e(3,4) by simp_all
  have env: "list_all2 eqname (env_get u ty) (env_get u' ty)" for ty
    using e(2) unfolding e(3,4) by (cases "e ty") (auto simp: env_get_def names_ok_def eqname_def list_all2_same list_all_iff)
  show "alike eqname u u'"
    using pairE(1,2) [OF e(1)] types_ok_shape [OF sh(1)] env sh unfolding alike_def by (simp add: eqname_naming)
qed

lemma vals_eqname: "vals eqname x y \<Longrightarrow> y = x \<and> plain x" and texts_eqname: "texts eqname x y \<Longrightarrow> y = x \<and> plain x"
  using eqname_eq by (auto simp: vals_def texts_def)

lemma lc_add_env: "wordy x \<Longrightarrow> plain x \<Longrightarrow> lc.steps s s' u u' (add_env t x) (add_env t x) (\<lambda>_ _. True)"
  unfolding add_env_def
proof (rule lc.s_modify)
  assume x: "wordy x" "plain x" and h: "helper_run s s' u u'"
  then obtain e r where e: "pair s s'" "names_ok e" "u = s\<lparr>gs_env := e, gs_depth := 1, tape := r\<rparr>" "u' = s'\<lparr>gs_env := e, gs_depth := 1, tape := r\<rparr>"
    by (auto simp: helper_run_def)
  let ?e = "e(t \<mapsto> (case e t of None \<Rightarrow> [] | Some l \<Rightarrow> l) @ [x])"
  have "names_ok ?e" using e(2) x by (auto simp: names_ok_def split: option.splits if_splits)
  moreover have "u\<lparr>gs_env := (gs_env u)(t \<mapsto> env_get u t @ [x])\<rparr> = s\<lparr>gs_env := ?e, gs_depth := 1, tape := r\<rparr>"
      "u'\<lparr>gs_env := (gs_env u')(t \<mapsto> env_get u' t @ [x])\<rparr> = s'\<lparr>gs_env := ?e, gs_depth := 1, tape := r\<rparr>"
    unfolding e(3,4) by (simp_all add: env_get_def)
  ultimately show "helper_run s s' (u\<lparr>gs_env := (gs_env u)(t \<mapsto> env_get u t @ [x])\<rparr>) (u'\<lparr>gs_env := (gs_env u')(t \<mapsto> env_get u' t @ [x])\<rparr>) \<and> True"
    using e(1) unfolding helper_run_def by blast
qed

lemma lc_leaf: "t \<in> set SCALARS \<Longrightarrow> (\<And>x v v'. plain x \<Longrightarrow> helper_run s s' v v' \<Longrightarrow> lc.steps s s' v v' (f x) (f' x) Q) \<Longrightarrow>
    lc.steps s s' u u' (bind (gen_leaf t) f) (bind (gen_leaf t) f') Q"
  by (rule lc.s_drawn [OF twin_runs.lock_leaf [OF helper_runs]]) (use lc.draw in \<open>blast dest!: vals_eqname\<close>)+

lemma lc_val: "t \<in> set SCALARS \<Longrightarrow> lc.steps s s' u u' (gen_val t 0) (gen_val t 0) (\<lambda>x y. y = x \<and> plain x)"
  by (rule lc.s_mono [OF lc.s_draw [OF twin_runs.lock_val_scalar [OF helper_runs]]]) (auto dest: vals_eqname)

lemma lc_bool: "(\<And>x v v'. plain x \<Longrightarrow> helper_run s s' v v' \<Longrightarrow> lc.steps s s' v v' (f x) (f' x) Q) \<Longrightarrow>
    lc.steps s s' u u' (bind gen_bool f) (bind gen_bool f') Q"
  by (rule lc.s_drawn [OF twin_runs.lock_bool [OF helper_runs]]) (use lc.draw in \<open>blast dest!: texts_eqname\<close>)+

text \<open>A body with its own environment only draws.\<close>

lemma lock_with_env:
  assumes p: "pair s s'" and e: "names_ok e" and m: "\<And>u u'. lc.steps s s' u u' m m P"
  shows "lockstep s s' (with_env e m) (with_env e m) P"
  unfolding lockstep_def
proof
  fix t
  let ?u = "s\<lparr>gs_env := e, gs_depth := 1, tape := t\<rparr>" and ?u' = "s'\<lparr>gs_env := e, gs_depth := 1, tape := t\<rparr>"
  have u: "helper_run s s' ?u ?u'" using p e unfolding helper_run_def by blast
  obtain x x' v v' where m: "m ?u = Inr (x, v)" "m ?u' = Inr (x', v')" "helper_run s s' v v'" "P x x'"
    by (rule lc.stepsE [OF m u])
  then obtain f r where v: "v = s\<lparr>gs_env := f, gs_depth := 1, tape := r\<rparr>" "v' = s'\<lparr>gs_env := f, gs_depth := 1, tape := r\<rparr>"
    by (auto simp: helper_run_def)
  have sw: "s\<lparr>tape := t, gs_env := e, gs_depth := 1\<rparr> = ?u" "s'\<lparr>tape := t, gs_env := e, gs_depth := 1\<rparr> = ?u'" by simp_all
  have restored: "v\<lparr>gs_env := gs_env s, gs_depth := gs_depth s\<rparr> = s\<lparr>tape := r\<rparr>" "v'\<lparr>gs_env := gs_env s', gs_depth := gs_depth s'\<rparr> = s'\<lparr>tape := r\<rparr>"
    unfolding v by simp_all
  show "\<exists>x x' r. with_env e m (s\<lparr>tape := t\<rparr>) = Inr (x, s\<lparr>tape := r\<rparr>) \<and> with_env e m (s'\<lparr>tape := t\<rparr>) = Inr (x', s'\<lparr>tape := r\<rparr>) \<and> P x x'"
    using m(1,2,4) restored unfolding with_env_def bind_def get_state_def gets_def modify_def ret_def by (auto simp: sw simp del: One_nat_def)
qed

section \<open>Functions\<close>

lemma lc_params: "lc.steps s s' u u' (for_m (\<lambda>(pn, pt). add_env pt pn) ps) (for_m (\<lambda>(pn, pt). add_env pt pn) ps) (\<lambda>_ _. True)"
  if "list_all (\<lambda>(pn, pt). wordy pn \<and> plain pn) ps"
  by (rule lc.s_for_same) (use that in \<open>auto simp: list_all_iff intro!: lc_add_env\<close>)

definition letters_num :: "string \<Rightarrow> bool" where
  "letters_num x \<longleftrightarrow> (\<exists>p i. letters p \<and> x = p @ str_nat i)"

lemma names_ok_empty: "names_ok (\<lambda>_. None)"
  by (simp add: names_ok_def)

lemma add_function_pair:
  assumes p: "pair s s'" and f: "plain f" "list_all (\<lambda>(p, t). t \<in> set SCALARS) ps"
  shows "pair (s\<lparr>gs_functions := gs_functions s @ [(f, ps, r)]\<rparr>) (s'\<lparr>gs_functions := gs_functions s' @ [(f, ps, r)]\<rparr>)"
proof (rule pair_tables [OF p])
  have ext: "extends s (s\<lparr>gs_functions := gs_functions s @ [(f, ps, r)]\<rparr>)" by (simp add: extends_def)
  then show "extends s (s\<lparr>gs_functions := gs_functions s @ [(f, ps, r)]\<rparr>)" .
  show "types_ok (s\<lparr>gs_functions := gs_functions s @ [(f, ps, r)]\<rparr>)"
    by (rule types_extend [OF pairE(2) [OF p] _ ext]) (use pairE(4) [OF p] f in \<open>auto simp: heads_ok_def\<close>)
qed (use pairE(1) [OF p] in \<open>simp_all add: shape_def rest_def outer_def\<close>)

lemma both_gen_function:
  assumes p: "pair s s'" and J: "\<And>u u'. pair u u' \<Longrightarrow> J () () u u'"
  shows "both (gen_function i) (gen_function i) J s s'"
  unfolding gen_function_def
proof (rule seq_range [OF p], simp, rule both_bind, rule both_draw [OF lock_map_pick [where Q = "\<lambda>(pn, t). letters_num pn \<and> t \<in> set SCALARS"] pairE(3) [OF pair_tape [OF p]]])
  show "VALUE_TYPES \<noteq> []" by simp
  show "case (''p'' @ str_nat k, x) of (pn, t) \<Rightarrow> letters_num pn \<and> t \<in> set SCALARS" if "x \<in> set VALUE_TYPES" for k x
    using that scalar_subs(3) by (auto simp: letters_num_def letters_def is_lower_def intro!: exI [of _ "''p''"])
  fix n t ps ps' t'
  assume ps: "ps' = ps \<and> list_all (\<lambda>(pn, t). letters_num pn \<and> t \<in> set SCALARS) ps \<and> length ps = length [0..<n]"
  then have eq: "ps' = ps" and ok: "list_all (\<lambda>(pn, t). letters_num pn \<and> t \<in> set SCALARS) ps" by auto
  have w: "list_all (\<lambda>(pn, pt). wordy pn \<and> plain pn) ps" using ok letters_word by (auto simp: list_all_iff letters_num_def)
  have line: "plain (param_list ps)" by (rule param_list_plain) (use w ok scalar_plain in \<open>auto simp: list_all_iff\<close>)
  have scal: "list_all (\<lambda>(p, t). t \<in> set SCALARS) ps" using ok by (auto simp: list_all_iff)
  let ?s = "s\<lparr>tape := t, tape := t'\<rparr>" and ?s' = "s'\<lparr>tape := t, tape := t'\<rparr>"
  have q: "pair ?s ?s'" by (intro pair_tape p)
  show "both (bind (choice VALUE_TYPES) (\<lambda>r. bind (with_env (\<lambda>_. None) (bind (for_m (\<lambda>(pn, pt). add_env pt pn) ps) (\<lambda>_. gen_val r 0))) (\<lambda>v.
        bind (declare_text (''fn fn'' @ str_nat i @ ''('' @ param_list ps @ '') -> '' @ r @ '' {'' @ nl @ ''    return '' @ v @ '';'' @ nl @ ''}'')) (\<lambda>_.
          modify (\<lambda>s. s\<lparr>gs_functions := gs_functions s @ [(''fn'' @ str_nat i, ps, r)]\<rparr>)))))
      (bind (choice VALUE_TYPES) (\<lambda>r. bind (with_env (\<lambda>_. None) (bind (for_m (\<lambda>(pn, pt). add_env pt pn) ps') (\<lambda>_. gen_val r 0))) (\<lambda>v.
        bind (declare_text (''fn fn'' @ str_nat i @ ''('' @ param_list ps' @ '') -> '' @ r @ '' {'' @ nl @ ''    return '' @ v @ '';'' @ nl @ ''}'')) (\<lambda>_.
          modify (\<lambda>s. s\<lparr>gs_functions := gs_functions s @ [(''fn'' @ str_nat i, ps', r)]\<rparr>))))) J ?s ?s'"
    unfolding eq
  proof (rule draw_pick [OF q], simp, rule both_bind)
    fix r t2 assume r: "r \<in> set VALUE_TYPES"
    note rs = scalar_subs(3) [OF r] and q2 = pair_tape [OF q, of t2]
    have body: "lockstep (?s\<lparr>tape := t2\<rparr>) (?s'\<lparr>tape := t2\<rparr>) (with_env (\<lambda>_. None) (bind (for_m (\<lambda>(pn, pt). add_env pt pn) ps) (\<lambda>_. gen_val r 0)))
        (with_env (\<lambda>_. None) (bind (for_m (\<lambda>(pn, pt). add_env pt pn) ps) (\<lambda>_. gen_val r 0))) (\<lambda>x y. y = x \<and> plain x)"
      by (rule lock_with_env [OF q2 names_ok_empty], rule lc.s_bind [OF lc_params [OF w]], rule lc_val [OF rs])
    show "both (with_env (\<lambda>_. None) (bind (for_m (\<lambda>(pn, pt). add_env pt pn) ps) (\<lambda>_. gen_val r 0)))
        (with_env (\<lambda>_. None) (bind (for_m (\<lambda>(pn, pt). add_env pt pn) ps) (\<lambda>_. gen_val r 0)))
        (\<lambda>x x'. both (bind (declare_text (''fn fn'' @ str_nat i @ ''('' @ param_list ps @ '') -> '' @ r @ '' {'' @ nl @ ''    return '' @ x @ '';'' @ nl @ ''}'')) (\<lambda>_.
            modify (\<lambda>s. s\<lparr>gs_functions := gs_functions s @ [(''fn'' @ str_nat i, ps, r)]\<rparr>)))
          (bind (declare_text (''fn fn'' @ str_nat i @ ''('' @ param_list ps @ '') -> '' @ r @ '' {'' @ nl @ ''    return '' @ x' @ '';'' @ nl @ ''}'')) (\<lambda>_.
            modify (\<lambda>s. s\<lparr>gs_functions := gs_functions s @ [(''fn'' @ str_nat i, ps, r)]\<rparr>))) J)
        (?s\<lparr>tape := t2\<rparr>) (?s'\<lparr>tape := t2\<rparr>)"
      by (rule both_draw [OF body pairE(3) [OF q2]], elim conjE, hypsubst, rule both_bind, rule both_declare_text [OF pair_tape [OF q2]],
          use line scalar_plain [OF rs] in simp, simp add: overlay_helper_def startswith_def, rule both_modify, rule J, erule add_function_pair)
        (use scal in simp_all)
  qed
qed

lemma both_gen_functions:
  assumes "pair s s'" and "\<And>u u'. pair u u' \<Longrightarrow> J () () u u'"
  shows "both gen_functions gen_functions J s s'"
  unfolding gen_functions_def loop_n_def [symmetric]
  by (rule both_pairs [OF assms(1)], simp, erule both_gen_function, assumption, erule assms(2))

lemma lc_result_body:
  assumes s: "pair s s'" and ot: "ot \<in> set INTS"
  shows "lc.steps s s' u u' (gen_result_body ot) (gen_result_body ot) (\<lambda>xs ys. ys = xs \<and> list_all plain xs)"
proof -
  have same: "gs_result_fns v' = gs_result_fns s" "gs_result_fns v = gs_result_fns s" if "helper_run s s' v v'" for v v'
    using that twinsE(2) [OF s] by (auto simp: helper_run_def rest_def)
  have ok: "plain f \<and> pt \<in> set INTS \<and> o_t \<in> set INTS" if "(f, pt, o_t) \<in> set (gs_result_fns s)" for f pt o_t
    using twinsE(3) [OF s] that by (auto simp: rest_ok_def)
  have u32: "''u32'' \<in> set SCALARS" by code_simp
  have chain: "lc.steps s s' v v'
      (if c then bind (choice (gs_result_fns s)) (\<lambda>(cname, cpt, cot). bind (gen_leaf cpt) (\<lambda>a. bind (add_env cot ''cv'') (\<lambda>_.
         ret [''    let cv: '' @ cot @ '' = '' @ cname @ ''('' @ a @ '')?;'']))) else ret [])
      (if c then bind (choice (gs_result_fns s)) (\<lambda>(cname, cpt, cot). bind (gen_leaf cpt) (\<lambda>a. bind (add_env cot ''cv'') (\<lambda>_.
         ret [''    let cv: '' @ cot @ '' = '' @ cname @ ''('' @ a @ '')?;'']))) else ret []) (\<lambda>xs ys. ys = xs \<and> list_all plain xs)"
    if c: "c \<Longrightarrow> gs_result_fns s \<noteq> []" for c v v'
  proof (rule lc.s_if, simp, rule lc.s_pick [OF c], assumption)
    fix x t assume x: "x \<in> set (gs_result_fns s)"
    obtain f pt o_t where p: "x = (f, pt, o_t)" by (cases x)
    note O = ok [OF x [unfolded p]]
    have cv: "wordy ''cv''" "plain ''cv''" by (simp_all add: wordy_def is_lower_def)
    show "lc.steps s s' (v\<lparr>tape := t\<rparr>) (v'\<lparr>tape := t\<rparr>)
        (case x of (cname, cpt, cot) \<Rightarrow> bind (gen_leaf cpt) (\<lambda>a. bind (add_env cot ''cv'') (\<lambda>_. ret [''    let cv: '' @ cot @ '' = '' @ cname @ ''('' @ a @ '')?;''])))
        (case x of (cname, cpt, cot) \<Rightarrow> bind (gen_leaf cpt) (\<lambda>a. bind (add_env cot ''cv'') (\<lambda>_. ret [''    let cv: '' @ cot @ '' = '' @ cname @ ''('' @ a @ '')?;''])))
        (\<lambda>xs ys. ys = xs \<and> list_all plain xs)"
      unfolding p prod.case
      by (rule lc_leaf, use O scalar_subs(2) in blast, rule lc.s_bind [OF lc_add_env [OF cv]], rule lc.s_ret) (use O scalar_plain [OF scalar_subs(2)] in simp)
  qed (simp add: lc.s_ret)
  show ?thesis
  proof (rule lc.s_pre)
    assume h: "helper_run s s' u u'"
    show "lc.steps s s' u u' (gen_result_body ot) (gen_result_body ot) (\<lambda>xs ys. ys = xs \<and> list_all plain xs)"
      unfolding gen_result_body_def
      by (rule lc.s_gets, unfold same [OF h], rule lc.s_flip_if, simp, rule lc.s_bind [OF chain], assumption, rule lc_bool, rule lc.s_lit [OF u32],
          rule lc.s_bind [OF lc_val [OF scalar_subs(2) [OF ot]]], rule lc.s_ret) (auto simp: literal_def)
  qed
qed

lemma st_gen_result_function: "st.steps 0 0 0 s s' (gen_result_function i) (gen_result_function i) (\<lambda>_ _. True)"
  unfolding gen_result_function_def
proof (rule st_pick, simp, rule st_pick, simp, rule st.s_drawn)
  fix pt ot and v v' :: gen_state assume pt: "pt \<in> set INTS" and ot: "ot \<in> set INTS"
  let ?f = "''r'' @ str_nat i"
  have env: "names_ok [pt \<mapsto> [''p'']]" by (simp add: names_ok_def wordy_def is_lower_def)
  show "pair v v' \<Longrightarrow> lockstep v v' (with_env [pt \<mapsto> [''p'']] (gen_result_body ot)) (with_env [pt \<mapsto> [''p'']] (gen_result_body ot))
      (\<lambda>xs ys. ys = xs \<and> list_all plain xs)"
    by (rule lock_with_env [OF _ env]) (use lc_result_body ot in blast)+
  fix xs xs' t assume xs: "xs' = xs \<and> list_all plain xs"
  have tab: "st.steps 0 0 0 w w' (modify (\<lambda>s. s\<lparr>gs_result_fns := gs_result_fns s @ [(?f, pt, ot)]\<rparr>))
      (modify (\<lambda>s. s\<lparr>gs_result_fns := gs_result_fns s @ [(?f, pt, ot)]\<rparr>)) (\<lambda>_ _. True)" for w w'
    by (rule st_table, simp add: shape_def, simp add: outer_def, simp add: rest_def, erule rest_ok_table) (use pt ot in \<open>auto simp: shape_def\<close>)
  show "st.steps 0 0 0 (v\<lparr>tape := t\<rparr>) (v'\<lparr>tape := t\<rparr>)
      (bind (declare_text (''fn r'' @ str_nat i @ ''(p: '' @ pt @ '') -> Result<'' @ ot @ '', u32> {'' @ nl @ join nl xs @ nl @ ''}'')) (\<lambda>_.
        modify (\<lambda>s. s\<lparr>gs_result_fns := gs_result_fns s @ [(?f, pt, ot)]\<rparr>)))
      (bind (declare_text (''fn r'' @ str_nat i @ ''(p: '' @ pt @ '') -> Result<'' @ ot @ '', u32> {'' @ nl @ join nl xs' @ nl @ ''}'')) (\<lambda>_.
        modify (\<lambda>s. s\<lparr>gs_result_fns := gs_result_fns s @ [(?f, pt, ot)]\<rparr>))) (\<lambda>_ _. True)"
    unfolding conjunct1 [OF xs]
    by (rule st.s_bind [OF st_declare], use xs pt ot scalar_plain [OF scalar_subs(2)] in simp, simp add: overlay_helper_def startswith_def, rule tab)
qed

lemma st_gen_result_functions: "st.steps 0 0 0 s s' gen_result_functions gen_result_functions (\<lambda>_ _. True)"
  unfolding gen_result_functions_def by (rule st_loop, simp, rule st_gen_result_function)

lemma st_gen_unions: "st.steps n k d s s' gen_unions gen_unions (\<lambda>_ _. True)"
  unfolding gen_unions_def by (rule st_loop, simp, rule st_gen_union_decl)

lemma both_pair_steps:
  "pair s s' \<Longrightarrow> st.steps 0 0 0 s s' m m' P \<Longrightarrow> (\<And>x x' u u'. P x x' \<Longrightarrow> pair u u' \<Longrightarrow> J x x' u u') \<Longrightarrow> both m m' J s s'"
  using both_steps [of 0 0 0 s s' m m' P J] by blast

lemma both_declare_helpers:
  assumes "pair s s'" and J: "\<And>u u'. pair u u' \<Longrightarrow> J () () u u'"
  shows "both declare_helpers declare_helpers J s s'"
  unfolding declare_helpers_def
  by (rule both_bind, rule both_pair_steps [OF assms(1) st_kernel_decls], rule both_bind, erule both_pair_steps [OF _ st_offset_overlay_decls],
      rule both_bind, erule both_pair_steps [OF _ st_gen_unions], rule both_bind, erule both_pair_steps [OF _ st_exprswitch_decls],
      rule both_bind, erule both_pair_steps [OF _ st_declare_conv], rule both_bind, erule both_gen_functions,
      rule both_bind, erule both_pair_steps [OF _ st_gen_result_functions], erule both_pair_steps [OF _ st_aggregate_abi]) (use J in simp)

section \<open>Globals\<close>

lemma st_declare_global:
  assumes kw: "\<And>x. \<not> overlay_helper (kw @ '' '' @ x)" "plain kw" and pre: "letters pre"
    and f: "\<And>x ty u u'. renamed 0 0 x x \<Longrightarrow> low (gs_nvars u) x \<Longrightarrow> ty \<in> set INTS \<Longrightarrow> twins 0 0 d u u' \<Longrightarrow> st.steps 0 0 d u u' (f (x, ty)) (f' (x, ty)) Q"
  shows "st.steps 0 0 d s s' (bind (declare_global kw pre) f) (bind (declare_global kw pre) f') Q"
  unfolding declare_global_def bind_assoc ret_bind
proof (rule st_pick, simp, rule st_fresh_same [OF pre])
  fix ty i and v v' :: gen_state assume ty: "ty \<in> set INTS" and i: "i < gs_nvars v"
  let ?x = "pre @ str_nat i"
  note sc = scalar_subs(2) [OF ty]
  have x: "renamed 0 0 ?x ?x" "plain ?x" using pre by (auto simp: renamed_def shifted_def)
  have lw: "low (gs_nvars w) ?x" if "gs_nvars v \<le> gs_nvars w" for w :: gen_state using pre i that by (auto simp: low_def)
  show "st.steps 0 0 d v v' (bind (ty_lit ty) (\<lambda>v. bind (declare_text (kw @ '' '' @ ?x @ '': '' @ ty @ '' = '' @ v @ '';'')) (\<lambda>_. f (?x, ty))))
      (bind (ty_lit ty) (\<lambda>v. bind (declare_text (kw @ '' '' @ ?x @ '': '' @ ty @ '' = '' @ v @ '';'')) (\<lambda>_. f' (?x, ty)))) Q"
  proof (rule st.s_lit [OF sc], rule st.s_bind [OF st_declare])
    fix y t assume y: "literal y"
    show "plain (kw @ '' '' @ ?x @ '': '' @ ty @ '' = '' @ y @ '';'')" using y x(2) kw(2) scalar_plain [OF sc] by (simp add: literal_def)
    show "\<not> overlay_helper (kw @ '' '' @ ?x @ '': '' @ ty @ '' = '' @ y @ '';'')" by (rule kw(1))
    fix a b u u' assume "twins 0 0 d u u'" "grows (v\<lparr>tape := t\<rparr>) u"
    then show "st.steps 0 0 d u u' (f (?x, ty)) (f' (?x, ty)) Q" by (intro f x(1) ty lw) (simp_all add: grows_def)
  qed
qed

lemma st_immutable:
  assumes "renamed 0 0 x x" and "twins 0 0 d s s' \<Longrightarrow> low (gs_nvars s) x"
  shows "st.steps 0 0 d s s' (modify (\<lambda>s. s\<lparr>gs_immutable := List.insert x (gs_immutable s)\<rparr>)) (modify (\<lambda>s. s\<lparr>gs_immutable := List.insert x (gs_immutable s)\<rparr>)) (\<lambda>_ _. True)"
proof (rule st.s_modify)
  assume tw: "twins 0 0 d s s'"
  show "twins 0 0 d (s\<lparr>gs_immutable := List.insert x (gs_immutable s)\<rparr>) (s'\<lparr>gs_immutable := List.insert x (gs_immutable s')\<rparr>) \<and>
      grows s (s\<lparr>gs_immutable := List.insert x (gs_immutable s)\<rparr>)"
    by (intro conjI twins_update [OF tw])
      (use assms(2) [OF tw] twinsE [OF tw] in \<open>auto simp: same_decls_def text_ok_def bounded_def grows_def dest!: renamed_same\<close>)
qed

lemma kw_lits: "\<not> overlay_helper (''global'' @ '' '' @ x)" "\<not> overlay_helper (''const'' @ '' '' @ x)" "plain ''global''" "plain ''const''"
    "letters ''g''" "letters ''c''" "letters ''gp''"
  by (simp_all add: overlay_helper_def startswith_def letters_def is_lower_def)

definition target_ok :: "string \<times> string \<Rightarrow> bool" where
  "target_ok x \<longleftrightarrow> plain (fst x) \<and> snd x \<in> set INTS"

lemma st_declare_globals: "st.steps 0 0 d s s' declare_globals declare_globals (\<lambda>xs ys. ys = xs \<and> list_all target_ok xs)"
proof -
  have glob: "st.steps 0 0 d u u' (bind (declare_global ''global'' ''g'') (\<lambda>(name, ty). add_var ty name))
      (bind (declare_global ''global'' ''g'') (\<lambda>(name, ty). add_var ty name)) (\<lambda>_ _. True)" for u u'
    by (rule st_declare_global [OF kw_lits(1,3,5)], unfold prod.case, rule st_add_var)
  have const: "st.steps 0 0 d u u' (bind (declare_global ''const'' ''c'') (\<lambda>(name, ty).
        bind (add_var ty name) (\<lambda>_. modify (\<lambda>s. s\<lparr>gs_immutable := List.insert name (gs_immutable s)\<rparr>))))
      (bind (declare_global ''const'' ''c'') (\<lambda>(name, ty).
        bind (add_var ty name) (\<lambda>_. modify (\<lambda>s. s\<lparr>gs_immutable := List.insert name (gs_immutable s)\<rparr>)))) (\<lambda>_ _. True)" for u u'
    by (rule st_declare_global [OF kw_lits(2,4,6)], unfold prod.case, rule st.s_bind [OF st_add_var], assumption, assumption, rule st_immutable, assumption)
      (auto simp: grows_def intro: low_mono)
  have target: "st.steps 0 0 d u u' (declare_global ''global'' ''gp'') (declare_global ''global'' ''gp'') (\<lambda>x y. y = x \<and> target_ok x)" for u u'
  proof -
    have "st.steps 0 0 d u u' (bind (declare_global ''global'' ''gp'') ret) (bind (declare_global ''global'' ''gp'') ret) (\<lambda>x y. y = x \<and> target_ok x)"
      by (rule st_declare_global [OF kw_lits(1,3,7)], rule st.s_ret) (auto simp: target_ok_def dest: renamed_plain)
    then show ?thesis by simp
  qed
  show ?thesis
    unfolding declare_globals_def
    by (rule st.s_bind [OF st.s_loop], simp, rule glob, rule st.s_bind [OF st.s_loop], simp, rule const, rule st.s_randrange, simp,
        rule st.s_mono [OF st.s_repeat [OF target]], erule list_same)
qed

text \<open>All declarations of a program.\<close>

lemma both_declare_all:
  assumes "declaring 2 0 s s'"
    and "\<And>g r c os u u'. pair u u' \<Longrightarrow> uint_option r r \<Longrightarrow> uint_option c c \<Longrightarrow> list_all target_ok os \<Longrightarrow> J (g, r, c, os) (g, r, c, os) u u'"
  shows "both declare_all declare_all J s s'"
  unfolding declare_all_def
  by (rule both_bind, rule both_declare_types [OF assms(1)], rule both_bind, erule both_declare_helpers, rule both_bind, erule both_pair_steps [OF _ st_declare_spk],
      rule both_bind, erule both_pair_steps [OF _ st_declare_recf], rule both_bind, erule both_pair_steps [OF _ st_declare_generic],
      rule both_bind, erule both_pair_steps [OF _ st_declare_closure], rule both_bind, erule both_pair_steps [OF _ st_declare_globals], rule both_ret)
    (use assms(2) in \<open>auto simp: uint_option_def\<close>)

end
