(* ===== verification/Mcfuzz_Gen_Harness.thy ===== *)
theory Mcfuzz_Gen_Harness
  imports Mcfuzz_Gen_Views Mcfuzz_Gen_Helpers
begin

text \<open>
  The body of \<open>harness\<close> in two runs at once: the locals, the calls of the helpers, the pointers, the kernel
  values, the observers and the statements.
\<close>

section \<open>Locals and helper calls\<close>

lemma st_declare_locals: "st.steps 0 0 d s s' declare_locals declare_locals (\<lambda>_ _. True)"
proof (rule st.s_pre)
  assume tw: "twins 0 0 d s s'"
  note R = twins_runs [OF tw]
  have ts: "local_types s' = local_types s" using twin_runs.same_shape [OF R] by (simp add: local_types_def)
  have ok: "val_ok u t" if "t \<in> set (local_types s)" "grows s u" for u t
    using twin_runs.local_types_ok [OF R that(1)] val_ok_shape [of u s] that(2) by (simp add: grows_def)
  have locals: "st.steps 0 0 d u u' (for_m (declare_local ''    '') tys) (for_m (declare_local ''    '') tys) (\<lambda>_ _. True)"
    if "set tys \<subseteq> set (local_types s)" "grows s u" for tys u u'
    by (rule st.s_for_same, rule st_declare_local) (use ok that in \<open>auto intro: grows_trans\<close>)
  have tuples: "st.steps 0 0 d u u' (bind (gets gs_tuples) (\<lambda>tups. for_m (\<lambda>ty. bind (fresh ''v'') (\<lambda>name. bind (gen_val ty 0) (\<lambda>v.
        bind (emit (''    var '' @ name @ '': '' @ ty @ '' = '' @ v @ '';'')) (\<lambda>_. add_env ty name)))) (map fst tups)))
      (bind (gets gs_tuples) (\<lambda>tups. for_m (\<lambda>ty. bind (fresh ''v'') (\<lambda>name. bind (gen_val ty 0) (\<lambda>v.
        bind (emit (''    var '' @ name @ '': '' @ ty @ '' = '' @ v @ '';'')) (\<lambda>_. add_env ty name)))) (map fst tups))) (\<lambda>_ _. True)"
    if g: "grows s u" for u u'
  proof -
    have ty: "val_ok v t \<and> plain t" if "t \<in> fst ` set (gs_tuples u)" "grows u v" for t v
    proof -
      have t: "t \<in> fst ` set (gs_tuples s)" using that(1) g by (simp add: grows_def shape_def)
      then have "val_ok s t" by (simp add: val_ok_def)
      then show ?thesis using val_ok_shape [of v s] that(2) g twin_runs.val_ok_plain [OF R] by (simp add: grows_def)
    qed
    show ?thesis
    proof (rule st.s_pre)
      assume tw': "twins 0 0 d u u'"
      have eq: "gs_tuples u' = gs_tuples u" using twin_runs.same_shape [OF twins_runs [OF tw']] by simp
      show "st.steps 0 0 d u u' (bind (gets gs_tuples) (\<lambda>tups. for_m (\<lambda>ty. bind (fresh ''v'') (\<lambda>name. bind (gen_val ty 0) (\<lambda>v.
          bind (emit (''    var '' @ name @ '': '' @ ty @ '' = '' @ v @ '';'')) (\<lambda>_. add_env ty name)))) (map fst tups)))
        (bind (gets gs_tuples) (\<lambda>tups. for_m (\<lambda>ty. bind (fresh ''v'') (\<lambda>name. bind (gen_val ty 0) (\<lambda>v.
          bind (emit (''    var '' @ name @ '': '' @ ty @ '' = '' @ v @ '';'')) (\<lambda>_. add_env ty name)))) (map fst tups))) (\<lambda>_ _. True)"
        by (rule st.s_gets, unfold eq, rule st.s_for_same,
            rule st_declare_var [where l = "\<lambda>x v. ''    var '' @ x @ '': '' @ ty @ '' = '' @ v @ '';''" and a = "add_env ty" for ty])
          (use ty in \<open>auto simp: letters_def is_lower_def intro: st_add_env\<close>)
    qed
  qed
  show ?thesis
    unfolding declare_locals_def
    by (rule st.s_gets, unfold ts, rule st.s_drawn [OF lock_sample], simp, elim conjE, hypsubst, rule st.s_bind [OF locals], assumption,
        simp add: grows_def, rule tuples) (auto simp: grows_def)
qed

lemma st_fresh_var:
  assumes "letters p"
    and f: "\<And>x u u'. renamed 0 0 x x \<Longrightarrow> plain x \<Longrightarrow> low (gs_nvars u) x \<Longrightarrow> twins 0 0 d u u' \<Longrightarrow> grows s u \<Longrightarrow> st.steps 0 0 d u u' (f x) (f' x) Q"
  shows "st.steps 0 0 d s s' (bind (fresh p) f) (bind (fresh p) f') Q"
proof (rule st_fresh_same [OF assms(1)], rule f)
  fix i and u u' :: gen_state assume "i < gs_nvars u" "twins 0 0 d u u'" "grows s u"
  then show "renamed 0 0 (p @ str_nat i) (p @ str_nat i)" "plain (p @ str_nat i)" "low (gs_nvars u) (p @ str_nat i)" "twins 0 0 d u u'" "grows s u"
    using assms(1) by (auto simp: renamed_def shifted_def low_def)
qed

lemma st_kernel_term: "plain l \<Longrightarrow> st.steps n k d s s' (add_kernel_term l) (add_kernel_term l) (\<lambda>_ _. True)"
  unfolding add_kernel_term_def
proof (rule st.s_modify)
  assume l: "plain l" and tw: "twins n k d s s'"
  show "twins n k d (s\<lparr>gs_kernel_terms := gs_kernel_terms s @ [l]\<rparr>) (s'\<lparr>gs_kernel_terms := gs_kernel_terms s' @ [l]\<rparr>) \<and>
      grows s (s\<lparr>gs_kernel_terms := gs_kernel_terms s @ [l]\<rparr>)"
    by (intro conjI twins_update [OF tw]) (use l twinsE [OF tw] in \<open>auto simp: same_decls_def text_ok_def bounded_def grows_def\<close>)
qed

text \<open>Declaring a variable of a drawn value, after which it is in scope.\<close>

lemma low_grows: "low (gs_nvars s) x \<Longrightarrow> grows s u \<Longrightarrow> low (gs_nvars u) x"
  by (auto simp: grows_def intro: low_mono)

lemma grows_tape: "grows (s\<lparr>tape := t\<rparr>) u = grows s u"
  by (simp add: grows_def)

lemma st_emit_env:
  assumes "plain l" and "renamed 0 0 x x" and "low (gs_nvars s) x"
  shows "st.steps 0 0 d s s' (bind (emit l) (\<lambda>_. add_env t x)) (bind (emit l) (\<lambda>_. add_env t x)) (\<lambda>_ _. True)"
  by (rule st.s_bind [OF st_emit]) (use assms in \<open>auto intro: st_add_env low_grows\<close>)

lemma st_emit_var:
  assumes "plain l" and "renamed 0 0 x x" and "low (gs_nvars s) x"
  shows "st.steps 0 0 d s s' (bind (emit l) (\<lambda>_. add_var t x)) (bind (emit l) (\<lambda>_. add_var t x)) (\<lambda>_ _. True)"
  by (rule st.s_bind [OF st_emit]) (use assms in \<open>auto intro: st_add_var low_grows\<close>)

lemma st_val_same:
  assumes "twins 0 0 d s s' \<Longrightarrow> val_ok s ty" and "\<And>x t. plain x \<Longrightarrow> twins 0 0 d s s' \<Longrightarrow> st.steps 0 0 d (s\<lparr>tape := t\<rparr>) (s'\<lparr>tape := t\<rparr>) (f x) (f' x) Q"
  shows "st.steps 0 0 d s s' (bind (gen_val ty 0) f) (bind (gen_val ty 0) f') Q"
proof (rule st_val [OF assms(1)], assumption)
  fix x x' t assume v: "vals (renamed 0 0) x x'" and tw: "twins 0 0 d s s'"
  have "renamed 0 0 \<le> (=)" using renamed_same by fastforce
  then have "x' = x" "plain x" using v by (auto simp: vals_def texts_def)
  then show "st.steps 0 0 d (s\<lparr>tape := t\<rparr>) (s'\<lparr>tape := t\<rparr>) (f x) (f' x') Q" using assms(2) [OF _ tw] by simp
qed

lemma call_letters: "letters ''gv''" "letters ''rv''" "letters ''av''" "letters ''clr''" "letters ''p''" "letters ''at''" "letters ''ato''" "letters ''atl''"
    "letters ''pbv''" "letters ''offv''" "letters ''offid''"
  by (simp_all add: letters_def is_lower_def)

lemma scalar_val_ok: "twins n k d s s' \<Longrightarrow> t \<in> set SCALARS \<Longrightarrow> val_ok s t"
  using twin_runs.is_comp_scalar [OF twins_runs] by (simp add: val_ok_def)

lemma st_call_generic: "st.steps 0 0 d s s' call_generic call_generic (\<lambda>_ _. True)"
  unfolding call_generic_def
proof (rule st_pick, simp, rule st_fresh_var [OF call_letters(1)], rule st_val_same)
  fix ty x y t and u u' v v' :: gen_state
  assume ty: "ty \<in> set INTS" and x: "renamed 0 0 x x" "plain x" "low (gs_nvars v) x" "plain y"
  show "twins 0 0 d v v' \<Longrightarrow> val_ok v ty" by (rule scalar_val_ok) (use ty scalar_subs(2) in auto)
  show "st.steps 0 0 d (v\<lparr>tape := t\<rparr>) (v'\<lparr>tape := t\<rparr>) (bind (emit (''    var '' @ x @ '': '' @ ty @ '' = gid('' @ ty @ '', '' @ y @ '');'')) (\<lambda>_. add_var ty x))
      (bind (emit (''    var '' @ x @ '': '' @ ty @ '' = gid('' @ ty @ '', '' @ y @ '');'')) (\<lambda>_. add_var ty x)) (\<lambda>_ _. True)"
    by (rule st_emit_var) (use x scalar_plain [OF scalar_subs(2) [OF ty]] in simp_all)
qed

lemma st_call_recf: "t \<in> set UINTS \<Longrightarrow> st.steps 0 0 d s s' (call_recf t) (call_recf t) (\<lambda>_ _. True)"
  unfolding call_recf_def
  by (rule st_fresh_var [OF call_letters(2)], rule st.s_randrange, simp, rule st_emit_env) (simp_all add: scalar_plain scalar_subs)

lemma st_call_closure: "t \<in> set UINTS \<Longrightarrow> st.steps 0 0 d s s' (call_closure t) (call_closure t) (\<lambda>_ _. True)"
  unfolding call_closure_def
  by (rule st_fresh_var [OF call_letters(4)], rule st.s_bind [OF st_emit], simp add: scalar_plain scalar_subs, simp add: scalar_plain scalar_subs,
      rule st.s_lit, erule scalar_subs, rule st_emit_env) (auto simp: scalar_plain scalar_subs literal_def grows_tape intro: low_grows)

lemma st_call_agg_fn:
  assumes "plain f" and "plain rt" and "is_comp s pt"
  shows "st.steps 0 0 d s s' (call_agg_fn (f, pt, rt)) (call_agg_fn (f, pt, rt)) (\<lambda>_ _. True)"
  unfolding call_agg_fn_def prod.case
  by (rule st_fresh_var [OF call_letters(3)], rule st_val_same, drule grows_comp, simp add: val_ok_def assms(3), rule st_emit_var)
    (use assms(1,2) in simp_all)

lemma st_call_helpers:
  assumes "uint_option r r" and "uint_option c c"
  shows "st.steps 0 0 d s s' (call_helpers g r c) (call_helpers g r c) (\<lambda>_ _. True)"
proof -
  have opt: "st.steps 0 0 d u u' (case q of None \<Rightarrow> ret () | Some t \<Rightarrow> f t) (case q of None \<Rightarrow> ret () | Some t \<Rightarrow> f t) (\<lambda>_ _. True)"
    if "uint_option q q" "\<And>t u u'. t \<in> set UINTS \<Longrightarrow> st.steps 0 0 d u u' (f t) (f t) (\<lambda>_ _. True)" for q f u u'
    using that by (cases q) (auto simp: uint_option_def intro: st.s_ret)
  have aggs: "st.steps 0 0 d u u' (bind (gets gs_agg_fns) (\<lambda>fns. bind (for_m call_agg_fn fns) (\<lambda>_. case c of None \<Rightarrow> ret () | Some t \<Rightarrow> call_closure t)))
      (bind (gets gs_agg_fns) (\<lambda>fns. bind (for_m call_agg_fn fns) (\<lambda>_. case c of None \<Rightarrow> ret () | Some t \<Rightarrow> call_closure t))) (\<lambda>_ _. True)" for u u'
  proof (rule st.s_pre)
    assume tw: "twins 0 0 d u u'"
    have eq: "gs_agg_fns u' = gs_agg_fns u" using twinsE(2) [OF tw] by (simp add: rest_def)
    have ok: "\<forall>(f, pt, rt) \<in> set (gs_agg_fns u). plain f \<and> is_comp u pt \<and> plain rt" using twinsE(3) [OF tw] by (simp add: rest_ok_def)
    show "st.steps 0 0 d u u' (bind (gets gs_agg_fns) (\<lambda>fns. bind (for_m call_agg_fn fns) (\<lambda>_. case c of None \<Rightarrow> ret () | Some t \<Rightarrow> call_closure t)))
        (bind (gets gs_agg_fns) (\<lambda>fns. bind (for_m call_agg_fn fns) (\<lambda>_. case c of None \<Rightarrow> ret () | Some t \<Rightarrow> call_closure t))) (\<lambda>_ _. True)"
      by (rule st.s_gets, unfold eq, rule st.s_bind [OF st.s_for_same], use ok grows_comp in \<open>fastforce intro!: st_call_agg_fn\<close>,
          rule opt [OF assms(2) st_call_closure])
  qed
  show ?thesis
    unfolding call_helpers_def
    by (rule st.s_bind [OF st.s_if], simp, rule st.s_loop, simp, rule st_call_generic, rule st.s_ret, simp,
        rule st.s_bind [OF opt [OF assms(1) st_call_recf]], assumption, rule aggs)
qed

section \<open>Pointers, atomics, packed bits, offsets\<close>

lemma st_declare_pointer:
  assumes "target_ok x"
  shows "st.steps 0 0 d s s' (declare_pointer x) (declare_pointer x) pointer_rel"
proof -
  obtain g ty where x: "x = (g, ty)" "plain g" "ty \<in> set INTS" using assms by (cases x) (auto simp: target_ok_def)
  note ty = scalar_plain [OF scalar_subs(2) [OF x(3)]]
  show ?thesis
    unfolding declare_pointer_def x(1) prod.case
    by (rule st_fresh_var [OF call_letters(5)], rule st_flip, rule st.s_if, simp, rule st_flip, rule st.s_bind [OF st_emit], use x ty in simp,
        use x ty in simp, rule st.s_ret, use x in \<open>simp add: pointer_rel_def\<close>, rule st.s_bind [OF st_emit], use x ty in simp, use x ty in simp,
        rule st.s_ret, use x in \<open>simp add: pointer_rel_def\<close>)
qed

lemma st_declare_pointers:
  assumes "list_all target_ok xs"
  shows "st.steps 0 0 d s s' (map_m declare_pointer xs) (map_m declare_pointer xs) (list_all2 pointer_rel)"
  by (rule st.s_map, rule st_declare_pointer) (use assms in \<open>simp add: list_all_iff\<close>)

lemma st_gen_atomic: "st.steps 0 0 d s s' gen_atomic gen_atomic (\<lambda>_ _. True)"
proof -
  have load: "st.steps 0 0 d u u' (bind (fresh ''atl'') (\<lambda>lv. bind (choice [''relaxed'', ''acquire'', ''seq_cst'']) (\<lambda>order.
        bind (emit (''    var '' @ lv @ '': u'' @ str_nat w @ '' = '' @ an @ ''.load(.'' @ order @ '');'')) (\<lambda>_. add_env (''u'' @ str_nat w) lv))))
      (bind (fresh ''atl'') (\<lambda>lv. bind (choice [''relaxed'', ''acquire'', ''seq_cst'']) (\<lambda>order.
        bind (emit (''    var '' @ lv @ '': u'' @ str_nat w @ '' = '' @ an @ ''.load(.'' @ order @ '');'')) (\<lambda>_. add_env (''u'' @ str_nat w) lv)))) (\<lambda>_ _. True)"
    if "plain an" for an w u u'
    by (rule st_fresh_var [OF call_letters(8)], rule st.s_pick, simp, rule st_emit_env) (use that in \<open>auto simp: grows_tape intro: low_grows\<close>)
  have store: "st.steps 0 0 d u u' (if c then bind (randrange 0 1000) (\<lambda>v. bind (choice [''relaxed'', ''release'', ''seq_cst'']) (\<lambda>order.
        emit (''    '' @ an @ ''.store('' @ str_nat v @ '', .'' @ order @ '');''))) else ret ())
      (if c then bind (randrange 0 1000) (\<lambda>v. bind (choice [''relaxed'', ''release'', ''seq_cst'']) (\<lambda>order.
        emit (''    '' @ an @ ''.store('' @ str_nat v @ '', .'' @ order @ '');''))) else ret ()) (\<lambda>_ _. True)"
    if "plain an" for an c u u'
    by (rule st.s_if, simp, rule st.s_randrange, simp, rule st.s_pick, simp, rule st_emit) (use that in \<open>auto intro: st.s_ret\<close>)
  have fetch: "st.steps 0 0 d u u'
      (if c then bind (choice [''fetch_add'', ''fetch_sub'']) (\<lambda>op. bind (fresh ''ato'') (\<lambda>ov. bind (randrange 0 100) (\<lambda>v.
         bind (choice [''acq_rel'', ''seq_cst'', ''relaxed'']) (\<lambda>order.
         bind (emit (''    var '' @ ov @ '': u'' @ str_nat w @ '' = '' @ an @ ''.'' @ op @ ''('' @ str_nat v @ '', .'' @ order @ '');'')) (\<lambda>_. add_env (''u'' @ str_nat w) ov))))) else ret ())
      (if c then bind (choice [''fetch_add'', ''fetch_sub'']) (\<lambda>op. bind (fresh ''ato'') (\<lambda>ov. bind (randrange 0 100) (\<lambda>v.
         bind (choice [''acq_rel'', ''seq_cst'', ''relaxed'']) (\<lambda>order.
         bind (emit (''    var '' @ ov @ '': u'' @ str_nat w @ '' = '' @ an @ ''.'' @ op @ ''('' @ str_nat v @ '', .'' @ order @ '');'')) (\<lambda>_. add_env (''u'' @ str_nat w) ov))))) else ret ()) (\<lambda>_ _. True)"
    if "plain an" for an c w u u'
    by (rule st.s_if, simp, rule st.s_pick, simp, rule st_fresh_var [OF call_letters(7)], rule st.s_randrange, simp, rule st.s_pick, simp, rule st_emit_env)
      (use that in \<open>auto simp: grows_tape intro: low_grows st.s_ret\<close>)
  show ?thesis
    unfolding gen_atomic_def
    by (rule st.s_pick, simp, rule st_fresh_var [OF call_letters(6)], rule st.s_randrange, simp, rule st.s_bind [OF st_emit], simp, simp,
        rule st.s_flip, rule st.s_bind [OF store], assumption, rule st.s_flip, rule st.s_bind [OF fetch], assumption, rule load)
qed

lemma st_packed_observer:
  assumes "plain k" and "fs \<noteq> []" and "list_all plain fs"
  shows "st.steps 0 0 d s s' (gen_packed_observer (k, fs, w)) (gen_packed_observer (k, fs, w)) (\<lambda>_ _. True)"
proof -
  have f: "plain x" if "x \<in> set fs" for x using assms(3) that by (simp add: list_all_iff)
  have ctor: "lockstep u u' (map_m (\<lambda>f. bind (choice [''true'', ''false'']) (\<lambda>b. ret (''.'' @ f @ '' = '' @ b))) fs)
      (map_m (\<lambda>f. bind (choice [''true'', ''false'']) (\<lambda>b. ret (''.'' @ f @ '' = '' @ b))) fs) (\<lambda>xs ys. ys = xs \<and> list_all plain xs)" for u u'
    by (rule lock_mono [OF lock_map [where P = "\<lambda>x y. y = x \<and> plain x"]], rule lock_bind [OF lock_pick], simp, rule lock_ret) (use f list_same in auto)
  have lines: "list_all plain (map (\<lambda>(k, f). ''    if '' @ v @ ''.'' @ f @ '' { pbo_'' @ v @ '' = (pbo_'' @ v @ '' ^ '' @ str_nat (2 ^ k) @ ''); }'') (enumerate 0 fs))"
    if "plain v" for v using f that by (auto simp: list_all_iff in_set_enumerate_eq)
  have set_bit: "st.steps 0 0 d u u' (if c then bind (choice fs) (\<lambda>f. bind (choice [''true'', ''false'']) (\<lambda>b. emit (''    '' @ v @ ''.'' @ f @ '' = '' @ b @ '';''))) else ret ())
      (if c then bind (choice fs) (\<lambda>f. bind (choice [''true'', ''false'']) (\<lambda>b. emit (''    '' @ v @ ''.'' @ f @ '' = '' @ b @ '';''))) else ret ()) (\<lambda>_ _. True)"
    if "plain v" for v c u u'
    by (rule st.s_if, simp, rule st.s_pick [OF assms(2)], rule st.s_pick, simp, rule st_emit) (use f that in \<open>auto intro: st.s_ret\<close>)
  show ?thesis
    unfolding gen_packed_observer_def prod.case
    by (rule st.s_flip, rule st.s_if, simp, rule st.s_ret, simp, rule st_fresh_var [OF call_letters(9)], rule st.s_drawn [OF ctor], elim conjE, hypsubst,
        rule st.s_bind [OF st_emit], use assms(1) in simp, use assms(1) in simp, rule st.s_flip, rule st.s_bind [OF set_bit], assumption,
        rule st.s_bind [OF st_emit], simp, simp, rule st.s_bind [OF st_emits], erule lines, erule lines, rule st_kernel_term) simp
qed

lemma st_kernel_body: "st.steps 0 0 d s s' gen_kernel_body gen_kernel_body (\<lambda>_ _. True)"
proof -
  have packed: "st.steps 0 0 d u u' (bind get_state (\<lambda>s. for_m gen_packed_observer (gs_packed s))) (bind get_state (\<lambda>s. for_m gen_packed_observer (gs_packed s))) (\<lambda>_ _. True)" for u u'
  proof (rule st.s_pre)
    assume tw: "twins 0 0 d u u'"
    have eq: "gs_packed u' = gs_packed u" using twinsE(2) [OF tw] by (simp add: rest_def)
    have ok: "\<forall>(k, flds, w) \<in> set (gs_packed u). plain k \<and> flds \<noteq> [] \<and> list_all plain flds" using twinsE(3) [OF tw] by (simp add: rest_ok_def)
    show "st.steps 0 0 d u u' (bind get_state (\<lambda>s. for_m gen_packed_observer (gs_packed s))) (bind get_state (\<lambda>s. for_m gen_packed_observer (gs_packed s))) (\<lambda>_ _. True)"
      by (rule st.s_get_state, unfold eq, rule st.s_for_same) (use ok in \<open>auto intro!: st_packed_observer\<close>)
  qed
  show ?thesis
    unfolding gen_kernel_body_def by (rule st.s_randrange, simp, rule st.s_bind [OF st.s_for_same [OF st_gen_atomic]], rule packed)
qed

lemma st_offset_observer:
  assumes "plain k" and "fs \<noteq> []" and "list_all (\<lambda>(f, w, c, m). plain f) fs"
  shows "st.steps 0 0 d s s' (gen_offset_observer (k, fs)) (gen_offset_observer (k, fs)) (\<lambda>_ _. True)"
proof -
  obtain f w c m where l: "last fs = (f, w, c, m)" by (cases "last fs")
  have f: "plain f" using assms(3) last_in_set [OF assms(2)] unfolding l by (auto simp: list_all_iff)
  show ?thesis
    unfolding gen_offset_observer_def prod.case ret_bind l
    by (rule st_fresh_var [OF call_letters(10)], rule st.s_bind [OF st_emit], use assms(1) in simp, use assms(1) in simp, rule st.s_bind [OF st_kernel_term],
        assumption, rule st_fresh_var [OF call_letters(11)], rule st.s_bind [OF st_emits], use assms(1) f in simp, use assms(1) f in simp, rule st_kernel_term)
qed

lemma st_offset_observers: "twins 0 0 d s s' \<Longrightarrow> st.steps 0 0 d u u' (for_m gen_offset_observer (gs_offset_structs s)) (for_m gen_offset_observer (gs_offset_structs s)) (\<lambda>_ _. True)"
proof -
  assume tw: "twins 0 0 d s s'"
  have ok: "\<forall>(k, flds) \<in> set (gs_offset_structs s). plain k \<and> flds \<noteq> [] \<and> list_all (\<lambda>(f, w, c, m). plain f) flds"
    using twinsE(3) [OF tw] by (simp add: rest_ok_def)
  show ?thesis by (rule st.s_for_same) (use ok in \<open>auto intro!: st_offset_observer\<close>)
qed

end
