(* ===== verification/Mcfuzz_Gen_Sound.thy ===== *)
theory Mcfuzz_Gen_Sound
  imports Mcfuzz_Gen_Harness
begin

text \<open>
  The program generator as a whole: from every tape it returns, its text is well formed, and the metamorphic
  variant is made from the same draws as the base program.
\<close>

section \<open>Into the observers and out again\<close>

lemma start_folding: "twins n k d s s' \<Longrightarrow> folding (renamed n k) s s' s s'"
  by (auto simp: folding_def kept_def dest: twinsE)

lemma low_renamed: "low n x \<Longrightarrow> renamed n k x x"
  by (auto simp: low_def renamed_def shifted_def)

lemma low_same: "low n x \<Longrightarrow> renamed m k x y \<Longrightarrow> n \<le> m \<Longrightarrow> y = x"
  by (auto simp: low_def renamed_def shifted_def numbered_inject)

lemma renamed_low_left: "renamed n k x y \<Longrightarrow> low n y \<Longrightarrow> y = x"
  by (auto simp: low_def renamed_def shifted_def numbered_inject split: if_splits)

text \<open>After the observers the numbers of the variant are ahead by a constant.\<close>

lemma leave_folding:
  assumes w: "pair w w'" and f: "folding (renamed 0 0) w w' u u'"
  shows "twins (gs_nvars w) (gs_nvars u' - gs_nvars u) 0 u u'"
proof -
  let ?n = "gs_nvars w" and ?k = "gs_nvars u' - gs_nvars u"
  note W = twinsE [OF w] and F = foldingE [OF f]
  have env: "env_get u = env_get w" "env_get u' = env_get w'" using kept_env F(2,3) by auto
  have lows: "low ?n x" if "x \<in> set (env_get w t)" for x t using W(12) that by (auto simp: bounded_def)
  have "list_all2 (renamed ?n ?k) (env_get w t) (env_get w' t)" for t
  proof -
    have "list_all2 (renamed 0 0) (env_get w t) (env_get w' t)" using W(1) by (simp add: alike_def)
    then show ?thesis
      by (rule list.rel_mono_strong) (use lows low_renamed renamed_same in blast)
  qed
  then have al: "alike (renamed ?n ?k) u u'"
    using folding_alike [OF f] renamed_naming env by (simp add: alike_def)
  have imm: "x \<in> set (gs_immutable u) \<longleftrightarrow> y \<in> set (gs_immutable u')" if r: "renamed ?n ?k x y" for x y
  proof
    have keep: "gs_immutable u = gs_immutable w" "gs_immutable u' = gs_immutable w'" using F(2,3) by (simp_all add: kept_def)
    have lw: "low ?n z" if "z \<in> set (gs_immutable w)" for z using W(12) that by (simp add: bounded_def)
    have same: "z \<in> set (gs_immutable w) \<longleftrightarrow> z \<in> set (gs_immutable w')" if "renamed 0 0 z z" for z
      using w that by (auto simp: twins_def)
    have zero: "renamed 0 0 x x" "renamed 0 0 y y" using r by (auto simp: renamed_def shifted_def)
    show "y \<in> set (gs_immutable u')" if "x \<in> set (gs_immutable u)"
      using that lw low_same [OF _ r order_refl] same [OF zero(1)] unfolding keep by blast
    show "x \<in> set (gs_immutable u)" if y: "y \<in> set (gs_immutable u')"
      using y lw renamed_low_left [OF r] same [OF zero(2)] unfolding keep by metis
  qed
  have "bounded u"
    using W(12) F(7) env F(2) by (auto simp: bounded_def kept_def intro: low_mono)
  moreover have "gs_depth u = 0" "gs_depth u' = 0" using F(2,3) W(7,8) by (simp_all add: kept_def)
  ultimately show ?thesis using al F imm unfolding twins_def by simp
qed

section \<open>The whole program\<close>

lemma both_fold:
  "folding R w w' s s' \<Longrightarrow> fd.steps R w w' s s' m m' P \<Longrightarrow> (\<And>x x' u u'. P x x' \<Longrightarrow> folding R w w' u u' \<Longrightarrow> J x x' u u') \<Longrightarrow> both m m' J s s'"
  by (fastforce simp: both_def fd.steps_def)

lemma both_offset_overlay_body:
  assumes p: "pair s s'" and J: "\<And>n k u u'. twins n k 0 u u' \<Longrightarrow> J () () u u'"
  shows "both gen_offset_overlay_body gen_offset_overlay_body J s s'"
proof -
  have eq: "gs_offset_structs s' = gs_offset_structs s" "gs_overlays s' = gs_overlays s" using twinsE(2) [OF p] by (auto simp: rest_def)
  have ok: "\<forall>(k, wd) \<in> set (gs_overlays s). plain k \<and> 0 < wd" using twinsE(3) [OF p] by (simp add: rest_ok_def)
  show ?thesis
    unfolding gen_offset_overlay_body_def
  proof (rule both_bind, rule both_get_state, unfold eq, rule both_bind, rule both_pair_steps [OF p st_offset_observers [OF p]])
    fix x x' u u' assume u: "pair u u'"
    show "both (for_m gen_overlay_observer (gs_overlays s)) (for_m gen_overlay_observer (gs_overlays s)) J u u'"
      by (rule both_fold [OF start_folding [OF u] fd_overlay_observers [OF ok]]) (drule leave_folding [OF u], simp add: J)
  qed
qed

lemma both_harness_statements:
  assumes "pair s s'" and "uint_option r r" and "uint_option c c" and "list_all target_ok os"
    and J: "\<And>ps ps' n k u u'. list_all2 pointer_rel ps ps' \<Longrightarrow> twins n k 0 u u' \<Longrightarrow> J ps ps' u u'"
  shows "both (harness_statements g r c os) (harness_statements g r c os) J s s'"
  unfolding harness_statements_def
proof (rule both_bind, rule both_pair_steps [OF assms(1) st_declare_locals], rule both_bind, erule both_pair_steps [OF _ st_call_helpers [OF assms(2,3)]],
    rule both_bind, erule both_pair_steps [OF _ st_declare_pointers [OF assms(4)]], rule both_bind, erule both_pair_steps [OF _ st_kernel_body],
    rule both_bind, erule both_offset_overlay_body)
  fix ps ps' n k and u u' :: gen_state assume ps: "list_all2 pointer_rel ps ps'" and tw: "twins n k 0 u u'"
  show "both (bind (loop_n 5 12 (\<lambda>_. gen_stmt 1)) (\<lambda>_. ret ps)) (bind (loop_n 5 12 (\<lambda>_. gen_stmt 1)) (\<lambda>_. ret ps')) J u u'"
    by (rule both_bind, rule both_steps [OF st.s_loop tw], simp, rule st_gen_stmt, rule both_ret, rule J [OF ps])
qed

lemma folding_types: "folding R w w' u u' \<Longrightarrow> types_ok u'"
  using folding_alike [of R w w' u u'] types_ok_shape [of u' u] by (simp add: alike_def)

text \<open>What two finished runs have in common.\<close>

definition same_program :: "gen_state \<Rightarrow> gen_state \<Rightarrow> bool" where
  "same_program u u' \<longleftrightarrow> tape u' = tape u \<and> gs_decls u = filter (\<lambda>l. \<not> overlay_helper l) (gs_decls u') \<and>
     length (gs_terms u') = length (gs_terms u) \<and> text_ok u \<and> text_ok u' \<and> types_ok u'"

lemma twins_out: "twins n k d s s' \<Longrightarrow> twins n k d (s\<lparr>gs_out := []\<rparr>) (s'\<lparr>gs_out := []\<rparr>)"
  by (rule twins_update) (auto simp: same_decls_def text_ok_def bounded_def dest: twinsE(4,6,7,8))

lemma twins_terms: "twins n k d s s' \<Longrightarrow> twins n k d (s\<lparr>gs_terms := []\<rparr>) (s'\<lparr>gs_terms := []\<rparr>)"
  by (rule twins_update) (auto simp: same_decls_def text_ok_def bounded_def dest: twinsE(4,6,7,8))

lemma both_gen_program:
  assumes d: "declaring 2 0 (s\<lparr>gs_metamorph := False, gs_decls := [], gs_kernel_terms := []\<rparr>) (s\<lparr>gs_metamorph := mm, gs_decls := [], gs_kernel_terms := []\<rparr>)"
  shows "both (gen_program False) (gen_program mm) (\<lambda>p p' u u'. same_program u u' \<and>
      p = program_text False (gs_decls u) (gs_out u) (gs_terms u) \<and> p' = program_text mm (gs_decls u') (gs_out u') (gs_terms u')) s s"
  unfolding gen_program_def
proof (rule both_bind, rule both_modify, rule both_bind, rule both_declare_all [OF d], unfold prod.case, rule both_bind, rule both_modify, rule both_bind)
  fix g r c os and u u' :: gen_state
  assume u: "pair u u'" and ok: "uint_option r r" "uint_option c c" "list_all target_ok os"
  show "both (harness_statements g r c os) (harness_statements g r c os)
      (\<lambda>ps ps'. both (bind (modify (\<lambda>s. s\<lparr>gs_terms := []\<rparr>)) (\<lambda>_. bind (harness_folds ps) (\<lambda>_. bind get_state (\<lambda>s. ret (program_text False (gs_decls s) (gs_out s) (gs_terms s))))))
        (bind (modify (\<lambda>s. s\<lparr>gs_terms := []\<rparr>)) (\<lambda>_. bind (harness_folds ps') (\<lambda>_. bind get_state (\<lambda>s. ret (program_text mm (gs_decls s) (gs_out s) (gs_terms s))))))
        (\<lambda>p p' u u'. same_program u u' \<and> p = program_text False (gs_decls u) (gs_out u) (gs_terms u) \<and> p' = program_text mm (gs_decls u') (gs_out u') (gs_terms u')))
      (u\<lparr>gs_out := []\<rparr>) (u'\<lparr>gs_out := []\<rparr>)"
  proof (rule both_harness_statements [OF twins_out [OF u] ok], rule both_bind, rule both_modify, rule both_bind)
    fix ps ps' n k and v v' :: gen_state assume ps: "list_all2 pointer_rel ps ps'" and v: "twins n k 0 v v'"
    show "both (harness_folds ps) (harness_folds ps')
        (\<lambda>_ _. both (bind get_state (\<lambda>s. ret (program_text False (gs_decls s) (gs_out s) (gs_terms s))))
          (bind get_state (\<lambda>s. ret (program_text mm (gs_decls s) (gs_out s) (gs_terms s))))
          (\<lambda>p p' u u'. same_program u u' \<and> p = program_text False (gs_decls u) (gs_out u) (gs_terms u) \<and> p' = program_text mm (gs_decls u') (gs_out u') (gs_terms u')))
        (v\<lparr>gs_terms := []\<rparr>) (v'\<lparr>gs_terms := []\<rparr>)"
      by (rule both_fold [OF start_folding [OF twins_terms [OF v]] fd_harness_folds [OF ps]], rule both_bind, rule both_get_state, rule both_ret)
        (auto simp: same_program_def same_decls_def dest: foldingE folding_types)
  qed
qed

lemma new_gen_declaring:
  "declaring 2 0 ((new_gen draws trapping fb)\<lparr>gs_metamorph := False, gs_decls := [], gs_kernel_terms := []\<rparr>)
     ((new_gen draws trapping fb)\<lparr>gs_metamorph := mm, gs_decls := [], gs_kernel_terms := []\<rparr>)"
  by (simp add: new_gen_def declaring_def twins_def alike_def renamed_naming types_ok_def rest_ok_def env_get_def same_decls_def text_ok_def bounded_def
      arrays_at_def structs_at_def names_upto_def shape_def rest_def)

text \<open>The first two states of a pair of runs are related, so the facts about related states hold of them.\<close>

interpretation start: twin_runs "renamed 0 0" "(new_gen draws trapping fb)\<lparr>gs_metamorph := False, gs_decls := [], gs_kernel_terms := []\<rparr>"
  "(new_gen draws trapping fb)\<lparr>gs_metamorph := mm, gs_decls := [], gs_kernel_terms := []\<rparr>" for draws trapping fb mm
  by (rule twins_runs [OF declaring_pair [OF new_gen_declaring]])

interpretation start_stmts: twin_stmts "renamed 0 0" "(new_gen draws trapping fb)\<lparr>gs_metamorph := False, gs_decls := [], gs_kernel_terms := []\<rparr>"
  "(new_gen draws trapping fb)\<lparr>gs_metamorph := mm, gs_decls := [], gs_kernel_terms := []\<rparr>" for draws trapping fb mm
  by (rule twins_stmts [OF declaring_pair [OF new_gen_declaring]])

text \<open>The generator as a function of the tape.\<close>

lemma gen_program_runs:
  obtains p p' u u' where "gen_program False (new_gen draws trapping fb) = Inr (p, u)" "gen_program mm (new_gen draws trapping fb) = Inr (p', u')"
    "same_program u u'" "p' = program_text mm (gs_decls u') (gs_out u') (gs_terms u')"
  using both_gen_program [OF new_gen_declaring [of draws trapping fb mm]] by (auto simp: both_def)

lemma valid_utf8_prefix: "ascii a \<Longrightarrow> valid_utf8 b \<Longrightarrow> valid_utf8 (a @ b)"
proof (induction a)
  case (Cons c a)
  then have "utf8_step (c # a @ b) = (True, 1)" by (simp add: ascii_def utf8_step_def Let_def)
  with Cons show ?case unfolding valid_utf8_def by (subst decode_replace.simps) (simp add: ascii_def)
qed simp

lemma valid_utf8_em_dash: "valid_utf8 b \<Longrightarrow> valid_utf8 (em_dash @ b)"
proof -
  assume b: "valid_utf8 b"
  have step: "utf8_step (em_dash @ b) = (True, 3)" by (simp add: utf8_step_def Let_def byte_in_def)
  show ?thesis
    using b unfolding valid_utf8_def by (subst decode_replace.simps) (simp add: step [simplified])
qed

lemma xor_fold_plain: "list_all plain ts \<Longrightarrow> plain (xor_fold ts)"
proof -
  have "plain acc \<Longrightarrow> list_all plain ts \<Longrightarrow> plain (foldl (\<lambda>acc t. ''('' @ acc @ '' ^ '' @ t @ '')'') acc ts)" for acc ts
    by (induction ts arbitrary: acc) auto
  then show "list_all plain ts \<Longrightarrow> plain (xor_fold ts)" by (cases ts) (auto simp: xor_fold_def)
qed

lemma program_text_parts:
  "\<exists>b pre post. program_text mm ds out ts = ''// Generated by tools/fuzz/mcfuzz.py '' @ em_dash @ b \<and>
     program_text mm ds out ts = pre @ (''export fn harness() -> u64 {'' @ nl) @ post \<and>
     (list_all plain ds \<longrightarrow> list_all plain out \<longrightarrow> list_all plain ts \<longrightarrow> plain b)"
proof -
  let ?body = "join nl (out @ [''    return '' @ xor_fold (if mm then rev ts else ts) @ '';''])"
  let ?rest = "if mm then ''fn meta_body() -> u64 {'' @ nl @ ?body @ nl @ ''}'' @ nl @ ''export fn harness() -> u64 {'' @ nl @ ''    return meta_body();'' @ nl @ ''}'' @ nl
      else ''export fn harness() -> u64 {'' @ nl @ ?body @ nl @ ''}'' @ nl"
  have eq: "program_text mm ds out ts = ''// Generated by tools/fuzz/mcfuzz.py '' @ em_dash @ ('' regenerate from the seed.'' @ nl @ join nl ds @ nl @ ?rest)"
    unfolding program_text_def program_header_def Let_def by (cases mm) (simp_all only: append_assoc if_True if_False)
  have plain: "list_all plain ds \<Longrightarrow> list_all plain out \<Longrightarrow> list_all plain ts \<Longrightarrow> plain ('' regenerate from the seed.'' @ nl @ join nl ds @ nl @ ?rest)"
    using xor_fold_plain [of ts] xor_fold_plain [of "rev ts"] by (simp add: list_all_iff)
  have "\<exists>pre post. ?rest = pre @ (''export fn harness() -> u64 {'' @ nl) @ post"
  proof (cases mm)
    case True
    then have "?rest = (''fn meta_body() -> u64 {'' @ nl @ ?body @ nl @ ''}'' @ nl) @ (''export fn harness() -> u64 {'' @ nl) @ ''    return meta_body();'' @ nl @ ''}'' @ nl"
      by simp
    then show ?thesis by blast
  next
    case False
    then have "?rest = [] @ (''export fn harness() -> u64 {'' @ nl) @ ?body @ nl @ ''}'' @ nl" by simp
    then show ?thesis by blast
  qed
  then obtain pre post where "?rest = pre @ (''export fn harness() -> u64 {'' @ nl) @ post" by blast
  then have "program_text mm ds out ts = (''// Generated by tools/fuzz/mcfuzz.py '' @ em_dash @ '' regenerate from the seed.'' @ nl @ join nl ds @ nl @ pre) @
      (''export fn harness() -> u64 {'' @ nl) @ post"
    unfolding eq by (simp only: append_assoc)
  with eq plain show ?thesis by blast
qed

lemma generated_text:
  assumes "gen_program mm (new_gen draws trapping fb) = Inr (p, u)"
  shows "valid_utf8 p \<and> CHR 0x0D \<notin> set p \<and> contains p (''export fn harness() -> u64 {'' @ nl)"
proof -
  obtain p' u' q v where r: "gen_program False (new_gen draws trapping fb) = Inr (q, v)" "gen_program mm (new_gen draws trapping fb) = Inr (p', u')"
      "same_program v u'" "p' = program_text mm (gs_decls u') (gs_out u') (gs_terms u')"
    by (rule gen_program_runs [of draws trapping fb mm])
  have p: "p = program_text mm (gs_decls u) (gs_out u) (gs_terms u)" "text_ok u" using r assms by (auto simp: same_program_def)
  have ok: "list_all plain (gs_decls u)" "list_all plain (gs_out u)" "list_all plain (gs_terms u)" using p(2) by (simp_all add: text_ok_def)
  obtain b pre post where t: "p = ''// Generated by tools/fuzz/mcfuzz.py '' @ em_dash @ b" "p = pre @ (''export fn harness() -> u64 {'' @ nl) @ post" "plain b"
    using program_text_parts [of mm "gs_decls u" "gs_out u" "gs_terms u"] ok unfolding p(1) by blast
  have "valid_utf8 (''// Generated by tools/fuzz/mcfuzz.py '' @ em_dash @ b)"
    by (intro valid_utf8_prefix valid_utf8_em_dash valid_utf8_ascii) (use t(3) plain_ascii in \<open>auto simp: plain_def ascii_def\<close>)
  moreover have "CHR 0x0D \<notin> set (''// Generated by tools/fuzz/mcfuzz.py '' @ em_dash @ b)"
    using t(3) plain_ascii [of b] by (auto simp: plain_def)
  moreover have "contains p (''export fn harness() -> u64 {'' @ nl)" using t(2) unfolding contains_iff by blast
  ultimately show ?thesis using t(1) by simp
qed

section \<open>Layout of offset structs\<close>

text \<open>Offsets from \<open>off\<close> on: every field is aligned to its width and begins after the one before it.\<close>

fun laid_out :: "nat \<Rightarrow> (string \<times> nat \<times> nat \<times> string) list \<Rightarrow> bool" where
  "laid_out off [] \<longleftrightarrow> True"
| "laid_out off ((f, w, c, m) # fs) \<longleftrightarrow> w \<in> {8, 16, 32} \<and> off \<le> c \<and> c mod (w div 8) = 0 \<and> laid_out (c + w div 8) fs"

lemma round_up:
  fixes c k :: nat
  assumes "0 < k"
  shows "(if c mod k \<noteq> 0 then c + (k - c mod k) else c) mod k = 0 \<and> c \<le> (if c mod k \<noteq> 0 then c + (k - c mod k) else c)"
proof (cases "c mod k = 0")
  case False
  have "c + (k - c mod k) = k * (c div k) + k" using mod_less_divisor [OF assms, of c] mult_div_mod_eq [of k c] by linarith
  then show ?thesis using False by simp
qed simp

lemma wp_offset_fields:
  assumes "\<And>fs t. length fs = n \<Longrightarrow> laid_out (if j = 0 then 0 else off) fs \<Longrightarrow> map fst fs = map (\<lambda>i. ''of'' @ str_nat i) [j..<j + n] \<Longrightarrow> Q fs (s\<lparr>tape := t\<rparr>)"
  shows "wp (offset_fields n j off) Q s"
  using assms
proof (induction n arbitrary: j off s Q)
  case 0
  from 0 [of "[]" "tape s"] show ?case by simp
next
  case (Suc n)
  have step: "wp (let sz = w div 8; cur = if c0 mod sz \<noteq> 0 then c0 + (sz - c0 mod sz) else c0 in
        bind (offset_fields n (j + 1) (cur + sz)) (\<lambda>fs. ret ((''of'' @ str_nat j, w, cur, m) # fs))) Q (s\<lparr>tape := t\<rparr>)"
    if w: "w \<in> set [8, 16, 32]" and c0: "(if j = 0 then 0 else off) \<le> c0" for w c0 m t
  proof -
    define cur where "cur = (if c0 mod (w div 8) \<noteq> 0 then c0 + (w div 8 - c0 mod (w div 8)) else c0)"
    have sz: "0 < w div 8" using w by auto
    have cur: "cur mod (w div 8) = 0" "(if j = 0 then 0 else off) \<le> cur" using round_up [OF sz, of c0] c0 unfolding cur_def by linarith+
    have "wp (bind (offset_fields n (j + 1) (cur + w div 8)) (\<lambda>fs. ret ((''of'' @ str_nat j, w, cur, m) # fs))) Q (s\<lparr>tape := t\<rparr>)"
    proof (rule wp_bindI, rule Suc.IH, rule wp_retI)
      fix fs t'
      assume fs: "length fs = n" "laid_out (if j + 1 = 0 then 0 else cur + w div 8) fs" "map fst fs = map (\<lambda>i. ''of'' @ str_nat i) [j + 1..<j + 1 + n]"
      have "Q ((''of'' @ str_nat j, w, cur, m) # fs) (s\<lparr>tape := t'\<rparr>)"
        by (rule Suc.prems) (use fs cur w in \<open>auto simp: upt_conv_Cons simp del: upt_Suc\<close>)
      then show "Q ((''of'' @ str_nat j, w, cur, m) # fs) (s\<lparr>tape := t, tape := t'\<rparr>)" by simp
    qed
    then show ?thesis unfolding Let_def cur_def .
  qed
  have gap: "wp (if j = 0 then ret 0 else bind (flip flt_0_5) (\<lambda>tight. if tight then ret off else bind (choice [w div 8, 8, 16, 64, 256]) (\<lambda>g. ret (off + g)))) R u"
    if "\<And>c0 t. (if j = 0 then 0 else off) \<le> c0 \<Longrightarrow> R c0 (u\<lparr>tape := t\<rparr>)" for w R and u :: "'a rng_state_scheme"
  proof (cases "j = 0")
    case True
    then show ?thesis using that [of 0 "tape u"] by simp
  next
    case False
    have "wp (bind (flip flt_0_5) (\<lambda>tight. if tight then ret off else bind (choice [w div 8, 8, 16, 64, 256]) (\<lambda>g. ret (off + g)))) R u"
      by (rule wp_bindI, rule wp_flip, rule wp_ifI, rule wp_retI, rule that, simp, rule wp_bindI, rule wp_choice, simp, rule wp_retI)
        (use that False in auto)
    then show ?thesis using False by simp
  qed
  show ?case
    unfolding offset_fields.simps
  proof (rule wp_bindI, rule wp_choice, simp, rule wp_bindI, rule wp_choice, simp, rule wp_bindI, rule gap)
    fix w m c0 t1 t2 t3 assume "w \<in> set [8 :: nat, 16, 32]" "(if j = 0 then 0 else off) \<le> c0"
    from step [OF this, of m t3] show "wp (let sz = w div 8; cur = if c0 mod sz \<noteq> 0 then c0 + (sz - c0 mod sz) else c0 in
        bind (offset_fields n (j + 1) (cur + sz)) (\<lambda>fs. ret ((''of'' @ str_nat j, w, cur, m) # fs))) Q (s\<lparr>tape := t1, tape := t2, tape := t3\<rparr>)"
      by simp
  qed
qed

lemma laid_out_sorted:
  "laid_out off fs \<Longrightarrow> list_all (\<lambda>(f, w, c, m). w \<in> {8, 16, 32} \<and> c mod (w div 8) = 0 \<and> off \<le> c) fs \<and>
     sorted_wrt (\<lambda>(f, w, c, m) (f', w', c', m'). c + w div 8 \<le> c') fs"
proof (induction off fs rule: laid_out.induct)
  case (2 off f w c m fs)
  then have IH: "list_all (\<lambda>(f, w', c', m). w' \<in> {8, 16, 32} \<and> c' mod (w' div 8) = 0 \<and> c + w div 8 \<le> c') fs"
      "sorted_wrt (\<lambda>(f, w, c, m) (f', w', c', m'). c + w div 8 \<le> c') fs" and "off \<le> c" "w \<in> {8, 16, 32}" "c mod (w div 8) = 0"
    by auto
  then show ?case by (fastforce simp: list_all_iff)
qed simp

section \<open>Properties\<close>

text \<open>
  C3. From every tape, in every mode, the type-directed generator returns: no method raises, no recursion runs out
  of stack and no choice is made from an empty list. What it returns is well-formed UTF-8 without carriage
  returns and opens the exported \<open>harness\<close>, where the oracles inject and link.
\<close>

theorem gen_program_total:
  "\<exists>p u. gen_program metamorph (new_gen draws trapping float_bits) = Inr (p, u) \<and> valid_utf8 p \<and> CHR 0x0D \<notin> set p \<and>
     contains p (''export fn harness() -> u64 {'' @ nl)"
proof -
  obtain p u where "gen_program metamorph (new_gen draws trapping float_bits) = Inr (p, u)"
    by (rule gen_program_runs [of draws trapping float_bits metamorph]) blast
  with generated_text show ?thesis by blast
qed

text \<open>
  C4. Same seed, same draws: the metamorphic variant is made from exactly the draws of the base program. Both runs
  leave the same tape, the variant declares what the base declares and otherwise only the read helpers of
  the overlays, and both fold the same number of terms into the digest.
\<close>

theorem variant_same_draws:
  "\<exists>p u p' u'. gen_program False (new_gen draws trapping float_bits) = Inr (p, u) \<and> gen_program True (new_gen draws trapping float_bits) = Inr (p', u') \<and>
     tape u' = tape u \<and> gs_decls u = filter (\<lambda>l. \<not> startswith l ''fn ovhalf_'') (gs_decls u') \<and> length (gs_terms u') = length (gs_terms u)"
  by (rule gen_program_runs [of draws trapping float_bits True]) (auto simp: same_program_def overlay_helper_def)


text \<open>
  C16. The fields of a drawn offset struct never overlap and are aligned: from every tape the generator returns the
  asked number of fields, each at a multiple of its width and after the end of every earlier one.
\<close>

theorem offset_struct_layout:
  "\<exists>fs t. offset_fields n 0 0 s = Inr (fs, s\<lparr>tape := t\<rparr>) \<and> map fst fs = names_upto ''of'' n \<and>
     list_all (\<lambda>(f, w, c, m). w \<in> {8, 16, 32} \<and> c mod (w div 8) = 0) fs \<and>
     sorted_wrt (\<lambda>(f, w, c, m) (f', w', c', m'). c + w div 8 \<le> c') fs"
proof -
  have "wp (offset_fields n 0 0) (\<lambda>fs u. \<exists>t. u = s\<lparr>tape := t\<rparr> \<and> laid_out 0 fs \<and> map fst fs = names_upto ''of'' n) s"
    by (rule wp_offset_fields) (auto simp: names_upto_def)
  then obtain fs t where "offset_fields n 0 0 s = Inr (fs, s\<lparr>tape := t\<rparr>)" "laid_out 0 fs" "map fst fs = names_upto ''of'' n"
    by (auto simp: wp_iff)
  with laid_out_sorted [of 0 fs] show ?thesis by auto
qed

end
