(* ===== verification/Py_Json.thy ===== *)
theory Py_Json
  imports Py_Os "HOL-Library.List_Lexorder" "HOL-Library.Char_ord"
begin

text \<open>
  The values of the \<open>json\<close> module, its decoder as \<open>json.loads\<close> calls it, and the operations of the
  decoded values that the tools use: subscripts, \<open>get\<close>, \<open>repr\<close>. An object is an insertion-ordered dictionary;
  a number with a fraction or an exponent is kept as its text. \<open>None\<close> is a \<open>JSONDecodeError\<close>.
  The decoder does not limit its recursion.
\<close>

datatype json =
    JNull
  | JBool bool
  | JInt int
  | JFloat string
  | JStr string
  | JList "json list"
  | JDict "(string \<times> json) list"

section \<open>The decoder\<close>

definition json_space :: "char \<Rightarrow> bool" where
  "json_space c \<longleftrightarrow> c \<in> {CHR 0x20, CHR 0x09, CHR 0x0A, CHR 0x0D}"

definition skip_space :: "string \<Rightarrow> string" where
  "skip_space s = dropWhile json_space s"

definition hex_value :: "char \<Rightarrow> nat option" where
  "hex_value c =
     (let n = (of_char c :: nat) in
      if 48 \<le> n \<and> n \<le> 57 then Some (n - 48)
      else if 65 \<le> n \<and> n \<le> 70 then Some (n - 55)
      else if 97 \<le> n \<and> n \<le> 102 then Some (n - 87) else None)"

fun hex4 :: "string \<Rightarrow> (nat \<times> string) option" where
  "hex4 (a # b # c # d # s) =
     (case (hex_value a, hex_value b, hex_value c, hex_value d) of
        (Some w, Some x, Some y, Some z) \<Rightarrow> Some (((w * 16 + x) * 16 + y) * 16 + z, s)
      | _ \<Rightarrow> None)"
| "hex4 _ = None"

text \<open>A code point as its UTF-8 bytes; a lone surrogate becomes the three bytes of the general scheme.\<close>

definition utf8_bytes :: "nat \<Rightarrow> string" where
  "utf8_bytes n =
     (if n < 128 then [char_of n]
      else if n < 2048 then [char_of (192 + n div 64), char_of (128 + n mod 64)]
      else if n < 65536 then [char_of (224 + n div 4096), char_of (128 + n div 64 mod 64), char_of (128 + n mod 64)]
      else [char_of (240 + n div 262144), char_of (128 + n div 4096 mod 64), char_of (128 + n div 64 mod 64), char_of (128 + n mod 64)])"

text \<open>\<open>\uXXXX\<close> behind the \<open>u\<close>: a high surrogate takes a low one that follows with it.\<close>

definition unicode_escape :: "string \<Rightarrow> (string \<times> string) option" where
  "unicode_escape s =
     (case hex4 s of None \<Rightarrow> None
      | Some (u, r) \<Rightarrow>
          if 0xD800 \<le> u \<and> u \<le> 0xDBFF \<and> startswith r (CHR 0x5C # ''u'') then
            (case hex4 (drop 2 r) of None \<Rightarrow> None
             | Some (v, r') \<Rightarrow>
                 if 0xDC00 \<le> v \<and> v \<le> 0xDFFF then Some (utf8_bytes (0x10000 + (u - 0xD800) * 1024 + (v - 0xDC00)), r')
                 else Some (utf8_bytes u, r))
          else Some (utf8_bytes u, r))"

definition simple_escape :: "char \<Rightarrow> char option" where
  "simple_escape c =
     map_of [(CHR 0x22, CHR 0x22), (CHR 0x5C, CHR 0x5C), (CHR ''/'', CHR ''/''), (CHR ''b'', CHR 0x08), (CHR ''f'', CHR 0x0C),
       (CHR ''n'', CHR 0x0A), (CHR ''r'', CHR 0x0D), (CHR ''t'', CHR 0x09)] c"

lemma hex4_shorter: "hex4 s = Some (n, r) \<Longrightarrow> length r < length s"
  by (induction s rule: hex4.induct) (auto split: option.splits)

lemma unicode_escape_shorter: "unicode_escape s = Some (x, r) \<Longrightarrow> length r < length s"
  by (fastforce simp: unicode_escape_def split: option.splits if_splits dest!: hex4_shorter)

definition control_char :: "char \<Rightarrow> bool" where
  "control_char c \<longleftrightarrow> (of_char c :: nat) < 32"

lemma control_char_code [code]: "control_char c \<longleftrightarrow> \<not> digit7 c \<and> \<not> digit6 c \<and> \<not> digit5 c"
  by (simp add: control_char_def below_bits)

text \<open>The rest of a string behind its opening quote: the contents and what follows the closing quote.\<close>

function (sequential) json_string :: "string \<Rightarrow> (string \<times> string) option" where
  "json_string [] = None"
| "json_string (c # s) =
     (if c = CHR 0x22 then Some ([], s)
      else if control_char c then None
      else if c \<noteq> CHR 0x5C then map_option (\<lambda>(x, r). (c # x, r)) (json_string s)
      else
        (case s of [] \<Rightarrow> None
         | e # s' \<Rightarrow>
             if e = CHR ''u'' then
               (case unicode_escape s' of None \<Rightarrow> None
                | Some (b, s'') \<Rightarrow> map_option (\<lambda>(x, r). (b @ x, r)) (json_string s''))
             else
               (case simple_escape e of None \<Rightarrow> None
                | Some d \<Rightarrow> map_option (\<lambda>(x, r). (d # x, r)) (json_string s'))))"
  by pat_completeness auto
termination by (relation "measure length") (auto dest: unicode_escape_shorter)

declare json_string.simps(2) [simp del]

lemma json_string_shorter: "json_string s = Some (x, r) \<Longrightarrow> length r < length s"
proof (induction s arbitrary: x r rule: json_string.induct)
  case (2 c s)
  show ?case
  proof (cases "c = CHR 0x5C")
    case True
    with 2 show ?thesis
      by (fastforce simp: json_string.simps(2) split: list.splits option.splits if_splits dest!: unicode_escape_shorter)
  qed (use 2 in \<open>fastforce simp: json_string.simps(2) split: if_splits\<close>)
qed simp

text \<open>\<open>-?(0|[1-9]\d*)(\.\d+)?([eE][-+]?\d+)?\<close>.\<close>

definition number_frac :: "string \<Rightarrow> string \<times> string" where
  "number_frac s =
     (case s of c # d # r \<Rightarrow>
        if c = CHR ''.'' \<and> is_digit d then (c # takeWhile is_digit (d # r), dropWhile is_digit r) else ([], s)
      | _ \<Rightarrow> ([], s))"

definition number_exp :: "string \<Rightarrow> string \<times> string" where
  "number_exp s =
     (case s of [] \<Rightarrow> ([], s)
      | c # r \<Rightarrow>
          (let sign = (case r of d # _ \<Rightarrow> if d = CHR ''+'' \<or> d = CHR ''-'' then [d] else [] | [] \<Rightarrow> []);
               ds = takeWhile is_digit (drop (length sign) r) in
           if (c = CHR ''e'' \<or> c = CHR ''E'') \<and> ds \<noteq> []
           then (c # sign @ ds, drop (length sign + length ds) r) else ([], s)))"

definition number_int :: "string \<Rightarrow> (string \<times> string) option" where
  "number_int s =
     (case s of [] \<Rightarrow> None
      | c # r \<Rightarrow> if c = CHR ''0'' then Some ([c], r)
          else if is_digit c then Some (takeWhile is_digit s, dropWhile is_digit s) else None)"

definition json_number :: "string \<Rightarrow> (json \<times> string) option" where
  "json_number s =
     (let minus = (if startswith s ''-'' then ''-'' else []) in
      case number_int (drop (length minus) s) of None \<Rightarrow> None
      | Some (ds, r) \<Rightarrow>
          (case number_frac r of (f, r') \<Rightarrow> case number_exp r' of (e, r'') \<Rightarrow>
             Some (if f = [] \<and> e = [] then JInt (if minus = [] then int (val_digits 0 ds) else - int (val_digits 0 ds))
                   else JFloat (minus @ ds @ f @ e), r'')))"

definition json_word :: "string \<Rightarrow> (json \<times> string) option" where
  "json_word s =
     (if startswith s ''null'' then Some (JNull, drop 4 s)
      else if startswith s ''true'' then Some (JBool True, drop 4 s)
      else if startswith s ''false'' then Some (JBool False, drop 5 s)
      else if startswith s ''NaN'' then Some (JFloat ''NaN'', drop 3 s)
      else if startswith s ''Infinity'' then Some (JFloat ''Infinity'', drop 8 s)
      else if startswith s ''-Infinity'' then Some (JFloat ''-Infinity'', drop 9 s)
      else json_number s)"

text \<open>
  Values, the rest of a list behind a value, and the members of an object from a key on. The counter
  bounds the nesting of the calls; \<open>json_loads\<close> gives it more than the text can use.
\<close>

fun json_value :: "nat \<Rightarrow> string \<Rightarrow> (json \<times> string) option"
  and json_items :: "nat \<Rightarrow> string \<Rightarrow> (json list \<times> string) option"
  and json_members :: "nat \<Rightarrow> (string \<times> json) list \<Rightarrow> string \<Rightarrow> ((string \<times> json) list \<times> string) option" where
  "json_value 0 s = None"
| "json_value (Suc n) s =
     (case s of [] \<Rightarrow> None
      | c # r \<Rightarrow>
          if c = CHR 0x22 then map_option (\<lambda>(x, r'). (JStr x, r')) (json_string r)
          else if c = CHR ''['' then
            (if startswith (skip_space r) '']'' then Some (JList [], tl (skip_space r))
             else map_option (\<lambda>(xs, r'). (JList xs, r')) (json_items n (skip_space r)))
          else if c = CHR ''{'' then
            (if startswith (skip_space r) ''}'' then Some (JDict [], tl (skip_space r))
             else map_option (\<lambda>(d, r'). (JDict d, r')) (json_members n [] (skip_space r)))
          else json_word s)"
| "json_items 0 s = None"
| "json_items (Suc n) s =
     (case json_value n s of None \<Rightarrow> None
      | Some (x, r) \<Rightarrow>
          (case skip_space r of [] \<Rightarrow> None
           | c # r' \<Rightarrow>
               if c = CHR '']'' then Some ([x], r')
               else if c = CHR '','' then map_option (\<lambda>(xs, t). (x # xs, t)) (json_items n (skip_space r'))
               else None))"
| "json_members 0 d s = None"
| "json_members (Suc n) d s =
     (case s of [] \<Rightarrow> None
      | q # s' \<Rightarrow>
          if q \<noteq> CHR 0x22 then None
          else
            (case json_string s' of None \<Rightarrow> None
             | Some (k, r) \<Rightarrow>
                 (case skip_space r of [] \<Rightarrow> None
                  | c # r' \<Rightarrow>
                      if c \<noteq> CHR '':'' then None
                      else
                        (case json_value n (skip_space r') of None \<Rightarrow> None
                         | Some (x, t) \<Rightarrow>
                             (case skip_space t of [] \<Rightarrow> None
                              | e # t' \<Rightarrow>
                                  if e = CHR ''}'' then Some (dict_set d k x, t')
                                  else if e = CHR '','' then json_members n (dict_set d k x) (skip_space t')
                                  else None)))))"

definition json_loads :: "string \<Rightarrow> json option" where
  "json_loads s =
     (if startswith s [CHR 0xEF, CHR 0xBB, CHR 0xBF] then None
      else
        (case json_value (2 * length s + 2) (skip_space s) of None \<Rightarrow> None
         | Some (x, r) \<Rightarrow> if skip_space r = [] then Some x else None))"

section \<open>The counter suffices\<close>

lemma skip_space_le: "length (skip_space s) \<le> length s"
  by (simp add: skip_space_def length_dropWhile_le)

lemma number_shorter: "json_number s = Some (x, r) \<Longrightarrow> length r < length s"
proof -
  assume a: "json_number s = Some (x, r)"
  obtain ds r1 where i: "number_int (drop (length (if startswith s ''-'' then ''-'' else [])) s) = Some (ds, r1)"
    using a by (cases "number_int (drop (length (if startswith s ''-'' then ''-'' else [])) s)") (auto simp: json_number_def Let_def)
  have *: "length r1 < length s"
  proof -
    let ?t = "drop (length (if startswith s ''-'' then ''-'' else [])) s"
    obtain c t where t: "?t = c # t" using i by (cases ?t) (auto simp: number_int_def)
    have "length (dropWhile is_digit t) \<le> length t" by (rule length_dropWhile_le)
    then have "length r1 < length ?t" using i unfolding t by (auto simp: number_int_def split: if_splits)
    then show ?thesis by simp
  qed
  obtain f r2 where f: "number_frac r1 = (f, r2)" by fastforce
  have "length r2 \<le> length r1" using f length_dropWhile_le [of is_digit "tl (tl r1)"]
    by (auto simp: number_frac_def split: list.splits if_splits)
  moreover obtain e r3 where e: "number_exp r2 = (e, r3)" by fastforce
  have "length r3 \<le> length r2" using e by (auto simp: number_exp_def Let_def split: list.splits if_splits)
  moreover have "r = r3" using a i f e by (simp add: json_number_def Let_def split: if_splits)
  ultimately show ?thesis using * by simp
qed

lemma word_shorter: "json_word s = Some (x, r) \<Longrightarrow> length r < length s"
  by (auto simp: json_word_def startswith_iff split: if_splits dest: number_shorter)

lemma json_shorter:
  "json_value n s = Some (x, r) \<Longrightarrow> length r < length s"
  "json_items n s = Some (xs, r) \<Longrightarrow> length r < length s"
  "json_members n d s = Some (d', r) \<Longrightarrow> length r < length s"
proof (induction n s and n s and n d s arbitrary: x r and xs r and d' r rule: json_value_json_items_json_members.induct)
  case (2 n s)
  show ?case
  proof (cases s)
    case (Cons c t)
    note le = skip_space_le [of t]
    have tl: "length (tl (skip_space t)) \<le> length t" using le by simp
    show ?thesis
      using 2 Cons le tl by (fastforce split: if_splits dest: json_string_shorter word_shorter)
  qed (use 2 in simp)
next
  case (4 n s)
  then obtain y t where v: "json_value n s = Some (y, t)" by (cases "json_value n s") auto
  then obtain c t' where c: "skip_space t = c # t'" using 4(3) by (cases "skip_space t") auto
  have l: "length t < length s" using 4(1) [OF v] .
  have "length t' < length t" using skip_space_le [of t] c by simp
  moreover have "length (skip_space t') \<le> length t'" by (rule skip_space_le)
  ultimately show ?case using 4(2,3) v c l by (fastforce split: if_splits)
next
  case (6 n d s)
  then obtain s' where s: "s = CHR 0x22 # s'" by (cases s) (auto split: if_splits)
  obtain k r1 where k: "json_string s' = Some (k, r1)" using 6(3) s by (cases "json_string s'") auto
  obtain r2 where r2: "skip_space r1 = CHR '':'' # r2" using 6(3) s k by (cases "skip_space r1") (auto split: if_splits)
  obtain y t where v: "json_value n (skip_space r2) = Some (y, t)" using 6(3) s k r2 by (cases "json_value n (skip_space r2)") auto
  obtain e t' where e: "skip_space t = e # t'" using 6(3) s k r2 v by (cases "skip_space t") auto
  have a: "length t < length (skip_space r2)" using 6(1) s k r2 v by auto
  have "length r1 < length s'" by (rule json_string_shorter [OF k])
  moreover have "length r2 < length r1" using skip_space_le [of r1] r2 by simp
  moreover have "length t' < length t" using skip_space_le [of t] e by simp
  moreover note skip_space_le [of r2] skip_space_le [of t'] a
  ultimately show ?case using 6(2,3) s k r2 v e by (fastforce split: if_splits)
qed auto

lemma json_enough:
  "2 * length s + 1 \<le> n \<Longrightarrow> json_value (Suc n) s = json_value n s"
  "2 * length s + 2 \<le> n \<Longrightarrow> json_items (Suc n) s = json_items n s"
  "2 * length s + 2 \<le> n \<Longrightarrow> json_members (Suc n) d s = json_members n d s"
proof (induction n s and n s and n d s rule: json_value_json_items_json_members.induct)
  case (2 n s)
  show ?case
  proof (cases s)
    case (Cons c t)
    have "2 * length (skip_space t) + 2 \<le> n" using 2(3) Cons skip_space_le [of t] by simp
    then show ?thesis using 2(1,2) Cons by (simp del: json_items.simps json_members.simps)
  qed simp
next
  case (4 n s)
  show ?case
  proof (cases "json_value n s")
    case (Some y)
    then obtain x r where v: "json_value n s = Some (x, r)" by (cases y) simp
    have "2 * length (skip_space t) + 2 \<le> n" if "skip_space r = c # t" for c t
      using 4(3) json_shorter(1) [OF v] skip_space_le [of r] skip_space_le [of t] that by simp
    then show ?thesis using 4 v by (auto simp del: json_value.simps split: list.splits)
  qed (use 4 in \<open>simp del: json_value.simps\<close>)
next
  case (6 n d s)
  have a: "json_value (Suc n) (skip_space r') = json_value n (skip_space r')"
    if "s = CHR 0x22 # s'" "json_string s' = Some (k, r)" "skip_space r = CHR '':'' # r'" for s' k r r'
  proof (rule 6(1) [OF that(1) _ that(2) refl that(3)])
    show "2 * length (skip_space r') + 1 \<le> n"
      using 6(3) that json_string_shorter [OF that(2)] skip_space_le [of r] skip_space_le [of r'] by simp
  qed auto
  have b: "json_members (Suc n) (dict_set d k x) (skip_space t') = json_members n (dict_set d k x) (skip_space t')"
    if "s = CHR 0x22 # s'" "json_string s' = Some (k, r)" "skip_space r = CHR '':'' # r'"
      "json_value n (skip_space r') = Some (x, t)" "skip_space t = CHR '','' # t'" for s' k r r' x t t'
  proof -
    have "2 * length (skip_space t') + 2 \<le> n"
      using 6(3) that(1,3,5) json_string_shorter [OF that(2)] json_shorter(1) [OF that(4)]
        skip_space_le [of r] skip_space_le [of r'] skip_space_le [of t] skip_space_le [of t'] by simp
    then show ?thesis using 6(2) that by auto
  qed
  show ?case
    by (subst (1 2) json_members.simps) (auto simp: a b simp del: json_members.simps json_value.simps split: list.splits option.splits)
qed auto

lemma json_value_enough: "n \<le> m \<Longrightarrow> 2 * length s + 1 \<le> n \<Longrightarrow> json_value m s = json_value n s"
proof (induction rule: dec_induct)
  case (step m)
  then show ?case using json_enough(1) [of s m] by simp
qed simp

text \<open>So \<open>None\<close> is never an exhausted counter: a larger one finds no value either.\<close>

lemma json_loads_counter:
  "2 * length s + 2 \<le> n \<Longrightarrow> json_value n (skip_space s) = json_value (2 * length s + 2) (skip_space s)"
  by (rule json_value_enough) (use skip_space_le [of s] in auto)

section \<open>Operations of the decoded values\<close>

text \<open>
  \<open>d.get(k)\<close>, where Python's \<open>None\<close> is \<open>JNull\<close>; \<open>v[k]\<close> with a string \<open>k\<close>; \<open>str(v)\<close> and \<open>repr(v)\<close>, in which a float is
  printed as the text it was read from.
\<close>

definition jget :: "(string \<times> json) list \<Rightarrow> string \<Rightarrow> json" where
  "jget d k = (case map_of d k of None \<Rightarrow> JNull | Some v \<Rightarrow> v)"

definition jindex :: "json \<Rightarrow> string \<Rightarrow> json result" where
  "jindex v k =
     (case v of
        JDict d \<Rightarrow> (case map_of d k of None \<Rightarrow> Inl (KeyError k) | Some x \<Rightarrow> Inr x)
      | _ \<Rightarrow> Inl TypeError)"

fun json_repr :: "json \<Rightarrow> string" where
  "json_repr JNull = ''None''"
| "json_repr (JBool b) = (if b then ''True'' else ''False'')"
| "json_repr (JInt i) = str_int i"
| "json_repr (JFloat t) = t"
| "json_repr (JStr s) = repr_str s"
| "json_repr (JList xs) = ''['' @ join '', '' (map json_repr xs) @ '']''"
| "json_repr (JDict d) = ''{'' @ join '', '' (map (\<lambda>(k, v). repr_str k @ '': '' @ json_repr v) d) @ ''}''"

definition json_str :: "json \<Rightarrow> string" where
  "json_str v = (case v of JStr s \<Rightarrow> s | _ \<Rightarrow> json_repr v)"

lemma json_str_JStr [simp]: "json_str (JStr s) = s"
  by (simp add: json_str_def)

text \<open>\<open>isinstance(v, str) and v\<close>, and the same with \<open>v.strip()\<close>.\<close>

definition nonempty_str :: "json \<Rightarrow> bool" where
  "nonempty_str v = (case v of JStr s \<Rightarrow> s \<noteq> [] | _ \<Rightarrow> False)"

definition nonblank_str :: "json \<Rightarrow> bool" where
  "nonblank_str v = (case v of JStr s \<Rightarrow> strip s \<noteq> [] | _ \<Rightarrow> False)"

lemma nonempty_str_iff: "nonempty_str v \<longleftrightarrow> (\<exists>s. v = JStr s \<and> s \<noteq> [])"
  by (cases v) (auto simp: nonempty_str_def)

lemma nonblank_str_iff: "nonblank_str v \<longleftrightarrow> (\<exists>s. v = JStr s \<and> strip s \<noteq> [])"
  by (cases v) (auto simp: nonblank_str_def)

text \<open>Decoded objects have each key once.\<close>

fun keys_distinct :: "json \<Rightarrow> bool" where
  "keys_distinct (JList xs) \<longleftrightarrow> list_all keys_distinct xs"
| "keys_distinct (JDict d) \<longleftrightarrow> distinct (map fst d) \<and> list_all (\<lambda>(k, v). keys_distinct v) d"
| "keys_distinct _ \<longleftrightarrow> True"

lemma keys_distinct_set:
  "keys_distinct (JDict d) \<Longrightarrow> keys_distinct v \<Longrightarrow> keys_distinct (JDict (dict_set d k v))"
proof -
  assume a: "keys_distinct (JDict d)" and v: "keys_distinct v"
  have "set (dict_set d k v) \<subseteq> insert (k, v) (set d)" by (induction d) auto
  then have "list_all (\<lambda>(k, v). keys_distinct v) (dict_set d k v)" using a v by (auto simp: list_all_iff)
  then show ?thesis using a distinct_update [of d k v] by simp
qed

lemma json_word_distinct: "json_word s = Some (x, r) \<Longrightarrow> keys_distinct x"
  by (auto simp: json_word_def json_number_def Let_def split: if_splits option.splits prod.splits)

lemma json_distinct:
  "json_value n s = Some (x, r) \<Longrightarrow> keys_distinct x"
  "json_items n s = Some (xs, r) \<Longrightarrow> list_all keys_distinct xs"
  "json_members n d s = Some (d', r) \<Longrightarrow> keys_distinct (JDict d) \<Longrightarrow> keys_distinct (JDict d')"
proof (induction n s and n s and n d s arbitrary: x r and xs r and d' r rule: json_value_json_items_json_members.induct)
  case (2 n s)
  then show ?case
    by (auto simp del: keys_distinct.simps(2) split: list.splits if_splits intro: json_word_distinct) (simp_all add: list_all_iff)
next
  case (4 n s)
  then show ?case by (fastforce split: option.splits list.splits if_splits)
next
  case (6 n d s)
  obtain s' where s: "s = CHR 0x22 # s'" using 6(3) by (cases s) (auto split: if_splits)
  obtain k r1 where k: "json_string s' = Some (k, r1)" using 6(3) s by (cases "json_string s'") auto
  obtain r2 where r2: "skip_space r1 = CHR '':'' # r2" using 6(3) s k by (cases "skip_space r1") (auto split: if_splits)
  obtain y t where v: "json_value n (skip_space r2) = Some (y, t)" using 6(3) s k r2 by (cases "json_value n (skip_space r2)") auto
  obtain e t' where e: "skip_space t = e # t'" using 6(3) s k r2 v by (cases "skip_space t") auto
  have "keys_distinct y" using 6(1) s k r2 v by blast
  then have d: "keys_distinct (JDict (dict_set d k y))" by (rule keys_distinct_set [OF 6(4)])
  show ?case using 6(2,3) d s k r2 v e by (auto simp del: keys_distinct.simps(2) split: if_splits)
qed auto

lemma json_loads_distinct: "json_loads t = Some x \<Longrightarrow> keys_distinct x"
  by (auto simp: json_loads_def simp del: json_value.simps split: if_splits option.splits dest: json_distinct(1))

lemma keys_distinct_get: "keys_distinct (JDict d) \<Longrightarrow> keys_distinct (jget d k)"
  by (auto simp: jget_def list_all_iff split: option.splits dest!: map_of_SomeD)

end
