(* ===== verification/Backend_Gap.thy ===== *)
theory Backend_Gap
  imports Py_Json Py_Regex
begin

text \<open>
  \<open>tools/toolchain/backend_gap_lib.py\<close>: the structured cause of a backend refusal, how the diagnostic spells
  it, how it is read back from a diagnostic line, and the check that a recorded cause is well formed.
  A cause is an object with four string fields; a Python \<open>dict\<close> is its list of members.
\<close>

section \<open>Rendering and parsing\<close>

definition STRUCTURED_REASON :: string where
  "STRUCTURED_REASON = ''E_BACKEND_UNSUPPORTED''"

definition CAUSE_FIELDS :: "string list" where
  "CAUSE_FIELDS = [''category'', ''construct'', ''function'', ''phase'']"

abbreviation bquote :: char where
  "bquote \<equiv> CHR 0x60"

definition gap_head :: string where
  "gap_head = ''E_BACKEND_UNSUPPORTED: C backend does not yet support ''"

definition in_text :: string where
  "in_text = bquote # '' in '' @ [bquote]"

definition declined_text :: string where
  "declined_text = bquote # '' (declined by ''"

text \<open>\<open>_CAUSE_RE\<close>.\<close>

definition CAUSE_RE :: matcher where
  "CAUSE_RE = rx_seqs [rx_lit gap_head, rx_group (rx_lazy_plus (\<lambda>c. c \<noteq> CHR 0x0A)), rx_lit [CHR 0x20, bquote],
     rx_group (rx_star (\<lambda>c. c \<noteq> bquote)), rx_lit in_text, rx_group (rx_star (\<lambda>c. c \<noteq> bquote)), rx_lit declined_text,
     rx_group (rx_star (\<lambda>c. c \<noteq> CHR '')'')), rx_lit '')'']"

text \<open>The f-string of \<open>render_cause\<close> over the printed fields.\<close>

definition cause_text :: "string \<Rightarrow> string \<Rightarrow> string \<Rightarrow> string \<Rightarrow> string" where
  "cause_text cat con fn ph = gap_head @ cat @ [CHR 0x20, bquote] @ con @ in_text @ fn @ declined_text @ ph @ '')''"

definition render_cause :: "json \<Rightarrow> string result" where
  "render_cause cause =
     rbind (jindex cause ''category'') (\<lambda>cat. rbind (jindex cause ''construct'') (\<lambda>con.
     rbind (jindex cause ''function'') (\<lambda>fn. rbind (jindex cause ''phase'') (\<lambda>ph.
       Inr (cause_text (json_str cat) (json_str con) (json_str fn) (json_str ph))))))"

definition parse_cause :: "string \<Rightarrow> (string \<times> json) list option" where
  "parse_cause message =
     (case re_search CAUSE_RE message of
        None \<Rightarrow> None
      | Some (a, groups) \<Rightarrow> Some (zip CAUSE_FIELDS (map JStr groups)))"

section \<open>Well-formed causes\<close>

text \<open>Equality of two objects.\<close>

definition same_dict :: "(string \<times> json) list \<Rightarrow> (string \<times> json) list \<Rightarrow> bool" where
  "same_dict a b \<longleftrightarrow> length a = length b \<and> list_all (\<lambda>(k, v). map_of b k = Some v) a"

text \<open>The loop over \<open>CAUSE_FIELDS\<close>.\<close>

fun field_problem :: "(string \<times> json) list \<Rightarrow> string list \<Rightarrow> string option" where
  "field_problem d [] = None"
| "field_problem d (f # fs) =
     (case map_of d f of
        Some (JStr v) \<Rightarrow>
          if strip v = [] then Some (''cause.'' @ f @ '' must be a non-empty string'')
          else if bquote \<in> set v then Some (''cause.'' @ f @ '' must not contain a backtick; it is a field, not rendered text'')
          else field_problem d fs
      | _ \<Rightarrow> Some (''cause.'' @ f @ '' must be a non-empty string''))"

definition cause_problem :: "json \<Rightarrow> string option result" where
  "cause_problem cause =
     (case cause of
        JDict d \<Rightarrow>
          (let missing = filter (\<lambda>f. f \<notin> fst ` set d) CAUSE_FIELDS;
               extra = filter (\<lambda>k. k \<notin> set CAUSE_FIELDS) (map fst d) in
           if missing \<noteq> [] then Inr (Some (''cause is missing '' @ join '', '' missing))
           else if extra \<noteq> [] then Inr (Some (''cause has unknown field(s) '' @ join '', '' (sort extra)))
           else
             (case field_problem d CAUSE_FIELDS of
                Some p \<Rightarrow> Inr (Some p)
              | None \<Rightarrow>
                  rbind (render_cause cause) (\<lambda>t.
                    Inr (case parse_cause t of
                           Some m \<Rightarrow> if same_dict m d then None
                             else Some ''cause does not round-trip through the diagnostic text it stands for''
                         | None \<Rightarrow> Some ''cause does not round-trip through the diagnostic text it stands for''))))
      | _ \<Rightarrow> Inr (Some ''cause must be an object''))"

section \<open>Reading a rendered cause back\<close>

lemma lit_tick_none:
  "bquote \<notin> set v \<Longrightarrow> v \<noteq> [] \<Longrightarrow> rx_seq (rx_lit [CHR 0x20, bquote]) n p (v @ [CHR 0x20, bquote] @ r) = []"
  by (cases v; cases "tl v") (auto simp: rx_seq_def rx_lit_def startswith_def)

lemma cause_first:
  assumes "cat \<noteq> []" and "CHR 0x0A \<notin> set cat" and "bquote \<notin> set cat" and "bquote \<notin> set con" and "bquote \<notin> set fn" and "CHR '')'' \<notin> set ph"
  shows "first_is CAUSE_RE p (cause_text cat con fn ph @ post) (cause_text cat con fn ph, post, [cat, con, fn, ph])"
proof -
  have neq: "list_all (\<lambda>d. d \<noteq> c) xs" if "c \<notin> set xs" for c :: char and xs
    using that by (auto simp: list_all_iff)
  have last: "first_is (rx_seq (rx_lit '')'') rx_empty) q ('')'' @ post) ('')'' @ [], post, [])" for q
    by (rule walk_lit, rule first_empty)
  have ph: "first_is (rx_seq (rx_group (rx_star (\<lambda>c. c \<noteq> CHR '')''))) (rx_seq (rx_lit '')'') rx_empty)) q (ph @ '')'' @ post) (ph @ '')'' @ [], post, [ph])" for q
    by (rule walk_group_star [OF neq [OF assms(6)] _ last]) simp
  have fn: "first_is (rx_seq (rx_group (rx_star (\<lambda>c. c \<noteq> bquote))) (rx_seq (rx_lit declined_text) (rx_seq (rx_group (rx_star (\<lambda>c. c \<noteq> CHR '')''))) (rx_seq (rx_lit '')'') rx_empty)))) q
      (fn @ declined_text @ ph @ '')'' @ post) (fn @ declined_text @ ph @ '')'' @ [], post, [fn, ph])" for q
    by (rule walk_group_star [OF neq [OF assms(5)] _ walk_lit [OF ph]]) (simp add: declined_text_def)
  have con: "first_is (rx_seq (rx_group (rx_star (\<lambda>c. c \<noteq> bquote))) (rx_seq (rx_lit in_text) (rx_seq (rx_group (rx_star (\<lambda>c. c \<noteq> bquote)))
      (rx_seq (rx_lit declined_text) (rx_seq (rx_group (rx_star (\<lambda>c. c \<noteq> CHR '')''))) (rx_seq (rx_lit '')'') rx_empty)))))) q
      (con @ in_text @ fn @ declined_text @ ph @ '')'' @ post) (con @ in_text @ fn @ declined_text @ ph @ '')'' @ [], post, [con, fn, ph])" for q
    by (rule walk_group_star [OF neq [OF assms(4)] _ walk_lit [OF fn]]) (simp add: in_text_def)
  have cat: "first_is (rx_seq (rx_group (rx_lazy_plus (\<lambda>c. c \<noteq> CHR 0x0A))) (rx_seq (rx_lit [CHR 0x20, bquote]) (rx_seq (rx_group (rx_star (\<lambda>c. c \<noteq> bquote)))
      (rx_seq (rx_lit in_text) (rx_seq (rx_group (rx_star (\<lambda>c. c \<noteq> bquote))) (rx_seq (rx_lit declined_text)
      (rx_seq (rx_group (rx_star (\<lambda>c. c \<noteq> CHR '')''))) (rx_seq (rx_lit '')'') rx_empty)))))))) q
      (cat @ [CHR 0x20, bquote] @ con @ in_text @ fn @ declined_text @ ph @ '')'' @ post)
      (cat @ [CHR 0x20, bquote] @ con @ in_text @ fn @ declined_text @ ph @ '')'' @ [], post, [cat, con, fn, ph])" for q
    by (rule walk_group_lazy_plus [OF neq [OF assms(2)] assms(1) _ walk_lit [OF con]], rule lit_tick_none) (use assms(3) in auto)
  have "first_is CAUSE_RE p (gap_head @ cat @ [CHR 0x20, bquote] @ con @ in_text @ fn @ declined_text @ ph @ '')'' @ post)
      (gap_head @ cat @ [CHR 0x20, bquote] @ con @ in_text @ fn @ declined_text @ ph @ '')'' @ [], post, [cat, con, fn, ph])"
    unfolding CAUSE_RE_def rx_seqs_simps by (rule walk_lit [OF cat])
  then show ?thesis by (simp add: cause_text_def)
qed

text \<open>No proper suffix of the fixed head is also a prefix of it, so a text without the head hides none before one.\<close>

lemma gap_head_unbordered: "\<forall>k \<in> set [1..<length gap_head]. drop k gap_head \<noteq> take (length gap_head - k) gap_head"
  unfolding gap_head_def by code_simp

lemma head_not_before:
  assumes "\<not> contains pre gap_head" and "pre = u @ v" and "v \<noteq> []"
  shows "\<not> startswith (v @ gap_head @ rest) gap_head"
proof
  assume s: "startswith (v @ gap_head @ rest) gap_head"
  then obtain z where z: "v @ gap_head @ rest = gap_head @ z" by (auto simp: startswith_iff)
  show False
  proof (cases "length gap_head \<le> length v")
    case True
    with z have "v = gap_head @ drop (length gap_head) v"
      by (metis append_eq_append_conv_if append_take_drop_id)
    with assms(1,2) show False by (metis append.assoc contains_iff)
  next
    case False
    let ?k = "length v"
    have v: "v = take ?k gap_head" using z False by (metis append_eq_append_conv_if nat_le_linear take_all_iff)
    have "drop ?k (v @ gap_head @ rest) = drop ?k (gap_head @ z)" using z by simp
    then have "gap_head @ rest = drop ?k gap_head @ z" using False by simp
    then have "take (length gap_head - ?k) gap_head = drop ?k gap_head"
      by (metis append_eq_conv_conj length_drop diff_le_self take_append take_all_iff append_eq_append_conv_if)
    moreover have "?k \<in> set [1..<length gap_head]" using False assms(3) by (cases v) auto
    ultimately show False using gap_head_unbordered by metis
  qed
qed

text \<open>A diagnostic line that spells a cause, behind any prefix that does not itself begin one.\<close>

lemma parse_cause_line:
  assumes "\<not> contains pre gap_head"
    and "cat \<noteq> []" "CHR 0x0A \<notin> set cat" "bquote \<notin> set cat" "bquote \<notin> set con" "bquote \<notin> set fn" "CHR '')'' \<notin> set ph"
  shows "parse_cause (pre @ cause_text cat con fn ph @ post) =
    Some [(''category'', JStr cat), (''construct'', JStr con), (''function'', JStr fn), (''phase'', JStr ph)]"
proof -
  obtain rest where rest: "cause_text cat con fn ph @ post = gap_head @ rest" by (simp add: cause_text_def)
  have "CAUSE_RE p (v @ cause_text cat con fn ph @ post) = []" if "pre = u @ v" "v \<noteq> []" for u v p
    using head_not_before [OF assms(1) that] by (simp add: rest CAUSE_RE_def rx_seq_def [of "rx_lit gap_head"] rx_lit_def)
  then obtain q where "re_search_from CAUSE_RE None (pre @ cause_text cat con fn ph @ post) = re_search_from CAUSE_RE q (cause_text cat con fn ph @ post)"
    using search_skip [of pre CAUSE_RE "cause_text cat con fn ph @ post" None] by blast
  also have "\<dots> = Some (cause_text cat con fn ph, [cat, con, fn, ph])"
    by (rule first_search [OF cause_first [OF assms(2-)]])
  finally show ?thesis by (simp add: parse_cause_def re_search_def CAUSE_FIELDS_def)
qed

text \<open>What a parsed cause can be.\<close>

lemma parse_cause_fields:
  assumes "parse_cause t = Some d"
  obtains cat con fn ph where "d = [(''category'', JStr cat), (''construct'', JStr con), (''function'', JStr fn), (''phase'', JStr ph)]"
    and "CHR 0x0A \<notin> set cat" and "CHR '')'' \<notin> set ph"
proof -
  obtain a g where "re_search_from CAUSE_RE None t = Some (a, g)" and d: "d = zip CAUSE_FIELDS (map JStr g)"
    using assms by (auto simp: parse_cause_def re_search_def split: option.splits)
  then obtain q s r where m: "(a, r, g) \<in> set (CAUSE_RE q s)" by (metis search_mem)
  then obtain cat con fn ph where "g = [cat, con, fn, ph]" "list_all (\<lambda>c. c \<noteq> CHR 0x0A) cat" "list_all (\<lambda>c. c \<noteq> CHR '')'') ph"
    unfolding CAUSE_RE_def rx_seqs_simps by (auto simp: rx_mem)
  with d that [of cat con fn ph] show thesis by (auto simp: CAUSE_FIELDS_def list_all_iff)
qed

text \<open>The well-formed causes: exactly the four fields, each a printable piece of the diagnostic.\<close>

definition well_formed_cause :: "string \<Rightarrow> string \<Rightarrow> string \<Rightarrow> string \<Rightarrow> bool" where
  "well_formed_cause cat con fn ph \<longleftrightarrow>
     list_all (\<lambda>v. strip v \<noteq> [] \<and> bquote \<notin> set v) [cat, con, fn, ph] \<and> CHR 0x0A \<notin> set cat \<and> CHR '')'' \<notin> set ph"

definition has_cause :: "(string \<times> json) list \<Rightarrow> string \<Rightarrow> string \<Rightarrow> string \<Rightarrow> string \<Rightarrow> bool" where
  "has_cause d cat con fn ph \<longleftrightarrow> distinct (map fst d) \<and> map_of d = [''category'' \<mapsto> JStr cat, ''construct'' \<mapsto> JStr con, ''function'' \<mapsto> JStr fn, ''phase'' \<mapsto> JStr ph]"

lemma has_cause_fields: "has_cause d cat con fn ph \<Longrightarrow> fst ` set d = set CAUSE_FIELDS"
  unfolding has_cause_def dom_map_of_conv_image_fst [symmetric] by (auto simp: CAUSE_FIELDS_def)

lemma render_has_cause: "has_cause d cat con fn ph \<Longrightarrow> render_cause (JDict d) = Inr (cause_text cat con fn ph)"
  by (simp add: render_cause_def has_cause_def jindex_def)

lemma has_cause_length:
  assumes "has_cause d cat con fn ph" shows "length d = 4"
proof -
  have "length d = card (fst ` set d)" using assms distinct_card [of "map fst d"] by (simp add: has_cause_def)
  then show ?thesis by (simp add: has_cause_fields [OF assms] CAUSE_FIELDS_def)
qed

lemma strip_nil [simp]: "strip [] = []"
  by (simp add: strip_def lstrip_def rstrip_def)

lemma parse_render_cause:
  assumes "well_formed_cause cat con fn ph" and "\<not> contains pre gap_head"
  shows "parse_cause (pre @ cause_text cat con fn ph @ post) =
    Some [(''category'', JStr cat), (''construct'', JStr con), (''function'', JStr fn), (''phase'', JStr ph)]"
  by (rule parse_cause_line) (use assms in \<open>auto simp: well_formed_cause_def\<close>)

lemma cause_problem_complete:
  assumes "has_cause d cat con fn ph" and "well_formed_cause cat con fn ph"
  shows "cause_problem (JDict d) = Inr None"
proof -
  have p: "parse_cause (cause_text cat con fn ph) = Some [(''category'', JStr cat), (''construct'', JStr con), (''function'', JStr fn), (''phase'', JStr ph)]"
    using parse_render_cause [OF assms(2), of "[]" "[]"] by (simp add: gap_head_def contains.simps startswith_def)
  have "field_problem d CAUSE_FIELDS = None"
    using assms(1,2) by (simp add: CAUSE_FIELDS_def has_cause_def well_formed_cause_def)
  moreover have "filter (\<lambda>f. f \<notin> fst ` set d) CAUSE_FIELDS = []" "filter (\<lambda>k. k \<notin> set CAUSE_FIELDS) (map fst d) = []"
    using has_cause_fields [OF assms(1)] by (auto simp: filter_empty_conv)
  moreover have "same_dict [(''category'', JStr cat), (''construct'', JStr con), (''function'', JStr fn), (''phase'', JStr ph)] d"
    using assms(1) has_cause_length [OF assms(1)] by (simp add: same_dict_def has_cause_def)
  ultimately show ?thesis by (simp add: cause_problem_def render_has_cause [OF assms(1)] p)
qed

lemma field_problem_None: "field_problem d fs = None \<longleftrightarrow> list_all (\<lambda>f. \<exists>v. map_of d f = Some (JStr v) \<and> strip v \<noteq> [] \<and> bquote \<notin> set v) fs"
  by (induction fs) (auto split: option.splits json.splits)

lemma cause_problem_sound:
  assumes "cause_problem cause = Inr None" and "keys_distinct cause"
  obtains d cat con fn ph where "cause = JDict d" and "has_cause d cat con fn ph" and "well_formed_cause cat con fn ph"
proof -
  obtain d where d: "cause = JDict d" using assms(1) by (cases cause) (auto simp: cause_problem_def)
  have m: "filter (\<lambda>f. f \<notin> fst ` set d) CAUSE_FIELDS = []" and x: "filter (\<lambda>k. k \<notin> set CAUSE_FIELDS) (map fst d) = []"
    and f: "field_problem d CAUSE_FIELDS = None"
    using assms by (auto simp: d cause_problem_def Let_def split: if_splits option.splits)
  then obtain cat con fn ph where v: "map_of d ''category'' = Some (JStr cat)" "map_of d ''construct'' = Some (JStr con)"
      "map_of d ''function'' = Some (JStr fn)" "map_of d ''phase'' = Some (JStr ph)"
    and ok: "list_all (\<lambda>v. strip v \<noteq> [] \<and> bquote \<notin> set v) [cat, con, fn, ph]"
    unfolding field_problem_None CAUSE_FIELDS_def by auto
  have "map_of d k = None" if "k \<notin> set CAUSE_FIELDS" for k
    using x that by (auto simp: filter_empty_conv map_of_eq_None_iff)
  then have h: "has_cause d cat con fn ph" using v assms(2) by (auto simp: d has_cause_def CAUSE_FIELDS_def fun_eq_iff)
  obtain t where "parse_cause (cause_text cat con fn ph) = Some t" and t: "same_dict t d"
    using assms m x f by (auto simp: d cause_problem_def render_has_cause [OF h] Let_def split: option.splits if_splits)
  then obtain cat' con' fn' ph' where "t = [(''category'', JStr cat'), (''construct'', JStr con'), (''function'', JStr fn'), (''phase'', JStr ph')]"
    and "CHR 0x0A \<notin> set cat'" "CHR '')'' \<notin> set ph'" by (metis parse_cause_fields)
  with t v ok have "well_formed_cause cat con fn ph" by (auto simp: same_dict_def well_formed_cause_def)
  with d h that show thesis by blast
qed

end
