(* ===== verification/Backend_Manifest.thy ===== *)
theory Backend_Manifest
  imports Backend_Gap
begin

text \<open>
  \<open>tools/toolchain/backend-expected-failures-test.py\<close>: the check of the manifest of known backend failures. The
  files of the repository are a map from paths to contents; \<open>fail\<close>, which prints and exits with status 1, is
  a value of its own beside the exceptions.
\<close>

section \<open>Failing a check\<close>

datatype stop = Fail string | Exc py_exc

type_synonym 'a check = "stop + 'a"

fun lift_exc :: "'a result \<Rightarrow> 'a check" where
  "lift_exc (Inl e) = Inl (Exc e)"
| "lift_exc (Inr x) = Inr x"

definition fail_with :: "string \<Rightarrow> 'a check" where
  "fail_with message = Inl (Fail message)"

definition check_that :: "bool \<Rightarrow> string \<Rightarrow> unit check" where
  "check_that b message = (if b then Inr () else fail_with message)"

abbreviation andthen :: "unit check \<Rightarrow> 'a check \<Rightarrow> 'a check" where
  "andthen m n \<equiv> rbind m (\<lambda>_. n)"

lemma check_that_iff [simp]: "check_that b message = Inr u \<longleftrightarrow> b"
  by (simp add: check_that_def fail_with_def)

lemma fail_with_not [simp]: "fail_with message \<noteq> Inr x"
  by (simp add: fail_with_def)

lemma andthen_iff: "andthen m n = Inr x \<longleftrightarrow> m = Inr () \<and> n = Inr x"
  by (cases m) auto

lemma lift_exc_iff [simp]: "lift_exc r = Inr x \<longleftrightarrow> r = Inr x"
  by (cases r) auto

type_synonym files = "string \<Rightarrow> string option"

definition in_root :: "string \<Rightarrow> string \<Rightarrow> string" where
  "in_root root path = (if startswith path ''/'' then path else path_join root path)"

definition is_file :: "files \<Rightarrow> string \<Rightarrow> bool" where
  "is_file files path \<longleftrightarrow> files path \<noteq> None"

text \<open>\<open>path.read_text(encoding="utf-8")\<close>.\<close>

definition file_text :: "files \<Rightarrow> string \<Rightarrow> string result" where
  "file_text files path =
     (case files path of None \<Rightarrow> Inl (no_such_file path)
      | Some c \<Rightarrow> if valid_utf8 c then Inr (universal_newlines c) else Inl ValueError)"

section \<open>Reason codes and causes\<close>

definition MANIFEST :: string where
  "MANIFEST = ''docs/backend-expected-failures.json''"

definition HARNESS :: string where
  "HARNESS = ''tools/toolchain/check-generated-c.sh''"

definition SWEEP_HARNESS :: string where
  "SWEEP_HARNESS = ''tools/toolchain/spec-emit-sweep.py''"

definition upper_letter :: "char \<Rightarrow> bool" where
  "upper_letter c \<longleftrightarrow> c \<in> set upper_letters"

definition lower_letter :: "char \<Rightarrow> bool" where
  "lower_letter c \<longleftrightarrow> c \<in> set lower_letters"

definition DIAGNOSTIC_RE :: matcher where
  "DIAGNOSTIC_RE = rx_seqs [rx_begin, rx_lit ''E_'', rx_plus (\<lambda>c. upper_letter c \<or> is_digit c \<or> c = CHR ''_''), rx_end]"

definition INTERNAL_RE :: matcher where
  "INTERNAL_RE = rx_seqs [rx_begin, rx_cls upper_letter, rx_plus (\<lambda>c. upper_letter c \<or> lower_letter c \<or> is_digit c), rx_end]"

definition reason_code :: "string \<Rightarrow> bool" where
  "reason_code reason \<longleftrightarrow> re_match DIAGNOSTIC_RE reason \<noteq> None \<or> re_match INTERNAL_RE reason \<noteq> None"

definition require_cause :: "string \<Rightarrow> (string \<times> json) list \<Rightarrow> unit check" where
  "require_cause fixture entry =
     (let cause = jget entry ''cause'' in
      rbind (lift_exc (jindex (JDict entry) ''reason'')) (\<lambda>reason.
        if reason \<noteq> JStr STRUCTURED_REASON then
          check_that (cause = JNull) (fixture @ '' records a cause but fails with '' @ json_repr reason @ '', which is not '' @
            STRUCTURED_REASON @ ''; the reason already names its gap'')
        else if cause = JNull then
          fail_with (fixture @ '' fails with '' @ STRUCTURED_REASON @ '', which names no gap on its own; record a cause with the refusing phase, category, construct and function the diagnostic spells'')
        else
          rbind (lift_exc (cause_problem cause)) (\<lambda>problem.
            case problem of None \<Rightarrow> Inr () | Some p \<Rightarrow> fail_with (fixture @ '': '' @ p))))"

section \<open>The entries\<close>

text \<open>One round of the loop over \<open>emit_c\<close>, with the fixtures seen so far; the new ones are its value.\<close>

definition emit_entry :: "string \<Rightarrow> files \<Rightarrow> string list \<Rightarrow> json \<Rightarrow> string list check" where
  "emit_entry root files seen entry =
     (case entry of
        JDict d \<Rightarrow>
          (let reason = jget d ''reason''; note = jget d ''note'' in
           if \<not> nonempty_str (jget d ''fixture'') then fail_with ''each entry must name a fixture''
           else
             (let fixture = json_str (jget d ''fixture'') in
              andthen (check_that (fixture \<notin> set seen) (''duplicate entry for '' @ fixture))
              (andthen (check_that (is_file files (in_root root fixture)) (fixture @ '' is listed but does not exist; delete the entry''))
              (andthen (check_that (startswith fixture ''tests/c_emit/'') (fixture @ '' is outside the c-test corpus''))
              (andthen (check_that (\<not> startswith fixture ''tests/c_emit/bad/'') (fixture @ '' is a reject fixture and is already asserted by c-test''))
              (andthen (check_that (nonempty_str reason) (fixture @ '' must record the reason it fails''))
              (andthen (check_that (reason_code (json_str reason))
                 (fixture @ '' reason '' @ json_repr reason @ '' is neither an E_* code nor an error name''))
              (andthen (require_cause fixture d)
              (andthen (check_that (nonblank_str note) (fixture @ '' must carry a note saying why it cannot compile today''))
                (Inr (fixture # seen)))))))))))
      | _ \<Rightarrow> fail_with ''each emit_c entry must be an object'')"

definition sweep_entry :: "string \<Rightarrow> files \<Rightarrow> string list \<Rightarrow> json \<Rightarrow> string list check" where
  "sweep_entry root files seen entry =
     (case entry of
        JDict d \<Rightarrow>
          (let stage = jget d ''stage''; reason = jget d ''reason''; note = jget d ''note'' in
           if \<not> nonempty_str (jget d ''fixture'') then fail_with ''each sweep entry must name a fixture''
           else
             (let fixture = json_str (jget d ''fixture'') in
              andthen (check_that (fixture \<notin> set seen) (''duplicate sweep entry for '' @ fixture))
              (andthen (check_that (is_file files (if startswith fixture ''/'' then fixture else path_join (in_root root ''tests/spec'') fixture))
                 (''sweep entry '' @ fixture @ '' does not exist under tests/spec; delete the entry''))
              (andthen (check_that (stage = JStr ''EMIT'' \<or> stage = JStr ''CLANG'') (''sweep entry '' @ fixture @ '' has unknown stage '' @ json_repr stage))
              (andthen (check_that (nonempty_str reason) (''sweep entry '' @ fixture @ '' must record the reason it fails''))
              (andthen (check_that (stage = JStr ''EMIT'' \<longrightarrow> reason_code (json_str reason))
                 (''sweep entry '' @ fixture @ '' reason '' @ json_repr reason @ '' is neither an E_* code nor an error name''))
              (andthen (require_cause (''sweep entry '' @ fixture) d)
              (andthen (check_that (nonblank_str note) (''sweep entry '' @ fixture @ '' must carry a note saying why it cannot compile today''))
                (Inr (fixture # seen))))))))))
      | _ \<Rightarrow> fail_with ''each sweep entry must be an object'')"

fun all_entries :: "(string list \<Rightarrow> json \<Rightarrow> string list check) \<Rightarrow> string list \<Rightarrow> json list \<Rightarrow> unit check" where
  "all_entries f seen [] = Inr ()"
| "all_entries f seen (e # es) = rbind (f seen e) (\<lambda>seen'. all_entries f seen' es)"

section \<open>The harnesses and the summary\<close>

fun needles :: "string \<Rightarrow> string \<Rightarrow> string list \<Rightarrow> unit check" where
  "needles name harness [] = Inr ()"
| "needles name harness (n # ns) =
     andthen (check_that (contains harness n) (name @ '' no longer consults the manifest ('' @ repr_str n @ '' missing)'')) (needles name harness ns)"

definition HARNESS_NEEDLES :: "string list" where
  "HARNESS_NEEDLES = [''docs/backend-expected-failures.json'', ''run_known_fixture'', ''render_cause'']"

definition SWEEP_NEEDLES :: "string list" where
  "SWEEP_NEEDLES = [''backend-expected-failures.json'', ''load_expected_failures'', ''failure_matches'', ''parse_cause'']"

text \<open>\<open>d[k] = d.get(k, 0) + 1\<close> over a list of keys, and the summary of the sorted items.\<close>

fun tally :: "(string \<times> nat) list \<Rightarrow> string list \<Rightarrow> (string \<times> nat) list" where
  "tally d [] = d"
| "tally d (k # ks) = tally (dict_set d k (case map_of d k of None \<Rightarrow> 1 | Some n \<Rightarrow> n + 1)) ks"

definition summary_of :: "string list \<Rightarrow> string" where
  "summary_of ks = join '', '' (map (\<lambda>(k, n). str_nat n @ '' '' @ k) (sort_key fst (tally [] ks)))"

text \<open>The keys that are counted are strings once the entries have passed.\<close>

definition entry_key :: "json \<Rightarrow> string check" where
  "entry_key entry = rbind (lift_exc (jindex entry ''reason'')) (\<lambda>r. Inr (json_str r))"

definition sweep_key :: "json \<Rightarrow> string check" where
  "sweep_key entry =
     rbind (lift_exc (jindex entry ''stage'')) (\<lambda>s. if s = JStr ''EMIT'' then entry_key entry else Inr ''clang-compile'')"

fun collect_keys :: "('a \<Rightarrow> 'b check) \<Rightarrow> 'a list \<Rightarrow> 'b list check" where
  "collect_keys f [] = Inr []"
| "collect_keys f (x # xs) = rbind (f x) (\<lambda>y. rbind (collect_keys f xs) (\<lambda>ys. Inr (y # ys)))"

definition has_cause_field :: "json \<Rightarrow> bool" where
  "has_cause_field entry = (case entry of JDict d \<Rightarrow> jget d ''cause'' \<noteq> JNull | _ \<Rightarrow> False)"

definition pass_line :: "json list \<Rightarrow> string list \<Rightarrow> json list \<Rightarrow> string list \<Rightarrow> string" where
  "pass_line entries reasons sweep_entries sweep_reasons =
     ''PASS: backend-expected-failures-test - '' @ str_nat (length entries) @ '' known-failing c_emit fixtures ('' @ summary_of reasons @ ''); '' @
     str_nat (length sweep_entries) @ '' known-failing spec sweep fixtures ('' @ summary_of sweep_reasons @ ''); '' @
     str_nat (length (filter has_cause_field (entries @ sweep_entries))) @ '' entries pinned to a structured '' @ STRUCTURED_REASON @ '' cause''"

section \<open>The check\<close>

text \<open>
  The texts of the numbers with a fraction or an exponent that \<open>float\<close> reads as 1.0: the decimal value lies
  between the midpoints \<open>1 - 2 ^ -54\<close> and \<open>1 + 2 ^ -53\<close> to the neighbouring doubles, which both round to 1.0.
\<close>

definition float_one :: "string \<Rightarrow> bool" where
  "float_one t \<longleftrightarrow>
     (let ds = takeWhile is_digit t;
          (f, r) = number_frac (dropWhile is_digit t);
          e = drop 1 (fst (number_exp r));
          x = val_digits 0 (dropWhile (\<lambda>c. \<not> is_digit c) e);
          num = val_digits 0 (ds @ drop 1 f) * 10 ^ (if startswith e ''-'' then 0 else x);
          den = 10 ^ (length f - 1 + (if startswith e ''-'' then x else 0))
      in ds \<noteq> [] \<and> (2 ^ 54 - 1) * den \<le> 2 ^ 54 * num \<and> 2 ^ 54 * num \<le> (2 ^ 54 + 2) * den)"

lemma float_one_examples:
  "float_one ''1.0'' \<and> float_one ''10e-1'' \<and> float_one ''0.1E+1'' \<and> float_one ''1.00000000000000001'' \<and>
   \<not> float_one ''1.5'' \<and> \<not> float_one ''1e1'' \<and> \<not> float_one ''-1.0'' \<and> \<not> float_one ''NaN''"
  by (simp add: float_one_def number_frac_def number_exp_def is_digit_def startswith_def Let_def)

definition is_one :: "json \<Rightarrow> bool" where
  "is_one v \<longleftrightarrow>
     (case v of JInt i \<Rightarrow> i = 1 | JBool b \<Rightarrow> b | JFloat t \<Rightarrow> float_one t | _ \<Rightarrow> False)"

definition load_manifest :: "string \<Rightarrow> files \<Rightarrow> (string \<times> json) list check" where
  "load_manifest root files =
     (if \<not> is_file files (in_root root MANIFEST) then fail_with (''missing '' @ MANIFEST)
      else
        rbind (lift_exc (file_text files (in_root root MANIFEST))) (\<lambda>t.
          case json_loads t of
            None \<Rightarrow> fail_with (MANIFEST @ '' is not valid JSON'')
          | Some (JDict d) \<Rightarrow> Inr d
          | Some _ \<Rightarrow> Inl (Exc AttributeError)))"

definition check_manifest :: "string \<Rightarrow> files \<Rightarrow> (string \<times> json) list \<Rightarrow> (json list \<times> json list) check" where
  "check_manifest root files m =
     andthen (check_that (is_one (jget m ''schema_version'')) ''schema_version must be 1'')
     (andthen (check_that (jget m ''source_of_truth'' = JStr MANIFEST) ''source_of_truth mismatch'')
     (andthen (check_that (nonblank_str (jget m ''purpose'')) ''purpose must explain what the list is for'')
     (case jget m ''emit_c'' of
        JList entries \<Rightarrow>
          (case jget m ''sweep'' of
             JList sweep_entries \<Rightarrow>
               andthen (all_entries (emit_entry root files) [] entries)
               (andthen (all_entries (sweep_entry root files) [] sweep_entries)
                 (Inr (entries, sweep_entries)))
           | _ \<Rightarrow> fail_with ''sweep must be a list'')
      | _ \<Rightarrow> fail_with ''emit_c must be a list'')))"

definition manifest_test :: "string \<Rightarrow> files \<Rightarrow> string check" where
  "manifest_test root files =
     rbind (load_manifest root files) (\<lambda>m.
     rbind (check_manifest root files m) (\<lambda>(entries, sweep_entries).
     rbind (lift_exc (file_text files (in_root root HARNESS))) (\<lambda>harness.
     andthen (needles HARNESS harness HARNESS_NEEDLES)
     (rbind (lift_exc (file_text files (in_root root SWEEP_HARNESS))) (\<lambda>sweep_harness.
     andthen (needles SWEEP_HARNESS sweep_harness SWEEP_NEEDLES)
     (rbind (collect_keys entry_key entries) (\<lambda>reasons.
     rbind (collect_keys sweep_key sweep_entries) (\<lambda>sweep_reasons.
       Inr (pass_line entries reasons sweep_entries sweep_reasons)))))))))"

end
