(* ===== verification/Backend_Manifest_Props.thy ===== *)
theory Backend_Manifest_Props
  imports Backend_Manifest
begin

text \<open>
  What the check of the manifest of known backend failures accepts, entry by entry, and the exact
  characterisation of the accepted repositories.
\<close>

section \<open>Accepted entries\<close>

definition cause_ok :: "(string \<times> json) list \<Rightarrow> string \<Rightarrow> bool" where
  "cause_ok d reason \<longleftrightarrow>
     (if reason = STRUCTURED_REASON
      then \<exists>c cat con fn ph. jget d ''cause'' = JDict c \<and> has_cause c cat con fn ph \<and> well_formed_cause cat con fn ph
      else jget d ''cause'' = JNull)"

definition emit_entry_ok :: "string \<Rightarrow> files \<Rightarrow> string \<Rightarrow> json \<Rightarrow> bool" where
  "emit_entry_ok root files fixture e \<longleftrightarrow>
     (\<exists>d reason note. e = JDict d \<and> jget d ''fixture'' = JStr fixture \<and> fixture \<noteq> [] \<and> is_file files (in_root root fixture) \<and>
       startswith fixture ''tests/c_emit/'' \<and> \<not> startswith fixture ''tests/c_emit/bad/'' \<and>
       jget d ''reason'' = JStr reason \<and> reason \<noteq> [] \<and> reason_code reason \<and> cause_ok d reason \<and>
       jget d ''note'' = JStr note \<and> strip note \<noteq> [])"

definition sweep_entry_ok :: "string \<Rightarrow> files \<Rightarrow> string \<Rightarrow> json \<Rightarrow> bool" where
  "sweep_entry_ok root files fixture e \<longleftrightarrow>
     (\<exists>d stage reason note. e = JDict d \<and> jget d ''fixture'' = JStr fixture \<and> fixture \<noteq> [] \<and>
       is_file files (if startswith fixture ''/'' then fixture else path_join (in_root root ''tests/spec'') fixture) \<and>
       jget d ''stage'' = JStr stage \<and> stage \<in> {''EMIT'', ''CLANG''} \<and>
       jget d ''reason'' = JStr reason \<and> reason \<noteq> [] \<and> \<not> (stage = ''EMIT'' \<and> \<not> reason_code reason) \<and> cause_ok d reason \<and>
       jget d ''note'' = JStr note \<and> strip note \<noteq> [])"

lemma jget_index: "jget d k = v \<Longrightarrow> v \<noteq> JNull \<Longrightarrow> jindex (JDict d) k = Inr v"
  by (auto simp: jget_def jindex_def split: option.splits)

lemma require_cause_iff:
  assumes "keys_distinct (JDict d)" and "jget d ''reason'' = JStr reason"
  shows "require_cause fixture d = Inr u \<longleftrightarrow> cause_ok d reason"
proof -
  have r: "jindex (JDict d) ''reason'' = Inr (JStr reason)" by (rule jget_index [OF assms(2)]) simp
  have k: "keys_distinct (jget d ''cause'')" by (rule keys_distinct_get [OF assms(1)])
  have p: "cause_problem (jget d ''cause'') = Inr None \<longleftrightarrow>
      (\<exists>c cat con fn ph. jget d ''cause'' = JDict c \<and> has_cause c cat con fn ph \<and> well_formed_cause cat con fn ph)"
    using k cause_problem_sound [of "jget d ''cause''"] cause_problem_complete by metis
  have nn: "cause_problem v = Inr None \<Longrightarrow> v \<noteq> JNull" for v by (auto simp: cause_problem_def)
  show ?thesis
  proof (cases "reason = STRUCTURED_REASON")
    case True
    have "require_cause fixture d = Inr u \<longleftrightarrow> jget d ''cause'' \<noteq> JNull \<and> cause_problem (jget d ''cause'') = Inr None"
      by (simp add: require_cause_def r True Let_def rbind_Inr_iff) (auto split: option.splits)
    then show ?thesis using p nn [of "jget d ''cause''"] by (simp add: cause_ok_def True) blast
  qed (simp add: require_cause_def r cause_ok_def Let_def)
qed

lemma emit_entry_iff:
  "keys_distinct e \<Longrightarrow> emit_entry root files seen e = Inr seen' \<longleftrightarrow>
     (\<exists>f. emit_entry_ok root files f e \<and> f \<notin> set seen \<and> seen' = f # seen)"
proof (cases e)
  case (JDict d)
  assume k: "keys_distinct e"
  note rc = require_cause_iff [OF k [unfolded JDict]]
  show ?thesis
  proof (cases "nonempty_str (jget d ''fixture'') \<and> nonempty_str (jget d ''reason'')")
    case True
    then obtain f r where f: "jget d ''fixture'' = JStr f" "f \<noteq> []" and r: "jget d ''reason'' = JStr r" "r \<noteq> []"
      by (auto simp: nonempty_str_iff)
    show ?thesis
      by (auto simp: JDict emit_entry_def emit_entry_ok_def andthen_iff nonempty_str_iff nonblank_str_iff f r rc [OF r(1)] Let_def simp del: keys_distinct.simps)
  next
    case False
    have "emit_entry root files seen (JDict d) \<noteq> Inr seen'"
      using False by (cases "nonempty_str (jget d ''fixture'')") (simp_all add: emit_entry_def Let_def andthen_iff)
    moreover have "\<not> emit_entry_ok root files f (JDict d)" for f
      using False by (auto simp: emit_entry_ok_def nonempty_str_def)
    ultimately show ?thesis by (simp add: JDict)
  qed
qed (auto simp: emit_entry_def emit_entry_ok_def)

lemma sweep_entry_iff:
  "keys_distinct e \<Longrightarrow> sweep_entry root files seen e = Inr seen' \<longleftrightarrow>
     (\<exists>f. sweep_entry_ok root files f e \<and> f \<notin> set seen \<and> seen' = f # seen)"
proof (cases e)
  case (JDict d)
  assume k: "keys_distinct e"
  note rc = require_cause_iff [OF k [unfolded JDict]]
  show ?thesis
  proof (cases "nonempty_str (jget d ''fixture'') \<and> nonempty_str (jget d ''reason'')")
    case True
    then obtain f r where f: "jget d ''fixture'' = JStr f" "f \<noteq> []" and r: "jget d ''reason'' = JStr r" "r \<noteq> []"
      by (auto simp: nonempty_str_iff)
    show ?thesis
      by (auto simp: JDict sweep_entry_def sweep_entry_ok_def andthen_iff nonempty_str_iff nonblank_str_iff f r rc [OF r(1)] Let_def simp del: keys_distinct.simps)
  next
    case False
    have "sweep_entry root files seen (JDict d) \<noteq> Inr seen'"
      using False by (cases "nonempty_str (jget d ''fixture'')") (simp_all add: sweep_entry_def Let_def andthen_iff)
    moreover have "\<not> sweep_entry_ok root files f (JDict d)" for f
      using False by (auto simp: sweep_entry_ok_def nonempty_str_def)
    ultimately show ?thesis by (simp add: JDict)
  qed
qed (auto simp: sweep_entry_def sweep_entry_ok_def)

section \<open>The loops\<close>

text \<open>A loop that checks each entry and its fixture against the fixtures seen accepts distinct good entries.\<close>

locale entry_loop =
  fixes check :: "string list \<Rightarrow> json \<Rightarrow> string list check"
    and good :: "string \<Rightarrow> json \<Rightarrow> bool"
  assumes check_iff: "keys_distinct e \<Longrightarrow> check seen e = Inr seen' \<longleftrightarrow> (\<exists>f. good f e \<and> f \<notin> set seen \<and> seen' = f # seen)"
begin

lemma loop_iff:
  "list_all keys_distinct es \<Longrightarrow>
   all_entries check seen es = Inr u \<longleftrightarrow> (\<exists>fs. list_all2 good fs es \<and> distinct fs \<and> set fs \<inter> set seen = {})"
proof (induction es arbitrary: seen)
  case (Cons e es)
  have "all_entries check seen (e # es) = Inr u \<longleftrightarrow> (\<exists>f. good f e \<and> f \<notin> set seen \<and> all_entries check (f # seen) es = Inr u)"
    using Cons.prems check_iff [of e seen] by (auto simp: rbind_Inr_iff)
  also have "\<dots> \<longleftrightarrow> (\<exists>f fs. good f e \<and> f \<notin> set seen \<and> list_all2 good fs es \<and> distinct fs \<and> set fs \<inter> set (f # seen) = {})"
    using Cons.IH Cons.prems by simp
  also have "\<dots> \<longleftrightarrow> (\<exists>f fs. list_all2 good (f # fs) (e # es) \<and> distinct (f # fs) \<and> set (f # fs) \<inter> set seen = {})"
    by (simp only: list_all2_Cons distinct.simps list.set) blast
  also have "\<dots> \<longleftrightarrow> (\<exists>gs. list_all2 good gs (e # es) \<and> distinct gs \<and> set gs \<inter> set seen = {})"
    by (metis list_all2_Cons2)
  finally show ?case .
qed simp

end

interpretation emit_loop: entry_loop "emit_entry root files" "emit_entry_ok root files" for root files
  by unfold_locales (rule emit_entry_iff)

interpretation sweep_loop: entry_loop "sweep_entry root files" "sweep_entry_ok root files" for root files
  by unfold_locales (rule sweep_entry_iff)

lemma needles_iff: "needles name t ns = Inr u \<longleftrightarrow> list_all (contains t) ns"
  by (induction ns) (auto simp: andthen_iff)

lemma collect_keys_ok: "list_all (\<lambda>x. \<exists>y. f x = Inr y) xs \<Longrightarrow> \<exists>ys. collect_keys f xs = Inr ys"
  by (induction xs) auto

lemma entry_key_ok:
  "emit_entry_ok root files f e \<Longrightarrow> \<exists>k. entry_key e = Inr k"
  "sweep_entry_ok root files f e \<Longrightarrow> \<exists>k. sweep_key e = Inr k"
  by (auto simp: emit_entry_ok_def sweep_entry_ok_def entry_key_def sweep_key_def dest!: jget_index)

lemma summary_keys:
  "list_all2 (emit_entry_ok root files) fs es \<Longrightarrow> \<exists>ks. collect_keys entry_key es = Inr ks"
  "list_all2 (sweep_entry_ok root files) fs es \<Longrightarrow> \<exists>ks. collect_keys sweep_key es = Inr ks"
  by (rule collect_keys_ok, fastforce simp: list_all2_conv_all_nth list_all_length dest: entry_key_ok)+

section \<open>The accepted manifests\<close>

definition manifest_ok :: "string \<Rightarrow> files \<Rightarrow> (string \<times> json) list \<Rightarrow> json list \<Rightarrow> json list \<Rightarrow> bool" where
  "manifest_ok root files m es ss \<longleftrightarrow>
     is_one (jget m ''schema_version'') \<and> jget m ''source_of_truth'' = JStr MANIFEST \<and> nonblank_str (jget m ''purpose'') \<and>
     jget m ''emit_c'' = JList es \<and> jget m ''sweep'' = JList ss \<and>
     (\<exists>fs. list_all2 (emit_entry_ok root files) fs es \<and> distinct fs) \<and>
     (\<exists>gs. list_all2 (sweep_entry_ok root files) gs ss \<and> distinct gs)"

lemma check_manifest_iff:
  assumes "keys_distinct (JDict m)"
  shows "check_manifest root files m = Inr (es, ss) \<longleftrightarrow> manifest_ok root files m es ss"
proof -
  have e: "list_all keys_distinct xs" if "jget m k = JList xs" for k xs
    using keys_distinct_get [OF assms, of k] that by simp
  show ?thesis
  proof (cases "jget m ''emit_c''")
    case (JList xs)
    then show ?thesis
    proof (cases "jget m ''sweep''")
      case (JList ys)
      then show ?thesis
        using \<open>jget m ''emit_c'' = JList xs\<close> emit_loop.loop_iff [OF e, of "''emit_c''" xs root files "[]"]
          sweep_loop.loop_iff [OF e, of "''sweep''" ys root files "[]"]
        by (auto simp: check_manifest_def manifest_ok_def andthen_iff)
    qed (simp_all add: check_manifest_def manifest_ok_def andthen_iff)
  qed (simp_all add: check_manifest_def manifest_ok_def andthen_iff)
qed

lemma load_manifest_iff:
  "load_manifest root files = Inr m \<longleftrightarrow> (\<exists>t. file_text files (in_root root MANIFEST) = Inr t \<and> json_loads t = Some (JDict m))"
  by (auto simp: load_manifest_def is_file_def file_text_def rbind_Inr_iff split: option.splits json.splits if_splits)

lemma manifest_accepts:
  "manifest_test root files = Inr line \<Longrightarrow>
   \<exists>t m es ss h s. file_text files (in_root root MANIFEST) = Inr t \<and> json_loads t = Some (JDict m) \<and> manifest_ok root files m es ss \<and>
     file_text files (in_root root HARNESS) = Inr h \<and> list_all (contains h) HARNESS_NEEDLES \<and>
     file_text files (in_root root SWEEP_HARNESS) = Inr s \<and> list_all (contains s) SWEEP_NEEDLES"
proof -
  assume "manifest_test root files = Inr line"
  then obtain m es ss h s where l: "load_manifest root files = Inr m" and c: "check_manifest root files m = Inr (es, ss)"
    and h: "file_text files (in_root root HARNESS) = Inr h" "list_all (contains h) HARNESS_NEEDLES"
    and s: "file_text files (in_root root SWEEP_HARNESS) = Inr s" "list_all (contains s) SWEEP_NEEDLES"
    unfolding manifest_test_def by (auto simp: rbind_Inr_iff andthen_iff needles_iff)
  from l obtain t where t: "file_text files (in_root root MANIFEST) = Inr t" "json_loads t = Some (JDict m)"
    by (auto simp: load_manifest_iff)
  with c h s show ?thesis unfolding check_manifest_iff [OF json_loads_distinct [OF t(2)]] by blast
qed

text \<open>
  C19. The check of the manifest of known backend failures accepts a repository exactly when the manifest
  decodes to an object of version 1 that names itself and its purpose, every entry of both lists names a
  distinct existing fixture of its corpus with a stable reason code and a note, an entry refused by the
  backend's one refusal code pins a well-formed cause and no other entry records one, and both
  harnesses still consult the manifest.
\<close>

theorem manifest_accepted_iff:
  "(\<exists>line. manifest_test root files = Inr line) \<longleftrightarrow>
   (\<exists>t m es ss h s. file_text files (in_root root MANIFEST) = Inr t \<and> json_loads t = Some (JDict m) \<and> manifest_ok root files m es ss \<and>
     file_text files (in_root root HARNESS) = Inr h \<and> list_all (contains h) HARNESS_NEEDLES \<and>
     file_text files (in_root root SWEEP_HARNESS) = Inr s \<and> list_all (contains s) SWEEP_NEEDLES)"
  (is "?l \<longleftrightarrow> ?r")
proof
  assume ?l
  then show ?r by (elim exE) (rule manifest_accepts)
next
  assume ?r
  then obtain t m es ss h s where t: "file_text files (in_root root MANIFEST) = Inr t" "json_loads t = Some (JDict m)"
    and ok: "manifest_ok root files m es ss"
    and h: "file_text files (in_root root HARNESS) = Inr h" "list_all (contains h) HARNESS_NEEDLES"
    and s: "file_text files (in_root root SWEEP_HARNESS) = Inr s" "list_all (contains s) SWEEP_NEEDLES" by blast
  from ok obtain ks ks' where "collect_keys entry_key es = Inr ks" "collect_keys sweep_key ss = Inr ks'"
    unfolding manifest_ok_def by (meson summary_keys)
  moreover have "load_manifest root files = Inr m" using t by (auto simp: load_manifest_iff)
  moreover have "check_manifest root files m = Inr (es, ss)" using ok check_manifest_iff [OF json_loads_distinct [OF t(2)]] by simp
  moreover have "needles HARNESS h HARNESS_NEEDLES = Inr ()" "needles SWEEP_HARNESS s SWEEP_NEEDLES = Inr ()"
    using h(2) s(2) by (simp_all add: needles_iff)
  ultimately show ?l using h(1) s(1) by (simp add: manifest_test_def)
qed

end
