(* ===== verification/Spec_Emit.thy ===== *)
theory Spec_Emit
  imports Backend_Manifest_Props Spec_Sweep "HOL-Library.Product_Lexorder"
begin

text \<open>
  \<open>tools/toolchain/spec-emit-sweep.py\<close>: the sweep that emits C for the valid part of every spec fixture and
  compares what fails with the manifest of known backend failures. The fixtures are swept one after
  the other, in the order of \<open>Executor.map\<close>; the name of the temporary file of a fixture is the system's choice.
\<close>

section \<open>One fixture\<close>

definition OUT_OF_SCOPE :: "(string \<times> string) list" where
  "OUT_OF_SCOPE =
    [(''error_from_ambiguous.mc'', ''pure compile_error fixture; module-level ambiguity check the chunk-level EXPECT_ERROR strip cannot isolate (phase=sema; E_AMBIGUOUS_ERROR_CONVERSION owned by spec_tests.zig)''),
     (''error_from_malformed.mc'', ''pure compile_error fixture; malformed-decl check the chunk-level EXPECT_ERROR strip cannot isolate (phase=sema; E_INVALID_ERROR_FROM owned by spec_tests.zig)''),
     (''import_not_found_reject.mc'', ''pure import-loader diagnostic; top-level inline EXPECT_ERROR after the import semicolon cannot be chunk-isolated by the sweep (phase=parse; E_IMPORT_NOT_FOUND owned by spec_tests.zig)''),
     (''import_outside_sandbox_reject.mc'', ''pure import-loader diagnostic; top-level inline EXPECT_ERROR after the import semicolon cannot be chunk-isolated by the sweep (phase=parse; E_IMPORT_OUTSIDE_SANDBOX owned by spec_tests.zig)''),
     (''move_place.mc'', ''pure move-place sema fixture; stripping rejected move/index cases leaves checker-only indexed move-resource paths that are not a C-emission contract (phase=sema; E_USE_AFTER_MOVE/E_RESOURCE_* owned by spec_tests.zig)''),
     (''nesting_too_deep_reject.mc'', ''pure parser-depth diagnostic; top-level inline EXPECT_ERROR after the prototype semicolon cannot be chunk-isolated by the sweep (phase=parse; E_NESTING_TOO_DEEP owned by spec_tests.zig)''),
     (''private_import_reject.mc'', ''pure private-import diagnostic; stripping the rejected use leaves a relative support import outside the sweep temp sandbox (phase=sema; E_PRIVATE_IMPORT owned by spec_tests.zig)''),
     (''secret.mc'', ''checker-only Secret<T> hardening type has no C lowering (phase=sema; E_SECRET_* owned by spec_tests.zig)''),
     (''soundness_use_after_move.mc'', ''accept/reject cases share move-typed defs the chunk-level EXPECT_ERROR strip cannot isolate (phase=sema; E_USE_AFTER_MOVE owned by spec_tests.zig)''),
     (''soundness_conservative_overrejection.mc'', ''shared move-typed defs across accept/reject (phase=sema; E_USE_AFTER_MOVE owned by spec_tests.zig)''),
     (''soundness_opaque_declassify.mc'', ''accept/reject cases share opaque defs (phase=sema; E_OPAQUE_DECLASSIFY owned by spec_tests.zig)''),
     (''soundness_guard_opaque_reject.mc'', ''opaque private-field reject fixture; positive impl cannot be chunk-isolated (phase=sema; E_PRIVATE_FIELD owned by spec_tests.zig)''),
     (''soundness_orphan_impl_reject.mc'', ''orphan-impl reject fixture (phase=sema; E_ORPHAN_IMPL owned by spec_tests.zig)''),
     (''traits_orphan_opaque_reject.mc'', ''pure compile_error fixture; residue emits a `static main` the sweep's -Wmain rejects (phase=sema; E_ORPHAN_IMPL owned by spec_tests.zig)''),
     (''traits_orphan_nonopaque_reject.mc'', ''pure compile_error fixture with std import; residue cannot be chunk-isolated after EXPECT_ERROR stripping (phase=sema; E_ORPHAN_IMPL owned by spec_tests.zig)''),
     (''pointer_view_conversions.mc'', ''accept/reject pointer+view const-narrow cases share types the chunk-level EXPECT_ERROR strip cannot isolate (phase=sema; E_NO_IMPLICIT_POINTER_CONVERSION owned by spec_tests.zig; accept emit covered by tests/c_emit/pointer_views.mc + pointer_const_narrow.mc)''),
     (''reflection.mc'', ''reflection accept/reject cases include sema-only overflow layouts whose top-level declarations cannot be chunk-isolated by EXPECT_ERROR stripping (phase=parse,sema; E_REFLECTION_* owned by spec_tests.zig; accept emit covered by tests/c_emit/reflection.mc)''),
     (''type_arg_and_trivial_drop_reject.mc'', ''pure compile_error fixture (expect=compile_error, no accept case); stripping both EXPECT_ERROR cases leaves only the `fn type_id(comptime T: type)` template the rejected call was written to exercise, and an uninstantiated type-generic template is not a C-emission contract -- the backend never emits one, only its instances (phase=parse,sema; E_TRIVIAL_DROP_NOT_MOVE/E_TYPE_ARG_REQUIRED owned by spec_tests.zig)'')]"

definition SWEEP_TRIPLE :: string where
  "SWEEP_TRIPLE = ''x86_64-unknown-none''"

definition CLANG :: "string list" where
  "CLANG = [''clang'', ''--target='' @ SWEEP_TRIPLE, ''-ffreestanding'', ''-std=c11'', ''-Wall'', ''-Wextra'', ''-Werror'',
     ''-Wno-unused-parameter'', ''-Wno-unused-variable'', ''-fsyntax-only'', ''-x'', ''c'', ''-'']"

definition basename :: "string \<Rightarrow> string" where
  "basename path = rev (takeWhile (\<lambda>c. c \<noteq> CHR ''/'') (rev path))"

text \<open>\<open>\bfn\s+\w+\<close>.\<close>

definition FN_RE :: matcher where
  "FN_RE = rx_seqs [rx_boundary, rx_lit ''fn'', rx_plus is_space, rx_plus is_word]"

text \<open>\<open>next((l for l in lines if needle in l), default)\<close>.\<close>

definition first_line_with :: "string \<Rightarrow> string \<Rightarrow> string option" where
  "first_line_with needle s = List.find (\<lambda>l. contains l needle) (splitlines s)"

definition error_line :: "string \<Rightarrow> string" where
  "error_line s = strip (case first_line_with ''error:'' s of None \<Rightarrow> ''?'' | Some l \<Rightarrow> l)"

type_synonym failure = "string \<times> string \<times> string"

text \<open>The verdict on the outputs of the compiler and, where it is reached, of clang.\<close>

definition sweep_one :: "string \<Rightarrow> (string \<Rightarrow> string) \<Rightarrow> string \<Rightarrow> (string \<times> nat \<times> failure option) io" where
  "sweep_one mcc tmp path =
     (let name = basename path in
      io_bind (read_text path) (\<lambda>src.
      (let program = valid_program src; kept = length (re_findall FN_RE program) in
       io_bind (write_file (tmp path) program) (\<lambda>_.
       io_bind (finally_do (run_text [mcc, ''emit-c'', tmp path] []) (unlink (tmp path))) (\<lambda>emit.
         if returncode emit \<noteq> 0 then io_ret (name, kept, Some (name, ''EMIT'', error_line (stderr emit)))
         else
           (case first_line_with ''/* unsupported'' (stdout emit) of
              Some l \<Rightarrow> io_ret (name, kept, Some (name, ''UNSUPPORTED'', strip l))
            | None \<Rightarrow>
                io_bind (run_text CLANG (stdout emit)) (\<lambda>clang.
                  if returncode clang \<noteq> 0 then io_ret (name, kept, Some (name, ''CLANG'', error_line (stderr clang)))
                  else io_ret (name, kept, None))))))))"

section \<open>The manifest of known failures\<close>

text \<open>
  The entries of the list \<open>sweep\<close> by their fixture. A fixture that is not a string is a key no name equals,
  or is unhashable.
\<close>

fun entry_map :: "(string \<times> json) list \<Rightarrow> json list \<Rightarrow> (string \<times> json) list result" where
  "entry_map d [] = Inr d"
| "entry_map d (e # es) =
     rbind (jindex e ''fixture'') (\<lambda>f.
       case f of
         JStr k \<Rightarrow> entry_map (dict_set d k e) es
       | JList _ \<Rightarrow> Inl TypeError
       | JDict _ \<Rightarrow> Inl TypeError
       | _ \<Rightarrow> entry_map d es)"

definition load_expected_failures :: "string \<Rightarrow> files \<Rightarrow> (string \<times> json) list result" where
  "load_expected_failures root files =
     rbind (file_text files (in_root root MANIFEST)) (\<lambda>t.
       case json_loads t of
         None \<Rightarrow> Inl ValueError
       | Some (JDict m) \<Rightarrow>
           (case map_of m ''sweep'' of
              None \<Rightarrow> Inr []
            | Some (JList es) \<Rightarrow> entry_map [] es
            | Some v \<Rightarrow> if v = JStr [] \<or> v = JDict [] then Inr [] else Inl TypeError)
       | Some _ \<Rightarrow> Inl AttributeError)"

text \<open>
  Why a failure is not the recorded one. A recorded cause that is neither null nor an object, which the check
  of the manifest excludes, is taken to raise unless it is empty.
\<close>

definition drift_text :: "(string \<times> json) list \<Rightarrow> string \<times> json \<Rightarrow> string" where
  "drift_text measured = (\<lambda>(f, v). f @ '' is '' @ json_repr (jget measured f) @ '', recorded '' @ json_repr v)"

definition failure_mismatch :: "json \<Rightarrow> string \<Rightarrow> string \<Rightarrow> string option result" where
  "failure_mismatch entry kind message =
     rbind (jindex entry ''stage'') (\<lambda>stage.
       if stage \<noteq> JStr kind then Inr (Some (''stage is '' @ kind @ '', recorded '' @ json_str stage))
       else
         rbind (jindex entry ''reason'') (\<lambda>reason.
           case reason of
             JStr r \<Rightarrow>
               if \<not> contains message r then Inr (Some (''reason '' @ r @ '' no longer appears''))
               else
                 (case entry of
                    JDict d \<Rightarrow>
                      (case jget d ''cause'' of
                         JNull \<Rightarrow> Inr None
                       | cause \<Rightarrow>
                           (case parse_cause message of
                              None \<Rightarrow> Inr (Some (''the diagnostic carries no '' @ STRUCTURED_REASON @ '' function-decline cause to match the recorded one''))
                            | Some measured \<Rightarrow>
                                (case cause of
                                   JDict c \<Rightarrow>
                                     (let drifted = filter (\<lambda>(f, v). jget measured f \<noteq> v) c in
                                      Inr (if drifted \<noteq> [] then Some (join ''; '' (map (drift_text measured) drifted)) else None))
                                 | _ \<Rightarrow> if cause = JStr [] \<or> cause = JList [] then Inr None else Inl TypeError)))
                  | _ \<Rightarrow> Inl TypeError)
           | _ \<Rightarrow> Inl TypeError))"

definition failure_matches :: "json \<Rightarrow> string \<Rightarrow> string \<Rightarrow> bool result" where
  "failure_matches entry kind message = rbind (failure_mismatch entry kind message) (\<lambda>m. Inr (m = None))"

section \<open>The report\<close>

definition swept :: "string \<Rightarrow> bool" where
  "swept name \<longleftrightarrow> map_of OUT_OF_SCOPE name = None"

text \<open>The buckets that the loop over the results fills.\<close>

definition oos_failures :: "(string \<times> nat \<times> failure option) list \<Rightarrow> failure list" where
  "oos_failures rs = concat (map (\<lambda>(n, k, f). case f of Some x \<Rightarrow> if swept n then [] else [x] | None \<Rightarrow> []) rs)"

definition scope_failures :: "(string \<times> nat \<times> failure option) list \<Rightarrow> failure list" where
  "scope_failures rs = concat (map (\<lambda>(n, k, f). case f of Some x \<Rightarrow> if swept n then [x] else [] | None \<Rightarrow> []) rs)"

definition fixed_names :: "(string \<times> json) list \<Rightarrow> (string \<times> nat \<times> failure option) list \<Rightarrow> string list" where
  "fixed_names expected rs = map fst (filter (\<lambda>(n, k, f). f = None \<and> map_of expected n \<noteq> None) rs)"

definition unlisted_names :: "(string \<times> json) list \<Rightarrow> (string \<times> nat \<times> failure option) list \<Rightarrow> string list" where
  "unlisted_names expected rs = map fst (filter (\<lambda>(n, k, f). f = None \<and> map_of expected n = None \<and> \<not> swept n) rs)"

text \<open>Known, unexpected and drifted failures.\<close>

fun split_failures :: "(string \<times> json) list \<Rightarrow> failure list \<Rightarrow> (failure list \<times> failure list \<times> (failure \<times> string) list) result" where
  "split_failures expected [] = Inr ([], [], [])"
| "split_failures expected ((n, k, m) # fs) =
     (case map_of expected n of
        None \<Rightarrow> rbind (split_failures expected fs) (\<lambda>(ks, us, ds). Inr (ks, (n, k, m) # us, ds))
      | Some entry \<Rightarrow>
          rbind (failure_mismatch entry k m) (\<lambda>mismatch.
          rbind (split_failures expected fs) (\<lambda>(ks, us, ds).
            case mismatch of
              None \<Rightarrow> Inr ((n, k, m) # ks, us, ds)
            | Some why \<Rightarrow> Inr (ks, us, ((n, k, m), why) # ds))))"

definition failure_line :: "failure \<Rightarrow> string" where
  "failure_line = (\<lambda>(n, k, m). ''  ['' @ k @ ''] '' @ n @ '': '' @ m)"

definition gap8 :: string where
  "gap8 = nl @ ''        ''"

definition entry_text :: "(string \<times> json) list \<Rightarrow> string \<Rightarrow> string \<Rightarrow> string result" where
  "entry_text expected n field =
     (case map_of expected n of None \<Rightarrow> Inl (KeyError n) | Some e \<Rightarrow> rbind (jindex e field) (\<lambda>v. Inr (json_str v)))"

fun result_map :: "('a \<Rightarrow> 'b result) \<Rightarrow> 'a list \<Rightarrow> 'b list result" where
  "result_map f [] = Inr []"
| "result_map f (x # xs) = rbind (f x) (\<lambda>y. rbind (result_map f xs) (\<lambda>ys. Inr (y # ys)))"

definition known_line :: "(string \<times> json) list \<Rightarrow> failure \<Rightarrow> string result" where
  "known_line expected = (\<lambda>(n, k, m).
     rbind (entry_text expected n ''note'') (\<lambda>note. Inr (failure_line (n, k, m) @ gap8 @ ''reason: '' @ note)))"

definition drift_line :: "(string \<times> json) list \<Rightarrow> failure \<times> string \<Rightarrow> string result" where
  "drift_line expected = (\<lambda>((n, k, m), why).
     rbind (entry_text expected n ''stage'') (\<lambda>stage. rbind (entry_text expected n ''reason'') (\<lambda>reason.
       Inr (failure_line (n, k, m) @ gap8 @ ''recorded: ['' @ stage @ ''] '' @ reason @ gap8 @ ''drift: '' @ why))))"

definition oos_line :: "failure \<Rightarrow> string" where
  "oos_line = (\<lambda>(n, k, m). failure_line (n, k, m) @ gap8 @ ''reason: '' @ (case map_of OUT_OF_SCOPE n of Some r \<Rightarrow> r | None \<Rightarrow> []))"

definition section_of :: "'a list \<Rightarrow> string \<Rightarrow> string list \<Rightarrow> string list" where
  "section_of xs head lines = (if xs = [] then [] else head # lines)"

text \<open>The lines \<open>main\<close> prints from the results of the fixtures, and its status.\<close>

definition sweep_report :: "(string \<times> json) list \<Rightarrow> (string \<times> nat \<times> failure option) list \<Rightarrow> (string list \<times> int) result" where
  "sweep_report expected rs =
     (let oos = sort (oos_failures rs); fixed = fixed_names expected rs; unlisted = unlisted_names expected rs;
          kept = sum_list (map (\<lambda>(n, k, f). k) rs) in
      rbind (split_failures expected (sort (scope_failures rs))) (\<lambda>(known, unexpected, drifted).
      rbind (result_map (known_line expected) known) (\<lambda>known_lines.
      rbind (result_map (drift_line expected) drifted) (\<lambda>drift_lines.
      (let status = (if unexpected \<noteq> [] \<or> drifted \<noteq> [] \<or> fixed \<noteq> [] \<or> unlisted \<noteq> [] then 1 else 0) in
       Inr ([''spec fixtures swept: '' @ str_nat (length rs) @ '', valid functions checked: '' @ str_nat kept]
         @ section_of oos ''known out-of-scope (allowlisted, not failing the gate):'' (map oos_line oos)
         @ section_of known (''known backend gaps (docs/backend-expected-failures.json, '' @ str_nat (length known) @ '' fixture(s)):'') known_lines
         @ section_of unexpected (''FAIL: '' @ str_nat (length unexpected) @ '' in-scope fixture(s) did not emit/compile:'') (map failure_line unexpected)
         @ section_of drifted (''FAIL: '' @ str_nat (length drifted) @ '' known-failing fixture(s) now fail differently; update docs/backend-expected-failures.json:'') drift_lines
         @ section_of fixed (''FAIL: '' @ str_nat (length fixed) @ '' fixture(s) listed as known-failing now emit; remove their entries from docs/backend-expected-failures.json:'')
             (map (\<lambda>n. ''  '' @ n) (sort fixed))
         @ section_of unlisted (''FAIL: '' @ str_nat (length unlisted) @ '' allowlisted out-of-scope fixture(s) now emit; remove their OUT_OF_SCOPE entries:'')
             (map (\<lambda>n. ''  '' @ n) (sort unlisted))
         @ (if status = 0 then [''PASS: all in-scope spec fixtures emit compilable C ('' @ str_nat (length known) @ '' known backend gaps still failing for their recorded reason)''] else []),
         status))))))"

text \<open>\<open>main\<close>, from the command line, the sorted fixtures of the directory and the manifest to the printed lines and the status.\<close>

definition sweep_args :: "string list \<Rightarrow> string option \<Rightarrow> string \<times> string" where
  "sweep_args argv mcc_under_test =
     ((case argv of _ # mcc # _ \<Rightarrow> mcc
       | _ \<Rightarrow> (case mcc_under_test of Some m \<Rightarrow> if m = [] then ''zig-out/bin/mcc'' else m | None \<Rightarrow> ''zig-out/bin/mcc'')),
      (case argv of _ # _ # dir # _ \<Rightarrow> dir | _ \<Rightarrow> ''tests/spec''))"

definition spec_emit_main :: "string \<Rightarrow> string \<Rightarrow> (string \<Rightarrow> string) \<Rightarrow> string list \<Rightarrow> (string list \<times> int) io" where
  "spec_emit_main root mcc tmp fixtures h w =
     (io_bind (io_lift (load_expected_failures root (w_files w))) (\<lambda>expected.
      io_bind (io_map (sweep_one mcc tmp) (sort fixtures)) (\<lambda>rs. io_lift (sweep_report expected rs)))) h w"

end
