(* ===== verification/Spec_Emit_Props.thy ===== *)
theory Spec_Emit_Props
  imports Spec_Emit
begin

text \<open>
  The sweep on a manifest that its check accepts: no lookup in the manifest raises, the status says exactly
  whether every fixture behaves as recorded, and a recorded cause tells every other refusal from its own.
\<close>

section \<open>Mismatches of accepted entries\<close>

text \<open>What the sweep looks up in an accepted entry.\<close>

lemma accepted_entry:
  assumes "sweep_entry_ok root files f e"
  obtains d stage reason remark where "e = JDict d" and "jget d ''fixture'' = JStr f" and "jindex e ''fixture'' = Inr (JStr f)"
    and "jindex e ''stage'' = Inr (JStr stage)" and "jindex e ''reason'' = Inr (JStr reason)" and "jindex e ''note'' = Inr (JStr remark)"
    and "cause_ok d reason"
proof -
  obtain d stage reason remark where e: "e = JDict d" and j: "jget d ''fixture'' = JStr f" "jget d ''stage'' = JStr stage"
      "jget d ''reason'' = JStr reason" "jget d ''note'' = JStr remark" and c: "cause_ok d reason"
    using assms unfolding sweep_entry_ok_def by blast
  note i = j [THEN jget_index, simplified]
  show thesis by (rule that [OF e j(1) _ _ _ _ c]) (simp_all add: e i)
qed

definition cause_members :: "string \<Rightarrow> string \<Rightarrow> string \<Rightarrow> string \<Rightarrow> (string \<times> json) list" where
  "cause_members cat con fn ph = [(''category'', JStr cat), (''construct'', JStr con), (''function'', JStr fn), (''phase'', JStr ph)]"

lemma drifted_iff:
  assumes "has_cause c cat con fn ph"
  shows "filter (\<lambda>(f, v). jget (cause_members cat' con' fn' ph') f \<noteq> v) c = [] \<longleftrightarrow> (cat', con', fn', ph') = (cat, con, fn, ph)"
proof
  have get: "jget (cause_members cat' con' fn' ph') ''category'' = JStr cat'" "jget (cause_members cat' con' fn' ph') ''construct'' = JStr con'"
    "jget (cause_members cat' con' fn' ph') ''function'' = JStr fn'" "jget (cause_members cat' con' fn' ph') ''phase'' = JStr ph'" for cat' con' fn' ph'
    by (simp_all add: jget_def cause_members_def)
  have m: "map_of c ''category'' = Some (JStr cat)" "map_of c ''construct'' = Some (JStr con)"
    "map_of c ''function'' = Some (JStr fn)" "map_of c ''phase'' = Some (JStr ph)"
    using assms by (simp_all add: has_cause_def)
  assume "filter (\<lambda>(f, v). jget (cause_members cat' con' fn' ph') f \<noteq> v) c = []"
  then have "\<And>f v. (f, v) \<in> set c \<Longrightarrow> jget (cause_members cat' con' fn' ph') f = v" by (auto simp: filter_empty_conv)
  from this [OF map_of_SomeD [OF m(1)]] this [OF map_of_SomeD [OF m(2)]] this [OF map_of_SomeD [OF m(3)]] this [OF map_of_SomeD [OF m(4)]]
  show "(cat', con', fn', ph') = (cat, con, fn, ph)" by (simp add: get)
next
  assume eq: "(cat', con', fn', ph') = (cat, con, fn, ph)"
  have "jget (cause_members cat con fn ph) f = v" if "(f, v) \<in> set c" for f v
  proof -
    have m: "map_of c = [''category'' \<mapsto> JStr cat, ''construct'' \<mapsto> JStr con, ''function'' \<mapsto> JStr fn, ''phase'' \<mapsto> JStr ph]"
      using assms by (simp add: has_cause_def)
    have "map_of c f = Some v" using that assms by (metis has_cause_def map_of_is_SomeI)
    then show ?thesis unfolding m by (auto simp: jget_def cause_members_def split: if_splits)
  qed
  with eq show "filter (\<lambda>(f, v). jget (cause_members cat' con' fn' ph') f \<noteq> v) c = []" by (auto simp: filter_empty_conv)
qed

lemma failure_mismatch_total:
  assumes "sweep_entry_ok root files f e"
  shows "\<exists>m. failure_mismatch e kind message = Inr m"
proof -
  obtain d stage reason remark where e: "e = JDict d" "jindex e ''stage'' = Inr (JStr stage)" "jindex e ''reason'' = Inr (JStr reason)" "cause_ok d reason"
    using assms by (rule accepted_entry)
  then show ?thesis
    by (auto simp: failure_mismatch_def cause_ok_def Let_def split: option.splits json.splits if_splits)
qed

section \<open>The report\<close>

definition accepted_map :: "string \<Rightarrow> files \<Rightarrow> (string \<times> json) list \<Rightarrow> bool" where
  "accepted_map root files expected \<longleftrightarrow> list_all (\<lambda>(f, e). sweep_entry_ok root files f e) expected"

lemma accepted_lookup: "accepted_map root files expected \<Longrightarrow> map_of expected n = Some e \<Longrightarrow> sweep_entry_ok root files n e"
  unfolding accepted_map_def list_all_iff by (auto dest!: map_of_SomeD)

text \<open>A failure is known when the entry of its fixture records it; a result is as expected when it is one of the tolerated ones.\<close>

definition known_failure :: "(string \<times> json) list \<Rightarrow> failure \<Rightarrow> bool" where
  "known_failure expected = (\<lambda>(n, k, m).
     case map_of expected n of None \<Rightarrow> False | Some e \<Rightarrow> failure_mismatch e k m = Inr None)"

definition as_expected :: "(string \<times> json) list \<Rightarrow> string \<times> nat \<times> failure option \<Rightarrow> bool" where
  "as_expected expected = (\<lambda>(n, k, f).
     case f of None \<Rightarrow> map_of expected n = None \<and> swept n
     | Some x \<Rightarrow> \<not> swept n \<or> known_failure expected x)"

lemma split_failures_ok:
  assumes "accepted_map root files expected"
  obtains ks us ds where "split_failures expected fs = Inr (ks, us, ds)"
    and "us = [] \<and> ds = [] \<longleftrightarrow> list_all (known_failure expected) fs"
    and "list_all (\<lambda>x. map_of expected (fst x) \<noteq> None) ks" and "list_all (\<lambda>x. map_of expected (fst (fst x)) \<noteq> None) ds"
proof -
  have "\<exists>ks us ds. split_failures expected fs = Inr (ks, us, ds) \<and> (us = [] \<and> ds = [] \<longleftrightarrow> list_all (known_failure expected) fs) \<and>
      list_all (\<lambda>x. map_of expected (fst x) \<noteq> None) ks \<and> list_all (\<lambda>x. map_of expected (fst (fst x)) \<noteq> None) ds"
  proof (induction fs)
    case (Cons f fs)
    obtain n k m where f: "f = (n, k, m)" by (cases f)
    obtain ks us ds where IH: "split_failures expected fs = Inr (ks, us, ds)" "us = [] \<and> ds = [] \<longleftrightarrow> list_all (known_failure expected) fs"
      "list_all (\<lambda>x. map_of expected (fst x) \<noteq> None) ks" "list_all (\<lambda>x. map_of expected (fst (fst x)) \<noteq> None) ds"
      using Cons.IH by blast
    show ?case
    proof (cases "map_of expected n")
      case (Some e)
      obtain r where "failure_mismatch e k m = Inr r" using failure_mismatch_total [OF accepted_lookup [OF assms Some]] by blast
      with IH f Some show ?thesis by (cases r) (simp_all add: known_failure_def)
    qed (use IH f in \<open>auto simp: known_failure_def\<close>)
  qed simp
  then show thesis using that by blast
qed

lemma result_map_ok: "list_all (\<lambda>x. \<exists>y. f x = Inr y) xs \<Longrightarrow> \<exists>ys. result_map f xs = Inr ys"
  by (induction xs) auto

lemma entry_text_ok:
  assumes "accepted_map root files expected" and "map_of expected n \<noteq> None"
  shows "\<exists>t. entry_text expected n ''note'' = Inr t" and "\<exists>t. entry_text expected n ''stage'' = Inr t" and "\<exists>t. entry_text expected n ''reason'' = Inr t"
proof -
  obtain e where e: "map_of expected n = Some e" using assms(2) by blast
  obtain d stage reason remark where "jindex e ''stage'' = Inr (JStr stage)" "jindex e ''reason'' = Inr (JStr reason)" "jindex e ''note'' = Inr (JStr remark)"
    using accepted_lookup [OF assms(1) e] by (rule accepted_entry)
  with e show "\<exists>t. entry_text expected n ''note'' = Inr t" "\<exists>t. entry_text expected n ''stage'' = Inr t" "\<exists>t. entry_text expected n ''reason'' = Inr t"
    by (simp_all add: entry_text_def)
qed

lemma all_as_expected:
  "list_all (as_expected expected) rs \<longleftrightarrow>
     list_all (known_failure expected) (sort (scope_failures rs)) \<and> fixed_names expected rs = [] \<and> unlisted_names expected rs = []"
proof -
  have *: "list_all P (sort xs) = list_all P xs" for P and xs :: "failure list" by (simp add: list_all_iff)
  define T where "T = (\<lambda>(n :: string, k :: nat, f). case f of None \<Rightarrow> True | Some x \<Rightarrow> \<not> swept n \<or> known_failure expected x)"
  define U where "U = (\<lambda>(n :: string, k :: nat, f :: failure option). case f of None \<Rightarrow> map_of expected n = None \<and> swept n | Some x \<Rightarrow> True)"
  have one: "(list_all (known_failure expected) (scope_failures [r]) \<longleftrightarrow> T r) \<and> (fixed_names expected [r] = [] \<and> unlisted_names expected [r] = [] \<longleftrightarrow> U r) \<and>
      (as_expected expected r \<longleftrightarrow> T r \<and> U r)" for r
    by (cases r; cases "snd (snd r)")
      (auto simp: scope_failures_def fixed_names_def unlisted_names_def T_def U_def as_expected_def)
  have app: "scope_failures (r # rs) = scope_failures [r] @ scope_failures rs" "fixed_names expected (r # rs) = fixed_names expected [r] @ fixed_names expected rs"
    "unlisted_names expected (r # rs) = unlisted_names expected [r] @ unlisted_names expected rs" for r rs
    by (simp_all add: scope_failures_def fixed_names_def unlisted_names_def)
  have sc: "list_all (known_failure expected) (scope_failures rs) \<longleftrightarrow> list_all T rs"
  proof (induction rs)
    case (Cons r rs)
    then show ?case using one [of r] by (subst app) (simp only: list_all_append list.pred_inject)
  qed (simp add: scope_failures_def)
  have "fixed_names expected rs = [] \<and> unlisted_names expected rs = [] \<longleftrightarrow> list_all U rs"
  proof (induction rs)
    case (Cons r rs)
    have "fixed_names expected (r # rs) = [] \<and> unlisted_names expected (r # rs) = [] \<longleftrightarrow>
        (fixed_names expected [r] = [] \<and> unlisted_names expected [r] = []) \<and> (fixed_names expected rs = [] \<and> unlisted_names expected rs = [])"
      by (subst app(2), subst app(3)) blast
    then show ?case using Cons one [of r] by (simp only: list.pred_inject)
  qed (simp add: fixed_names_def unlisted_names_def)
  moreover have "list_all (as_expected expected) rs \<longleftrightarrow> list_all T rs \<and> list_all U rs"
    using one by (auto simp: list_all_iff)
  ultimately show ?thesis unfolding * using sc by simp
qed

lemma sweep_report_status:
  assumes "accepted_map root files expected"
  obtains ls where "sweep_report expected rs = Inr (ls, if list_all (as_expected expected) rs then 0 else 1)"
proof -
  obtain ks us ds where s: "split_failures expected (sort (scope_failures rs)) = Inr (ks, us, ds)"
    and bad: "us = [] \<and> ds = [] \<longleftrightarrow> list_all (known_failure expected) (sort (scope_failures rs))"
    and k: "list_all (\<lambda>x. map_of expected (fst x) \<noteq> None) ks" and d: "list_all (\<lambda>x. map_of expected (fst (fst x)) \<noteq> None) ds"
    using assms by (rule split_failures_ok)
  have "\<exists>ys. result_map (known_line expected) ks = Inr ys"
    by (rule result_map_ok) (use k entry_text_ok(1) [OF assms] in \<open>fastforce simp: list_all_iff known_line_def\<close>)
  then obtain kl where kl: "result_map (known_line expected) ks = Inr kl" by blast
  have "\<exists>ys. result_map (drift_line expected) ds = Inr ys"
    by (rule result_map_ok) (use d entry_text_ok(2,3) [OF assms] in \<open>fastforce simp: list_all_iff drift_line_def\<close>)
  then obtain dl where dl: "result_map (drift_line expected) ds = Inr dl" by blast
  have "(if us \<noteq> [] \<or> ds \<noteq> [] \<or> fixed_names expected rs \<noteq> [] \<or> unlisted_names expected rs \<noteq> [] then 1 else 0) =
      (if list_all (as_expected expected) rs then 0 else 1 :: int)"
    unfolding all_as_expected using bad by auto
  with that show thesis by (simp add: sweep_report_def Let_def s kl dl)
qed

section \<open>The manifest the sweep loads\<close>

lemma entry_map_ok:
  "list_all2 (sweep_entry_ok root files) fs es \<Longrightarrow> accepted_map root files d \<Longrightarrow>
   \<exists>d'. entry_map d es = Inr d' \<and> accepted_map root files d' \<and> fst ` set d' = fst ` set d \<union> set fs"
proof (induction fs es arbitrary: d rule: list_all2_induct)
  case (Cons f fs e es)
  obtain c stage reason remark where "jindex e ''fixture'' = Inr (JStr f)" using Cons(1) by (rule accepted_entry)
  moreover have "set (dict_set d f e) \<subseteq> insert (f, e) (set d)" by (induction d) auto
  then have "accepted_map root files (dict_set d f e)" using Cons(1,4) by (auto simp: accepted_map_def list_all_iff)
  moreover have "fst ` set (dict_set d f e) = insert f (fst ` set d)" by (simp add: dom_update)
  ultimately show ?case using Cons(3) [of "dict_set d f e"] by auto
qed simp

lemma load_accepted:
  assumes "file_text files (in_root root MANIFEST) = Inr t" and "json_loads t = Some (JDict m)" and "manifest_ok root files m es ss"
  shows "\<exists>expected. load_expected_failures root files = Inr expected \<and> accepted_map root files expected"
proof -
  obtain gs where "list_all2 (sweep_entry_ok root files) gs ss" using assms(3) by (auto simp: manifest_ok_def)
  then obtain d where "entry_map [] ss = Inr d" "accepted_map root files d"
    using entry_map_ok [of root files gs ss "[]"] by (auto simp: accepted_map_def)
  moreover have "map_of m ''sweep'' = Some (JList ss)"
    using assms(3) by (auto simp: manifest_ok_def jget_def split: option.splits)
  ultimately show ?thesis using assms(1,2) by (simp add: load_expected_failures_def)
qed

section \<open>Properties\<close>

text \<open>
  C17. The sweep and the check of its manifest fit together: on a repository whose manifest the check
  accepts, once the tools have answered for every fixture the sweep raises nothing, and its status
  is 0 exactly when every fixture that emits is neither listed as failing nor allowlisted and every fixture that
  fails is allowlisted or fails the way its entry records.
\<close>

theorem accepted_manifest_sweep:
  assumes "manifest_test root (w_files w) = Inr line"
    and "io_map (sweep_one mcc tmp) (sort fixtures) h w = (Inr rs, w')"
  shows "\<exists>expected ls. load_expected_failures root (w_files w) = Inr expected \<and> accepted_map root (w_files w) expected \<and>
    spec_emit_main root mcc tmp fixtures h w = (Inr (ls, if list_all (as_expected expected) rs then 0 else 1), w')"
proof -
  obtain t m es ss where t: "file_text (w_files w) (in_root root MANIFEST) = Inr t" "json_loads t = Some (JDict m)" "manifest_ok root (w_files w) m es ss"
    using assms(1) manifest_accepts [of root "w_files w" line] by blast
  obtain expected where e: "load_expected_failures root (w_files w) = Inr expected" "accepted_map root (w_files w) expected"
    using load_accepted [OF t] by blast
  obtain ls where "sweep_report expected rs = Inr (ls, if list_all (as_expected expected) rs then 0 else 1)"
    using sweep_report_status [OF e(2)] by blast
  with e assms(2) show ?thesis by (auto simp: spec_emit_main_def io_bind_def io_lift_def)
qed

text \<open>A small repository and compiler: one fixture, refused with the cause its entry records.\<close>

definition gap_files :: files where
  "gap_files = map_of
     [(''/r/docs/backend-expected-failures.json'',
       map (\<lambda>c. if c = CHR ''|'' then CHR 0x22 else c)
         (''{|schema_version|: 1, |source_of_truth|: |docs/backend-expected-failures.json|, |purpose|: |debt|, |emit_c|: [], |sweep|: ['' @
          ''{|fixture|: |a.mc|, |stage|: |EMIT|, |reason|: |E_BACKEND_UNSUPPORTED|, |note|: |open|, |cause|: '' @
          ''{|category|: |expression|, |construct|: |x|, |function|: |f|, |phase|: |mir-build|}}]}'')),
      (''/r/tools/toolchain/check-generated-c.sh'', ''docs/backend-expected-failures.json run_known_fixture render_cause''),
      (''/r/tools/toolchain/spec-emit-sweep.py'', ''backend-expected-failures.json load_expected_failures failure_matches parse_cause''),
      (''/r/tests/spec/a.mc'', ''fn f() {}'')]"

definition gap_host :: host where
  "gap_host = \<lparr>h_run = (\<lambda>argv inp vars w.
       Inr (\<lparr>returncode = 1, stdout = [], stderr = ''t.mc:1:1: error: '' @ cause_text ''expression'' ''x'' ''f'' ''mir-build'', elapsed = 0\<rparr>, w_files w)),
     h_denied = (\<lambda>p w. None), h_mkdtemp = (\<lambda>w. Inr ''/tmp/d'')\<rparr>"

lemma gap_demo_accepted: "manifest_test ''/r'' gap_files =
  Inr ''PASS: backend-expected-failures-test - 0 known-failing c_emit fixtures (); 1 known-failing spec sweep fixtures (1 E_BACKEND_UNSUPPORTED); 1 entries pinned to a structured E_BACKEND_UNSUPPORTED cause''"
  by code_simp

lemma demo_swept:
  "fst (io_map (sweep_one ''mcc'' (\<lambda>p. ''/tmp/t.mc'')) (sort [''/r/tests/spec/a.mc'']) gap_host \<lparr>w_files = gap_files, w_clock = 0\<rparr>) =
   Inr [(''a.mc'', 1, Some (''a.mc'', ''EMIT'', ''t.mc:1:1: error: '' @ cause_text ''expression'' ''x'' ''f'' ''mir-build''))]"
  by code_simp

lemma demo_expected:
  "(case load_expected_failures ''/r'' gap_files of Inl e \<Rightarrow> False | Inr expected \<Rightarrow>
     list_all (as_expected expected) [(''a.mc'', 1, Some (''a.mc'', ''EMIT'', ''t.mc:1:1: error: '' @ cause_text ''expression'' ''x'' ''f'' ''mir-build''))])"
  by code_simp

theorem accepted_manifest_sweep_witness:
  "\<exists>ls w'. spec_emit_main ''/r'' ''mcc'' (\<lambda>p. ''/tmp/t.mc'') [''/r/tests/spec/a.mc''] gap_host \<lparr>w_files = gap_files, w_clock = 0\<rparr> = (Inr (ls, 0), w')"
proof -
  obtain w' where "io_map (sweep_one ''mcc'' (\<lambda>p. ''/tmp/t.mc'')) (sort [''/r/tests/spec/a.mc'']) gap_host \<lparr>w_files = gap_files, w_clock = 0\<rparr> =
      (Inr [(''a.mc'', 1, Some (''a.mc'', ''EMIT'', ''t.mc:1:1: error: '' @ cause_text ''expression'' ''x'' ''f'' ''mir-build''))], w')"
    using demo_swept by (metis prod.collapse)
  from accepted_manifest_sweep [OF _ this, of "''/r''"] gap_demo_accepted demo_expected show ?thesis by auto
qed

text \<open>
  C18. A recorded cause tells one gap of the backend from every other: against an accepted entry that pins a
  cause, a diagnostic line that spells a well-formed cause behind a prefix of its own is the recorded
  failure exactly when stage, phase, category, construct and function are the recorded ones.
\<close>

theorem recorded_cause_exact:
  assumes "sweep_entry_ok root files fixture (JDict d)"
    and "jget d ''cause'' = JDict c" and "has_cause c cat con fn ph"
    and "well_formed_cause cat' con' fn' ph'" and "\<not> contains pre gap_head"
  shows "failure_mismatch (JDict d) kind (pre @ cause_text cat' con' fn' ph' @ post) = Inr None \<longleftrightarrow>
    jget d ''stage'' = JStr kind \<and> (cat', con', fn', ph') = (cat, con, fn, ph)"
proof -
  obtain d' stage reason remark where d': "JDict d = JDict d'" "jget d' ''fixture'' = JStr fixture"
      "jindex (JDict d) ''fixture'' = Inr (JStr fixture)" "jindex (JDict d) ''stage'' = Inr (JStr stage)"
      "jindex (JDict d) ''reason'' = Inr (JStr reason)" "jindex (JDict d) ''note'' = Inr (JStr remark)" "cause_ok d' reason"
    using assms(1) by (rule accepted_entry)
  then have reason: "reason = STRUCTURED_REASON" and st: "jget d ''stage'' = JStr stage"
    using assms(2) by (auto simp: cause_ok_def jget_def jindex_def split: if_splits option.splits)
  define msg where "msg = pre @ cause_text cat' con' fn' ph' @ post"
  define ms where "ms = cause_members cat' con' fn' ph'"
  obtain z where "gap_head = STRUCTURED_REASON @ z" by (simp add: gap_head_def STRUCTURED_REASON_def)
  then have "msg = pre @ STRUCTURED_REASON @ z @ drop (length gap_head) (cause_text cat' con' fn' ph') @ post"
    by (simp add: msg_def cause_text_def)
  then have has: "contains msg STRUCTURED_REASON" unfolding contains_iff by blast
  have parsed: "parse_cause msg = Some ms"
    unfolding msg_def ms_def using parse_render_cause [OF assms(4,5)] by (simp add: cause_members_def)
  have drifted: "filter (\<lambda>(f, v). jget ms f \<noteq> v) c = [] \<longleftrightarrow> (cat', con', fn', ph') = (cat, con, fn, ph)"
    unfolding ms_def by (rule drifted_iff [OF assms(3)])
  have "failure_mismatch (JDict d) kind msg = Inr None \<longleftrightarrow> stage = kind \<and> filter (\<lambda>(f, v). jget ms f \<noteq> v) c = []"
    by (simp add: failure_mismatch_def d'(4,5) reason has assms(2) parsed Let_def)
  then show ?thesis unfolding drifted msg_def [symmetric] by (auto simp: st)
qed

definition demo_cause :: "(string \<times> json) list" where
  "demo_cause = cause_members ''expression'' ''x'' ''f'' ''mir-build''"

definition demo_entry :: "(string \<times> json) list" where
  "demo_entry = [(''fixture'', JStr ''a.mc''), (''stage'', JStr ''EMIT''), (''reason'', JStr STRUCTURED_REASON), (''cause'', JDict demo_cause), (''note'', JStr ''open'')]"

lemma demo_well_formed: "well_formed_cause ''expression'' ''x'' ''f'' ''mir-build''" "well_formed_cause ''expression'' ''x'' ''g'' ''mir-build''"
  by code_simp+

lemma demo_has_cause: "has_cause demo_cause ''expression'' ''x'' ''f'' ''mir-build''"
  by (auto simp: has_cause_def demo_cause_def cause_members_def fun_eq_iff)

lemma demo_entry_ok: "sweep_entry_ok ''/r'' gap_files ''a.mc'' (JDict demo_entry)"
proof -
  have "is_file gap_files (path_join (in_root ''/r'' ''tests/spec'') ''a.mc'')" and "reason_code STRUCTURED_REASON" and "strip ''open'' \<noteq> []"
    by code_simp+
  then show ?thesis
    using demo_well_formed(1) demo_has_cause
    by (auto simp: sweep_entry_ok_def demo_entry_def jget_def cause_ok_def startswith_def STRUCTURED_REASON_def)
qed

theorem recorded_cause_exact_witness:
  "failure_mismatch (JDict demo_entry) ''EMIT'' (''t.mc:1:1: error: '' @ cause_text ''expression'' ''x'' ''f'' ''mir-build'' @ []) = Inr None \<and>
   failure_mismatch (JDict demo_entry) ''EMIT'' (''t.mc:1:1: error: '' @ cause_text ''expression'' ''x'' ''g'' ''mir-build'' @ []) \<noteq> Inr None"
proof -
  have c: "jget demo_entry ''cause'' = JDict demo_cause" and s: "jget demo_entry ''stage'' = JStr ''EMIT''" by (simp_all add: demo_entry_def jget_def)
  have pre: "\<not> contains ''t.mc:1:1: error: '' gap_head" by code_simp
  note exact = recorded_cause_exact [OF demo_entry_ok c demo_has_cause _ pre]
  from exact [OF demo_well_formed(1), of "''EMIT''" "[]"] exact [OF demo_well_formed(2), of "''EMIT''" "[]"] show ?thesis by (simp add: s)
qed

end
