(* ===== verification/Llvm_Sweeps.thy ===== *)
theory Llvm_Sweeps
  imports Spec_Emit
begin

text \<open>
  The LLVM sweeps under \<open>tools/toolchain\<close>: \<open>spec-llvm-sweep.py\<close>, \<open>llvm-c-emit-sweep.py\<close>, \<open>spec-llvm-obj-sweep.py\<close>,
  \<open>llvm-c-obj-sweep.py\<close> and \<open>llvm-opt-sweep.py\<close>. The scripts repeat \<open>first_error\<close> and \<open>forbidden_assumption\<close> word for word; they
  are defined once. Fixtures are arguments (the sorted answers of \<open>glob\<close>), temporary names are the system's choice, and
  a pool of threads is a sequence.
\<close>

section \<open>Forbidden assumptions\<close>

definition FORBIDDEN_ASSUMPTIONS :: "string list" where
  "FORBIDDEN_ASSUMPTIONS = [''nuw'', ''nsw'', ''nonnull'', ''noalias'', ''noundef'', ''poison'', ''inbounds'', ''undef'', ''fast'', ''nnan'', ''ninf'',
     ''nsz'', ''arcp'', ''contract'', ''afn'']"

definition lead_char :: "char \<Rightarrow> bool" where
  "lead_char c \<longleftrightarrow> c \<in> {CHR '' '', CHR '','', CHR ''(''}"

definition trail_char :: "char \<Rightarrow> bool" where
  "trail_char c \<longleftrightarrow> c \<in> {CHR '' '', CHR '','', CHR '')''}"

definition token_re :: "matcher \<Rightarrow> matcher" where
  "token_re m = rx_seqs [rx_group (rx_alts [rx_begin, rx_cls lead_char]), m, rx_group (rx_alts [rx_cls trail_char, rx_end])]"

definition FORBIDDEN_RE :: matcher where
  "FORBIDDEN_RE = token_re (rx_group (rx_alts (map rx_lit FORBIDDEN_ASSUMPTIONS)))"

definition REASSOC_RE :: matcher where
  "REASSOC_RE = token_re (rx_lit ''reassoc'')"

text \<open>The loop over the numbered lines: the token, the line number and the stripped line.\<close>

fun forbidden_lines :: "string \<Rightarrow> nat \<Rightarrow> string list \<Rightarrow> (string \<times> nat \<times> string) option" where
  "forbidden_lines source n [] = None"
| "forbidden_lines source n (l # ls) =
     (case re_search FORBIDDEN_RE l of
        Some (a, g) \<Rightarrow> Some (g ! 1, n, strip l)
      | None \<Rightarrow>
          if re_search REASSOC_RE l \<noteq> None \<and> \<not> (contains l ''fadd reassoc'' \<and> contains source ''reduce.sum_fast'')
          then Some (''reassoc'', n, strip l)
          else forbidden_lines source (n + 1) ls)"

definition forbidden_assumption :: "string \<Rightarrow> string \<Rightarrow> (string \<times> nat \<times> string) option" where
  "forbidden_assumption ir source = forbidden_lines source 1 (splitlines ir)"

definition assumption_text :: "string \<times> nat \<times> string \<Rightarrow> string" where
  "assumption_text = (\<lambda>(token, n, l). ''forbidden LLVM assumption token '' @ [CHR 0x27] @ token @ [CHR 0x27] @ '' at line '' @ str_nat n @ '': '' @ l)"

definition first_error_line :: "string \<Rightarrow> string" where
  "first_error_line err =
     strip (case first_line_with ''error:'' err of
              Some l \<Rightarrow> l
            | None \<Rightarrow> (case splitlines err of [] \<Rightarrow> ''?'' | l # _ \<Rightarrow> l))"

section \<open>Files and commands\<close>

definition file_now :: "string \<Rightarrow> string option io" where
  "file_now path h w = (Inr (w_files w path), w)"

definition make_dirs :: "string \<Rightarrow> unit io" where
  "make_dirs dir h w = (case h_denied h dir w of None \<Rightarrow> (Inr (), w) | Some e \<Rightarrow> (Inl (OSError e), w))"

text \<open>A temporary source that is removed whatever happens.\<close>

definition with_temp :: "string \<Rightarrow> string \<Rightarrow> 'a io \<Rightarrow> 'a io" where
  "with_temp tmp text body = io_bind (write_file tmp text) (\<lambda>_. finally_do body (unlink tmp))"

text \<open>\<open>not os.path.exists(p) or os.path.getsize(p) == 0\<close>.\<close>

definition empty_or_missing :: "string option \<Rightarrow> bool" where
  "empty_or_missing c \<longleftrightarrow> c = None \<or> c = Some []"

definition splitext_stem :: "string \<Rightarrow> string" where
  "splitext_stem name =
     (let r = rev name; stem = rev (tl (dropWhile (\<lambda>c. c \<noteq> CHR ''.'') r)) in
      if CHR ''.'' \<in> set name \<and> list_ex (\<lambda>c. c \<noteq> CHR ''.'') stem then stem else name)"

definition found_tool :: "string \<Rightarrow> bool io" where
  "found_tool tool =
     io_bind (run_cmd [''sh'', ''-c'', ''command -v '' @ tool @ '' >/dev/null 2>&1'']) (\<lambda>p. io_ret (returncode p = 0))"

definition OBJ_TRIPLE :: string where
  "OBJ_TRIPLE = ''x86_64-unknown-none''"

definition count_fns :: "string \<Rightarrow> nat" where
  "count_fns program = length (re_findall FN_RE program)"

type_synonym verdict = "(string \<times> string) option"

abbreviation bad_stage :: "string \<Rightarrow> proc \<Rightarrow> verdict io" where
  "bad_stage kind p \<equiv> io_ret (Some (kind, first_error_line (stderr p)))"

section \<open>spec-llvm-sweep\<close>

definition SPEC_LLVM_OUT :: "(string \<times> string) list" where
  "SPEC_LLVM_OUT =
    [(''error_from_ambiguous.mc'', ''pure compile_error fixture; module-level ambiguity check the chunk-level EXPECT_ERROR strip cannot isolate (phase=sema; E_AMBIGUOUS_ERROR_CONVERSION owned by spec_tests.zig)''),
     (''error_from_malformed.mc'', ''pure compile_error fixture; malformed-decl check the chunk-level EXPECT_ERROR strip cannot isolate (phase=sema; E_INVALID_ERROR_FROM owned by spec_tests.zig)''),
     (''import_not_found_reject.mc'', ''pure import-loader diagnostic; top-level inline EXPECT_ERROR after the import semicolon cannot be chunk-isolated by the sweep (phase=parse; E_IMPORT_NOT_FOUND owned by spec_tests.zig)''),
     (''import_outside_sandbox_reject.mc'', ''pure import-loader diagnostic; top-level inline EXPECT_ERROR after the import semicolon cannot be chunk-isolated by the sweep (phase=parse; E_IMPORT_OUTSIDE_SANDBOX owned by spec_tests.zig)''),
     (''closure_typing.mc'', ''accept/reject closure typing cases share helper functions and globals; stripping rejected closure bodies leaves dangling references (phase=sema; E_CLOSURE_SIGNATURE_MISMATCH/E_LOCAL_ADDRESS_ESCAPE owned by spec_tests.zig; accept emit covered by tests/c_emit/global_closure.mc)''),
     (''monomorphization_limits.mc'', ''pure compile_error fixture; polymorphic-recursion limit check the chunk-level EXPECT_ERROR strip cannot isolate (phase=parse,sema; E_MONOMORPHIZATION_LIMIT owned by spec_tests.zig)''),
     (''monomorphize_pattern_type_mentions.mc'', ''pure sema diagnostic; stripping the rejected generic body leaves its caller dangling (phase=parse,sema; E_NO_IMPLICIT_CONVERSION owned by spec_tests.zig)''),
     (''nesting_too_deep_reject.mc'', ''pure parser-depth diagnostic; top-level inline EXPECT_ERROR after the prototype semicolon cannot be chunk-isolated by the sweep (phase=parse; E_NESTING_TOO_DEEP owned by spec_tests.zig)''),
     (''private_import_reject.mc'', ''pure private-import diagnostic; stripping the rejected use leaves a relative support import outside the sweep temp sandbox (phase=sema; E_PRIVATE_IMPORT owned by spec_tests.zig)''),
     (''pointer_view_conversions.mc'', ''accept/reject pointer+view const-narrow cases share types the chunk-level EXPECT_ERROR strip cannot isolate (phase=sema; E_NO_IMPLICIT_POINTER_CONVERSION owned by spec_tests.zig; accept emit covered by tests/c_emit/pointer_views.mc + pointer_const_narrow.mc)''),
     (''reflection.mc'', ''reflection accept/reject cases include sema-only overflow layouts whose top-level declarations cannot be chunk-isolated by EXPECT_ERROR stripping (phase=parse,sema; E_REFLECTION_* owned by spec_tests.zig; accept emit covered by tests/c_emit/reflection.mc)''),
     (''soundness_address_class_cast.mc'', ''checker-only address-class cast has no IR lowering (phase=sema; E_ADDRESS_CLASS_* owned by spec_tests.zig)''),
     (''soundness_use_after_move.mc'', ''accept/reject cases share move-typed defs the chunk-level EXPECT_ERROR strip cannot isolate (phase=sema; E_USE_AFTER_MOVE owned by spec_tests.zig)''),
     (''soundness_conservative_overrejection.mc'', ''shared move-typed defs across accept/reject (phase=sema; E_USE_AFTER_MOVE owned by spec_tests.zig)''),
     (''soundness_opaque_declassify.mc'', ''accept/reject cases share opaque defs (phase=sema; E_OPAQUE_DECLASSIFY owned by spec_tests.zig)''),
     (''soundness_guard_opaque_reject.mc'', ''opaque private-field reject fixture; positive impl cannot be chunk-isolated (phase=sema; E_PRIVATE_FIELD owned by spec_tests.zig)''),
     (''soundness_orphan_impl_reject.mc'', ''orphan-impl reject fixture (phase=sema; E_ORPHAN_IMPL owned by spec_tests.zig)''),
     (''traits_effect_sleep_in_atomic.mc'', ''effect-typed callees are EXPECT_ERROR-stripped, leaving dangling refs (phase=parse,sema; E_SLEEP_IN_ATOMIC owned by spec_tests.zig)''),
     (''traits_orphan_opaque_reject.mc'', ''pure compile_error fixture; residue cannot be chunk-isolated after EXPECT_ERROR stripping (phase=sema; E_ORPHAN_IMPL owned by spec_tests.zig)''),
     (''traits_orphan_nonopaque_reject.mc'', ''pure compile_error fixture with std import; residue cannot be chunk-isolated after EXPECT_ERROR stripping (phase=sema; E_ORPHAN_IMPL owned by spec_tests.zig)''),
     (''type_arg_and_trivial_drop_reject.mc'', ''pure compile_error fixture; stripping rejected declarations leaves only an unspecialized comptime-type helper template (phase=parse,sema; E_TRIVIAL_DROP_NOT_MOVE and E_TYPE_ARG_REQUIRED owned by spec_tests.zig)'')]"

definition spec_llvm_chain :: "string \<Rightarrow> string \<Rightarrow> string \<Rightarrow> verdict io" where
  "spec_llvm_chain mcc tmp program =
     io_bind (run_text [mcc, ''emit-llvm'', tmp] []) (\<lambda>emit.
       if returncode emit \<noteq> 0 then bad_stage ''EMIT'' emit
       else
         (case forbidden_assumption (stdout emit) program of
            Some f \<Rightarrow> io_ret (Some (''ASSUMPTION'', assumption_text f))
          | None \<Rightarrow>
              io_bind (run_text [''llvm-as'', ''-o'', ''/dev/null''] (stdout emit)) (\<lambda>asm.
                if returncode asm \<noteq> 0 then bad_stage ''LLVM-AS'' asm else io_ret None)))"

definition spec_llvm_one :: "string \<Rightarrow> (string \<Rightarrow> string) \<Rightarrow> string \<Rightarrow> (string \<times> nat \<times> verdict) io" where
  "spec_llvm_one mcc tmp path =
     io_bind (read_text path) (\<lambda>src.
     (let program = valid_program src in
      io_bind (with_temp (tmp path) program (spec_llvm_chain mcc (tmp path) program)) (\<lambda>v.
        io_ret (basename path, count_fns program, v))))"

text \<open>The failures of a list of results, in order, kept by whether the name is allowlisted.\<close>

definition failures_of :: "(string \<Rightarrow> bool) \<Rightarrow> (string \<times> nat \<times> verdict) list \<Rightarrow> failure list" where
  "failures_of keep rs = concat (map (\<lambda>(n, k, v). case v of Some (kind, m) \<Rightarrow> if keep n then [(n, kind, m)] else [] | None \<Rightarrow> []) rs)"

definition exempted :: "(string \<times> string) list \<Rightarrow> string \<Rightarrow> bool" where
  "exempted out n \<longleftrightarrow> map_of out n \<noteq> None"

definition reason_in :: "(string \<times> string) list \<Rightarrow> string \<Rightarrow> string" where
  "reason_in out n = (case map_of out n of Some r \<Rightarrow> r | None \<Rightarrow> [])"

definition total_fns :: "(string \<times> nat \<times> verdict) list \<Rightarrow> nat" where
  "total_fns rs = sum_list (map (\<lambda>(n, k, v). k) rs)"

definition spec_llvm_report :: "(string \<times> nat \<times> verdict) list \<Rightarrow> string list \<times> int" where
  "spec_llvm_report rs =
     (let oos = failures_of (exempted SPEC_LLVM_OUT) rs; bad = failures_of (\<lambda>n. \<not> exempted SPEC_LLVM_OUT n) rs in
      ([''spec fixtures swept: '' @ str_nat (length rs) @ '', valid functions checked for LLVM: '' @ str_nat (total_fns rs)]
       @ section_of oos ''known LLVM out-of-scope fixtures (allowlisted, not failing the gate):''
           (map (\<lambda>(n, k, m). ''  ['' @ k @ ''] '' @ n @ '': '' @ reason_in SPEC_LLVM_OUT n @ '' ('' @ m @ '')'') oos)
       @ (if bad \<noteq> [] then (''FAIL: '' @ str_nat (length bad) @ '' in-scope fixture(s) did not emit/assemble LLVM:'') # map failure_line bad
          else [''PASS: all in-scope valid spec fixtures emit assemblable LLVM IR'']),
       if bad \<noteq> [] then 1 else 0))"

definition spec_llvm_main :: "string \<Rightarrow> (string \<Rightarrow> string) \<Rightarrow> string list \<Rightarrow> (string list \<times> int) io" where
  "spec_llvm_main mcc tmp fixtures =
     io_bind (io_map (spec_llvm_one mcc tmp) (sort fixtures)) (\<lambda>rs. io_ret (spec_llvm_report rs))"

section \<open>llvm-c-emit-sweep\<close>

definition c_emit_one :: "string \<Rightarrow> string \<Rightarrow> (string \<times> nat \<times> verdict) io" where
  "c_emit_one mcc path =
     io_bind (read_text path) (\<lambda>source.
     io_bind (run_text [mcc, ''check'', path] []) (\<lambda>check.
     io_bind
       (if returncode check \<noteq> 0 then bad_stage ''CHECK'' check
        else
          io_bind (run_text [mcc, ''emit-llvm'', path] []) (\<lambda>emit.
            if returncode emit \<noteq> 0 then bad_stage ''EMIT'' emit
            else
              (case forbidden_assumption (stdout emit) source of
                 Some f \<Rightarrow> io_ret (Some (''ASSUMPTION'', assumption_text f))
               | None \<Rightarrow>
                   io_bind (run_text [''llvm-as'', ''-o'', ''/dev/null''] (stdout emit)) (\<lambda>asm.
                     if returncode asm \<noteq> 0 then bad_stage ''LLVM-AS'' asm else io_ret None))))
       (\<lambda>v. io_ret (basename path, 0, v))))"

definition c_emit_report :: "(string \<times> nat \<times> verdict) list \<Rightarrow> string list \<times> int" where
  "c_emit_report rs =
     (let bad = sort (failures_of (\<lambda>n. True) rs) in
      ((''c_emit fixtures checked for LLVM: '' @ str_nat (length rs)) #
       (if bad \<noteq> [] then (''FAIL: '' @ str_nat (length bad) @ '' c_emit fixture(s) did not emit/assemble LLVM:'') # map failure_line bad
        else [''PASS: all c_emit fixtures emit assemblable LLVM IR'']),
       if bad \<noteq> [] then 1 else 0))"

definition c_emit_main :: "string \<Rightarrow> string list \<Rightarrow> (string list \<times> int) io" where
  "c_emit_main mcc fixtures = io_bind (io_map (c_emit_one mcc) (sort fixtures)) (\<lambda>rs. io_ret (c_emit_report rs))"

section \<open>spec-llvm-obj-sweep\<close>

definition SPEC_OBJ_OUT :: "(string \<times> string) list" where
  "SPEC_OBJ_OUT =
    [(''error_from_ambiguous.mc'', ''pure compile_error fixture; module-level ambiguity check the chunk-level EXPECT_ERROR strip cannot isolate (phase=sema; E_AMBIGUOUS_ERROR_CONVERSION owned by spec_tests.zig)''),
     (''error_from_malformed.mc'', ''pure compile_error fixture; malformed-decl check the chunk-level EXPECT_ERROR strip cannot isolate (phase=sema; E_INVALID_ERROR_FROM owned by spec_tests.zig)''),
     (''import_not_found_reject.mc'', ''pure import-loader diagnostic; top-level inline EXPECT_ERROR after the import semicolon cannot be chunk-isolated by the sweep (phase=parse; E_IMPORT_NOT_FOUND owned by spec_tests.zig)''),
     (''import_outside_sandbox_reject.mc'', ''pure import-loader diagnostic; top-level inline EXPECT_ERROR after the import semicolon cannot be chunk-isolated by the sweep (phase=parse; E_IMPORT_OUTSIDE_SANDBOX owned by spec_tests.zig)''),
     (''closure_typing.mc'', ''accept/reject closure typing cases share helper functions and globals; stripping rejected closure bodies leaves dangling references (phase=sema; E_CLOSURE_SIGNATURE_MISMATCH/E_LOCAL_ADDRESS_ESCAPE owned by spec_tests.zig; accept emit covered by tests/c_emit/global_closure.mc)''),
     (''monomorphization_limits.mc'', ''pure compile_error fixture; polymorphic-recursion limit check the chunk-level EXPECT_ERROR strip cannot isolate (phase=parse,sema; E_MONOMORPHIZATION_LIMIT owned by spec_tests.zig)''),
     (''monomorphize_pattern_type_mentions.mc'', ''pure sema diagnostic; stripping the rejected generic body leaves its caller dangling (phase=parse,sema; E_NO_IMPLICIT_CONVERSION owned by spec_tests.zig)''),
     (''nesting_too_deep_reject.mc'', ''pure parser-depth diagnostic; top-level inline EXPECT_ERROR after the prototype semicolon cannot be chunk-isolated by the sweep (phase=parse; E_NESTING_TOO_DEEP owned by spec_tests.zig)''),
     (''private_import_reject.mc'', ''pure private-import diagnostic; stripping the rejected use leaves a relative support import outside the sweep temp sandbox (phase=sema; E_PRIVATE_IMPORT owned by spec_tests.zig)''),
     (''pointer_view_conversions.mc'', ''accept/reject pointer+view const-narrow cases share types the chunk-level EXPECT_ERROR strip cannot isolate (phase=sema; E_NO_IMPLICIT_POINTER_CONVERSION owned by spec_tests.zig; accept emit covered by tests/c_emit/pointer_views.mc + pointer_const_narrow.mc)''),
     (''reflection.mc'', ''reflection accept/reject cases include sema-only overflow layouts whose top-level declarations cannot be chunk-isolated by EXPECT_ERROR stripping (phase=parse,sema; E_REFLECTION_* owned by spec_tests.zig; accept emit covered by tests/c_emit/reflection.mc)''),
     (''soundness_address_class_cast.mc'', ''checker-only address-class cast has no IR lowering (phase=sema; E_ADDRESS_CLASS_* owned by spec_tests.zig)''),
     (''soundness_use_after_move.mc'', ''accept/reject cases share move-typed defs the chunk-level EXPECT_ERROR strip cannot isolate (phase=sema; E_USE_AFTER_MOVE owned by spec_tests.zig)''),
     (''soundness_conservative_overrejection.mc'', ''shared move-typed defs across accept/reject (phase=sema; E_USE_AFTER_MOVE owned by spec_tests.zig)''),
     (''soundness_opaque_declassify.mc'', ''accept/reject cases share opaque defs (phase=sema; E_OPAQUE_DECLASSIFY owned by spec_tests.zig)''),
     (''soundness_guard_opaque_reject.mc'', ''opaque private-field reject fixture; positive impl cannot be chunk-isolated (phase=sema; E_PRIVATE_FIELD owned by spec_tests.zig)''),
     (''soundness_orphan_impl_reject.mc'', ''orphan-impl reject fixture (phase=sema; E_ORPHAN_IMPL owned by spec_tests.zig)''),
     (''traits_effect_sleep_in_atomic.mc'', ''effect-typed callees are EXPECT_ERROR-stripped, leaving dangling refs (phase=parse,sema; E_SLEEP_IN_ATOMIC owned by spec_tests.zig)''),
     (''traits_orphan_opaque_reject.mc'', ''pure compile_error fixture; residue cannot be chunk-isolated after EXPECT_ERROR stripping (phase=sema; E_ORPHAN_IMPL owned by spec_tests.zig)''),
     (''traits_orphan_nonopaque_reject.mc'', ''pure compile_error fixture with std import; residue cannot be chunk-isolated after EXPECT_ERROR stripping (phase=sema; E_ORPHAN_IMPL owned by spec_tests.zig)''),
     (''type_arg_and_trivial_drop_reject.mc'', ''pure compile_error fixture; stripping rejected declarations leaves only an unspecialized comptime-type helper template (phase=parse,sema; E_TRIVIAL_DROP_NOT_MOVE and E_TYPE_ARG_REQUIRED owned by spec_tests.zig)'')]"

definition spec_obj_chain :: "string \<Rightarrow> string \<Rightarrow> string \<Rightarrow> string \<Rightarrow> verdict io" where
  "spec_obj_chain mcc tmp out program =
     io_bind (run_text [mcc, ''emit-llvm'', tmp] []) (\<lambda>emit.
       if returncode emit \<noteq> 0 then bad_stage ''EMIT'' emit
       else
         (case forbidden_assumption (stdout emit) program of
            Some f \<Rightarrow> io_ret (Some (''ASSUMPTION'', assumption_text f))
          | None \<Rightarrow>
              io_bind (run_text [''llc'', ''-mtriple='' @ OBJ_TRIPLE, ''-filetype=obj'', ''-o'', out] (stdout emit)) (\<lambda>obj.
                if returncode obj \<noteq> 0 then bad_stage ''LLC'' obj
                else
                  io_bind (file_now out) (\<lambda>c.
                    io_ret (if empty_or_missing c then Some (''OBJECT'', ''empty or missing object output'') else None)))))"

definition object_path :: "string \<Rightarrow> string \<Rightarrow> string" where
  "object_path out_dir path = path_join out_dir (splitext_stem (basename path) @ ''.o'')"

definition spec_obj_one :: "string \<Rightarrow> (string \<Rightarrow> string) \<Rightarrow> string \<Rightarrow> string \<Rightarrow> (string \<times> nat \<times> verdict) io" where
  "spec_obj_one mcc tmp out_dir path =
     io_bind (read_text path) (\<lambda>src.
     (let program = valid_program src in
      io_bind (with_temp (tmp path) program (spec_obj_chain mcc (tmp path) (object_path out_dir path) program)) (\<lambda>v.
        io_ret (basename path, count_fns program, v))))"

definition spec_obj_report :: "(string \<times> nat \<times> verdict) list \<Rightarrow> string list \<times> int" where
  "spec_obj_report rs =
     (let oos = failures_of (exempted SPEC_OBJ_OUT) rs; bad = failures_of (\<lambda>n. \<not> exempted SPEC_OBJ_OUT n) rs in
      ([''spec fixtures swept: '' @ str_nat (length rs) @ '', valid functions compiled to LLVM objects: '' @ str_nat (total_fns rs)]
       @ section_of oos ''known out-of-scope fixtures (allowlisted, not failing the gate):''
           (map (\<lambda>(n, k, m). failure_line (n, k, m) @ gap8 @ ''reason: '' @ reason_in SPEC_OBJ_OUT n) oos)
       @ (if bad \<noteq> [] then (''FAIL: '' @ str_nat (length bad) @ '' valid spec fixture(s) did not compile to LLVM objects:'') # map failure_line bad
          else [''PASS: all in-scope valid spec fixtures compile to LLVM object files'']),
       if bad \<noteq> [] then 1 else 0))"

definition spec_obj_main :: "string \<Rightarrow> (string \<Rightarrow> string) \<Rightarrow> string \<Rightarrow> string list \<Rightarrow> (string list \<times> int) io" where
  "spec_obj_main mcc tmp out_dir fixtures =
     io_bind (found_tool ''llc'') (\<lambda>llc.
       if \<not> llc then io_ret ([''SKIP: llvm-spec-obj-sweep (llc not found)''], 0)
       else
         io_bind (make_dirs out_dir) (\<lambda>_.
         io_bind (io_map (spec_obj_one mcc tmp out_dir) (sort fixtures)) (\<lambda>rs. io_ret (spec_obj_report rs))))"

section \<open>llvm-c-obj-sweep\<close>

text \<open>The wrapper script takes the compiler from two environment variables.\<close>

definition run_text_env :: "string list \<Rightarrow> (string \<times> string) list \<Rightarrow> proc io" where
  "run_text_env argv vars =
     io_bind (run_proc argv [] vars) (\<lambda>p.
       if valid_utf8 (stdout p) \<and> valid_utf8 (stderr p)
       then io_ret (p\<lparr>stdout := universal_newlines (stdout p), stderr := universal_newlines (stderr p)\<rparr>)
       else io_raise ValueError)"

definition c_obj_one :: "string \<Rightarrow> string \<Rightarrow> string \<Rightarrow> (string \<times> nat \<times> verdict) io" where
  "c_obj_one mcc out_dir path =
     (let out = object_path out_dir path in
      io_bind (run_text [mcc, ''check'', path] []) (\<lambda>check.
      io_bind
        (if returncode check \<noteq> 0 then bad_stage ''CHECK'' check
         else
           io_bind (run_text_env [''tools/toolchain/mcc-llvm-cc.sh'', path, ''-o'', out, ''-mtriple=x86_64-unknown-none'']
               [(''MCC_UNDER_TEST'', mcc), (''MCC'', mcc)]) (\<lambda>obj.
             if returncode obj \<noteq> 0 then bad_stage ''LLC'' obj
             else
               io_bind (file_now out) (\<lambda>c.
                 io_ret (if empty_or_missing c then Some (''OBJECT'', ''empty or missing object output'') else None))))
        (\<lambda>v. io_ret (basename path, 0, v))))"

definition c_obj_report :: "(string \<times> nat \<times> verdict) list \<Rightarrow> string list \<times> int" where
  "c_obj_report rs =
     (let bad = failures_of (\<lambda>n. True) rs in
      ((''c_emit fixtures compiled to LLVM objects: '' @ str_nat (length rs)) #
       (if bad \<noteq> [] then (''FAIL: '' @ str_nat (length bad) @ '' c_emit fixture(s) did not compile to LLVM objects:'') # map failure_line bad
        else [''PASS: all c_emit fixtures compile to LLVM object files'']),
       if bad \<noteq> [] then 1 else 0))"

definition c_obj_main :: "string \<Rightarrow> string \<Rightarrow> string list \<Rightarrow> (string list \<times> int) io" where
  "c_obj_main mcc out_dir fixtures =
     io_bind (found_tool ''llc'') (\<lambda>llc.
       if \<not> llc then io_ret ([''SKIP: llvm-c-obj-sweep (llc not found)''], 0)
       else
         io_bind (make_dirs out_dir) (\<lambda>_.
         io_bind (io_map (c_obj_one mcc out_dir) (sort fixtures)) (\<lambda>rs. io_ret (c_obj_report rs))))"

section \<open>llvm-opt-sweep\<close>

definition OPT_OUT :: "(string \<times> string) list" where
  "OPT_OUT =
    [(''error_from_ambiguous.mc'', ''pure compile_error fixture; module-level ambiguity check the chunk-level EXPECT_ERROR strip cannot isolate (phase=sema; E_AMBIGUOUS_ERROR_CONVERSION owned by spec_tests.zig)''),
     (''error_from_malformed.mc'', ''pure compile_error fixture; malformed-decl check the chunk-level EXPECT_ERROR strip cannot isolate (phase=sema; E_INVALID_ERROR_FROM owned by spec_tests.zig)''),
     (''import_not_found_reject.mc'', ''pure import-loader diagnostic; top-level inline EXPECT_ERROR after the import semicolon cannot be chunk-isolated by the sweep (phase=parse; E_IMPORT_NOT_FOUND owned by spec_tests.zig)''),
     (''import_outside_sandbox_reject.mc'', ''pure import-loader diagnostic; top-level inline EXPECT_ERROR after the import semicolon cannot be chunk-isolated by the sweep (phase=parse; E_IMPORT_OUTSIDE_SANDBOX owned by spec_tests.zig)''),
     (''closure_typing.mc'', ''accept/reject closure typing cases share helper functions and globals; stripping rejected closure bodies leaves dangling references (phase=sema; owned by spec_tests.zig; accept emit covered by tests/c_emit/global_closure.mc)''),
     (''monomorphization_limits.mc'', ''pure compile_error fixture; polymorphic-recursion limit check the chunk-level EXPECT_ERROR strip cannot isolate (phase=parse,sema; E_MONOMORPHIZATION_LIMIT owned by spec_tests.zig)''),
     (''monomorphize_pattern_type_mentions.mc'', ''pure sema diagnostic; stripping the rejected generic body leaves its caller dangling (phase=parse,sema; E_NO_IMPLICIT_CONVERSION owned by spec_tests.zig)''),
     (''nesting_too_deep_reject.mc'', ''pure parser-depth diagnostic; top-level inline EXPECT_ERROR after the prototype semicolon cannot be chunk-isolated by the sweep (phase=parse; E_NESTING_TOO_DEEP owned by spec_tests.zig)''),
     (''private_import_reject.mc'', ''pure private-import diagnostic; stripping the rejected use leaves a relative support import outside the sweep temp sandbox (phase=sema; E_PRIVATE_IMPORT owned by spec_tests.zig)''),
     (''pointer_view_conversions.mc'', ''accept/reject pointer+view const-narrow cases share types the chunk-level EXPECT_ERROR strip cannot isolate (phase=sema; E_NO_IMPLICIT_POINTER_CONVERSION owned by spec_tests.zig; accept emit covered by tests/c_emit/pointer_views.mc + pointer_const_narrow.mc)''),
     (''reflection.mc'', ''reflection accept/reject cases include sema-only overflow layouts whose top-level declarations cannot be chunk-isolated by EXPECT_ERROR stripping (phase=parse,sema; E_REFLECTION_* owned by spec_tests.zig; accept emit covered by tests/c_emit/reflection.mc)''),
     (''soundness_address_class_cast.mc'', ''checker-only address-class cast has no IR lowering (phase=sema; owned by spec_tests.zig)''),
     (''soundness_use_after_move.mc'', ''accept/reject cases share move-typed defs the strip cannot isolate (phase=sema; owned by spec_tests.zig)''),
     (''soundness_conservative_overrejection.mc'', ''shared move-typed defs across accept/reject (phase=sema; owned by spec_tests.zig)''),
     (''soundness_opaque_declassify.mc'', ''accept/reject cases share opaque defs (phase=sema; owned by spec_tests.zig)''),
     (''soundness_guard_opaque_reject.mc'', ''opaque private-field reject fixture; positive impl cannot be chunk-isolated (phase=sema; owned by spec_tests.zig)''),
     (''soundness_orphan_impl_reject.mc'', ''orphan-impl reject fixture (phase=sema; owned by spec_tests.zig)''),
     (''traits_effect_sleep_in_atomic.mc'', ''effect-typed callees are EXPECT_ERROR-stripped, leaving dangling refs (phase=parse,sema; owned by spec_tests.zig)''),
     (''traits_orphan_opaque_reject.mc'', ''pure compile_error fixture; residue cannot be chunk-isolated after EXPECT_ERROR stripping (phase=sema; owned by spec_tests.zig)''),
     (''traits_orphan_nonopaque_reject.mc'', ''pure compile_error fixture with std import; residue cannot be chunk-isolated after EXPECT_ERROR stripping (phase=sema; owned by spec_tests.zig)''),
     (''type_arg_and_trivial_drop_reject.mc'', ''pure compile_error fixture; stripping rejected declarations leaves only an unspecialized comptime-type helper template (phase=parse,sema; owned by spec_tests.zig)'')]"

definition run_opt :: "string \<Rightarrow> string \<Rightarrow> bool \<Rightarrow> proc io" where
  "run_opt ir passes emit =
     run_text ([''opt'', ''-passes='' @ passes] @ (if emit then [''-S'', ''-o'', ''-''] else [''-disable-output''])) ir"

definition unlink_if_exists :: "string \<Rightarrow> unit io" where
  "unlink_if_exists path = io_bind (file_now path) (\<lambda>c. if c = None then io_ret () else unlink path)"

definition run_llc_object :: "string \<Rightarrow> string \<Rightarrow> proc io" where
  "run_llc_object ll ir =
     (let obj = ll @ ''.o'' in
      io_bind (write_file ll ir) (\<lambda>_.
      finally_do
        (io_bind (run_text [''llc'', ''-mtriple='' @ OBJ_TRIPLE, ''-filetype=obj'', ll, ''-o'', obj] []) (\<lambda>lowered.
           if returncode lowered \<noteq> 0 then io_ret lowered
           else
             io_bind (file_now obj) (\<lambda>c.
               io_ret (if empty_or_missing c then lowered\<lparr>returncode := 1, stderr := ''llc produced an empty object''\<rparr> else lowered))))
        (io_bind (unlink ll) (\<lambda>_. unlink_if_exists obj))))"

text \<open>From the emitted module on.\<close>

definition opt_stages :: "string \<Rightarrow> proc \<Rightarrow> string \<Rightarrow> verdict io" where
  "opt_stages ll emit source =
     (if returncode emit \<noteq> 0 then bad_stage ''EMIT'' emit
      else
        (case forbidden_assumption (stdout emit) source of
           Some f \<Rightarrow> io_ret (Some (''ASSUMPTION'', assumption_text f))
         | None \<Rightarrow>
             io_bind (run_opt (stdout emit) ''verify'' False) (\<lambda>verified.
               if returncode verified \<noteq> 0 then bad_stage ''OPT-VERIFY'' verified
               else
                 io_bind (run_opt (stdout emit) ''default<O2>'' True) (\<lambda>o2.
                   if returncode o2 \<noteq> 0 then bad_stage ''OPT-O2'' o2
                   else
                     io_bind (run_llc_object ll (stdout o2)) (\<lambda>lowered.
                       if returncode lowered \<noteq> 0 then bad_stage ''LLC-O2'' lowered else io_ret None)))))"

definition check_module :: "string \<Rightarrow> string \<Rightarrow> string \<Rightarrow> string \<Rightarrow> string \<Rightarrow> bool \<Rightarrow> bool \<Rightarrow> verdict io" where
  "check_module mcc tmp ll source_path source extra_check preserve =
     (let emitted =
        (if preserve then run_text [mcc, ''emit-llvm'', source_path] []
         else with_temp tmp source (run_text [mcc, ''emit-llvm'', tmp] []));
        rest = io_bind emitted (\<lambda>emit. opt_stages ll emit source) in
      if extra_check then
        io_bind (run_text [mcc, ''check'', source_path] []) (\<lambda>check. if returncode check \<noteq> 0 then bad_stage ''CHECK'' check else rest)
      else rest)"

definition opt_one :: "string \<Rightarrow> (string \<Rightarrow> string) \<Rightarrow> (string \<Rightarrow> string) \<Rightarrow> string \<times> bool \<Rightarrow> (string \<times> nat \<times> verdict) io" where
  "opt_one mcc tmp ll = (\<lambda>(path, is_spec).
     io_bind (read_text path) (\<lambda>text.
     (let source = (if is_spec then valid_program text else text); n = (if is_spec then count_fns source else 0) in
      io_bind (check_module mcc (tmp path) (ll path) path source (\<not> is_spec) (\<not> is_spec)) (\<lambda>v. io_ret (basename path, n, v)))))"

definition opt_report :: "nat \<Rightarrow> nat \<Rightarrow> (string \<times> nat \<times> verdict) list \<Rightarrow> string list \<times> int" where
  "opt_report specs c_emits rs =
     (let oos = sort (failures_of (exempted OPT_OUT) rs); bad = sort (failures_of (\<lambda>n. \<not> exempted OPT_OUT n) rs) in
      ([''LLVM optimizer sweep: spec fixtures '' @ str_nat specs @ '' ('' @ str_nat (total_fns rs) @ '' valid functions), c_emit fixtures '' @ str_nat c_emits]
       @ section_of oos ''known out-of-scope fixtures (allowlisted, not failing the gate):''
           (map (\<lambda>(n, k, m). failure_line (n, k, m) @ gap8 @ ''reason: '' @ reason_in OPT_OUT n) oos)
       @ (if bad \<noteq> [] then (''FAIL: '' @ str_nat (length bad) @ '' LLVM module(s) failed optimizer verification:'') # map failure_line bad
          else [''PASS: emitted LLVM modules pass hidden-assumption, verifier, O2 pipeline, and optimized object checks'']),
       if bad \<noteq> [] then 1 else 0))"

definition opt_tasks :: "string list \<Rightarrow> string list \<Rightarrow> (string \<times> bool) list" where
  "opt_tasks specs c_emits = map (\<lambda>p. (p, True)) (sort specs) @ map (\<lambda>p. (p, False)) (sort c_emits)"

definition opt_main :: "string \<Rightarrow> (string \<Rightarrow> string) \<Rightarrow> (string \<Rightarrow> string) \<Rightarrow> string list \<Rightarrow> string list \<Rightarrow> (string list \<times> int) io" where
  "opt_main mcc tmp ll specs c_emits =
     io_bind (found_tool ''opt'') (\<lambda>opt.
       if \<not> opt then io_ret ([''SKIP: llvm-opt-sweep (opt not found)''], 0)
       else
         io_bind (found_tool ''llc'') (\<lambda>llc.
           if \<not> llc then io_ret ([''SKIP: llvm-opt-sweep (llc not found)''], 0)
           else
             io_bind (io_map (opt_one mcc tmp ll) (opt_tasks specs c_emits)) (\<lambda>rs.
               io_ret (opt_report (length specs) (length c_emits) rs))))"

end
