(* ===== verification/Llvm_Sweeps_Props.thy ===== *)
theory Llvm_Sweeps_Props
  imports Llvm_Sweeps
begin

text \<open>
  What the LLVM sweeps decide: which text of a module passes the scan for forbidden assumptions, when a gate ends
  with status 0, and what a passing optimizer sweep has seen of every module in scope.
\<close>

section \<open>The scan\<close>

definition delimited :: "string \<Rightarrow> string \<Rightarrow> bool" where
  "delimited t l \<longleftrightarrow> (\<exists>u v. l = u @ t @ v \<and> (u = [] \<or> lead_char (last u)) \<and> (v = [] \<or> trail_char (hd v)))"

lemma mem_token:
  assumes "(a, r, g) \<in> set (token_re m p s)"
  obtains lead rest t rest2 g2 where "(p = None \<and> lead = []) \<or> (\<exists>c. lead_char c \<and> lead = [c])" and "s = lead @ rest"
    and "(t, rest2, g2) \<in> set (m (after p lead) rest)" and "(\<exists>c. trail_char c \<and> rest2 = c # r) \<or> rest2 = [] \<or> rest2 = nl"
proof -
  obtain lead y rest gx gy where l: "(lead, rest, gx) \<in> set (rx_group (rx_alts [rx_begin, rx_cls lead_char]) p s)"
    and y: "(y, r, gy) \<in> set (rx_seq m (rx_seq (rx_group (rx_alts [rx_cls trail_char, rx_end])) rx_empty) (after p lead) rest)"
    using assms unfolding token_re_def rx_seqs_simps mem_rx_seq [of a r g] by blast
  obtain t z rest2 g2 gz where t: "(t, rest2, g2) \<in> set (m (after p lead) rest)"
    and z: "(z, r, gz) \<in> set (rx_seq (rx_group (rx_alts [rx_cls trail_char, rx_end])) rx_empty (after (after p lead) t) rest2)"
    using y unfolding mem_rx_seq [of y r gy] by blast
  have "(p = None \<and> lead = []) \<or> (\<exists>c. lead_char c \<and> lead = [c])" "s = lead @ rest" using l by (auto simp: rx_mem)
  moreover have "(\<exists>c. trail_char c \<and> rest2 = c # r) \<or> rest2 = [] \<or> rest2 = nl" using z by (auto simp: rx_mem)
  ultimately show thesis using t that by blast
qed

lemma token_search:
  assumes m: "\<And>p s a r g. (a, r, g) \<in> set (m p s) \<Longrightarrow> a \<in> T \<and> s = a @ r"
    and m': "\<And>p s t r. t \<in> T \<Longrightarrow> s = t @ r \<Longrightarrow> \<exists>g. (t, r, g) \<in> set (m p s)"
    and nl: "CHR 0x0A \<notin> set l"
  shows "re_search (token_re m) l \<noteq> None \<longleftrightarrow> (\<exists>t \<in> T. delimited t l)"
proof
  assume "re_search (token_re m) l \<noteq> None"
  then obtain u s where l: "l = u @ s" and "token_re m (after None u) s \<noteq> []"
    by (auto simp: re_search_def search_none)
  then obtain a r g where "(a, r, g) \<in> set (token_re m (after None u) s)"
    by (cases "token_re m (after None u) s") (metis list.set_intros(1) prod_cases3)+
  then obtain lead rest t rest2 g2 where lead: "(after None u = None \<and> lead = []) \<or> (\<exists>c. lead_char c \<and> lead = [c])" and s: "s = lead @ rest"
    and t: "(t, rest2, g2) \<in> set (m (after (after None u) lead) rest)" and trail: "(\<exists>c. trail_char c \<and> rest2 = c # r) \<or> rest2 = [] \<or> rest2 = nl"
    by (rule mem_token)
  have "rest2 \<noteq> nl" using nl l s m [OF t] by auto
  moreover have "u @ lead = [] \<or> lead_char (last (u @ lead))"
    using lead by (auto simp: after_def split: if_splits)
  ultimately have "delimited t l"
    unfolding delimited_def using l s m [OF t] trail by (intro exI [of _ "u @ lead"] exI [of _ rest2]) auto
  with m [OF t] show "\<exists>t \<in> T. delimited t l" by blast
next
  assume "\<exists>t \<in> T. delimited t l"
  then obtain t u v where t: "t \<in> T" and l: "l = u @ t @ v" and u: "u = [] \<or> lead_char (last u)" and v: "v = [] \<or> trail_char (hd v)"
    by (auto simp: delimited_def)
  obtain x lead where x: "u = x @ lead" and lead: "(after None x = None \<and> lead = []) \<or> (\<exists>c. lead_char c \<and> lead = [c])"
  proof (cases u rule: rev_cases)
    case Nil
    then show thesis using that [of "[]" "[]"] by (simp add: after_def)
  next
    case (snoc y c)
    then show thesis using u that [of y "[c]"] by simp
  qed
  obtain g where g: "(t, v, g) \<in> set (m (after (after None x) lead) (t @ v))" using m' [OF t refl] by blast
  obtain trail r where trail: "v = trail @ r" "(trail = [] \<and> r = []) \<or> (\<exists>c. trail_char c \<and> trail = [c])"
  proof (cases v)
    case Nil
    then show thesis using that [of "[]" "[]"] by simp
  next
    case (Cons c r)
    then show thesis using v that [of "[c]" r] by simp
  qed
  have "(lead @ t @ trail, r, [lead] @ g @ [trail]) \<in> set (token_re m (after None x) (lead @ t @ v))"
  proof -
    have 1: "(lead, t @ v, [lead]) \<in> set (rx_group (rx_alts [rx_begin, rx_cls lead_char]) (after None x) (lead @ t @ v))"
      using lead by (auto simp: rx_mem)
    have 3: "(trail, r, [trail]) \<in> set (rx_group (rx_alts [rx_cls trail_char, rx_end]) p v)" for p
      using trail by (auto simp: rx_mem)
    show ?thesis
      unfolding token_re_def rx_seqs_simps mem_rx_seq
      using 1 g 3 by (fastforce simp: rx_empty_def)
  qed
  then have "token_re m (after None x) (lead @ t @ v) \<noteq> []" by auto
  moreover have "l = x @ (lead @ t @ v)" by (simp add: l x)
  ultimately show "re_search (token_re m) l \<noteq> None" unfolding re_search_def search_none by blast
qed

lemma forbidden_search: "CHR 0x0A \<notin> set l \<Longrightarrow> re_search FORBIDDEN_RE l \<noteq> None \<longleftrightarrow> (\<exists>t \<in> set FORBIDDEN_ASSUMPTIONS. delimited t l)"
  unfolding FORBIDDEN_RE_def by (rule token_search) (auto simp: rx_mem)

lemma reassoc_search: "CHR 0x0A \<notin> set l \<Longrightarrow> re_search REASSOC_RE l \<noteq> None \<longleftrightarrow> delimited ''reassoc'' l"
  unfolding REASSOC_RE_def using token_search [of "rx_lit ''reassoc''" "{''reassoc''}" l] by (auto simp: mem_rx_lit)

definition clean_line :: "string \<Rightarrow> string \<Rightarrow> bool" where
  "clean_line source l \<longleftrightarrow>
     \<not> list_ex (\<lambda>t. delimited t l) FORBIDDEN_ASSUMPTIONS \<and>
     (\<not> delimited ''reassoc'' l \<or> contains l ''fadd reassoc'' \<and> contains source ''reduce.sum_fast'')"

lemma break_nl: "\<not> is_line_break c \<Longrightarrow> c \<noteq> CHR 0x0A"
  by (auto simp: is_line_break_def)

lemma splitlines_no_nl: "l \<in> set (splitlines_acc acc s) \<Longrightarrow> CHR 0x0A \<notin> set acc \<Longrightarrow> CHR 0x0A \<notin> set l"
proof (induction acc s rule: splitlines_acc.induct)
  case (3 acc c d cs)
  then show ?case using break_nl [of c] by (fastforce split: if_splits)
qed (auto split: if_splits dest: break_nl)

lemma forbidden_lines_none:
  "(\<And>l. l \<in> set ls \<Longrightarrow> CHR 0x0A \<notin> set l) \<Longrightarrow> forbidden_lines source n ls = None \<longleftrightarrow> list_all (clean_line source) ls"
proof (induction ls arbitrary: n)
  case (Cons l ls)
  have nl: "CHR 0x0A \<notin> set l" using Cons.prems by simp
  note f = forbidden_search [OF nl] and r = reassoc_search [OF nl]
  have IH: "forbidden_lines source (n + 1) ls = None \<longleftrightarrow> list_all (clean_line source) ls" using Cons by simp
  show ?case
  proof (cases "re_search FORBIDDEN_RE l")
    case None
    with f have "\<not> list_ex (\<lambda>t. delimited t l) FORBIDDEN_ASSUMPTIONS" by (auto simp: list_ex_iff)
    then have "clean_line source l \<longleftrightarrow> \<not> (re_search REASSOC_RE l \<noteq> None \<and> \<not> (contains l ''fadd reassoc'' \<and> contains source ''reduce.sum_fast''))"
      using r by (auto simp: clean_line_def)
    with None IH show ?thesis by simp
  next
    case (Some x)
    with f have "list_ex (\<lambda>t. delimited t l) FORBIDDEN_ASSUMPTIONS" by (auto simp: list_ex_iff)
    with Some show ?thesis by (cases x) (simp add: clean_line_def)
  qed
qed simp

text \<open>
  C21. The scan of the LLVM sweeps is exact: a module passes when no line holds one of the fifteen
  assumption tokens between delimiters and every delimited \<open>reassoc\<close> is on a line with \<open>fadd reassoc\<close> of a
  source that asks for \<open>reduce.sum_fast\<close>, and only then.
\<close>

theorem forbidden_assumption_exact:
  "forbidden_assumption ir source = None \<longleftrightarrow> list_all (clean_line source) (splitlines ir)"
  unfolding forbidden_assumption_def
  by (rule forbidden_lines_none) (auto simp: splitlines_def dest: splitlines_no_nl)

lemma clean_exact: "forbidden_assumption ir source = None \<Longrightarrow> list_all (clean_line source) (splitlines ir)"
  unfolding forbidden_assumption_def
  by (subst forbidden_lines_none [symmetric]) (auto simp: splitlines_def dest: splitlines_no_nl)

section \<open>The gates\<close>

definition all_pass :: "(string \<Rightarrow> bool) \<Rightarrow> (string \<times> nat \<times> verdict) list \<Rightarrow> bool" where
  "all_pass exempt rs \<longleftrightarrow> list_all (\<lambda>(n, k, v). v = None \<or> exempt n) rs"

lemma failures_of_empty: "failures_of keep rs = [] \<longleftrightarrow> all_pass (\<lambda>n. \<not> keep n) rs"
proof (induction rs)
  case (Cons r rs)
  obtain n k v where "r = (n, k, v)" by (cases r)
  with Cons show ?case by (cases v) (auto simp: failures_of_def all_pass_def)
qed (simp add: failures_of_def all_pass_def)

lemma gate_status:
  "snd (spec_llvm_report rs) = (if all_pass (exempted SPEC_LLVM_OUT) rs then 0 else 1)"
  "snd (c_emit_report rs) = (if all_pass (\<lambda>n. False) rs then 0 else 1)"
  "snd (spec_obj_report rs) = (if all_pass (exempted SPEC_OBJ_OUT) rs then 0 else 1)"
  "snd (c_obj_report rs) = (if all_pass (\<lambda>n. False) rs then 0 else 1)"
  "snd (opt_report specs c_emits rs) = (if all_pass (exempted OPT_OUT) rs then 0 else 1)"
proof -
  have *: "sort xs = [] \<longleftrightarrow> xs = []" for xs :: "failure list" by (metis length_0_conv length_sort)
  show "snd (spec_llvm_report rs) = (if all_pass (exempted SPEC_LLVM_OUT) rs then 0 else 1)"
    "snd (c_emit_report rs) = (if all_pass (\<lambda>n. False) rs then 0 else 1)"
    "snd (spec_obj_report rs) = (if all_pass (exempted SPEC_OBJ_OUT) rs then 0 else 1)"
    "snd (c_obj_report rs) = (if all_pass (\<lambda>n. False) rs then 0 else 1)"
    "snd (opt_report specs c_emits rs) = (if all_pass (exempted OPT_OUT) rs then 0 else 1)"
    by (simp_all add: spec_llvm_report_def c_emit_report_def spec_obj_report_def c_obj_report_def opt_report_def Let_def * failures_of_empty)
qed

section \<open>What a passing optimizer sweep has seen\<close>

lemma io_bind_Inr: "io_bind m f h w = (Inr y, w') \<longleftrightarrow> (\<exists>x w1. m h w = (Inr x, w1) \<and> f x h w1 = (Inr y, w'))"
  by (auto simp: io_bind_def split: prod.splits sum.splits)

lemma io_ret_iff: "io_ret x h w = (r, w') \<longleftrightarrow> r = Inr x \<and> w' = w"
  by (auto simp: io_ret_def)

lemma finally_Inr: "finally_do m c h w = (Inr x, w') \<Longrightarrow> \<exists>w1 y. m h w = (Inr x, w1) \<and> c h w1 = (Inr y, w')"
  by (auto simp: finally_do_def split: prod.splits sum.splits)

lemma io_map_all2: "io_map f xs h w = (Inr ys, w') \<Longrightarrow> list_all2 (\<lambda>x y. \<exists>w1 w2. f x h w1 = (Inr y, w2)) xs ys"
proof (induction xs arbitrary: w ys)
  case (Cons x xs)
  then show ?case by (fastforce simp: io_bind_Inr io_ret_iff)
qed (simp add: io_ret_iff)

lemma all2_member: "list_all2 P xs ys \<Longrightarrow> x \<in> set xs \<Longrightarrow> \<exists>y \<in> set ys. P x y"
  by (metis in_set_conv_nth list_all2_conv_all_nth)

text \<open>A command answered with status 0, in some state of the run; an object file that is there and not empty.\<close>

definition succeeds :: "host \<Rightarrow> string list \<Rightarrow> string \<Rightarrow> string \<Rightarrow> bool" where
  "succeeds h argv inp out \<longleftrightarrow> (\<exists>w w' p. run_text argv inp h w = (Inr p, w') \<and> returncode p = 0 \<and> stdout p = out)"

definition lowers :: "host \<Rightarrow> string \<Rightarrow> string \<Rightarrow> bool" where
  "lowers h ll ir \<longleftrightarrow>
     (\<exists>w w' w'' p c. write_file ll ir h w = (Inr (), w') \<and>
       run_text [''llc'', ''-mtriple='' @ OBJ_TRIPLE, ''-filetype=obj'', ll, ''-o'', ll @ ''.o''] [] h w' = (Inr p, w'') \<and> returncode p = 0 \<and>
       w_files w'' (ll @ ''.o'') = Some c \<and> c \<noteq> [])"

definition module_accepted :: "host \<Rightarrow> string \<Rightarrow> string \<Rightarrow> string \<Rightarrow> string \<Rightarrow> bool" where
  "module_accepted h mcc emit_path ll source \<longleftrightarrow>
     (\<exists>ir v o2. succeeds h [mcc, ''emit-llvm'', emit_path] [] ir \<and> list_all (clean_line source) (splitlines ir) \<and>
       succeeds h [''opt'', ''-passes=verify'', ''-disable-output''] ir v \<and>
       succeeds h [''opt'', ''-passes=default<O2>'', ''-S'', ''-o'', ''-''] ir o2 \<and> lowers h ll o2)"

lemma llc_object_accepts:
  assumes "run_llc_object ll ir h w = (Inr p, w')" and "returncode p = 0"
  shows "lowers h ll ir"
proof -
  obtain w1 where w1: "write_file ll ir h w = (Inr (), w1)" and
    f: "finally_do (io_bind (run_text [''llc'', ''-mtriple='' @ OBJ_TRIPLE, ''-filetype=obj'', ll, ''-o'', ll @ ''.o''] []) (\<lambda>lowered.
           if returncode lowered \<noteq> 0 then io_ret lowered
           else io_bind (file_now (ll @ ''.o'')) (\<lambda>c.
               io_ret (if empty_or_missing c then lowered\<lparr>returncode := 1, stderr := ''llc produced an empty object''\<rparr> else lowered))))
        (io_bind (unlink ll) (\<lambda>_. unlink_if_exists (ll @ ''.o''))) h w1 = (Inr p, w')"
    using assms(1) by (auto simp: run_llc_object_def Let_def io_bind_Inr)
  obtain q w2 where q: "run_text [''llc'', ''-mtriple='' @ OBJ_TRIPLE, ''-filetype=obj'', ll, ''-o'', ll @ ''.o''] [] h w1 = (Inr q, w2)"
    and p: "if returncode q \<noteq> 0 then p = q else p = (if empty_or_missing (w_files w2 (ll @ ''.o'')) then q\<lparr>returncode := 1, stderr := ''llc produced an empty object''\<rparr> else q)"
  proof -
    from finally_Inr [OF f] obtain w3 where
      "io_bind (run_text [''llc'', ''-mtriple='' @ OBJ_TRIPLE, ''-filetype=obj'', ll, ''-o'', ll @ ''.o''] []) (\<lambda>lowered.
           if returncode lowered \<noteq> 0 then io_ret lowered
           else io_bind (file_now (ll @ ''.o'')) (\<lambda>c.
               io_ret (if empty_or_missing c then lowered\<lparr>returncode := 1, stderr := ''llc produced an empty object''\<rparr> else lowered))) h w1 = (Inr p, w3)"
      by blast
    then obtain q w2 where q: "run_text [''llc'', ''-mtriple='' @ OBJ_TRIPLE, ''-filetype=obj'', ll, ''-o'', ll @ ''.o''] [] h w1 = (Inr q, w2)"
      and r: "(if returncode q \<noteq> 0 then io_ret q
           else io_bind (file_now (ll @ ''.o'')) (\<lambda>c.
               io_ret (if empty_or_missing c then q\<lparr>returncode := 1, stderr := ''llc produced an empty object''\<rparr> else q))) h w2 = (Inr p, w3)"
      unfolding io_bind_Inr by blast
    show thesis by (rule that [OF q]) (use r in \<open>auto simp: io_bind_Inr io_ret_iff file_now_def split: if_splits\<close>)
  qed
  then have "returncode q = 0" and "\<not> empty_or_missing (w_files w2 (ll @ ''.o''))"
    using assms(2) by (auto split: if_splits)
  then show ?thesis unfolding lowers_def empty_or_missing_def using w1 q by (metis not_None_eq)
qed

lemma opt_stages_accept:
  assumes "opt_stages ll emit source h w = (Inr None, w')"
  shows "returncode emit = 0 \<and> list_all (clean_line source) (splitlines (stdout emit)) \<and>
    (\<exists>v. succeeds h [''opt'', ''-passes=verify'', ''-disable-output''] (stdout emit) v) \<and>
    (\<exists>o2. succeeds h [''opt'', ''-passes=default<O2>'', ''-S'', ''-o'', ''-''] (stdout emit) o2 \<and> lowers h ll o2)"
proof -
  have rc: "returncode emit = 0" and f: "forbidden_assumption (stdout emit) source = None"
    using assms by (auto simp: opt_stages_def io_ret_iff split: if_splits option.splits)
  obtain v w1 where v: "run_opt (stdout emit) ''verify'' False h w = (Inr v, w1)" "returncode v = 0" and
    r: "io_bind (run_opt (stdout emit) ''default<O2>'' True) (\<lambda>o2.
          if returncode o2 \<noteq> 0 then bad_stage ''OPT-O2'' o2
          else io_bind (run_llc_object ll (stdout o2)) (\<lambda>lowered. if returncode lowered \<noteq> 0 then bad_stage ''LLC-O2'' lowered else io_ret None)) h w1 = (Inr None, w')"
    using assms rc f by (auto simp: opt_stages_def io_bind_Inr io_ret_iff split: if_splits)
  obtain o2 w2 w3 p where o: "run_opt (stdout emit) ''default<O2>'' True h w1 = (Inr o2, w2)" "returncode o2 = 0"
    and p: "run_llc_object ll (stdout o2) h w2 = (Inr p, w3)" "returncode p = 0"
    using r by (auto simp: io_bind_Inr io_ret_iff split: if_splits)
  have "succeeds h [''opt'', ''-passes=verify'', ''-disable-output''] (stdout emit) (stdout v)"
    using v by (auto simp: succeeds_def run_opt_def)
  moreover have "succeeds h [''opt'', ''-passes=default<O2>'', ''-S'', ''-o'', ''-''] (stdout emit) (stdout o2)"
    using o by (auto simp: succeeds_def run_opt_def)
  ultimately show ?thesis using rc clean_exact [OF f] llc_object_accepts [OF p] by blast
qed

lemma check_module_accepts:
  assumes "check_module mcc tmp ll path source extra preserve h w = (Inr None, w')"
  shows "module_accepted h mcc (if preserve then path else tmp) ll source"
proof -
  let ?emitted = "if preserve then run_text [mcc, ''emit-llvm'', path] [] else with_temp tmp source (run_text [mcc, ''emit-llvm'', tmp] [])"
  obtain w0 where "io_bind ?emitted (\<lambda>emit. opt_stages ll emit source) h w0 = (Inr None, w')"
    using assms by (auto simp: check_module_def Let_def io_bind_Inr io_ret_iff split: if_splits)
  then obtain emit w1 where e: "?emitted h w0 = (Inr emit, w1)" and o: "opt_stages ll emit source h w1 = (Inr None, w')"
    by (auto simp only: io_bind_Inr)
  have "\<exists>w w'. run_text [mcc, ''emit-llvm'', if preserve then path else tmp] [] h w = (Inr emit, w')"
  proof (cases preserve)
    case False
    with e show ?thesis by (auto simp: with_temp_def io_bind_Inr dest!: finally_Inr)
  qed (use e in auto)
  then show ?thesis using opt_stages_accept [OF o] unfolding module_accepted_def succeeds_def by blast
qed

definition task_accepted :: "host \<Rightarrow> string \<Rightarrow> (string \<Rightarrow> string) \<Rightarrow> (string \<Rightarrow> string) \<Rightarrow> string \<times> bool \<Rightarrow> bool" where
  "task_accepted h mcc tmp ll = (\<lambda>(path, is_spec).
     \<exists>w w' text. read_text path h w = (Inr text, w') \<and>
       (if is_spec then module_accepted h mcc (tmp path) (ll path) (valid_program text) else module_accepted h mcc path (ll path) text))"

lemma opt_one_accepts:
  assumes "opt_one mcc tmp ll (path, is_spec) h w = (Inr (n, k, None), w')"
  shows "n = basename path \<and> task_accepted h mcc tmp ll (path, is_spec)"
proof -
  obtain src w1 w2 where r: "read_text path h w = (Inr src, w1)" and n: "n = basename path" and
    c: "check_module mcc (tmp path) (ll path) path (if is_spec then valid_program src else src) (\<not> is_spec) (\<not> is_spec) h w1 = (Inr None, w2)"
    using assms by (auto simp: opt_one_def Let_def io_bind_Inr io_ret_iff)
  show ?thesis using n r check_module_accepts [OF c] by (auto simp: task_accepted_def split: if_splits)
qed

lemma opt_one_name: "opt_one mcc tmp ll (path, is_spec) h w = (Inr (n, k, v), w') \<Longrightarrow> n = basename path"
  by (auto simp: opt_one_def Let_def io_bind_Inr io_ret_iff)

text \<open>
  C20. When the optimizer sweep ends with status 0 and did not skip, every spec fixture and every c_emit
  fixture whose base name is not on the list of exemptions was read, it (for a spec fixture: its valid
  part) was compiled to LLVM by a run that succeeded, the emitted module holds no forbidden assumption,
  the verifier and the O2 pipeline accepted it, and the optimized module was lowered to an object that is
  not empty. Nothing is claimed of a fixture whose base name is on the list, and the list is keyed by base
  name alone: contrary to the comment on it, which says that c_emit fixtures are never keyed, it exempts
  a c_emit fixture that has a listed base name as well (\<open>listed_c_emit_ignored\<close> below).
\<close>

theorem opt_sweep_sound:
  assumes "opt_main mcc tmp ll specs c_emits h w = (Inr (ls, 0), w')"
    and "ls = head # rest" and "\<not> startswith head ''SKIP''"
  shows "list_all (\<lambda>path. exempted OPT_OUT (basename path) \<or> task_accepted h mcc tmp ll (path, True)) specs \<and>
    list_all (\<lambda>path. exempted OPT_OUT (basename path) \<or> task_accepted h mcc tmp ll (path, False)) c_emits"
proof -
  obtain rs w1 where m: "io_map (opt_one mcc tmp ll) (opt_tasks specs c_emits) h w1 = (Inr rs, w')"
    and z: "snd (opt_report (length specs) (length c_emits) rs) = 0"
    using assms by (auto simp: opt_main_def io_bind_Inr io_ret_iff startswith_def split: if_splits) (metis snd_conv)
  have pass: "all_pass (exempted OPT_OUT) rs" using z unfolding gate_status by (simp split: if_splits)
  have "exempted OPT_OUT (basename path) \<or> task_accepted h mcc tmp ll (path, is_spec)" if t: "(path, is_spec) \<in> set (opt_tasks specs c_emits)" for path is_spec
  proof -
    obtain n k v w2 w3 where r: "(n, k, v) \<in> set rs" and o: "opt_one mcc tmp ll (path, is_spec) h w2 = (Inr (n, k, v), w3)"
    proof -
      obtain y where y: "y \<in> set rs" "\<exists>w1 w2. opt_one mcc tmp ll (path, is_spec) h w1 = (Inr y, w2)"
        using all2_member [OF io_map_all2 [OF m] t] by blast
      obtain n k v where "y = (n, k, v)" by (rule prod_cases3)
      with y that show thesis by blast
    qed
    have "v = None \<or> exempted OPT_OUT n" using pass r by (auto simp: all_pass_def list_all_iff)
    then show ?thesis
    proof
      assume "v = None"
      from opt_one_accepts [OF o [unfolded this]] show ?thesis by blast
    next
      assume "exempted OPT_OUT n"
      then show ?thesis unfolding opt_one_name [OF o] by blast
    qed
  qed
  then show ?thesis by (auto simp: list_all_iff opt_tasks_def)
qed

text \<open>A machine on which every tool succeeds and leaves an object behind.\<close>

definition llvm_host :: host where
  "llvm_host = \<lparr>h_run = (\<lambda>argv inp vars w.
       Inr (\<lparr>returncode = 0, stdout = ''ret'', stderr = [], elapsed = 0\<rparr>, (w_files w)(''/tmp/t.ll.o'' \<mapsto> ''ELF''))),
     h_denied = (\<lambda>p w. None), h_mkdtemp = (\<lambda>w. Inr ''/tmp/d'')\<rparr>"

definition llvm_files :: files where
  "llvm_files = map_of [(''a.mc'', ''fn f() {}''), (''b.mc'', ''fn g() {}'')]"

definition llvm_run :: "(py_exc + string list \<times> int) \<times> world" where
  "llvm_run = opt_main ''mcc'' (\<lambda>p. ''/tmp/t.mc'') (\<lambda>p. ''/tmp/t.ll'') [''a.mc''] [''b.mc''] llvm_host \<lparr>w_files = llvm_files, w_clock = 0\<rparr>"

lemma llvm_run_passes:
  "fst llvm_run = Inr ([''LLVM optimizer sweep: spec fixtures 1 (1 valid functions), c_emit fixtures 1'',
     ''PASS: emitted LLVM modules pass hidden-assumption, verifier, O2 pipeline, and optimized object checks''], 0)"
  by code_simp

theorem opt_sweep_sound_witness:
  "task_accepted llvm_host ''mcc'' (\<lambda>p. ''/tmp/t.mc'') (\<lambda>p. ''/tmp/t.ll'') (''a.mc'', True) \<and>
   task_accepted llvm_host ''mcc'' (\<lambda>p. ''/tmp/t.mc'') (\<lambda>p. ''/tmp/t.ll'') (''b.mc'', False)"
proof -
  obtain w' where run: "opt_main ''mcc'' (\<lambda>p. ''/tmp/t.mc'') (\<lambda>p. ''/tmp/t.ll'') [''a.mc''] [''b.mc''] llvm_host \<lparr>w_files = llvm_files, w_clock = 0\<rparr> =
      (Inr ([''LLVM optimizer sweep: spec fixtures 1 (1 valid functions), c_emit fixtures 1'',
        ''PASS: emitted LLVM modules pass hidden-assumption, verifier, O2 pipeline, and optimized object checks''], 0), w')"
    using llvm_run_passes unfolding llvm_run_def by (metis prod.collapse)
  have out: "\<not> exempted OPT_OUT (basename ''a.mc'')" "\<not> exempted OPT_OUT (basename ''b.mc'')" by code_simp+
  from opt_sweep_sound [OF run refl] show ?thesis
    using out by (simp add: opt_tasks_def startswith_def)
qed

section \<open>The allowlists\<close>

lemma all_pass_append: "all_pass exempt (rs @ rs') \<longleftrightarrow> all_pass exempt rs \<and> all_pass exempt rs'"
  by (simp add: all_pass_def)

text \<open>
  C39. The list of the optimizer sweep exempts c_emit fixtures too, although its comment says that they are
  never keyed: whatever the kind of a fixture, if its base name is listed then the verdict that checking it
  returns does not change the status of the sweep, wherever it stands among the results. The base names of
  \<open>tests/c_emit/reflection.mc\<close> and \<open>tests/c_emit/pointer_view_conversions.mc\<close> are listed.
\<close>

theorem listed_c_emit_ignored:
  assumes "exempted OPT_OUT (basename path)" and "opt_one mcc tmp ll (path, is_spec) h w = (Inr r, w')"
  shows "snd (opt_report m n (rs @ r # rs')) = snd (opt_report m n (rs @ rs')) \<and>
    exempted OPT_OUT (basename ''tests/c_emit/reflection.mc'') \<and>
    exempted OPT_OUT (basename ''tests/c_emit/pointer_view_conversions.mc'')"
proof (intro conjI)
  obtain k j v where r: "r = (k, j, v)" by (rule prod_cases3)
  have "k = basename path" using opt_one_name assms(2) unfolding r by blast
  then have "all_pass (exempted OPT_OUT) [r]" using assms(1) by (simp add: all_pass_def r)
  then show "snd (opt_report m n (rs @ r # rs')) = snd (opt_report m n (rs @ rs'))"
    using all_pass_append [of _ "[r]" rs'] by (simp add: gate_status all_pass_append)
  show "exempted OPT_OUT (basename ''tests/c_emit/reflection.mc'')"
    "exempted OPT_OUT (basename ''tests/c_emit/pointer_view_conversions.mc'')" by code_simp+
qed

text \<open>A compiler that fails on every input: the sweep of one c_emit fixture with a listed name reports no failure.\<close>

definition broken_host :: host where
  "broken_host = \<lparr>h_run = (\<lambda>argv inp vars w. Inr (\<lparr>returncode = 1, stdout = [], stderr = ''boom'', elapsed = 0\<rparr>, w_files w)),
     h_denied = (\<lambda>p w. None), h_mkdtemp = (\<lambda>w. Inr ''/tmp/d'')\<rparr>"

definition broken_run :: "(py_exc + string \<times> nat \<times> verdict) \<times> world" where
  "broken_run = opt_one ''mcc'' (\<lambda>p. ''/tmp/t.mc'') (\<lambda>p. ''/tmp/t.ll'') (''tests/c_emit/reflection.mc'', False) broken_host
     \<lparr>w_files = map_of [(''tests/c_emit/reflection.mc'', ''fn f() {}'')], w_clock = 0\<rparr>"

lemma broken_run_fails: "case fst broken_run of Inr (n, k, Some v) \<Rightarrow> True | _ \<Rightarrow> False"
  by code_simp

theorem listed_c_emit_ignored_witness:
  "\<exists>n k v. fst broken_run = Inr (n, k, Some v) \<and> snd (opt_report 0 1 [(n, k, Some v)]) = 0"
proof -
  obtain n k v where f: "fst broken_run = Inr (n, k, Some v)"
    using broken_run_fails by (auto split: sum.splits option.splits prod.splits)
  have "exempted OPT_OUT (basename ''tests/c_emit/reflection.mc'')" by code_simp
  moreover obtain w' where "broken_run = (Inr (n, k, Some v), w')" using f by (metis prod.collapse)
  ultimately have "snd (opt_report 0 1 ([] @ (n, k, Some v) # [])) = snd (opt_report 0 1 ([] @ []))"
    unfolding broken_run_def by (intro listed_c_emit_ignored [THEN conjunct1])
  moreover have "snd (opt_report 0 1 []) = 0" by (simp add: gate_status all_pass_def)
  ultimately show ?thesis using f by simp
qed

text \<open>
  The three LLVM sweeps exempt the same fixtures. The C sweep, which \<open>spec-llvm-sweep.py\<close> says its list is kept
  in parity with, exempts two that they check and checks five that they exempt.
\<close>

lemma allowlists_parity:
  "set (map fst SPEC_OBJ_OUT) = set (map fst SPEC_LLVM_OUT) \<and> set (map fst OPT_OUT) = set (map fst SPEC_LLVM_OUT) \<and>
   filter (\<lambda>n. \<not> exempted SPEC_LLVM_OUT n) (map fst OUT_OF_SCOPE) = [''move_place.mc'', ''secret.mc''] \<and>
   filter swept (map fst SPEC_LLVM_OUT) = [''closure_typing.mc'', ''monomorphization_limits.mc'', ''monomorphize_pattern_type_mentions.mc'',
     ''soundness_address_class_cast.mc'', ''traits_effect_sleep_in_atomic.mc'']"
proof (intro conjI)
  show "set (map fst SPEC_OBJ_OUT) = set (map fst SPEC_LLVM_OUT)" by code_simp
  show "set (map fst OPT_OUT) = set (map fst SPEC_LLVM_OUT)" by code_simp
  show "filter (\<lambda>n. \<not> exempted SPEC_LLVM_OUT n) (map fst OUT_OF_SCOPE) = [''move_place.mc'', ''secret.mc'']" by code_simp
  show "filter swept (map fst SPEC_LLVM_OUT) = [''closure_typing.mc'', ''monomorphization_limits.mc'', ''monomorphize_pattern_type_mentions.mc'',
     ''soundness_address_class_cast.mc'', ''traits_effect_sleep_in_atomic.mc'']" by code_simp
qed

end
