(* ===== verification/Spec2Isabelle.thy ===== *)
theory Spec2Isabelle
  imports Mcref_Props Mcgen_Sound Mcgen_Move Mcmap_Verify Spec_Sweep Dev_Gates_Props Mcfuzz_Oracle_Runs Mcfuzz_Run
    Mcfuzz_Gen_Sound Spec_Emit_Props Llvm_Sweeps_Props
begin

text \<open>
  A verification library for the Python side of the Modern C repository: the fuzzers that generate programs and
  judge the compiler, and the tools that select, rewrite and check what its gates run on. The compiler itself
  is written in Zig and, like every other external tool, enters only through what the Python code does with
  its answers.

  \<^bold>\<open>The parts and how they interact.\<close> \<open>src/tools/fuzz/mcfuzz.py\<close> is the fuzzer. Its \<open>main\<close> draws seeds, prints one
  program per seed (\<open>Gen\<close>, \<open>async_program\<close>), hands it to one of fourteen oracles (\<open>oracle_*\<close>, called by \<open>run_one\<close> in a
  fresh directory), re-verifies suspected hangs serially, and reduces the findings: signatures, buckets,
  reproduce commands, minimized repros. The reference oracle calls \<open>src/tools/fuzz/mcref.py\<close>, which builds an
  abstract program, prints it as MC source and evaluates it in Python. The artifact oracle parses the rows that
  \<open>src/src/lower_c_map.zig\<close> writes. \<open>src/tools/toolchain/mcgen.py\<close> and \<open>mcgen_move.py\<close> are older generators with a fixed
  shape. \<open>src/tools/dev-gates.py\<close> maps changed files to gates; \<open>src/tools/toolchain/spec_sweep_lib.py\<close> cuts the
  rejected parts out of specification fixtures; \<open>src/tools/toolchain/mcmap-verify.py\<close> checks source-map bundles
  and metadata sidecars. \<open>backend_gap_lib.py\<close>, \<open>backend-expected-failures-test.py\<close> and \<open>spec-emit-sweep.py\<close> record,
  check and sweep the known failures of the C backend; \<open>spec-llvm-sweep.py\<close>, \<open>llvm-c-emit-sweep.py\<close>,
  \<open>spec-llvm-obj-sweep.py\<close>, \<open>llvm-c-obj-sweep.py\<close> and \<open>llvm-opt-sweep.py\<close> sweep the LLVM backend.

  \<^bold>\<open>Ground theories.\<close> \<open>Prelude\<close>: Python exceptions as a sum, the state-and-exception programs with their weakest
  preconditions (total: a \<open>wp\<close> fact says that the program returns), the locale \<open>loop_step\<close> for generating loops,
  dictionaries, decimal printing, masks. \<open>Py_Random\<close>: \<open>random.Random\<close> over a tape of draws, so that a theorem about
  every tape covers every seed; locale \<open>random_source\<close>. \<open>Py_Strings\<close>, \<open>Py_Regex\<close>: the string methods, globs and the
  backtracking matcher behind \<open>re\<close>. \<open>Py_Sha256\<close>: the digest. \<open>Py_Json\<close>: the decoder and the decoded values. \<open>Py_Os\<close>: UTF-8 decoding with replacement, files,
  commands with and without a deadline, handlers and cleanup; a \<open>host\<close> says how each command ends.

  \<^bold>\<open>The reference interpreter\<close> (\<open>Mcref_Ast\<close>, \<open>Mcref_Typing\<close>, \<open>Mcref_Layout\<close>, \<open>Mcref_Gen\<close>, \<open>Mcref_Gen_Sound\<close>, \<open>Mcref_Word\<close>,
  \<open>Mcref_Props\<close>; source \<open>mcref.py\<close>). Each AST class is a constructor with its \<open>eval\<close> and its \<open>render\<close>; \<open>RefGen\<close> is a
  record whose methods are programs over the tape. Shown: type soundness of the interpreter, that every build
  renders and evaluates to a value of 64 bits (five rounds of fuel are enough, because generated loops run at
  most four times; more fuel changes nothing), that the wrap and sat operators are those of machine words, and
  the layout facts behind \<open>sizeof\<close> and the overlay views.

  \<^bold>\<open>The fuzzer.\<close> \<open>Mcfuzz_Mutate\<close> and \<open>Mcfuzz_Async\<close> hold the hostile inputs and the async template;
  \<open>Mcfuzz_Oracles\<close> holds the oracles, one definition each with the commands, files and messages of the code;
  \<open>Mcfuzz_Artifacts\<close> the cross-artifact checks, with the writer they read. \<open>Mcfuzz_Oracle_Props\<close> states the contract
  of an oracle as the locale \<open>fuzz_oracle\<close> (nothing but \<open>OSError\<close> escapes) and interprets it on all fourteen;
  there and in \<open>Mcfuzz_Oracle_Exact\<close> and \<open>Mcfuzz_Oracle_Runs\<close> each oracle is characterised exactly, for a
  compiler and a tool chain that are functions of their inputs (\<open>compiler\<close>, \<open>toolchain\<close>; each theorem has a
  concrete instance as its witness). \<open>Mcfuzz_Triage\<close>, \<open>Mcfuzz_Shrink\<close> and \<open>Mcfuzz_Campaign\<close> hold what happens to
  findings: the signature survives the trip through the printed message, shrinking ends one-minimal, the
  commands printed for a person are read back by a shell as they were meant, buckets partition, and a
  campaign's exit status is right. \<open>Mcfuzz_Run\<close> joins the two halves: \<open>run_one\<close> on the machine refines the
  abstract step the campaign theorems use; this theory closes the circle with the generator below, whose
  programs are the ones \<open>run_one\<close> writes.

  \<^bold>\<open>The type-directed generator\<close> (class \<open>Gen\<close> of \<open>mcfuzz.py\<close>). \<open>Mcfuzz_Types\<close> holds the table of scalar types with
  literals and folds, \<open>Mcfuzz_Gen\<close> the state (\<open>gen_state\<close>, one field per attribute) with expressions and
  statements, \<open>Mcfuzz_Gen_Program\<close> the declarations, observers, folds and \<open>program\<close>. The proofs run the
  generator twice, as the metamorphic oracle does: \<open>Mcfuzz_Gen_Twin\<close> and \<open>Mcfuzz_Gen_Expr\<close> relate two
  runs of what only draws (locales \<open>twin_runs\<close>, \<open>twin_stmts\<close>), \<open>Mcfuzz_Gen_Stmt\<close> two runs that change the state
  (locale \<open>run_pair\<close>, interpreted on the relation \<open>twins\<close> between base and variant, on \<open>folding\<close> in
  \<open>Mcfuzz_Gen_Fold\<close> and on \<open>helper_run\<close> in \<open>Mcfuzz_Gen_Helpers\<close>). \<open>Mcfuzz_Gen_Decl\<close> shows that the declared types are
  well founded, \<open>Mcfuzz_Gen_Helpers\<close> the helper declarations, \<open>Mcfuzz_Gen_Folds\<close> and \<open>Mcfuzz_Gen_Views\<close> the digest,
  \<open>Mcfuzz_Gen_Harness\<close> the body, and \<open>Mcfuzz_Gen_Sound\<close> the program: it is always printed, well formed, and the
  variant makes the draws of the base. The variables that the variant declares after the overlay observers
  are numbered ahead by a constant; \<open>renamed\<close> is that renaming.

  \<^bold>\<open>The other generators\<close> (\<open>Mcgen\<close>, \<open>Mcgen_Sound\<close>, \<open>Mcgen_Move\<close>): every program of \<open>mcgen.py\<close> runs without a trap.
  The programs of \<open>mcgen_move.py\<close> are statement lists, printed and run: variables own resource identities,
  \<open>relabel\<close> moves them, every return runs the deferred releases pushed so far. No run of a generated one traps,
  and each identity made is released exactly once; a missing, repeated or misdirected \<open>defer\<close> leaks or traps
  in the same interpreter (\<open>missing_defer_leaks\<close>, \<open>double_defer_traps\<close>, \<open>deferred_moved_variable_traps\<close>).

  \<^bold>\<open>The tools\<close> (\<open>Dev_Gates\<close>, \<open>Dev_Gates_Props\<close>, \<open>Spec_Sweep\<close>, \<open>Mcmap_Verify\<close>): the whole rule table and the
  selection, its union, monotonicity and error exits, text files that end, cannot be read or are not UTF-8
  (\<open>text_file\<close>) among them; the largest closed choice of fixture chunks; exactly the source maps and the metadata
  sidecars the verifier accepts, and that a substituted payload is rejected.

  \<^bold>\<open>Backend failures and sweeps.\<close> \<open>Backend_Gap\<close> holds the parsing and rendering of failure causes, \<open>Backend_Manifest\<close>
  the check of the manifest, \<open>Spec_Emit\<close> the sweep that compares each failure with its record, \<open>Llvm_Sweeps\<close> the
  scan of a module for forbidden assumptions with the five LLVM sweeps, their allowlists and reports; commands,
  files and temporary files are those of \<open>Py_Os\<close>. \<open>Backend_Manifest_Props\<close> says exactly which manifests are
  accepted, \<open>Spec_Emit_Props\<close> exactly when a failure matches its record and what the sweep of an accepted manifest
  ends with, \<open>Llvm_Sweeps_Props\<close> that the scan is exact, when each sweep ends with status 0, and what a passing
  optimizer sweep has seen.

  \<^bold>\<open>Findings.\<close> The marker stripper of the triage does not know the async form of the reproduce hint
  (\<open>async_marker_kept\<close>); a pattern of the rule table misses the top level of \<open>std\<close> (\<open>std_top_level_unmapped\<close>);
  a text file that is not UTF-8 stops the gate selector, which means to fall back (\<open>select_gates_exact_union\<close>);
  the exemptions of the optimizer sweep cover c_emit fixtures, which its comment denies (\<open>listed_c_emit_ignored\<close>);
  the list of \<open>spec-llvm-sweep.py\<close> claims parity with the list of the C sweep and differs (\<open>allowlists_parity\<close>).

  \<^bold>\<open>Conventions and bounds.\<close> A Python \<open>str\<close> is its UTF-8 bytes; white space and case are those of ASCII. A command run
  without a deadline is taken to end; one run with a deadline may exceed it. Machine integers of the generated
  programs are Python integers reduced by masks, as the code has them, and are related to words where that is
  the point. Floats of \<open>random()\<close> are scaled integers, so comparisons are exact. The
  stack of \<open>gen_value\<close> is sixteen frames (\<open>value_depth\<close>): declared types nest at most seven deep and a float value
  four; blocks nest three deep. Running out of either is \<open>RecursionError\<close> and shown not to happen.

  \<^bold>\<open>Not modelled.\<close> What a program of \<open>Gen\<close> means when it runs (that needs the semantics of MC, which is the compiler's),
  the \<open>report\<close> statistics, argparse, the JSON of \<open>findings.jsonl\<close>, the thread pool (its results come
  in seed order, as \<open>Executor.map\<close> gives them), directory listings (arguments of the sweeps), the test drivers and documentation
  generators under \<open>src/tools/toolchain\<close>, and everything written in Zig, C, shell or MC.

  \<^bold>\<open>Plan.\<close> Next the \<open>report\<close> statistics, then the text extractors \<open>std-api-docs.py\<close>, \<open>diagnostics-reference.py\<close> and
  \<open>diagnostic-code-inventory.py\<close>, and the gate runner \<open>src/tools/ci/pass-gates.py\<close>.
\<close>

section \<open>The generator in the fuzzer\<close>

text \<open>\<open>Gen(seed, trapping, float_bits).program(metamorph)\<close> on the draws of the seed, and the environment whose programs it prints.\<close>

definition generated_source :: "nat list \<Rightarrow> bool \<Rightarrow> bool \<Rightarrow> bool \<Rightarrow> string" where
  "generated_source draws trapping float_bits metamorph =
     (case gen_program metamorph (new_gen draws trapping float_bits) of Inr (p, u) \<Rightarrow> p | Inl e \<Rightarrow> [])"

definition with_generator :: "fuzz_env \<Rightarrow> fuzz_env" where
  "with_generator env = env\<lparr>e_gen := (\<lambda>trapping float_bits metamorph seed. generated_source (e_draws env seed) trapping float_bits metamorph)\<rparr>"

lemma generated_source_ok:
  "valid_utf8 (generated_source draws trapping float_bits metamorph) \<and> contains (generated_source draws trapping float_bits metamorph) harness_marker"
proof -
  obtain p u where p: "gen_program metamorph (new_gen draws trapping float_bits) = Inr (p, u)"
    by (rule gen_program_runs [of draws trapping float_bits metamorph]) blast
  then show ?thesis using generated_text [OF p] by (simp add: generated_source_def harness_marker_def)
qed

lemma generator_source:
  "\<exists>body. source_for_seed (with_generator env) async seed h w = (Inr body, w) \<and> valid_utf8 body"
proof (cases async)
  case True
  obtain body s' where "async_program \<lparr>tape = e_draws env seed\<rparr> = Inr (body, s')" "valid_utf8 body"
    using async_program_plain [of "\<lparr>tape = e_draws env seed\<rparr>"] by blast
  with True show ?thesis by (simp add: source_for_seed_def with_rng_def io_lift_def with_generator_def)
next
  case False
  then show ?thesis using generated_source_ok by (simp add: source_for_seed_def io_ret_def with_generator_def)
qed

text \<open>
  C14. One seed of the fuzzer, from its draws to its verdict: with the programs that the generators print, in both
  modes and for every oracle of the table, \<open>run_one\<close> on the machine returns exactly the message of the abstract
  step that the campaign theorems are about, on the observed exit status of the checker and the observed
  answer of the oracle. Nothing is raised, whatever the tools do, on a machine where the work directory can be
  created, written and removed and the checker leaves the source in place.
\<close>

theorem generated_seed_refines:
  assumes "(name, orc) \<in> set oracle_table" and "env = with_generator env0"
    and "h_mkdtemp h w = Inr work" and "src = path_join work ''p.mc''"
    and "h_denied h src w = None" and "\<forall>v. \<exists>r. h_run h [''rm'', ''-rf'', work] [] [] v = Inr r"
    and "\<forall>body. w_files (snd (check_call env src h (put src body w))) src = Some body"
  shows "\<exists>body w1 w2 w'. source_for_seed env async seed h w = (Inr body, w) \<and> w1 = put src body w \<and> w2 = snd (check_call env src h w1) \<and>
    run_one_io env async orc seed h w =
      (Inr (run_one async (\<lambda>_. observed (check_call env src h w1)) (\<lambda>_. observed (orc env seed src work h w2)) seed), w')"
proof -
  obtain body where b: "source_for_seed env async seed h w = (Inr body, w)" "valid_utf8 body"
    using generator_source [of env0 async seed h w] assms(2) by blast
  from run_one_refines [OF assms(1,3,4) b assms(5,6) refl refl assms(7) [rule_format]] b(1) show ?thesis by blast
qed

theorem generated_seed_refines_witness:
  "\<exists>w'. run_one_io (with_generator demo_env) False oracle_pipeline 5 bare_host empty_world =
     (Inr (Some (fail_tag @ str_int 5 @ '': mcc check failed to execute: [Errno 2] No such file or directory'')), w')"
proof -
  let ?env = "with_generator demo_env" and ?src = "path_join ''/tmp/w'' ''p.mc''"
  have chk: "check_call ?env ?src bare_host w = (Inl (OSError ''[Errno 2] No such file or directory''), tick w)" for w
    by (simp add: check_call_def io_bind_def run_cmd_def run_proc_def bare_host_def demo_env_def with_generator_def tick_def)
  have "\<exists>body w1 w2 w'. source_for_seed ?env False 5 bare_host empty_world = (Inr body, empty_world) \<and> w1 = put ?src body empty_world \<and>
      w2 = snd (check_call ?env ?src bare_host w1) \<and> run_one_io ?env False oracle_pipeline 5 bare_host empty_world =
      (Inr (run_one False (\<lambda>_. observed (check_call ?env ?src bare_host w1)) (\<lambda>_. observed (oracle_pipeline ?env 5 ?src ''/tmp/w'' bare_host w2)) 5), w')"
  proof (rule generated_seed_refines [OF _ refl _ refl])
    show "(''pipeline'', oracle_pipeline) \<in> set oracle_table" by (simp add: oracle_table_def)
  qed (simp_all add: chk, simp_all add: bare_host_def tick_def)
  then show ?thesis by (auto simp: run_one_def chk observed_def)
qed

end
